(* ===== verification/AIRS_Prelude.thy ===== *)
theory AIRS_Prelude
  imports Complex_Main "HOL-Library.AList" "HOL-Library.Multiset"
begin

text \<open>
  Shared vocabulary of the development.

  The Python sources return values, raise exceptions, build dicts in insertion
  order and pick the best element of a list with the built-in \<open>max\<close>.  This theory
  holds what all components need of that: a result type (\<open>Inl\<close> the raised
  error, \<open>Inr\<close> the returned value), the first maximal element of a list, the
  string operations the services use (strings are lists of ASCII characters),
  and lemmas on \<open>find\<close>, on ordered association lists and on rational numbers.
\<close>

named_theorems result_simps "evaluation of results"

section \<open>Results\<close>

type_synonym ('e, 'a) result = "'e + 'a"

fun is_ok :: "('e, 'a) result \<Rightarrow> bool" where
  "is_ok (Inl e) = False"
| "is_ok (Inr x) = True"

fun res_bind :: "('e, 'a) result \<Rightarrow> ('a \<Rightarrow> ('e, 'b) result) \<Rightarrow> ('e, 'b) result" where
  "res_bind (Inl e) f = Inl e"
| "res_bind (Inr x) f = f x"

lemma is_ok_iff [result_simps]: "is_ok r \<longleftrightarrow> (\<exists>x. r = Inr x)"
  by (cases r) auto

lemma res_bind_Inr_iff [result_simps]:
  "res_bind r f = Inr y \<longleftrightarrow> (\<exists>x. r = Inr x \<and> f x = Inr y)"
  by (cases r) auto

lemma res_bind_Inl_iff [result_simps]:
  "res_bind r f = Inl e \<longleftrightarrow> r = Inl e \<or> (\<exists>x. r = Inr x \<and> f x = Inl e)"
  by (cases r) auto

section \<open>Searching lists\<close>

lemma find_Some_set: "find P xs = Some x \<Longrightarrow> x \<in> set xs \<and> P x"
  by (induction xs) (auto split: if_splits)

lemma find_None_all: "find P xs = None \<longleftrightarrow> (\<forall>x\<in>set xs. \<not> P x)"
  by (induction xs) auto

lemma find_unique:
  assumes "x \<in> set xs" "P x" "\<And>y. y \<in> set xs \<Longrightarrow> P y \<Longrightarrow> y = x"
  shows "find P xs = Some x"
proof (cases "find P xs")
  case None
  then show ?thesis using assms(1,2) by (simp add: find_None_all)
next
  case (Some y)
  then show ?thesis using find_Some_set[OF Some] assms(3) by blast
qed

lemma find_map_update:
  assumes "\<And>x. P (f x) = P x"
  shows "find P (map f xs) = map_option f (find P xs)"
  using assms by (induction xs) auto

text \<open>The first element with the greatest key: Python's \<open>max(xs, key=k)\<close>.\<close>

fun first_max :: "('a \<Rightarrow> 'k::linorder) \<Rightarrow> 'a list \<Rightarrow> 'a option" where
  "first_max k [] = None"
| "first_max k (x # xs) =
     (case first_max k xs of
        None \<Rightarrow> Some x
      | Some y \<Rightarrow> (if k y > k x then Some y else Some x))"

lemma first_max_None [simp]: "first_max k xs = None \<longleftrightarrow> xs = []"
  by (cases xs) (auto split: option.splits)

lemma first_max_in: "first_max k xs = Some x \<Longrightarrow> x \<in> set xs"
  by (induction xs arbitrary: x) (auto split: option.splits if_splits)

lemma first_max_ge: "first_max k xs = Some x \<Longrightarrow> y \<in> set xs \<Longrightarrow> k y \<le> k x"
proof (induction xs arbitrary: x y)
  case (Cons a xs)
  show ?case
  proof (cases "first_max k xs")
    case None
    then show ?thesis using Cons.prems by simp
  next
    case (Some m)
    have "k y \<le> k m \<or> y = a" using Cons.IH[OF Some] Cons.prems(2) by auto
    moreover have "k a \<le> k x \<and> k m \<le> k x"
      using Cons.prems(1) Some by (auto split: if_splits)
    ultimately show ?thesis by auto
  qed
qed simp

lemma first_max_first:
  assumes "first_max k xs = Some x"
  shows "\<exists>ys zs. xs = ys @ x # zs \<and> (\<forall>y\<in>set ys. k y < k x)"
  using assms
proof (induction xs arbitrary: x)
  case (Cons a xs)
  show ?case
  proof (cases "first_max k xs")
    case None
    then show ?thesis using Cons.prems by (intro exI[of _ "[]"]) auto
  next
    case (Some y)
    then obtain ys zs where split: "xs = ys @ y # zs" "\<forall>z\<in>set ys. k z < k y"
      using Cons.IH by blast
    show ?thesis
    proof (cases "k a < k y")
      case True
      then have "x = y" using Cons.prems Some by simp
      with split True show ?thesis by (intro exI[of _ "a # ys"] exI[of _ zs]) auto
    next
      case False
      then have "x = a" using Cons.prems Some by simp
      then show ?thesis by (intro exI[of _ "[]"] exI[of _ xs]) simp
    qed
  qed
qed simp

section \<open>Stable sorting\<close>

lemma insort_key_map_eq:
  assumes "k (f x) = k x" "\<And>y. y \<in> set ys \<Longrightarrow> k (f y) = k y"
  shows "insort_key k (f x) (map f ys) = map f (insort_key k x ys)"
  using assms by (induction ys) auto

lemma sort_key_map_eq:
  "(\<And>x. x \<in> set xs \<Longrightarrow> k (f x) = k x) \<Longrightarrow> sort_key k (map f xs) = map f (sort_key k xs)"
proof (induction xs)
  case (Cons a xs)
  have "insort_key k (f a) (map f (sort_key k xs)) = map f (insort_key k a (sort_key k xs))"
    by (rule insort_key_map_eq) (use Cons.prems in auto)
  with Cons show ?case by simp
qed simp

lemma insort_key_snoc: "k y \<le> k x \<Longrightarrow> insort_key k y (ys @ [x]) = insort_key k y ys @ [x]"
  by (induction ys) auto

lemma sort_key_snoc:
  "(\<And>y. y \<in> set xs \<Longrightarrow> k y \<le> k x) \<Longrightarrow> sort_key k (xs @ [x]) = sort_key k xs @ [x]"
  by (induction xs) (simp_all add: insort_key_snoc)

section \<open>Ordered association lists (Python dicts)\<close>

lemma update_keys:
  "map fst (AList.update k v al) =
     (if k \<in> set (map fst al) then map fst al else map fst al @ [k])"
  by (induction al) auto

lemma update_keys_distinct:
  "distinct (map fst al) \<Longrightarrow> distinct (map fst (AList.update k v al))"
  by (simp add: update_keys)

section \<open>Strings\<close>

definition is_space :: "char \<Rightarrow> bool" where
  "is_space c \<longleftrightarrow> of_char c \<in> ({9, 10, 11, 12, 13, 28, 29, 30, 31, 32} :: nat set)"

definition strip :: "string \<Rightarrow> string" where
  "strip s = rev (dropWhile is_space (rev (dropWhile is_space s)))"

definition lower_char :: "char \<Rightarrow> char" where
  "lower_char c = (let n = (of_char c :: nat) in if 65 \<le> n \<and> n \<le> 90 then char_of (n + 32) else c)"

definition lower :: "string \<Rightarrow> string" where
  "lower s = map lower_char s"

lemma strip_Nil_iff: "strip s = [] \<longleftrightarrow> (\<forall>c\<in>set s. is_space c)"
proof
  assume "strip s = []"
  then have all: "\<forall>c\<in>set (dropWhile is_space s). is_space c"
    by (simp add: strip_def dropWhile_eq_Nil_conv)
  then have "dropWhile is_space s = []"
    by (metis hd_dropWhile hd_in_set)
  then show "\<forall>c\<in>set s. is_space c" by (simp add: dropWhile_eq_Nil_conv)
next
  assume "\<forall>c\<in>set s. is_space c"
  then show "strip s = []" by (auto simp: strip_def dest: set_dropWhileD)
qed

lemma lower_char_idem [simp]: "lower_char (lower_char c) = lower_char c"
  by (auto simp: lower_char_def Let_def)

lemma lower_idem [simp]: "lower (lower s) = lower s"
  by (simp add: lower_def)

end
