(* ===== verification/Transition_Table.thy ===== *)
theory Transition_Table
  imports AIRS_Prelude
begin

text \<open>
  The stages of a candidate's pipeline (\<open>app/models/pipeline.py\<close>), the seeded
  governance table \<open>allowed_transitions\<close>
  (\<open>app/seeds/seed_allowed_transitions.py\<close>, every row in file order) and the
  queries on it (\<open>app/repositories/allowed_transition_repository.py\<close>).

  A table is a list of rows, in the order the database returns them; the
  queries take the table as an argument, so their laws hold for every table
  that keeps the unique constraints of \<open>AllowedTransition\<close>.  The locale
  \<open>transition_lookup\<close> is the interface that the transition services use; it is
  interpreted here on the repository's queries over the seeded table.
\<close>

section \<open>Stages, roles and rows\<close>

datatype pipeline_stage =
    UPLOADED | SCREENING | SHORTLISTED | HOLD | HM_REVIEW
  | INTERVIEW | SELECTED | REJECTED | FRAUD_REVIEW

datatype role_name = RECRUITER | HIRING_MANAGER | SYSTEM | HR_ADMIN | Other_Role string

record allowed_transition =
  at_previous :: "pipeline_stage option"
  at_from :: pipeline_stage
  at_to :: pipeline_stage
  at_roles :: "role_name list"
  at_requires_reason :: bool

text \<open>
  The stages in the order of their values (strings), used where the code sorts
  by \<open>to_stage.value\<close>; and the enumeration of all stages.
\<close>

fun stage_rank :: "pipeline_stage \<Rightarrow> nat" where
  "stage_rank FRAUD_REVIEW = 0"
| "stage_rank HM_REVIEW = 1"
| "stage_rank HOLD = 2"
| "stage_rank INTERVIEW = 3"
| "stage_rank REJECTED = 4"
| "stage_rank SCREENING = 5"
| "stage_rank SELECTED = 6"
| "stage_rank SHORTLISTED = 7"
| "stage_rank UPLOADED = 8"

lemma stage_rank_inj: "stage_rank a = stage_rank b \<Longrightarrow> a = b"
  by (cases a; cases b) simp_all

instantiation pipeline_stage :: linorder
begin

definition less_eq_pipeline_stage :: "pipeline_stage \<Rightarrow> pipeline_stage \<Rightarrow> bool" where
  "less_eq_pipeline_stage a b \<longleftrightarrow> stage_rank a \<le> stage_rank b"

definition less_pipeline_stage :: "pipeline_stage \<Rightarrow> pipeline_stage \<Rightarrow> bool" where
  "less_pipeline_stage a b \<longleftrightarrow> stage_rank a < stage_rank b"

instance
  by standard
    (auto simp: less_eq_pipeline_stage_def less_pipeline_stage_def intro: stage_rank_inj)

end

instantiation pipeline_stage :: enum
begin

definition enum_pipeline_stage :: "pipeline_stage list" where
  "enum_pipeline_stage = [UPLOADED, SCREENING, SHORTLISTED, HOLD, HM_REVIEW,
     INTERVIEW, SELECTED, REJECTED, FRAUD_REVIEW]"

definition enum_all_pipeline_stage :: "(pipeline_stage \<Rightarrow> bool) \<Rightarrow> bool" where
  "enum_all_pipeline_stage P \<longleftrightarrow> list_all P [UPLOADED, SCREENING, SHORTLISTED, HOLD,
     HM_REVIEW, INTERVIEW, SELECTED, REJECTED, FRAUD_REVIEW]"

definition enum_ex_pipeline_stage :: "(pipeline_stage \<Rightarrow> bool) \<Rightarrow> bool" where
  "enum_ex_pipeline_stage P \<longleftrightarrow> list_ex P [UPLOADED, SCREENING, SHORTLISTED, HOLD,
     HM_REVIEW, INTERVIEW, SELECTED, REJECTED, FRAUD_REVIEW]"

instance
proof
  show univ: "(UNIV :: pipeline_stage set) = set enum_class.enum"
    unfolding enum_pipeline_stage_def by (auto intro: pipeline_stage.exhaust)
  show "distinct (enum_class.enum :: pipeline_stage list)"
    unfolding enum_pipeline_stage_def by simp
  show "enum_class.enum_all P \<longleftrightarrow> Ball UNIV P" for P :: "pipeline_stage \<Rightarrow> bool"
    unfolding univ enum_pipeline_stage_def enum_all_pipeline_stage_def by simp
  show "enum_class.enum_ex P \<longleftrightarrow> Bex UNIV P" for P :: "pipeline_stage \<Rightarrow> bool"
    unfolding univ enum_pipeline_stage_def enum_ex_pipeline_stage_def by simp
qed

end

definition transition_row ::
    "pipeline_stage option \<Rightarrow> pipeline_stage \<Rightarrow> pipeline_stage \<Rightarrow> role_name list \<Rightarrow> bool
     \<Rightarrow> allowed_transition" where
  "transition_row p f t roles reason =
     \<lparr>at_previous = p, at_from = f, at_to = t, at_roles = roles, at_requires_reason = reason\<rparr>"

section \<open>The seeded table\<close>

definition uploaded_rows :: "allowed_transition list" where
  "uploaded_rows =
    [transition_row None UPLOADED SCREENING [SYSTEM] False,
     transition_row None UPLOADED FRAUD_REVIEW [SYSTEM] True]"

definition screening_rows :: "allowed_transition list" where
  "screening_rows =
    [transition_row None SCREENING SHORTLISTED [RECRUITER, SYSTEM] False,
     transition_row None SCREENING HOLD [RECRUITER] False,
     transition_row None SCREENING REJECTED [RECRUITER, SYSTEM] True,
     transition_row None SCREENING FRAUD_REVIEW [RECRUITER, SYSTEM] True,
     transition_row None SCREENING UPLOADED [RECRUITER] True]"

definition shortlisted_rows :: "allowed_transition list" where
  "shortlisted_rows =
    [transition_row None SHORTLISTED HM_REVIEW [RECRUITER] False,
     transition_row None SHORTLISTED INTERVIEW [RECRUITER] False,
     transition_row None SHORTLISTED HOLD [RECRUITER] False,
     transition_row None SHORTLISTED REJECTED [RECRUITER] True,
     transition_row None SHORTLISTED FRAUD_REVIEW [RECRUITER, SYSTEM] True,
     transition_row None SHORTLISTED UPLOADED [RECRUITER] True,
     transition_row (Some HM_REVIEW) SHORTLISTED HM_REVIEW [HIRING_MANAGER] False,
     transition_row (Some HM_REVIEW) SHORTLISTED INTERVIEW [HIRING_MANAGER] False,
     transition_row (Some HM_REVIEW) SHORTLISTED HOLD [HIRING_MANAGER] False,
     transition_row (Some HM_REVIEW) SHORTLISTED REJECTED [HIRING_MANAGER] True,
     transition_row (Some HM_REVIEW) SHORTLISTED FRAUD_REVIEW [HIRING_MANAGER] True]"

definition hm_review_rows_1 :: "allowed_transition list" where
  "hm_review_rows_1 =
    [transition_row (Some SHORTLISTED) HM_REVIEW INTERVIEW [HIRING_MANAGER] False,
     transition_row (Some SHORTLISTED) HM_REVIEW HOLD [HIRING_MANAGER] False,
     transition_row (Some SHORTLISTED) HM_REVIEW REJECTED [HIRING_MANAGER] True,
     transition_row (Some SHORTLISTED) HM_REVIEW FRAUD_REVIEW [HIRING_MANAGER] True,
     transition_row (Some SCREENING) HM_REVIEW INTERVIEW [HIRING_MANAGER] False,
     transition_row (Some SCREENING) HM_REVIEW HOLD [HIRING_MANAGER] False,
     transition_row (Some SCREENING) HM_REVIEW REJECTED [HIRING_MANAGER] True,
     transition_row (Some SCREENING) HM_REVIEW FRAUD_REVIEW [HIRING_MANAGER] True,
     transition_row (Some INTERVIEW) HM_REVIEW SELECTED [HIRING_MANAGER] False,
     transition_row (Some INTERVIEW) HM_REVIEW INTERVIEW [HIRING_MANAGER] False,
     transition_row (Some INTERVIEW) HM_REVIEW SHORTLISTED [HIRING_MANAGER] False,
     transition_row (Some INTERVIEW) HM_REVIEW HOLD [HIRING_MANAGER] False,
     transition_row (Some INTERVIEW) HM_REVIEW REJECTED [HIRING_MANAGER] True,
     transition_row (Some INTERVIEW) HM_REVIEW FRAUD_REVIEW [HIRING_MANAGER] True,
     transition_row (Some SELECTED) HM_REVIEW SELECTED [HIRING_MANAGER] False,
     transition_row (Some SELECTED) HM_REVIEW INTERVIEW [HIRING_MANAGER] False,
     transition_row (Some SELECTED) HM_REVIEW REJECTED [HIRING_MANAGER] True,
     transition_row (Some SELECTED) HM_REVIEW FRAUD_REVIEW [HIRING_MANAGER] True]"

definition hm_review_rows_2 :: "allowed_transition list" where
  "hm_review_rows_2 =
    [transition_row (Some HOLD) HM_REVIEW INTERVIEW [HIRING_MANAGER] False,
     transition_row (Some HOLD) HM_REVIEW SHORTLISTED [HIRING_MANAGER] False,
     transition_row (Some HOLD) HM_REVIEW REJECTED [HIRING_MANAGER] True,
     transition_row (Some HOLD) HM_REVIEW FRAUD_REVIEW [HIRING_MANAGER] True,
     transition_row (Some REJECTED) HM_REVIEW SCREENING [HIRING_MANAGER] False,
     transition_row (Some REJECTED) HM_REVIEW SHORTLISTED [HIRING_MANAGER] False,
     transition_row (Some REJECTED) HM_REVIEW INTERVIEW [HIRING_MANAGER] False,
     transition_row (Some REJECTED) HM_REVIEW REJECTED [HIRING_MANAGER] True,
     transition_row (Some REJECTED) HM_REVIEW FRAUD_REVIEW [HIRING_MANAGER] True,
     transition_row (Some FRAUD_REVIEW) HM_REVIEW INTERVIEW [HIRING_MANAGER] False,
     transition_row (Some FRAUD_REVIEW) HM_REVIEW SHORTLISTED [HIRING_MANAGER] False,
     transition_row (Some FRAUD_REVIEW) HM_REVIEW REJECTED [HIRING_MANAGER] True]"

definition interview_rows :: "allowed_transition list" where
  "interview_rows =
    [transition_row None INTERVIEW SELECTED [RECRUITER] False,
     transition_row None INTERVIEW REJECTED [RECRUITER] True,
     transition_row None INTERVIEW HOLD [RECRUITER] False,
     transition_row None INTERVIEW HM_REVIEW [RECRUITER] False,
     transition_row None INTERVIEW FRAUD_REVIEW [RECRUITER, SYSTEM] True,
     transition_row (Some HM_REVIEW) INTERVIEW SELECTED [HIRING_MANAGER] False,
     transition_row (Some HM_REVIEW) INTERVIEW REJECTED [HIRING_MANAGER] True,
     transition_row (Some HM_REVIEW) INTERVIEW HOLD [HIRING_MANAGER] False,
     transition_row (Some HM_REVIEW) INTERVIEW HM_REVIEW [HIRING_MANAGER] False,
     transition_row (Some HM_REVIEW) INTERVIEW FRAUD_REVIEW [HIRING_MANAGER, SYSTEM] True]"

definition selected_rows :: "allowed_transition list" where
  "selected_rows =
    [transition_row None SELECTED REJECTED [RECRUITER] True,
     transition_row None SELECTED HM_REVIEW [RECRUITER] True,
     transition_row None SELECTED FRAUD_REVIEW [RECRUITER, SYSTEM] True,
     transition_row (Some HM_REVIEW) SELECTED REJECTED [HIRING_MANAGER] True,
     transition_row (Some HM_REVIEW) SELECTED INTERVIEW [HIRING_MANAGER] False,
     transition_row (Some HM_REVIEW) SELECTED FRAUD_REVIEW [HIRING_MANAGER] True]"

definition hold_rows :: "allowed_transition list" where
  "hold_rows =
    [transition_row (Some SCREENING) HOLD SHORTLISTED [RECRUITER] False,
     transition_row (Some SCREENING) HOLD REJECTED [RECRUITER] True,
     transition_row (Some SCREENING) HOLD UPLOADED [RECRUITER] True,
     transition_row (Some SHORTLISTED) HOLD HM_REVIEW [RECRUITER] False,
     transition_row (Some SHORTLISTED) HOLD INTERVIEW [RECRUITER] False,
     transition_row (Some SHORTLISTED) HOLD REJECTED [RECRUITER] True,
     transition_row (Some SHORTLISTED) HOLD UPLOADED [RECRUITER] True,
     transition_row (Some INTERVIEW) HOLD SELECTED [RECRUITER] False,
     transition_row (Some INTERVIEW) HOLD REJECTED [RECRUITER] True,
     transition_row (Some INTERVIEW) HOLD UPLOADED [RECRUITER] True,
     transition_row (Some HM_REVIEW) HOLD INTERVIEW [HIRING_MANAGER] False,
     transition_row (Some HM_REVIEW) HOLD REJECTED [HIRING_MANAGER] True,
     transition_row (Some HM_REVIEW) HOLD UPLOADED [HIRING_MANAGER] True,
     transition_row (Some FRAUD_REVIEW) HOLD HOLD [HIRING_MANAGER] True,
     transition_row (Some FRAUD_REVIEW) HOLD REJECTED [HIRING_MANAGER] True]"

definition rejected_rows :: "allowed_transition list" where
  "rejected_rows =
    [transition_row (Some SCREENING) REJECTED SCREENING [RECRUITER] True,
     transition_row (Some SHORTLISTED) REJECTED SCREENING [RECRUITER] True,
     transition_row (Some HOLD) REJECTED SCREENING [RECRUITER] True,
     transition_row (Some INTERVIEW) REJECTED INTERVIEW [RECRUITER] True,
     transition_row (Some SELECTED) REJECTED HM_REVIEW [RECRUITER] True,
     transition_row (Some HM_REVIEW) REJECTED HM_REVIEW [HIRING_MANAGER] True,
     transition_row (Some FRAUD_REVIEW) REJECTED SCREENING [HIRING_MANAGER] True]"

definition fraud_review_rows_1 :: "allowed_transition list" where
  "fraud_review_rows_1 =
    [transition_row (Some UPLOADED) FRAUD_REVIEW SCREENING [HIRING_MANAGER] True,
     transition_row (Some SCREENING) FRAUD_REVIEW SCREENING [HIRING_MANAGER] True,
     transition_row (Some SCREENING) FRAUD_REVIEW SHORTLISTED [HIRING_MANAGER] True,
     transition_row (Some SCREENING) FRAUD_REVIEW REJECTED [HIRING_MANAGER] True,
     transition_row (Some SHORTLISTED) FRAUD_REVIEW SHORTLISTED [HIRING_MANAGER] True,
     transition_row (Some SHORTLISTED) FRAUD_REVIEW HM_REVIEW [HIRING_MANAGER] True,
     transition_row (Some SHORTLISTED) FRAUD_REVIEW INTERVIEW [HIRING_MANAGER] True,
     transition_row (Some SHORTLISTED) FRAUD_REVIEW REJECTED [HIRING_MANAGER] True,
     transition_row (Some HM_REVIEW) FRAUD_REVIEW HM_REVIEW [HIRING_MANAGER] True,
     transition_row (Some HM_REVIEW) FRAUD_REVIEW INTERVIEW [HIRING_MANAGER] True,
     transition_row (Some HM_REVIEW) FRAUD_REVIEW REJECTED [HIRING_MANAGER] True,
     transition_row (Some INTERVIEW) FRAUD_REVIEW INTERVIEW [HIRING_MANAGER] True]"

definition fraud_review_rows_2 :: "allowed_transition list" where
  "fraud_review_rows_2 =
    [transition_row (Some INTERVIEW) FRAUD_REVIEW SELECTED [HIRING_MANAGER] True,
     transition_row (Some INTERVIEW) FRAUD_REVIEW REJECTED [HIRING_MANAGER] True,
     transition_row (Some SELECTED) FRAUD_REVIEW SELECTED [HIRING_MANAGER] True,
     transition_row (Some SELECTED) FRAUD_REVIEW HM_REVIEW [HIRING_MANAGER] True,
     transition_row (Some SELECTED) FRAUD_REVIEW REJECTED [HIRING_MANAGER] True,
     transition_row (Some HOLD) FRAUD_REVIEW HOLD [HIRING_MANAGER] True,
     transition_row (Some HOLD) FRAUD_REVIEW REJECTED [HIRING_MANAGER] True,
     transition_row (Some REJECTED) FRAUD_REVIEW SCREENING [HIRING_MANAGER] True,
     transition_row (Some REJECTED) FRAUD_REVIEW SHORTLISTED [HIRING_MANAGER] True,
     transition_row (Some REJECTED) FRAUD_REVIEW INTERVIEW [HIRING_MANAGER] True,
     transition_row (Some REJECTED) FRAUD_REVIEW REJECTED [HIRING_MANAGER] True]"

definition seeded_rows :: "allowed_transition list" where
  "seeded_rows = uploaded_rows @
     screening_rows @
     shortlisted_rows @
     hm_review_rows_1 @
     hm_review_rows_2 @
     interview_rows @
     selected_rows @
     hold_rows @
     rejected_rows @
     fraud_review_rows_1 @
     fraud_review_rows_2"

lemmas seeded_rows_defs =
  uploaded_rows_def screening_rows_def shortlisted_rows_def hm_review_rows_1_def hm_review_rows_2_def interview_rows_def selected_rows_def hold_rows_def rejected_rows_def fraud_review_rows_1_def fraud_review_rows_2_def

section \<open>Seeding\<close>

text \<open>
  The seed script adds a row unless one with its key is already there, so it
  can be run again; \<open>previous_stage == None\<close> in its query is \<open>IS NULL\<close>.
\<close>

definition row_key :: "allowed_transition \<Rightarrow> pipeline_stage option \<times> pipeline_stage \<times> pipeline_stage" where
  "row_key r = (at_previous r, at_from r, at_to r)"

definition seed_row :: "allowed_transition list \<Rightarrow> allowed_transition \<Rightarrow> allowed_transition list" where
  "seed_row T r =
     (case find (\<lambda>e. at_previous e = at_previous r \<and> at_from e = at_from r \<and> at_to e = at_to r) T of
        Some existing \<Rightarrow> T
      | None \<Rightarrow> T @ [r])"

definition seed_table :: "allowed_transition list \<Rightarrow> allowed_transition list" where
  "seed_table T = fold (\<lambda>r acc. seed_row acc r) seeded_rows T"

definition unique_rows :: "allowed_transition list \<Rightarrow> bool" where
  "unique_rows T \<longleftrightarrow> distinct (map row_key T)"

section \<open>Queries\<close>

definition get_row ::
    "allowed_transition list \<Rightarrow> pipeline_stage \<Rightarrow> pipeline_stage \<Rightarrow> pipeline_stage option
     \<Rightarrow> allowed_transition option" where
  "get_row T f t p =
     (let wildcard = find (\<lambda>r. at_previous r = None \<and> at_from r = f \<and> at_to r = t) T in
      case p of
        None \<Rightarrow> wildcard
      | Some q \<Rightarrow>
          (case find (\<lambda>r. at_previous r = Some q \<and> at_from r = f \<and> at_to r = t) T of
             Some exact \<Rightarrow> Some exact
           | None \<Rightarrow> wildcard))"

definition is_transition_allowed ::
    "allowed_transition list \<Rightarrow> pipeline_stage \<Rightarrow> pipeline_stage \<Rightarrow> pipeline_stage option \<Rightarrow> bool" where
  "is_transition_allowed T f t p \<longleftrightarrow> get_row T f t p \<noteq> None"

definition resolve_row ::
    "allowed_transition \<Rightarrow> (pipeline_stage \<times> allowed_transition) list
     \<Rightarrow> (pipeline_stage \<times> allowed_transition) list" where
  "resolve_row r resolved =
     (if at_previous r \<noteq> None \<or> at_to r \<notin> set (map fst resolved)
      then AList.update (at_to r) r resolved else resolved)"

definition list_eligible ::
    "allowed_transition list \<Rightarrow> pipeline_stage \<Rightarrow> pipeline_stage option \<Rightarrow> allowed_transition list" where
  "list_eligible T f p =
     map snd (fold resolve_row
       (filter (\<lambda>r. at_from r = f \<and> (at_previous r = None \<or> at_previous r = p)) T) [])"

section \<open>Laws of the queries\<close>

lemma get_row_key:
  assumes "get_row T f t p = Some r"
  shows "r \<in> set T" "at_from r = f" "at_to r = t" "at_previous r = None \<or> at_previous r = p"
  using assms find_Some_set
  by (force simp: get_row_def Let_def split: option.splits)+

lemma get_row_exact:
  assumes "unique_rows T" "r \<in> set T"
  shows "get_row T (at_from r) (at_to r) (at_previous r) = Some r"
proof -
  have inj: "y = r" if "y \<in> set T" "row_key y = row_key r" for y
    using assms that by (auto simp: unique_rows_def distinct_map inj_on_def)
  have "find (\<lambda>e. at_previous e = at_previous r \<and> at_from e = at_from r \<and> at_to e = at_to r) T = Some r"
    by (rule find_unique) (use assms inj in \<open>auto simp: row_key_def\<close>)
  then show ?thesis
    by (cases "at_previous r") (simp_all add: get_row_def)
qed

lemma get_row_shadowed:
  assumes "unique_rows T" "w \<in> set T" "at_previous w = None"
    and "\<And>e. e \<in> set T \<Longrightarrow> at_from e = at_from w \<Longrightarrow> at_to e = at_to w \<Longrightarrow> at_previous e \<noteq> Some q"
  shows "get_row T (at_from w) (at_to w) (Some q) = Some w"
proof -
  have "find (\<lambda>r. at_previous r = Some q \<and> at_from r = at_from w \<and> at_to r = at_to w) T = None"
    using assms(4) by (fastforce simp: find_None_all)
  moreover have "get_row T (at_from w) (at_to w) None = Some w"
    using get_row_exact[OF assms(1,2)] assms(3) by simp
  ultimately show ?thesis by (simp add: get_row_def)
qed

lemma get_row_None_iff:
  "get_row T f t p = None \<longleftrightarrow>
     (\<forall>r\<in>set T. at_from r = f \<and> at_to r = t \<longrightarrow> at_previous r \<noteq> None \<and> at_previous r \<noteq> p)"
proof (cases p)
  case None
  then show ?thesis by (auto simp: get_row_def find_None_all)
next
  case (Some q)
  show ?thesis
  proof (cases "find (\<lambda>r. at_previous r = Some q \<and> at_from r = f \<and> at_to r = t) T")
    case none: None
    then have "get_row T f t p = find (\<lambda>r. at_previous r = None \<and> at_from r = f \<and> at_to r = t) T"
      using Some by (simp add: get_row_def)
    with none Some show ?thesis by (auto simp: find_None_all)
  next
    case (Some e)
    then have "e \<in> set T" "at_previous e = p" "at_from e = f" "at_to e = t"
      using find_Some_set[OF Some] \<open>p = Some q\<close> by auto
    moreover have "get_row T f t p = Some e" using Some \<open>p = Some q\<close> by (simp add: get_row_def)
    ultimately show ?thesis by auto
  qed
qed

lemma find_append: "find P (xs @ ys) = (case find P xs of None \<Rightarrow> find P ys | Some x \<Rightarrow> Some x)"
  by (induction xs) auto

lemma resolved_keys_distinct:
  "distinct (map fst al) \<Longrightarrow> distinct (map fst (fold resolve_row L al))"
  by (induction L arbitrary: al) (simp_all add: resolve_row_def update_keys_distinct)

lemma resolved_key_is_target:
  "(\<And>k r. (k, r) \<in> set al \<Longrightarrow> at_to r = k) \<Longrightarrow> (k, r) \<in> set (fold resolve_row L al) \<Longrightarrow> at_to r = k"
proof (induction L arbitrary: al)
  case (Cons x L)
  have upd: "at_to r' = k'" if "(k', r') \<in> set (resolve_row x al)" for k' r'
  proof -
    have "set (AList.update (at_to x) x al) \<subseteq> insert (at_to x, x) (set al)"
      by (induction al) auto
    then have "(k', r') = (at_to x, x) \<or> (k', r') \<in> set al"
      using that by (auto simp: resolve_row_def split: if_splits)
    then show ?thesis using Cons.prems(1) by auto
  qed
  from Cons.IH[OF upd] Cons.prems(2) show ?case by simp
qed simp

lemma map_of_resolve_row:
  "map_of (resolve_row r al) t =
     (if at_to r = t \<and> (at_previous r \<noteq> None \<or> map_of al t = None) then Some r else map_of al t)"
  by (auto simp: resolve_row_def update_conv map_of_eq_None_iff)

lemma map_of_resolved:
  assumes "distinct (map (\<lambda>r. (at_previous r, at_to r)) L)"
    and "\<And>r. r \<in> set L \<Longrightarrow> at_previous r = None \<or> at_previous r = p"
  shows "map_of (fold resolve_row L []) t =
           (case find (\<lambda>r. at_previous r \<noteq> None \<and> at_to r = t) L of
              Some r \<Rightarrow> Some r
            | None \<Rightarrow> find (\<lambda>r. at_previous r = None \<and> at_to r = t) L)"
  using assms
proof (induction L rule: rev_induct)
  case (snoc x L)
  let ?old = "fold resolve_row L []"
  let ?exact = "find (\<lambda>r. at_previous r \<noteq> None \<and> at_to r = t) L"
  let ?wild = "find (\<lambda>r. at_previous r = None \<and> at_to r = t) L"
  have ih: "map_of ?old t = (case ?exact of Some r \<Rightarrow> Some r | None \<Rightarrow> ?wild)"
    by (rule snoc.IH) (use snoc.prems in auto)
  show ?case
  proof (cases "at_to x = t")
    case False
    with ih show ?thesis by (auto simp: map_of_resolve_row find_append split: option.splits)
  next
    case True
    have fresh: "(at_previous x, at_to x) \<noteq> (at_previous r, at_to r)" if "r \<in> set L" for r
      using that snoc.prems(1) by auto
    show ?thesis
    proof (cases "at_previous x")
      case None
      then have "?wild = None" using fresh True by (fastforce simp: find_None_all)
      with None True ih show ?thesis
        by (simp add: find_append map_of_resolve_row split: option.splits)
    next
      case (Some q)
      have "?exact = None"
        using fresh True Some snoc.prems(2) by (force simp: find_None_all)
      with Some True show ?thesis
        by (simp add: find_append map_of_resolve_row)
    qed
  qed
qed simp

lemma find_filter: "find P (filter Q xs) = find (\<lambda>x. Q x \<and> P x) xs"
  by (induction xs) auto

lemma resolved_is_get_row:
  assumes "unique_rows T"
  shows "map_of (fold resolve_row
           (filter (\<lambda>r. at_from r = f \<and> (at_previous r = None \<or> at_previous r = p)) T) []) t
         = get_row T f t p"
proof -
  let ?L = "filter (\<lambda>r. at_from r = f \<and> (at_previous r = None \<or> at_previous r = p)) T"
  have "distinct (map row_key ?L)"
    using assms by (auto simp: unique_rows_def distinct_map intro: inj_on_subset)
  then have d: "distinct (map (\<lambda>r. (at_previous r, at_to r)) ?L)"
    by (auto simp: distinct_map inj_on_def row_key_def)
  have fe: "find (\<lambda>r. at_previous r \<noteq> None \<and> at_to r = t) ?L =
        (case p of None \<Rightarrow> None
         | Some q \<Rightarrow> find (\<lambda>r. at_previous r = Some q \<and> at_from r = f \<and> at_to r = t) T)"
    by (cases p) (auto simp: find_filter find_None_all intro!: arg_cong[where f = "\<lambda>P. find P T"])
  have fw: "find (\<lambda>r. at_previous r = None \<and> at_to r = t) ?L =
        find (\<lambda>r. at_previous r = None \<and> at_from r = f \<and> at_to r = t) T"
    by (auto simp: find_filter intro!: arg_cong[where f = "\<lambda>P. find P T"])
  have "map_of (fold resolve_row ?L []) t =
      (case find (\<lambda>r. at_previous r \<noteq> None \<and> at_to r = t) ?L of
         Some r \<Rightarrow> Some r
       | None \<Rightarrow> find (\<lambda>r. at_previous r = None \<and> at_to r = t) ?L)"
    by (rule map_of_resolved[where p = p]) (use d in auto)
  then show ?thesis
    unfolding fe fw by (cases p) (auto simp: get_row_def split: option.splits)
qed

lemma list_eligible_distinct: "distinct (map at_to (list_eligible T f p))"
proof -
  let ?al = "fold resolve_row
    (filter (\<lambda>r. at_from r = f \<and> (at_previous r = None \<or> at_previous r = p)) T) []"
  have "at_to r = k" if "(k, r) \<in> set ?al" for k r
    using resolved_key_is_target[of "[]" k r] that by simp
  then have "map at_to (map snd ?al) = map fst ?al" by (auto simp: comp_def)
  then show ?thesis
    unfolding list_eligible_def by (simp add: resolved_keys_distinct del: map_map)
qed

lemma list_eligible_iff_get:
  assumes "unique_rows T"
  shows "r \<in> set (list_eligible T f p) \<longleftrightarrow> get_row T f (at_to r) p = Some r"
proof -
  let ?al = "fold resolve_row
    (filter (\<lambda>r. at_from r = f \<and> (at_previous r = None \<or> at_previous r = p)) T) []"
  have d: "distinct (map fst ?al)" by (rule resolved_keys_distinct) simp
  have key: "at_to r' = k" if "(k, r') \<in> set ?al" for k r'
    using resolved_key_is_target[of "[]" k r'] that by simp
  have "r \<in> set (list_eligible T f p) \<longleftrightarrow> (at_to r, r) \<in> set ?al"
    using key unfolding list_eligible_def by force
  also have "\<dots> \<longleftrightarrow> map_of ?al (at_to r) = Some r"
    using d by (simp add: map_of_eq_Some_iff)
  finally show ?thesis using resolved_is_get_row[OF assms] by simp
qed

section \<open>The lookup interface\<close>

text \<open>
  What a transition service relies on: a governing row is for the move asked,
  is a wildcard or was declared for the stage the candidate came from, and the
  menu of a stage lists exactly the governing rows.
\<close>

locale transition_lookup =
  fixes lookup :: "pipeline_stage \<Rightarrow> pipeline_stage \<Rightarrow> pipeline_stage option \<Rightarrow> allowed_transition option"
    and menu :: "pipeline_stage \<Rightarrow> pipeline_stage option \<Rightarrow> allowed_transition list"
  assumes lookup_from: "\<And>f t p r. lookup f t p = Some r \<Longrightarrow> at_from r = f"
    and lookup_to: "\<And>f t p r. lookup f t p = Some r \<Longrightarrow> at_to r = t"
    and lookup_previous: "\<And>f t p r. lookup f t p = Some r \<Longrightarrow> at_previous r = None \<or> at_previous r = p"
    and menu_iff: "r \<in> set (menu f p) \<longleftrightarrow> lookup f (at_to r) p = Some r"
    and menu_distinct: "distinct (map at_to (menu f p))"
begin

lemma menu_target_iff: "t \<in> at_to ` set (menu f p) \<longleftrightarrow> lookup f t p \<noteq> None"
proof
  assume "t \<in> at_to ` set (menu f p)"
  then obtain r where "r \<in> set (menu f p)" "t = at_to r" by blast
  then show "lookup f t p \<noteq> None" using menu_iff by simp
next
  assume "lookup f t p \<noteq> None"
  then obtain r where r: "lookup f t p = Some r" by blast
  then have "lookup f (at_to r) p = Some r" using lookup_to[OF r] by simp
  then have "r \<in> set (menu f p)" using menu_iff by simp
  then show "t \<in> at_to ` set (menu f p)" using lookup_to[OF r] by blast
qed

lemma menu_from: "r \<in> set (menu f p) \<Longrightarrow> at_from r = f"
  using lookup_from menu_iff by blast

lemma menu_one_per_target: "r \<in> set (menu f p) \<Longrightarrow> s \<in> set (menu f p) \<Longrightarrow> at_to r = at_to s \<Longrightarrow> r = s"
  using menu_iff[of r f p] menu_iff[of s f p] by simp

lemma menu_empty_iff: "menu f p = [] \<longleftrightarrow> (\<forall>t. lookup f t p = None)"
proof
  assume empty: "menu f p = []"
  show "\<forall>t. lookup f t p = None"
  proof
    fix t
    have "t \<notin> at_to ` set (menu f p)" by (simp only: empty) simp
    then show "lookup f t p = None" by (simp only: menu_target_iff not_not)
  qed
next
  assume none: "\<forall>t. lookup f t p = None"
  show "menu f p = []"
  proof (cases "menu f p")
    case (Cons r rs)
    then have "r \<in> set (menu f p)" by simp
    then have "lookup f (at_to r) p = Some r" by (simp only: menu_iff)
    with none show ?thesis by simp
  qed
qed

end

lemma unique_table_lookup:
  assumes "unique_rows T"
  shows "transition_lookup (get_row T) (list_eligible T)"
proof
  fix f t p r
  assume r: "get_row T f t p = Some r"
  show "at_from r = f" "at_to r = t" "at_previous r = None \<or> at_previous r = p"
    using get_row_key[OF r] by simp_all
next
  fix f t p r
  show "r \<in> set (list_eligible T f p) \<longleftrightarrow> get_row T f (at_to r) p = Some r"
    by (rule list_eligible_iff_get[OF assms])
  show "distinct (map at_to (list_eligible T f p))" by (rule list_eligible_distinct)
qed

section \<open>Facts of the seeded table\<close>

lemma seeded_unique: "unique_rows seeded_rows"
  by code_simp

interpretation seeded: transition_lookup "get_row seeded_rows" "list_eligible seeded_rows"
  by (rule unique_table_lookup[OF seeded_unique])

lemma seed_row_unique: "unique_rows T \<Longrightarrow> unique_rows (seed_row T r)"
  by (auto simp: seed_row_def unique_rows_def row_key_def find_None_all split: option.splits)

lemma seed_row_keeps: "set T \<subseteq> set (seed_row T r)"
  by (auto simp: seed_row_def split: option.splits)

lemma seed_row_has_key: "row_key r \<in> row_key ` set (seed_row T r)"
proof (cases "find (\<lambda>e. at_previous e = at_previous r \<and> at_from e = at_from r \<and> at_to e = at_to r) T")
  case None
  then show ?thesis by (simp add: seed_row_def)
next
  case (Some e)
  then have "e \<in> set T" "row_key e = row_key r"
    using find_Some_set[OF Some] by (simp_all add: row_key_def)
  moreover have "seed_row T r = T" using Some by (simp add: seed_row_def)
  ultimately show ?thesis by (metis imageI)
qed

lemma seed_row_present: "row_key r \<in> row_key ` set T \<Longrightarrow> seed_row T r = T"
  by (force simp: seed_row_def row_key_def find_None_all split: option.splits)

lemma fold_seed_keeps: "set T \<subseteq> set (fold (\<lambda>r acc. seed_row acc r) rs T)"
proof (induction rs arbitrary: T)
  case (Cons r rs)
  have "set (seed_row T r) \<subseteq> set (fold (\<lambda>r acc. seed_row acc r) rs (seed_row T r))" by (rule Cons.IH)
  then show ?case using seed_row_keeps[of T r] by auto
qed simp

lemma fold_seed_unique: "unique_rows T \<Longrightarrow> unique_rows (fold (\<lambda>r acc. seed_row acc r) rs T)"
  by (induction rs arbitrary: T) (simp_all add: seed_row_unique)

lemma fold_seed_has_keys:
  "r \<in> set rs \<Longrightarrow> row_key r \<in> row_key ` set (fold (\<lambda>r acc. seed_row acc r) rs T)"
proof (induction rs arbitrary: T)
  case (Cons a rs)
  show ?case
  proof (cases "r = a")
    case True
    then show ?thesis
      using seed_row_has_key[of a T] fold_seed_keeps[of "seed_row T a" rs] by auto
  next
    case False
    then show ?thesis using Cons by simp
  qed
qed simp

lemma fold_seed_present:
  "row_key ` set rs \<subseteq> row_key ` set T \<Longrightarrow> fold (\<lambda>r acc. seed_row acc r) rs T = T"
  by (induction rs) (simp_all add: seed_row_present)

lemma seed_twice: "seed_table (seed_table T) = seed_table T"
  unfolding seed_table_def
  by (rule fold_seed_present) (use fold_seed_has_keys in blast)

lemma seed_fresh: "seed_table [] = seeded_rows"
  by code_simp

section \<open>Where the table can lead\<close>

text \<open>
  The positions (previous stage, stage) of a candidate who is moved by the
  table alone, starting at upload.
\<close>

type_synonym position = "pipeline_stage option \<times> pipeline_stage"

inductive table_reach :: "allowed_transition list \<Rightarrow> position \<Rightarrow> bool" for T where
  start: "table_reach T (None, UPLOADED)"
| move: "table_reach T (p, f) \<Longrightarrow> is_transition_allowed T f t p \<Longrightarrow> table_reach T (Some f, t)"

definition dead_end :: "allowed_transition list \<Rightarrow> position \<Rightarrow> bool" where
  "dead_end T pos \<longleftrightarrow> list_eligible T (snd pos) (fst pos) = []"

definition successors :: "allowed_transition list \<Rightarrow> position \<Rightarrow> position list" where
  "successors T pos = map (\<lambda>r. (Some (snd pos), at_to r)) (list_eligible T (snd pos) (fst pos))"

definition fresh_successors :: "allowed_transition list \<Rightarrow> position list \<Rightarrow> position list \<Rightarrow> position list" where
  "fresh_successors T seen new =
     remdups (filter (\<lambda>pos. pos \<notin> set seen) (concat (map (successors T) new)))"

fun explore_from :: "allowed_transition list \<Rightarrow> position list \<times> position list \<Rightarrow> position list \<times> position list" where
  "explore_from T (seen, new) = (seen @ new, fresh_successors T (seen @ new) new)"

definition explore :: "allowed_transition list \<Rightarrow> nat \<Rightarrow> position list" where
  "explore T n = fst ((explore_from T ^^ n) ([], [(None, UPLOADED)]))"

definition seeded_positions :: "position list" where
  "seeded_positions =
     [(None, UPLOADED), (Some HM_REVIEW, SCREENING), (Some SELECTED, INTERVIEW),
      (Some REJECTED, HM_REVIEW), (Some SELECTED, REJECTED), (Some SELECTED, HM_REVIEW),
      (Some SELECTED, FRAUD_REVIEW), (Some REJECTED, INTERVIEW), (Some HOLD, SELECTED),
      (Some HM_REVIEW, SELECTED), (Some FRAUD_REVIEW, SELECTED), (Some HM_REVIEW, SHORTLISTED),
      (Some HM_REVIEW, INTERVIEW), (Some HM_REVIEW, HOLD), (Some HM_REVIEW, REJECTED),
      (Some HM_REVIEW, FRAUD_REVIEW), (Some INTERVIEW, SELECTED), (Some INTERVIEW, REJECTED),
      (Some INTERVIEW, HOLD), (Some INTERVIEW, HM_REVIEW), (Some INTERVIEW, FRAUD_REVIEW),
      (Some HOLD, HM_REVIEW), (Some HOLD, INTERVIEW), (Some FRAUD_REVIEW, HM_REVIEW),
      (Some FRAUD_REVIEW, INTERVIEW), (Some SCREENING, SHORTLISTED), (Some SCREENING, HOLD),
      (Some SCREENING, REJECTED), (Some SCREENING, FRAUD_REVIEW), (Some SCREENING, UPLOADED),
      (Some SHORTLISTED, HM_REVIEW), (Some SHORTLISTED, INTERVIEW), (Some SHORTLISTED, HOLD),
      (Some SHORTLISTED, REJECTED), (Some SHORTLISTED, FRAUD_REVIEW), (Some SHORTLISTED, UPLOADED),
      (Some HOLD, SHORTLISTED), (Some HOLD, REJECTED), (Some HOLD, UPLOADED),
      (Some REJECTED, SCREENING), (Some FRAUD_REVIEW, SCREENING), (Some FRAUD_REVIEW, SHORTLISTED),
      (Some FRAUD_REVIEW, REJECTED), (Some UPLOADED, SCREENING), (Some UPLOADED, FRAUD_REVIEW)]"

definition covers :: "position list \<Rightarrow> position list \<Rightarrow> bool" where
  "covers ys xs \<longleftrightarrow> list_all (\<lambda>x. x \<in> set ys) xs"

lemma successors_iff:
  assumes "unique_rows T"
  shows "(q, t) \<in> set (successors T (p, f)) \<longleftrightarrow> q = Some f \<and> is_transition_allowed T f t p"
proof -
  have "t \<in> at_to ` set (list_eligible T f p) \<longleftrightarrow> get_row T f t p \<noteq> None"
    by (rule transition_lookup.menu_target_iff[OF unique_table_lookup[OF assms]])
  then show ?thesis
    by (auto simp: successors_def is_transition_allowed_def image_iff)
qed

lemma explore_from_sound:
  assumes "unique_rows T" "\<forall>pos\<in>set (fst sn) \<union> set (snd sn). table_reach T pos"
  shows "\<forall>pos\<in>set (fst (explore_from T sn)) \<union> set (snd (explore_from T sn)). table_reach T pos"
proof -
  obtain seen new where sn: "sn = (seen, new)" by (cases sn)
  have "table_reach T (q, t)" if "(p, f) \<in> set new" "(q, t) \<in> set (successors T (p, f))" for p f q t
  proof -
    have "table_reach T (p, f)" using assms(2) sn that(1) by auto
    moreover have "q = Some f" "is_transition_allowed T f t p"
      using that(2) successors_iff[OF assms(1)] by simp_all
    ultimately show ?thesis by (simp add: table_reach.move)
  qed
  then show ?thesis using assms(2) by (auto simp: sn fresh_successors_def)
qed

lemma explore_sound:
  assumes "unique_rows T" "pos \<in> set (explore T n)"
  shows "table_reach T pos"
proof -
  let ?sn = "\<lambda>n. (explore_from T ^^ n) ([], [(None, UPLOADED)])"
  have "\<forall>pos\<in>set (fst (?sn n)) \<union> set (snd (?sn n)). table_reach T pos"
  proof (induction n)
    case 0
    show ?case by (simp add: table_reach.start)
  next
    case (Suc n)
    then show ?case using explore_from_sound[OF assms(1), of "?sn n"] by simp
  qed
  with assms(2) show ?thesis by (auto simp: explore_def)
qed

lemma closed_contains_reach:
  assumes "unique_rows T" "(None, UPLOADED) \<in> set R"
    and closed: "covers R (concat (map (successors T) R))"
    and "table_reach T pos"
  shows "pos \<in> set R"
  using assms(4)
proof induction
  case start
  show ?case by (rule assms(2))
next
  case (move p f t)
  then have "(Some f, t) \<in> set (successors T (p, f))"
    using successors_iff[OF assms(1)] by simp
  with closed move.IH show ?case by (auto simp: covers_def list_all_iff)
qed

lemma seeded_positions_closed:
  "covers seeded_positions (concat (map (successors seeded_rows) seeded_positions))"
  by code_simp

lemma seeded_positions_found:
  "covers (explore seeded_rows 7) seeded_positions"
  by code_simp

lemma seeded_reach_iff: "table_reach seeded_rows pos \<longleftrightarrow> pos \<in> set seeded_positions"
proof
  have "(None, UPLOADED) \<in> set seeded_positions"
    unfolding seeded_positions_def by simp
  then show "table_reach seeded_rows pos \<Longrightarrow> pos \<in> set seeded_positions"
    by (rule closed_contains_reach[OF seeded_unique _ seeded_positions_closed])
next
  assume "pos \<in> set seeded_positions"
  then have "pos \<in> set (explore seeded_rows 7)"
    using seeded_positions_found unfolding covers_def list_all_iff by blast
  then show "table_reach seeded_rows pos"
    by (rule explore_sound[OF seeded_unique])
qed

text \<open>The human role that owns a position: the role of its first move that is not \<open>SYSTEM\<close>'s.\<close>

definition human_roles :: "allowed_transition list \<Rightarrow> position \<Rightarrow> role_name list" where
  "human_roles T pos =
     remdups (concat (map (\<lambda>r. filter (\<lambda>x. x \<noteq> SYSTEM) (at_roles r))
       (list_eligible T (snd pos) (fst pos))))"

definition menu_rows :: "allowed_transition list \<Rightarrow> position list \<Rightarrow> allowed_transition list" where
  "menu_rows T R = concat (map (\<lambda>pos. list_eligible T (snd pos) (fst pos)) R)"

definition rows_outside :: "allowed_transition list \<Rightarrow> allowed_transition list \<Rightarrow> allowed_transition list" where
  "rows_outside used rows = filter (\<lambda>r. r \<notin> set used) rows"

lemma rows_outside_menu:
  assumes "unique_rows T"
  shows "r \<in> set (rows_outside (menu_rows T R) T) \<longleftrightarrow>
    r \<in> set T \<and> (\<forall>(p, f)\<in>set R. get_row T f (at_to r) p \<noteq> Some r)"
  by (auto simp: rows_outside_def menu_rows_def list_eligible_iff_get[OF assms] case_prod_unfold)

section \<open>Properties\<close>

text \<open>
  The seed script keeps the unique constraints of
  \<open>allowed_transitions\<close>, adds a row for every key of its list, deletes and
  changes no row, and running it a second time adds nothing.
\<close>

theorem seed_table_idempotent:
  assumes "unique_rows T"
  shows "unique_rows (seed_table T) \<and> set T \<subseteq> set (seed_table T)
    \<and> row_key ` set seeded_rows \<subseteq> row_key ` set (seed_table T)
    \<and> seed_table (seed_table T) = seed_table T"
proof (intro conjI)
  show "unique_rows (seed_table T)" unfolding seed_table_def by (rule fold_seed_unique[OF assms])
  show "set T \<subseteq> set (seed_table T)" unfolding seed_table_def by (rule fold_seed_keeps)
  show "row_key ` set seeded_rows \<subseteq> row_key ` set (seed_table T)"
    unfolding seed_table_def using fold_seed_has_keys by blast
  show "seed_table (seed_table T) = seed_table T" by (rule seed_twice)
qed

lemma seed_table_idempotent_witness:
  "unique_rows [] \<and> unique_rows (seed_table [])
    \<and> seed_table (seed_table []) = seed_table []"
  using seed_table_idempotent[of "[]"] by (simp add: unique_rows_def)

lemma list_eligible_agrees_with_get_parts:
  assumes "unique_rows T"
  shows "distinct (map at_to (list_eligible T f p))"
    and "r \<in> set (list_eligible T f p) \<longleftrightarrow> get_row T f (at_to r) p = Some r"
    and "e \<in> set T \<Longrightarrow> at_from e = f \<Longrightarrow> at_previous e = p
         \<Longrightarrow> get_row T f (at_to e) p = Some e"
    and "w \<in> set T \<Longrightarrow> at_from w = f \<Longrightarrow> at_previous w = None
         \<Longrightarrow> (\<forall>x\<in>set T. at_from x = f \<and> at_to x = at_to w \<longrightarrow> at_previous x = None \<or> at_previous x \<noteq> p)
         \<Longrightarrow> get_row T f (at_to w) p = Some w"
proof -
  show "distinct (map at_to (list_eligible T f p))" by (rule list_eligible_distinct)
  show "r \<in> set (list_eligible T f p) \<longleftrightarrow> get_row T f (at_to r) p = Some r"
    by (rule list_eligible_iff_get[OF assms])
  show "get_row T f (at_to e) p = Some e" if "e \<in> set T" "at_from e = f" "at_previous e = p"
    using get_row_exact[OF assms that(1)] that by simp
  show "get_row T f (at_to w) p = Some w"
    if "w \<in> set T" "at_from w = f" "at_previous w = None"
      "\<forall>x\<in>set T. at_from x = f \<and> at_to x = at_to w \<longrightarrow> at_previous x = None \<or> at_previous x \<noteq> p"
  proof (cases p)
    case None
    then show ?thesis using get_row_exact[OF assms that(1)] that by simp
  next
    case (Some q)
    have "get_row T (at_from w) (at_to w) (Some q) = Some w"
    proof (rule get_row_shadowed[OF assms that(1) that(3)])
      fix e
      assume "e \<in> set T" "at_from e = at_from w" "at_to e = at_to w"
      then show "at_previous e \<noteq> Some q" using that(2,4) Some by fastforce
    qed
    with Some that(2) show ?thesis by simp
  qed
qed

text \<open>
  The menu of a stage (\<open>list_eligible\<close>) and the single lookup
  (\<open>get\<close>) agree on every table with unique keys: the menu offers a target at
  most once and offers exactly the row that governs the move to it, the row
  declared for the previous stage shadowing the wildcard row.
\<close>

theorem list_eligible_agrees_with_get:
  assumes "unique_rows T"
  shows "(distinct (map at_to (list_eligible T f p)))
     \<and> (r \<in> set (list_eligible T f p) \<longleftrightarrow> get_row T f (at_to r) p = Some r)
     \<and> (e \<in> set T \<longrightarrow> at_from e = f \<longrightarrow> at_previous e = p \<longrightarrow> get_row T f (at_to e) p = Some e)
     \<and> (w \<in> set T \<longrightarrow> at_from w = f \<longrightarrow> at_previous w = None \<longrightarrow>
         ((\<forall>x\<in>set T. at_from x = f \<and> at_to x = at_to w \<longrightarrow>
         at_previous x = None \<or> at_previous x \<noteq> p)) \<longrightarrow> get_row T f (at_to w) p = Some w)"
  by (rule conjI, rule list_eligible_agrees_with_get_parts(1)[OF assms], rule conjI,
      rule list_eligible_agrees_with_get_parts(2)[OF assms], rule conjI, (rule impI)+,
      rule list_eligible_agrees_with_get_parts(3)[OF assms], assumption+, (rule impI)+,
      rule list_eligible_agrees_with_get_parts(4)[OF assms], assumption+)

lemma list_eligible_agrees_with_get_witness:
  "distinct (map at_to (list_eligible seeded_rows SHORTLISTED (Some HM_REVIEW)))
    \<and> get_row seeded_rows SHORTLISTED INTERVIEW (Some HM_REVIEW)
        = Some (transition_row (Some HM_REVIEW) SHORTLISTED INTERVIEW [HIRING_MANAGER] False)
    \<and> get_row seeded_rows SHORTLISTED UPLOADED (Some HM_REVIEW)
        = Some (transition_row None SHORTLISTED UPLOADED [RECRUITER] True)"
proof (intro conjI)
  show "distinct (map at_to (list_eligible seeded_rows SHORTLISTED (Some HM_REVIEW)))"
    by (rule list_eligible_agrees_with_get[THEN conjunct1, rule_format, OF seeded_unique])
  show "get_row seeded_rows SHORTLISTED INTERVIEW (Some HM_REVIEW)
        = Some (transition_row (Some HM_REVIEW) SHORTLISTED INTERVIEW [HIRING_MANAGER] False)"
    using list_eligible_agrees_with_get[THEN conjunct2, THEN conjunct2, THEN conjunct1, rule_format, OF seeded_unique,
      of "transition_row (Some HM_REVIEW) SHORTLISTED INTERVIEW [HIRING_MANAGER] False"]
    by (simp add: transition_row_def seeded_rows_def seeded_rows_defs)
  show "get_row seeded_rows SHORTLISTED UPLOADED (Some HM_REVIEW)
        = Some (transition_row None SHORTLISTED UPLOADED [RECRUITER] True)"
    by code_simp
qed

text \<open>
  A candidate moved by the seeded table alone is always in one of
  45 positions (previous stage, stage), none of which is a dead end; a human
  role has a move in all of them but the freshly uploaded ones, and the move
  belongs to one human role alone except at the two positions where a row
  declared for \<open>HM_REVIEW\<close> leaves a wildcard row of the recruiter visible.
\<close>

theorem seeded_positions_live:
  assumes reach: "table_reach seeded_rows pos"
  shows "\<not> dead_end seeded_rows pos
    \<and> (snd pos \<noteq> UPLOADED \<and> pos \<noteq> (Some HM_REVIEW, SHORTLISTED) \<and> pos \<noteq> (Some HM_REVIEW, SELECTED)
         \<longrightarrow> length (human_roles seeded_rows pos) = 1)
    \<and> length seeded_positions = 45 \<and> distinct seeded_positions \<and> pos \<in> set seeded_positions"
proof (intro conjI impI)
  have live: "list_all (\<lambda>q. \<not> dead_end seeded_rows q) seeded_positions" by code_simp
  have one: "list_all (\<lambda>q. snd q = UPLOADED \<or> q = (Some HM_REVIEW, SHORTLISTED)
      \<or> q = (Some HM_REVIEW, SELECTED) \<or> length (human_roles seeded_rows q) = 1) seeded_positions"
    by code_simp
  show "\<not> dead_end seeded_rows pos"
    using live reach unfolding seeded_reach_iff list_all_iff by blast
  show "length (human_roles seeded_rows pos) = 1"
    if "snd pos \<noteq> UPLOADED \<and> pos \<noteq> (Some HM_REVIEW, SHORTLISTED) \<and> pos \<noteq> (Some HM_REVIEW, SELECTED)"
    using bspec[OF one[unfolded list_all_iff], of pos] that reach unfolding seeded_reach_iff by blast
  show "length seeded_positions = 45" "distinct seeded_positions" by code_simp+
  show "pos \<in> set seeded_positions" using reach by (simp add: seeded_reach_iff)
qed

lemma seeded_positions_live_witness:
  "\<not> dead_end seeded_rows (Some UPLOADED, SCREENING)
     \<and> length (human_roles seeded_rows (Some UPLOADED, SCREENING)) = 1"
proof -
  have "is_transition_allowed seeded_rows UPLOADED SCREENING None" by code_simp
  then have "table_reach seeded_rows (Some UPLOADED, SCREENING)"
    by (rule table_reach.move[OF table_reach.start])
  then show ?thesis
    using seeded_positions_live[of "(Some UPLOADED, SCREENING)"] by simp
qed

text \<open>
  Twelve of the 109 seeded rows govern no position a candidate
  can be in by the table alone: the rows for \<open>HM_REVIEW\<close> after \<open>SCREENING\<close>, for
  \<open>HOLD\<close> after \<open>FRAUD_REVIEW\<close>, and for \<open>FRAUD_REVIEW\<close> after \<open>HOLD\<close> or
  \<open>REJECTED\<close>, since no row leads there.
\<close>

theorem seeded_unused_rows:
  assumes r: "r \<in> set seeded_rows"
  shows "length seeded_rows = 109 \<and>
    ((\<forall>p f. table_reach seeded_rows (p, f) \<longrightarrow> get_row seeded_rows f (at_to r) p \<noteq> Some r) \<longleftrightarrow>
     row_key r \<in>
     {(Some SCREENING, HM_REVIEW, INTERVIEW), (Some SCREENING, HM_REVIEW, HOLD),
      (Some SCREENING, HM_REVIEW, REJECTED), (Some SCREENING, HM_REVIEW, FRAUD_REVIEW),
      (Some FRAUD_REVIEW, HOLD, HOLD), (Some FRAUD_REVIEW, HOLD, REJECTED),
      (Some HOLD, FRAUD_REVIEW, HOLD), (Some HOLD, FRAUD_REVIEW, REJECTED),
      (Some REJECTED, FRAUD_REVIEW, SCREENING), (Some REJECTED, FRAUD_REVIEW, SHORTLISTED),
      (Some REJECTED, FRAUD_REVIEW, INTERVIEW), (Some REJECTED, FRAUD_REVIEW, REJECTED)})"
proof
  show "length seeded_rows = 109" by code_simp
  let ?unused = "rows_outside (menu_rows seeded_rows seeded_positions) seeded_rows"
  let ?keys = "{(Some SCREENING, HM_REVIEW, INTERVIEW), (Some SCREENING, HM_REVIEW, HOLD),
      (Some SCREENING, HM_REVIEW, REJECTED), (Some SCREENING, HM_REVIEW, FRAUD_REVIEW),
      (Some FRAUD_REVIEW, HOLD, HOLD), (Some FRAUD_REVIEW, HOLD, REJECTED),
      (Some HOLD, FRAUD_REVIEW, HOLD), (Some HOLD, FRAUD_REVIEW, REJECTED),
      (Some REJECTED, FRAUD_REVIEW, SCREENING), (Some REJECTED, FRAUD_REVIEW, SHORTLISTED),
      (Some REJECTED, FRAUD_REVIEW, INTERVIEW), (Some REJECTED, FRAUD_REVIEW, REJECTED)}"
  have keys: "row_key ` set ?unused = ?keys" by code_simp
  have inj: "inj_on row_key (set seeded_rows)"
    using seeded_unique by (simp add: unique_rows_def distinct_map)
  have sub: "set ?unused \<subseteq> set seeded_rows" by (auto simp: rows_outside_def)
  have "(\<forall>p f. table_reach seeded_rows (p, f) \<longrightarrow> get_row seeded_rows f (at_to r) p \<noteq> Some r)
      \<longleftrightarrow> r \<in> set ?unused"
    unfolding rows_outside_menu[OF seeded_unique] seeded_reach_iff using r by auto
  also have "\<dots> \<longleftrightarrow> row_key r \<in> row_key ` set ?unused"
    by (rule inj_on_image_mem_iff[OF inj r sub, symmetric])
  finally show "(\<forall>p f. table_reach seeded_rows (p, f) \<longrightarrow>
      get_row seeded_rows f (at_to r) p \<noteq> Some r) \<longleftrightarrow> row_key r \<in> ?keys"
    by (simp only: keys)
qed

lemma seeded_unused_rows_witness:
  "\<nexists>p f. table_reach seeded_rows (p, f) \<and> get_row seeded_rows f INTERVIEW p
       = Some (transition_row (Some SCREENING) HM_REVIEW INTERVIEW [HIRING_MANAGER] False)"
  using seeded_unused_rows[of "transition_row (Some SCREENING) HM_REVIEW INTERVIEW [HIRING_MANAGER] False"]
  by (simp add: transition_row_def seeded_rows_def seeded_rows_defs row_key_def)

end
