(* ===== verification/Interview_Rounds.thy ===== *)
theory Interview_Rounds
  imports AIRS_Prelude
begin

text \<open>
  Interview rounds and everything stored with them
  (\<open>app/models/interview.py\<close>, \<open>app/repositories/interview_schedule_repository.py\<close>,
  \<open>app/repositories/interview_feedback_repository.py\<close>).

  The tables are lists of rows.  Primary keys are natural numbers drawn from a
  counter, which stands for the fresh values of \<open>uuid4\<close>; instants are seconds
  as integers.  A violated database constraint is an error value.
\<close>

section \<open>Rows\<close>

datatype interview_status = IS_PENDING | IS_SCHEDULED | IS_RESCHEDULED | IS_COMPLETED | IS_CANCELLED

datatype interview_platform = TEAMS | MEET | ONSITE | PHONE

datatype history_event = HE_SCHEDULED | HE_RESCHEDULED | HE_CANCELLED

datatype recommendation = REC_ADVANCE | REC_SELECT | REC_REJECT | REC_HOLD

record interview_round =
  ir_id :: nat
  ir_candidate :: nat
  ir_number :: int
  ir_status :: interview_status
  ir_type :: "string option"
  ir_start_at :: "int option"
  ir_end_at :: "int option"
  ir_timezone :: string
  ir_candidate_timezone :: "string option"
  ir_platform :: "interview_platform option"
  ir_meeting_link :: "string option"
  ir_location :: "string option"
  ir_notes :: "string option"
  ir_cancel_reason :: "string option"
  ir_event_id :: "string option"
  ir_scheduled_by :: "string option"
  ir_scheduled_by_role :: "string option"
  ir_updated_at :: int

record interviewer_row =
  iv_id :: nat
  iv_interview :: nat
  iv_name :: string
  iv_email :: string
  iv_timezone :: "string option"
  iv_active :: bool

record round_history_row =
  rh_interview :: nat
  rh_event :: history_event
  rh_old_start :: "int option"
  rh_new_start :: "int option"
  rh_changed_by :: string
  rh_role :: string
  rh_reason :: "string option"

record feedback_row =
  fb_round :: nat
  fb_interviewer :: nat
  fb_recommendation :: recommendation
  fb_notes :: "string option"

record interview_db =
  db_rounds :: "interview_round list"
  db_interviewers :: "interviewer_row list"
  db_round_history :: "round_history_row list"
  db_feedback :: "feedback_row list"
  db_next :: nat

datatype db_error = Not_Null_Violation | Unique_Violation

section \<open>Queries\<close>

definition active_statuses :: "interview_status list" where
  "active_statuses = [IS_PENDING, IS_SCHEDULED, IS_RESCHEDULED]"

definition all_rounds :: "nat \<Rightarrow> interview_db \<Rightarrow> interview_round list" where
  "all_rounds cc d = sort_key ir_number (filter (\<lambda>r. ir_candidate r = cc) (db_rounds d))"

definition any_round :: "nat \<Rightarrow> interview_db \<Rightarrow> interview_round option" where
  "any_round cc d = (case all_rounds cc d of [] \<Rightarrow> None | r # rs \<Rightarrow> Some r)"

definition latest_round :: "nat \<Rightarrow> interview_db \<Rightarrow> interview_round option" where
  "latest_round cc d = (case rev (all_rounds cc d) of [] \<Rightarrow> None | r # rs \<Rightarrow> Some r)"

definition round_by_id :: "nat \<Rightarrow> interview_db \<Rightarrow> interview_round option" where
  "round_by_id i d = find (\<lambda>r. ir_id r = i) (db_rounds d)"

definition ended_active_rounds :: "int \<Rightarrow> interview_db \<Rightarrow> interview_round list" where
  "ended_active_rounds before d =
     filter (\<lambda>r. ir_status r \<in> set [IS_SCHEDULED, IS_RESCHEDULED] \<and>
       (case ir_end_at r of None \<Rightarrow> False | Some e \<Rightarrow> e < before)) (db_rounds d)"

definition started_active_rounds :: "int \<Rightarrow> interview_db \<Rightarrow> interview_round list" where
  "started_active_rounds after d =
     filter (\<lambda>r. ir_status r \<in> set [IS_SCHEDULED, IS_RESCHEDULED] \<and>
       (case ir_start_at r of None \<Rightarrow> False | Some s \<Rightarrow> s > after)) (db_rounds d)"

definition interviewers_of :: "nat \<Rightarrow> interview_db \<Rightarrow> interviewer_row list" where
  "interviewers_of i d = filter (\<lambda>v. iv_interview v = i) (db_interviewers d)"

definition active_interviewers :: "nat \<Rightarrow> interview_db \<Rightarrow> interviewer_row list" where
  "active_interviewers i d = filter (\<lambda>v. iv_interview v = i \<and> iv_active v) (db_interviewers d)"

definition interviewer_by_id :: "nat \<Rightarrow> interview_db \<Rightarrow> interviewer_row option" where
  "interviewer_by_id i d = find (\<lambda>v. iv_id v = i) (db_interviewers d)"

section \<open>Writes\<close>

text \<open>Flushing a loaded and changed round writes it back under its key.\<close>

definition put_round :: "interview_round \<Rightarrow> interview_db \<Rightarrow> interview_db" where
  "put_round r d = d\<lparr>db_rounds := map (\<lambda>x. if ir_id x = ir_id r then r else x) (db_rounds d)\<rparr>"

definition blank_round :: "nat \<Rightarrow> nat \<Rightarrow> int \<Rightarrow> int \<Rightarrow> interview_round" where
  "blank_round i cc n now =
     \<lparr>ir_id = i, ir_candidate = cc, ir_number = n, ir_status = IS_PENDING, ir_type = None,
      ir_start_at = None, ir_end_at = None, ir_timezone = ''UTC'', ir_candidate_timezone = None,
      ir_platform = None, ir_meeting_link = None, ir_location = None, ir_notes = None,
      ir_cancel_reason = None, ir_event_id = None, ir_scheduled_by = None,
      ir_scheduled_by_role = None, ir_updated_at = now\<rparr>"

definition insert_round :: "nat \<Rightarrow> int \<Rightarrow> int \<Rightarrow> interview_db \<Rightarrow> (db_error, interview_round \<times> interview_db) result" where
  "insert_round cc n now d =
     (if \<exists>r\<in>set (db_rounds d). ir_candidate r = cc \<and> ir_number r = n then Inl Unique_Violation
      else let r = blank_round (db_next d) cc n now
           in Inr (r, d\<lparr>db_rounds := db_rounds d @ [r], db_next := Suc (db_next d)\<rparr>))"

definition get_or_create_pending ::
    "nat \<Rightarrow> int \<Rightarrow> interview_db \<Rightarrow> (db_error, (interview_round \<times> bool) \<times> interview_db) result" where
  "get_or_create_pending cc now d =
     (case any_round cc d of
        Some existing \<Rightarrow> Inr ((existing, False), d)
      | None \<Rightarrow> res_bind (insert_round cc 1 now d) (\<lambda>(r, d'). Inr ((r, True), d')))"

text \<open>
  The insert of \<open>create_next_round\<close> runs in a savepoint: a violated unique
  constraint undoes the insert only and the row that is there is returned.
\<close>

definition create_next_round ::
    "nat \<Rightarrow> int \<Rightarrow> int \<Rightarrow> interview_db \<Rightarrow> (interview_round option \<times> bool) \<times> interview_db" where
  "create_next_round cc n now d =
     (case insert_round cc n now d of
        Inr (r, d') \<Rightarrow> ((Some r, True), d')
      | Inl e \<Rightarrow> ((find (\<lambda>r. ir_candidate r = cc \<and> ir_number r = n) (db_rounds d), False), d))"

text \<open>
  \<open>changed_by\<close> and \<open>changed_by_role\<close> are not nullable in
  \<open>interview_schedule_history\<close>.
\<close>

definition add_round_history ::
    "nat \<Rightarrow> history_event \<Rightarrow> int option \<Rightarrow> int option \<Rightarrow> string option \<Rightarrow> string option \<Rightarrow> string option
     \<Rightarrow> interview_db \<Rightarrow> (db_error, interview_db) result" where
  "add_round_history i ev old new by role reason d =
     (case (by, role) of
        (Some u, Some ro) \<Rightarrow>
          Inr (d\<lparr>db_round_history := db_round_history d @
            [\<lparr>rh_interview = i, rh_event = ev, rh_old_start = old, rh_new_start = new,
              rh_changed_by = u, rh_role = ro, rh_reason = reason\<rparr>]\<rparr>)
      | _ \<Rightarrow> Inl Not_Null_Violation)"

definition cancelled_round :: "string \<Rightarrow> int \<Rightarrow> interview_round \<Rightarrow> interview_round" where
  "cancelled_round reason now r =
     r\<lparr>ir_status := IS_CANCELLED, ir_cancel_reason := Some reason, ir_updated_at := now\<rparr>"

fun cancel_rounds ::
    "interview_round list \<Rightarrow> string \<Rightarrow> string option \<Rightarrow> string option \<Rightarrow> int \<Rightarrow> interview_db
     \<Rightarrow> (db_error, interview_round list \<times> interview_db) result" where
  "cancel_rounds [] reason by role now d = Inr ([], d)"
| "cancel_rounds (r # rs) reason by role now d =
     (if ir_status r \<notin> set active_statuses then cancel_rounds rs reason by role now d
      else let r' = cancelled_round reason now r in
        res_bind (add_round_history (ir_id r) HE_CANCELLED (ir_start_at r) None by role (Some reason) (put_round r' d))
          (\<lambda>d1. res_bind (cancel_rounds rs reason by role now d1)
             (\<lambda>(cs, d2). Inr (r' # cs, d2))))"

definition cancel_active_rounds ::
    "nat \<Rightarrow> string \<Rightarrow> string option \<Rightarrow> string option \<Rightarrow> int \<Rightarrow> interview_db
     \<Rightarrow> (db_error, interview_round list \<times> interview_db) result" where
  "cancel_active_rounds cc reason by role now d =
     cancel_rounds (all_rounds cc d) reason by role now d"

text \<open>The erasure of a candidate's rounds; of an e-mail row only its id and the round it is about are kept here.\<close>

definition delete_rounds_of :: "nat \<Rightarrow> (nat \<times> nat option) list \<times> interview_db \<Rightarrow> (nat \<times> nat option) list \<times> interview_db" where
  "delete_rounds_of cc s =
     (let (mails, d) = s; ids = map ir_id (filter (\<lambda>r. ir_candidate r = cc) (db_rounds d)) in
      if ids = [] then (mails, d)
      else (filter (\<lambda>(m, about). case about of None \<Rightarrow> True | Some i \<Rightarrow> i \<notin> set ids) mails,
        d\<lparr>db_feedback := filter (\<lambda>f. fb_round f \<notin> set ids) (db_feedback d),
          db_round_history := filter (\<lambda>h. rh_interview h \<notin> set ids) (db_round_history d),
          db_interviewers := filter (\<lambda>v. iv_interview v \<notin> set ids) (db_interviewers d),
          db_rounds := filter (\<lambda>r. ir_candidate r \<noteq> cc) (db_rounds d)\<rparr>))"

section \<open>Interviewers of a round\<close>

record interviewer_input =
  ii_name :: string
  ii_email :: string
  ii_timezone :: "string option"

text \<open>
  A dict built from the active rows: on equal (lower-case) addresses the last
  row wins.
\<close>

definition existing_by_email :: "interviewer_row list \<Rightarrow> string \<Rightarrow> interviewer_row option" where
  "existing_by_email rows e = map_of (rev (map (\<lambda>v. (lower (iv_email v), v)) rows)) e"

definition update_interviewer :: "nat \<Rightarrow> (interviewer_row \<Rightarrow> interviewer_row) \<Rightarrow> interview_db \<Rightarrow> interview_db" where
  "update_interviewer i f d =
     d\<lparr>db_interviewers := map (\<lambda>v. if iv_id v = i then f v else v) (db_interviewers d)\<rparr>"

definition place_interviewer ::
    "nat \<Rightarrow> interviewer_row list \<Rightarrow> interviewer_input \<Rightarrow> nat list \<times> interview_db \<Rightarrow> nat list \<times> interview_db" where
  "place_interviewer i existing inp acc =
     (let (ids, d) = acc in
      case existing_by_email existing (lower (ii_email inp)) of
        Some v \<Rightarrow>
          (ids @ [iv_id v],
           update_interviewer (iv_id v) (\<lambda>v. v\<lparr>iv_name := ii_name inp, iv_timezone := ii_timezone inp\<rparr>) d)
      | None \<Rightarrow>
          (ids @ [db_next d],
           d\<lparr>db_interviewers := db_interviewers d @
               [\<lparr>iv_id = db_next d, iv_interview = i, iv_name = ii_name inp, iv_email = ii_email inp,
                 iv_timezone = ii_timezone inp, iv_active = True\<rparr>],
             db_next := Suc (db_next d)\<rparr>))"

definition deactivate_interviewer :: "nat \<Rightarrow> interview_db \<Rightarrow> interview_db" where
  "deactivate_interviewer i d = update_interviewer i (\<lambda>v. v\<lparr>iv_active := False\<rparr>) d"

definition replace_interviewers ::
    "nat \<Rightarrow> interviewer_input list \<Rightarrow> interview_db
     \<Rightarrow> (interviewer_row list \<times> interviewer_row list) \<times> interview_db" where
  "replace_interviewers i inputs d =
     (let existing = active_interviewers i d;
          (kept, d1) = fold (place_interviewer i existing) inputs ([], d);
          incoming = map (\<lambda>x. lower (ii_email x)) inputs;
          gone = map iv_id (filter (\<lambda>v. lower (iv_email v) \<notin> set incoming) existing);
          d2 = fold deactivate_interviewer gone d1
      in ((List.map_filter (\<lambda>k. interviewer_by_id k d2) kept,
           List.map_filter (\<lambda>k. interviewer_by_id k d2) gone), d2))"

section \<open>Feedback\<close>

definition feedback_of_round :: "nat \<Rightarrow> interview_db \<Rightarrow> feedback_row list" where
  "feedback_of_round i d = filter (\<lambda>f. fb_round f = i) (db_feedback d)"

definition feedback_of :: "nat \<Rightarrow> nat \<Rightarrow> interview_db \<Rightarrow> feedback_row option" where
  "feedback_of i v d = find (\<lambda>f. fb_round f = i \<and> fb_interviewer f = v) (db_feedback d)"

definition create_feedback ::
    "nat \<Rightarrow> nat \<Rightarrow> recommendation \<Rightarrow> string option \<Rightarrow> interview_db \<Rightarrow> (feedback_row option \<times> bool) \<times> interview_db" where
  "create_feedback i v rec notes d =
     (case feedback_of i v d of
        Some f \<Rightarrow> ((Some f, False), d)
      | None \<Rightarrow>
          (let f = \<lparr>fb_round = i, fb_interviewer = v, fb_recommendation = rec, fb_notes = notes\<rparr>
           in ((Some f, True), d\<lparr>db_feedback := db_feedback d @ [f]\<rparr>)))"

section \<open>Well-formed tables\<close>

definition round_keys_ok :: "interview_db \<Rightarrow> bool" where
  "round_keys_ok d \<longleftrightarrow> distinct (map ir_id (db_rounds d)) \<and> (\<forall>r\<in>set (db_rounds d). ir_id r < db_next d)"

text \<open>The rounds of a candidate are numbered 1, 2, ..., without a gap or a repetition.\<close>

definition rounds_numbered :: "interview_db \<Rightarrow> bool" where
  "rounds_numbered d \<longleftrightarrow>
     (\<forall>cc. map ir_number (all_rounds cc d) = [1..int (length (all_rounds cc d))])"

definition interviewer_keys_ok :: "interview_db \<Rightarrow> bool" where
  "interviewer_keys_ok d \<longleftrightarrow>
     distinct (map iv_id (db_interviewers d)) \<and> (\<forall>v\<in>set (db_interviewers d). iv_id v < db_next d)"

definition feedback_once :: "interview_db \<Rightarrow> bool" where
  "feedback_once d \<longleftrightarrow> distinct (map (\<lambda>f. (fb_round f, fb_interviewer f)) (db_feedback d))"

definition wf_interviews :: "interview_db \<Rightarrow> bool" where
  "wf_interviews d \<longleftrightarrow>
     round_keys_ok d \<and> rounds_numbered d \<and> interviewer_keys_ok d \<and> feedback_once d"

definition empty_interviews :: interview_db where
  "empty_interviews =
     \<lparr>db_rounds = [], db_interviewers = [], db_round_history = [], db_feedback = [], db_next = 0\<rparr>"

lemma wf_empty: "wf_interviews empty_interviews"
  by (simp add: wf_interviews_def round_keys_ok_def rounds_numbered_def interviewer_keys_ok_def
      feedback_once_def empty_interviews_def all_rounds_def)

lemma set_all_rounds [simp]: "set (all_rounds cc d) = {r \<in> set (db_rounds d). ir_candidate r = cc}"
  by (auto simp: all_rounds_def)

lemma any_round_None: "any_round cc d = None \<longleftrightarrow> (\<forall>r\<in>set (db_rounds d). ir_candidate r \<noteq> cc)"
proof -
  have "any_round cc d = None \<longleftrightarrow> all_rounds cc d = []"
    by (simp add: any_round_def split: list.splits)
  also have "\<dots> \<longleftrightarrow> set (all_rounds cc d) = {}" by (rule set_empty[symmetric])
  also have "\<dots> \<longleftrightarrow> (\<forall>r\<in>set (db_rounds d). ir_candidate r \<noteq> cc)" by auto
  finally show ?thesis .
qed

lemma any_round_Some: "any_round cc d = Some r \<Longrightarrow> r \<in> set (db_rounds d) \<and> ir_candidate r = cc"
proof -
  assume "any_round cc d = Some r"
  then obtain rs where "all_rounds cc d = r # rs" by (auto simp: any_round_def split: list.splits)
  then have "r \<in> set (all_rounds cc d)" by (simp del: set_all_rounds)
  then show ?thesis by simp
qed

lemma latest_round_None: "latest_round cc d = None \<longleftrightarrow> all_rounds cc d = []"
  by (simp add: latest_round_def split: list.splits)

lemma latest_round_Some:
  "latest_round cc d = Some r \<Longrightarrow> all_rounds cc d \<noteq> [] \<and> r = last (all_rounds cc d)"
  by (cases "all_rounds cc d" rule: rev_cases) (auto simp: latest_round_def)

lemma latest_round_number:
  assumes "rounds_numbered d" "latest_round cc d = Some r"
  shows "ir_number r = int (length (all_rounds cc d))" "r \<in> set (all_rounds cc d)"
proof -
  let ?rs = "all_rounds cc d"
  have ne: "?rs \<noteq> []" and r: "r = last ?rs" using latest_round_Some[OF assms(2)] by auto
  have "ir_number r = last (map ir_number ?rs)" using ne r by (simp add: last_map)
  also have "\<dots> = last [1..int (length ?rs)]" using assms(1) by (simp add: rounds_numbered_def)
  also have "\<dots> = int (length ?rs)" using ne by (simp add: last_conv_nth Suc_le_eq)
  finally show "ir_number r = int (length ?rs)" .
  show "r \<in> set ?rs" using ne r by (simp del: set_all_rounds)
qed

lemma round_number_range:
  assumes "rounds_numbered d" "r \<in> set (db_rounds d)"
  shows "1 \<le> ir_number r \<and> ir_number r \<le> int (length (all_rounds (ir_candidate r) d))"
proof -
  have "ir_number r \<in> set (map ir_number (all_rounds (ir_candidate r) d))" using assms(2) by simp
  then show ?thesis using assms(1) unfolding rounds_numbered_def by (metis atLeastAtMost_iff set_upto)
qed

section \<open>Writing a round back\<close>

lemma round_by_id_Some: "round_by_id i d = Some r \<Longrightarrow> r \<in> set (db_rounds d) \<and> ir_id r = i"
  unfolding round_by_id_def by (auto dest: find_Some_set)

lemma round_keys_inj:
  "round_keys_ok d \<Longrightarrow> r \<in> set (db_rounds d) \<Longrightarrow> s \<in> set (db_rounds d) \<Longrightarrow> ir_id r = ir_id s \<Longrightarrow> r = s"
  by (auto simp: round_keys_ok_def distinct_map inj_on_def)

definition same_slot :: "interview_round \<Rightarrow> interview_round \<Rightarrow> bool" where
  "same_slot r r' \<longleftrightarrow> ir_id r' = ir_id r \<and> ir_candidate r' = ir_candidate r \<and> ir_number r' = ir_number r"

lemma put_round_all_rounds:
  assumes "round_keys_ok d" "r \<in> set (db_rounds d)" "same_slot r r'"
  shows "all_rounds cc (put_round r' d) =
    map (\<lambda>x. if ir_id x = ir_id r' then r' else x) (all_rounds cc d)"
proof -
  let ?f = "\<lambda>x. if ir_id x = ir_id r' then r' else x"
  have eq: "ir_candidate (?f x) = ir_candidate x" "ir_number (?f x) = ir_number x"
    if "x \<in> set (db_rounds d)" for x
    using round_keys_inj[OF assms(1) that assms(2)] assms(3) by (auto simp: same_slot_def)
  have "filter (\<lambda>x. ir_candidate x = cc) (map ?f (db_rounds d)) =
      map ?f (filter (\<lambda>x. ir_candidate x = cc) (db_rounds d))"
    using eq(1) by (simp add: filter_map comp_def cong: filter_cong)
  moreover have "sort_key ir_number (map ?f (filter (\<lambda>x. ir_candidate x = cc) (db_rounds d))) =
      map ?f (sort_key ir_number (filter (\<lambda>x. ir_candidate x = cc) (db_rounds d)))"
    by (rule sort_key_map_eq) (use eq(2) in auto)
  ultimately show ?thesis by (simp add: all_rounds_def put_round_def)
qed

lemma put_round_numbers:
  assumes "round_keys_ok d" "r \<in> set (db_rounds d)" "same_slot r r'"
  shows "map ir_number (all_rounds cc (put_round r' d)) = map ir_number (all_rounds cc d)"
proof -
  have "ir_number (if ir_id x = ir_id r' then r' else x) = ir_number x" if "x \<in> set (all_rounds cc d)" for x
    using round_keys_inj[OF assms(1) _ assms(2), of x] that assms(3) by (auto simp: same_slot_def)
  then show ?thesis by (simp add: put_round_all_rounds[OF assms])
qed

lemma put_round_wf:
  assumes "wf_interviews d" "r \<in> set (db_rounds d)" "same_slot r r'"
  shows "wf_interviews (put_round r' d)"
proof -
  have keys: "round_keys_ok d" using assms(1) by (simp add: wf_interviews_def)
  have ids: "map ir_id (db_rounds (put_round r' d)) = map ir_id (db_rounds d)"
    by (auto simp: put_round_def)
  have nxt: "db_next (put_round r' d) = db_next d"
    "db_interviewers (put_round r' d) = db_interviewers d" "db_feedback (put_round r' d) = db_feedback d"
    by (simp_all add: put_round_def)
  have "round_keys_ok (put_round r' d)"
    using keys ids nxt unfolding round_keys_ok_def by (metis (no_types, lifting) image_iff list.set_map)
  moreover have "rounds_numbered (put_round r' d)"
    unfolding rounds_numbered_def
    by (metis assms keys length_map put_round_numbers rounds_numbered_def wf_interviews_def)
  ultimately show ?thesis
    using assms(1) nxt by (simp add: wf_interviews_def interviewer_keys_ok_def feedback_once_def)
qed

end
