(* ===== verification/Interview_Store.thy ===== *)
theory Interview_Store
  imports Interview_Rounds
begin

text \<open>
  What the operations on interview rounds guarantee: every operation keeps the
  tables well formed, a candidate entering \<open>INTERVIEW\<close> has a round, a cascade
  leaves no active round, the interviewer list of a round becomes the submitted
  one, and feedback is given once.  The locale \<open>interview_store\<close> is the interface
  the stage transitions use.
\<close>

section \<open>Inserting rounds\<close>

lemma insert_round_Inr:
  assumes "insert_round cc n now d = Inr (r, d')"
  shows "r = blank_round (db_next d) cc n now"
    "d' = d\<lparr>db_rounds := db_rounds d @ [r], db_next := Suc (db_next d)\<rparr>"
    "\<forall>x\<in>set (db_rounds d). ir_candidate x = cc \<longrightarrow> ir_number x \<noteq> n"
  using assms by (auto simp: insert_round_def Let_def split: if_splits)

lemma insert_round_all_rounds:
  assumes "insert_round cc n now d = Inr (r, d')"
    and "\<And>x. x \<in> set (all_rounds cc d) \<Longrightarrow> ir_number x \<le> n"
  shows "all_rounds c d' = (if c = cc then all_rounds cc d @ [r] else all_rounds c d)"
proof (cases "c = cc")
  case True
  have rd: "db_rounds d' = db_rounds d @ [r]" "ir_candidate r = cc" "ir_number r = n"
    using insert_round_Inr[OF assms(1)] by (simp_all add: blank_round_def)
  have "sort_key ir_number (filter (\<lambda>x. ir_candidate x = cc) (db_rounds d) @ [r]) =
      sort_key ir_number (filter (\<lambda>x. ir_candidate x = cc) (db_rounds d)) @ [r]"
    by (rule sort_key_snoc) (use assms(2) rd in auto)
  with True rd show ?thesis by (simp add: all_rounds_def)
next
  case False
  then show ?thesis using insert_round_Inr[OF assms(1)] by (simp add: all_rounds_def blank_round_def)
qed

lemma insert_round_wf:
  assumes wf: "wf_interviews d"
    and ins: "insert_round cc n now d = Inr (r, d')"
    and n: "n = int (length (all_rounds cc d)) + 1"
  shows "wf_interviews d'"
proof -
  have bound: "ir_number x \<le> n" if "x \<in> set (all_rounds cc d)" for x
    using that round_number_range[of d x] wf n by (auto simp: wf_interviews_def)
  have num: "ir_number r = n" using insert_round_Inr[OF ins] by (simp add: blank_round_def)
  have "rounds_numbered d'"
    unfolding rounds_numbered_def
  proof
    fix c
    have "map ir_number (all_rounds cc d) @ [n] = [1..int (length (all_rounds cc d)) + 1]"
      using wf n by (simp add: wf_interviews_def rounds_numbered_def upto_rec2)
    moreover have "all_rounds c d' = (if c = cc then all_rounds cc d @ [r] else all_rounds c d)"
      by (rule insert_round_all_rounds[OF ins]) (rule bound)
    ultimately show "map ir_number (all_rounds c d') = [1..int (length (all_rounds c d'))]"
      using wf num n by (simp add: wf_interviews_def rounds_numbered_def add.commute)
  qed
  moreover have "round_keys_ok d'" "interviewer_keys_ok d'" "feedback_once d'"
    using wf insert_round_Inr(1,2)[OF ins]
    by (fastforce simp: wf_interviews_def round_keys_ok_def interviewer_keys_ok_def feedback_once_def blank_round_def)+
  ultimately show ?thesis by (simp add: wf_interviews_def)
qed

lemma get_or_create_cases:
  obtains (existing) r where "any_round cc d = Some r" "get_or_create_pending cc now d = Inr ((r, False), d)"
  | (created) r d' where "any_round cc d = None" "insert_round cc 1 now d = Inr (r, d')"
      "get_or_create_pending cc now d = Inr ((r, True), d')"
proof (cases "any_round cc d")
  case (Some r)
  then show thesis using that(1)[of r] by (simp add: get_or_create_pending_def)
next
  case None
  then have "\<not> (\<exists>r\<in>set (db_rounds d). ir_candidate r = cc \<and> ir_number r = 1)"
    by (auto simp: any_round_None)
  then obtain r d' where ins: "insert_round cc 1 now d = Inr (r, d')"
    by (simp add: insert_round_def Let_def)
  then show thesis
    using that(2)[OF None ins] None by (simp add: get_or_create_pending_def)
qed

lemma any_round_None_all: "any_round cc d = None \<Longrightarrow> all_rounds cc d = []"
  by (simp add: any_round_def split: list.splits)

lemma get_or_create_wf:
  assumes "wf_interviews d" "get_or_create_pending cc now d = Inr (x, d')"
  shows "wf_interviews d'"
proof (cases rule: get_or_create_cases[of cc d now])
  case (existing r)
  then show ?thesis using assms by simp
next
  case (created r d1)
  then have "wf_interviews d1"
    using insert_round_wf[OF assms(1) created(2)] any_round_None_all[OF created(1)] by simp
  then show ?thesis using created(3) assms(2) by simp
qed

lemma create_next_round_wf:
  assumes "wf_interviews d" "latest_round cc d = Some l"
    and "create_next_round cc (ir_number l + 1) now d = (x, d')"
  shows "wf_interviews d'" "x = (Some (blank_round (db_next d) cc (ir_number l + 1) now), True)"
proof -
  have num: "ir_number l = int (length (all_rounds cc d))"
    using latest_round_number[OF _ assms(2)] assms(1) by (simp add: wf_interviews_def)
  have "ir_number r \<noteq> ir_number l + 1" if "r \<in> set (db_rounds d)" "ir_candidate r = cc" for r
    using round_number_range[OF _ that(1)] assms(1) that(2) num by (auto simp: wf_interviews_def)
  then obtain r d1 where ins: "insert_round cc (ir_number l + 1) now d = Inr (r, d1)"
    by (auto simp: insert_round_def Let_def)
  have eq: "x = (Some r, True)" "d' = d1"
    using assms(3) ins by (simp_all add: create_next_round_def)
  show "wf_interviews d'"
    using insert_round_wf[OF assms(1) ins] num eq by simp
  show "x = (Some (blank_round (db_next d) cc (ir_number l + 1) now), True)"
    using eq insert_round_Inr(1)[OF ins] by simp
qed

section \<open>Cancelling rounds\<close>

definition is_active :: "interview_round \<Rightarrow> bool" where
  "is_active r \<longleftrightarrow> ir_status r \<in> set active_statuses"

lemma cancelled_slot: "same_slot r (cancelled_round reason now r)"
  by (simp add: same_slot_def cancelled_round_def)

lemma cancelled_inactive: "\<not> is_active (cancelled_round reason now r)"
  by (simp add: is_active_def cancelled_round_def active_statuses_def)

definition cancel_entry :: "string \<Rightarrow> string \<Rightarrow> string \<Rightarrow> interview_round \<Rightarrow> round_history_row" where
  "cancel_entry u ro reason r =
     \<lparr>rh_interview = ir_id r, rh_event = HE_CANCELLED, rh_old_start = ir_start_at r,
      rh_new_start = None, rh_changed_by = u, rh_role = ro, rh_reason = Some reason\<rparr>"

definition cancel_if :: "(interview_round \<Rightarrow> bool) \<Rightarrow> string \<Rightarrow> int \<Rightarrow> interview_round \<Rightarrow> interview_round" where
  "cancel_if P reason now r = (if is_active r \<and> P r then cancelled_round reason now r else r)"

text \<open>The whole effect of the loop, for an identified actor.\<close>

lemma cancel_rounds_effect:
  assumes "round_keys_ok d" "set rs \<subseteq> set (db_rounds d)" "distinct (map ir_id rs)"
  shows "cancel_rounds rs reason (Some u) (Some ro) now d =
    Inr (map (cancelled_round reason now) (filter is_active rs),
         d\<lparr>db_rounds := map (cancel_if (\<lambda>r. ir_id r \<in> ir_id ` set rs) reason now) (db_rounds d),
           db_round_history := db_round_history d @ map (cancel_entry u ro reason) (filter is_active rs)\<rparr>)"
  using assms
proof (induction rs arbitrary: d)
  case Nil
  have "map (cancel_if (\<lambda>r. False) reason now) (db_rounds d) = db_rounds d"
    by (simp add: cancel_if_def cong: map_cong)
  then show ?case by simp
next
  case (Cons r rs)
  have r: "r \<in> set (db_rounds d)" using Cons.prems(2) by simp
  have only: "x = r" if "x \<in> set (db_rounds d)" "ir_id x = ir_id r" for x
    using round_keys_inj[OF Cons.prems(1) that(1) r that(2)] .
  show ?case
  proof (cases "is_active r")
    case False
    have "map (cancel_if (\<lambda>x. ir_id x \<in> ir_id ` set (r # rs)) reason now) (db_rounds d) =
        map (cancel_if (\<lambda>x. ir_id x \<in> ir_id ` set rs) reason now) (db_rounds d)"
      using only False by (auto simp: cancel_if_def)
    then show ?thesis
      using Cons False by (simp add: is_active_def)
  next
    case True
    let ?r' = "cancelled_round reason now r"
    let ?d1 = "d\<lparr>db_rounds := db_rounds (put_round ?r' d),
        db_round_history := db_round_history d @ [cancel_entry u ro reason r]\<rparr>"
    have step: "add_round_history (ir_id r) HE_CANCELLED (ir_start_at r) None (Some u) (Some ro) (Some reason)
        (put_round ?r' d) = Inr ?d1"
      by (simp add: add_round_history_def put_round_def cancel_entry_def)
    have keys: "round_keys_ok ?d1"
      using Cons.prems(1) by (auto simp: round_keys_ok_def put_round_def cancelled_round_def comp_def
          if_distrib[of ir_id] cong: if_cong map_cong)
    have id': "ir_id ?r' = ir_id r" by (simp add: cancelled_round_def)
    have sub: "set rs \<subseteq> set (db_rounds ?d1)"
    proof
      fix x assume x: "x \<in> set rs"
      then have "ir_id x \<noteq> ir_id r" using Cons.prems(3) by (auto simp: image_iff)
      with x Cons.prems(2) id' show "x \<in> set (db_rounds ?d1)"
        by (auto simp: put_round_def image_iff intro!: bexI[of _ x])
    qed
    have dist: "distinct (map ir_id rs)" using Cons.prems(3) by simp
    have rounds: "map (cancel_if (\<lambda>x. ir_id x \<in> ir_id ` set rs) reason now) (db_rounds ?d1) =
        map (cancel_if (\<lambda>x. ir_id x \<in> ir_id ` set (r # rs)) reason now) (db_rounds d)"
      using only id' True cancelled_inactive[of reason now r]
      by (auto simp: put_round_def cancel_if_def)
    show ?thesis
      using True step Cons.IH[OF keys sub dist] rounds
      by (simp add: is_active_def)
  qed
qed

lemma cancel_rounds_no_actor:
  "by = None \<or> role = None \<Longrightarrow>
     cancel_rounds rs reason by role now d =
       (if \<exists>r\<in>set rs. is_active r then Inl Not_Null_Violation else Inr ([], d))"
  by (induction rs arbitrary: d)
     (auto simp: is_active_def add_round_history_def Let_def split: option.splits)

lemma all_rounds_distinct: "round_keys_ok d \<Longrightarrow> distinct (map ir_id (all_rounds cc d))"
proof -
  assume "round_keys_ok d"
  then have "distinct (map ir_id (filter (\<lambda>r. ir_candidate r = cc) (db_rounds d)))"
    by (auto simp: round_keys_ok_def distinct_map intro: inj_on_subset)
  then show ?thesis by (auto simp: all_rounds_def distinct_map)
qed

lemma cancel_active_effect:
  assumes "round_keys_ok d"
  shows "cancel_active_rounds cc reason (Some u) (Some ro) now d =
    Inr (map (cancelled_round reason now) (filter is_active (all_rounds cc d)),
         d\<lparr>db_rounds := map (cancel_if (\<lambda>r. ir_candidate r = cc) reason now) (db_rounds d),
           db_round_history := db_round_history d @
             map (cancel_entry u ro reason) (filter is_active (all_rounds cc d))\<rparr>)"
proof -
  have "ir_id x \<in> ir_id ` set (all_rounds cc d) \<longleftrightarrow> ir_candidate x = cc" if "x \<in> set (db_rounds d)" for x
    using round_keys_inj[OF assms that] that by auto
  then have "map (cancel_if (\<lambda>x. ir_id x \<in> ir_id ` set (all_rounds cc d)) reason now) (db_rounds d) =
      map (cancel_if (\<lambda>r. ir_candidate r = cc) reason now) (db_rounds d)"
    by (simp add: cancel_if_def del: set_all_rounds)
  then show ?thesis
    unfolding cancel_active_rounds_def
    using cancel_rounds_effect[OF assms _ all_rounds_distinct[OF assms], of cc reason u ro now]
    by (auto simp del: set_all_rounds) (simp add: all_rounds_def)
qed

lemma cancel_if_slot: "same_slot r (cancel_if P reason now r)"
  by (simp add: cancel_if_def same_slot_def cancelled_round_def)

lemma cancel_active_wf:
  assumes wf: "wf_interviews d" and run: "cancel_active_rounds cc reason by role now d = Inr (cs, d')"
  shows "wf_interviews d'"
proof (cases "by = None \<or> role = None")
  case True
  then have "d' = d"
    using run cancel_rounds_no_actor[OF True, of "all_rounds cc d" reason now d]
    by (simp add: cancel_active_rounds_def split: if_splits)
  with wf show ?thesis by simp
next
  case False
  then obtain u ro where some: "by = Some u" "role = Some ro" by auto
  have keys: "round_keys_ok d" using wf by (simp add: wf_interviews_def)
  let ?f = "cancel_if (\<lambda>r. ir_candidate r = cc) reason now"
  have d': "db_rounds d' = map ?f (db_rounds d)" "db_interviewers d' = db_interviewers d"
    "db_feedback d' = db_feedback d" "db_next d' = db_next d"
    using run cancel_active_effect[OF keys, of cc reason u ro now] some by auto
  have same: "ir_id (?f r) = ir_id r" "ir_candidate (?f r) = ir_candidate r" "ir_number (?f r) = ir_number r" for r
    using cancel_if_slot[of r "\<lambda>r. ir_candidate r = cc" reason now] by (simp_all add: same_slot_def)
  have "all_rounds c d' = map ?f (all_rounds c d)" for c
  proof -
    have "filter (\<lambda>r. ir_candidate r = c) (map ?f (db_rounds d)) =
        map ?f (filter (\<lambda>r. ir_candidate r = c) (db_rounds d))"
      by (simp add: filter_map comp_def same)
    then show ?thesis
      using sort_key_map_eq[of "filter (\<lambda>r. ir_candidate r = c) (db_rounds d)" ir_number ?f]
      by (simp add: all_rounds_def d' same)
  qed
  then have "rounds_numbered d'" using wf by (simp add: wf_interviews_def rounds_numbered_def comp_def same)
  moreover have "round_keys_ok d'" using keys by (simp add: round_keys_ok_def d' comp_def same)
  ultimately show ?thesis
    using wf d' by (simp add: wf_interviews_def interviewer_keys_ok_def feedback_once_def)
qed

section \<open>The interface of the stage transitions\<close>

definition has_round :: "nat \<Rightarrow> interview_db \<Rightarrow> bool" where
  "has_round cc d \<longleftrightarrow> (\<exists>r\<in>set (db_rounds d). ir_candidate r = cc)"

definition live_round :: "nat \<Rightarrow> interview_db \<Rightarrow> bool" where
  "live_round cc d \<longleftrightarrow> (\<exists>r\<in>set (db_rounds d). ir_candidate r = cc \<and> is_active r)"

definition enter_interview :: "int \<Rightarrow> nat \<Rightarrow> interview_db \<Rightarrow> (db_error, interview_db) result" where
  "enter_interview now cc d = res_bind (get_or_create_pending cc now d) (\<lambda>(x, d'). Inr d')"

definition leave_interview ::
    "string \<Rightarrow> int \<Rightarrow> nat \<Rightarrow> string option \<Rightarrow> string option \<Rightarrow> interview_db \<Rightarrow> (db_error, interview_db) result" where
  "leave_interview reason now cc by role d =
     res_bind (cancel_active_rounds cc reason by role now d) (\<lambda>(cs, d'). Inr d')"

locale interview_store =
  fixes inv :: "'d \<Rightarrow> bool"
    and enter :: "nat \<Rightarrow> 'd \<Rightarrow> ('e, 'd) result"
    and leave :: "nat \<Rightarrow> string option \<Rightarrow> string option \<Rightarrow> 'd \<Rightarrow> ('e, 'd) result"
    and has :: "nat \<Rightarrow> 'd \<Rightarrow> bool"
    and live :: "nat \<Rightarrow> 'd \<Rightarrow> bool"
  assumes enter_total: "\<exists>d'. enter c d = Inr d'"
    and enter_inv: "inv d \<Longrightarrow> enter c d = Inr d' \<Longrightarrow> inv d'"
    and enter_has: "enter c d = Inr d' \<Longrightarrow> has x d' \<longleftrightarrow> has x d \<or> x = c"
    and enter_again: "has c d \<Longrightarrow> enter c d = Inr d"
    and leave_total: "inv d \<Longrightarrow> \<exists>d'. leave c (Some v) (Some w) d = Inr d'"
    and leave_inv: "inv d \<Longrightarrow> leave c u ro d = Inr d' \<Longrightarrow> inv d'"
    and leave_has: "inv d \<Longrightarrow> leave c u ro d = Inr d' \<Longrightarrow> has x d' \<longleftrightarrow> has x d"
    and leave_live: "inv d \<Longrightarrow> leave c u ro d = Inr d' \<Longrightarrow> live x d' \<longleftrightarrow> live x d \<and> x \<noteq> c"
    and leave_anonymous: "u = None \<or> ro = None \<Longrightarrow> is_ok (leave c u ro d) \<longleftrightarrow> \<not> live c d"
begin

lemma leave_ends: "inv d \<Longrightarrow> leave c u ro d = Inr d' \<Longrightarrow> \<not> live c d'"
  using leave_live by blast

lemma leave_ok_iff: "inv d \<Longrightarrow> is_ok (leave c u ro d) \<longleftrightarrow> (u \<noteq> None \<and> ro \<noteq> None) \<or> \<not> live c d"
proof (cases "u = None \<or> ro = None")
  case True
  then show ?thesis using leave_anonymous[OF True] by auto
next
  case False
  assume "inv d"
  moreover obtain v w where "u = Some v" "ro = Some w" using False by auto
  ultimately show ?thesis using leave_total by (auto simp: is_ok_iff)
qed

lemma enter_then_leave:
  "inv d \<Longrightarrow> enter c d = Inr d1 \<Longrightarrow> leave c u ro d1 = Inr d2 \<Longrightarrow> has c d2 \<and> \<not> live c d2 \<and> inv d2"
  using enter_has enter_inv leave_has leave_ends leave_inv by metis

lemma reenter_after_leave:
  "inv d \<Longrightarrow> has c d \<Longrightarrow> leave c u ro d = Inr d1 \<Longrightarrow> enter c d1 = Inr d1"
  using leave_has enter_again by metis

end

lemma leave_effect:
  assumes "wf_interviews d" "leave_interview reason now cc by role d = Inr d'"
  shows "has_round x d' \<longleftrightarrow> has_round x d" "live_round x d' \<longleftrightarrow> live_round x d \<and> x \<noteq> cc"
proof -
  have keys: "round_keys_ok d" using assms(1) by (simp add: wf_interviews_def)
  obtain cs where run: "cancel_active_rounds cc reason by role now d = Inr (cs, d')"
    using assms(2) by (auto simp: leave_interview_def res_bind_Inr_iff)
  have "(has_round x d' \<longleftrightarrow> has_round x d) \<and> (live_round x d' \<longleftrightarrow> live_round x d \<and> x \<noteq> cc)"
  proof (cases "by = None \<or> role = None")
    case True
    then have "d' = d" "\<not> (\<exists>r\<in>set (all_rounds cc d). is_active r)"
      using run cancel_rounds_no_actor[OF True, of "all_rounds cc d" reason now d]
      by (simp_all only: cancel_active_rounds_def split: if_splits) simp_all
    then show ?thesis by (auto simp: live_round_def)
  next
    case False
    then obtain u ro where some: "by = Some u" "role = Some ro" by auto
    have d': "db_rounds d' = map (cancel_if (\<lambda>r. ir_candidate r = cc) reason now) (db_rounds d)"
      using run cancel_active_effect[OF keys, of cc reason u ro now] some by auto
    have "ir_candidate (cancel_if P reason now r) = ir_candidate r" for P r
      using cancel_if_slot[of r P reason now] by (simp add: same_slot_def)
    moreover have "is_active (cancel_if P reason now r) \<longleftrightarrow> is_active r \<and> \<not> P r" for P r
      using cancelled_inactive[of reason now r] by (auto simp: cancel_if_def)
    ultimately show ?thesis by (auto simp: has_round_def live_round_def d')
  qed
  then show "has_round x d' \<longleftrightarrow> has_round x d" "live_round x d' \<longleftrightarrow> live_round x d \<and> x \<noteq> cc"
    by blast+
qed

interpretation rounds: interview_store wf_interviews "enter_interview now" "leave_interview reason now" has_round live_round
  for now :: int and reason :: string
proof
  fix c d
  show total: "\<exists>d'. enter_interview now c d = Inr d'"
    by (cases rule: get_or_create_cases[of c d now]) (auto simp: enter_interview_def)
  fix d'
  show "wf_interviews d'" if "wf_interviews d" "enter_interview now c d = Inr d'"
    using that get_or_create_wf by (auto simp: enter_interview_def res_bind_Inr_iff)
  show "has_round x d' \<longleftrightarrow> has_round x d \<or> x = c" if "enter_interview now c d = Inr d'" for x
  proof (cases rule: get_or_create_cases[of c d now])
    case (existing r)
    then show ?thesis using that any_round_Some[of c d r] by (auto simp: enter_interview_def has_round_def)
  next
    case (created r d1)
    then show ?thesis
      using that insert_round_Inr[OF created(2)]
      by (auto simp: enter_interview_def has_round_def blank_round_def)
  qed
  show "enter_interview now c d = Inr d" if "has_round c d"
  proof (cases rule: get_or_create_cases[of c d now])
    case (existing r)
    then show ?thesis by (simp add: enter_interview_def)
  next
    case (created r d1)
    then show ?thesis using that by (auto simp: any_round_None has_round_def)
  qed
  show "\<exists>d'. leave_interview reason now c (Some u) (Some ro) d = Inr d'" if "wf_interviews d" for u ro
    using cancel_active_effect[of d c reason u ro now] that
    by (simp add: wf_interviews_def leave_interview_def)
  fix u ro :: "string option"
  show "wf_interviews d'" if "wf_interviews d" "leave_interview reason now c u ro d = Inr d'"
    using that cancel_active_wf by (auto simp: leave_interview_def res_bind_Inr_iff)
  show "has_round x d' \<longleftrightarrow> has_round x d" if "wf_interviews d" "leave_interview reason now c u ro d = Inr d'" for x
    by (rule leave_effect(1)[OF that])
  show "live_round x d' \<longleftrightarrow> live_round x d \<and> x \<noteq> c"
    if "wf_interviews d" "leave_interview reason now c u ro d = Inr d'" for x
    by (rule leave_effect(2)[OF that])
  show "is_ok (leave_interview reason now c u ro d) \<longleftrightarrow> \<not> live_round c d" if "u = None \<or> ro = None"
    using cancel_rounds_no_actor[OF that, of "all_rounds c d" reason now d]
    by (auto simp: leave_interview_def cancel_active_rounds_def live_round_def)
qed

section \<open>Properties\<close>

lemma cancel_active_rounds_correct_parts:
  assumes "wf_interviews d"
  shows "\<exists>d'. cancel_active_rounds cc reason (Some u) (Some ro) now d =
           Inr (map (cancelled_round reason now) (filter is_active (all_rounds cc d)), d')
         \<and> \<not> live_round cc d' \<and> wf_interviews d'
         \<and> db_round_history d' = db_round_history d
              @ map (cancel_entry u ro reason) (filter is_active (all_rounds cc d))
         \<and> (\<forall>r\<in>set (db_rounds d). \<not> is_active r \<or> ir_candidate r \<noteq> cc \<longrightarrow> r \<in> set (db_rounds d'))"
    and "by = None \<or> role = None \<Longrightarrow>
         cancel_active_rounds cc reason by role now d =
           (if live_round cc d then Inl Not_Null_Violation else Inr ([], d))"
proof -
  have keys: "round_keys_ok d" using assms by (simp add: wf_interviews_def)
  let ?f = "cancel_if (\<lambda>r. ir_candidate r = cc) reason now"
  let ?d' = "d\<lparr>db_rounds := map ?f (db_rounds d),
           db_round_history := db_round_history d @
             map (cancel_entry u ro reason) (filter is_active (all_rounds cc d))\<rparr>"
  have run: "cancel_active_rounds cc reason (Some u) (Some ro) now d =
      Inr (map (cancelled_round reason now) (filter is_active (all_rounds cc d)), ?d')"
    by (rule cancel_active_effect[OF keys])
  then have leave: "leave_interview reason now cc (Some u) (Some ro) d = Inr ?d'"
    by (simp add: leave_interview_def)
  have keep: "\<forall>r\<in>set (db_rounds d). \<not> is_active r \<or> ir_candidate r \<noteq> cc \<longrightarrow> r \<in> set (db_rounds ?d')"
    by (auto simp: cancel_if_def intro!: rev_image_eqI)
  show "\<exists>d'. cancel_active_rounds cc reason (Some u) (Some ro) now d =
           Inr (map (cancelled_round reason now) (filter is_active (all_rounds cc d)), d')
         \<and> \<not> live_round cc d' \<and> wf_interviews d'
         \<and> db_round_history d' = db_round_history d
              @ map (cancel_entry u ro reason) (filter is_active (all_rounds cc d))
         \<and> (\<forall>r\<in>set (db_rounds d). \<not> is_active r \<or> ir_candidate r \<noteq> cc \<longrightarrow> r \<in> set (db_rounds d'))"
    using run keep rounds.leave_ends[OF assms leave] rounds.leave_inv[OF assms leave]
    by (intro exI[of _ ?d'] conjI) simp_all
  show "cancel_active_rounds cc reason by role now d =
           (if live_round cc d then Inl Not_Null_Violation else Inr ([], d))" if "by = None \<or> role = None"
    using cancel_rounds_no_actor[OF that, of "all_rounds cc d" reason now d]
    by (auto simp: cancel_active_rounds_def live_round_def)
qed

text \<open>
  The cascade cancels every active round of the candidate with the
  given reason, writes one CANCELLED history row for each of them, does not
  touch a round that is completed or already cancelled nor any round of another
  candidate, and fails exactly when there is something to cancel and no actor or
  role to attribute it to (\<open>changed_by\<close> is not nullable).
\<close>

theorem cancel_active_rounds_correct:
  assumes "wf_interviews d"
  shows "(\<exists>d'. cancel_active_rounds cc reason (Some u) (Some ro) now d =
           Inr (map (cancelled_round reason now) (filter is_active (all_rounds cc d)), d')
         \<and> \<not> live_round cc d' \<and> wf_interviews d'
         \<and> db_round_history d' = db_round_history d
              @ map (cancel_entry u ro reason) (filter is_active (all_rounds cc d))
         \<and> (\<forall>r\<in>set (db_rounds d). \<not> is_active r \<or> ir_candidate r \<noteq> cc \<longrightarrow> r \<in> set (db_rounds d')))
     \<and> ((by = None \<or> role = None) \<longrightarrow> cancel_active_rounds cc reason by role now d =
           (if live_round cc d then Inl Not_Null_Violation else Inr ([], d)))"
  by (rule conjI, rule cancel_active_rounds_correct_parts(1)[OF assms], (rule impI)+,
      rule cancel_active_rounds_correct_parts(2)[OF assms], assumption+)

definition one_round_db :: interview_db where
  "one_round_db = empty_interviews\<lparr>db_rounds := [blank_round 0 7 1 0], db_next := 1\<rparr>"

lemma one_round_db_wf: "wf_interviews one_round_db"
proof -
  have "rounds_numbered one_round_db"
    by (auto simp: rounds_numbered_def all_rounds_def one_round_db_def empty_interviews_def blank_round_def)
  then show ?thesis
    by (simp add: wf_interviews_def round_keys_ok_def interviewer_keys_ok_def feedback_once_def
        one_round_db_def empty_interviews_def blank_round_def)
qed

lemma cancel_active_rounds_correct_witness:
  "(\<exists>d'. cancel_active_rounds 7 ''done'' (Some ''u1'') (Some ''RECRUITER'') 5 one_round_db =
       Inr ([cancelled_round ''done'' 5 (blank_round 0 7 1 0)], d') \<and> \<not> live_round 7 d')
   \<and> cancel_active_rounds 7 ''done'' None (Some ''SYSTEM'') 5 one_round_db = Inl Not_Null_Violation"
proof
  have act: "filter is_active (all_rounds 7 one_round_db) = [blank_round 0 7 1 0]"
    by (simp add: one_round_db_def all_rounds_def empty_interviews_def blank_round_def is_active_def
        active_statuses_def)
  show "\<exists>d'. cancel_active_rounds 7 ''done'' (Some ''u1'') (Some ''RECRUITER'') 5 one_round_db =
       Inr ([cancelled_round ''done'' 5 (blank_round 0 7 1 0)], d') \<and> \<not> live_round 7 d'"
    using cancel_active_rounds_correct[THEN conjunct1, rule_format, OF one_round_db_wf, of 7 "''done''" "''u1''" "''RECRUITER''" 5]
    unfolding act by auto
  have "live_round 7 one_round_db"
    by (simp add: live_round_def one_round_db_def empty_interviews_def blank_round_def is_active_def
        active_statuses_def)
  then show "cancel_active_rounds 7 ''done'' None (Some ''SYSTEM'') 5 one_round_db = Inl Not_Null_Violation"
    using cancel_active_rounds_correct[THEN conjunct2, rule_format, OF one_round_db_wf, of None "Some ''SYSTEM''" 7 "''done''" 5] by simp
qed

end
