(* ===== verification/Interviewer_List.thy ===== *)
theory Interviewer_List
  imports Interview_Store
begin

text \<open>
  Replacing the interviewer list of a round
  (\<open>InterviewScheduleRepository.replace_interviewers\<close>): the rows that are added,
  kept, renamed and deactivated, and what stays as it was.
\<close>

abbreviation mail_of :: "interviewer_row \<Rightarrow> string" where
  "mail_of v \<equiv> lower (iv_email v)"

abbreviation mail_in :: "interviewer_input \<Rightarrow> string" where
  "mail_in x \<equiv> lower (ii_email x)"

lemma existing_by_email_Some:
  "existing_by_email rows e = Some v \<Longrightarrow> v \<in> set rows \<and> mail_of v = e"
  by (auto simp: existing_by_email_def dest!: map_of_SomeD)

lemma existing_by_email_None:
  "existing_by_email rows e = None \<longleftrightarrow> e \<notin> mail_of ` set rows"
  by (auto simp: existing_by_email_def map_of_eq_None_iff image_iff)

text \<open>The shape of the table while the incoming list is placed.\<close>

definition same_person :: "interviewer_row \<Rightarrow> interviewer_row \<Rightarrow> bool" where
  "same_person v w \<longleftrightarrow> iv_id w = iv_id v \<and> iv_interview w = iv_interview v
     \<and> iv_email w = iv_email v \<and> iv_active w = iv_active v"

definition rest_equal :: "interview_db \<Rightarrow> interview_db \<Rightarrow> bool" where
  "rest_equal d e \<longleftrightarrow> db_rounds e = db_rounds d \<and> db_round_history e = db_round_history d
     \<and> db_feedback e = db_feedback d"

definition placed_as ::
    "nat \<Rightarrow> interview_db \<Rightarrow> interviewer_input list \<Rightarrow> interview_db
     \<Rightarrow> (interviewer_row \<Rightarrow> interviewer_row) \<Rightarrow> interviewer_row list \<Rightarrow> bool" where
  "placed_as i d inputs e g news \<longleftrightarrow>
     db_interviewers e = map g (db_interviewers d) @ news
     \<and> (\<forall>v\<in>set (db_interviewers d). same_person v (g v) \<and> (v \<notin> set (active_interviewers i d) \<longrightarrow> g v = v))
     \<and> (\<forall>v\<in>set news. iv_interview v = i \<and> iv_active v \<and> db_next d \<le> iv_id v \<and> iv_id v < db_next e)
     \<and> distinct (map iv_id news)
     \<and> mail_of ` set news = mail_in ` set inputs - mail_of ` set (active_interviewers i d)
     \<and> db_next d \<le> db_next e \<and> rest_equal d e"

lemma active_interviewers_sub: "v \<in> set (active_interviewers i d) \<Longrightarrow> v \<in> set (db_interviewers d)"
  by (simp add: active_interviewers_def)

lemma interviewer_keys_inj:
  "interviewer_keys_ok d \<Longrightarrow> v \<in> set (db_interviewers d) \<Longrightarrow> w \<in> set (db_interviewers d)
   \<Longrightarrow> iv_id v = iv_id w \<Longrightarrow> v = w"
  by (auto simp: interviewer_keys_ok_def distinct_map inj_on_def)

lemma place_interviewer_step:
  assumes keys: "interviewer_keys_ok d"
    and pl: "placed_as i d inputs e g news"
  shows "\<exists>g' news'. placed_as i d (inputs @ [x]) (snd (place_interviewer i (active_interviewers i d) x (ids, e))) g' news'"
proof (cases "existing_by_email (active_interviewers i d) (mail_in x)")
  case (Some v)
  let ?f = "\<lambda>v. v\<lparr>iv_name := ii_name x, iv_timezone := ii_timezone x\<rparr>"
  let ?g = "\<lambda>w. if iv_id w = iv_id v then ?f (g w) else g w"
  have v: "v \<in> set (active_interviewers i d)" "mail_of v = mail_in x" "v \<in> set (db_interviewers d)"
    using existing_by_email_Some[OF Some] active_interviewers_sub by auto
  then have "iv_id v < db_next d" using keys by (simp add: interviewer_keys_ok_def)
  then have news: "map (\<lambda>w. if iv_id w = iv_id v then ?f w else w) news = news"
    using pl by (intro map_idI) (auto simp: placed_as_def)
  have olds: "map (\<lambda>w. if iv_id w = iv_id v then ?f w else w) (map g (db_interviewers d)) =
      map ?g (db_interviewers d)"
    using pl by (auto simp: placed_as_def same_person_def)
  have person: "same_person w (?g w)" "w \<notin> set (active_interviewers i d) \<Longrightarrow> ?g w = w"
    if "w \<in> set (db_interviewers d)" for w
    using pl that interviewer_keys_inj[OF keys that v(3)] v(1)
    by (auto simp: placed_as_def same_person_def)
  have "placed_as i d (inputs @ [x]) (update_interviewer (iv_id v) ?f e) ?g news"
    unfolding placed_as_def
  proof (intro conjI ballI)
    show "db_interviewers (update_interviewer (iv_id v) ?f e) = map ?g (db_interviewers d) @ news"
      using pl news olds by (simp add: placed_as_def update_interviewer_def)
    have "mail_in x \<in> mail_of ` set (active_interviewers i d)"
      using v(1) unfolding v(2)[symmetric] by (rule imageI)
    then show "mail_of ` set news = mail_in ` set (inputs @ [x]) - mail_of ` set (active_interviewers i d)"
      using pl by (auto simp: placed_as_def)
    show "rest_equal d (update_interviewer (iv_id v) ?f e)"
      using pl by (simp add: placed_as_def rest_equal_def update_interviewer_def)
  qed (use pl person in \<open>auto simp: placed_as_def update_interviewer_def\<close>)
  then show ?thesis using Some by (auto simp: place_interviewer_def)
next
  case None
  let ?new = "\<lparr>iv_id = db_next e, iv_interview = i, iv_name = ii_name x, iv_email = ii_email x,
      iv_timezone = ii_timezone x, iv_active = True\<rparr>"
  let ?e = "e\<lparr>db_interviewers := db_interviewers e @ [?new], db_next := Suc (db_next e)\<rparr>"
  have "placed_as i d (inputs @ [x]) ?e g (news @ [?new])"
    unfolding placed_as_def
  proof (intro conjI ballI)
    show "mail_of ` set (news @ [?new]) =
        mail_in ` set (inputs @ [x]) - mail_of ` set (active_interviewers i d)"
      using pl None by (auto simp: placed_as_def existing_by_email_None)
    show "distinct (map iv_id (news @ [?new]))" using pl by (auto simp: placed_as_def)
    show "rest_equal d ?e" using pl by (simp add: placed_as_def rest_equal_def)
  qed (use pl in \<open>auto simp: placed_as_def\<close>)
  then show ?thesis using None by (auto simp: place_interviewer_def)
qed

lemma place_all:
  assumes "interviewer_keys_ok d"
  shows "\<exists>g news. placed_as i d inputs (snd (fold (place_interviewer i (active_interviewers i d)) inputs ([], d))) g news"
proof (induction inputs rule: rev_induct)
  case Nil
  have "placed_as i d [] d (\<lambda>v. v) []"
    by (auto simp: placed_as_def same_person_def rest_equal_def)
  then show ?case by auto
next
  case (snoc x inputs)
  obtain ids e where st: "fold (place_interviewer i (active_interviewers i d)) inputs ([], d) = (ids, e)"
    by fastforce
  with snoc obtain g news where "placed_as i d inputs e g news" by auto
  from place_interviewer_step[OF assms this, of x ids] st show ?case by simp
qed

definition deactivate_if :: "nat list \<Rightarrow> interviewer_row \<Rightarrow> interviewer_row" where
  "deactivate_if gone v = (if iv_id v \<in> set gone then v\<lparr>iv_active := False\<rparr> else v)"

lemma deactivate_all:
  "fold deactivate_interviewer gone d = d\<lparr>db_interviewers := map (deactivate_if gone) (db_interviewers d)\<rparr>"
proof (induction gone arbitrary: d)
  case Nil
  have "map (deactivate_if []) (db_interviewers d) = db_interviewers d"
    by (rule map_idI) (simp add: deactivate_if_def)
  then show ?case by simp
next
  case (Cons k gone)
  then show ?case
    by (auto simp: deactivate_interviewer_def update_interviewer_def deactivate_if_def)
qed

text \<open>The table after the whole operation.\<close>

lemma replace_interviewers_shape:
  assumes "interviewer_keys_ok d" "replace_interviewers i inputs d = (res, d')"
  obtains g news e where "placed_as i d inputs e g news"
    "d' = e\<lparr>db_interviewers := map (deactivate_if (map iv_id (filter (\<lambda>v. mail_of v \<notin> mail_in ` set inputs)
        (active_interviewers i d)))) (map g (db_interviewers d)) @ news\<rparr>"
proof -
  let ?gone = "map iv_id (filter (\<lambda>v. mail_of v \<notin> mail_in ` set inputs) (active_interviewers i d))"
  obtain ids e where st: "fold (place_interviewer i (active_interviewers i d)) inputs ([], d) = (ids, e)"
    by fastforce
  with place_all[OF assms(1), of i inputs] obtain g news where pl: "placed_as i d inputs e g news" by auto
  have d': "d' = fold deactivate_interviewer ?gone e"
    using assms(2) st by (simp add: replace_interviewers_def Let_def)
  have "iv_id v \<notin> set ?gone" if "v \<in> set news" for v
  proof -
    have "db_next d \<le> iv_id v" using pl that by (simp add: placed_as_def)
    moreover have "iv_id w < db_next d" if "w \<in> set (active_interviewers i d)" for w
      using assms(1) active_interviewers_sub[OF that] by (simp add: interviewer_keys_ok_def)
    ultimately show ?thesis by fastforce
  qed
  then have "map (deactivate_if ?gone) news = news"
    by (intro map_idI) (simp add: deactivate_if_def)
  with pl d' have "d' = e\<lparr>db_interviewers := map (deactivate_if ?gone) (map g (db_interviewers d)) @ news\<rparr>"
    by (simp add: deactivate_all placed_as_def)
  with pl show thesis by (rule that)
qed

lemma replace_interviewers_mails:
  assumes keys: "interviewer_keys_ok d" and rep: "replace_interviewers i inputs d = (res, d')"
  shows "mail_of ` set (active_interviewers i d') = mail_in ` set inputs"
proof -
  let ?gone = "map iv_id (filter (\<lambda>v. mail_of v \<notin> mail_in ` set inputs) (active_interviewers i d))"
  obtain g news e where pl: "placed_as i d inputs e g news"
    and d': "d' = e\<lparr>db_interviewers := map (deactivate_if ?gone) (map g (db_interviewers d)) @ news\<rparr>"
    by (rule replace_interviewers_shape[OF assms])
  have kept: "iv_id v \<in> set ?gone \<longleftrightarrow> v \<in> set (active_interviewers i d) \<and> mail_of v \<notin> mail_in ` set inputs"
    if "v \<in> set (db_interviewers d)" for v
    using interviewer_keys_inj[OF keys that] active_interviewers_sub by fastforce
  have old: "iv_interview (deactivate_if ?gone (g v)) = i \<and> iv_active (deactivate_if ?gone (g v))
      \<longleftrightarrow> v \<in> set (active_interviewers i d) \<and> mail_of v \<in> mail_in ` set inputs"
    "mail_of (deactivate_if ?gone (g v)) = mail_of v"
    if "v \<in> set (db_interviewers d)" for v
  proof -
    have p: "same_person v (g v)" using pl that by (simp add: placed_as_def)
    then have m: "iv_id (g v) \<in> set ?gone \<longleftrightarrow> v \<in> set (active_interviewers i d) \<and> mail_of v \<notin> mail_in ` set inputs"
      using kept[OF that] by (simp add: same_person_def)
    have a: "v \<in> set (active_interviewers i d) \<longleftrightarrow> iv_interview v = i \<and> iv_active v"
      using that by (auto simp: active_interviewers_def)
    show "mail_of (deactivate_if ?gone (g v)) = mail_of v"
      using p by (simp add: deactivate_if_def same_person_def)
    show "iv_interview (deactivate_if ?gone (g v)) = i \<and> iv_active (deactivate_if ?gone (g v))
      \<longleftrightarrow> v \<in> set (active_interviewers i d) \<and> mail_of v \<in> mail_in ` set inputs"
      using p m a unfolding deactivate_if_def same_person_def by auto
  qed
  define h where "h = (\<lambda>v. deactivate_if ?gone (g v))"
  define K where "K = {v \<in> set (active_interviewers i d). mail_of v \<in> mail_in ` set inputs}"
  have news: "\<forall>v\<in>set news. iv_interview v = i \<and> iv_active v" using pl by (simp add: placed_as_def)
  have dbi: "db_interviewers d' = map h (db_interviewers d) @ news" by (simp add: d' h_def)
  have "set (active_interviewers i d') =
      {w \<in> h ` set (db_interviewers d) \<union> set news. iv_interview w = i \<and> iv_active w}"
    by (auto simp: active_interviewers_def dbi)
  also have "\<dots> = h ` {v \<in> set (db_interviewers d). iv_interview (h v) = i \<and> iv_active (h v)} \<union> set news"
    using news by blast
  also have "{v \<in> set (db_interviewers d). iv_interview (h v) = i \<and> iv_active (h v)} = K"
    using old(1) active_interviewers_sub unfolding h_def K_def by blast
  finally have "mail_of ` set (active_interviewers i d') = (mail_of \<circ> h) ` K \<union> mail_of ` set news"
    by (simp add: image_Un image_comp)
  also have "(mail_of \<circ> h) ` K = mail_of ` K"
    using old(2) active_interviewers_sub unfolding h_def K_def by (intro image_cong) auto
  also have "mail_of ` K \<union> mail_of ` set news =
      mail_of ` {v \<in> set (active_interviewers i d). mail_of v \<in> mail_in ` set inputs} \<union> mail_of ` set news"
    by (simp add: K_def)
  also have "mail_of ` {v \<in> set (active_interviewers i d). mail_of v \<in> mail_in ` set inputs} =
      mail_of ` set (active_interviewers i d) \<inter> mail_in ` set inputs"
    by blast
  also have "mail_of ` set (active_interviewers i d) \<inter> mail_in ` set inputs \<union> mail_of ` set news =
      mail_in ` set inputs"
    using pl unfolding placed_as_def by blast
  finally show ?thesis .
qed

lemma replace_interviewers_keeps:
  assumes keys: "interviewer_keys_ok d" and rep: "replace_interviewers i inputs d = (res, d')"
    and v: "v \<in> set (db_interviewers d)"
  shows "\<exists>w\<in>set (db_interviewers d'). iv_id w = iv_id v \<and> iv_interview w = iv_interview v \<and> iv_email w = iv_email v"
    and "v \<notin> set (active_interviewers i d) \<Longrightarrow> v \<in> set (db_interviewers d')"
proof -
  let ?gone = "map iv_id (filter (\<lambda>v. mail_of v \<notin> mail_in ` set inputs) (active_interviewers i d))"
  obtain g news e where pl: "placed_as i d inputs e g news"
    and d': "d' = e\<lparr>db_interviewers := map (deactivate_if ?gone) (map g (db_interviewers d)) @ news\<rparr>"
    by (rule replace_interviewers_shape[OF keys rep])
  have mem: "deactivate_if ?gone (g v) \<in> set (db_interviewers d')" using v by (simp add: d')
  moreover have p: "same_person v (g v)" using pl v by (simp add: placed_as_def)
  ultimately show "\<exists>w\<in>set (db_interviewers d'). iv_id w = iv_id v \<and> iv_interview w = iv_interview v \<and> iv_email w = iv_email v"
    by (intro bexI[OF _ mem]) (simp add: same_person_def deactivate_if_def)
  show "v \<in> set (db_interviewers d')" if "v \<notin> set (active_interviewers i d)"
  proof -
    have "g v = v" using pl v that by (simp add: placed_as_def)
    moreover have "iv_id v \<notin> set ?gone"
    proof
      assume "iv_id v \<in> set ?gone"
      then obtain w where "w \<in> set (active_interviewers i d)" "iv_id v = iv_id w" by auto
      with that show False using interviewer_keys_inj[OF keys v active_interviewers_sub] by metis
    qed
    ultimately show ?thesis using mem by (simp add: deactivate_if_def)
  qed
qed

lemma replace_interviewers_frame:
  assumes "interviewer_keys_ok d" "replace_interviewers i inputs d = (res, d')"
  shows "db_rounds d' = db_rounds d" "db_round_history d' = db_round_history d"
    "db_feedback d' = db_feedback d" "db_next d \<le> db_next d'" "interviewer_keys_ok d'"
proof -
  let ?gone = "map iv_id (filter (\<lambda>v. mail_of v \<notin> mail_in ` set inputs) (active_interviewers i d))"
  obtain g news e where pl: "placed_as i d inputs e g news"
    and d': "d' = e\<lparr>db_interviewers := map (deactivate_if ?gone) (map g (db_interviewers d)) @ news\<rparr>"
    by (rule replace_interviewers_shape[OF assms])
  show "db_rounds d' = db_rounds d" "db_round_history d' = db_round_history d"
    "db_feedback d' = db_feedback d" "db_next d \<le> db_next d'"
    using pl by (simp_all add: d' placed_as_def rest_equal_def)
  have "iv_id (deactivate_if ?gone w) = iv_id w" for w by (simp add: deactivate_if_def)
  then have "map iv_id (db_interviewers d') = map iv_id (map g (db_interviewers d)) @ map iv_id news"
    by (simp add: d' comp_def)
  also have "map iv_id (map g (db_interviewers d)) = map iv_id (db_interviewers d)"
    using pl by (simp add: placed_as_def same_person_def)
  finally have ids: "map iv_id (db_interviewers d') = map iv_id (db_interviewers d) @ map iv_id news" .
  have old: "k < db_next d" if "k \<in> set (map iv_id (db_interviewers d))" for k
    using assms(1) that by (auto simp: interviewer_keys_ok_def)
  have new: "db_next d \<le> k \<and> k < db_next e" if "k \<in> set (map iv_id news)" for k
    using pl that by (auto simp: placed_as_def)
  have "distinct (map iv_id (db_interviewers d'))"
  proof -
    have "set (map iv_id (db_interviewers d)) \<inter> set (map iv_id news) = {}"
      using old new by fastforce
    then show ?thesis
      unfolding ids using assms(1) pl by (simp add: interviewer_keys_ok_def placed_as_def)
  qed
  moreover have "k < db_next d'" if "k \<in> set (map iv_id (db_interviewers d'))" for k
  proof -
    have "db_next d' = db_next e" by (simp add: d')
    moreover have "db_next d \<le> db_next e" using pl by (simp add: placed_as_def)
    ultimately show ?thesis using that old new unfolding ids by fastforce
  qed
  ultimately show "interviewer_keys_ok d'" by (simp add: interviewer_keys_ok_def)
qed

lemma replace_interviewers_wf:
  assumes "wf_interviews d" "replace_interviewers i inputs d = (res, d')"
  shows "wf_interviews d'"
proof -
  have k: "interviewer_keys_ok d" using assms(1) by (simp add: wf_interviews_def)
  note f = replace_interviewers_frame[OF k assms(2)]
  have "round_keys_ok d'" using assms(1) f(1,4) unfolding wf_interviews_def round_keys_ok_def by fastforce
  moreover have "rounds_numbered d'"
    using assms(1) f(1) by (simp add: wf_interviews_def rounds_numbered_def all_rounds_def)
  ultimately show ?thesis
    using assms(1) f by (simp add: wf_interviews_def feedback_once_def)
qed

lemma replace_interviewers_correct_parts:
  assumes "wf_interviews d" "replace_interviewers i inputs d = (res, d')"
  shows "mail_of ` set (active_interviewers i d') = mail_in ` set inputs"
    and "v \<in> set (db_interviewers d) \<Longrightarrow> \<exists>w\<in>set (db_interviewers d').
           iv_id w = iv_id v \<and> iv_interview w = iv_interview v \<and> iv_email w = iv_email v"
    and "v \<in> set (db_interviewers d) \<Longrightarrow> v \<notin> set (active_interviewers i d)
           \<Longrightarrow> v \<in> set (db_interviewers d')"
    and "wf_interviews d' \<and> db_rounds d' = db_rounds d \<and> db_feedback d' = db_feedback d"
proof -
  have keys: "interviewer_keys_ok d" using assms(1) by (simp add: wf_interviews_def)
  show "mail_of ` set (active_interviewers i d') = mail_in ` set inputs"
    by (rule replace_interviewers_mails[OF keys assms(2)])
  show "\<exists>w\<in>set (db_interviewers d').
      iv_id w = iv_id v \<and> iv_interview w = iv_interview v \<and> iv_email w = iv_email v"
    if "v \<in> set (db_interviewers d)"
    by (rule replace_interviewers_keeps(1)[OF keys assms(2) that])
  show "v \<in> set (db_interviewers d')"
    if "v \<in> set (db_interviewers d)" "v \<notin> set (active_interviewers i d)"
    by (rule replace_interviewers_keeps(2)[OF keys assms(2) that])
  show "wf_interviews d' \<and> db_rounds d' = db_rounds d \<and> db_feedback d' = db_feedback d"
    using replace_interviewers_wf[OF assms] replace_interviewers_frame[OF keys assms(2)] by simp
qed

text \<open>
  Property C3.  Replacing the interviewers of a round makes the addresses of its
  active interviewers exactly the submitted ones (compared without case).  No
  row is deleted: every earlier row keeps its key, round and address, so the
  feedback and notifications that refer to it stay resolvable, and the rows of
  other rounds and the already removed ones are not touched.
\<close>

theorem replace_interviewers_correct:
  assumes "wf_interviews d" "replace_interviewers i inputs d = (res, d')"
  shows "(mail_of ` set (active_interviewers i d') = mail_in ` set inputs)
     \<and> (v \<in> set (db_interviewers d) \<longrightarrow> (\<exists>w\<in>set (db_interviewers d').
           iv_id w = iv_id v \<and> iv_interview w = iv_interview v \<and> iv_email w = iv_email v))
     \<and> (v \<in> set (db_interviewers d) \<longrightarrow> v \<notin> set (active_interviewers i d) \<longrightarrow>
         v \<in> set (db_interviewers d'))
     \<and> (wf_interviews d' \<and> db_rounds d' = db_rounds d \<and> db_feedback d' = db_feedback d)"
  by (rule conjI, rule replace_interviewers_correct_parts(1)[OF assms], rule conjI, (rule impI)+,
      rule replace_interviewers_correct_parts(2)[OF assms], assumption+, rule conjI, (rule impI)+,
      rule replace_interviewers_correct_parts(3)[OF assms], assumption+,
      rule replace_interviewers_correct_parts(4)[OF assms])

definition panel_example :: interview_db where
  "panel_example = empty_interviews\<lparr>
     db_rounds := [blank_round 0 7 1 0],
     db_interviewers :=
       [\<lparr>iv_id = 1, iv_interview = 0, iv_name = ''Ann'', iv_email = ''Ann@x'', iv_timezone = None, iv_active = True\<rparr>,
        \<lparr>iv_id = 2, iv_interview = 0, iv_name = ''Bob'', iv_email = ''bob@x'', iv_timezone = None, iv_active = True\<rparr>],
     db_next := 3\<rparr>"

lemma panel_example_wf: "wf_interviews panel_example"
proof -
  have "rounds_numbered panel_example"
    by (auto simp: rounds_numbered_def all_rounds_def panel_example_def empty_interviews_def blank_round_def)
  then show ?thesis
    by (simp add: wf_interviews_def round_keys_ok_def interviewer_keys_ok_def feedback_once_def
        panel_example_def empty_interviews_def blank_round_def)
qed

lemma replace_interviewers_correct_witness:
  "let d' = snd (replace_interviewers 0
        [\<lparr>ii_name = ''Ann B'', ii_email = ''ann@X'', ii_timezone = None\<rparr>,
         \<lparr>ii_name = ''Cy'', ii_email = ''cy@x'', ii_timezone = None\<rparr>] panel_example)
   in mail_of ` set (active_interviewers 0 d') = {''ann@x'', ''cy@x''} \<and> wf_interviews d'
      \<and> map iv_active (db_interviewers d') = [True, False, True]"
proof -
  let ?in = "[\<lparr>ii_name = ''Ann B'', ii_email = ''ann@X'', ii_timezone = None\<rparr>,
         \<lparr>ii_name = ''Cy'', ii_email = ''cy@x'', ii_timezone = None\<rparr>]"
  obtain res d' where rep: "replace_interviewers 0 ?in panel_example = (res, d')" by fastforce
  have "mail_of ` set (active_interviewers 0 d') = mail_in ` set ?in" "wf_interviews d'"
    using replace_interviewers_correct[OF panel_example_wf rep] by blast+
  moreover have "mail_in ` set ?in = {''ann@x'', ''cy@x''}" by code_simp
  moreover have "map iv_active (db_interviewers (snd (replace_interviewers 0 ?in panel_example))) = [True, False, True]"
    by code_simp
  ultimately show ?thesis using rep by simp
qed

end
