(* ===== verification/Stage_State.thy ===== *)
theory Stage_State
  imports Transition_Table Interview_Store
begin

text \<open>
  The rows that a stage move reads and writes (\<open>app/models/pipeline.py\<close>) and the
  repository operations on them (\<open>app/repositories/campaign_candidate_repository.py\<close>,
  \<open>campaign_candidate_ai_evaluation_repository.py\<close>, \<open>CampaignRepository.py\<close>).
  The database is one record of tables, passed from operation to operation; the
  enqueued Celery tasks are a list beside the tables.
\<close>

section \<open>Enumerations and JSON values\<close>

datatype decision_type = DT_REJECTED | DT_SHORTLISTED | DT_SELECTED | DT_HOLD | DT_FRAUD_REVIEW | DT_RESET

datatype decision_source =
  DS_DETERMINISTIC | DS_SEMANTIC | DS_AI | DS_RECRUITER | DS_HIRING_MANAGER | DS_HR_ADMIN | DS_SYSTEM

datatype transition_source = TS_SYSTEM | TS_MANUAL | TS_TRIGGER | TS_OVERRIDE

datatype ai_status = AI_PENDING | AI_IN_PROGRESS | AI_COMPLETED | AI_FAILED | AI_MANUAL_REVIEW | AI_SKIPPED

datatype ai_recommendation = AI_SHORTLIST | AI_HOLD | AI_REJECT

datatype campaign_status = CS_ACTIVE | CS_PAUSED | CS_CLOSED

datatype json = JNull | JStr string | JBool bool | JNum rat | JTime int | JArr "json list"
  | JObj "(string \<times> json) list"

type_synonym json_dict = "(string \<times> json) list"

fun decision_type_value :: "decision_type \<Rightarrow> string" where
  "decision_type_value DT_REJECTED = ''REJECTED''"
| "decision_type_value DT_SHORTLISTED = ''SHORTLISTED''"
| "decision_type_value DT_SELECTED = ''SELECTED''"
| "decision_type_value DT_HOLD = ''HOLD''"
| "decision_type_value DT_FRAUD_REVIEW = ''FRAUD_REVIEW''"
| "decision_type_value DT_RESET = ''RESET''"

fun decision_source_value :: "decision_source \<Rightarrow> string" where
  "decision_source_value DS_DETERMINISTIC = ''DETERMINISTIC''"
| "decision_source_value DS_SEMANTIC = ''SEMANTIC''"
| "decision_source_value DS_AI = ''AI''"
| "decision_source_value DS_RECRUITER = ''RECRUITER''"
| "decision_source_value DS_HIRING_MANAGER = ''HIRING_MANAGER''"
| "decision_source_value DS_HR_ADMIN = ''HR_ADMIN''"
| "decision_source_value DS_SYSTEM = ''SYSTEM''"

text \<open>\<open>DecisionType(v)\<close> and \<open>DecisionSource(v)\<close>: lookup by value, an error for any other value.\<close>

definition parse_decision_type :: "json \<Rightarrow> decision_type option" where
  "parse_decision_type v = find (\<lambda>t. v = JStr (decision_type_value t))
     [DT_REJECTED, DT_SHORTLISTED, DT_SELECTED, DT_HOLD, DT_FRAUD_REVIEW, DT_RESET]"

definition parse_decision_source :: "json \<Rightarrow> decision_source option" where
  "parse_decision_source v = find (\<lambda>s. v = JStr (decision_source_value s))
     [DS_DETERMINISTIC, DS_SEMANTIC, DS_AI, DS_RECRUITER, DS_HIRING_MANAGER, DS_HR_ADMIN, DS_SYSTEM]"

lemma parse_decision_type_value [simp]: "parse_decision_type (JStr (decision_type_value t)) = Some t"
  by (cases t) (simp_all add: parse_decision_type_def)

lemma parse_decision_source_value [simp]: "parse_decision_source (JStr (decision_source_value s)) = Some s"
  by (cases s) (simp_all add: parse_decision_source_def)

definition json_get :: "json_dict \<Rightarrow> string \<Rightarrow> json" where
  "json_get d k = (case map_of d k of None \<Rightarrow> JNull | Some v \<Rightarrow> v)"

fun json_truthy :: "json \<Rightarrow> bool" where
  "json_truthy JNull = False"
| "json_truthy (JStr s) = (s \<noteq> [])"
| "json_truthy (JBool b) = b"
| "json_truthy (JNum q) = (q \<noteq> 0)"
| "json_truthy (JTime t) = True"
| "json_truthy (JArr l) = (l \<noteq> [])"
| "json_truthy (JObj d) = (d \<noteq> [])"

definition json_opt :: "('a \<Rightarrow> json) \<Rightarrow> 'a option \<Rightarrow> json" where
  "json_opt f x = (case x of None \<Rightarrow> JNull | Some v \<Rightarrow> f v)"

fun json_str :: "json \<Rightarrow> string option" where
  "json_str (JStr s) = Some s"
| "json_str _ = None"

fun stage_value :: "pipeline_stage \<Rightarrow> string" where
  "stage_value UPLOADED = ''UPLOADED''"
| "stage_value SCREENING = ''SCREENING''"
| "stage_value SHORTLISTED = ''SHORTLISTED''"
| "stage_value HOLD = ''HOLD''"
| "stage_value HM_REVIEW = ''HM_REVIEW''"
| "stage_value INTERVIEW = ''INTERVIEW''"
| "stage_value SELECTED = ''SELECTED''"
| "stage_value REJECTED = ''REJECTED''"
| "stage_value FRAUD_REVIEW = ''FRAUD_REVIEW''"

definition parse_stage :: "string \<Rightarrow> pipeline_stage option" where
  "parse_stage s = find (\<lambda>t. stage_value t = s)
     [UPLOADED, SCREENING, SHORTLISTED, HOLD, HM_REVIEW, INTERVIEW, SELECTED, REJECTED, FRAUD_REVIEW]"

lemma parse_stage_value [simp]: "parse_stage (stage_value s) = Some s"
  by (cases s) (simp_all add: parse_stage_def)

fun role_value :: "role_name \<Rightarrow> string" where
  "role_value RECRUITER = ''RECRUITER''"
| "role_value HIRING_MANAGER = ''HIRING_MANAGER''"
| "role_value SYSTEM = ''SYSTEM''"
| "role_value HR_ADMIN = ''HR_ADMIN''"
| "role_value (Other_Role s) = s"

section \<open>Rows\<close>

record campaign_candidate =
  cc_id :: nat
  cc_campaign :: nat
  cc_candidate :: nat
  cc_resume :: nat
  cc_stage :: pipeline_stage
  cc_previous :: "pipeline_stage option"
  cc_screened_at :: "int option"
  cc_det_score :: "rat option"
  cc_det_passed :: "bool option"
  cc_det_breakdown :: "json option"
  cc_sem_score :: "rat option"
  cc_sem_passed :: "bool option"
  cc_sem_at :: "int option"
  cc_sem_breakdown :: "json option"
  cc_composite :: "rat option"
  cc_composite_at :: "int option"
  cc_fraud_flags :: "json option"
  cc_is_fraud :: bool
  cc_decision_type :: "decision_type option"
  cc_decision_source :: "decision_source option"
  cc_decision_reason :: "string option"
  cc_decision_details :: "json_dict option"
  cc_decision_by :: "string option"
  cc_decision_at :: "int option"
  cc_updated_at :: "int option"

record stage_history =
  sh_id :: nat
  sh_candidate :: nat
  sh_from :: "pipeline_stage option"
  sh_to :: pipeline_stage
  sh_by :: "string option"
  sh_reason :: "string option"
  sh_source :: transition_source
  sh_snapshot :: "json_dict option"
  sh_key :: "string option"

record transition_log =
  tl_candidate :: nat
  tl_previous :: "pipeline_stage option"
  tl_from :: pipeline_stage
  tl_to :: pipeline_stage
  tl_role :: string
  tl_reason :: "string option"
  tl_by :: "string option"

record audit_row =
  au_actor :: "string option"
  au_role :: "role_name option"
  au_action :: string
  au_entity :: nat
  au_details :: json_dict

record campaign_row =
  ca_id :: nat
  ca_org :: "nat option"
  ca_jd :: nat
  ca_name :: string
  ca_status :: campaign_status
  ca_w_det :: rat
  ca_w_sem :: rat
  ca_w_ai :: rat
  ca_sem_threshold :: rat
  ca_ai_threshold :: rat
  ca_det_threshold :: rat
  ca_coverage :: rat
  ca_max_missing_core :: int
  ca_max :: "int option"
  ca_deadline :: "int option"
  ca_prompt :: nat
  ca_ai_prompt :: "nat option"
  ca_manager :: string
  ca_recruiter :: string
  ca_created_by :: string
  ca_updated_at :: "int option"

record ai_evaluation =
  ae_candidate :: nat
  ae_status :: ai_status
  ae_retry_count :: int
  ae_score :: "rat option"
  ae_effective :: "rat option"
  ae_confidence :: "rat option"
  ae_recommendation :: "ai_recommendation option"
  ae_strengths :: "json option"
  ae_weaknesses :: "json option"
  ae_response :: "json option"

datatype task_status =
  TK_QUEUED | TK_RUNNING | TK_PAUSED | TK_SUCCESS | TK_FAILURE | TK_RETRY | TK_DEAD

record task_log =
  tk_id :: string
  tk_candidate :: "nat option"
  tk_resume :: "nat option"
  tk_type :: string
  tk_key :: "string option"
  tk_status :: task_status
  tk_retries :: nat

text \<open>\<open>CeleryTaskLogService.create_log\<close>: a log starts queued, without an attempt.\<close>

definition queued_log :: "string \<Rightarrow> string \<Rightarrow> nat option \<Rightarrow> task_log" where
  "queued_log i type c =
     \<lparr>tk_id = i, tk_candidate = c, tk_resume = None, tk_type = type, tk_key = None, tk_status = TK_QUEUED, tk_retries = 0\<rparr>"

lemma queued_log_sel [simp]:
  "tk_id (queued_log i type c) = i" "tk_candidate (queued_log i type c) = c" "tk_resume (queued_log i type c) = None"
  "tk_type (queued_log i type c) = type" "tk_key (queued_log i type c) = None"
  "tk_status (queued_log i type c) = TK_QUEUED" "tk_retries (queued_log i type c) = 0"
  by (simp_all add: queued_log_def)

datatype parse_status = PS_PENDING | PS_PARSING | PS_PARSED | PS_FAILED

record person_row =
  pe_id :: nat
  pe_erased :: bool

record resume_row =
  re_id :: nat
  re_status :: parse_status

record hiring_db =
  hd_rules :: "allowed_transition list"
  hd_candidates :: "campaign_candidate list"
  hd_campaigns :: "campaign_row list"
  hd_history :: "stage_history list"
  hd_log :: "transition_log list"
  hd_audit :: "audit_row list"
  hd_interviews :: interview_db
  hd_ai :: "ai_evaluation list"
  hd_people :: "person_row list"
  hd_resumes :: "resume_row list"
  hd_tasks :: "task_log list"
  hd_rescores :: "nat list"
  hd_next_id :: nat

section \<open>Repository operations\<close>

definition find_candidate :: "nat \<Rightarrow> hiring_db \<Rightarrow> campaign_candidate option" where
  "find_candidate i h = find (\<lambda>c. cc_id c = i) (hd_candidates h)"

text \<open>
  Flushing a loaded row issues an UPDATE of its changed columns under its key.
\<close>

definition update_candidate ::
    "nat \<Rightarrow> (campaign_candidate \<Rightarrow> campaign_candidate) \<Rightarrow> hiring_db \<Rightarrow> hiring_db" where
  "update_candidate i f h =
     h\<lparr>hd_candidates := map (\<lambda>c. if cc_id c = i then f c else c) (hd_candidates h)\<rparr>"

definition add_stage_history ::
    "nat \<Rightarrow> pipeline_stage option \<Rightarrow> pipeline_stage \<Rightarrow> string option \<Rightarrow> string option
     \<Rightarrow> transition_source \<Rightarrow> json_dict option \<Rightarrow> string option \<Rightarrow> hiring_db \<Rightarrow> stage_history \<times> hiring_db" where
  "add_stage_history c f t by reason src snap key h =
     (let row = \<lparr>sh_id = hd_next_id h, sh_candidate = c, sh_from = f, sh_to = t, sh_by = by,
                 sh_reason = reason, sh_source = src, sh_snapshot = snap, sh_key = key\<rparr>
      in (row, h\<lparr>hd_history := hd_history h @ [row], hd_next_id := Suc (hd_next_id h)\<rparr>))"

definition create_stage_history ::
    "nat \<Rightarrow> pipeline_stage option \<Rightarrow> pipeline_stage \<Rightarrow> string option \<Rightarrow> string option
     \<Rightarrow> transition_source \<Rightarrow> json_dict option \<Rightarrow> hiring_db \<Rightarrow> hiring_db" where
  "create_stage_history c f t by reason src snap h =
     snd (add_stage_history c f t by reason src snap None h)"

text \<open>
  The idempotency key is unique where it is not NULL: the insert of a second row
  with the key fails, the savepoint is undone and the first row is returned.
\<close>

definition create_stage_history_idempotent ::
    "nat \<Rightarrow> pipeline_stage option \<Rightarrow> pipeline_stage \<Rightarrow> string option \<Rightarrow> string option
     \<Rightarrow> transition_source \<Rightarrow> string option \<Rightarrow> hiring_db \<Rightarrow> (stage_history \<times> bool) \<times> hiring_db" where
  "create_stage_history_idempotent c f t by reason src key h =
     (case (if key = None then None else find (\<lambda>r. sh_key r = key) (hd_history h)) of
        Some existing \<Rightarrow> ((existing, False), h)
      | None \<Rightarrow> (let (row, h') = add_stage_history c f t by reason src None key h in ((row, True), h')))"

definition create_transition_log ::
    "nat \<Rightarrow> pipeline_stage option \<Rightarrow> pipeline_stage \<Rightarrow> pipeline_stage \<Rightarrow> string
     \<Rightarrow> string option \<Rightarrow> string option \<Rightarrow> hiring_db \<Rightarrow> hiring_db" where
  "create_transition_log c p f t role reason by h =
     h\<lparr>hd_log := hd_log h @
        [\<lparr>tl_candidate = c, tl_previous = p, tl_from = f, tl_to = t, tl_role = role,
          tl_reason = reason, tl_by = by\<rparr>]\<rparr>"

definition audit :: "string option \<Rightarrow> role_name option \<Rightarrow> string \<Rightarrow> nat \<Rightarrow> json_dict \<Rightarrow> hiring_db \<Rightarrow> hiring_db" where
  "audit actor role action entity details h =
     h\<lparr>hd_audit := hd_audit h @
        [\<lparr>au_actor = actor, au_role = role, au_action = action, au_entity = entity, au_details = details\<rparr>]\<rparr>"

definition find_campaign :: "nat \<Rightarrow> hiring_db \<Rightarrow> campaign_row option" where
  "find_campaign i h = find (\<lambda>c. ca_id c = i) (hd_campaigns h)"

definition update_campaign_row :: "nat \<Rightarrow> (campaign_row \<Rightarrow> campaign_row) \<Rightarrow> hiring_db \<Rightarrow> hiring_db" where
  "update_campaign_row i f h =
     h\<lparr>hd_campaigns := map (\<lambda>c. if ca_id c = i then f c else c) (hd_campaigns h)\<rparr>"

definition selected_count :: "nat \<Rightarrow> hiring_db \<Rightarrow> int" where
  "selected_count camp h =
     int (length (filter (\<lambda>c. cc_campaign c = camp \<and> cc_stage c = SELECTED) (hd_candidates h)))"

definition reset_evaluation_fields :: "campaign_candidate \<Rightarrow> campaign_candidate" where
  "reset_evaluation_fields c =
     c\<lparr>cc_screened_at := None, cc_det_score := None, cc_det_passed := None, cc_det_breakdown := None,
       cc_sem_score := None, cc_sem_passed := None, cc_composite := None, cc_composite_at := None,
       cc_fraud_flags := None, cc_is_fraud := False, cc_decision_type := None,
       cc_decision_source := None, cc_decision_reason := None, cc_decision_details := None,
       cc_decision_by := None, cc_decision_at := None\<rparr>"

definition reset_for_resubmission :: "nat \<Rightarrow> campaign_candidate \<Rightarrow> campaign_candidate" where
  "reset_for_resubmission resume c = reset_evaluation_fields (c\<lparr>cc_resume := resume\<rparr>)"

definition reset_for_rescore :: "campaign_candidate \<Rightarrow> campaign_candidate" where
  "reset_for_rescore c =
     (reset_evaluation_fields c)\<lparr>cc_sem_breakdown := None, cc_sem_at := None\<rparr>"

definition blank_ai :: "nat \<Rightarrow> ai_evaluation" where
  "blank_ai c = \<lparr>ae_candidate = c, ae_status = AI_PENDING, ae_retry_count = 0, ae_score = None,
     ae_effective = None, ae_confidence = None, ae_recommendation = None, ae_strengths = None,
     ae_weaknesses = None, ae_response = None\<rparr>"

definition get_or_create_ai :: "nat \<Rightarrow> hiring_db \<Rightarrow> ai_evaluation \<times> hiring_db" where
  "get_or_create_ai c h =
     (case find (\<lambda>a. ae_candidate a = c) (hd_ai h) of
        Some a \<Rightarrow> (a, h)
      | None \<Rightarrow> (blank_ai c, h\<lparr>hd_ai := hd_ai h @ [blank_ai c]\<rparr>))"

definition update_ai :: "nat \<Rightarrow> (ai_evaluation \<Rightarrow> ai_evaluation) \<Rightarrow> hiring_db \<Rightarrow> hiring_db" where
  "update_ai c f h = h\<lparr>hd_ai := map (\<lambda>a. if ae_candidate a = c then f a else a) (hd_ai h)\<rparr>"

definition reset_ai :: "ai_evaluation \<Rightarrow> ai_evaluation" where
  "reset_ai a = a\<lparr>ae_score := None, ae_confidence := None, ae_effective := None,
     ae_recommendation := None, ae_strengths := None, ae_weaknesses := None, ae_response := None,
     ae_status := AI_PENDING, ae_retry_count := 0\<rparr>"

definition lift_interviews ::
    "(interview_db \<Rightarrow> (db_error, interview_db) result) \<Rightarrow> hiring_db \<Rightarrow> (db_error, hiring_db) result" where
  "lift_interviews f h = res_bind (f (hd_interviews h)) (\<lambda>d. Inr (h\<lparr>hd_interviews := d\<rparr>))"

section \<open>Laws\<close>

definition wf_hiring :: "hiring_db \<Rightarrow> bool" where
  "wf_hiring h \<longleftrightarrow> distinct (map cc_id (hd_candidates h)) \<and> unique_rows (hd_rules h)
     \<and> wf_interviews (hd_interviews h)"

text \<open>Every candidate at \<open>INTERVIEW\<close> has an interview round.\<close>

definition interview_invariant :: "hiring_db \<Rightarrow> bool" where
  "interview_invariant h \<longleftrightarrow>
     (\<forall>c\<in>set (hd_candidates h). cc_stage c = INTERVIEW \<longrightarrow> has_round (cc_id c) (hd_interviews h))"

lemma find_candidate_Some: "find_candidate i h = Some c \<Longrightarrow> c \<in> set (hd_candidates h) \<and> cc_id c = i"
  unfolding find_candidate_def by (auto dest: find_Some_set)

lemma find_candidate_update:
  assumes "\<And>c. cc_id (f c) = cc_id c"
  shows "find_candidate j (update_candidate i f h) =
    (if j = i then map_option f (find_candidate i h) else find_candidate j h)"
proof -
  have m: "find (\<lambda>c. cc_id c = j) (map (\<lambda>c. if cc_id c = i then f c else c) xs) =
      map_option (\<lambda>c. if cc_id c = i then f c else c) (find (\<lambda>c. cc_id c = j) xs)" for xs
    by (rule find_map_update) (simp add: assms)
  show ?thesis
  proof (cases "find_candidate j h")
    case None
    then show ?thesis by (auto simp: find_candidate_def update_candidate_def m)
  next
    case (Some c)
    then show ?thesis using find_candidate_Some[OF Some]
      by (auto simp: find_candidate_def update_candidate_def m)
  qed
qed

lemma update_candidate_fields [simp]:
  "hd_rules (update_candidate i f h) = hd_rules h"
  "hd_campaigns (update_candidate i f h) = hd_campaigns h"
  "hd_history (update_candidate i f h) = hd_history h"
  "hd_log (update_candidate i f h) = hd_log h"
  "hd_audit (update_candidate i f h) = hd_audit h"
  "hd_interviews (update_candidate i f h) = hd_interviews h"
  "hd_ai (update_candidate i f h) = hd_ai h"
  "hd_rescores (update_candidate i f h) = hd_rescores h"
  "hd_people (update_candidate i f h) = hd_people h"
  "hd_resumes (update_candidate i f h) = hd_resumes h"
  "hd_tasks (update_candidate i f h) = hd_tasks h"
  "hd_next_id (update_candidate i f h) = hd_next_id h"
  by (simp_all add: update_candidate_def)

lemma create_stage_history_fields [simp]:
  "hd_rules (create_stage_history c f t by reason src snap h) = hd_rules h"
  "hd_candidates (create_stage_history c f t by reason src snap h) = hd_candidates h"
  "hd_campaigns (create_stage_history c f t by reason src snap h) = hd_campaigns h"
  "hd_log (create_stage_history c f t by reason src snap h) = hd_log h"
  "hd_audit (create_stage_history c f t by reason src snap h) = hd_audit h"
  "hd_interviews (create_stage_history c f t by reason src snap h) = hd_interviews h"
  "hd_ai (create_stage_history c f t by reason src snap h) = hd_ai h"
  "hd_rescores (create_stage_history c f t by reason src snap h) = hd_rescores h"
  "hd_people (create_stage_history c f t by reason src snap h) = hd_people h"
  "hd_resumes (create_stage_history c f t by reason src snap h) = hd_resumes h"
  "hd_tasks (create_stage_history c f t by reason src snap h) = hd_tasks h"
  by (simp_all add: create_stage_history_def add_stage_history_def Let_def)

lemma create_transition_log_fields [simp]:
  "hd_rules (create_transition_log c p f t role reason by h) = hd_rules h"
  "hd_candidates (create_transition_log c p f t role reason by h) = hd_candidates h"
  "hd_campaigns (create_transition_log c p f t role reason by h) = hd_campaigns h"
  "hd_history (create_transition_log c p f t role reason by h) = hd_history h"
  "hd_audit (create_transition_log c p f t role reason by h) = hd_audit h"
  "hd_interviews (create_transition_log c p f t role reason by h) = hd_interviews h"
  "hd_ai (create_transition_log c p f t role reason by h) = hd_ai h"
  "hd_rescores (create_transition_log c p f t role reason by h) = hd_rescores h"
  "hd_people (create_transition_log c p f t role reason by h) = hd_people h"
  "hd_resumes (create_transition_log c p f t role reason by h) = hd_resumes h"
  "hd_tasks (create_transition_log c p f t role reason by h) = hd_tasks h"
  by (simp_all add: create_transition_log_def)

lemma audit_fields [simp]:
  "hd_rules (audit actor role action entity details h) = hd_rules h"
  "hd_candidates (audit actor role action entity details h) = hd_candidates h"
  "hd_campaigns (audit actor role action entity details h) = hd_campaigns h"
  "hd_history (audit actor role action entity details h) = hd_history h"
  "hd_log (audit actor role action entity details h) = hd_log h"
  "hd_interviews (audit actor role action entity details h) = hd_interviews h"
  "hd_ai (audit actor role action entity details h) = hd_ai h"
  "hd_rescores (audit actor role action entity details h) = hd_rescores h"
  "hd_people (audit actor role action entity details h) = hd_people h"
  "hd_resumes (audit actor role action entity details h) = hd_resumes h"
  "hd_tasks (audit actor role action entity details h) = hd_tasks h"
  by (simp_all add: audit_def)

lemma find_candidate_cong: "hd_candidates h' = hd_candidates h \<Longrightarrow> find_candidate i h' = find_candidate i h"
  by (simp add: find_candidate_def)

lemma update_candidate_ids:
  "(\<And>c. cc_id (f c) = cc_id c) \<Longrightarrow> map cc_id (hd_candidates (update_candidate i f h)) = map cc_id (hd_candidates h)"
  by (simp add: update_candidate_def comp_def if_distrib[of cc_id] cong: if_cong)

lemma lift_interviews_Inr:
  "lift_interviews f h = Inr h' \<longleftrightarrow> (\<exists>d. f (hd_interviews h) = Inr d \<and> h' = h\<lparr>hd_interviews := d\<rparr>)"
  by (auto simp: lift_interviews_def res_bind_Inr_iff)

lemma find_candidate_in: "distinct (map cc_id (hd_candidates h)) \<Longrightarrow> c \<in> set (hd_candidates h) \<Longrightarrow>
    find_candidate (cc_id c) h = Some c"
  unfolding find_candidate_def by (rule find_unique) (auto simp: distinct_map inj_on_def)

lemma interview_invariant_alt:
  "distinct (map cc_id (hd_candidates h)) \<Longrightarrow> interview_invariant h \<longleftrightarrow>
    (\<forall>i c. find_candidate i h = Some c \<and> cc_stage c = INTERVIEW \<longrightarrow> has_round i (hd_interviews h))"
  unfolding interview_invariant_def using find_candidate_in find_candidate_Some by metis

end
