(* ===== verification/Stage_Transition.thy ===== *)
theory Stage_Transition
  imports Stage_State
begin

text \<open>
  \<open>StageTransitionService\<close> (\<open>app/services/campaign/stage_transition_service.py\<close>),
  the manual re-score it enqueues (\<open>manual_candidate_rescore.py\<close>) and the gate
  in front of it (\<open>candidate_reevaluation_validator.py\<close>).

  A handler takes the database and returns an error, which the session's
  rollback turns into the unchanged database, or a value and the committed
  database.  In \<open>transition\<close> other sessions may commit between the first read of
  the candidate and the locking read: \<open>env\<close> is their effect, and \<open>locked_read\<close>
  says which object the locking query of the ORM returns, given the object
  loaded before and the current row.
\<close>

section \<open>Re-evaluation gate and manual re-score\<close>

datatype skip_reason =
    SK_NO_CANDIDATE | SK_ERASED | SK_NO_CAMPAIGN
  | SK_CAMPAIGN_STATUS campaign_status | SK_STAGE pipeline_stage

definition scoreable_statuses :: "campaign_status list" where
  "scoreable_statuses = [CS_ACTIVE, CS_PAUSED]"

definition reevaluation_stages :: "pipeline_stage list" where
  "reevaluation_stages = [UPLOADED, SCREENING]"

definition evaluate_reevaluation ::
    "campaign_candidate \<Rightarrow> person_row option \<Rightarrow> campaign_row option \<Rightarrow> skip_reason option" where
  "evaluate_reevaluation cc person campaign =
     (case person of
        None \<Rightarrow> Some SK_NO_CANDIDATE
      | Some p \<Rightarrow>
          if pe_erased p then Some SK_ERASED
          else (case campaign of
            None \<Rightarrow> Some SK_NO_CAMPAIGN
          | Some ca \<Rightarrow>
              if ca_status ca \<notin> set scoreable_statuses then Some (SK_CAMPAIGN_STATUS (ca_status ca))
              else if cc_stage cc \<notin> set reevaluation_stages then Some (SK_STAGE (cc_stage cc))
              else None))"

definition clear_stale_tasks :: "nat \<Rightarrow> hiring_db \<Rightarrow> hiring_db" where
  "clear_stale_tasks i h =
     (let stale = map tk_id (filter (\<lambda>t. tk_candidate t = Some i \<and>
            ((tk_type t = ''SEMANTIC_SCORE'' \<and> tk_status t \<in> set [TK_SUCCESS, TK_QUEUED, TK_RUNNING]) \<or>
             (tk_type t = ''AI_EVALUATE'' \<and> tk_status t \<in> set [TK_QUEUED, TK_RUNNING])))
          (hd_tasks h))
      in h\<lparr>hd_tasks := filter (\<lambda>t. tk_id t \<notin> set stale) (hd_tasks h)\<rparr>)"

definition enqueue_manual_rescore :: "campaign_candidate \<Rightarrow> hiring_db \<Rightarrow> bool \<times> hiring_db" where
  "enqueue_manual_rescore cc h =
     (case evaluate_reevaluation cc (find (\<lambda>p. pe_id p = cc_candidate cc) (hd_people h))
             (find_campaign (cc_campaign cc) h) of
        Some r \<Rightarrow> (False, h)
      | None \<Rightarrow>
          (case find (\<lambda>r. re_id r = cc_resume cc) (hd_resumes h) of
             None \<Rightarrow> (False, h)
           | Some r \<Rightarrow>
               if re_status r \<noteq> PS_PARSED then (False, h)
               else
                 let h1 = update_candidate (cc_id cc) reset_for_rescore h;
                     h2 = snd (get_or_create_ai (cc_id cc) h1);
                     h3 = update_ai (cc_id cc) reset_ai h2;
                     h4 = clear_stale_tasks (cc_id cc) h3
                 in (True, h4\<lparr>hd_rescores := hd_rescores h4 @ [cc_id cc]\<rparr>)))"

section \<open>Automated transitions\<close>

definition interview_exit_stages :: "pipeline_stage list" where
  "interview_exit_stages = [SELECTED, REJECTED, SHORTLISTED]"

definition move_stage :: "pipeline_stage \<Rightarrow> pipeline_stage \<Rightarrow> campaign_candidate \<Rightarrow> campaign_candidate" where
  "move_stage f t c = c\<lparr>cc_previous := Some f, cc_stage := t\<rparr>"

definition decide ::
    "decision_type \<Rightarrow> decision_source option \<Rightarrow> string option \<Rightarrow> json_dict option \<Rightarrow> string option \<Rightarrow> int
     \<Rightarrow> campaign_candidate \<Rightarrow> campaign_candidate" where
  "decide dt ds reason details by now c =
     c\<lparr>cc_decision_type := Some dt, cc_decision_source := ds, cc_decision_reason := reason,
       cc_decision_details := details, cc_decision_by := by, cc_decision_at := Some now\<rparr>"

definition decision_snapshot ::
    "json_dict \<Rightarrow> decision_type \<Rightarrow> decision_source option \<Rightarrow> string option \<Rightarrow> json_dict option \<Rightarrow> json_dict" where
  "decision_snapshot scores dt ds reason details =
     fold (\<lambda>(k, v) d. AList.update k v d)
       [(''decision_type'', JStr (decision_type_value dt)),
        (''decision_source'', json_opt (\<lambda>s. JStr (decision_source_value s)) ds),
        (''decision_reason'', json_opt JStr reason),
        (''decision_details'', json_opt JObj details)] scores"

definition transition_to_screening :: "int \<Rightarrow> campaign_candidate \<Rightarrow> hiring_db \<Rightarrow> bool \<times> hiring_db" where
  "transition_to_screening now cc h =
     (let from_stage = cc_stage cc; previous = cc_previous cc in
      if from_stage \<noteq> UPLOADED then (False, h)
      else if \<not> is_transition_allowed (hd_rules h) from_stage SCREENING previous then (False, h)
      else
        let h1 = update_candidate (cc_id cc)
              (\<lambda>c. (move_stage from_stage SCREENING c)\<lparr>cc_updated_at := Some now\<rparr>) h;
            h2 = create_stage_history (cc_id cc) (Some from_stage) SCREENING None
              (Some ''Automated screening started'') TS_SYSTEM None h1;
            h3 = create_transition_log (cc_id cc) previous from_stage SCREENING ''SYSTEM'' None None h2
        in (True, h3))"

definition transition_on_ai_success ::
    "int \<Rightarrow> campaign_candidate \<Rightarrow> pipeline_stage \<Rightarrow> decision_type \<Rightarrow> string \<Rightarrow> json_dict option
     \<Rightarrow> string option \<Rightarrow> json_dict option \<Rightarrow> hiring_db \<Rightarrow> bool \<times> hiring_db" where
  "transition_on_ai_success now cc to_stage dt change_reason scores reason details h =
     (let from_stage = cc_stage cc; previous = cc_previous cc in
      if \<not> is_transition_allowed (hd_rules h) from_stage to_stage previous then (False, h)
      else
        let effective = (case reason of Some r \<Rightarrow> Some r | None \<Rightarrow> Some change_reason);
            h1 = update_candidate (cc_id cc)
              (\<lambda>c. decide dt (Some DS_AI) effective details None now (move_stage from_stage to_stage c)) h;
            h2 = create_stage_history (cc_id cc) (Some from_stage) to_stage None (Some change_reason) TS_SYSTEM
              (Some (decision_snapshot (case scores of None \<Rightarrow> [] | Some s \<Rightarrow> s) dt (Some DS_AI) effective details)) h1;
            h3 = create_transition_log (cc_id cc) previous from_stage to_stage ''SYSTEM'' None None h2
        in (True, h3))"

definition transition_to_rejected ::
    "int \<Rightarrow> campaign_candidate \<Rightarrow> string \<Rightarrow> json_dict option \<Rightarrow> decision_source \<Rightarrow> string option
     \<Rightarrow> json_dict option \<Rightarrow> string option \<Rightarrow> hiring_db \<Rightarrow> bool \<times> hiring_db" where
  "transition_to_rejected now cc change_reason scores ds reason details by h =
     (let from_stage = cc_stage cc; previous = cc_previous cc in
      if \<not> is_transition_allowed (hd_rules h) from_stage REJECTED previous then (False, h)
      else
        let effective = (case reason of Some r \<Rightarrow> Some r | None \<Rightarrow> Some change_reason);
            h1 = update_candidate (cc_id cc)
              (\<lambda>c. decide DT_REJECTED (Some ds) effective details by now (move_stage from_stage REJECTED c)) h;
            h2 = create_stage_history (cc_id cc) (Some from_stage) REJECTED by (Some change_reason)
              (if by = None then TS_SYSTEM else TS_MANUAL)
              (Some (decision_snapshot (case scores of None \<Rightarrow> [] | Some s \<Rightarrow> s) DT_REJECTED (Some ds) effective details)) h1;
            h3 = create_transition_log (cc_id cc) previous from_stage REJECTED
              (decision_source_value ds) effective by h2
        in (True, h3))"

definition overridden_details :: "campaign_candidate \<Rightarrow> json_dict" where
  "overridden_details c =
     [(''overridden_decision_type'', json_opt (\<lambda>t. JStr (decision_type_value t)) (cc_decision_type c)),
      (''overridden_decision_source'', json_opt (\<lambda>s. JStr (decision_source_value s)) (cc_decision_source c)),
      (''overridden_decision_reason'', json_opt JStr (cc_decision_reason c)),
      (''overridden_decision_at'', json_opt JTime (cc_decision_at c))]"

definition apply_hr_override ::
    "int \<Rightarrow> campaign_candidate \<Rightarrow> string \<Rightarrow> string \<Rightarrow> string option \<Rightarrow> hiring_db \<Rightarrow> bool \<times> hiring_db" where
  "apply_hr_override now cc changed_by change_reason reason h =
     (let from_stage = cc_stage cc; previous = cc_previous cc in
      if \<not> is_transition_allowed (hd_rules h) from_stage SCREENING previous then (False, h)
      else
        let effective = (case reason of Some r \<Rightarrow> Some r | None \<Rightarrow> Some change_reason);
            details = overridden_details cc;
            h1 = update_candidate (cc_id cc)
              (\<lambda>c. decide DT_RESET (Some DS_RECRUITER) effective (Some details) (Some changed_by) now
                     (move_stage from_stage SCREENING c)) h;
            h2 = create_stage_history (cc_id cc) (Some from_stage) SCREENING (Some changed_by) (Some change_reason)
              TS_MANUAL (Some (decision_snapshot [] DT_RESET (Some DS_RECRUITER) effective (Some details))) h1;
            h3 = create_transition_log (cc_id cc) previous from_stage SCREENING
              (decision_source_value DS_RECRUITER) effective (Some changed_by) h2
        in (True, h3))"

section \<open>The validated transition\<close>

record actor =
  ac_roles :: "role_name list"
  ac_id :: "string option"

definition system_actor :: actor where
  "system_actor = \<lparr>ac_roles = [SYSTEM], ac_id = None\<rparr>"

datatype transition_error =
    TE_Not_Found
  | TE_Invalid pipeline_stage pipeline_stage
  | TE_Forbidden pipeline_stage pipeline_stage "role_name list"
  | TE_Reason_Required pipeline_stage pipeline_stage
  | TE_Conflict pipeline_stage
  | TE_Row_Gone
  | TE_Database db_error

definition has_reason :: "string option \<Rightarrow> bool" where
  "has_reason r = (case r of None \<Rightarrow> False | Some s \<Rightarrow> s \<noteq> [] \<and> strip s \<noteq> [])"

definition exit_reason :: "pipeline_stage \<Rightarrow> string" where
  "exit_reason t = ''Candidate outcome finalized: '' @ stage_value t"

definition rescore_reason :: string where
  "rescore_reason = ''Candidate returned to SCREENING for re-evaluation''"

text \<open>The interview hooks, in the transaction of the move.\<close>

definition interview_hooks ::
    "pipeline_stage \<Rightarrow> pipeline_stage \<Rightarrow> nat \<Rightarrow> string option \<Rightarrow> string option \<Rightarrow> int \<Rightarrow> hiring_db
     \<Rightarrow> (db_error, hiring_db) result" where
  "interview_hooks from_stage to_stage i by role now h =
     res_bind (if to_stage = INTERVIEW then lift_interviews (enter_interview now i) h else Inr h) (\<lambda>h1.
     res_bind (if from_stage = INTERVIEW \<and> to_stage \<in> set interview_exit_stages
               then lift_interviews (leave_interview (exit_reason to_stage) now i by role) h1 else Inr h1) (\<lambda>h2.
     if to_stage = SCREENING \<and> from_stage \<noteq> UPLOADED
     then lift_interviews (leave_interview rescore_reason now i by role) h2 else Inr h2))"

text \<open>
  The writes, on the database under the lock: history row, move, hooks, audit,
  transition log, commit and, after it, the re-score.
\<close>

definition write_transition ::
    "int \<Rightarrow> nat \<Rightarrow> pipeline_stage \<Rightarrow> pipeline_stage option \<Rightarrow> pipeline_stage \<Rightarrow> allowed_transition \<Rightarrow> actor
     \<Rightarrow> string option \<Rightarrow> string option \<Rightarrow> hiring_db \<Rightarrow> (transition_error, bool \<times> hiring_db) result" where
  "write_transition now i from_stage previous to_stage row act reason key h =
     (let is_system = SYSTEM \<in> set (ac_roles act);
          changed_by = (if is_system then None else ac_id act);
          source = (if is_system then TS_SYSTEM else TS_MANUAL);
          ((hist, created), h1) = create_stage_history_idempotent i (Some from_stage) to_stage
            changed_by reason source key h
      in
      if \<not> created then Inr (False, h1)
      else
        let h2 = update_candidate i (move_stage from_stage to_stage) h1;
            resolved = hd (filter (\<lambda>r. r \<in> set (at_roles row)) (ac_roles act))
        in
        (case interview_hooks from_stage to_stage i changed_by (Some (role_value resolved)) now h2 of
           Inl e \<Rightarrow> Inl (TE_Database e)
         | Inr h3 \<Rightarrow>
             let h4 = audit changed_by (Some resolved) ''PIPELINE_STAGE_TRANSITIONED'' i
                   [(''from_stage'', JStr (stage_value from_stage)),
                    (''to_stage'', JStr (stage_value to_stage)),
                    (''reason'', json_opt JStr reason),
                    (''stage_history_id'', JNum (of_nat (sh_id hist)))] h3;
                 h5 = create_transition_log i previous from_stage to_stage (role_value resolved)
                   reason changed_by h4
             in if to_stage = SCREENING \<and> from_stage \<noteq> UPLOADED
                then (case find_candidate i h5 of
                        None \<Rightarrow> Inr (True, h5)
                      | Some c \<Rightarrow> Inr (True, snd (enqueue_manual_rescore c h5)))
                else Inr (True, h5)))"

definition transition ::
    "(campaign_candidate \<Rightarrow> campaign_candidate \<Rightarrow> campaign_candidate) \<Rightarrow> (hiring_db \<Rightarrow> hiring_db)
     \<Rightarrow> int \<Rightarrow> nat \<Rightarrow> pipeline_stage \<Rightarrow> actor \<Rightarrow> string option \<Rightarrow> string option \<Rightarrow> hiring_db
     \<Rightarrow> (transition_error, bool \<times> hiring_db) result" where
  "transition locked_read env now i to_stage act reason key h =
     (case find_candidate i h of
        None \<Rightarrow> Inl TE_Not_Found
      | Some cand \<Rightarrow>
          (case get_row (hd_rules h) (cc_stage cand) to_stage (cc_previous cand) of
             None \<Rightarrow> Inl (TE_Invalid (cc_stage cand) to_stage)
           | Some row \<Rightarrow>
               if \<not> list_ex (\<lambda>r. r \<in> set (at_roles row)) (ac_roles act)
               then Inl (TE_Forbidden (cc_stage cand) to_stage (ac_roles act))
               else if at_requires_reason row \<and> \<not> has_reason reason
               then Inl (TE_Reason_Required (cc_stage cand) to_stage)
               else
                 (case find_candidate i (env h) of
                    None \<Rightarrow> Inl TE_Row_Gone
                  | Some current \<Rightarrow>
                      if cc_stage (locked_read cand current) \<noteq> cc_stage cand
                      then Inl (TE_Conflict (cc_stage cand))
                      else write_transition now i (cc_stage cand) (cc_previous cand) to_stage row act
                             reason key (env h))))"

text \<open>The locking read that returns the current row, and the one that returns the loaded object.\<close>

definition refreshed_read :: "campaign_candidate \<Rightarrow> campaign_candidate \<Rightarrow> campaign_candidate" where
  "refreshed_read loaded current = current"

definition identity_map_read :: "campaign_candidate \<Rightarrow> campaign_candidate \<Rightarrow> campaign_candidate" where
  "identity_map_read loaded current = loaded"

section \<open>What the parts of a transition touch\<close>

text \<open>Two databases that differ at most in the interview tables.\<close>

definition same_but_interviews :: "hiring_db \<Rightarrow> hiring_db \<Rightarrow> bool" where
  "same_but_interviews h h' \<longleftrightarrow> (\<exists>d. h' = h\<lparr>hd_interviews := d\<rparr>)"

lemma hooks_frame:
  assumes "interview_hooks f t i by role now h = Inr h'"
  shows "same_but_interviews h h'"
  using assms
  unfolding interview_hooks_def res_bind_Inr_iff lift_interviews_Inr same_but_interviews_def
  by (auto simp: lift_interviews_Inr split: if_splits intro: exI[of _ "hd_interviews h"])

lemma same_but_interviewsD:
  assumes "same_but_interviews h h'"
  shows "hd_rules h' = hd_rules h" "hd_candidates h' = hd_candidates h" "hd_history h' = hd_history h"
    "hd_log h' = hd_log h" "hd_audit h' = hd_audit h" "hd_campaigns h' = hd_campaigns h"
    "hd_tasks h' = hd_tasks h" "hd_rescores h' = hd_rescores h" "hd_next_id h' = hd_next_id h"
  using assms unfolding same_but_interviews_def by auto

lemma hooks_interviews:
  assumes wf: "wf_interviews (hd_interviews h)" and run: "interview_hooks f t i by role now h = Inr h'"
  shows "wf_interviews (hd_interviews h')"
    and "has_round x (hd_interviews h') \<longleftrightarrow> has_round x (hd_interviews h) \<or> (t = INTERVIEW \<and> x = i)"
    and "(f = INTERVIEW \<and> t \<in> set interview_exit_stages) \<or> (t = SCREENING \<and> f \<noteq> UPLOADED) \<Longrightarrow>
           \<not> live_round i (hd_interviews h')"
proof -
  obtain h1 h2 where
    e1: "(if t = INTERVIEW then lift_interviews (enter_interview now i) h else Inr h) = Inr h1" and
    e2: "(if f = INTERVIEW \<and> t \<in> set interview_exit_stages
          then lift_interviews (leave_interview (exit_reason t) now i by role) h1 else Inr h1) = Inr h2" and
    e3: "(if t = SCREENING \<and> f \<noteq> UPLOADED
          then lift_interviews (leave_interview rescore_reason now i by role) h2 else Inr h2) = Inr h'"
    using run by (auto simp: interview_hooks_def res_bind_Inr_iff)
  have s1: "wf_interviews (hd_interviews h1) \<and>
      (\<forall>x. has_round x (hd_interviews h1) \<longleftrightarrow> has_round x (hd_interviews h) \<or> (t = INTERVIEW \<and> x = i))"
    using e1 wf rounds.enter_inv[of "hd_interviews h" now i] rounds.enter_has[of now i "hd_interviews h"]
    by (auto simp: lift_interviews_Inr split: if_splits)
  have s2: "wf_interviews (hd_interviews h2) \<and>
      (\<forall>x. has_round x (hd_interviews h2) \<longleftrightarrow> has_round x (hd_interviews h1)) \<and>
      (f = INTERVIEW \<and> t \<in> set interview_exit_stages \<longrightarrow> \<not> live_round i (hd_interviews h2))"
    using e2 s1 rounds.leave_inv[of "hd_interviews h1"] rounds.leave_has[of "hd_interviews h1"]
      rounds.leave_ends[of "hd_interviews h1"]
    by (auto simp: lift_interviews_Inr split: if_splits)
  have s3: "wf_interviews (hd_interviews h') \<and>
      (\<forall>x. has_round x (hd_interviews h') \<longleftrightarrow> has_round x (hd_interviews h2)) \<and>
      (t = SCREENING \<and> f \<noteq> UPLOADED \<longrightarrow> \<not> live_round i (hd_interviews h')) \<and>
      (\<not> (t = SCREENING \<and> f \<noteq> UPLOADED) \<longrightarrow> h' = h2)"
    using e3 s2 rounds.leave_inv[of "hd_interviews h2"] rounds.leave_has[of "hd_interviews h2"]
      rounds.leave_ends[of "hd_interviews h2"]
    by (auto simp: lift_interviews_Inr split: if_splits)
  show "wf_interviews (hd_interviews h')" using s3 by blast
  show "has_round x (hd_interviews h') \<longleftrightarrow> has_round x (hd_interviews h) \<or> (t = INTERVIEW \<and> x = i)"
    using s1 s2 s3 by blast
  show "\<not> live_round i (hd_interviews h')"
    if "(f = INTERVIEW \<and> t \<in> set interview_exit_stages) \<or> (t = SCREENING \<and> f \<noteq> UPLOADED)"
    using that s2 s3 by auto
qed

lemma hooks_total:
  assumes "wf_interviews (hd_interviews h)" "by \<noteq> None" "role \<noteq> None"
  shows "\<exists>h'. interview_hooks f t i by role now h = Inr h'"
proof -
  obtain u ro where some: "by = Some u" "role = Some ro" using assms by auto
  have enter: "\<exists>h1. lift_interviews (enter_interview now i) g = Inr h1 \<and> wf_interviews (hd_interviews h1)"
    if "wf_interviews (hd_interviews g)" for g
    using rounds.enter_total[of now i "hd_interviews g"] rounds.enter_inv[OF that]
    by (auto simp: lift_interviews_Inr)
  have leave: "\<exists>h1. lift_interviews (leave_interview reason now i by role) g = Inr h1 \<and> wf_interviews (hd_interviews h1)"
    if "wf_interviews (hd_interviews g)" for g reason
    using rounds.leave_total[OF that, of reason now i u ro] rounds.leave_inv[OF that]
    unfolding some by (auto simp: lift_interviews_Inr)
  obtain h1 where h1: "(if t = INTERVIEW then lift_interviews (enter_interview now i) h else Inr h) = Inr h1"
    "wf_interviews (hd_interviews h1)"
    using enter[OF assms(1)] assms(1) by (cases "t = INTERVIEW") auto
  obtain h2 where h2: "(if f = INTERVIEW \<and> t \<in> set interview_exit_stages
      then lift_interviews (leave_interview (exit_reason t) now i by role) h1 else Inr h1) = Inr h2"
    "wf_interviews (hd_interviews h2)"
    using leave[OF h1(2), of "exit_reason t"] h1(2)
    by (cases "f = INTERVIEW \<and> t \<in> set interview_exit_stages") auto
  obtain h3 where "(if t = SCREENING \<and> f \<noteq> UPLOADED
      then lift_interviews (leave_interview rescore_reason now i by role) h2 else Inr h2) = Inr h3"
    using leave[OF h2(2), of rescore_reason] by (cases "t = SCREENING \<and> f \<noteq> UPLOADED") auto
  then show ?thesis unfolding interview_hooks_def h1(1) res_bind.simps h2(1) by blast
qed

lemma rescore_frame:
  assumes "enqueue_manual_rescore c h = (b, h')"
  shows "hd_rules h' = hd_rules h" "hd_history h' = hd_history h" "hd_log h' = hd_log h"
    "hd_audit h' = hd_audit h" "hd_interviews h' = hd_interviews h"
    "map cc_id (hd_candidates h') = map cc_id (hd_candidates h)"
    "find_candidate j h' =
       (if b \<and> j = cc_id c then map_option reset_for_rescore (find_candidate j h) else find_candidate j h)"
proof -
  have "hd_rules h' = hd_rules h \<and> hd_history h' = hd_history h \<and> hd_log h' = hd_log h \<and>
    hd_audit h' = hd_audit h \<and> hd_interviews h' = hd_interviews h \<and>
    hd_candidates h' = (if b then hd_candidates (update_candidate (cc_id c) reset_for_rescore h) else hd_candidates h)"
    using assms
    by (auto simp: enqueue_manual_rescore_def Let_def get_or_create_ai_def update_ai_def clear_stale_tasks_def
        split: option.splits if_splits)
  note eqs = this
  have id: "cc_id (reset_for_rescore x) = cc_id x" for x
    by (simp add: reset_for_rescore_def reset_evaluation_fields_def)
  show "hd_rules h' = hd_rules h" "hd_history h' = hd_history h" "hd_log h' = hd_log h"
    "hd_audit h' = hd_audit h" "hd_interviews h' = hd_interviews h"
    using eqs by blast+
  show "map cc_id (hd_candidates h') = map cc_id (hd_candidates h)"
    using eqs update_candidate_ids[of reset_for_rescore "cc_id c" h, OF id] by simp
  show "find_candidate j h' =
       (if b \<and> j = cc_id c then map_option reset_for_rescore (find_candidate j h) else find_candidate j h)"
  proof (cases b)
    case True
    then have "find_candidate j h' = find_candidate j (update_candidate (cc_id c) reset_for_rescore h)"
      using eqs by (simp add: find_candidate_def)
    with True show ?thesis using find_candidate_update[of reset_for_rescore j "cc_id c" h, OF id] by simp
  next
    case False
    then show ?thesis using eqs by (simp add: find_candidate_def)
  qed
qed

lemma rescore_keeps_position:
  "cc_stage (reset_for_rescore c) = cc_stage c" "cc_previous (reset_for_rescore c) = cc_previous c"
  "cc_id (reset_for_rescore c) = cc_id c"
  by (simp_all add: reset_for_rescore_def reset_evaluation_fields_def)

lemma history_idempotent_cases:
  assumes "create_stage_history_idempotent c f t by reason src key h = ((hist, created), h')"
  shows "if created
     then sh_candidate hist = c \<and> sh_from hist = f \<and> sh_to hist = t \<and> sh_by hist = by \<and>
          sh_reason hist = reason \<and> sh_source hist = src \<and> sh_key hist = key \<and>
          h' = h\<lparr>hd_history := hd_history h @ [hist], hd_next_id := Suc (hd_next_id h)\<rparr> \<and>
          (key \<noteq> None \<longrightarrow> (\<forall>r\<in>set (hd_history h). sh_key r \<noteq> key))
     else h' = h \<and> key \<noteq> None \<and> hist \<in> set (hd_history h) \<and> sh_key hist = key"
  using assms find_Some_set[of "\<lambda>r. sh_key r = key" "hd_history h"]
  by (auto simp: create_stage_history_idempotent_def add_stage_history_def Let_def find_None_all
      split: option.splits if_splits)

section \<open>Effect of a transition\<close>

definition resolved_role :: "allowed_transition \<Rightarrow> actor \<Rightarrow> role_name" where
  "resolved_role row act = hd (filter (\<lambda>r. r \<in> set (at_roles row)) (ac_roles act))"

definition actor_name :: "actor \<Rightarrow> string option" where
  "actor_name act = (if SYSTEM \<in> set (ac_roles act) then None else ac_id act)"

lemma resolved_role_listed:
  "list_ex (\<lambda>r. r \<in> set (at_roles row)) (ac_roles act) \<Longrightarrow>
     resolved_role row act \<in> set (at_roles row) \<and> resolved_role row act \<in> set (ac_roles act)"
proof -
  assume "list_ex (\<lambda>r. r \<in> set (at_roles row)) (ac_roles act)"
  then have "filter (\<lambda>r. r \<in> set (at_roles row)) (ac_roles act) \<noteq> []"
    by (auto simp: list_ex_iff filter_empty_conv)
  then have "resolved_role row act \<in> set (filter (\<lambda>r. r \<in> set (at_roles row)) (ac_roles act))"
    unfolding resolved_role_def by (rule hd_in_set)
  then show ?thesis by simp
qed

lemma transition_cases:
  assumes "transition lr env now i t act reason key h = Inr (b, h')"
  obtains cand row current where
    "find_candidate i h = Some cand"
    "get_row (hd_rules h) (cc_stage cand) t (cc_previous cand) = Some row"
    "list_ex (\<lambda>r. r \<in> set (at_roles row)) (ac_roles act)"
    "at_requires_reason row \<longrightarrow> has_reason reason"
    "find_candidate i (env h) = Some current"
    "cc_stage (lr cand current) = cc_stage cand"
    "write_transition now i (cc_stage cand) (cc_previous cand) t row act reason key (env h) = Inr (b, h')"
  using assms by (auto simp: transition_def split: option.splits if_splits)

lemma write_transition_replay:
  assumes "write_transition now i f p t row act reason key h = Inr (False, h')"
  shows "h' = h \<and> key \<noteq> None \<and> (\<exists>r\<in>set (hd_history h). sh_key r = key)"
proof -
  obtain hist created h1 where c: "create_stage_history_idempotent i (Some f) t (actor_name act) reason
      (if SYSTEM \<in> set (ac_roles act) then TS_SYSTEM else TS_MANUAL) key h = ((hist, created), h1)"
    by (metis surj_pair)
  from assms c have "\<not> created \<and> h' = h1"
    by (auto simp: write_transition_def Let_def actor_name_def split: sum.splits option.splits if_splits)
  with history_idempotent_cases[OF c] show ?thesis by auto
qed

lemma write_transition_effect:
  assumes "write_transition now i f p t row act reason key h = Inr (True, h')"
    and cur: "find_candidate i h = Some current"
  obtains hist h2 h3 where
    "hd_history h' = hd_history h @ [hist]"
    "sh_candidate hist = i" "sh_from hist = Some f" "sh_to hist = t" "sh_by hist = actor_name act"
    "sh_reason hist = reason" "sh_key hist = key"
    "key \<noteq> None \<longrightarrow> (\<forall>r\<in>set (hd_history h). sh_key r \<noteq> key)"
    "hd_interviews h2 = hd_interviews h"
    "interview_hooks f t i (actor_name act) (Some (role_value (resolved_role row act))) now h2 = Inr h3"
    "hd_interviews h' = hd_interviews h3"
    "hd_log h' = hd_log h @ [\<lparr>tl_candidate = i, tl_previous = p, tl_from = f, tl_to = t,
        tl_role = role_value (resolved_role row act), tl_reason = reason, tl_by = actor_name act\<rparr>]"
    "length (hd_audit h') = Suc (length (hd_audit h))"
    "hd_rules h' = hd_rules h"
    "\<forall>j. j \<noteq> i \<longrightarrow> find_candidate j h' = find_candidate j h"
    "\<exists>c. find_candidate i h' = Some c \<and> cc_stage c = t \<and> cc_previous c = Some f"
    "map cc_id (hd_candidates h') = map cc_id (hd_candidates h)"
proof -
  let ?src = "if SYSTEM \<in> set (ac_roles act) then TS_SYSTEM else TS_MANUAL"
  obtain hist created h1 where c: "create_stage_history_idempotent i (Some f) t (actor_name act) reason ?src key h
      = ((hist, created), h1)"
    by (metis surj_pair)
  define h2 where "h2 = update_candidate i (move_stage f t) h1"
  have created: "created"
    using assms(1) c by (auto simp: write_transition_def Let_def actor_name_def split: if_splits)
  note hist = history_idempotent_cases[OF c, unfolded if_P[OF created]]
  obtain h3 where hooks: "interview_hooks f t i (actor_name act) (Some (role_value (resolved_role row act))) now h2 = Inr h3"
    using assms(1) c created
    by (auto simp: write_transition_def Let_def actor_name_def resolved_role_def h2_def split: sum.splits)
  note f3 = same_but_interviewsD[OF hooks_frame[OF hooks]]
  define h4 where "h4 = audit (actor_name act) (Some (resolved_role row act)) ''PIPELINE_STAGE_TRANSITIONED'' i
     [(''from_stage'', JStr (stage_value f)), (''to_stage'', JStr (stage_value t)),
      (''reason'', json_opt JStr reason), (''stage_history_id'', JNum (of_nat (sh_id hist)))] h3"
  define h5 where "h5 = create_transition_log i p f t (role_value (resolved_role row act)) reason (actor_name act) h4"
  have h': "h' = h5 \<or> (\<exists>c. find_candidate i h5 = Some c \<and> h' = snd (enqueue_manual_rescore c h5))"
    using assms(1) c created hooks
    by (auto simp: write_transition_def Let_def actor_name_def resolved_role_def h2_def h4_def h5_def
        split: option.splits if_splits)
  have idm: "cc_id (move_stage f t x) = cc_id x" for x by (simp add: move_stage_def)
  have c5: "find_candidate j h5 = (if j = i then Some (move_stage f t current) else find_candidate j h)" for j
  proof -
    have "find_candidate j h5 = find_candidate j h2"
      by (rule find_candidate_cong) (simp add: h5_def h4_def f3)
    also have "\<dots> = (if j = i then map_option (move_stage f t) (find_candidate i h1) else find_candidate j h1)"
      unfolding h2_def by (rule find_candidate_update) (rule idm)
    also have "\<dots> = (if j = i then map_option (move_stage f t) (find_candidate i h) else find_candidate j h)"
      using hist by (simp add: find_candidate_def)
    finally show ?thesis using cur by simp
  qed
  have fields5: "hd_history h5 = hd_history h @ [hist]" "hd_interviews h5 = hd_interviews h3"
    "hd_rules h5 = hd_rules h" "length (hd_audit h5) = Suc (length (hd_audit h))"
    "hd_log h5 = hd_log h @ [\<lparr>tl_candidate = i, tl_previous = p, tl_from = f, tl_to = t,
        tl_role = role_value (resolved_role row act), tl_reason = reason, tl_by = actor_name act\<rparr>]"
    using hist f3 by (simp_all add: h5_def h4_def h2_def audit_def create_transition_log_def)
  have ids5: "map cc_id (hd_candidates h5) = map cc_id (hd_candidates h)"
  proof -
    have "map cc_id (hd_candidates h5) = map cc_id (hd_candidates h2)" by (simp add: h5_def h4_def f3)
    also have "\<dots> = map cc_id (hd_candidates h1)" unfolding h2_def by (rule update_candidate_ids) (rule idm)
    finally show ?thesis using hist by simp
  qed
  have at5: "cc_stage (move_stage f t current) = t" "cc_previous (move_stage f t current) = Some f"
    by (simp_all add: move_stage_def)
  have "hd_history h' = hd_history h5 \<and> hd_interviews h' = hd_interviews h5 \<and> hd_rules h' = hd_rules h5 \<and>
      length (hd_audit h') = length (hd_audit h5) \<and> hd_log h' = hd_log h5 \<and>
      map cc_id (hd_candidates h') = map cc_id (hd_candidates h5) \<and>
      (\<forall>j. j \<noteq> i \<longrightarrow> find_candidate j h' = find_candidate j h5) \<and>
      (\<exists>c. find_candidate i h' = Some c \<and> cc_stage c = t \<and> cc_previous c = Some f)"
    using h'
  proof
    assume "h' = h5"
    with c5 at5 show ?thesis by auto
  next
    assume "\<exists>c. find_candidate i h5 = Some c \<and> h' = snd (enqueue_manual_rescore c h5)"
    then obtain c where c: "find_candidate i h5 = Some c" "h' = snd (enqueue_manual_rescore c h5)" by blast
    then have id: "cc_id c = i" using find_candidate_Some by blast
    obtain b where run: "enqueue_manual_rescore c h5 = (b, h')" using c(2) by (metis prod.collapse)
    note rf = rescore_frame[OF run]
    have "find_candidate i h' = (if b then Some (reset_for_rescore c) else Some c)"
      using rf(7)[of i] c(1) id by simp
    moreover have "c = move_stage f t current" using c(1) c5[of i] by simp
    ultimately have "\<exists>c. find_candidate i h' = Some c \<and> cc_stage c = t \<and> cc_previous c = Some f"
      using at5 by (auto simp: rescore_keeps_position)
    moreover have "find_candidate j h' = find_candidate j h5" if "j \<noteq> i" for j
      using rf(7)[of j] id that by simp
    ultimately show ?thesis using rf(1-6) by simp
  qed
  then show thesis
    using that[of hist h2 h3] hist hooks fields5 ids5 c5 by (auto simp: h2_def)
qed

end
