(* ===== verification/Stage_Transition_Props.thy ===== *)
theory Stage_Transition_Props
  imports Stage_Transition
begin

text \<open>
  What \<open>StageTransitionService\<close> guarantees: authority, effect, order of the
  errors, replay, the interview invariant, concurrency, and the automated and
  overriding moves.
\<close>

definition checks_pass :: "hiring_db \<Rightarrow> campaign_candidate \<Rightarrow> pipeline_stage \<Rightarrow> actor \<Rightarrow> string option \<Rightarrow> bool" where
  "checks_pass h cand t act reason \<longleftrightarrow>
     (case get_row (hd_rules h) (cc_stage cand) t (cc_previous cand) of
        None \<Rightarrow> False
      | Some row \<Rightarrow> list_ex (\<lambda>r. r \<in> set (at_roles row)) (ac_roles act) \<and>
                     (at_requires_reason row \<longrightarrow> has_reason reason))"

lemma checks_pass_row:
  "checks_pass h cand t act reason \<longleftrightarrow>
     (\<exists>row. get_row (hd_rules h) (cc_stage cand) t (cc_previous cand) = Some row \<and>
        list_ex (\<lambda>r. r \<in> set (at_roles row)) (ac_roles act) \<and> (at_requires_reason row \<longrightarrow> has_reason reason))"
  by (auto simp: checks_pass_def split: option.splits)

lemma write_transition_fresh:
  assumes "wf_interviews (hd_interviews h)" "actor_name act \<noteq> None"
    and "key = None \<or> (\<forall>r\<in>set (hd_history h). sh_key r \<noteq> key)"
  shows "\<exists>h'. write_transition now i f p t row act reason key h = Inr (True, h')"
proof -
  let ?src = "if SYSTEM \<in> set (ac_roles act) then TS_SYSTEM else TS_MANUAL"
  obtain hist created h1 where c: "create_stage_history_idempotent i (Some f) t (actor_name act) reason ?src key h
      = ((hist, created), h1)"
    by (metis surj_pair)
  have created: created using history_idempotent_cases[OF c] assms(3) by (auto split: if_splits)
  have "hd_interviews h1 = hd_interviews h"
    using history_idempotent_cases[OF c] created by simp
  then have w: "wf_interviews (hd_interviews (update_candidate i (move_stage f t) h1))"
    using assms(1) by simp
  have r: "Some (role_value (resolved_role row act)) \<noteq> None" by simp
  obtain h3 where "interview_hooks f t i (actor_name act)
      (Some (role_value (resolved_role row act))) now (update_candidate i (move_stage f t) h1) = Inr h3"
    using hooks_total[OF w assms(2) r, where f = f and t = t and i = i and now = now] by blast
  with c created show ?thesis
    by (auto simp: write_transition_def Let_def actor_name_def resolved_role_def split: option.splits)
qed

definition applied_then :: "(transition_error, bool \<times> hiring_db) result \<Rightarrow> (hiring_db \<Rightarrow> bool) \<Rightarrow> bool" where
  "applied_then r P = (case r of Inl e \<Rightarrow> False | Inr (b, h) \<Rightarrow> b \<and> P h)"

lemma applied_thenE: "applied_then r P \<Longrightarrow> (\<And>h. r = Inr (True, h) \<Longrightarrow> P h \<Longrightarrow> thesis) \<Longrightarrow> thesis"
  by (auto simp: applied_then_def split: sum.splits prod.splits)

lemma transition_written:
  "transition lr env now i t act reason key h = Inr (b, h') \<Longrightarrow>
     \<exists>cand row current. find_candidate i h = Some cand \<and> find_candidate i (env h) = Some current \<and>
       write_transition now i (cc_stage cand) (cc_previous cand) t row act reason key (env h) = Inr (b, h')"
  by (erule transition_cases) blast

lemma write_transition_no_conflict: "write_transition now i f p t row act reason key g \<noteq> Inl (TE_Conflict s)"
proof -
  let ?src = "if SYSTEM \<in> set (ac_roles act) then TS_SYSTEM else TS_MANUAL"
  obtain hist created h1 where c: "create_stage_history_idempotent i (Some f) t (actor_name act) reason ?src key g
      = ((hist, created), h1)"
    by (metis surj_pair)
  show ?thesis
  proof (cases "interview_hooks f t i (actor_name act) (Some (role_value (resolved_role row act))) now
      (update_candidate i (move_stage f t) h1)")
    case (Inl e)
    with c show ?thesis by (simp add: write_transition_def Let_def actor_name_def resolved_role_def)
  next
    case (Inr h3)
    with c show ?thesis
      by (simp add: write_transition_def Let_def actor_name_def resolved_role_def split: option.splits)
  qed
qed

section \<open>Properties\<close>

text \<open>
  Property C1.  A move that \<open>transition\<close> applies was governed by a row of the
  table for the stage and previous stage of the row it loaded, asked for by an
  actor holding one of the row's roles and, where the row wants it, with a
  non-blank reason; the stage that the locking read showed was the one checked,
  whichever row that read shows, and with a read that shows the row as it is the
  candidate was still in that stage.  The move changes this candidate only, sets
  \<open>previous_stage\<close> to the stage left, appends one row to the stage history, one
  to the transition log (with a role that the row allows and the actor holds)
  and one to the audit log.
\<close>

theorem transition_applied:
  assumes "transition lr env now i t act reason key h = Inr (True, h')"
  shows "\<exists>cand current row. find_candidate i h = Some cand
      \<and> get_row (hd_rules h) (cc_stage cand) t (cc_previous cand) = Some row
      \<and> (at_requires_reason row \<longrightarrow> has_reason reason)
      \<and> find_candidate i (env h) = Some current \<and> cc_stage (lr cand current) = cc_stage cand
      \<and> (lr = refreshed_read \<longrightarrow> cc_stage current = cc_stage cand)
      \<and> resolved_role row act \<in> set (at_roles row) \<inter> set (ac_roles act)
      \<and> (\<exists>c. find_candidate i h' = Some c \<and> cc_stage c = t \<and> cc_previous c = Some (cc_stage cand))
      \<and> (\<forall>j. j \<noteq> i \<longrightarrow> find_candidate j h' = find_candidate j (env h))
      \<and> (\<exists>r. hd_history h' = hd_history (env h) @ [r] \<and> sh_candidate r = i
             \<and> sh_from r = Some (cc_stage cand) \<and> sh_to r = t \<and> sh_by r = actor_name act)
      \<and> hd_log h' = hd_log (env h) @ [\<lparr>tl_candidate = i, tl_previous = cc_previous cand,
            tl_from = cc_stage cand, tl_to = t, tl_role = role_value (resolved_role row act),
            tl_reason = reason, tl_by = actor_name act\<rparr>]
      \<and> length (hd_audit h') = Suc (length (hd_audit (env h)))"
proof -
  obtain cand row current where c:
    "find_candidate i h = Some cand"
    "get_row (hd_rules h) (cc_stage cand) t (cc_previous cand) = Some row"
    "list_ex (\<lambda>r. r \<in> set (at_roles row)) (ac_roles act)"
    "at_requires_reason row \<longrightarrow> has_reason reason"
    "find_candidate i (env h) = Some current"
    "cc_stage (lr cand current) = cc_stage cand"
    "write_transition now i (cc_stage cand) (cc_previous cand) t row act reason key (env h) = Inr (True, h')"
    by (rule transition_cases[OF assms])
  have role: "resolved_role row act \<in> set (at_roles row) \<inter> set (ac_roles act)"
    using resolved_role_listed[OF c(3)] by blast
  from c(7,5) show ?thesis
  proof (rule write_transition_effect, goal_cases)
    case (1 hist h2 h3)
    have hist: "\<exists>r. hd_history h' = hd_history (env h) @ [r] \<and> sh_candidate r = i
        \<and> sh_from r = Some (cc_stage cand) \<and> sh_to r = t \<and> sh_by r = actor_name act"
      using 1(1-5) by blast
    have same: "lr = refreshed_read \<longrightarrow> cc_stage current = cc_stage cand" using c(6) by (metis refreshed_read_def)
    show ?case
      by (rule exI[of _ cand], rule exI[of _ current], rule exI[of _ row])
        (intro conjI c(1,2,4,5,6) same role hist 1(12,13,15,16))
  qed
qed

lemma transition_error_order_parts:
  shows "find_candidate i h = None \<Longrightarrow> transition lr env now i t act reason key h = Inl TE_Not_Found"
    and "find_candidate i h = Some cand \<Longrightarrow>
         get_row (hd_rules h) (cc_stage cand) t (cc_previous cand) = None \<Longrightarrow>
         transition lr env now i t act reason key h = Inl (TE_Invalid (cc_stage cand) t)"
    and "find_candidate i h = Some cand \<Longrightarrow>
         get_row (hd_rules h) (cc_stage cand) t (cc_previous cand) = Some row \<Longrightarrow>
         set (ac_roles act) \<inter> set (at_roles row) = {} \<Longrightarrow>
         transition lr env now i t act reason key h = Inl (TE_Forbidden (cc_stage cand) t (ac_roles act))"
    and "find_candidate i h = Some cand \<Longrightarrow>
         get_row (hd_rules h) (cc_stage cand) t (cc_previous cand) = Some row \<Longrightarrow>
         set (ac_roles act) \<inter> set (at_roles row) \<noteq> {} \<Longrightarrow>
         at_requires_reason row \<Longrightarrow> \<not> has_reason reason \<Longrightarrow>
         transition lr env now i t act reason key h = Inl (TE_Reason_Required (cc_stage cand) t)"
    and "wf_hiring h \<Longrightarrow> find_candidate i h = Some cand \<Longrightarrow> checks_pass h cand t act reason \<Longrightarrow>
         actor_name act \<noteq> None \<Longrightarrow> key = None \<or> (\<forall>r\<in>set (hd_history h). sh_key r \<noteq> key) \<Longrightarrow>
         \<exists>h'. transition refreshed_read id now i t act reason key h = Inr (True, h')"
proof -
  show "transition lr env now i t act reason key h = Inl TE_Not_Found" if "find_candidate i h = None"
    using that by (simp add: transition_def)
  show "transition lr env now i t act reason key h = Inl (TE_Invalid (cc_stage cand) t)"
    if "find_candidate i h = Some cand" "get_row (hd_rules h) (cc_stage cand) t (cc_previous cand) = None"
    using that by (simp add: transition_def)
  show "transition lr env now i t act reason key h = Inl (TE_Forbidden (cc_stage cand) t (ac_roles act))"
    if "find_candidate i h = Some cand" "get_row (hd_rules h) (cc_stage cand) t (cc_previous cand) = Some row"
      "set (ac_roles act) \<inter> set (at_roles row) = {}"
  proof -
    have "\<not> list_ex (\<lambda>r. r \<in> set (at_roles row)) (ac_roles act)" using that(3) by (auto simp: list_ex_iff)
    with that show ?thesis by (simp add: transition_def)
  qed
  show "transition lr env now i t act reason key h = Inl (TE_Reason_Required (cc_stage cand) t)"
    if "find_candidate i h = Some cand" "get_row (hd_rules h) (cc_stage cand) t (cc_previous cand) = Some row"
      "set (ac_roles act) \<inter> set (at_roles row) \<noteq> {}" "at_requires_reason row" "\<not> has_reason reason"
  proof -
    have "list_ex (\<lambda>r. r \<in> set (at_roles row)) (ac_roles act)" using that(3) by (auto simp: list_ex_iff)
    with that show ?thesis by (simp add: transition_def)
  qed
  show "\<exists>h'. transition refreshed_read id now i t act reason key h = Inr (True, h')"
    if "wf_hiring h" "find_candidate i h = Some cand" "checks_pass h cand t act reason"
      "actor_name act \<noteq> None" "key = None \<or> (\<forall>r\<in>set (hd_history h). sh_key r \<noteq> key)"
  proof -
    note prems = that
    obtain row where row: "get_row (hd_rules h) (cc_stage cand) t (cc_previous cand) = Some row"
      "list_ex (\<lambda>r. r \<in> set (at_roles row)) (ac_roles act)" "at_requires_reason row \<longrightarrow> has_reason reason"
      using prems(3) by (auto simp: checks_pass_row)
    have "wf_interviews (hd_interviews h)" using prems(1) by (simp add: wf_hiring_def)
    from write_transition_fresh[OF this prems(4,5), of now i "cc_stage cand" "cc_previous cand" t row reason]
    show ?thesis using prems(2) row by (auto simp: transition_def refreshed_read_def)
  qed
qed

text \<open>
  Property C6.  The errors of \<open>transition\<close> come in the documented order: an
  unknown candidate, then a move the table does not have, then a role the row
  does not list, then a missing reason, whatever else is wrong; and a move that
  passes the checks, by an identified actor with a fresh idempotency key and
  without interference, is applied.
\<close>

theorem transition_error_order:
  shows "(find_candidate i h = None \<longrightarrow> transition lr env now i t act reason key h = Inl TE_Not_Found)
     \<and> (find_candidate i h = Some cand \<longrightarrow> get_row (hd_rules h) (cc_stage cand) t (cc_previous cand) = None \<longrightarrow>
         transition lr env now i t act reason key h = Inl (TE_Invalid (cc_stage cand) t))
     \<and> (find_candidate i h = Some cand \<longrightarrow>
         get_row (hd_rules h) (cc_stage cand) t (cc_previous cand) = Some row \<longrightarrow>
         set (ac_roles act) \<inter> set (at_roles row) = {} \<longrightarrow>
         transition lr env now i t act reason key h = Inl (TE_Forbidden (cc_stage cand) t (ac_roles act)))
     \<and> (find_candidate i h = Some cand \<longrightarrow>
         get_row (hd_rules h) (cc_stage cand) t (cc_previous cand) = Some row \<longrightarrow>
         set (ac_roles act) \<inter> set (at_roles row) \<noteq> {} \<longrightarrow> at_requires_reason row \<longrightarrow>
         \<not> has_reason reason \<longrightarrow>
         transition lr env now i t act reason key h = Inl (TE_Reason_Required (cc_stage cand) t))
     \<and> (wf_hiring h \<longrightarrow> find_candidate i h = Some cand \<longrightarrow> checks_pass h cand t act reason \<longrightarrow>
         actor_name act \<noteq> None \<longrightarrow>
         (key = None \<or> (\<forall>r\<in>set (hd_history h). sh_key r \<noteq> key)) \<longrightarrow>
         (\<exists>h'. transition refreshed_read id now i t act reason key h = Inr (True, h')))"
  by (rule conjI, (rule impI)+, rule transition_error_order_parts(1), assumption+, rule conjI,
      (rule impI)+, rule transition_error_order_parts(2), assumption+, rule conjI, (rule impI)+,
      rule transition_error_order_parts(3), assumption+, rule conjI, (rule impI)+,
      rule transition_error_order_parts(4), assumption+, (rule impI)+,
      rule transition_error_order_parts(5), assumption+)

definition blank_candidate :: "nat \<Rightarrow> nat \<Rightarrow> pipeline_stage \<Rightarrow> pipeline_stage option \<Rightarrow> campaign_candidate" where
  "blank_candidate i camp stage prev =
     \<lparr>cc_id = i, cc_campaign = camp, cc_candidate = i, cc_resume = i, cc_stage = stage, cc_previous = prev,
      cc_screened_at = None, cc_det_score = None, cc_det_passed = None, cc_det_breakdown = None,
      cc_sem_score = None, cc_sem_passed = None, cc_sem_at = None, cc_sem_breakdown = None,
      cc_composite = None, cc_composite_at = None, cc_fraud_flags = None, cc_is_fraud = False,
      cc_decision_type = None, cc_decision_source = None, cc_decision_reason = None,
      cc_decision_details = None, cc_decision_by = None, cc_decision_at = None, cc_updated_at = None\<rparr>"

definition example_db :: "campaign_candidate list \<Rightarrow> hiring_db" where
  "example_db cs =
     \<lparr>hd_rules = seeded_rows, hd_candidates = cs, hd_campaigns = [], hd_history = [], hd_log = [],
      hd_audit = [], hd_interviews = empty_interviews, hd_ai = [], hd_people = [], hd_resumes = [],
      hd_tasks = [], hd_rescores = [], hd_next_id = 0\<rparr>"

definition recruiter :: actor where
  "recruiter = \<lparr>ac_roles = [RECRUITER], ac_id = Some ''rec''\<rparr>"

definition screening_db :: hiring_db where
  "screening_db = example_db [blank_candidate 1 9 SCREENING (Some UPLOADED)]"

lemma screening_db_wf: "wf_hiring screening_db"
  by (simp add: wf_hiring_def screening_db_def example_db_def blank_candidate_def seeded_unique wf_empty)

lemma transition_applied_witness:
  "\<exists>h'. transition refreshed_read id 0 1 SHORTLISTED recruiter None None screening_db = Inr (True, h')
     \<and> (\<exists>c. find_candidate 1 h' = Some c \<and> cc_stage c = SHORTLISTED \<and> cc_previous c = Some SCREENING)
     \<and> length (hd_log h') = 1"
proof -
  have "applied_then (transition refreshed_read id 0 1 SHORTLISTED recruiter None None screening_db) (\<lambda>h. True)"
    by code_simp
  then obtain h' where run: "transition refreshed_read id 0 1 SHORTLISTED recruiter None None screening_db = Inr (True, h')"
    by (rule applied_thenE)
  from transition_applied[OF run] obtain cand where
    "find_candidate 1 screening_db = Some cand"
    "\<exists>c. find_candidate 1 h' = Some c \<and> cc_stage c = SHORTLISTED \<and> cc_previous c = Some (cc_stage cand)"
    "length (hd_log h') = Suc (length (hd_log screening_db))"
    by auto
  moreover have "cc_stage cand = SCREENING" "hd_log screening_db = []"
    using calculation(1)
    by (auto simp: find_candidate_def screening_db_def example_db_def blank_candidate_def)
  ultimately show ?thesis using run by auto
qed

lemma transition_error_order_witness:
  "transition refreshed_read id 0 2 SHORTLISTED recruiter None None screening_db = Inl TE_Not_Found
   \<and> transition refreshed_read id 0 1 SELECTED system_actor None None screening_db = Inl (TE_Invalid SCREENING SELECTED)
   \<and> transition refreshed_read id 0 1 REJECTED \<lparr>ac_roles = [HR_ADMIN], ac_id = Some ''x''\<rparr> None None screening_db
       = Inl (TE_Forbidden SCREENING REJECTED [HR_ADMIN])
   \<and> transition refreshed_read id 0 1 REJECTED recruiter (Some '' '') None screening_db
       = Inl (TE_Reason_Required SCREENING REJECTED)"
proof -
  let ?c = "blank_candidate 1 9 SCREENING (Some UPLOADED)"
  have f: "find_candidate 1 screening_db = Some ?c" "find_candidate 2 screening_db = None"
    by (simp_all add: find_candidate_def screening_db_def example_db_def blank_candidate_def)
  have rules: "hd_rules screening_db = seeded_rows" "cc_stage ?c = SCREENING" "cc_previous ?c = Some UPLOADED"
    by (simp_all add: screening_db_def example_db_def blank_candidate_def)
  have none: "get_row seeded_rows SCREENING SELECTED (Some UPLOADED) = None" by code_simp
  have row: "get_row seeded_rows SCREENING REJECTED (Some UPLOADED) =
      Some (transition_row None SCREENING REJECTED [RECRUITER, SYSTEM] True)" by code_simp
  show ?thesis
    using transition_error_order[THEN conjunct1, rule_format, OF f(2), where t = SHORTLISTED and act = recruiter and reason = None
        and key = None and lr = refreshed_read and env = id and now = 0]
      transition_error_order[THEN conjunct2, THEN conjunct1, rule_format, OF f(1), where t = SELECTED and act = system_actor and reason = None
        and key = None and lr = refreshed_read and env = id and now = 0]
      transition_error_order[THEN conjunct2, THEN conjunct2, THEN conjunct1, rule_format, OF f(1), where t = REJECTED and act = "\<lparr>ac_roles = [HR_ADMIN], ac_id = Some ''x''\<rparr>"
        and reason = None and key = None and lr = refreshed_read and env = id and now = 0]
      transition_error_order[THEN conjunct2, THEN conjunct2, THEN conjunct2, THEN conjunct1, rule_format, OF f(1), where t = REJECTED and act = recruiter and reason = "Some '' ''"
        and key = None and lr = refreshed_read and env = id and now = 0]
    unfolding rules none row
    by (simp add: transition_row_def recruiter_def has_reason_def strip_def is_space_def)
qed

lemma transition_replay_parts:
  shows "r \<in> set (hd_history (env h)) \<Longrightarrow> sh_key r = Some k \<Longrightarrow>
           transition lr env now i t act reason (Some k) h = Inr (b, h') \<Longrightarrow> \<not> b \<and> h' = env h"
    and "transition lr env now i t act reason (Some k) h = Inr (True, h') \<Longrightarrow>
           \<exists>r\<in>set (hd_history h'). sh_key r = Some k \<and> sh_candidate r = i \<and> sh_to r = t"
proof -
  show "\<not> b \<and> h' = env h"
    if "r \<in> set (hd_history (env h))" "sh_key r = Some k"
      "transition lr env now i t act reason (Some k) h = Inr (b, h')"
  proof -
    note prems = that
    obtain cand :: campaign_candidate and row current where c: "find_candidate i (env h) = Some current"
      "write_transition now i (cc_stage cand) (cc_previous cand) t row act reason (Some k) (env h) = Inr (b, h')"
      using transition_written[OF prems(3)] by blast
    show ?thesis
    proof (cases b)
      case True
      with c(2) have "write_transition now i (cc_stage cand) (cc_previous cand) t row act reason (Some k) (env h)
          = Inr (True, h')" by simp
      from this c(1) have "\<forall>r\<in>set (hd_history (env h)). sh_key r \<noteq> Some k"
        by (rule write_transition_effect) blast
      with prems(1,2) show ?thesis by blast
    next
      case False
      with c(2) have "write_transition now i (cc_stage cand) (cc_previous cand) t row act reason (Some k) (env h)
          = Inr (False, h')" by simp
      from write_transition_replay[OF this] False show ?thesis by blast
    qed
  qed
  show "\<exists>r\<in>set (hd_history h'). sh_key r = Some k \<and> sh_candidate r = i \<and> sh_to r = t"
    if "transition lr env now i t act reason (Some k) h = Inr (True, h')"
  proof -
    note prems = that
    obtain cand :: campaign_candidate and row current where c: "find_candidate i (env h) = Some current"
      "write_transition now i (cc_stage cand) (cc_previous cand) t row act reason (Some k) (env h) = Inr (True, h')"
      using transition_written[OF prems] by blast
    from c(2,1) show ?thesis
      by (rule write_transition_effect) (use in_set_conv_decomp in fastforce)
  qed
qed

text \<open>
  Replay: a request whose idempotency key is already in the stage
  history is answered without any write, whatever else it asks for, and a move
  applied under a key leaves the key in the history.
\<close>

theorem transition_replay:
  shows "(r \<in> set (hd_history (env h)) \<longrightarrow> sh_key r = Some k \<longrightarrow> transition lr env now i t act reason (Some k) h = Inr (b, h') \<longrightarrow> (\<not> b \<and> h' = env h))
     \<and> (transition lr env now i t act reason (Some k) h = Inr (True, h') \<longrightarrow>
         (\<exists>r\<in>set (hd_history h'). sh_key r = Some k \<and> sh_candidate r = i \<and> sh_to r = t))"
  by (rule conjI, (rule impI)+, rule transition_replay_parts(1), assumption+, (rule impI)+, rule transition_replay_parts(2), assumption+)

lemma transition_replay_witness:
  "\<exists>h'. transition refreshed_read id 0 1 SHORTLISTED recruiter None (Some ''k'') screening_db = Inr (True, h')
     \<and> (\<forall>h''. transition refreshed_read id 5 1 HOLD recruiter None (Some ''k'') h' = Inr (True, h'') \<longrightarrow> False)"
proof -
  have "applied_then (transition refreshed_read id 0 1 SHORTLISTED recruiter None (Some ''k'') screening_db) (\<lambda>h. True)"
    by code_simp
  then obtain h' where run:
    "transition refreshed_read id 0 1 SHORTLISTED recruiter None (Some ''k'') screening_db = Inr (True, h')"
    by (rule applied_thenE)
  obtain r where r: "r \<in> set (hd_history h')" "sh_key r = Some ''k''"
    using transition_replay[THEN conjunct2, rule_format, OF run] by blast
  from transition_replay[THEN conjunct1, rule_format, where env = id and h = h' and lr = refreshed_read and now = 5 and i = 1
      and t = HOLD and act = recruiter and reason = None, OF _ r(2)] r(1)
  have "\<not> (\<exists>h''. transition refreshed_read id 5 1 HOLD recruiter None (Some ''k'') h' = Inr (True, h''))"
    by auto
  with run show ?thesis by blast
qed

lemma transition_keeps_interview_invariant_parts:
  assumes "wf_hiring (env h)" "interview_invariant (env h)"
    and "transition lr env now i t act reason key h = Inr (b, h')"
  shows "wf_hiring h' \<and> interview_invariant h'"
    and "b \<Longrightarrow> find_candidate i h = Some c0 \<Longrightarrow>
         (cc_stage c0 = INTERVIEW \<and> t \<in> set interview_exit_stages) \<or> (t = SCREENING \<and> cc_stage c0 \<noteq> UPLOADED)
         \<Longrightarrow> \<not> live_round i (hd_interviews h')"
proof -
  obtain cand row current where c: "find_candidate i h = Some cand" "find_candidate i (env h) = Some current"
    "write_transition now i (cc_stage cand) (cc_previous cand) t row act reason key (env h) = Inr (b, h')"
    using transition_written[OF assms(3)] by blast
  have "(wf_hiring h' \<and> interview_invariant h') \<and>
    (b \<longrightarrow> (cc_stage cand = INTERVIEW \<and> t \<in> set interview_exit_stages) \<or> (t = SCREENING \<and> cc_stage cand \<noteq> UPLOADED)
      \<longrightarrow> \<not> live_round i (hd_interviews h'))"
  proof (cases b)
    case False
    with c(3) have "write_transition now i (cc_stage cand) (cc_previous cand) t row act reason key (env h)
        = Inr (False, h')" by simp
    from write_transition_replay[OF this] have "h' = env h" by blast
    with assms False show ?thesis by simp
  next
    case True
    with c(3) have run: "write_transition now i (cc_stage cand) (cc_previous cand) t row act reason key (env h)
        = Inr (True, h')" by simp
    from run c(2) show ?thesis
    proof (rule write_transition_effect, goal_cases)
      case (1 hist h2 h3)
      have w2: "wf_interviews (hd_interviews h2)" using assms(1) 1(9) by (simp add: wf_hiring_def)
      note hooks = hooks_interviews[OF w2 1(10)]
      have wf: "wf_hiring h'"
        using assms(1) hooks(1) 1(11,14,17) by (simp add: wf_hiring_def)
      have "has_round j (hd_interviews h')"
        if "find_candidate j h' = Some x" "cc_stage x = INTERVIEW" for j x
      proof (cases "j = i")
        case True
        then show ?thesis using that 1(16) hooks(2)[of i] 1(11) by auto
      next
        case False
        then have "find_candidate j (env h) = Some x" using that 1(15) by simp
        then have "has_round j (hd_interviews (env h))"
          using assms(1,2) that(2) find_candidate_Some by (fastforce simp: interview_invariant_def)
        then show ?thesis using hooks(2)[of j] 1(9,11) by simp
      qed
      then have "interview_invariant h'"
        using interview_invariant_alt[of h'] wf by (auto simp: wf_hiring_def)
      with wf hooks(3) 1(11) show ?case by simp
    qed
  qed
  then show "wf_hiring h' \<and> interview_invariant h'"
    "b \<Longrightarrow> find_candidate i h = Some c0 \<Longrightarrow>
       (cc_stage c0 = INTERVIEW \<and> t \<in> set interview_exit_stages) \<or> (t = SCREENING \<and> cc_stage c0 \<noteq> UPLOADED)
       \<Longrightarrow> \<not> live_round i (hd_interviews h')"
    using c(1) by auto
qed

text \<open>
  Property C4.  \<open>transition\<close> keeps the tables well formed and keeps the invariant
  that a candidate at \<open>INTERVIEW\<close> has an interview round; leaving \<open>INTERVIEW\<close> for
  \<open>SELECTED\<close>, \<open>REJECTED\<close> or \<open>SHORTLISTED\<close>, and returning to \<open>SCREENING\<close>, leaves
  no active round.
\<close>

theorem transition_keeps_interview_invariant:
  assumes "wf_hiring (env h)" "interview_invariant (env h)"
    and "transition lr env now i t act reason key h = Inr (b, h')"
  shows "(wf_hiring h' \<and> interview_invariant h')
     \<and> (b \<longrightarrow> find_candidate i h = Some c0 \<longrightarrow>
         ((cc_stage c0 = INTERVIEW \<and> t \<in> set interview_exit_stages) \<or> (t = SCREENING \<and> cc_stage c0 \<noteq> UPLOADED)) \<longrightarrow>
         \<not> live_round i (hd_interviews h'))"
  by (rule conjI, rule transition_keeps_interview_invariant_parts(1)[OF assms], (rule impI)+,
      rule transition_keeps_interview_invariant_parts(2)[OF assms], assumption+)

definition shortlisted_db :: hiring_db where
  "shortlisted_db = example_db [blank_candidate 1 9 SHORTLISTED (Some SCREENING)]"

lemma transition_keeps_interview_invariant_witness:
  "\<exists>h1 h2. transition refreshed_read id 0 1 INTERVIEW recruiter None None shortlisted_db = Inr (True, h1)
     \<and> interview_invariant h1 \<and> has_round 1 (hd_interviews h1)
     \<and> transition refreshed_read id 1 1 SELECTED recruiter None None h1 = Inr (True, h2)
     \<and> \<not> live_round 1 (hd_interviews h2)"
proof -
  have "applied_then (transition refreshed_read id 0 1 INTERVIEW recruiter None None shortlisted_db)
      (\<lambda>h. map_option cc_stage (find_candidate 1 h) = Some INTERVIEW
        \<and> applied_then (transition refreshed_read id 1 1 SELECTED recruiter None None h) (\<lambda>h. True))"
    by code_simp
  then obtain h1 where
    r1: "transition refreshed_read id 0 1 INTERVIEW recruiter None None shortlisted_db = Inr (True, h1)" and
    stage: "map_option cc_stage (find_candidate 1 h1) = Some INTERVIEW" and
    "applied_then (transition refreshed_read id 1 1 SELECTED recruiter None None h1) (\<lambda>h. True)"
    by (rule applied_thenE) blast
  from this(3) obtain h2 where
    r2: "transition refreshed_read id 1 1 SELECTED recruiter None None h1 = Inr (True, h2)"
    by (elim applied_thenE)
  have wf: "wf_hiring (id shortlisted_db)" "interview_invariant (id shortlisted_db)"
    by (simp_all add: wf_hiring_def shortlisted_db_def example_db_def blank_candidate_def seeded_unique
        wf_empty interview_invariant_def)
  note k1 = transition_keeps_interview_invariant[THEN conjunct1, rule_format, OF wf r1]
  obtain c where c: "find_candidate 1 h1 = Some c" "cc_stage c = INTERVIEW"
    using stage by auto
  have "has_round 1 (hd_interviews h1)"
    using k1 c find_candidate_Some by (fastforce simp: interview_invariant_def)
  moreover have "\<not> live_round 1 (hd_interviews h2)"
    using transition_keeps_interview_invariant[THEN conjunct2, rule_format, OF _ _ r2, of c] k1 c by (simp add: interview_exit_stages_def)
  ultimately show ?thesis using k1 r1 r2 by blast
qed

lemma transition_conflict_needs_refresh_parts:
  shows "find_candidate i h = Some cand \<Longrightarrow> checks_pass h cand t act reason \<Longrightarrow>
         find_candidate i (env h) = Some current \<Longrightarrow> cc_stage current \<noteq> cc_stage cand \<Longrightarrow>
         transition refreshed_read env now i t act reason key h = Inl (TE_Conflict (cc_stage cand))"
    and "transition identity_map_read env now i t act reason key h \<noteq> Inl (TE_Conflict s)"
proof -
  show "transition refreshed_read env now i t act reason key h = Inl (TE_Conflict (cc_stage cand))"
    if "find_candidate i h = Some cand" "checks_pass h cand t act reason"
      "find_candidate i (env h) = Some current" "cc_stage current \<noteq> cc_stage cand"
    using that by (auto simp: transition_def checks_pass_row refreshed_read_def)
  have "write_transition now i f p t row act reason key g \<noteq> Inl (TE_Conflict s)" for f p row g
    by (rule write_transition_no_conflict)
  then show "transition identity_map_read env now i t act reason key h \<noteq> Inl (TE_Conflict s)"
    by (auto simp: transition_def identity_map_read_def split: option.splits if_splits)
qed

text \<open>
  The lock.  If the locking read returns the current row, a move
  decided on a stage that another session has changed meanwhile is refused with
  a conflict; if it returns the object loaded before (the row is already in the
  identity map of the session), no interference whatever makes the state check
  fail.
\<close>

theorem transition_conflict_needs_refresh:
  shows "(find_candidate i h = Some cand \<longrightarrow> checks_pass h cand t act reason \<longrightarrow> find_candidate i (env h) = Some current \<longrightarrow> cc_stage current \<noteq> cc_stage cand \<longrightarrow> transition refreshed_read env now i t act reason key h = Inl (TE_Conflict (cc_stage cand)))
     \<and> (transition identity_map_read env now i t act reason key h \<noteq> Inl (TE_Conflict s))"
  by (rule conjI, (rule impI)+, rule transition_conflict_needs_refresh_parts(1), assumption+, rule transition_conflict_needs_refresh_parts(2))

definition other_rejects :: "hiring_db \<Rightarrow> hiring_db" where
  "other_rejects h =
     (case transition refreshed_read id 0 1 REJECTED recruiter (Some ''no'') None h of
        Inl e \<Rightarrow> h | Inr (b, h') \<Rightarrow> h')"

lemma transition_conflict_needs_refresh_witness:
  "transition refreshed_read other_rejects 1 1 SHORTLISTED recruiter None None screening_db
     = Inl (TE_Conflict SCREENING)"
proof -
  let ?c = "blank_candidate 1 9 SCREENING (Some UPLOADED)"
  have f: "find_candidate 1 screening_db = Some ?c" "cc_stage ?c = SCREENING"
    by (simp_all add: find_candidate_def screening_db_def example_db_def blank_candidate_def)
  have "checks_pass screening_db ?c SHORTLISTED recruiter None" by code_simp
  moreover have "(case find_candidate 1 (other_rejects screening_db) of
      None \<Rightarrow> False | Some c \<Rightarrow> cc_stage c = REJECTED)" by code_simp
  then obtain c where "find_candidate 1 (other_rejects screening_db) = Some c" "cc_stage c = REJECTED"
    by (auto split: option.splits)
  ultimately show ?thesis
    using transition_conflict_needs_refresh[THEN conjunct1, rule_format, OF f(1), where t = SHORTLISTED and act = recruiter
        and reason = None and env = other_rejects and now = 1 and key = None] f(2) by simp
qed

text \<open>
  With a locking read that returns the loaded object, two
  recruiters can both succeed: a rejection committed between the first read and
  the lock is overwritten by the shortlisting, and the stage history holds two
  rows that both leave \<open>SCREENING\<close>.
\<close>

theorem stale_lock_loses_update:
  "applied_then (transition identity_map_read other_rejects 1 1 SHORTLISTED recruiter None None screening_db)
     (\<lambda>h. map cc_stage (hd_candidates h) = [SHORTLISTED]
        \<and> map (\<lambda>r. (sh_from r, sh_to r)) (hd_history h)
            = [(Some SCREENING, REJECTED), (Some SCREENING, SHORTLISTED)])"
  by code_simp

section \<open>Automated moves\<close>

definition automated_result ::
    "campaign_candidate \<Rightarrow> (campaign_candidate \<Rightarrow> campaign_candidate) \<Rightarrow> hiring_db \<Rightarrow> hiring_db \<Rightarrow> bool" where
  "automated_result c f h h' \<longleftrightarrow>
     find_candidate (cc_id c) h' = Some (f c)
     \<and> (\<forall>j. j \<noteq> cc_id c \<longrightarrow> find_candidate j h' = find_candidate j h)
     \<and> length (hd_history h') = Suc (length (hd_history h)) \<and> length (hd_log h') = Suc (length (hd_log h))"

lemma automated_write:
  assumes "find_candidate (cc_id c) h = Some c" "\<And>x. cc_id (f x) = cc_id x"
  shows "automated_result c f h (create_transition_log i p fr t role reason by
           (create_stage_history i' fr' t' by' reason' src snap (update_candidate (cc_id c) f h)))"
proof -
  let ?h = "create_transition_log i p fr t role reason by
           (create_stage_history i' fr' t' by' reason' src snap (update_candidate (cc_id c) f h))"
  have "find_candidate j ?h = find_candidate j (update_candidate (cc_id c) f h)" for j
    by (rule find_candidate_cong) simp
  moreover have "length (hd_history ?h) = Suc (length (hd_history h))"
    by (simp add: create_stage_history_def add_stage_history_def Let_def)
  moreover have "length (hd_log ?h) = Suc (length (hd_log h))"
    by (simp add: create_transition_log_def create_stage_history_def add_stage_history_def Let_def)
  ultimately show ?thesis
    using find_candidate_update[of f _ "cc_id c" h, OF assms(2)] assms(1) by (simp add: automated_result_def)
qed

lemma screening_cases:
  assumes "find_candidate (cc_id c) h = Some c" "transition_to_screening now c h = (b, h')"
  shows "if b then cc_stage c = UPLOADED \<and> is_transition_allowed (hd_rules h) UPLOADED SCREENING (cc_previous c)
      \<and> automated_result c (\<lambda>x. (move_stage UPLOADED SCREENING x)\<lparr>cc_updated_at := Some now\<rparr>) h h' else h' = h"
proof -
  have "cc_id ((move_stage UPLOADED SCREENING x)\<lparr>cc_updated_at := Some now\<rparr>) = cc_id x" for x
    by (simp add: move_stage_def)
  from automated_write[OF assms(1) this] assms(2) show ?thesis
    by (auto simp: transition_to_screening_def Let_def split: if_splits)
qed

lemma ai_success_cases:
  assumes "find_candidate (cc_id c) h = Some c" "transition_on_ai_success now c t dt cr sc re de h = (b, h')"
  shows "if b then is_transition_allowed (hd_rules h) (cc_stage c) t (cc_previous c)
      \<and> automated_result c (\<lambda>x. decide dt (Some DS_AI) (case re of Some r \<Rightarrow> Some r | None \<Rightarrow> Some cr) de None now
           (move_stage (cc_stage c) t x)) h h' else h' = h"
proof -
  have "cc_id (decide dt (Some DS_AI) (case re of Some r \<Rightarrow> Some r | None \<Rightarrow> Some cr) de None now
      (move_stage (cc_stage c) t x)) = cc_id x" for x
    by (simp add: move_stage_def decide_def)
  from automated_write[OF assms(1) this] assms(2) show ?thesis
    unfolding transition_on_ai_success_def Let_def by (metis prod.inject)
qed

lemma rejected_cases:
  assumes "find_candidate (cc_id c) h = Some c" "transition_to_rejected now c cr sc ds re de by h = (b, h')"
  shows "if b then is_transition_allowed (hd_rules h) (cc_stage c) REJECTED (cc_previous c)
      \<and> automated_result c (\<lambda>x. decide DT_REJECTED (Some ds) (case re of Some r \<Rightarrow> Some r | None \<Rightarrow> Some cr) de by now
           (move_stage (cc_stage c) REJECTED x)) h h' else h' = h"
proof -
  have "cc_id (decide DT_REJECTED (Some ds) (case re of Some r \<Rightarrow> Some r | None \<Rightarrow> Some cr) de by now
      (move_stage (cc_stage c) REJECTED x)) = cc_id x" for x
    by (simp add: move_stage_def decide_def)
  from automated_write[OF assms(1) this] assms(2) show ?thesis
    unfolding transition_to_rejected_def Let_def by (metis prod.inject)
qed

lemma automated_moves_governed_parts:
  assumes c: "find_candidate (cc_id c) h = Some c"
  shows "transition_to_screening now c h = (False, h') \<or>
         transition_on_ai_success now c t dt cr sc re de h = (False, h') \<or>
         transition_to_rejected now c cr sc ds re de by h = (False, h') \<Longrightarrow> h' = h"
    and "transition_to_screening now c h = (True, h') \<Longrightarrow>
         cc_stage c = UPLOADED \<and> is_transition_allowed (hd_rules h) UPLOADED SCREENING (cc_previous c)
         \<and> automated_result c (\<lambda>x. (move_stage UPLOADED SCREENING x)\<lparr>cc_updated_at := Some now\<rparr>) h h'"
    and "transition_on_ai_success now c t dt cr sc re de h = (True, h') \<Longrightarrow>
         is_transition_allowed (hd_rules h) (cc_stage c) t (cc_previous c)
         \<and> automated_result c (\<lambda>x. decide dt (Some DS_AI) (case re of Some r \<Rightarrow> Some r | None \<Rightarrow> Some cr) de None now
             (move_stage (cc_stage c) t x)) h h'"
    and "transition_to_rejected now c cr sc ds re de by h = (True, h') \<Longrightarrow>
         is_transition_allowed (hd_rules h) (cc_stage c) REJECTED (cc_previous c)
         \<and> automated_result c (\<lambda>x. decide DT_REJECTED (Some ds) (case re of Some r \<Rightarrow> Some r | None \<Rightarrow> Some cr) de by now
             (move_stage (cc_stage c) REJECTED x)) h h'"
proof -
  show "h' = h" if "transition_to_screening now c h = (False, h') \<or>
      transition_on_ai_success now c t dt cr sc re de h = (False, h') \<or>
      transition_to_rejected now c cr sc ds re de by h = (False, h')"
    using that screening_cases[OF c, where b = False] ai_success_cases[OF c, where b = False]
      rejected_cases[OF c, where b = False]
    unfolding if_False by blast
  show "cc_stage c = UPLOADED \<and> is_transition_allowed (hd_rules h) UPLOADED SCREENING (cc_previous c)
      \<and> automated_result c (\<lambda>x. (move_stage UPLOADED SCREENING x)\<lparr>cc_updated_at := Some now\<rparr>) h h'"
    if "transition_to_screening now c h = (True, h')"
    using screening_cases[OF c that] unfolding if_True .
  show "is_transition_allowed (hd_rules h) (cc_stage c) t (cc_previous c)
      \<and> automated_result c (\<lambda>x. decide dt (Some DS_AI) (case re of Some r \<Rightarrow> Some r | None \<Rightarrow> Some cr) de None now
          (move_stage (cc_stage c) t x)) h h'"
    if "transition_on_ai_success now c t dt cr sc re de h = (True, h')"
    using ai_success_cases[OF c that] unfolding if_True .
  show "is_transition_allowed (hd_rules h) (cc_stage c) REJECTED (cc_previous c)
      \<and> automated_result c (\<lambda>x. decide DT_REJECTED (Some ds) (case re of Some r \<Rightarrow> Some r | None \<Rightarrow> Some cr) de by now
          (move_stage (cc_stage c) REJECTED x)) h h'"
    if "transition_to_rejected now c cr sc ds re de by h = (True, h')"
    using rejected_cases[OF c that] unfolding if_True .
qed

text \<open>
  The automated layers move a candidate only along a configured
  edge: a blocked move returns False and writes nothing; a move that returns
  True sets the stage and the previous stage of this candidate, records the
  decision, leaves the other candidates alone and writes one history and one log
  row.  Screening starts from \<open>UPLOADED\<close> only.
\<close>

theorem automated_moves_governed:
  assumes c: "find_candidate (cc_id c) h = Some c"
  shows "((transition_to_screening now c h = (False, h') \<or>
         transition_on_ai_success now c t dt cr sc re de h = (False, h') \<or>
         transition_to_rejected now c cr sc ds re de by h = (False, h')) \<longrightarrow> h' = h)
     \<and> (transition_to_screening now c h = (True, h') \<longrightarrow>
         (cc_stage c = UPLOADED \<and> is_transition_allowed (hd_rules h) UPLOADED SCREENING (cc_previous c)
         \<and> automated_result c (\<lambda>x. (move_stage UPLOADED SCREENING x)\<lparr>cc_updated_at := Some now\<rparr>) h h'))
     \<and> (transition_on_ai_success now c t dt cr sc re de h = (True, h') \<longrightarrow>
         (is_transition_allowed (hd_rules h) (cc_stage c) t (cc_previous c)
         \<and> automated_result c (\<lambda>x. decide dt (Some DS_AI) (case re of Some r \<Rightarrow> Some r | None \<Rightarrow> Some cr) de None now
             (move_stage (cc_stage c) t x)) h h'))
     \<and> (transition_to_rejected now c cr sc ds re de by h = (True, h') \<longrightarrow>
         (is_transition_allowed (hd_rules h) (cc_stage c) REJECTED (cc_previous c)
         \<and> automated_result c (\<lambda>x. decide DT_REJECTED (Some ds) (case re of Some r \<Rightarrow> Some r | None \<Rightarrow> Some cr) de by now
             (move_stage (cc_stage c) REJECTED x)) h h'))"
  by (rule conjI, (rule impI)+, rule automated_moves_governed_parts(1)[OF assms], assumption+,
      rule conjI, (rule impI)+, rule automated_moves_governed_parts(2)[OF assms], assumption+,
      rule conjI, (rule impI)+, rule automated_moves_governed_parts(3)[OF assms], assumption+,
      (rule impI)+, rule automated_moves_governed_parts(4)[OF assms], assumption+)

lemma automated_moves_governed_witness:
  "\<exists>h'. transition_to_rejected 0 (blank_candidate 1 9 SCREENING (Some UPLOADED)) ''AI'' None DS_AI None None None
          screening_db = (True, h')
     \<and> (\<exists>d. find_candidate 1 h' = Some d \<and> cc_stage d = REJECTED \<and> cc_decision_source d = Some DS_AI)"
proof -
  let ?c = "blank_candidate 1 9 SCREENING (Some UPLOADED)"
  have f: "find_candidate (cc_id ?c) screening_db = Some ?c" "cc_id ?c = 1"
    by (simp_all add: find_candidate_def screening_db_def example_db_def blank_candidate_def)
  have "fst (transition_to_rejected 0 ?c ''AI'' None DS_AI None None None screening_db)" by code_simp
  then obtain h' where "transition_to_rejected 0 ?c ''AI'' None DS_AI None None None screening_db = (True, h')"
    by (cases "transition_to_rejected 0 ?c ''AI'' None DS_AI None None None screening_db") auto
  with automated_moves_governed[THEN conjunct2, THEN conjunct2, THEN conjunct2, rule_format, OF f(1) this] f(2) show ?thesis
    by (auto simp: automated_result_def decide_def move_stage_def)
qed

text \<open>
  The three stages whose entry cancels the interview rounds are
  not terminal: the seeded table leads from each of them back to \<open>INTERVIEW\<close>;
  and a HOLD recommendation of the AI layer moves a candidate who is at
  \<open>INTERVIEW\<close> or \<open>SHORTLISTED\<close>, not only one at \<open>SCREENING\<close>.
\<close>

theorem exit_stages_reenter_interview:
  "list_all (\<lambda>s. list_ex (\<lambda>p. table_reach seeded_rows (p, s) \<and> is_transition_allowed seeded_rows s INTERVIEW p)
       (map Some [INTERVIEW, SCREENING, HM_REVIEW])) interview_exit_stages
   \<and> fst (transition_on_ai_success 0 (blank_candidate 1 9 INTERVIEW (Some SHORTLISTED)) HOLD DT_HOLD ''AI'' None None None
       (example_db [blank_candidate 1 9 INTERVIEW (Some SHORTLISTED)]))
   \<and> fst (transition_on_ai_success 0 (blank_candidate 1 9 SHORTLISTED (Some SCREENING)) HOLD DT_HOLD ''AI'' None None None
       (example_db [blank_candidate 1 9 SHORTLISTED (Some SCREENING)]))"
proof (intro conjI)
  have "is_transition_allowed seeded_rows SHORTLISTED INTERVIEW (Some SCREENING)"
    "is_transition_allowed seeded_rows REJECTED INTERVIEW (Some INTERVIEW)"
    "is_transition_allowed seeded_rows SELECTED INTERVIEW (Some HM_REVIEW)"
    by code_simp+
  moreover have "table_reach seeded_rows (Some SCREENING, SHORTLISTED)"
    "table_reach seeded_rows (Some INTERVIEW, REJECTED)" "table_reach seeded_rows (Some HM_REVIEW, SELECTED)"
    unfolding seeded_reach_iff by (simp_all add: seeded_positions_def)
  ultimately show "list_all (\<lambda>s. list_ex (\<lambda>p. table_reach seeded_rows (p, s) \<and>
      is_transition_allowed seeded_rows s INTERVIEW p) (map Some [INTERVIEW, SCREENING, HM_REVIEW])) interview_exit_stages"
    by (simp add: interview_exit_stages_def)
qed code_simp+

end
