(* ===== verification/Pipeline_Moves.thy ===== *)
theory Pipeline_Moves
  imports Stage_Transition
begin

text \<open>
  The other writers of a candidate's stage:
  \<open>PipelineTransitionService\<close> (\<open>pipeline_transition_service.py\<close>) with the
  closing of a filled campaign, \<open>BulkStageMoveService\<close>
  (\<open>bulk_stage_move_service.py\<close>), \<open>OverrideRevertService\<close>
  (\<open>override_revert_service.py\<close>), and the stage override and the fraud flag of
  \<open>CampaignService\<close> (\<open>campaign_service.py\<close>).  The websocket notifications after
  the commits are not modelled.
\<close>

section \<open>Moves of the pipeline board\<close>

fun source_value :: "transition_source \<Rightarrow> role_name" where
  "source_value TS_SYSTEM = SYSTEM"
| "source_value TS_MANUAL = Other_Role ''MANUAL''"
| "source_value TS_TRIGGER = Other_Role ''TRIGGER''"
| "source_value TS_OVERRIDE = Other_Role ''OVERRIDE''"

text \<open>\<open>actor_role or source.value\<close>: an absent or empty role falls back to the source.\<close>

definition effective_role :: "role_name option \<Rightarrow> transition_source \<Rightarrow> role_name" where
  "effective_role role source =
     (case role of
        None \<Rightarrow> source_value source
      | Some r \<Rightarrow> if role_value r = [] then source_value source else r)"

definition truthy :: "string option \<Rightarrow> bool" where
  "truthy s = (case s of None \<Rightarrow> False | Some x \<Rightarrow> x \<noteq> [])"

definition close_if_filled :: "int \<Rightarrow> nat \<Rightarrow> string option \<Rightarrow> role_name option \<Rightarrow> hiring_db \<Rightarrow> bool \<times> hiring_db" where
  "close_if_filled now camp by role h =
     (case find_campaign camp h of
        None \<Rightarrow> (False, h)
      | Some ca \<Rightarrow>
          (case ca_max ca of
             None \<Rightarrow> (False, h)
           | Some m \<Rightarrow>
               if m = 0 then (False, h)
               else if ca_status ca = CS_CLOSED then (False, h)
               else if selected_count camp h < m then (False, h)
               else
                 let h1 = update_campaign_row camp (\<lambda>c. c\<lparr>ca_status := CS_CLOSED, ca_updated_at := Some now\<rparr>) h
                 in (True,
                     if by \<noteq> None
                     then audit by role ''CAMPAIGN_AUTO_CLOSED'' camp
                       [(''reason'', JStr ''ALL_POSITIONS_FILLED''), (''max_candidates'', JNum (of_int m)),
                        (''selected_count'', JNum (of_int m))] h1
                     else h1)))"

definition transition_stage ::
    "bool \<Rightarrow> int \<Rightarrow> nat \<Rightarrow> pipeline_stage \<Rightarrow> string option \<Rightarrow> role_name option \<Rightarrow> string option
     \<Rightarrow> transition_source \<Rightarrow> decision_type option \<Rightarrow> decision_source option \<Rightarrow> json_dict option
     \<Rightarrow> hiring_db \<Rightarrow> (transition_error, hiring_db) result" where
  "transition_stage has_campaign_repo now i to_stage by role reason source dt ds details h =
     (case find_candidate i h of
        None \<Rightarrow> Inl TE_Not_Found
      | Some cand \<Rightarrow>
          (case get_row (hd_rules h) (cc_stage cand) to_stage (cc_previous cand) of
             None \<Rightarrow> Inl (TE_Invalid (cc_stage cand) to_stage)
           | Some row \<Rightarrow>
               if effective_role role source \<notin> set (at_roles row)
               then Inl (TE_Forbidden (cc_stage cand) to_stage [effective_role role source])
               else if at_requires_reason row \<and> \<not> truthy reason
               then Inl (TE_Reason_Required (cc_stage cand) to_stage)
               else
                 let h1 = update_candidate i (move_stage (cc_stage cand) to_stage) h in
                 (case interview_hooks (cc_stage cand) to_stage i by
                         (Some (role_value (effective_role role source))) now h1 of
                    Inl e \<Rightarrow> Inl (TE_Database e)
                  | Inr h2 \<Rightarrow>
                      let h3 = (case dt of None \<Rightarrow> h2
                                | Some d \<Rightarrow> update_candidate i (decide d ds reason details by now) h2);
                          snap = (case dt of None \<Rightarrow> None
                                  | Some d \<Rightarrow> Some (decision_snapshot [] d ds reason details));
                          h4 = (if to_stage = SELECTED \<and> has_campaign_repo
                                then snd (close_if_filled now (cc_campaign cand) by role h3) else h3);
                          h5 = create_stage_history i (Some (cc_stage cand)) to_stage by reason source snap h4
                      in Inr (if by \<noteq> None
                              then audit by role ''PIPELINE_STAGE_TRANSITIONED'' i
                                [(''from_stage'', JStr (stage_value (cc_stage cand))),
                                 (''to_stage'', JStr (stage_value to_stage)),
                                 (''reason'', json_opt JStr reason)] h5
                              else h5))))"

section \<open>Manual moves, one or many\<close>

fun stage_decision :: "pipeline_stage \<Rightarrow> decision_type option" where
  "stage_decision SHORTLISTED = Some DT_SHORTLISTED"
| "stage_decision SELECTED = Some DT_SELECTED"
| "stage_decision REJECTED = Some DT_REJECTED"
| "stage_decision HOLD = Some DT_HOLD"
| "stage_decision FRAUD_REVIEW = Some DT_FRAUD_REVIEW"
| "stage_decision _ = None"

datatype move_error =
    ME_Unknown_Stage string
  | ME_None_In_Campaign
  | ME_Mixed_Stages "pipeline_stage list"
  | ME_Already_There
  | ME_Not_In_Campaign
  | ME_Move transition_error

fun move_all ::
    "bool \<Rightarrow> int \<Rightarrow> pipeline_stage \<Rightarrow> string \<Rightarrow> role_name option \<Rightarrow> string option \<Rightarrow> nat list \<Rightarrow> hiring_db
     \<Rightarrow> (transition_error, hiring_db) result" where
  "move_all cap now t by role reason [] h = Inr h"
| "move_all cap now t by role reason (i # is) h =
     res_bind (transition_stage cap now i t (Some by) role reason TS_MANUAL (stage_decision t) (Some DS_HR_ADMIN) None h)
       (move_all cap now t by role reason is)"

definition rescore_one :: "nat \<Rightarrow> hiring_db \<Rightarrow> hiring_db" where
  "rescore_one i h =
     (case find_candidate i h of None \<Rightarrow> h | Some c \<Rightarrow> snd (enqueue_manual_rescore c h))"

definition in_campaign :: "nat \<Rightarrow> hiring_db \<Rightarrow> nat \<Rightarrow> bool" where
  "in_campaign camp h i =
     (case find_candidate i h of None \<Rightarrow> False | Some c \<Rightarrow> cc_campaign c = camp)"

definition source_stages :: "hiring_db \<Rightarrow> nat list \<Rightarrow> pipeline_stage list" where
  "source_stages h is = remdups (List.map_filter (\<lambda>i. map_option cc_stage (find_candidate i h)) is)"

record bulk_result =
  br_moved :: nat
  br_from :: pipeline_stage
  br_to :: pipeline_stage
  br_skipped :: "nat list"

definition bulk_move ::
    "bool \<Rightarrow> int \<Rightarrow> nat \<Rightarrow> nat list \<Rightarrow> string \<Rightarrow> string \<Rightarrow> string \<Rightarrow> role_name option \<Rightarrow> hiring_db
     \<Rightarrow> (move_error, bulk_result \<times> hiring_db) result" where
  "bulk_move cap now camp ids target reason actor role h =
     (case parse_stage target of
        None \<Rightarrow> Inl (ME_Unknown_Stage target)
      | Some t \<Rightarrow>
          let chosen = filter (in_campaign camp h) ids;
              skipped = filter (\<lambda>i. \<not> in_campaign camp h i) ids
          in
          if chosen = [] then Inl ME_None_In_Campaign
          else if length (source_stages h chosen) > 1
          then Inl (ME_Mixed_Stages (sort (source_stages h chosen)))
          else
            let from_stage = hd (source_stages h chosen) in
            if from_stage = t then Inl ME_Already_There
            else
              (case move_all cap now t actor role (Some reason) chosen h of
                 Inl e \<Rightarrow> Inl (ME_Move e)
               | Inr h1 \<Rightarrow>
                   let h2 = audit (Some actor) role ''CANDIDATE_STAGE_OVERRIDDEN'' camp
                         [(''bulk'', JBool True), (''moved_count'', JNum (of_nat (length chosen))),
                          (''from_stage'', JStr (stage_value from_stage)), (''to_stage'', JStr (stage_value t)),
                          (''reason'', JStr reason), (''skipped_count'', JNum (of_nat (length skipped)))] h1;
                       h3 = (if t = SCREENING \<and> from_stage \<noteq> UPLOADED then fold rescore_one chosen h2 else h2)
                   in Inr (\<lparr>br_moved = length chosen, br_from = from_stage, br_to = t, br_skipped = skipped\<rparr>, h3)))"

definition move_one ::
    "bool \<Rightarrow> int \<Rightarrow> nat \<Rightarrow> nat \<Rightarrow> string \<Rightarrow> string option \<Rightarrow> string \<Rightarrow> role_name option \<Rightarrow> hiring_db
     \<Rightarrow> (move_error, (pipeline_stage \<times> pipeline_stage) \<times> hiring_db) result" where
  "move_one cap now camp i target reason actor role h =
     (case parse_stage target of
        None \<Rightarrow> Inl (ME_Unknown_Stage target)
      | Some t \<Rightarrow>
          (case find_candidate i h of
             None \<Rightarrow> Inl ME_Not_In_Campaign
           | Some c \<Rightarrow>
               if cc_campaign c \<noteq> camp then Inl ME_Not_In_Campaign
               else if cc_stage c = t then Inl ME_Already_There
               else
                 (case transition_stage cap now i t (Some actor) role reason TS_MANUAL (stage_decision t)
                         (Some DS_HR_ADMIN) None h of
                    Inl e \<Rightarrow> Inl (ME_Move e)
                  | Inr h1 \<Rightarrow>
                      let h2 = audit (Some actor) role ''CANDIDATE_STAGE_OVERRIDDEN'' i
                            [(''bulk'', JBool False), (''from_stage'', JStr (stage_value (cc_stage c))),
                             (''to_stage'', JStr (stage_value t)), (''reason'', json_opt JStr reason)] h1;
                          h3 = (if t = SCREENING \<and> cc_stage c \<noteq> UPLOADED then rescore_one i h2 else h2)
                      in Inr ((cc_stage c, t), h3))))"

definition reject_one ::
    "bool \<Rightarrow> int \<Rightarrow> nat \<Rightarrow> nat \<Rightarrow> string \<Rightarrow> string \<Rightarrow> role_name option \<Rightarrow> hiring_db
     \<Rightarrow> (move_error, (pipeline_stage \<times> pipeline_stage) \<times> hiring_db) result" where
  "reject_one cap now camp i reason actor role h =
     (case find_candidate i h of
        None \<Rightarrow> Inl ME_Not_In_Campaign
      | Some c \<Rightarrow>
          if cc_campaign c \<noteq> camp then Inl ME_Not_In_Campaign
          else if cc_stage c = REJECTED then Inl ME_Already_There
          else move_one cap now camp i (stage_value REJECTED) (Some reason) actor role h)"

definition get_allowed_transitions ::
    "nat \<Rightarrow> nat \<Rightarrow> role_name option \<Rightarrow> hiring_db \<Rightarrow> (move_error, (pipeline_stage \<times> bool) list) result" where
  "get_allowed_transitions camp i role h =
     (case find_candidate i h of
        None \<Rightarrow> Inl ME_Not_In_Campaign
      | Some c \<Rightarrow>
          if cc_campaign c \<noteq> camp then Inl ME_Not_In_Campaign
          else Inr (map (\<lambda>r. (at_to r, at_requires_reason r))
            (sort_key at_to (filter (\<lambda>r. case role of None \<Rightarrow> False | Some ro \<Rightarrow> ro \<in> set (at_roles r))
               (list_eligible (hd_rules h) (cc_stage c) (cc_previous c))))))"

section \<open>Clearing an override\<close>

datatype revert_error =
    RE_Not_Found | RE_No_Override | RE_Progressed pipeline_stage | RE_Not_Recorded | RE_Not_Recognised

definition cleared_details ::
    "string \<Rightarrow> int \<Rightarrow> string option \<Rightarrow> decision_type \<Rightarrow> decision_source \<Rightarrow> json_dict \<Rightarrow> json_dict" where
  "cleared_details reason now override_reason t s details =
     [(''override_cleared'', JBool True), (''override_cleared_reason'', JStr reason),
      (''override_cleared_at'', JTime now), (''cleared_override_reason'', json_opt JStr override_reason),
      (''restored_decision_type'', JStr (decision_type_value t)),
      (''restored_decision_source'', JStr (decision_source_value s)),
      (''restored_decision_reason'', json_get details ''overridden_decision_reason''),
      (''originally_decided_at'', json_get details ''overridden_decision_at'')]"

definition skip_ai_evaluation :: "nat \<Rightarrow> hiring_db \<Rightarrow> hiring_db" where
  "skip_ai_evaluation i h =
     (let (a, h1) = get_or_create_ai i h in
      if ae_status a \<in> set [AI_PENDING, AI_IN_PROGRESS]
      then update_ai i (\<lambda>a. a\<lparr>ae_status := AI_SKIPPED\<rparr>) h1 else h1)"

definition revert_override ::
    "bool \<Rightarrow> int \<Rightarrow> nat \<Rightarrow> string \<Rightarrow> string \<Rightarrow> role_name option \<Rightarrow> hiring_db \<Rightarrow> (revert_error, hiring_db) result" where
  "revert_override has_ai_repo now i reason actor role h =
     (case find_candidate i h of
        None \<Rightarrow> Inl RE_Not_Found
      | Some c \<Rightarrow>
          if cc_decision_type c \<noteq> Some DT_RESET then Inl RE_No_Override
          else if cc_stage c \<noteq> SCREENING then Inl (RE_Progressed (cc_stage c))
          else
            let details = (case cc_decision_details c of None \<Rightarrow> [] | Some d \<Rightarrow> d);
                ot = json_get details ''overridden_decision_type'';
                os = json_get details ''overridden_decision_source''
            in
            if \<not> json_truthy ot \<or> \<not> json_truthy os then Inl RE_Not_Recorded
            else
              (case (parse_decision_type ot, parse_decision_source os) of
                 (Some t, Some s) \<Rightarrow>
                   let h1 = update_candidate i (\<lambda>c. c\<lparr>cc_stage := REJECTED, cc_decision_type := Some t,
                         cc_decision_source := Some s,
                         cc_decision_reason := json_str (json_get details ''overridden_decision_reason''),
                         cc_decision_at := Some now, cc_decision_by := Some actor,
                         cc_decision_details := Some (cleared_details reason now (cc_decision_reason c) t s details),
                         cc_det_passed := (if s = DS_DETERMINISTIC then Some False else cc_det_passed c)\<rparr>) h;
                       h2 = (if has_ai_repo then skip_ai_evaluation i h1 else h1);
                       h3 = create_stage_history i (Some SCREENING) REJECTED (Some actor) (Some reason) TS_OVERRIDE None h2
                   in Inr (audit (Some actor) role ''CANDIDATE_STAGE_OVERRIDDEN'' i
                        [(''override_cleared'', JBool True), (''clear_reason'', JStr reason)] h3)
               | _ \<Rightarrow> Inl RE_Not_Recognised))"

section \<open>Stage override and fraud flag of the campaign service\<close>

fun override_next :: "pipeline_stage \<Rightarrow> pipeline_stage option" where
  "override_next UPLOADED = Some SCREENING"
| "override_next SCREENING = Some SHORTLISTED"
| "override_next SHORTLISTED = Some HM_REVIEW"
| "override_next HM_REVIEW = Some INTERVIEW"
| "override_next INTERVIEW = Some SELECTED"
| "override_next HOLD = Some HM_REVIEW"
| "override_next _ = None"

definition override_forbidden :: "pipeline_stage list" where
  "override_forbidden = [REJECTED, FRAUD_REVIEW, UPLOADED]"

datatype override_error =
    OE_No_Campaign | OE_No_Candidate | OE_Unknown_Stage string | OE_Forbidden_Target pipeline_stage
  | OE_Already_There | OE_No_Next pipeline_stage | OE_Database db_error

definition scores_of :: "campaign_candidate \<Rightarrow> hiring_db \<Rightarrow> json_dict" where
  "scores_of c h =
     [(''composite_score'', json_opt JNum (cc_composite c)),
      (''deterministic_score'', json_opt JNum (cc_det_score c)),
      (''semantic_score'', json_opt JNum (cc_sem_score c)),
      (''ai_ats_score'', (case find (\<lambda>a. ae_candidate a = cc_id c) (hd_ai h) of
          None \<Rightarrow> JNull | Some a \<Rightarrow> json_opt JNum (ae_effective a))),
      (''decision_type'', json_opt (\<lambda>t. JStr (decision_type_value t)) (cc_decision_type c)),
      (''decision_source'', json_opt (\<lambda>s. JStr (decision_source_value s)) (cc_decision_source c)),
      (''decision_reason'', json_opt JStr (cc_decision_reason c)),
      (''decision_details'', json_opt JObj (cc_decision_details c))]"

definition transition_candidate_stage ::
    "campaign_candidate \<Rightarrow> pipeline_stage \<Rightarrow> string \<Rightarrow> string \<Rightarrow> transition_source \<Rightarrow> bool \<Rightarrow> hiring_db \<Rightarrow> hiring_db" where
  "transition_candidate_stage c t by reason source fraud h =
     create_stage_history (cc_id c) (Some (cc_stage c)) t (Some by) (Some reason) source (Some (scores_of c h))
       (update_candidate (cc_id c)
          (\<lambda>x. x\<lparr>cc_stage := t, cc_is_fraud := (if fraud then True else cc_is_fraud x)\<rparr>) h)"

definition stalled_candidate :: "nat \<Rightarrow> nat \<Rightarrow> hiring_db \<Rightarrow> (override_error, campaign_candidate) result" where
  "stalled_candidate camp i h =
     (case find_campaign camp h of
        None \<Rightarrow> Inl OE_No_Campaign
      | Some ca \<Rightarrow>
          (case find_candidate i h of
             None \<Rightarrow> Inl OE_No_Candidate
           | Some c \<Rightarrow> if cc_campaign c \<noteq> camp then Inl OE_No_Candidate else Inr c))"

definition override_target ::
    "campaign_candidate \<Rightarrow> string option \<Rightarrow> (override_error, pipeline_stage) result" where
  "override_target c requested =
     (case (if truthy requested then requested else None) of
        Some s \<Rightarrow>
          (case parse_stage s of
             None \<Rightarrow> Inl (OE_Unknown_Stage s)
           | Some t \<Rightarrow> if t \<in> set override_forbidden then Inl (OE_Forbidden_Target t)
                       else if t = cc_stage c then Inl OE_Already_There else Inr t)
      | None \<Rightarrow>
          (case override_next (cc_stage c) of None \<Rightarrow> Inl (OE_No_Next (cc_stage c)) | Some t \<Rightarrow> Inr t))"

definition override_candidate_stage ::
    "int \<Rightarrow> nat \<Rightarrow> nat \<Rightarrow> string option \<Rightarrow> string \<Rightarrow> string \<Rightarrow> role_name option \<Rightarrow> hiring_db
     \<Rightarrow> (override_error, (pipeline_stage \<times> pipeline_stage) \<times> hiring_db) result" where
  "override_candidate_stage now camp i requested reason actor role h =
     res_bind (stalled_candidate camp i h) (\<lambda>c.
     res_bind (override_target c requested) (\<lambda>t.
       let h1 = transition_candidate_stage c t actor reason TS_OVERRIDE False h in
       (case interview_hooks (cc_stage c) t i (Some actor) (map_option role_value role) now h1 of
          Inl e \<Rightarrow> Inl (OE_Database e)
        | Inr h2 \<Rightarrow>
            let h3 = audit (Some actor) role ''CANDIDATE_STAGE_OVERRIDDEN'' i
                  [(''from_stage'', JStr (stage_value (cc_stage c))), (''to_stage'', JStr (stage_value t)),
                   (''reason'', JStr reason)] h2;
                h4 = (if t = SELECTED then snd (close_if_filled now camp (Some actor) role h3) else h3);
                h5 = (if t = SCREENING \<and> cc_stage c \<noteq> UPLOADED then rescore_one i h4 else h4)
            in Inr ((cc_stage c, t), h5))))"

definition flag_candidate_for_review ::
    "nat \<Rightarrow> nat \<Rightarrow> string \<Rightarrow> string \<Rightarrow> role_name option \<Rightarrow> hiring_db
     \<Rightarrow> (override_error, (pipeline_stage \<times> pipeline_stage) \<times> hiring_db) result" where
  "flag_candidate_for_review camp i reason actor role h =
     res_bind (stalled_candidate camp i h) (\<lambda>c.
       if cc_stage c = FRAUD_REVIEW then Inl OE_Already_There
       else
         let h1 = transition_candidate_stage c FRAUD_REVIEW actor reason TS_MANUAL True h
         in Inr ((cc_stage c, FRAUD_REVIEW),
              audit (Some actor) role ''CANDIDATE_FLAGGED_FOR_REVIEW'' i
                [(''from_stage'', JStr (stage_value (cc_stage c))), (''reason'', JStr reason)] h1))"

end
