(* ===== verification/Pipeline_Moves_Props.thy ===== *)
theory Pipeline_Moves_Props
  imports Pipeline_Moves Stage_Transition_Props
begin

text \<open>
  What the pipeline board, the batch moves, the override and its reverse
  guarantee, and where they leave a candidate that the table cannot move.
\<close>

section \<open>Effect of a board move\<close>

lemma close_if_filled_frame:
  "hd_candidates (snd (close_if_filled now camp by role h)) = hd_candidates h"
  "hd_rules (snd (close_if_filled now camp by role h)) = hd_rules h"
  "hd_interviews (snd (close_if_filled now camp by role h)) = hd_interviews h"
  "hd_log (snd (close_if_filled now camp by role h)) = hd_log h"
  "hd_history (snd (close_if_filled now camp by role h)) = hd_history h"
  by (auto simp: close_if_filled_def Let_def update_campaign_row_def audit_def split: option.splits)

lemma transition_stage_cases:
  assumes "transition_stage cap now i t by role reason source dt ds details h = Inr h'"
  obtains cand row h2 where
    "find_candidate i h = Some cand"
    "get_row (hd_rules h) (cc_stage cand) t (cc_previous cand) = Some row"
    "effective_role role source \<in> set (at_roles row)"
    "at_requires_reason row \<longrightarrow> truthy reason"
    "interview_hooks (cc_stage cand) t i by (Some (role_value (effective_role role source))) now
       (update_candidate i (move_stage (cc_stage cand) t) h) = Inr h2"
    "hd_candidates h' = hd_candidates (case dt of None \<Rightarrow> h2
        | Some d \<Rightarrow> update_candidate i (decide d ds reason details by now) h2)"
    "hd_rules h' = hd_rules h" "hd_interviews h' = hd_interviews h2" "hd_log h' = hd_log h"
    "length (hd_history h') = Suc (length (hd_history h))"
    "hd_campaigns h' = hd_campaigns (if t = SELECTED \<and> cap then snd (close_if_filled now (cc_campaign cand) by role
        (case dt of None \<Rightarrow> h2 | Some d \<Rightarrow> update_candidate i (decide d ds reason details by now) h2)) else h2)"
proof -
  obtain cand where cand: "find_candidate i h = Some cand"
    using assms by (cases "find_candidate i h") (simp_all add: transition_stage_def)
  obtain row where row: "get_row (hd_rules h) (cc_stage cand) t (cc_previous cand) = Some row"
    using assms cand by (cases "get_row (hd_rules h) (cc_stage cand) t (cc_previous cand)")
      (simp_all add: transition_stage_def)
  have role: "effective_role role source \<in> set (at_roles row)"
    and reason: "at_requires_reason row \<longrightarrow> truthy reason"
    using assms cand row by (auto simp: transition_stage_def split: if_splits)
  have given: "(at_requires_reason row \<and> \<not> truthy reason) = False" using reason by blast
  obtain h2 where hooks: "interview_hooks (cc_stage cand) t i by (Some (role_value (effective_role role source))) now
       (update_candidate i (move_stage (cc_stage cand) t) h) = Inr h2"
    using assms cand row role
    by (cases "interview_hooks (cc_stage cand) t i by (Some (role_value (effective_role role source))) now
       (update_candidate i (move_stage (cc_stage cand) t) h)") (simp_all add: transition_stage_def Let_def given)
  define h3 where "h3 = (case dt of None \<Rightarrow> h2
        | Some d \<Rightarrow> update_candidate i (decide d ds reason details by now) h2)"
  define h4 where "h4 = (if t = SELECTED \<and> cap then snd (close_if_filled now (cc_campaign cand) by role h3) else h3)"
  define h5 where "h5 = create_stage_history i (Some (cc_stage cand)) t by reason source
      (case dt of None \<Rightarrow> None | Some d \<Rightarrow> Some (decision_snapshot [] d ds reason details)) h4"
  have "transition_stage cap now i t by role reason source dt ds details h = Inr (if by \<noteq> None then audit by role ''PIPELINE_STAGE_TRANSITIONED'' i
        [(''from_stage'', JStr (stage_value (cc_stage cand))), (''to_stage'', JStr (stage_value t)),
         (''reason'', json_opt JStr reason)] h5 else h5)"
    by (simp add: transition_stage_def Let_def given h3_def h4_def h5_def cand row role hooks)
  with assms have h': "h' = (if by \<noteq> None then audit by role ''PIPELINE_STAGE_TRANSITIONED'' i
        [(''from_stage'', JStr (stage_value (cc_stage cand))), (''to_stage'', JStr (stage_value t)),
         (''reason'', json_opt JStr reason)] h5 else h5)"
    by (simp only: sum.inject)
  note f2 = same_but_interviewsD[OF hooks_frame[OF hooks]]
  have f3: "hd_rules h3 = hd_rules h2" "hd_interviews h3 = hd_interviews h2" "hd_log h3 = hd_log h2"
    "hd_history h3 = hd_history h2" "hd_campaigns h3 = hd_campaigns h2"
    by (simp_all add: h3_def split: option.splits)
  have f4: "hd_candidates h4 = hd_candidates h3" "hd_rules h4 = hd_rules h3"
    "hd_interviews h4 = hd_interviews h3" "hd_log h4 = hd_log h3" "hd_history h4 = hd_history h3"
    by (simp_all add: h4_def close_if_filled_frame)
  have hist5: "length (hd_history h5) = Suc (length (hd_history h4))"
    by (simp add: h5_def create_stage_history_def add_stage_history_def Let_def)
  have f5: "hd_candidates h5 = hd_candidates h4" "hd_rules h5 = hd_rules h4"
    "hd_interviews h5 = hd_interviews h4" "hd_log h5 = hd_log h4" "hd_campaigns h5 = hd_campaigns h4"
    by (simp_all add: h5_def)
  have fin: "hd_candidates h' = hd_candidates h5" "hd_rules h' = hd_rules h5"
    "hd_interviews h' = hd_interviews h5" "hd_log h' = hd_log h5" "hd_campaigns h' = hd_campaigns h5"
    "hd_history h' = hd_history h5"
    by (simp_all add: h')
  show thesis
  proof (rule that[OF cand row role reason hooks])
    show "hd_candidates h' = hd_candidates (case dt of None \<Rightarrow> h2
        | Some d \<Rightarrow> update_candidate i (decide d ds reason details by now) h2)"
      using fin f5 f4 by (simp add: h3_def)
    show "hd_rules h' = hd_rules h" "hd_interviews h' = hd_interviews h2" "hd_log h' = hd_log h"
      using fin f5 f4 f3 f2 by simp_all
    show "length (hd_history h') = Suc (length (hd_history h))"
      using fin hist5 f4 f3 f2 by simp
    show "hd_campaigns h' = hd_campaigns (if t = SELECTED \<and> cap then snd (close_if_filled now (cc_campaign cand) by role
        (case dt of None \<Rightarrow> h2 | Some d \<Rightarrow> update_candidate i (decide d ds reason details by now) h2)) else h2)"
      using fin f5 by (simp add: h4_def f3(5) h3_def[symmetric])
  qed
qed

lemma transition_stage_written:
  assumes "transition_stage cap now i t by role reason source dt ds details h = Inr h'"
    and "find_candidate i h = Some cand"
  shows "\<exists>h2. interview_hooks (cc_stage cand) t i by (Some (role_value (effective_role role source))) now
         (update_candidate i (move_stage (cc_stage cand) t) h) = Inr h2
     \<and> hd_candidates h' = hd_candidates (case dt of None \<Rightarrow> h2
        | Some d \<Rightarrow> update_candidate i (decide d ds reason details by now) h2)"
  using assms(1)
proof (rule transition_stage_cases, goal_cases)
  case (1 cand' row h2)
  then have "cand' = cand" using assms(2) by simp
  with 1 show ?case by blast
qed

lemma transition_stage_position:
  assumes "transition_stage cap now i t by role reason source dt ds details h = Inr h'"
    and "find_candidate i h = Some cand"
  shows "\<exists>c. find_candidate i h' = Some c \<and> cc_stage c = t \<and> cc_previous c = Some (cc_stage cand)
           \<and> cc_campaign c = cc_campaign cand \<and> (\<forall>d. dt = Some d \<longrightarrow> cc_decision_type c = dt \<and> cc_decision_source c = ds)"
    and "j \<noteq> i \<Longrightarrow> find_candidate j h' = find_candidate j h"
    and "map cc_id (hd_candidates h') = map cc_id (hd_candidates h)"
proof -
  obtain h2 where
    hooks: "interview_hooks (cc_stage cand) t i by (Some (role_value (effective_role role source))) now
       (update_candidate i (move_stage (cc_stage cand) t) h) = Inr h2" and
    cands: "hd_candidates h' = hd_candidates (case dt of None \<Rightarrow> h2
        | Some d \<Rightarrow> update_candidate i (decide d ds reason details by now) h2)"
    using transition_stage_written[OF assms] by blast
  have idm: "cc_id (move_stage f t x) = cc_id x" for f x by (simp add: move_stage_def)
  have idd: "cc_id (decide d ds reason details by now x) = cc_id x" for d x by (simp add: decide_def)
  have h2: "find_candidate k h2 = (if k = i then Some (move_stage (cc_stage cand) t cand) else find_candidate k h)" for k
  proof -
    have "find_candidate k h2 = find_candidate k (update_candidate i (move_stage (cc_stage cand) t) h)"
      by (rule find_candidate_cong) (rule same_but_interviewsD(2)[OF hooks_frame[OF hooks]])
    then show ?thesis using find_candidate_update[of "move_stage (cc_stage cand) t" k i h, OF idm] assms(2) by simp
  qed
  have h': "find_candidate k h' = (case dt of None \<Rightarrow> find_candidate k h2
      | Some d \<Rightarrow> find_candidate k (update_candidate i (decide d ds reason details by now) h2))" for k
    using cands by (simp add: find_candidate_def split: option.splits)
  have upd: "find_candidate k (update_candidate i (decide d ds reason details by now) h2) =
      (if k = i then map_option (decide d ds reason details by now) (find_candidate i h2) else find_candidate k h2)" for k d
    by (rule find_candidate_update) (rule idd)
  show "\<exists>c. find_candidate i h' = Some c \<and> cc_stage c = t \<and> cc_previous c = Some (cc_stage cand)
           \<and> cc_campaign c = cc_campaign cand \<and> (\<forall>d. dt = Some d \<longrightarrow> cc_decision_type c = dt \<and> cc_decision_source c = ds)"
    using h'[of i] h2[of i] upd[of i]
    by (auto simp: move_stage_def decide_def split: option.splits)
  show "find_candidate j h' = find_candidate j h" if "j \<noteq> i"
    using h'[of j] h2[of j] upd[of j] that by (simp split: option.splits)
  have ids2: "map cc_id (hd_candidates h2) = map cc_id (hd_candidates h)"
    using same_but_interviewsD(2)[OF hooks_frame[OF hooks]]
      update_candidate_ids[of "move_stage (cc_stage cand) t" i h, OF idm] by simp
  have "map cc_id (hd_candidates (update_candidate i (decide d ds reason details by now) h2)) =
      map cc_id (hd_candidates h2)" for d
    by (rule update_candidate_ids) (rule idd)
  then show "map cc_id (hd_candidates h') = map cc_id (hd_candidates h)"
    using cands ids2 by (simp split: option.splits)
qed

section \<open>Properties of the board moves\<close>

lemma board_move_governed_parts:
  assumes wf: "wf_hiring h" and inv: "interview_invariant h"
    and run: "transition_stage cap now i t by role reason source dt ds details h = Inr h'"
  shows "\<exists>cand row. find_candidate i h = Some cand
      \<and> get_row (hd_rules h) (cc_stage cand) t (cc_previous cand) = Some row
      \<and> effective_role role source \<in> set (at_roles row) \<and> (at_requires_reason row \<longrightarrow> truthy reason)
      \<and> (\<exists>c. find_candidate i h' = Some c \<and> cc_stage c = t \<and> cc_previous c = Some (cc_stage cand))
      \<and> (cc_stage cand = INTERVIEW \<and> t \<in> set interview_exit_stages \<longrightarrow> \<not> live_round i (hd_interviews h'))"
    and "j \<noteq> i \<Longrightarrow> find_candidate j h' = find_candidate j h"
    and "wf_hiring h' \<and> interview_invariant h' \<and> hd_log h' = hd_log h
      \<and> length (hd_history h') = Suc (length (hd_history h))"
proof -
  from run obtain cand row h2 where c:
    "find_candidate i h = Some cand" "get_row (hd_rules h) (cc_stage cand) t (cc_previous cand) = Some row"
    "effective_role role source \<in> set (at_roles row)" "at_requires_reason row \<longrightarrow> truthy reason"
    "interview_hooks (cc_stage cand) t i by (Some (role_value (effective_role role source))) now
       (update_candidate i (move_stage (cc_stage cand) t) h) = Inr h2"
    "hd_rules h' = hd_rules h" "hd_interviews h' = hd_interviews h2" "hd_log h' = hd_log h"
    "length (hd_history h') = Suc (length (hd_history h))"
    by (rule transition_stage_cases)
  note pos = transition_stage_position[OF run c(1)]
  have w: "wf_interviews (hd_interviews (update_candidate i (move_stage (cc_stage cand) t) h))"
    using wf by (simp add: wf_hiring_def)
  note hooks = hooks_interviews[OF w c(5)]
  have wf': "wf_hiring h'" using wf hooks(1) pos(3) c(6,7) by (simp add: wf_hiring_def)
  have "has_round k (hd_interviews h')" if "find_candidate k h' = Some x" "cc_stage x = INTERVIEW" for k x
  proof (cases "k = i")
    case True
    then show ?thesis using that pos(1) hooks(2)[of i] c(7) by auto
  next
    case False
    then have "find_candidate k h = Some x" using that pos(2) by simp
    then have "has_round k (hd_interviews h)"
      using inv that(2) find_candidate_Some by (fastforce simp: interview_invariant_def)
    then show ?thesis using hooks(2)[of k] c(7) by simp
  qed
  then have "interview_invariant h'"
    using interview_invariant_alt[of h'] wf' by (auto simp: wf_hiring_def)
  then show "wf_hiring h' \<and> interview_invariant h' \<and> hd_log h' = hd_log h
      \<and> length (hd_history h') = Suc (length (hd_history h))"
    using wf' c(8,9) by blast
  show "find_candidate j h' = find_candidate j h" if "j \<noteq> i" by (rule pos(2)[OF that])
  show "\<exists>cand row. find_candidate i h = Some cand
      \<and> get_row (hd_rules h) (cc_stage cand) t (cc_previous cand) = Some row
      \<and> effective_role role source \<in> set (at_roles row) \<and> (at_requires_reason row \<longrightarrow> truthy reason)
      \<and> (\<exists>c. find_candidate i h' = Some c \<and> cc_stage c = t \<and> cc_previous c = Some (cc_stage cand))
      \<and> (cc_stage cand = INTERVIEW \<and> t \<in> set interview_exit_stages \<longrightarrow> \<not> live_round i (hd_interviews h'))"
    using c(1-4,7) pos(1) hooks(3) by (intro exI[of _ cand] exI[of _ row]) auto
qed

text \<open>
  Property C7.  A board move is governed like \<open>transition\<close>: a row of the table
  for the candidate's stage and previous stage exists, it lists the effective
  role, and a reason is there where the row wants one.  It advances
  \<open>previous_stage\<close>, keeps the campaign, writes one history row, leaves the other
  candidates alone, keeps the interview invariant, and ends the active rounds of
  a candidate who leaves \<open>INTERVIEW\<close> for good.  It writes no row of the
  transition log.
\<close>

theorem board_move_governed:
  assumes wf: "wf_hiring h" and inv: "interview_invariant h"
    and run: "transition_stage cap now i t by role reason source dt ds details h = Inr h'"
  shows "(\<exists>cand row. find_candidate i h = Some cand
      \<and> get_row (hd_rules h) (cc_stage cand) t (cc_previous cand) = Some row
      \<and> effective_role role source \<in> set (at_roles row) \<and> (at_requires_reason row \<longrightarrow> truthy reason)
      \<and> (\<exists>c. find_candidate i h' = Some c \<and> cc_stage c = t \<and> cc_previous c = Some (cc_stage cand))
      \<and> (cc_stage cand = INTERVIEW \<and> t \<in> set interview_exit_stages \<longrightarrow> \<not> live_round i (hd_interviews h')))
     \<and> (j \<noteq> i \<longrightarrow> find_candidate j h' = find_candidate j h)
     \<and> (wf_hiring h' \<and> interview_invariant h' \<and> hd_log h' = hd_log h
      \<and> length (hd_history h') = Suc (length (hd_history h)))"
  by (rule conjI, rule board_move_governed_parts(1)[OF assms], rule conjI, (rule impI)+,
      rule board_move_governed_parts(2)[OF assms], assumption+,
      rule board_move_governed_parts(3)[OF assms])

lemma shortlisted_db_wf: "wf_hiring shortlisted_db" "interview_invariant shortlisted_db"
  by (simp_all add: wf_hiring_def shortlisted_db_def example_db_def blank_candidate_def seeded_unique
      wf_empty interview_invariant_def)

lemma is_ok_Inr: "is_ok r \<Longrightarrow> \<exists>x. r = Inr x"
  by (cases r) simp_all

lemma board_move_governed_witness:
  "\<exists>h'. transition_stage True 0 1 INTERVIEW (Some ''rec'') (Some RECRUITER) None TS_MANUAL None None None shortlisted_db = Inr h'
     \<and> interview_invariant h' \<and> hd_log h' = []"
proof -
  have "is_ok (transition_stage True 0 1 INTERVIEW (Some ''rec'') (Some RECRUITER) None TS_MANUAL None None None shortlisted_db)"
    by code_simp
  then obtain h' where run:
    "transition_stage True 0 1 INTERVIEW (Some ''rec'') (Some RECRUITER) None TS_MANUAL None None None shortlisted_db = Inr h'"
    using is_ok_Inr by blast
  have "hd_log shortlisted_db = []" by (simp add: shortlisted_db_def example_db_def)
  with board_move_governed[THEN conjunct2, THEN conjunct2, rule_format, OF shortlisted_db_wf run] run show ?thesis by auto
qed

section \<open>Batch moves\<close>

lemma rescore_one_stage:
  "map_option cc_stage (find_candidate j (rescore_one i h)) = map_option cc_stage (find_candidate j h)"
  "j \<noteq> i \<Longrightarrow> find_candidate j (rescore_one i h) = find_candidate j h"
proof -
  have "map_option cc_stage (find_candidate j (rescore_one i h)) = map_option cc_stage (find_candidate j h)
      \<and> (j \<noteq> i \<longrightarrow> find_candidate j (rescore_one i h) = find_candidate j h)"
  proof (cases "find_candidate i h")
    case None
    then show ?thesis by (simp add: rescore_one_def)
  next
    case (Some c)
    obtain b h' where run: "enqueue_manual_rescore c h = (b, h')" by (metis surj_pair)
    have "cc_id c = i" using find_candidate_Some[OF Some] by simp
    with rescore_frame(7)[OF run, of j] Some run show ?thesis
      by (simp add: rescore_one_def option.map_comp comp_def rescore_keeps_position)
  qed
  then show "map_option cc_stage (find_candidate j (rescore_one i h)) = map_option cc_stage (find_candidate j h)"
    "j \<noteq> i \<Longrightarrow> find_candidate j (rescore_one i h) = find_candidate j h"
    by blast+
qed

lemma rescore_all_stage:
  "map_option cc_stage (find_candidate j (fold rescore_one is h)) = map_option cc_stage (find_candidate j h)"
  "j \<notin> set is \<Longrightarrow> find_candidate j (fold rescore_one is h) = find_candidate j h"
  by (induction "is" arbitrary: h) (simp_all add: rescore_one_stage)

lemma move_all_positions:
  "move_all cap now t by role reason is h = Inr h' \<Longrightarrow>
     (\<forall>i\<in>set is. map_option cc_stage (find_candidate i h') = Some t) \<and>
     (\<forall>j. j \<notin> set is \<longrightarrow> find_candidate j h' = find_candidate j h)"
proof (induction "is" arbitrary: h)
  case (Cons i "is")
  from Cons.prems obtain h1 where
    one: "transition_stage cap now i t (Some by) role reason TS_MANUAL (stage_decision t) (Some DS_HR_ADMIN) None h = Inr h1"
    and rest: "move_all cap now t by role reason is h1 = Inr h'"
    by (auto simp: res_bind_Inr_iff)
  obtain c where c: "find_candidate i h = Some c"
    using one by (cases "find_candidate i h") (simp_all add: transition_stage_def)
  note pos = transition_stage_position[OF one c]
  note ih = Cons.IH[OF rest]
  show ?case
  proof (intro conjI ballI allI impI)
    fix k assume "k \<in> set (i # is)"
    then show "map_option cc_stage (find_candidate k h') = Some t"
      using ih pos(1) by (cases "k \<in> set is") auto
  next
    fix j assume "j \<notin> set (i # is)"
    then show "find_candidate j h' = find_candidate j h" using ih pos(2)[of j] by simp
  qed
qed simp

lemma source_stages_set:
  "set (source_stages h is) = {cc_stage c | i c. i \<in> set is \<and> find_candidate i h = Some c}"
  by (force simp: source_stages_def List.map_filter_def image_iff)

lemma source_stages_single:
  assumes "length (source_stages h is) \<le> 1" "i \<in> set is" "find_candidate i h = Some c"
  shows "cc_stage c = hd (source_stages h is)"
proof -
  have "cc_stage c \<in> set (source_stages h is)" using assms(2,3) by (auto simp: source_stages_set)
  with assms(1) show ?thesis by (cases "source_stages h is") auto
qed

text \<open>
  Property C2.  A batch move that succeeds moves every listed candidate of the
  campaign and nobody else: they all stood at one common stage, different from
  the target, they all stand at the target afterwards, the ids not in the
  campaign are reported as skipped, and no other candidate changes.  (A batch
  with one refused move returns that error and moves nobody.)
\<close>

theorem bulk_move_all_or_nothing:
  assumes "bulk_move cap now camp ids target reason actor role h = Inr (res, h')"
  shows "parse_stage target = Some (br_to res) \<and> br_from res \<noteq> br_to res
      \<and> (\<forall>i\<in>set ids. in_campaign camp h i \<longrightarrow>
            map_option cc_stage (find_candidate i h) = Some (br_from res) \<and>
            map_option cc_stage (find_candidate i h') = Some (br_to res))
      \<and> (\<forall>j. j \<notin> set ids \<or> \<not> in_campaign camp h j \<longrightarrow> find_candidate j h' = find_candidate j h)
      \<and> br_moved res + length (br_skipped res) = length ids
      \<and> set (br_skipped res) = {i \<in> set ids. \<not> in_campaign camp h i}"
proof -
  let ?chosen = "filter (in_campaign camp h) ids"
  let ?from = "hd (source_stages h ?chosen)"
  obtain t where t: "parse_stage target = Some t"
    using assms by (cases "parse_stage target") (simp_all add: bulk_move_def)
  have ne: "?chosen \<noteq> []" and len: "length (source_stages h ?chosen) \<le> 1" and ft: "?from \<noteq> t"
    using assms t by (auto simp: bulk_move_def Let_def split: if_splits)
  obtain h1 where mv: "move_all cap now t actor role (Some reason) ?chosen h = Inr h1"
    using assms t ne len ft by (cases "move_all cap now t actor role (Some reason) ?chosen h")
      (auto simp: bulk_move_def Let_def split: if_splits)
  obtain act det where h': "h' = (if t = SCREENING \<and> ?from \<noteq> UPLOADED
      then fold rescore_one ?chosen (audit (Some actor) role act camp det h1)
      else audit (Some actor) role act camp det h1)"
    and res: "res = \<lparr>br_moved = length ?chosen, br_from = ?from, br_to = t,
        br_skipped = filter (\<lambda>i. \<not> in_campaign camp h i) ids\<rparr>"
    using assms t ne len ft mv by (auto simp: bulk_move_def Let_def split: if_splits)
  note mp = move_all_positions[OF mv]
  have a: "find_candidate j (audit (Some actor) role act camp det h1) = find_candidate j h1" for j
    by (rule find_candidate_cong) simp
  have stage: "map_option cc_stage (find_candidate j h') = map_option cc_stage (find_candidate j h1)" for j
    by (simp add: h' rescore_all_stage(1) a)
  have other: "j \<notin> set ?chosen \<Longrightarrow> find_candidate j h' = find_candidate j h1" for j
    by (simp add: h' rescore_all_stage(2) a)
  have from_all: "map_option cc_stage (find_candidate i h) = Some ?from" if "i \<in> set ?chosen" for i
  proof -
    note chosen = that
    from chosen have "in_campaign camp h i" by simp
    then obtain c where "find_candidate i h = Some c"
      by (auto simp: in_campaign_def split: option.splits)
    with source_stages_single[OF len chosen] show ?thesis by simp
  qed
  show ?thesis
  proof (intro conjI)
    show "parse_stage target = Some (br_to res)" "br_from res \<noteq> br_to res" using t ft res by simp_all
    show "\<forall>i\<in>set ids. in_campaign camp h i \<longrightarrow>
            map_option cc_stage (find_candidate i h) = Some (br_from res) \<and>
            map_option cc_stage (find_candidate i h') = Some (br_to res)"
      using from_all mp stage res by simp
    show "\<forall>j. j \<notin> set ids \<or> \<not> in_campaign camp h j \<longrightarrow> find_candidate j h' = find_candidate j h"
      using other mp by auto
    show "br_moved res + length (br_skipped res) = length ids"
      using res sum_length_filter_compl[of "in_campaign camp h" ids] by simp
    show "set (br_skipped res) = {i \<in> set ids. \<not> in_campaign camp h i}" using res by auto
  qed
qed

definition two_shortlisted :: hiring_db where
  "two_shortlisted = example_db [blank_candidate 1 9 SHORTLISTED (Some SCREENING),
     blank_candidate 2 9 SHORTLISTED (Some HOLD), blank_candidate 3 8 SHORTLISTED (Some SCREENING)]"

lemma bulk_move_all_or_nothing_witness:
  "\<exists>res h'. bulk_move True 0 9 [1, 2, 3, 4] ''HM_REVIEW'' ''next round'' ''rec'' (Some RECRUITER) two_shortlisted = Inr (res, h')
     \<and> map_option cc_stage (find_candidate 2 h') = Some HM_REVIEW
     \<and> find_candidate 3 h' = find_candidate 3 two_shortlisted"
proof -
  have "is_ok (bulk_move True 0 9 [1, 2, 3, 4] ''HM_REVIEW'' ''next round'' ''rec'' (Some RECRUITER) two_shortlisted)"
    by code_simp
  then obtain res h' where run:
    "bulk_move True 0 9 [1, 2, 3, 4] ''HM_REVIEW'' ''next round'' ''rec'' (Some RECRUITER) two_shortlisted = Inr (res, h')"
    using is_ok_Inr by fastforce
  note p = bulk_move_all_or_nothing[OF run]
  have "parse_stage ''HM_REVIEW'' = Some HM_REVIEW" by code_simp
  moreover have "in_campaign 9 two_shortlisted 2" "\<not> in_campaign 9 two_shortlisted 3" by code_simp+
  ultimately have "map_option cc_stage (find_candidate 2 h') = Some HM_REVIEW"
    "find_candidate 3 h' = find_candidate 3 two_shortlisted"
    using p by auto
  with run show ?thesis by blast
qed

end
