(* ===== verification/Pipeline_Outcomes.thy ===== *)
theory Pipeline_Outcomes
  imports Pipeline_Moves_Props
begin

text \<open>
  Where the writers of a stage leave a candidate: the menu offered to a user is
  what a move accepts, the closing of a filled campaign, an override and its
  reverse, and the writers that leave \<open>previous_stage\<close> behind.
\<close>

section \<open>The menu and the move\<close>

lemma transition_stage_accepts:
  assumes wf: "wf_hiring h" and cand: "find_candidate i h = Some cand"
    and row: "get_row (hd_rules h) (cc_stage cand) t (cc_previous cand) = Some row"
    and role: "effective_role role source \<in> set (at_roles row)"
    and reason: "at_requires_reason row \<longrightarrow> truthy reason"
  shows "is_ok (transition_stage cap now i t (Some by) role reason source dt ds details h)"
proof -
  have given: "(at_requires_reason row \<and> \<not> truthy reason) = False" using reason by blast
  have "wf_interviews (hd_interviews (update_candidate i (move_stage (cc_stage cand) t) h))"
    using wf by (simp add: wf_hiring_def)
  from hooks_total[OF this] obtain h2 where
    hooks: "interview_hooks (cc_stage cand) t i (Some by) (Some (role_value (effective_role role source))) now
       (update_candidate i (move_stage (cc_stage cand) t) h) = Inr h2"
    by blast
  show ?thesis
    by (simp add: transition_stage_def Let_def given cand row role hooks)
qed

lemma move_one_ok_iff:
  assumes cand: "find_candidate i h = Some cand" and camp: "cc_campaign cand = camp" and move: "cc_stage cand \<noteq> t"
  shows "is_ok (move_one cap now camp i (stage_value t) reason actor role h) \<longleftrightarrow>
     is_ok (transition_stage cap now i t (Some actor) role reason TS_MANUAL (stage_decision t) (Some DS_HR_ADMIN) None h)"
  using assms
  by (cases "transition_stage cap now i t (Some actor) role reason TS_MANUAL (stage_decision t) (Some DS_HR_ADMIN) None h")
    (simp_all add: move_one_def Let_def)

lemma menu_is_what_a_move_accepts_parts:
  assumes wf: "wf_hiring h" and cand: "find_candidate i h = Some cand" and camp: "cc_campaign cand = camp"
    and role: "role_value ro \<noteq> []"
    and menu: "get_allowed_transitions camp i (Some ro) h = Inr menu"
  shows "is_ok (move_one cap now camp i (stage_value t) reason actor (Some ro) h) \<longleftrightarrow>
      cc_stage cand \<noteq> t \<and> (\<exists>needs. (t, needs) \<in> set menu \<and> (needs \<longrightarrow> truthy reason))"
    and "sorted (map fst menu)" and "distinct (map fst menu)"
proof -
  let ?el = "list_eligible (hd_rules h) (cc_stage cand) (cc_previous cand)"
  have uniq: "unique_rows (hd_rules h)" using wf by (simp add: wf_hiring_def)
  have m: "menu = map (\<lambda>r. (at_to r, at_requires_reason r))
      (sort_key at_to (filter (\<lambda>r. ro \<in> set (at_roles r)) ?el))"
    using menu cand camp by (simp add: get_allowed_transitions_def)
  have eff: "effective_role (Some ro) TS_MANUAL = ro" using role by (simp add: effective_role_def)
  have listed: "(t, needs) \<in> set menu \<longleftrightarrow>
      (\<exists>r. get_row (hd_rules h) (cc_stage cand) t (cc_previous cand) = Some r \<and> ro \<in> set (at_roles r)
         \<and> needs = at_requires_reason r)" for needs
  proof -
    have "(t, needs) \<in> set menu \<longleftrightarrow>
        (\<exists>r. r \<in> set ?el \<and> ro \<in> set (at_roles r) \<and> t = at_to r \<and> needs = at_requires_reason r)"
      by (auto simp: m image_iff)
    moreover have "r \<in> set ?el \<and> t = at_to r \<longleftrightarrow>
        get_row (hd_rules h) (cc_stage cand) t (cc_previous cand) = Some r" for r
      unfolding list_eligible_iff_get[OF uniq] using get_row_key(3) by blast
    ultimately show ?thesis by blast
  qed
  show "is_ok (move_one cap now camp i (stage_value t) reason actor (Some ro) h) \<longleftrightarrow>
      cc_stage cand \<noteq> t \<and> (\<exists>needs. (t, needs) \<in> set menu \<and> (needs \<longrightarrow> truthy reason))"
  proof (cases "cc_stage cand = t")
    case True
    then show ?thesis using cand camp by (simp add: move_one_def)
  next
    case move: False
    have "is_ok (move_one cap now camp i (stage_value t) reason actor (Some ro) h) \<longleftrightarrow>
        (\<exists>needs. (t, needs) \<in> set menu \<and> (needs \<longrightarrow> truthy reason))"
    proof
      assume "is_ok (move_one cap now camp i (stage_value t) reason actor (Some ro) h)"
      then obtain h' where "transition_stage cap now i t (Some actor) (Some ro) reason TS_MANUAL
          (stage_decision t) (Some DS_HR_ADMIN) None h = Inr h'"
        unfolding move_one_ok_iff[OF cand camp move] by (auto simp: is_ok_iff)
      then show "\<exists>needs. (t, needs) \<in> set menu \<and> (needs \<longrightarrow> truthy reason)"
        by (rule transition_stage_cases) (use cand eff listed in auto)
    next
      assume "\<exists>needs. (t, needs) \<in> set menu \<and> (needs \<longrightarrow> truthy reason)"
      then obtain r where "get_row (hd_rules h) (cc_stage cand) t (cc_previous cand) = Some r"
        "ro \<in> set (at_roles r)" "at_requires_reason r \<longrightarrow> truthy reason"
        using listed by auto
      then show "is_ok (move_one cap now camp i (stage_value t) reason actor (Some ro) h)"
        unfolding move_one_ok_iff[OF cand camp move]
        by (intro transition_stage_accepts[OF wf cand]) (simp_all add: eff)
    qed
    then show ?thesis using move by simp
  qed
  have fst_menu: "map fst menu = map at_to (sort_key at_to (filter (\<lambda>r. ro \<in> set (at_roles r)) ?el))"
    by (simp add: m comp_def)
  show "sorted (map fst menu)" by (simp add: fst_menu)
  have "distinct (map at_to (filter (\<lambda>r. ro \<in> set (at_roles r)) ?el))"
    using list_eligible_distinct[of "hd_rules h" "cc_stage cand" "cc_previous cand"]
    by (rule distinct_map_filter)
  moreover have "mset (map at_to (sort_key at_to xs)) = mset (map at_to xs)" for xs :: "allowed_transition list"
    by simp
  ultimately show "distinct (map fst menu)"
    unfolding fst_menu by (metis mset_eq_imp_distinct_iff)
qed

text \<open>
  Property C5.  For a user whose role has a name, a single move to a target is accepted exactly
  when the target is not the candidate's own stage, the menu lists it and a reason is given where
  the menu asks for one; the menu is in the order of the stages and lists no target twice.  The own
  stage can be listed (the row from HOLD to HOLD for a candidate who came from the fraud review),
  and a move to it is refused.
\<close>

theorem menu_is_what_a_move_accepts:
  assumes wf: "wf_hiring h" and cand: "find_candidate i h = Some cand" and camp: "cc_campaign cand = camp"
    and role: "role_value ro \<noteq> []"
    and menu: "get_allowed_transitions camp i (Some ro) h = Inr menu"
  shows "(is_ok (move_one cap now camp i (stage_value t) reason actor (Some ro) h) \<longleftrightarrow>
      cc_stage cand \<noteq> t \<and> (\<exists>needs. (t, needs) \<in> set menu \<and> (needs \<longrightarrow> truthy reason)))
     \<and> (sorted (map fst menu))
     \<and> (distinct (map fst menu))"
  by (rule conjI, rule menu_is_what_a_move_accepts_parts(1)[OF assms], rule conjI,
      rule menu_is_what_a_move_accepts_parts(2)[OF assms],
      rule menu_is_what_a_move_accepts_parts(3)[OF assms])

lemma menu_is_what_a_move_accepts_witness:
  "is_ok (move_one True 0 9 1 ''HM_REVIEW'' (Some ''strong'') ''rec'' (Some RECRUITER) shortlisted_db)"
proof -
  have find: "find_candidate 1 shortlisted_db = Some (blank_candidate 1 9 SHORTLISTED (Some SCREENING))"
    "cc_campaign (blank_candidate 1 9 SHORTLISTED (Some SCREENING)) = 9"
    "cc_stage (blank_candidate 1 9 SHORTLISTED (Some SCREENING)) \<noteq> HM_REVIEW"
    by (simp_all add: shortlisted_db_def example_db_def find_candidate_def blank_candidate_def)
  obtain menu where menu: "get_allowed_transitions 9 1 (Some RECRUITER) shortlisted_db = Inr menu"
    using find(1,2) by (simp add: get_allowed_transitions_def)
  have "case get_allowed_transitions 9 1 (Some RECRUITER) shortlisted_db of
      Inl e \<Rightarrow> False | Inr m \<Rightarrow> HM_REVIEW \<in> set (map fst m)"
    by code_simp
  then obtain needs where "(HM_REVIEW, needs) \<in> set menu" using menu by auto
  then have "\<exists>needs. (HM_REVIEW, needs) \<in> set menu \<and> (needs \<longrightarrow> truthy (Some ''strong''))"
    by (auto simp: truthy_def)
  moreover have "role_value RECRUITER \<noteq> []" by simp
  ultimately have "is_ok (move_one True 0 9 1 (stage_value HM_REVIEW) (Some ''strong'') ''rec'' (Some RECRUITER) shortlisted_db)"
    using menu_is_what_a_move_accepts[OF shortlisted_db_wf(1) find(1,2) _ menu] find(3) by blast
  then show ?thesis by simp
qed

section \<open>An override and its reverse\<close>

lemma apply_hr_override_effect:
  assumes "apply_hr_override now cc by change reason h = (True, h1)" and "find_candidate (cc_id cc) h = Some cc"
  shows "find_candidate (cc_id cc) h1 = Some (decide DT_RESET (Some DS_RECRUITER)
      (case reason of Some r \<Rightarrow> Some r | None \<Rightarrow> Some change) (Some (overridden_details cc)) (Some by) now
      (move_stage (cc_stage cc) SCREENING cc))"
    and "hd_rules h1 = hd_rules h"
proof -
  let ?e = "case reason of Some r \<Rightarrow> Some r | None \<Rightarrow> Some change"
  let ?f = "\<lambda>c. decide DT_RESET (Some DS_RECRUITER) ?e (Some (overridden_details cc)) (Some by) now
      (move_stage (cc_stage cc) SCREENING c)"
  have c: "hd_candidates h1 = hd_candidates (update_candidate (cc_id cc) ?f h)" "hd_rules h1 = hd_rules h"
    using assms(1) by (auto simp: apply_hr_override_def Let_def split: if_splits)
  have idf: "cc_id (?f x) = cc_id x" for x by (simp add: decide_def move_stage_def)
  have "find_candidate (cc_id cc) h1 = find_candidate (cc_id cc) (update_candidate (cc_id cc) ?f h)"
    by (rule find_candidate_cong) (rule c(1))
  also have "\<dots> = map_option ?f (find_candidate (cc_id cc) h)"
    using find_candidate_update[of ?f "cc_id cc" "cc_id cc" h, OF idf] by simp
  finally show "find_candidate (cc_id cc) h1 = Some (?f cc)" using assms(2) by simp
  show "hd_rules h1 = hd_rules h" by (rule c(2))
qed

lemma skip_ai_frame:
  "hd_candidates (skip_ai_evaluation i h) = hd_candidates h" "hd_rules (skip_ai_evaluation i h) = hd_rules h"
  by (auto simp: skip_ai_evaluation_def get_or_create_ai_def update_ai_def Let_def split: option.splits)

lemma revert_override_effect:
  assumes cand: "find_candidate i h = Some c" and reset: "cc_decision_type c = Some DT_RESET"
    and stage: "cc_stage c = SCREENING" and details: "cc_decision_details c = Some d"
    and dt: "json_get d ''overridden_decision_type'' = JStr (decision_type_value t)"
    and ds: "json_get d ''overridden_decision_source'' = JStr (decision_source_value s)"
  shows "\<exists>h'. revert_override ai now i reason actor role h = Inr h' \<and> hd_rules h' = hd_rules h \<and>
     find_candidate i h' = Some (c\<lparr>cc_stage := REJECTED, cc_decision_type := Some t, cc_decision_source := Some s,
         cc_decision_reason := json_str (json_get d ''overridden_decision_reason''),
         cc_decision_at := Some now, cc_decision_by := Some actor,
         cc_decision_details := Some (cleared_details reason now (cc_decision_reason c) t s d),
         cc_det_passed := (if s = DS_DETERMINISTIC then Some False else cc_det_passed c)\<rparr>)"
proof -
  define f :: "campaign_candidate \<Rightarrow> campaign_candidate" where "f = (\<lambda>x. x\<lparr>cc_stage := REJECTED, cc_decision_type := Some t, cc_decision_source := Some s,
         cc_decision_reason := json_str (json_get d ''overridden_decision_reason''),
         cc_decision_at := Some now, cc_decision_by := Some actor,
         cc_decision_details := Some (cleared_details reason now (cc_decision_reason x) t s d),
         cc_det_passed := (if s = DS_DETERMINISTIC then Some False else cc_det_passed x)\<rparr>)"
  define h2 where "h2 = (if ai then skip_ai_evaluation i (update_candidate i f h) else update_candidate i f h)"
  define h' where "h' = audit (Some actor) role ''CANDIDATE_STAGE_OVERRIDDEN'' i
      [(''override_cleared'', JBool True), (''clear_reason'', JStr reason)]
      (create_stage_history i (Some SCREENING) REJECTED (Some actor) (Some reason) TS_OVERRIDE None h2)"
  have filled: "decision_type_value t \<noteq> []" "decision_source_value s \<noteq> []"
    by (cases t; simp) (cases s; simp)
  have run: "revert_override ai now i reason actor role h = Inr h'"
    by (simp add: revert_override_def cand reset stage details dt ds filled Let_def h'_def h2_def f_def)
  have idf: "cc_id (f x) = cc_id x" for x by (simp add: f_def)
  have c2: "hd_candidates h' = hd_candidates (update_candidate i f h)" "hd_rules h' = hd_rules h"
    by (simp_all add: h'_def h2_def skip_ai_frame)
  have "find_candidate i h' = find_candidate i (update_candidate i f h)"
    by (rule find_candidate_cong) (rule c2(1))
  also have "\<dots> = Some (f c)" using find_candidate_update[of f i i h, OF idf] cand by simp
  finally show ?thesis using run c2(2) by (auto simp: f_def)
qed

lemma overridden_details_values:
  "cc_decision_type c = Some t \<Longrightarrow> json_get (overridden_details c) ''overridden_decision_type'' = JStr (decision_type_value t)"
  "cc_decision_source c = Some s \<Longrightarrow> json_get (overridden_details c) ''overridden_decision_source'' = JStr (decision_source_value s)"
  "json_str (json_get (overridden_details c) ''overridden_decision_reason'') = cc_decision_reason c"
  by (simp_all add: overridden_details_def json_get_def json_opt_def split: option.splits)

lemma override_revert_dead_end: "list_eligible seeded_rows REJECTED (Some REJECTED) = []"
  by code_simp

text \<open>
  Property C8.  Clearing an override right after it was applied succeeds and
  restores the rejection: stage, decision type, source and reason are those
  before the override, and the scores are untouched.  But the override wrote
  \<open>previous_stage\<close> and clearing it does not: a candidate rejected from any stage
  is afterwards at \<open>REJECTED\<close> with previous stage \<open>REJECTED\<close>, a position from which
  the seeded table offers nobody any move.
\<close>

theorem override_revert_roundtrip:
  assumes cand: "find_candidate (cc_id cc) h = Some cc" and stage: "cc_stage cc = REJECTED"
    and dt: "cc_decision_type cc = Some t" and ds: "cc_decision_source cc = Some s"
    and run: "apply_hr_override now cc by change reason h = (True, h1)"
  shows "\<exists>h2 c. revert_override ai later (cc_id cc) why actor role h1 = Inr h2
      \<and> find_candidate (cc_id cc) h2 = Some c
      \<and> cc_stage c = cc_stage cc \<and> cc_decision_type c = cc_decision_type cc
      \<and> cc_decision_source c = cc_decision_source cc \<and> cc_decision_reason c = cc_decision_reason cc
      \<and> cc_det_score c = cc_det_score cc \<and> cc_sem_score c = cc_sem_score cc \<and> cc_composite c = cc_composite cc
      \<and> cc_previous c = Some REJECTED
      \<and> (hd_rules h = seeded_rows \<longrightarrow> get_allowed_transitions (cc_campaign cc) (cc_id cc) viewer h2 = Inr [])"
proof -
  note o = apply_hr_override_effect[OF run cand]
  let ?c = "decide DT_RESET (Some DS_RECRUITER)
      (case reason of Some r \<Rightarrow> Some r | None \<Rightarrow> Some change) (Some (overridden_details cc)) (Some by) now
      (move_stage (cc_stage cc) SCREENING cc)"
  have at: "cc_decision_type ?c = Some DT_RESET" "cc_stage ?c = SCREENING"
    "cc_decision_details ?c = Some (overridden_details cc)"
    by (simp_all add: decide_def move_stage_def)
  from revert_override_effect[OF o(1) at overridden_details_values(1)[OF dt] overridden_details_values(2)[OF ds],
      of ai later why actor role]
  obtain h2 c where r: "revert_override ai later (cc_id cc) why actor role h1 = Inr h2" "hd_rules h2 = hd_rules h1"
    "find_candidate (cc_id cc) h2 = Some c"
    "c = ?c\<lparr>cc_stage := REJECTED, cc_decision_type := Some t, cc_decision_source := Some s,
         cc_decision_reason := json_str (json_get (overridden_details cc) ''overridden_decision_reason''),
         cc_decision_at := Some later, cc_decision_by := Some actor,
         cc_decision_details := Some (cleared_details why later (cc_decision_reason ?c) t s (overridden_details cc)),
         cc_det_passed := (if s = DS_DETERMINISTIC then Some False else cc_det_passed ?c)\<rparr>"
    by blast
  have prev: "cc_previous c = Some REJECTED" "cc_stage c = REJECTED" "cc_campaign c = cc_campaign cc"
    by (simp_all add: r(4) decide_def move_stage_def stage)
  have "get_allowed_transitions (cc_campaign cc) (cc_id cc) viewer h2 = Inr []" if "hd_rules h = seeded_rows"
    using that prev by (simp add: get_allowed_transitions_def r(2,3) o(2) override_revert_dead_end)
  with r(1,3) prev show ?thesis
    by (intro exI[of _ h2] exI[of _ c])
      (simp add: r(4) stage dt ds overridden_details_values(3) decide_def move_stage_def)
qed

definition rejected_candidate :: campaign_candidate where
  "rejected_candidate = (blank_candidate 1 9 REJECTED (Some SCREENING))\<lparr>cc_decision_type := Some DT_REJECTED,
     cc_decision_source := Some DS_DETERMINISTIC, cc_decision_reason := Some ''score below threshold''\<rparr>"

lemma override_revert_roundtrip_witness:
  "\<exists>h1 h2. apply_hr_override 5 rejected_candidate ''rec'' ''second look'' None (example_db [rejected_candidate]) = (True, h1)
     \<and> revert_override True 6 1 ''withdrawn'' ''rec'' (Some RECRUITER) h1 = Inr h2
     \<and> get_allowed_transitions 9 1 (Some RECRUITER) h2 = Inr []"
proof -
  have id: "cc_id rejected_candidate = 1" "cc_campaign rejected_candidate = 9"
    by (simp_all add: rejected_candidate_def blank_candidate_def)
  have cand: "find_candidate (cc_id rejected_candidate) (example_db [rejected_candidate]) = Some rejected_candidate"
    by (simp add: find_candidate_def example_db_def)
  have props: "cc_stage rejected_candidate = REJECTED" "cc_decision_type rejected_candidate = Some DT_REJECTED"
    "cc_decision_source rejected_candidate = Some DS_DETERMINISTIC"
    by (simp_all add: rejected_candidate_def blank_candidate_def)
  have "fst (apply_hr_override 5 rejected_candidate ''rec'' ''second look'' None (example_db [rejected_candidate]))"
    by code_simp
  then obtain h1 where run:
    "apply_hr_override 5 rejected_candidate ''rec'' ''second look'' None (example_db [rejected_candidate]) = (True, h1)"
    by (metis (full_types) prod.collapse)
  have "hd_rules (example_db [rejected_candidate]) = seeded_rows" by (simp add: example_db_def)
  then show ?thesis
    using run override_revert_roundtrip[OF cand props run, of True 6 "''withdrawn''" "''rec''" "Some RECRUITER" "Some RECRUITER"]
    unfolding id by blast
qed

section \<open>Writers that leave the previous stage behind\<close>

lemma rescore_one_position:
  "map_option (\<lambda>c. (cc_stage c, cc_previous c, cc_campaign c)) (find_candidate j (rescore_one i h)) =
   map_option (\<lambda>c. (cc_stage c, cc_previous c, cc_campaign c)) (find_candidate j h)"
  "hd_rules (rescore_one i h) = hd_rules h"
proof -
  have "map_option (\<lambda>c. (cc_stage c, cc_previous c, cc_campaign c)) (find_candidate j (rescore_one i h)) =
     map_option (\<lambda>c. (cc_stage c, cc_previous c, cc_campaign c)) (find_candidate j h)
     \<and> hd_rules (rescore_one i h) = hd_rules h"
  proof (cases "find_candidate i h")
    case (Some c)
    obtain b h' where run: "enqueue_manual_rescore c h = (b, h')" by (metis surj_pair)
    have keep: "(\<lambda>c. (cc_stage c, cc_previous c, cc_campaign c)) (reset_for_rescore x) =
        (cc_stage x, cc_previous x, cc_campaign x)" for x
      by (simp add: reset_for_rescore_def reset_evaluation_fields_def)
    from Some rescore_frame(1)[OF run] rescore_frame(7)[OF run, of j] show ?thesis
      by (simp add: rescore_one_def run option.map_comp comp_def keep)
  qed (simp add: rescore_one_def)
  then show "map_option (\<lambda>c. (cc_stage c, cc_previous c, cc_campaign c)) (find_candidate j (rescore_one i h)) =
     map_option (\<lambda>c. (cc_stage c, cc_previous c, cc_campaign c)) (find_candidate j h)"
    "hd_rules (rescore_one i h) = hd_rules h" by blast+
qed

lemma override_target_allowed:
  "override_target c requested = Inr t \<Longrightarrow> t \<notin> set override_forbidden \<and> t \<noteq> cc_stage c"
  by (cases "cc_stage c") (auto simp: override_target_def override_forbidden_def split: option.splits if_splits)

lemma override_effect:
  assumes run: "override_candidate_stage now camp i requested reason actor role h = Inr ((f, t), h')"
  shows "\<exists>c c'. find_candidate i h = Some c \<and> cc_campaign c = camp \<and> cc_stage c = f
     \<and> override_target c requested = Inr t
     \<and> find_candidate i h' = Some c' \<and> cc_stage c' = t \<and> cc_previous c' = cc_previous c
     \<and> cc_campaign c' = camp \<and> hd_rules h' = hd_rules h"
proof -
  obtain c where c: "stalled_candidate camp i h = Inr c"
    using run by (auto simp: override_candidate_stage_def res_bind_Inr_iff)
  then have cand: "find_candidate i h = Some c" "cc_campaign c = camp"
    by (auto simp: stalled_candidate_def split: option.splits if_splits)
  then have id: "cc_id c = i" using find_candidate_Some by blast
  obtain u where u: "override_target c requested = Inr u"
    using run c by (auto simp: override_candidate_stage_def res_bind_Inr_iff)
  define h1 where "h1 = transition_candidate_stage c u actor reason TS_OVERRIDE False h"
  obtain h2 where hooks: "interview_hooks (cc_stage c) u i (Some actor) (map_option role_value role) now h1 = Inr h2"
    using run c u by (cases "interview_hooks (cc_stage c) u i (Some actor) (map_option role_value role) now h1")
      (simp_all add: override_candidate_stage_def h1_def)
  define h3 where "h3 = audit (Some actor) role ''CANDIDATE_STAGE_OVERRIDDEN'' i
                  [(''from_stage'', JStr (stage_value (cc_stage c))), (''to_stage'', JStr (stage_value u)),
                   (''reason'', JStr reason)] h2"
  define h4 where "h4 = (if u = SELECTED then snd (close_if_filled now camp (Some actor) role h3) else h3)"
  have "override_candidate_stage now camp i requested reason actor role h =
      Inr ((cc_stage c, u), if u = SCREENING \<and> cc_stage c \<noteq> UPLOADED then rescore_one i h4 else h4)"
    by (simp add: override_candidate_stage_def c u hooks[unfolded h1_def] Let_def h4_def h3_def)
  with run have res: "f = cc_stage c" "t = u"
    "h' = (if u = SCREENING \<and> cc_stage c \<noteq> UPLOADED then rescore_one i h4 else h4)"
    by (auto split: if_splits)
  define g :: "campaign_candidate \<Rightarrow> campaign_candidate" where
    "g = (\<lambda>x. x\<lparr>cc_stage := u, cc_is_fraud := (if False then True else cc_is_fraud x)\<rparr>)"
  have idg: "cc_id (g x) = cc_id x" for x by (simp add: g_def)
  have c4: "hd_candidates h4 = hd_candidates (update_candidate i g h)" "hd_rules h4 = hd_rules h"
    using same_but_interviewsD(1,2)[OF hooks_frame[OF hooks]]
    by (simp_all add: h4_def h3_def close_if_filled_frame h1_def transition_candidate_stage_def id g_def)
  have "find_candidate i h4 = find_candidate i (update_candidate i g h)"
    by (rule find_candidate_cong) (rule c4(1))
  also have "\<dots> = Some (g c)" using find_candidate_update[of g i i h, OF idg] cand(1) by simp
  finally have at4: "map_option (\<lambda>c. (cc_stage c, cc_previous c, cc_campaign c)) (find_candidate i h4) =
      Some (u, cc_previous c, camp)" using cand(2) by (simp add: g_def)
  have "map_option (\<lambda>c. (cc_stage c, cc_previous c, cc_campaign c)) (find_candidate i h') =
      Some (u, cc_previous c, camp) \<and> hd_rules h' = hd_rules h"
  proof (cases "u = SCREENING \<and> cc_stage c \<noteq> UPLOADED")
    case True
    then have "h' = rescore_one i h4" by (simp add: res(3))
    then show ?thesis using trans[OF rescore_one_position(1) at4] rescore_one_position(2) c4(2) by metis
  next
    case False
    then have "h' = h4" using res(3) by (simp only: if_False)
    then show ?thesis using at4 c4(2) by blast
  qed
  with cand u res(1,2) show ?thesis by auto
qed

lemma stranded_menu: "list_eligible seeded_rows HM_REVIEW None = []"
  by code_simp

text \<open>
  A stage override moves the candidate to the requested stage, or
  to the next one of the default path, without a row of the table and without
  touching \<open>previous_stage\<close>.  Three default overrides therefore leave a freshly
  uploaded candidate at \<open>HM_REVIEW\<close> with no previous stage, where the seeded
  table offers no role any move.
\<close>

theorem default_overrides_strand:
  assumes rules: "hd_rules h = seeded_rows" and cand: "find_candidate i h = Some c"
    and start: "cc_stage c = UPLOADED" "cc_previous c = None"
    and first: "override_candidate_stage n1 camp i None r1 a1 ro1 h = Inr (m1, h1)"
    and second: "override_candidate_stage n2 camp i None r2 a2 ro2 h1 = Inr (m2, h2)"
    and third: "override_candidate_stage n3 camp i None r3 a3 ro3 h2 = Inr (m3, h3)"
  shows "[m1, m2, m3] = [(UPLOADED, SCREENING), (SCREENING, SHORTLISTED), (SHORTLISTED, HM_REVIEW)]
     \<and> get_allowed_transitions camp i viewer h3 = Inr []"
proof -
  have next_stage: "override_target x None = Inr t \<longleftrightarrow> override_next (cc_stage x) = Some t" for x t
    by (simp add: override_target_def truthy_def split: option.splits)
  obtain f1 t1 f2 t2 f3 t3 where ms: "m1 = (f1, t1)" "m2 = (f2, t2)" "m3 = (f3, t3)"
    by (metis surj_pair)
  note e1 = override_effect[OF first[unfolded ms]] and e2 = override_effect[OF second[unfolded ms]]
    and e3 = override_effect[OF third[unfolded ms]]
  from e1 obtain c1 where c1: "f1 = UPLOADED" "t1 = SCREENING" "find_candidate i h1 = Some c1" "cc_stage c1 = SCREENING"
    "cc_previous c1 = None" "hd_rules h1 = seeded_rows"
    using cand start rules next_stage by auto
  from e2 obtain c2 where c2: "f2 = SCREENING" "t2 = SHORTLISTED" "find_candidate i h2 = Some c2"
    "cc_stage c2 = SHORTLISTED" "cc_previous c2 = None" "hd_rules h2 = seeded_rows"
    using c1 next_stage by auto
  from e3 obtain c3 where c3: "f3 = SHORTLISTED" "t3 = HM_REVIEW" "find_candidate i h3 = Some c3"
    "cc_stage c3 = HM_REVIEW" "cc_previous c3 = None" "hd_rules h3 = seeded_rows" "cc_campaign c3 = camp"
    using c2 next_stage by auto
  have "get_allowed_transitions camp i viewer h3 = Inr []"
    by (simp add: get_allowed_transitions_def c3 stranded_menu)
  with ms c1 c2 c3 show ?thesis by simp
qed

definition open_campaign :: "int option \<Rightarrow> campaign_row" where
  "open_campaign openings = \<lparr>ca_id = 9, ca_org = None, ca_jd = 1, ca_name = ''Backend'', ca_status = CS_ACTIVE, ca_w_det = 30,
     ca_w_sem = 40, ca_w_ai = 30, ca_sem_threshold = 65/100, ca_ai_threshold = 50, ca_det_threshold = 70,
     ca_coverage = 0, ca_max_missing_core = 3, ca_max = openings, ca_deadline = None, ca_prompt = 1,
     ca_ai_prompt = None, ca_manager = ''hm'', ca_recruiter = ''rec'', ca_created_by = ''admin'', ca_updated_at = None\<rparr>"

definition uploaded_db :: hiring_db where
  "uploaded_db = (example_db [blank_candidate 1 9 UPLOADED None])\<lparr>hd_campaigns := [open_campaign None]\<rparr>"

definition then_override :: "nat \<Rightarrow> nat \<Rightarrow> hiring_db \<Rightarrow> (override_error, hiring_db) result" where
  "then_override camp i h = res_bind (override_candidate_stage 0 camp i None ''stalled'' ''admin'' (Some HR_ADMIN) h)
     (\<lambda>(m, h'). Inr h')"

lemma default_overrides_strand_witness:
  "\<exists>h3. res_bind (res_bind (then_override 9 1 uploaded_db) (then_override 9 1)) (then_override 9 1) = Inr h3
     \<and> get_allowed_transitions 9 1 (Some HR_ADMIN) h3 = Inr []"
proof -
  have "is_ok (res_bind (res_bind (then_override 9 1 uploaded_db) (then_override 9 1)) (then_override 9 1))"
    by code_simp
  then obtain m1 h1 m2 h2 m3 h3 where
    runs: "override_candidate_stage 0 9 1 None ''stalled'' ''admin'' (Some HR_ADMIN) uploaded_db = Inr (m1, h1)"
    "override_candidate_stage 0 9 1 None ''stalled'' ''admin'' (Some HR_ADMIN) h1 = Inr (m2, h2)"
    "override_candidate_stage 0 9 1 None ''stalled'' ''admin'' (Some HR_ADMIN) h2 = Inr (m3, h3)"
    by (auto simp: is_ok_iff res_bind_Inr_iff then_override_def)
  have start: "hd_rules uploaded_db = seeded_rows"
    "find_candidate 1 uploaded_db = Some (blank_candidate 1 9 UPLOADED None)"
    "cc_stage (blank_candidate 1 9 UPLOADED None) = UPLOADED"
    "cc_previous (blank_candidate 1 9 UPLOADED None) = None"
    by (simp_all add: uploaded_db_def example_db_def find_candidate_def blank_candidate_def)
  have "get_allowed_transitions 9 1 (Some HR_ADMIN) h3 = Inr []"
    using default_overrides_strand[OF start runs] by blast
  then show ?thesis using runs by (simp add: then_override_def)
qed

section \<open>Openings\<close>

text \<open>A campaign with an openings count that is used up is closed.\<close>

definition positions_capped :: "hiring_db \<Rightarrow> bool" where
  "positions_capped h \<longleftrightarrow> list_all (\<lambda>ca. case ca_max ca of None \<Rightarrow> True
     | Some m \<Rightarrow> m = 0 \<or> selected_count (ca_id ca) h < m \<or> ca_status ca = CS_CLOSED) (hd_campaigns h)"

lemma length_filter_map_le:
  "(\<And>x. x \<in> set xs \<Longrightarrow> P (f x) \<Longrightarrow> P x) \<Longrightarrow> length (filter P (map f xs)) \<le> length (filter P xs)"
proof (induction xs)
  case (Cons a xs)
  then have "length (filter P (map f xs)) \<le> length (filter P xs)" by simp
  with Cons.prems[of a] show ?case by auto
qed simp

lemma selected_count_cong: "hd_candidates h' = hd_candidates h \<Longrightarrow> selected_count camp h' = selected_count camp h"
  by (simp add: selected_count_def)

lemma transition_stage_candidates:
  assumes "transition_stage cap now i t by role reason source dt ds details h = Inr h'"
    and "find_candidate i h = Some cand"
  shows "\<exists>g. hd_candidates h' = map (\<lambda>c. if cc_id c = i then g c else c) (hd_candidates h)
     \<and> (\<forall>c. cc_stage (g c) = t \<and> cc_campaign (g c) = cc_campaign c)"
proof -
  let ?mv = "move_stage (cc_stage cand) t"
  obtain h2 where
    hooks: "interview_hooks (cc_stage cand) t i by (Some (role_value (effective_role role source))) now
       (update_candidate i ?mv h) = Inr h2" and
    cands: "hd_candidates h' = hd_candidates (case dt of None \<Rightarrow> h2
        | Some d \<Rightarrow> update_candidate i (decide d ds reason details by now) h2)"
    using transition_stage_written[OF assms] by blast
  have c2: "hd_candidates h2 = map (\<lambda>c. if cc_id c = i then ?mv c else c) (hd_candidates h)"
    using same_but_interviewsD(2)[OF hooks_frame[OF hooks]] by (simp add: update_candidate_def)
  show ?thesis
  proof (cases dt)
    case None
    then show ?thesis using cands c2 by (intro exI[of _ ?mv]) (simp add: move_stage_def)
  next
    case (Some d)
    then have "hd_candidates h' = map (\<lambda>c. if cc_id c = i then decide d ds reason details by now (?mv c) else c)
        (hd_candidates h)"
      using cands c2 by (simp add: update_candidate_def move_stage_def comp_def) 
    then show ?thesis
      by (intro exI[of _ "\<lambda>c. decide d ds reason details by now (?mv c)"]) (simp add: move_stage_def decide_def)
  qed
qed

lemma close_if_filled_campaigns:
  assumes "ca' \<in> set (hd_campaigns (snd (close_if_filled now camp by role h)))"
    and "distinct (map ca_id (hd_campaigns h))"
  shows "\<exists>ca\<in>set (hd_campaigns h). ca_id ca' = ca_id ca \<and> ca_max ca' = ca_max ca
     \<and> (ca_status ca = CS_CLOSED \<longrightarrow> ca_status ca' = CS_CLOSED)
     \<and> (ca_id ca = camp \<longrightarrow> (case ca_max ca of None \<Rightarrow> True
          | Some m \<Rightarrow> m = 0 \<or> selected_count camp h < m \<or> ca_status ca' = CS_CLOSED))"
proof (cases "fst (close_if_filled now camp by role h)")
  case True
  then have "hd_campaigns (snd (close_if_filled now camp by role h)) =
      map (\<lambda>c. if ca_id c = camp then c\<lparr>ca_status := CS_CLOSED, ca_updated_at := Some now\<rparr> else c) (hd_campaigns h)"
    by (auto simp: close_if_filled_def Let_def update_campaign_row_def split: option.splits if_splits)
  with assms(1) obtain ca where "ca \<in> set (hd_campaigns h)"
    "ca' = (if ca_id ca = camp then ca\<lparr>ca_status := CS_CLOSED, ca_updated_at := Some now\<rparr> else ca)" by auto
  then show ?thesis by (intro bexI[of _ ca]) (auto split: option.splits)
next
  case False
  then have same: "hd_campaigns (snd (close_if_filled now camp by role h)) = hd_campaigns h"
    by (auto simp: close_if_filled_def Let_def split: option.splits if_splits)
  have "case ca_max ca' of None \<Rightarrow> True | Some m \<Rightarrow> m = 0 \<or> selected_count camp h < m \<or> ca_status ca' = CS_CLOSED"
    if at: "ca_id ca' = camp"
  proof -
    have "find_campaign camp h = Some ca'"
      unfolding find_campaign_def
      by (rule find_unique) (use assms same at in \<open>auto simp: distinct_map inj_on_def\<close>)
    with False show ?thesis
      by (auto simp: close_if_filled_def Let_def split: option.splits if_splits)
  qed
  then show ?thesis using assms(1) same by (intro bexI[of _ ca']) auto
qed

text \<open>
  With the campaign repository configured, a board move keeps the
  law that a campaign whose openings are used up is closed.
\<close>

theorem board_move_keeps_positions_capped:
  assumes run: "transition_stage True now i t by role reason source dt ds details h = Inr h'"
    and ids: "distinct (map cc_id (hd_candidates h))" "distinct (map ca_id (hd_campaigns h))"
    and inv: "positions_capped h"
  shows "positions_capped h'"
proof -
  from run obtain cand row h2 where c: "find_candidate i h = Some cand"
    "interview_hooks (cc_stage cand) t i by (Some (role_value (effective_role role source))) now
       (update_candidate i (move_stage (cc_stage cand) t) h) = Inr h2"
    "hd_candidates h' = hd_candidates (case dt of None \<Rightarrow> h2
        | Some d \<Rightarrow> update_candidate i (decide d ds reason details by now) h2)"
    "hd_campaigns h' = hd_campaigns (if t = SELECTED \<and> True then snd (close_if_filled now (cc_campaign cand) by role
        (case dt of None \<Rightarrow> h2 | Some d \<Rightarrow> update_candidate i (decide d ds reason details by now) h2)) else h2)"
    by (rule transition_stage_cases)
  define h3 where "h3 = (case dt of None \<Rightarrow> h2 | Some d \<Rightarrow> update_candidate i (decide d ds reason details by now) h2)"
  obtain g where g: "hd_candidates h' = map (\<lambda>c. if cc_id c = i then g c else c) (hd_candidates h)"
    "\<And>c. cc_stage (g c) = t" "\<And>c. cc_campaign (g c) = cc_campaign c"
    using transition_stage_candidates[OF run c(1)] by blast
  have camps: "hd_campaigns h3 = hd_campaigns h"
    using same_but_interviewsD(6)[OF hooks_frame[OF c(2)]] by (simp add: h3_def split: option.splits)
  have cands: "hd_candidates h' = hd_candidates h3" using c(3) by (simp add: h3_def)
  have only: "x = cand" if "x \<in> set (hd_candidates h)" "cc_id x = i" for x
    using find_candidate_in[OF ids(1) that(1)] that(2) c(1) by simp
  have count: "selected_count camp h' \<le> selected_count camp h" if "t \<noteq> SELECTED \<or> camp \<noteq> cc_campaign cand" for camp
  proof -
    note gone = that
    have "length (filter (\<lambda>c. cc_campaign c = camp \<and> cc_stage c = SELECTED) (map (\<lambda>c. if cc_id c = i then g c else c) (hd_candidates h)))
        \<le> length (filter (\<lambda>c. cc_campaign c = camp \<and> cc_stage c = SELECTED) (hd_candidates h))"
      by (rule length_filter_map_le) (use only g(2,3) gone in \<open>auto split: if_splits\<close>)
    then show ?thesis by (simp add: selected_count_def g(1))
  qed
  have law: "case ca_max ca of None \<Rightarrow> True | Some m \<Rightarrow> m = 0 \<or> selected_count (ca_id ca) h < m \<or> ca_status ca = CS_CLOSED"
    if "ca \<in> set (hd_campaigns h)" for ca
    using inv that by (auto simp: positions_capped_def list_all_iff)
  show ?thesis
    unfolding positions_capped_def list_all_iff
  proof
    fix ca' assume in': "ca' \<in> set (hd_campaigns h')"
    show "case ca_max ca' of None \<Rightarrow> True | Some m \<Rightarrow> m = 0 \<or> selected_count (ca_id ca') h' < m \<or> ca_status ca' = CS_CLOSED"
    proof (cases "t = SELECTED")
      case False
      then have "ca' \<in> set (hd_campaigns h)"
        using in' c(4) same_but_interviewsD(6)[OF hooks_frame[OF c(2)]] by simp
      then show ?thesis using law[of ca'] count[of "ca_id ca'"] False by (auto split: option.splits)
    next
      case True
      then have "ca' \<in> set (hd_campaigns (snd (close_if_filled now (cc_campaign cand) by role h3)))"
        using in' c(4) by (simp add: h3_def)
      from close_if_filled_campaigns[OF this] camps ids(2) obtain ca where ca: "ca \<in> set (hd_campaigns h)"
        "ca_id ca' = ca_id ca" "ca_max ca' = ca_max ca" "ca_status ca = CS_CLOSED \<longrightarrow> ca_status ca' = CS_CLOSED"
        "ca_id ca = cc_campaign cand \<longrightarrow> (case ca_max ca of None \<Rightarrow> True
          | Some m \<Rightarrow> m = 0 \<or> selected_count (cc_campaign cand) h3 < m \<or> ca_status ca' = CS_CLOSED)"
        by auto
      show ?thesis
      proof (cases "ca_id ca = cc_campaign cand")
        case True
        then show ?thesis using ca(2,3,5) selected_count_cong[OF cands, of "ca_id ca"] by (auto split: option.splits)
      next
        case False
        then show ?thesis using law[OF ca(1)] count[of "ca_id ca"] ca(2,3,4) by (auto split: option.splits)
      qed
    qed
  qed
qed

definition interviewed_db :: hiring_db where
  "interviewed_db = (example_db [blank_candidate 1 9 INTERVIEW (Some HM_REVIEW), blank_candidate 2 9 INTERVIEW (Some HM_REVIEW)])
     \<lparr>hd_campaigns := [open_campaign (Some 1)]\<rparr>"

lemma board_move_keeps_positions_capped_witness:
  "\<exists>h'. transition_stage True 0 1 SELECTED (Some ''hm'') (Some HIRING_MANAGER) None TS_MANUAL (Some DT_SELECTED)
        (Some DS_HIRING_MANAGER) None interviewed_db = Inr h' \<and> positions_capped h' \<and> positions_capped interviewed_db"
proof -
  have "is_ok (transition_stage True 0 1 SELECTED (Some ''hm'') (Some HIRING_MANAGER) None TS_MANUAL (Some DT_SELECTED)
        (Some DS_HIRING_MANAGER) None interviewed_db)"
    by code_simp
  then obtain h' where run: "transition_stage True 0 1 SELECTED (Some ''hm'') (Some HIRING_MANAGER) None TS_MANUAL
        (Some DT_SELECTED) (Some DS_HIRING_MANAGER) None interviewed_db = Inr h'"
    using is_ok_Inr by blast
  have pre: "distinct (map cc_id (hd_candidates interviewed_db))" "distinct (map ca_id (hd_campaigns interviewed_db))"
    "positions_capped interviewed_db"
    by code_simp+
  from run pre(3) board_move_keeps_positions_capped[OF run pre] show ?thesis by blast
qed

definition hiring_manager :: actor where
  "hiring_manager = \<lparr>ac_roles = [HIRING_MANAGER], ac_id = Some ''hm''\<rparr>"

text \<open>
  Two gaps of the openings count.  The selection endpoint goes
  through \<open>StageTransitionService.transition\<close>, which never closes a campaign: with
  one opening, selecting a candidate there leaves the filled campaign active.
  And a board move checks the count only afterwards, so one batch selects two
  candidates for one opening.
\<close>

theorem openings_not_enforced:
  "(case transition refreshed_read id 0 1 SELECTED hiring_manager None None interviewed_db of
      Inl e \<Rightarrow> False
    | Inr (written, h) \<Rightarrow> written \<and> positions_capped interviewed_db \<and> \<not> positions_capped h
        \<and> map ca_status (hd_campaigns h) = [CS_ACTIVE])
   \<and> (case bulk_move True 0 9 [1, 2] ''SELECTED'' ''offer'' ''hm'' (Some HIRING_MANAGER) interviewed_db of
        Inl e \<Rightarrow> False
      | Inr (r, h) \<Rightarrow> selected_count 9 h = 2 \<and> map ca_max (hd_campaigns h) = [Some 1]
          \<and> map ca_status (hd_campaigns h) = [CS_CLOSED])"
proof
  show "case transition refreshed_read id 0 1 SELECTED hiring_manager None None interviewed_db of
      Inl e \<Rightarrow> False
    | Inr (written, h) \<Rightarrow> written \<and> positions_capped interviewed_db \<and> \<not> positions_capped h
        \<and> map ca_status (hd_campaigns h) = [CS_ACTIVE]"
    by code_simp
  show "case bulk_move True 0 9 [1, 2] ''SELECTED'' ''offer'' ''hm'' (Some HIRING_MANAGER) interviewed_db of
        Inl e \<Rightarrow> False
      | Inr (r, h) \<Rightarrow> selected_count 9 h = 2 \<and> map ca_max (hd_campaigns h) = [Some 1]
          \<and> map ca_status (hd_campaigns h) = [CS_CLOSED]"
    by code_simp
qed

end
