(* ===== verification/Interview_Notices.thy ===== *)
theory Interview_Notices
  imports Stage_State
begin

text \<open>
  The e-mails about an interview round
  (\<open>app/services/notifications/candidate_notification_emails.py\<close>,
  \<open>interview_interviewer_lifecycle_emails.py\<close>,
  \<open>interview_feedback_request_emails.py\<close>).

  A queued e-mail is a row of \<open>email_notifications\<close>; the table is a list.  A
  notice carries the instant of the interview and the zone it is shown in, not
  the formatted text.  Which events have an active template, and the signing of
  a feedback link, are parameters: the one is configuration, the other rests on
  a secret.
\<close>

section \<open>Rows\<close>

datatype trigger_event =
    EV_SCHEDULED | EV_RESCHEDULED | EV_CANCELLED | EV_SELECTED
  | EV_FEEDBACK_REQUESTED
  | EV_IV_INVITATION | EV_IV_RESCHEDULED | EV_IV_REMOVED | EV_IV_CANCELLED

datatype email_status = EM_QUEUED | EM_SENT | EM_FAILED

record notice =
  nt_candidate :: "nat option"
  nt_campaign_candidate :: nat
  nt_round :: "nat option"
  nt_interviewer :: "nat option"
  nt_email :: "string option"
  nt_name :: "string option"
  nt_event :: trigger_event
  nt_status :: email_status
  nt_start :: "int option"
  nt_zone :: "string option"
  nt_text :: string

definition live_notice :: "notice \<Rightarrow> bool" where
  "live_notice n \<longleftrightarrow> nt_status n \<in> set [EM_QUEUED, EM_SENT]"

section \<open>Notices to the candidate\<close>

definition or_else :: "string option \<Rightarrow> string \<Rightarrow> string" where
  "or_else s d = (case s of None \<Rightarrow> d | Some x \<Rightarrow> if x = [] then d else x)"

definition meeting_info_line :: "interview_round \<Rightarrow> string" where
  "meeting_info_line r =
     (case ir_platform r of
        Some TEAMS \<Rightarrow> if or_else (ir_meeting_link r) [] \<noteq> [] then ''Join here: '' @ or_else (ir_meeting_link r) []
                      else ''Your interviewer will share the meeting link separately.''
      | Some MEET \<Rightarrow> if or_else (ir_meeting_link r) [] \<noteq> [] then ''Join here: '' @ or_else (ir_meeting_link r) []
                      else ''Your interviewer will share the meeting link separately.''
      | Some ONSITE \<Rightarrow> if or_else (ir_location r) [] \<noteq> [] then ''Location: '' @ or_else (ir_location r) []
                      else ''Location details will be shared separately.''
      | Some PHONE \<Rightarrow> ''You will be called at the scheduled time.''
      | None \<Rightarrow> [])"

definition queue_candidate_notice ::
    "(trigger_event \<Rightarrow> bool) \<Rightarrow> trigger_event \<Rightarrow> bool \<Rightarrow> campaign_candidate \<Rightarrow> interview_round option
     \<Rightarrow> notice list \<Rightarrow> notice list" where
  "queue_candidate_notice has_template ev allow_resend cc slot mail =
     (let existing = (case slot of
            Some r \<Rightarrow> filter (\<lambda>n. nt_round n = Some (ir_id r) \<and> nt_event n = ev) mail
          | None \<Rightarrow> filter (\<lambda>n. nt_campaign_candidate n = cc_id cc \<and> nt_event n = ev) mail)
      in if \<not> allow_resend \<and> list_ex live_notice existing then mail
         else if \<not> has_template ev then mail
         else mail @ [\<lparr>nt_candidate = Some (cc_candidate cc), nt_campaign_candidate = cc_id cc,
                nt_round = map_option ir_id slot, nt_interviewer = None, nt_email = None, nt_name = None,
                nt_event = ev, nt_status = EM_QUEUED,
                nt_start = (case slot of None \<Rightarrow> None | Some r \<Rightarrow> ir_start_at r),
                nt_zone = (case slot of None \<Rightarrow> None
                   | Some r \<Rightarrow> Some (or_else (ir_candidate_timezone r) (ir_timezone r))),
                nt_text = (case slot of None \<Rightarrow> [] | Some r \<Rightarrow> meeting_info_line r)\<rparr>])"

section \<open>Notices to an interviewer\<close>

definition notes_block :: "interview_round \<Rightarrow> string" where
  "notes_block r = (if or_else (ir_notes r) [] \<noteq> [] then char_of (10 :: nat) # char_of (10 :: nat) # ''Notes: '' @ or_else (ir_notes r) [] else [])"

definition reason_block :: "string option \<Rightarrow> string" where
  "reason_block s = (if or_else s [] \<noteq> [] then char_of (10 :: nat) # char_of (10 :: nat) # ''Reason: '' @ or_else s [] else [])"

text \<open>The lookup before a notice: same round, same interviewer, same event.\<close>

definition already_told :: "interview_round \<Rightarrow> interviewer_row \<Rightarrow> trigger_event \<Rightarrow> notice list \<Rightarrow> bool" where
  "already_told r v ev mail \<longleftrightarrow>
     list_ex live_notice (filter (\<lambda>n. nt_round n = Some (ir_id r) \<and> nt_interviewer n = Some (iv_id v) \<and> nt_event n = ev) mail)"

definition queue_interviewer_email ::
    "(trigger_event \<Rightarrow> bool) \<Rightarrow> trigger_event \<Rightarrow> bool \<Rightarrow> string \<Rightarrow> campaign_candidate \<Rightarrow> interview_round
     \<Rightarrow> interviewer_row \<Rightarrow> notice list \<Rightarrow> bool \<times> notice list" where
  "queue_interviewer_email has_template ev timed info cc r v mail =
     (if already_told r v ev mail then (False, mail)
      else if \<not> has_template ev then (False, mail)
      else (True, mail @ [\<lparr>nt_candidate = None, nt_campaign_candidate = cc_id cc,
             nt_round = Some (ir_id r), nt_interviewer = Some (iv_id v), nt_email = Some (iv_email v),
             nt_name = Some (iv_name v), nt_event = ev, nt_status = EM_QUEUED,
             nt_start = (if timed then ir_start_at r else None),
             nt_zone = (if timed then Some (or_else (iv_timezone v) (ir_timezone r)) else None),
             nt_text = info\<rparr>]))"

definition queue_invitation ::
    "(trigger_event \<Rightarrow> bool) \<Rightarrow> campaign_candidate \<Rightarrow> interview_round \<Rightarrow> interviewer_row \<Rightarrow> notice list \<Rightarrow> bool \<times> notice list" where
  "queue_invitation tm cc r v mail = queue_interviewer_email tm EV_IV_INVITATION True (notes_block r) cc r v mail"

definition queue_iv_rescheduled ::
    "(trigger_event \<Rightarrow> bool) \<Rightarrow> campaign_candidate \<Rightarrow> interview_round \<Rightarrow> interviewer_row \<Rightarrow> notice list \<Rightarrow> bool \<times> notice list" where
  "queue_iv_rescheduled tm cc r v mail = queue_interviewer_email tm EV_IV_RESCHEDULED True [] cc r v mail"

definition queue_iv_removed ::
    "(trigger_event \<Rightarrow> bool) \<Rightarrow> campaign_candidate \<Rightarrow> interview_round \<Rightarrow> interviewer_row \<Rightarrow> notice list \<Rightarrow> bool \<times> notice list" where
  "queue_iv_removed tm cc r v mail = queue_interviewer_email tm EV_IV_REMOVED False [] cc r v mail"

definition queue_iv_cancelled ::
    "(trigger_event \<Rightarrow> bool) \<Rightarrow> string option \<Rightarrow> campaign_candidate \<Rightarrow> interview_round \<Rightarrow> interviewer_row
     \<Rightarrow> notice list \<Rightarrow> bool \<times> notice list" where
  "queue_iv_cancelled tm reason cc r v mail =
     queue_interviewer_email tm EV_IV_CANCELLED True (reason_block reason) cc r v mail"

text \<open>
  After \<open>schedule\<close> and \<open>reschedule\<close>: an invitation for every active interviewer, a
  notice of the new time for those who had one, a notice of removal.
\<close>

fun invite_all ::
    "(trigger_event \<Rightarrow> bool) \<Rightarrow> bool \<Rightarrow> campaign_candidate \<Rightarrow> interview_round \<Rightarrow> interviewer_row list
     \<Rightarrow> notice list \<Rightarrow> notice list" where
  "invite_all tm rescheduled cc r [] mail = mail"
| "invite_all tm rescheduled cc r (v # vs) mail =
     (let (invited, mail1) = queue_invitation tm cc r v mail;
          mail2 = (if rescheduled \<and> \<not> invited then snd (queue_iv_rescheduled tm cc r v mail1) else mail1)
      in invite_all tm rescheduled cc r vs mail2)"

definition queue_lifecycle_emails ::
    "(trigger_event \<Rightarrow> bool) \<Rightarrow> bool \<Rightarrow> campaign_candidate \<Rightarrow> interview_round \<Rightarrow> interviewer_row list
     \<Rightarrow> interviewer_row list \<Rightarrow> notice list \<Rightarrow> notice list" where
  "queue_lifecycle_emails tm rescheduled cc r active removed mail =
     fold (\<lambda>v m. snd (queue_iv_removed tm cc r v m)) removed (invite_all tm rescheduled cc r active mail)"

section \<open>Requests for feedback\<close>

definition queue_feedback_request ::
    "(trigger_event \<Rightarrow> bool) \<Rightarrow> (nat \<Rightarrow> nat \<Rightarrow> string) \<Rightarrow> campaign_candidate \<Rightarrow> interview_round \<Rightarrow> interviewer_row
     \<Rightarrow> notice list \<Rightarrow> bool \<times> notice list" where
  "queue_feedback_request tm link cc r v mail =
     queue_interviewer_email tm EV_FEEDBACK_REQUESTED False (link (ir_id r) (iv_id v)) cc r v mail"

fun request_all ::
    "(trigger_event \<Rightarrow> bool) \<Rightarrow> (nat \<Rightarrow> nat \<Rightarrow> string) \<Rightarrow> campaign_candidate \<Rightarrow> interview_round \<Rightarrow> nat list
     \<Rightarrow> interviewer_row list \<Rightarrow> notice list \<Rightarrow> nat \<times> notice list" where
  "request_all tm link cc r given [] mail = (0, mail)"
| "request_all tm link cc r given (v # vs) mail =
     (if iv_id v \<in> set given then request_all tm link cc r given vs mail
      else let (queued, mail1) = queue_feedback_request tm link cc r v mail;
               (n, mail2) = request_all tm link cc r given vs mail1
           in (if queued then Suc n else n, mail2))"

definition queue_pending_feedback_requests ::
    "(trigger_event \<Rightarrow> bool) \<Rightarrow> (nat \<Rightarrow> nat \<Rightarrow> string) \<Rightarrow> campaign_candidate \<Rightarrow> interview_round
     \<Rightarrow> interviewer_row list \<Rightarrow> interview_db \<Rightarrow> notice list \<Rightarrow> nat \<times> notice list" where
  "queue_pending_feedback_requests tm link cc r vs d mail =
     request_all tm link cc r (map fb_interviewer (feedback_of_round (ir_id r) d)) vs mail"

section \<open>Each notice once\<close>

text \<open>
  What the lookups keep: of the live notices of a round, one for each recipient
  and event (the candidate is the recipient \<open>None\<close>).
\<close>

definition notice_key :: "notice \<Rightarrow> nat option \<times> nat option \<times> trigger_event" where
  "notice_key n = (nt_round n, nt_interviewer n, nt_event n)"

definition candidate_event :: "trigger_event \<Rightarrow> bool" where
  "candidate_event ev \<longleftrightarrow> ev \<in> set [EV_SCHEDULED, EV_RESCHEDULED, EV_CANCELLED, EV_SELECTED]"

definition mail_once :: "notice list \<Rightarrow> bool" where
  "mail_once mail \<longleftrightarrow>
     distinct (map notice_key (filter (\<lambda>n. live_notice n \<and> nt_round n \<noteq> None) mail))
     \<and> (\<forall>n\<in>set mail. nt_interviewer n = None \<longleftrightarrow> candidate_event (nt_event n))"

lemma already_told_iff:
  "already_told r v ev mail \<longleftrightarrow>
     (Some (ir_id r), Some (iv_id v), ev) \<in> notice_key ` set (filter live_notice mail)"
  by (auto simp: already_told_def list_ex_iff notice_key_def image_iff)

lemma mail_once_snoc:
  assumes "mail_once mail" "live_notice n \<longrightarrow> nt_round n \<noteq> None \<longrightarrow> notice_key n \<notin> notice_key ` set (filter live_notice mail)"
    "nt_interviewer n = None \<longleftrightarrow> candidate_event (nt_event n)"
  shows "mail_once (mail @ [n])"
  using assms by (auto simp: mail_once_def)

lemma interviewer_email_cases:
  assumes "queue_interviewer_email tm ev timed info cc r v mail = (b, mail')"
  shows "(\<not> b \<and> mail' = mail \<and> (already_told r v ev mail \<or> \<not> tm ev))
    \<or> (b \<and> \<not> already_told r v ev mail \<and> tm ev \<and> (\<exists>n. mail' = mail @ [n] \<and> live_notice n \<and>
          notice_key n = (Some (ir_id r), Some (iv_id v), ev)))"
  using assms by (auto simp: queue_interviewer_email_def notice_key_def live_notice_def split: if_splits)

lemma interviewer_email_once:
  assumes "mail_once mail" "\<not> candidate_event ev"
  shows "mail_once (snd (queue_interviewer_email tm ev timed info cc r v mail))"
proof -
  obtain b mail' where run: "queue_interviewer_email tm ev timed info cc r v mail = (b, mail')" by (metis surj_pair)
  show ?thesis
    using interviewer_email_cases[OF run]
  proof
    assume "b \<and> \<not> already_told r v ev mail \<and> tm ev \<and> (\<exists>n. mail' = mail @ [n] \<and> live_notice n \<and>
          notice_key n = (Some (ir_id r), Some (iv_id v), ev))"
    then obtain n where n: "mail' = mail @ [n]" "notice_key n = (Some (ir_id r), Some (iv_id v), ev)"
      "\<not> already_told r v ev mail" by blast
    have "mail_once (mail @ [n])"
      by (rule mail_once_snoc[OF assms(1)]) (use n assms(2) in \<open>auto simp: already_told_iff notice_key_def\<close>)
    then show ?thesis by (simp add: run n)
  qed (use run assms(1) in simp)
qed

lemma candidate_notice_once:
  assumes "mail_once mail" "candidate_event ev"
  shows "mail_once (queue_candidate_notice tm ev False cc (Some r) mail)"
proof -
  have "mail_once (mail @ [n])" if "notice_key n = (Some (ir_id r), None, ev)"
    "\<not> list_ex live_notice (filter (\<lambda>n. nt_round n = Some (ir_id r) \<and> nt_event n = ev) mail)" for n
    by (rule mail_once_snoc[OF assms(1)]) (use that assms(2) in \<open>auto simp: list_ex_iff notice_key_def\<close>)
  then show ?thesis
    using assms(1) by (simp add: queue_candidate_notice_def Let_def notice_key_def)
qed

lemma invite_all_once: "mail_once mail \<Longrightarrow> mail_once (invite_all tm rescheduled cc r vs mail)"
proof (induction vs arbitrary: mail)
  case (Cons v vs)
  have ev: "\<not> candidate_event EV_IV_INVITATION" "\<not> candidate_event EV_IV_RESCHEDULED"
    by (simp_all add: candidate_event_def)
  obtain b m1 where one: "queue_invitation tm cc r v mail = (b, m1)" by (metis surj_pair)
  have "mail_once m1"
    using interviewer_email_once[OF Cons.prems ev(1), of tm True "notes_block r" cc r v] one
    by (simp add: queue_invitation_def)
  moreover from this have "mail_once (snd (queue_iv_rescheduled tm cc r v m1))"
    using interviewer_email_once[OF _ ev(2)] by (simp add: queue_iv_rescheduled_def)
  ultimately show ?case using Cons.IH by (simp add: one Let_def)
qed simp

lemma lifecycle_once:
  assumes "mail_once mail"
  shows "mail_once (queue_lifecycle_emails tm rescheduled cc r active removed mail)"
proof -
  have "mail_once m \<Longrightarrow> mail_once (fold (\<lambda>v m. snd (queue_iv_removed tm cc r v m)) vs m)" for vs m
    by (induction vs arbitrary: m)
      (simp_all add: queue_iv_removed_def interviewer_email_once candidate_event_def)
  then show ?thesis using invite_all_once[OF assms] by (simp add: queue_lifecycle_emails_def)
qed

lemma cancelled_once:
  "mail_once m \<Longrightarrow> mail_once (fold (\<lambda>v m. snd (queue_iv_cancelled tm reason cc r v m)) vs m)"
  by (induction vs arbitrary: m)
    (simp_all add: queue_iv_cancelled_def interviewer_email_once candidate_event_def)

lemma request_all_once: "mail_once mail \<Longrightarrow> mail_once (snd (request_all tm link cc r given vs mail))"
proof (induction vs arbitrary: mail)
  case (Cons v vs)
  obtain b m1 where one: "queue_feedback_request tm link cc r v mail = (b, m1)" by (metis surj_pair)
  have "mail_once m1"
    using interviewer_email_once[OF Cons.prems, of EV_FEEDBACK_REQUESTED tm False "link (ir_id r) (iv_id v)" cc r v] one
    by (simp add: queue_feedback_request_def candidate_event_def)
  then show ?case using Cons.IH[of mail] Cons.IH[of m1] Cons.prems by (simp add: one case_prod_beta Let_def)
qed simp

text \<open>The effect of a round of requests.\<close>

lemma request_all_effect:
  assumes "distinct (map iv_id vs)"
  shows "\<exists>new. snd (request_all tm link cc r given vs mail) = mail @ new \<and>
     length new = fst (request_all tm link cc r given vs mail) \<and>
     map notice_key new = (if tm EV_FEEDBACK_REQUESTED
        then map (\<lambda>v. (Some (ir_id r), Some (iv_id v), EV_FEEDBACK_REQUESTED))
               (filter (\<lambda>v. iv_id v \<notin> set given \<and> \<not> already_told r v EV_FEEDBACK_REQUESTED mail) vs)
        else []) \<and> list_all live_notice new"
  using assms
proof (induction vs arbitrary: mail)
  case (Cons v vs)
  obtain b m1 where one: "queue_feedback_request tm link cc r v mail = (b, m1)" by (metis surj_pair)
  note q = interviewer_email_cases[OF one[unfolded queue_feedback_request_def]]
  have dist: "distinct (map iv_id vs)" "iv_id v \<notin> iv_id ` set vs" using Cons.prems by auto
  show ?case
  proof (cases "iv_id v \<in> set given \<or> \<not> b")
    case True
    then have "snd (request_all tm link cc r given (v # vs) mail) = snd (request_all tm link cc r given vs mail)"
      "fst (request_all tm link cc r given (v # vs) mail) = fst (request_all tm link cc r given vs mail)"
      using q by (auto simp: one case_prod_beta Let_def)
    moreover have "iv_id v \<in> set given \<or> already_told r v EV_FEEDBACK_REQUESTED mail \<or> \<not> tm EV_FEEDBACK_REQUESTED"
      using True q by blast
    ultimately show ?thesis using Cons.IH[OF dist(1), of mail] by auto
  next
    case False
    then obtain n where n: "m1 = mail @ [n]" "live_notice n" "tm EV_FEEDBACK_REQUESTED"
      "notice_key n = (Some (ir_id r), Some (iv_id v), EV_FEEDBACK_REQUESTED)"
      "\<not> already_told r v EV_FEEDBACK_REQUESTED mail" and fresh: "iv_id v \<notin> set given" "b"
      using q by blast
    have told: "already_told r w EV_FEEDBACK_REQUESTED m1 \<longleftrightarrow> already_told r w EV_FEEDBACK_REQUESTED mail"
      if "w \<in> set vs" for w
    proof -
      have "iv_id w \<noteq> iv_id v" using that dist(2) by (metis imageI)
      then show ?thesis using n(2,4) by (auto simp: already_told_iff n(1))
    qed
    obtain new where new: "snd (request_all tm link cc r given vs m1) = m1 @ new"
      "length new = fst (request_all tm link cc r given vs m1)"
      "map notice_key new = map (\<lambda>v. (Some (ir_id r), Some (iv_id v), EV_FEEDBACK_REQUESTED))
               (filter (\<lambda>v. iv_id v \<notin> set given \<and> \<not> already_told r v EV_FEEDBACK_REQUESTED m1) vs)"
      "list_all live_notice new"
      using Cons.IH[OF dist(1), of m1] n(3) by auto
    have "filter (\<lambda>v. iv_id v \<notin> set given \<and> \<not> already_told r v EV_FEEDBACK_REQUESTED m1) vs =
        filter (\<lambda>v. iv_id v \<notin> set given \<and> \<not> already_told r v EV_FEEDBACK_REQUESTED mail) vs"
      by (rule filter_cong) (use told in auto)
    then show ?thesis
      using new n fresh by (intro exI[of _ "n # new"]) (simp add: one case_prod_beta Let_def)
  qed
qed simp

end
