(* ===== verification/Interview_Service.thy ===== *)
theory Interview_Service
  imports Interview_Notices
begin

text \<open>
  \<open>InterviewScheduleService\<close> (\<open>app/services/interview_schedule_service.py\<close>), the
  hourly feedback sweep (\<open>interview_feedback_request_sweep_service.py\<close>) and
  \<open>InterviewFeedbackService\<close> (\<open>interview_feedback_service.py\<close>).

  The state is the database, the table of notices and the calls made to the
  calendar providers.  Parameters: \<open>sv_to_utc\<close>, the conversion of a wall-clock
  time in a zone (the zone database); \<open>sv_create\<close>, what a provider answers to the
  creation of an event (a link and an event id, or neither); \<open>sv_template\<close>, which
  notices have an active template; \<open>sv_link\<close>, the signed feedback link.  The
  providers' \<open>update_event\<close> and \<open>delete_event\<close> never raise and write nothing here,
  so they are entries of the call list only.  An error value stands for the
  raised exception, after which the session is rolled back.
\<close>

section \<open>State and requests\<close>

datatype calendar_call =
    CC_Create interview_platform string int int "string list"
  | CC_Update interview_platform string string int int "string list"
  | CC_Delete interview_platform string string

record interview_world =
  wo_hiring :: hiring_db
  wo_mail :: "notice list"
  wo_calls :: "calendar_call list"

record schedule_request =
  rq_type :: "string option"
  rq_people :: "interviewer_input list"
  rq_start :: int
  rq_end :: int
  rq_timezone :: string
  rq_candidate_timezone :: "string option"
  rq_platform :: "interview_platform option"
  rq_location :: "string option"
  rq_notes :: "string option"
  rq_reason :: "string option"

record interview_env =
  sv_to_utc :: "string \<Rightarrow> int \<Rightarrow> int"
  sv_create :: "interview_platform \<Rightarrow> string \<Rightarrow> schedule_request \<Rightarrow> string option \<times> string option"
  sv_template :: "trigger_event \<Rightarrow> bool"
  sv_link :: "nat \<Rightarrow> nat \<Rightarrow> string"

datatype interview_error =
    IE_No_Candidate
  | IE_No_Campaign
  | IE_Not_Owner
  | IE_No_Round
  | IE_Not_Found
  | IE_Completed
  | IE_Bad_Status interview_status
  | IE_Already_Cancelled
  | IE_Not_Started
  | IE_Not_Ended
  | IE_Already_Over interview_status
  | IE_Bad_Link
  | IE_Submitted
  | IE_Database db_error

type_synonym round_response = "interview_round \<times> interviewer_row list \<times> round_history_row list"

section \<open>Access\<close>

definition owns_campaign :: "campaign_candidate \<Rightarrow> string \<Rightarrow> hiring_db \<Rightarrow> (interview_error, unit) result" where
  "owns_campaign cc user h =
     (case find_campaign (cc_campaign cc) h of
        None \<Rightarrow> Inl IE_No_Campaign
      | Some ca \<Rightarrow> if ca_manager ca \<noteq> user then Inl IE_Not_Owner else Inr ())"

definition candidate_for ::
    "nat \<Rightarrow> string \<Rightarrow> role_name list \<Rightarrow> hiring_db \<Rightarrow> (interview_error, campaign_candidate) result" where
  "candidate_for i user roles h =
     (case find_candidate i h of
        None \<Rightarrow> Inl IE_No_Candidate
      | Some cc \<Rightarrow>
          if HR_ADMIN \<notin> set roles \<and> RECRUITER \<notin> set roles
          then res_bind (owns_campaign cc user h) (\<lambda>_. Inr cc)
          else Inr cc)"

definition campaign_access :: "(string \<Rightarrow> nat \<Rightarrow> bool) \<Rightarrow> campaign_row \<Rightarrow> string \<Rightarrow> role_name list \<Rightarrow> bool" where
  "campaign_access works_on ca user roles \<longleftrightarrow>
     HR_ADMIN \<in> set roles
     \<or> (HIRING_MANAGER \<in> set roles \<and> ca_manager ca = user)
     \<or> (RECRUITER \<in> set roles \<and> works_on user (ca_id ca))"

section \<open>Writing a round\<close>

definition calendar_service_for :: "interview_platform option \<Rightarrow> interview_platform option" where
  "calendar_service_for p = (if p = Some TEAMS \<or> p = Some MEET then p else None)"

definition round_history :: "nat \<Rightarrow> interview_db \<Rightarrow> round_history_row list" where
  "round_history i d = filter (\<lambda>x. rh_interview x = i) (db_round_history d)"

definition response :: "interview_round \<Rightarrow> interviewer_row list \<Rightarrow> interview_db \<Rightarrow> round_response" where
  "response r vs d = (r, vs, round_history (ir_id r) d)"

definition get_rounds ::
    "nat \<Rightarrow> string \<Rightarrow> role_name list \<Rightarrow> hiring_db \<Rightarrow> (interview_error, round_response list) result" where
  "get_rounds i user roles h =
     res_bind (candidate_for i user roles h) (\<lambda>cc.
       let rounds = all_rounds i (hd_interviews h) in
       if rounds = [] then Inl IE_No_Round
       else Inr (map (\<lambda>r. response r (active_interviewers (ir_id r) (hd_interviews h)) (hd_interviews h)) rounds))"

definition first_role :: "role_name list \<Rightarrow> role_name option" where
  "first_role roles = (case roles of [] \<Rightarrow> None | r # rs \<Rightarrow> Some r)"

definition apply_schedule_request ::
    "interview_env \<Rightarrow> int \<Rightarrow> string \<Rightarrow> role_name list \<Rightarrow> schedule_request \<Rightarrow> interview_round
     \<Rightarrow> interview_round \<times> calendar_call list" where
  "apply_schedule_request sv now user roles rq r =
     (let start = sv_to_utc sv (rq_timezone rq) (rq_start rq);
          stop = sv_to_utc sv (rq_timezone rq) (rq_end rq);
          r1 = r\<lparr>ir_type := rq_type rq, ir_start_at := Some start, ir_end_at := Some stop,
                ir_timezone := rq_timezone rq, ir_candidate_timezone := rq_candidate_timezone rq,
                ir_platform := rq_platform rq, ir_location := rq_location rq, ir_notes := rq_notes rq,
                ir_status := IS_SCHEDULED, ir_scheduled_by := Some user,
                ir_scheduled_by_role := map_option role_value (first_role roles), ir_updated_at := now\<rparr>
      in (case calendar_service_for (rq_platform rq) of
            None \<Rightarrow> (r1, [])
          | Some p \<Rightarrow>
              (let (link, event) = sv_create sv p user rq
               in (r1\<lparr>ir_meeting_link := link, ir_event_id := event\<rparr>,
                   [CC_Create p user start stop (map ii_email (rq_people rq))]))))"

definition set_interviews :: "interview_db \<Rightarrow> hiring_db \<Rightarrow> hiring_db" where
  "set_interviews d h = h\<lparr>hd_interviews := d\<rparr>"

text \<open>
  \<open>schedule\<close>.  Between the read of the latest round and the insert of the next
  one another session may commit: \<open>other\<close> is its effect.
\<close>

definition fill_round ::
    "interview_env \<Rightarrow> int \<Rightarrow> string \<Rightarrow> role_name list \<Rightarrow> schedule_request \<Rightarrow> campaign_candidate
     \<Rightarrow> interview_round option \<Rightarrow> interview_round \<Rightarrow> interview_db \<Rightarrow> interview_world
     \<Rightarrow> round_response \<times> interview_world" where
  "fill_round sv now user roles rq cc previous r d w =
     (let (r1, calls) = apply_schedule_request sv now user roles rq r;
          ((active, removed), d1) = replace_interviewers (ir_id r) (rq_people rq) (put_round r1 d);
          h1 = audit (Some user) (first_role roles) ''INTERVIEW_SCHEDULED'' (cc_id cc)
                 ([(''interview_id'', JNum (of_nat (ir_id r))), (''round_number'', JNum (of_int (ir_number r))),
                   (''start_at'', json_opt JTime (ir_start_at r1)), (''end_at'', json_opt JTime (ir_end_at r1))] @
                  (case previous of None \<Rightarrow> []
                   | Some p \<Rightarrow> [(''previous_round_id'', JNum (of_nat (ir_id p))),
                                (''previous_round_number'', JNum (of_int (ir_number p)))]))
                 (set_interviews d1 (wo_hiring w));
          mail1 = queue_candidate_notice (sv_template sv) EV_SCHEDULED False cc (Some r1) (wo_mail w);
          mail2 = queue_lifecycle_emails (sv_template sv) False cc r1 active removed mail1
      in (response r1 active d1, \<lparr>wo_hiring = h1, wo_mail = mail2, wo_calls = wo_calls w @ calls\<rparr>))"

definition schedule_interview ::
    "interview_env \<Rightarrow> (interview_db \<Rightarrow> interview_db) \<Rightarrow> int \<Rightarrow> nat \<Rightarrow> string \<Rightarrow> role_name list \<Rightarrow> schedule_request
     \<Rightarrow> interview_world \<Rightarrow> (interview_error, round_response \<times> interview_world) result" where
  "schedule_interview sv other now i user roles rq w =
     res_bind (candidate_for i user roles (wo_hiring w)) (\<lambda>cc.
       (case latest_round i (hd_interviews (wo_hiring w)) of
          None \<Rightarrow> Inl IE_No_Round
        | Some latest \<Rightarrow>
            if ir_status latest = IS_PENDING
            then Inr (fill_round sv now user roles rq cc None latest (hd_interviews (wo_hiring w)) w)
            else
              (case create_next_round i (ir_number latest + 1) now (other (hd_interviews (wo_hiring w))) of
                 ((None, _), d) \<Rightarrow> Inl (IE_Database Unique_Violation)
               | ((Some r, False), d) \<Rightarrow>
                   Inr (response r (active_interviewers (ir_id r) d) d,
                        w\<lparr>wo_hiring := set_interviews d (wo_hiring w)\<rparr>)
               | ((Some r, True), d) \<Rightarrow>
                   Inr (fill_round sv now user roles rq cc (Some latest) r d w))))"

section \<open>Rescheduling\<close>

definition reschedulable :: "interview_status list" where
  "reschedulable = [IS_SCHEDULED, IS_RESCHEDULED, IS_CANCELLED]"

definition is_reschedule_event :: "interview_env \<Rightarrow> schedule_request \<Rightarrow> interview_round \<Rightarrow> bool" where
  "is_reschedule_event sv rq r \<longleftrightarrow>
     ir_status r = IS_CANCELLED
     \<or> Some (sv_to_utc sv (rq_timezone rq) (rq_start rq)) \<noteq> ir_start_at r
     \<or> Some (sv_to_utc sv (rq_timezone rq) (rq_end rq)) \<noteq> ir_end_at r"

text \<open>A cancelled round is taken up again: what the cancellation left is cleared.\<close>

definition reactivate :: "interview_round \<Rightarrow> interview_round" where
  "reactivate r =
     (if ir_status r = IS_CANCELLED
      then r\<lparr>ir_meeting_link := None, ir_event_id := None, ir_cancel_reason := None\<rparr> else r)"

definition event_id :: "interview_round \<Rightarrow> string option" where
  "event_id r = (case ir_event_id r of None \<Rightarrow> None | Some e \<Rightarrow> if e = [] then None else Some e)"

definition sync_calendar ::
    "interview_env \<Rightarrow> string \<Rightarrow> schedule_request \<Rightarrow> interview_round \<Rightarrow> interview_round \<Rightarrow> interview_round \<times> calendar_call list" where
  "sync_calendar sv user rq old r =
     (let cancelled = (ir_status old = IS_CANCELLED);
          old_service = (if cancelled then None else calendar_service_for (ir_platform old));
          existing = (if cancelled then None else event_id old);
          start = sv_to_utc sv (rq_timezone rq) (rq_start rq);
          stop = sv_to_utc sv (rq_timezone rq) (rq_end rq);
          people = map ii_email (rq_people rq)
      in (case calendar_service_for (rq_platform rq) of
            Some p \<Rightarrow>
              (case (if old_service = Some p then existing else None) of
                 Some e \<Rightarrow> (r, [CC_Update p user e start stop people])
               | None \<Rightarrow>
                   (let (link, event) = sv_create sv p user rq
                    in (r\<lparr>ir_meeting_link := link, ir_event_id := event\<rparr>,
                        (case (old_service, existing) of
                           (Some q, Some e) \<Rightarrow> [CC_Delete q user e]
                         | _ \<Rightarrow> []) @ [CC_Create p user start stop people])))
          | None \<Rightarrow>
              (case (old_service, existing) of
                 (Some q, Some e) \<Rightarrow> (r\<lparr>ir_meeting_link := None, ir_event_id := None\<rparr>, [CC_Delete q user e])
               | _ \<Rightarrow> (r, []))))"

definition rescheduled_round ::
    "interview_env \<Rightarrow> int \<Rightarrow> schedule_request \<Rightarrow> interview_round \<Rightarrow> interview_round" where
  "rescheduled_round sv now rq r =
     (reactivate r)\<lparr>ir_type := rq_type rq,
       ir_start_at := Some (sv_to_utc sv (rq_timezone rq) (rq_start rq)),
       ir_end_at := Some (sv_to_utc sv (rq_timezone rq) (rq_end rq)),
       ir_timezone := rq_timezone rq, ir_candidate_timezone := rq_candidate_timezone rq,
       ir_platform := rq_platform rq, ir_location := rq_location rq, ir_notes := rq_notes rq,
       ir_status := (if is_reschedule_event sv rq r then IS_RESCHEDULED else ir_status r),
       ir_updated_at := now\<rparr>"

definition reschedule_interview ::
    "interview_env \<Rightarrow> int \<Rightarrow> nat \<Rightarrow> string \<Rightarrow> role_name list \<Rightarrow> schedule_request
     \<Rightarrow> interview_world \<Rightarrow> (interview_error, round_response \<times> interview_world) result" where
  "reschedule_interview sv now i user roles rq w =
     (case round_by_id i (hd_interviews (wo_hiring w)) of
        None \<Rightarrow> Inl IE_Not_Found
      | Some r \<Rightarrow>
          res_bind (candidate_for (ir_candidate r) user roles (wo_hiring w)) (\<lambda>cc.
            if ir_status r = IS_COMPLETED then Inl IE_Completed
            else if ir_status r \<notin> set reschedulable then Inl (IE_Bad_Status (ir_status r))
            else
              let event = is_reschedule_event sv rq r;
                  (r1, calls) = sync_calendar sv user rq r (rescheduled_round sv now rq r);
                  ((active, removed), d1) =
                    replace_interviewers (ir_id r) (rq_people rq) (put_round r1 (hd_interviews (wo_hiring w)))
              in
              (case (if event
                     then add_round_history (ir_id r) HE_RESCHEDULED (ir_start_at r) (ir_start_at r1) (Some user)
                            (map_option role_value (first_role roles)) (rq_reason rq) d1
                     else Inr d1) of
                 Inl e \<Rightarrow> Inl (IE_Database e)
               | Inr d2 \<Rightarrow>
                   let h1 = set_interviews d2 (wo_hiring w);
                       h2 = (if event
                             then audit (Some user) (first_role roles) ''INTERVIEW_RESCHEDULED'' (cc_id cc)
                                    [(''interview_id'', JNum (of_nat (ir_id r))),
                                     (''old_start_at'', json_opt JTime (ir_start_at r)),
                                     (''new_start_at'', json_opt JTime (ir_start_at r1)),
                                     (''reason'', json_opt JStr (rq_reason rq))] h1
                             else h1);
                       mail1 = (if event
                                then queue_candidate_notice (sv_template sv) EV_RESCHEDULED False cc (Some r1) (wo_mail w)
                                else wo_mail w);
                       mail2 = queue_lifecycle_emails (sv_template sv) event cc r1 active removed mail1
                   in Inr (response r1 active d2,
                           \<lparr>wo_hiring = h2, wo_mail = mail2, wo_calls = wo_calls w @ calls\<rparr>))))"

section \<open>Cancelling, completing and asking for feedback\<close>

definition cancel_interview ::
    "interview_env \<Rightarrow> int \<Rightarrow> nat \<Rightarrow> string \<Rightarrow> role_name list \<Rightarrow> string
     \<Rightarrow> interview_world \<Rightarrow> (interview_error, round_response \<times> interview_world) result" where
  "cancel_interview sv now i user roles reason w =
     (case round_by_id i (hd_interviews (wo_hiring w)) of
        None \<Rightarrow> Inl IE_Not_Found
      | Some r \<Rightarrow>
          res_bind (candidate_for (ir_candidate r) user roles (wo_hiring w)) (\<lambda>cc.
            if ir_status r = IS_CANCELLED then Inl IE_Already_Cancelled
            else
              let r1 = cancelled_round reason now r;
                  calls = (case (calendar_service_for (ir_platform r), event_id r) of
                             (Some p, Some e) \<Rightarrow> [CC_Delete p user e] | _ \<Rightarrow> [])
              in
              (case add_round_history (ir_id r) HE_CANCELLED (ir_start_at r) None (Some user)
                      (map_option role_value (first_role roles)) (Some reason)
                      (put_round r1 (hd_interviews (wo_hiring w))) of
                 Inl e \<Rightarrow> Inl (IE_Database e)
               | Inr d1 \<Rightarrow>
                   let h1 = audit (Some user) (first_role roles) ''INTERVIEW_CANCELLED'' (cc_id cc)
                         [(''interview_id'', JNum (of_nat (ir_id r))), (''cancel_reason'', JStr reason)]
                         (set_interviews d1 (wo_hiring w));
                       active = active_interviewers (ir_id r) d1;
                       mail1 = queue_candidate_notice (sv_template sv) EV_CANCELLED False cc (Some r1) (wo_mail w);
                       mail2 = fold (\<lambda>v m. snd (queue_iv_cancelled (sv_template sv) (Some reason) cc r1 v m)) active mail1
                   in Inr (response r1 active d1,
                           \<lparr>wo_hiring = h1, wo_mail = mail2, wo_calls = wo_calls w @ calls\<rparr>))))"

definition request_feedback ::
    "interview_env \<Rightarrow> int \<Rightarrow> nat \<Rightarrow> string \<Rightarrow> role_name list
     \<Rightarrow> interview_world \<Rightarrow> (interview_error, nat \<times> interview_world) result" where
  "request_feedback sv now i user roles w =
     (case round_by_id i (hd_interviews (wo_hiring w)) of
        None \<Rightarrow> Inl IE_Not_Found
      | Some r \<Rightarrow>
          res_bind (candidate_for (ir_candidate r) user roles (wo_hiring w)) (\<lambda>cc.
            if ir_status r \<notin> set [IS_SCHEDULED, IS_RESCHEDULED] then Inl (IE_Bad_Status (ir_status r))
            else if (case ir_start_at r of None \<Rightarrow> True | Some s \<Rightarrow> s > now) then Inl IE_Not_Started
            else
              let (n, mail) = queue_pending_feedback_requests (sv_template sv) (sv_link sv) cc r
                    (active_interviewers (ir_id r) (hd_interviews (wo_hiring w))) (hd_interviews (wo_hiring w)) (wo_mail w)
              in Inr (n, w\<lparr>wo_mail := mail\<rparr>)))"

definition completed_round :: "int \<Rightarrow> interview_round \<Rightarrow> interview_round" where
  "completed_round now r = r\<lparr>ir_status := IS_COMPLETED, ir_updated_at := now\<rparr>"

definition complete_interview ::
    "interview_env \<Rightarrow> int \<Rightarrow> nat \<Rightarrow> string \<Rightarrow> role_name list
     \<Rightarrow> interview_world \<Rightarrow> (interview_error, (interview_status \<times> nat) \<times> interview_world) result" where
  "complete_interview sv now i user roles w =
     (case round_by_id i (hd_interviews (wo_hiring w)) of
        None \<Rightarrow> Inl IE_Not_Found
      | Some r \<Rightarrow>
          res_bind (candidate_for (ir_candidate r) user roles (wo_hiring w)) (\<lambda>cc.
            if ir_status r \<in> set [IS_COMPLETED, IS_CANCELLED] then Inl (IE_Already_Over (ir_status r))
            else if (case ir_end_at r of None \<Rightarrow> True | Some e \<Rightarrow> e > now) then Inl IE_Not_Ended
            else
              let r1 = completed_round now r;
                  d1 = put_round r1 (hd_interviews (wo_hiring w));
                  (n, mail) = queue_pending_feedback_requests (sv_template sv) (sv_link sv) cc r1
                    (active_interviewers (ir_id r) d1) d1 (wo_mail w)
              in Inr ((ir_status r1, n),
                      w\<lparr>wo_hiring := set_interviews d1 (wo_hiring w), wo_mail := mail\<rparr>)))"

fun sweep_rounds ::
    "interview_env \<Rightarrow> interview_round list \<Rightarrow> hiring_db \<Rightarrow> notice list \<Rightarrow> nat \<times> notice list" where
  "sweep_rounds sv [] h mail = (0, mail)"
| "sweep_rounds sv (r # rs) h mail =
     (let vs = active_interviewers (ir_id r) (hd_interviews h) in
      if vs = [] then sweep_rounds sv rs h mail
      else (case find_candidate (ir_candidate r) h of
              None \<Rightarrow> sweep_rounds sv rs h mail
            | Some cc \<Rightarrow>
                let (n, mail1) = queue_pending_feedback_requests (sv_template sv) (sv_link sv) cc r vs (hd_interviews h) mail;
                    (m, mail2) = sweep_rounds sv rs h mail1
                in (n + m, mail2)))"

definition sweep_feedback :: "interview_env \<Rightarrow> int \<Rightarrow> interview_world \<Rightarrow> nat \<times> interview_world" where
  "sweep_feedback sv now w =
     (let (n, mail) = sweep_rounds sv (ended_active_rounds now (hd_interviews (wo_hiring w))) (wo_hiring w) (wo_mail w)
      in (n, w\<lparr>wo_mail := mail\<rparr>))"

section \<open>Submitted feedback\<close>

fun recommendation_value :: "recommendation \<Rightarrow> string" where
  "recommendation_value REC_ADVANCE = ''ADVANCE''"
| "recommendation_value REC_SELECT = ''SELECT''"
| "recommendation_value REC_REJECT = ''REJECT''"
| "recommendation_value REC_HOLD = ''HOLD''"

text \<open>\<open>verify\<close> checks a token and yields the round and the interviewer it names.\<close>

definition resolve_token ::
    "(string \<Rightarrow> (nat \<times> nat) option) \<Rightarrow> string \<Rightarrow> interview_db
     \<Rightarrow> (interview_error, interview_round \<times> interviewer_row) result" where
  "resolve_token verify token d =
     (case verify token of
        None \<Rightarrow> Inl IE_Bad_Link
      | Some (ri, vi) \<Rightarrow>
          (case (round_by_id ri d, interviewer_by_id vi d) of
             (Some r, Some v) \<Rightarrow> if iv_interview v \<noteq> ir_id r then Inl IE_Bad_Link else Inr (r, v)
           | _ \<Rightarrow> Inl IE_Bad_Link))"

definition submit_feedback ::
    "(string \<Rightarrow> (nat \<times> nat) option) \<Rightarrow> int \<Rightarrow> string \<Rightarrow> recommendation \<Rightarrow> string option
     \<Rightarrow> hiring_db \<Rightarrow> (interview_error, hiring_db) result" where
  "submit_feedback verify now token rec notes h =
     res_bind (resolve_token verify token (hd_interviews h)) (\<lambda>(r, v).
       if (case ir_end_at r of None \<Rightarrow> True | Some e \<Rightarrow> e > now) then Inl IE_Not_Ended
       else
         let ((fb, created), d1) = create_feedback (ir_id r) (iv_id v) rec notes (hd_interviews h) in
         if \<not> created then Inl IE_Submitted
         else
           (case find_candidate (ir_candidate r) h of
              None \<Rightarrow> Inl IE_No_Candidate
            | Some cc \<Rightarrow>
                Inr (audit None (Some (Other_Role ''EXTERNAL_INTERVIEWER'')) ''INTERVIEW_FEEDBACK_SUBMITTED'' (cc_id cc)
                  [(''interview_schedule_id'', JNum (of_nat (ir_id r))), (''interviewer_id'', JNum (of_nat (iv_id v))),
                   (''recommendation'', JStr (recommendation_value rec))] (set_interviews d1 h))))"

definition feedback_for_round ::
    "nat \<Rightarrow> nat \<Rightarrow> string \<Rightarrow> role_name list \<Rightarrow> hiring_db
     \<Rightarrow> (interview_error, (interviewer_row option \<times> feedback_row) list) result" where
  "feedback_for_round cand i user roles h =
     (case find_candidate cand h of
        None \<Rightarrow> Inl IE_No_Candidate
      | Some cc \<Rightarrow>
          res_bind (if HR_ADMIN \<notin> set roles then owns_campaign cc user h else Inr ()) (\<lambda>_.
            (case round_by_id i (hd_interviews h) of
               None \<Rightarrow> Inl IE_Not_Found
             | Some r \<Rightarrow>
                 if ir_candidate r \<noteq> cand then Inl IE_Not_Found
                 else Inr (map (\<lambda>f. (find (\<lambda>v. iv_id v = fb_interviewer f) (interviewers_of i (hd_interviews h)), f))
                        (feedback_of_round i (hd_interviews h))))))"

end
