(* ===== verification/Interview_Service_Props.thy ===== *)
theory Interview_Service_Props
  imports Interview_Service Interviewer_List Stage_Transition_Props
begin

text \<open>
  What the interview service guarantees: the life cycle of a round as a step
  relation on the whole state, its invariant by rule induction, the quiet edit,
  the notices that go out once and therefore stay away the second time, the
  feedback sweep, and feedback given once.
\<close>

section \<open>Rounds under the handlers\<close>

abbreviation db_of :: "interview_world \<Rightarrow> interview_db" where
  "db_of w \<equiv> hd_interviews (wo_hiring w)"

text \<open>The life cycle of one round, as the handlers move it.\<close>

inductive status_step :: "interview_status \<Rightarrow> interview_status \<Rightarrow> bool" where
  keep: "status_step s s"
| plan: "status_step IS_PENDING IS_SCHEDULED"
| move: "s \<in> set reschedulable \<Longrightarrow> status_step s IS_RESCHEDULED"
| call_off: "status_step s IS_CANCELLED"
| finish: "s \<in> set [IS_SCHEDULED, IS_RESCHEDULED] \<Longrightarrow> status_step s IS_COMPLETED"

inductive_cases status_from_completed: "status_step IS_COMPLETED s"
inductive_cases status_to_scheduled: "status_step s IS_SCHEDULED"

definition round_fine :: "interview_round \<Rightarrow> bool" where
  "round_fine r \<longleftrightarrow>
     (ir_status r = IS_PENDING \<longrightarrow> ir_start_at r = None \<and> ir_end_at r = None)
     \<and> (ir_status r \<in> set [IS_SCHEDULED, IS_RESCHEDULED, IS_COMPLETED] \<longrightarrow> ir_start_at r \<noteq> None \<and> ir_end_at r \<noteq> None)
     \<and> (ir_status r = IS_CANCELLED \<longrightarrow> ir_cancel_reason r \<noteq> None)"

definition rounds_fine :: "interview_db \<Rightarrow> bool" where
  "rounds_fine d \<longleftrightarrow> (\<forall>r\<in>set (db_rounds d). round_fine r)"

text \<open>No round disappears or changes its place, and each status moves along the life cycle.\<close>

definition rounds_step :: "interview_db \<Rightarrow> interview_db \<Rightarrow> bool" where
  "rounds_step d d' \<longleftrightarrow> (\<forall>r\<in>set (db_rounds d). \<exists>r'\<in>set (db_rounds d').
     same_slot r r' \<and> status_step (ir_status r) (ir_status r'))"

definition world_ok :: "interview_world \<Rightarrow> bool" where
  "world_ok w \<longleftrightarrow> wf_interviews (db_of w) \<and> rounds_fine (db_of w) \<and> mail_once (wo_mail w)"

lemma rounds_step_refl: "rounds_step d d"
  by (auto simp: rounds_step_def same_slot_def intro: status_step.keep)

lemma rounds_step_put:
  assumes "round_keys_ok d" "r \<in> set (db_rounds d)" "same_slot r r'"
    and "status_step (ir_status r) (ir_status r')" "round_fine r'" "rounds_fine d"
    and rounds: "db_rounds d' = db_rounds (put_round r' d)"
  shows "rounds_step d d'" "rounds_fine d'"
proof -
  have id: "ir_id r' = ir_id r" using assms(3) by (simp add: same_slot_def)
  show "rounds_step d d'"
    unfolding rounds_step_def
  proof
    fix x assume x: "x \<in> set (db_rounds d)"
    show "\<exists>y\<in>set (db_rounds d'). same_slot x y \<and> status_step (ir_status x) (ir_status y)"
    proof (cases "ir_id x = ir_id r")
      case True
      then have "x = r" using round_keys_inj[OF assms(1) x assms(2)] by simp
      moreover have "r' \<in> set (db_rounds d')" using assms(2) id by (auto simp: rounds put_round_def)
      ultimately show ?thesis using assms(3,4) by blast
    next
      case False
      then have "x \<in> set (db_rounds d')" using x id by (force simp: rounds put_round_def)
      then show ?thesis by (intro bexI[of _ x]) (auto simp: same_slot_def intro: status_step.keep)
    qed
  qed
  show "rounds_fine d'"
    using assms(5,6) by (auto simp: rounds_fine_def rounds put_round_def)
qed

lemma add_round_history_Inr:
  assumes "add_round_history i ev old new by role reason d = Inr d'"
  shows "db_rounds d' = db_rounds d" "db_interviewers d' = db_interviewers d" "db_feedback d' = db_feedback d"
    "db_next d' = db_next d" "\<exists>row. db_round_history d' = db_round_history d @ [row] \<and> rh_interview row = i \<and> rh_event row = ev
       \<and> rh_old_start row = old \<and> rh_new_start row = new \<and> by = Some (rh_changed_by row) \<and> role = Some (rh_role row)"
    "wf_interviews d' \<longleftrightarrow> wf_interviews d"
proof -
  obtain u ro where "by = Some u" "role = Some ro"
    and d': "d' = d\<lparr>db_round_history := db_round_history d @
            [\<lparr>rh_interview = i, rh_event = ev, rh_old_start = old, rh_new_start = new,
              rh_changed_by = u, rh_role = ro, rh_reason = reason\<rparr>]\<rparr>"
    using assms by (auto simp: add_round_history_def split: option.splits)
  then show "db_rounds d' = db_rounds d" "db_interviewers d' = db_interviewers d" "db_feedback d' = db_feedback d"
    "db_next d' = db_next d" "\<exists>row. db_round_history d' = db_round_history d @ [row] \<and> rh_interview row = i \<and> rh_event row = ev
       \<and> rh_old_start row = old \<and> rh_new_start row = new \<and> by = Some (rh_changed_by row) \<and> role = Some (rh_role row)"
    by simp_all
  show "wf_interviews d' \<longleftrightarrow> wf_interviews d"
    by (simp add: d' wf_interviews_def round_keys_ok_def rounds_numbered_def all_rounds_def interviewer_keys_ok_def
        feedback_once_def)
qed

lemma set_interviews_simps [simp]:
  "hd_interviews (set_interviews d h) = d" "hd_candidates (set_interviews d h) = hd_candidates h"
  "hd_rules (set_interviews d h) = hd_rules h" "hd_audit (set_interviews d h) = hd_audit h"
  by (simp_all add: set_interviews_def)

section \<open>Effect of each handler\<close>

lemma apply_schedule_round:
  assumes "apply_schedule_request sv now user roles rq r = (r1, calls)"
  shows "same_slot r r1" "ir_status r1 = IS_SCHEDULED" "round_fine r1"
    "ir_start_at r1 = Some (sv_to_utc sv (rq_timezone rq) (rq_start rq))"
    "ir_end_at r1 = Some (sv_to_utc sv (rq_timezone rq) (rq_end rq))"
  using assms
  by (auto simp: apply_schedule_request_def Let_def same_slot_def round_fine_def split: option.splits prod.splits)

lemma fill_round_effect:
  assumes ok: "wf_interviews d" "rounds_fine d" "mail_once (wo_mail w)"
    and r: "r \<in> set (db_rounds d)" "ir_status r = IS_PENDING"
    and run: "fill_round sv now user roles rq cc previous r d w = (res, w')"
  shows "\<exists>r1. fst res = r1 \<and> same_slot r r1 \<and> ir_status r1 = IS_SCHEDULED
     \<and> ir_start_at r1 = Some (sv_to_utc sv (rq_timezone rq) (rq_start rq))
     \<and> ir_end_at r1 = Some (sv_to_utc sv (rq_timezone rq) (rq_end rq))
     \<and> db_rounds (db_of w') = db_rounds (put_round r1 d)
     \<and> mail_of ` set (active_interviewers (ir_id r) (db_of w')) = mail_in ` set (rq_people rq)"
    and "rounds_step d (db_of w')" "world_ok w'"
proof -
  obtain r1 calls where ap: "apply_schedule_request sv now user roles rq r = (r1, calls)" by (metis surj_pair)
  obtain active removed d1 where rep: "replace_interviewers (ir_id r) (rq_people rq) (put_round r1 d) = ((active, removed), d1)"
    by (metis surj_pair)
  note a = apply_schedule_round[OF ap]
  have wf: "wf_interviews (put_round r1 d)" by (rule put_round_wf[OF ok(1) r(1) a(1)])
  note p = replace_interviewers_correct_parts[OF wf rep]
  have res: "fst res = r1" "db_of w' = d1"
    "wo_mail w' = queue_lifecycle_emails (sv_template sv) False cc r1 active removed
       (queue_candidate_notice (sv_template sv) EV_SCHEDULED False cc (Some r1) (wo_mail w))"
    using run by (auto simp: fill_round_def ap rep Let_def response_def)
  have keys: "round_keys_ok d" using ok(1) by (simp add: wf_interviews_def)
  have rounds: "db_rounds d1 = db_rounds (put_round r1 d)" using p(4) by blast
  have st: "status_step (ir_status r) (ir_status r1)" using r(2) a(2) by (simp add: status_step.plan)
  note put = rounds_step_put[OF keys r(1) a(1) st a(3) ok(2) rounds]
  show "\<exists>r1. fst res = r1 \<and> same_slot r r1 \<and> ir_status r1 = IS_SCHEDULED
     \<and> ir_start_at r1 = Some (sv_to_utc sv (rq_timezone rq) (rq_start rq))
     \<and> ir_end_at r1 = Some (sv_to_utc sv (rq_timezone rq) (rq_end rq))
     \<and> db_rounds (db_of w') = db_rounds (put_round r1 d)
     \<and> mail_of ` set (active_interviewers (ir_id r) (db_of w')) = mail_in ` set (rq_people rq)"
    using res a rounds p(1) by simp
  show "rounds_step d (db_of w')" using put(1) res by simp
  have "mail_once (queue_candidate_notice (sv_template sv) EV_SCHEDULED False cc (Some r1) (wo_mail w))"
    by (rule candidate_notice_once[OF ok(3)]) (simp add: candidate_event_def)
  then show "world_ok w'" using put(2) p(4) res by (simp add: world_ok_def lifecycle_once)
qed

lemma rescheduled_slot: "same_slot r (rescheduled_round sv now rq r)"
  by (simp add: same_slot_def rescheduled_round_def reactivate_def)

lemma sync_calendar_round:
  assumes "sync_calendar sv user rq old r = (r1, calls)"
  shows "\<exists>link event. r1 = r\<lparr>ir_meeting_link := link, ir_event_id := event\<rparr>"
proof -
  have self: "\<exists>link event. x = x\<lparr>ir_meeting_link := link, ir_event_id := event\<rparr>" for x :: interview_round
    by (intro exI[of _ "ir_meeting_link x"] exI[of _ "ir_event_id x"]) simp
  from assms show ?thesis
    by (auto simp: sync_calendar_def Let_def self split: option.splits prod.splits if_splits)
qed

lemma reschedule_effect:
  assumes run: "reschedule_interview sv now i user roles rq w = Inr (res, w')"
  obtains r cc r1 calls active removed d1 where
    "round_by_id i (db_of w) = Some r" "ir_status r \<in> set reschedulable"
    "candidate_for (ir_candidate r) user roles (wo_hiring w) = Inr cc"
    "sync_calendar sv user rq r (rescheduled_round sv now rq r) = (r1, calls)"
    "replace_interviewers (ir_id r) (rq_people rq) (put_round r1 (db_of w)) = ((active, removed), d1)"
    "(if is_reschedule_event sv rq r
      then add_round_history (ir_id r) HE_RESCHEDULED (ir_start_at r) (ir_start_at r1) (Some user)
             (map_option role_value (first_role roles)) (rq_reason rq) d1 else Inr d1) = Inr (db_of w')"
    "wo_mail w' = queue_lifecycle_emails (sv_template sv) (is_reschedule_event sv rq r) cc r1 active removed
       (if is_reschedule_event sv rq r
        then queue_candidate_notice (sv_template sv) EV_RESCHEDULED False cc (Some r1) (wo_mail w) else wo_mail w)"
    "wo_calls w' = wo_calls w @ calls"
    "is_reschedule_event sv rq r \<or> hd_audit (wo_hiring w') = hd_audit (wo_hiring w)"
    "fst res = r1"
proof -
  obtain r where r: "round_by_id i (db_of w) = Some r"
    using run by (cases "round_by_id i (db_of w)") (simp_all add: reschedule_interview_def)
  obtain cc where cc: "candidate_for (ir_candidate r) user roles (wo_hiring w) = Inr cc"
    using run r by (cases "candidate_for (ir_candidate r) user roles (wo_hiring w)") (simp_all add: reschedule_interview_def)
  have st: "ir_status r \<noteq> IS_COMPLETED" "ir_status r \<in> set reschedulable"
    using run r cc by (auto simp: reschedule_interview_def split: if_splits)
  obtain r1 calls where sync: "sync_calendar sv user rq r (rescheduled_round sv now rq r) = (r1, calls)" by (metis surj_pair)
  obtain active removed d1 where rep:
    "replace_interviewers (ir_id r) (rq_people rq) (put_round r1 (db_of w)) = ((active, removed), d1)" by (metis surj_pair)
  define hist where "hist = (if is_reschedule_event sv rq r
      then add_round_history (ir_id r) HE_RESCHEDULED (ir_start_at r) (ir_start_at r1) (Some user)
             (map_option role_value (first_role roles)) (rq_reason rq) d1 else Inr d1)"
  obtain d2 where d2: "hist = Inr d2"
    using run r cc st sync rep
    by (cases hist) (simp_all add: reschedule_interview_def Let_def hist_def[symmetric])
  have eq: "res = response r1 active d2" "wo_calls w' = wo_calls w @ calls" "db_of w' = d2"
    "wo_mail w' = queue_lifecycle_emails (sv_template sv) (is_reschedule_event sv rq r) cc r1 active removed
       (if is_reschedule_event sv rq r
        then queue_candidate_notice (sv_template sv) EV_RESCHEDULED False cc (Some r1) (wo_mail w) else wo_mail w)"
    "is_reschedule_event sv rq r \<or> hd_audit (wo_hiring w') = hd_audit (wo_hiring w)"
    using run r cc st sync rep d2
    by (auto simp: reschedule_interview_def Let_def hist_def[symmetric] split: if_splits)
  show thesis
    by (rule that[OF r st(2) cc sync rep _ eq(4) eq(2) eq(5)])
      (use d2 eq in \<open>simp_all add: hist_def response_def\<close>)
qed

lemma reschedule_ok:
  assumes ok: "world_ok w" and run: "reschedule_interview sv now i user roles rq w = Inr (res, w')"
  shows "rounds_step (db_of w) (db_of w')" "world_ok w'"
proof -
  from reschedule_effect[OF run] obtain r cc r1 calls active removed d1 where e:
    "round_by_id i (db_of w) = Some r" "ir_status r \<in> set reschedulable"
    "sync_calendar sv user rq r (rescheduled_round sv now rq r) = (r1, calls)"
    "replace_interviewers (ir_id r) (rq_people rq) (put_round r1 (db_of w)) = ((active, removed), d1)"
    "(if is_reschedule_event sv rq r
      then add_round_history (ir_id r) HE_RESCHEDULED (ir_start_at r) (ir_start_at r1) (Some user)
             (map_option role_value (first_role roles)) (rq_reason rq) d1 else Inr d1) = Inr (db_of w')"
    "wo_mail w' = queue_lifecycle_emails (sv_template sv) (is_reschedule_event sv rq r) cc r1 active removed
       (if is_reschedule_event sv rq r
        then queue_candidate_notice (sv_template sv) EV_RESCHEDULED False cc (Some r1) (wo_mail w) else wo_mail w)"
    by metis
  note wf = ok[unfolded world_ok_def]
  have r: "r \<in> set (db_rounds (db_of w))" using round_by_id_Some[OF e(1)] by simp
  obtain link ev where r1: "r1 = (rescheduled_round sv now rq r)\<lparr>ir_meeting_link := link, ir_event_id := ev\<rparr>"
    using sync_calendar_round[OF e(3)] by blast
  have slot: "same_slot r r1" using rescheduled_slot[of r sv now rq] by (simp add: r1 same_slot_def)
  have times: "ir_start_at r1 \<noteq> None" "ir_end_at r1 \<noteq> None" by (simp_all add: r1 rescheduled_round_def)
  have status: "ir_status r1 = (if is_reschedule_event sv rq r then IS_RESCHEDULED else ir_status r)"
    by (simp add: r1 rescheduled_round_def)
  have fine: "round_fine r1"
    using times e(2) status by (auto simp: round_fine_def is_reschedule_event_def reschedulable_def)
  have step: "status_step (ir_status r) (ir_status r1)"
    using e(2) status by (auto intro: status_step.intros)
  have w1: "wf_interviews (put_round r1 (db_of w))" using put_round_wf[OF _ r slot] wf by blast
  note p = replace_interviewers_correct_parts(4)[OF w1 e(4)]
  have d': "db_rounds (db_of w') = db_rounds (put_round r1 (db_of w))" "wf_interviews (db_of w')"
    using e(5) p add_round_history_Inr(1,6) by (auto split: if_splits)
  have keys: "round_keys_ok (db_of w)" using wf by (simp add: wf_interviews_def)
  have fine0: "rounds_fine (db_of w)" using wf by blast
  note put = rounds_step_put[OF keys r slot step fine fine0 d'(1)]
  show "rounds_step (db_of w) (db_of w')" by (rule put(1))
  have "mail_once (if is_reschedule_event sv rq r
        then queue_candidate_notice (sv_template sv) EV_RESCHEDULED False cc (Some r1) (wo_mail w) else wo_mail w)"
    using wf candidate_notice_once by (auto simp: candidate_event_def)
  then show "world_ok w'" using d'(2) put(2) e(6) by (simp add: world_ok_def lifecycle_once)
qed

lemma cancel_effect:
  assumes run: "cancel_interview sv now i user roles reason w = Inr (res, w')"
  obtains r cc where
    "round_by_id i (db_of w) = Some r" "ir_status r \<noteq> IS_CANCELLED"
    "candidate_for (ir_candidate r) user roles (wo_hiring w) = Inr cc"
    "add_round_history (ir_id r) HE_CANCELLED (ir_start_at r) None (Some user)
       (map_option role_value (first_role roles)) (Some reason)
       (put_round (cancelled_round reason now r) (db_of w)) = Inr (db_of w')"
    "wo_mail w' = fold (\<lambda>v m. snd (queue_iv_cancelled (sv_template sv) (Some reason) cc (cancelled_round reason now r) v m))
       (active_interviewers (ir_id r) (db_of w'))
       (queue_candidate_notice (sv_template sv) EV_CANCELLED False cc (Some (cancelled_round reason now r)) (wo_mail w))"
proof -
  obtain r where r: "round_by_id i (db_of w) = Some r"
    using run by (cases "round_by_id i (db_of w)") (simp_all add: cancel_interview_def)
  obtain cc where cc: "candidate_for (ir_candidate r) user roles (wo_hiring w) = Inr cc"
    using run r by (cases "candidate_for (ir_candidate r) user roles (wo_hiring w)") (simp_all add: cancel_interview_def)
  have st: "ir_status r \<noteq> IS_CANCELLED"
    using run r cc by (auto simp: cancel_interview_def split: if_splits)
  define hist where "hist = add_round_history (ir_id r) HE_CANCELLED (ir_start_at r) None (Some user)
       (map_option role_value (first_role roles)) (Some reason) (put_round (cancelled_round reason now r) (db_of w))"
  obtain d1 where d1: "hist = Inr d1"
    using run r cc st by (cases hist) (simp_all add: cancel_interview_def Let_def hist_def[symmetric])
  have "db_of w' = d1"
    "wo_mail w' = fold (\<lambda>v m. snd (queue_iv_cancelled (sv_template sv) (Some reason) cc (cancelled_round reason now r) v m))
       (active_interviewers (ir_id r) d1)
       (queue_candidate_notice (sv_template sv) EV_CANCELLED False cc (Some (cancelled_round reason now r)) (wo_mail w))"
    using run r cc st d1 by (auto simp: cancel_interview_def Let_def hist_def[symmetric])
  then show thesis using that[OF r st cc] d1 by (simp add: hist_def)
qed

lemma cancel_ok:
  assumes ok: "world_ok w" and run: "cancel_interview sv now i user roles reason w = Inr (res, w')"
  shows "rounds_step (db_of w) (db_of w')" "world_ok w'"
proof -
  from run obtain r cc where e: "round_by_id i (db_of w) = Some r"
    "add_round_history (ir_id r) HE_CANCELLED (ir_start_at r) None (Some user)
       (map_option role_value (first_role roles)) (Some reason)
       (put_round (cancelled_round reason now r) (db_of w)) = Inr (db_of w')"
    "wo_mail w' = fold (\<lambda>v m. snd (queue_iv_cancelled (sv_template sv) (Some reason) cc (cancelled_round reason now r) v m))
       (active_interviewers (ir_id r) (db_of w'))
       (queue_candidate_notice (sv_template sv) EV_CANCELLED False cc (Some (cancelled_round reason now r)) (wo_mail w))"
    by (rule cancel_effect)
  note wf = ok[unfolded world_ok_def]
  have r: "r \<in> set (db_rounds (db_of w))" using round_by_id_Some[OF e(1)] by simp
  have keys: "round_keys_ok (db_of w)" using wf by (simp add: wf_interviews_def)
  have fine0: "rounds_fine (db_of w)" using wf by blast
  have fine: "round_fine (cancelled_round reason now r)" by (simp add: round_fine_def cancelled_round_def)
  have step: "status_step (ir_status r) (ir_status (cancelled_round reason now r))"
    by (simp add: cancelled_round_def status_step.call_off)
  note put = rounds_step_put[OF keys r cancelled_slot step fine fine0 add_round_history_Inr(1)[OF e(2)]]
  show "rounds_step (db_of w) (db_of w')" by (rule put(1))
  have "wf_interviews (put_round (cancelled_round reason now r) (db_of w))"
    using put_round_wf[OF _ r cancelled_slot] wf by blast
  then have "wf_interviews (db_of w')" using add_round_history_Inr(6)[OF e(2)] by simp
  moreover have "mail_once (queue_candidate_notice (sv_template sv) EV_CANCELLED False cc
      (Some (cancelled_round reason now r)) (wo_mail w))"
    by (rule candidate_notice_once) (use wf in \<open>simp_all add: candidate_event_def\<close>)
  ultimately show "world_ok w'" using put(2) e(3) by (simp add: world_ok_def cancelled_once)
qed

lemma complete_effect:
  assumes run: "complete_interview sv now i user roles w = Inr (res, w')"
  obtains r cc where
    "round_by_id i (db_of w) = Some r" "ir_status r \<notin> set [IS_COMPLETED, IS_CANCELLED]"
    "\<exists>e. ir_end_at r = Some e \<and> e \<le> now"
    "db_of w' = put_round (completed_round now r) (db_of w)"
    "(snd res, wo_mail w') = queue_pending_feedback_requests (sv_template sv) (sv_link sv) cc (completed_round now r)
       (active_interviewers (ir_id r) (db_of w')) (db_of w') (wo_mail w)"
proof -
  obtain r where r: "round_by_id i (db_of w) = Some r"
    using run by (cases "round_by_id i (db_of w)") (simp_all add: complete_interview_def)
  obtain cc where cc: "candidate_for (ir_candidate r) user roles (wo_hiring w) = Inr cc"
    using run r by (cases "candidate_for (ir_candidate r) user roles (wo_hiring w)") (simp_all add: complete_interview_def)
  have st: "ir_status r \<notin> set [IS_COMPLETED, IS_CANCELLED]"
    using run r cc by (auto simp: complete_interview_def split: if_splits)
  have "\<exists>e. ir_end_at r = Some e \<and> e \<le> now"
    using run r cc st by (cases "ir_end_at r") (auto simp: complete_interview_def split: if_splits)
  moreover from this have "\<not> (case ir_end_at r of None \<Rightarrow> True | Some e \<Rightarrow> e > now)" by auto
  ultimately show thesis
    using that[OF r st, of cc] run r cc st
    by (auto simp: complete_interview_def Let_def split: prod.splits)
qed

lemma request_once:
  "mail_once mail \<Longrightarrow> queue_pending_feedback_requests tm link cc r vs d mail = (n, mail') \<Longrightarrow> mail_once mail'"
  using request_all_once[of mail tm link cc r "map fb_interviewer (feedback_of_round (ir_id r) d)" vs]
  by (simp add: queue_pending_feedback_requests_def)

lemma complete_ok:
  assumes ok: "world_ok w" and run: "complete_interview sv now i user roles w = Inr (res, w')"
  shows "rounds_step (db_of w) (db_of w')" "world_ok w'"
proof -
  from run obtain r cc where e: "round_by_id i (db_of w) = Some r" "ir_status r \<notin> set [IS_COMPLETED, IS_CANCELLED]"
    "\<exists>e. ir_end_at r = Some e \<and> e \<le> now" "db_of w' = put_round (completed_round now r) (db_of w)"
    "(snd res, wo_mail w') = queue_pending_feedback_requests (sv_template sv) (sv_link sv) cc (completed_round now r)
       (active_interviewers (ir_id r) (db_of w')) (db_of w') (wo_mail w)"
    by (rule complete_effect)
  note wf = ok[unfolded world_ok_def]
  have r: "r \<in> set (db_rounds (db_of w))" using round_by_id_Some[OF e(1)] by simp
  have keys: "round_keys_ok (db_of w)" using wf by (simp add: wf_interviews_def)
  have fine0: "rounds_fine (db_of w)" using wf by blast
  have fine_r: "round_fine r" using fine0 r by (simp add: rounds_fine_def)
  have slot: "same_slot r (completed_round now r)" by (simp add: same_slot_def completed_round_def)
  have started: "ir_status r \<in> set [IS_SCHEDULED, IS_RESCHEDULED]"
    using e(2,3) fine_r by (cases "ir_status r") (auto simp: round_fine_def)
  have fine: "round_fine (completed_round now r)"
    using fine_r started by (auto simp: round_fine_def completed_round_def)
  have step: "status_step (ir_status r) (ir_status (completed_round now r))"
    using started by (simp add: completed_round_def status_step.finish)
  note put = rounds_step_put[OF keys r slot step fine fine0, of "db_of w'"]
  show "rounds_step (db_of w) (db_of w')" by (rule put(1)) (simp add: e(4))
  have "wf_interviews (db_of w')" using put_round_wf[OF _ r slot] wf e(4) by simp
  moreover have "mail_once (wo_mail w')" using request_once e(5) wf by metis
  ultimately show "world_ok w'" using put(2) e(4) by (simp add: world_ok_def)
qed

lemma request_feedback_ok:
  assumes ok: "world_ok w" and run: "request_feedback sv now i user roles w = Inr (n, w')"
  shows "db_of w' = db_of w" "world_ok w'"
proof -
  obtain r where r: "round_by_id i (db_of w) = Some r"
    using run by (cases "round_by_id i (db_of w)") (simp_all add: request_feedback_def)
  obtain cc where cc: "candidate_for (ir_candidate r) user roles (wo_hiring w) = Inr cc"
    using run r by (cases "candidate_for (ir_candidate r) user roles (wo_hiring w)") (simp_all add: request_feedback_def)
  have "\<exists>mail. queue_pending_feedback_requests (sv_template sv) (sv_link sv) cc r
       (active_interviewers (ir_id r) (db_of w)) (db_of w) (wo_mail w) = (n, mail) \<and> w' = w\<lparr>wo_mail := mail\<rparr>"
    using run r cc by (auto simp: request_feedback_def Let_def split: if_splits prod.splits)
  then obtain mail where m: "queue_pending_feedback_requests (sv_template sv) (sv_link sv) cc r
       (active_interviewers (ir_id r) (db_of w)) (db_of w) (wo_mail w) = (n, mail)" "w' = w\<lparr>wo_mail := mail\<rparr>"
    by blast
  have "mail_once mail" using request_once[OF _ m(1)] ok by (simp add: world_ok_def)
  then show "db_of w' = db_of w" "world_ok w'" using ok m(2) by (simp_all add: world_ok_def)
qed

lemma sweep_rounds_once: "mail_once mail \<Longrightarrow> mail_once (snd (sweep_rounds sv rs h mail))"
proof (induction rs arbitrary: mail)
  case (Cons r rs)
  show ?case
  proof (cases "active_interviewers (ir_id r) (hd_interviews h) = [] \<or> find_candidate (ir_candidate r) h = None")
    case True
    then show ?thesis using Cons by (auto simp: Let_def)
  next
    case False
    then obtain cc where cc: "find_candidate (ir_candidate r) h = Some cc" by auto
    obtain n m1 where one: "queue_pending_feedback_requests (sv_template sv) (sv_link sv) cc r
        (active_interviewers (ir_id r) (hd_interviews h)) (hd_interviews h) mail = (n, m1)" by (metis surj_pair)
    show ?thesis using Cons.IH[OF request_once[OF Cons.prems one]] False cc one
      by (simp add: Let_def case_prod_beta)
  qed
qed simp

lemma submit_effect:
  assumes run: "submit_feedback verify now token rec notes h = Inr h'"
  obtains r v where "resolve_token verify token (hd_interviews h) = Inr (r, v)"
    "\<exists>e. ir_end_at r = Some e \<and> e \<le> now"
    "feedback_of (ir_id r) (iv_id v) (hd_interviews h) = None"
    "hd_interviews h' = (hd_interviews h)\<lparr>db_feedback := db_feedback (hd_interviews h) @
       [\<lparr>fb_round = ir_id r, fb_interviewer = iv_id v, fb_recommendation = rec, fb_notes = notes\<rparr>]\<rparr>"
proof -
  obtain r v where rv: "resolve_token verify token (hd_interviews h) = Inr (r, v)"
    using run by (auto simp: submit_feedback_def res_bind_Inr_iff)
  have late: "\<exists>e. ir_end_at r = Some e \<and> e \<le> now"
    using run rv by (cases "ir_end_at r") (auto simp: submit_feedback_def split: if_splits)
  then have open_now: "\<not> (case ir_end_at r of None \<Rightarrow> True | Some e \<Rightarrow> e > now)" by auto
  have new: "feedback_of (ir_id r) (iv_id v) (hd_interviews h) = None"
    using run rv open_now
    by (cases "feedback_of (ir_id r) (iv_id v) (hd_interviews h)") (auto simp: submit_feedback_def create_feedback_def Let_def)
  show thesis
    by (rule that[OF rv late new])
      (use run rv open_now new in \<open>auto simp: submit_feedback_def create_feedback_def Let_def split: option.splits\<close>)
qed

end
