(* ===== verification/Interview_Life.thy ===== *)
theory Interview_Life
  imports Interview_Service_Props
begin

text \<open>
  The properties of the interview service: its reachable states, the schedule and
  the reschedule, the notices that are sent once, the feedback sweep and the
  submitted feedback.
\<close>

section \<open>Reachable states\<close>

inductive service_step :: "interview_env \<Rightarrow> interview_world \<Rightarrow> interview_world \<Rightarrow> bool" for sv where
  enter: "enter_interview now i (db_of w) = Inr d \<Longrightarrow>
    service_step sv w (w\<lparr>wo_hiring := set_interviews d (wo_hiring w)\<rparr>)"
| leave: "leave_interview reason now i (Some u) (Some ro) (db_of w) = Inr d \<Longrightarrow>
    service_step sv w (w\<lparr>wo_hiring := set_interviews d (wo_hiring w)\<rparr>)"
| schedule: "schedule_interview sv id now i user roles rq w = Inr (res, w') \<Longrightarrow> service_step sv w w'"
| reschedule: "reschedule_interview sv now i user roles rq w = Inr (res, w') \<Longrightarrow> service_step sv w w'"
| cancel: "cancel_interview sv now i user roles reason w = Inr (res, w') \<Longrightarrow> service_step sv w w'"
| ask: "request_feedback sv now i user roles w = Inr (n, w') \<Longrightarrow> service_step sv w w'"
| complete: "complete_interview sv now i user roles w = Inr (status, w') \<Longrightarrow> service_step sv w w'"
| sweep: "service_step sv w (snd (sweep_feedback sv now w))"
| submit: "submit_feedback verify now token rec notes (wo_hiring w) = Inr h \<Longrightarrow>
    service_step sv w (w\<lparr>wo_hiring := h\<rparr>)"

inductive service_reach :: "interview_env \<Rightarrow> interview_world \<Rightarrow> interview_world \<Rightarrow> bool" for sv w0 where
  start: "service_reach sv w0 w0"
| step: "service_reach sv w0 w \<Longrightarrow> service_step sv w w' \<Longrightarrow> service_reach sv w0 w'"

lemma blank_fine: "round_fine (blank_round i cc n now)"
  by (simp add: round_fine_def blank_round_def)

lemma insert_round_step:
  assumes "insert_round cc n now d = Inr (r, d')" "rounds_fine d"
  shows "rounds_step d d'" "rounds_fine d'"
proof -
  note i = insert_round_Inr[OF assms(1)]
  show "rounds_step d d'"
    unfolding rounds_step_def using i(2) by (auto simp: same_slot_def intro!: bexI status_step.keep)
  show "rounds_fine d'" using assms(2) i(1,2) blank_fine by (auto simp: rounds_fine_def)
qed

lemma rounds_step_trans:
  assumes "rounds_step d d1" "db_rounds d1 = db_rounds d @ rs" "rounds_step d1 d2"
  shows "rounds_step d d2"
  using assms(2,3) by (auto simp: rounds_step_def)

lemma enter_ok:
  assumes "enter_interview now i d = Inr d'" "wf_interviews d" "rounds_fine d"
  shows "wf_interviews d'" "rounds_fine d'" "rounds_step d d'"
proof -
  have g: "\<exists>x. get_or_create_pending i now d = Inr (x, d')"
    using assms(1) by (auto simp: enter_interview_def res_bind_Inr_iff)
  then show "wf_interviews d'" using get_or_create_wf assms(2) by blast
  show "rounds_fine d'" "rounds_step d d'"
  proof (atomize (full), cases rule: get_or_create_cases[of i d now])
    case (existing r)
    then show "rounds_fine d' \<and> rounds_step d d'" using g assms(3) rounds_step_refl by auto
  next
    case (created r d1)
    then have "d' = d1" using g by auto
    then show "rounds_fine d' \<and> rounds_step d d'" using insert_round_step[OF created(2) assms(3)] by simp
  qed
qed

lemma leave_ok:
  assumes "leave_interview reason now i (Some u) (Some ro) d = Inr d'" "wf_interviews d" "rounds_fine d"
  shows "wf_interviews d'" "rounds_fine d'" "rounds_step d d'"
proof -
  obtain cs where run: "cancel_active_rounds i reason (Some u) (Some ro) now d = Inr (cs, d')"
    using assms(1) by (auto simp: leave_interview_def res_bind_Inr_iff)
  then show "wf_interviews d'" by (rule cancel_active_wf[OF assms(2)])
  have keys: "round_keys_ok d" using assms(2) by (simp add: wf_interviews_def)
  have d': "db_rounds d' = map (cancel_if (\<lambda>r. ir_candidate r = i) reason now) (db_rounds d)"
    using run cancel_active_effect[OF keys, of i reason u ro now] by auto
  have "round_fine (cancelled_round reason now r)" for r by (simp add: round_fine_def cancelled_round_def)
  then show "rounds_fine d'" using assms(3) by (auto simp: rounds_fine_def d' cancel_if_def)
  have "status_step (ir_status r) (ir_status (cancel_if (\<lambda>r. ir_candidate r = i) reason now r))" for r
    by (auto simp: cancel_if_def cancelled_round_def intro: status_step.intros)
  then show "rounds_step d d'" using cancel_if_slot unfolding rounds_step_def d' by fastforce
qed

lemma schedule_cases:
  assumes run: "schedule_interview sv id now i user roles rq w = Inr (res, w')" and wf: "wf_interviews (db_of w)"
  obtains cc latest r d previous where
    "candidate_for i user roles (wo_hiring w) = Inr cc" "latest_round i (db_of w) = Some latest"
    "if ir_status latest = IS_PENDING then r = latest \<and> d = db_of w
     else r = blank_round (db_next (db_of w)) i (ir_number latest + 1) now
       \<and> create_next_round i (ir_number latest + 1) now (db_of w) = ((Some r, True), d)"
    "fill_round sv now user roles rq cc previous r d w = (res, w')"
proof -
  obtain cc where cc: "candidate_for i user roles (wo_hiring w) = Inr cc"
    using run by (auto simp: schedule_interview_def res_bind_Inr_iff)
  obtain latest where l: "latest_round i (db_of w) = Some latest"
    using run cc by (cases "latest_round i (db_of w)") (simp_all add: schedule_interview_def)
  show thesis
  proof (cases "ir_status latest = IS_PENDING")
    case True
    then show thesis using that[OF cc l, of latest "db_of w" None] run cc l by (simp add: schedule_interview_def)
  next
    case False
    obtain x d where c: "create_next_round i (ir_number latest + 1) now (db_of w) = (x, d)" by (metis surj_pair)
    note n = create_next_round_wf(2)[OF wf l c]
    show thesis
      by (rule that[OF cc l, of "blank_round (db_next (db_of w)) i (ir_number latest + 1) now" d "Some latest"])
        (use run cc l False c n in \<open>simp_all add: schedule_interview_def\<close>)
  qed
qed

lemma create_next_round_inserted:
  "create_next_round i n now d = ((Some r, True), d') \<Longrightarrow> insert_round i n now d = Inr (r, d')"
  by (auto simp: create_next_round_def split: sum.splits)

lemma latest_round_eq: "all_rounds cc d \<noteq> [] \<Longrightarrow> latest_round cc d = Some (last (all_rounds cc d))"
  by (cases "all_rounds cc d" rule: rev_cases) (auto simp: latest_round_def)

lemma latest_round_in: "latest_round cc d = Some r \<Longrightarrow> r \<in> set (db_rounds d) \<and> ir_candidate r = cc"
proof -
  assume "latest_round cc d = Some r"
  then have "r \<in> set (all_rounds cc d)" using latest_round_Some by (metis last_in_set)
  then show ?thesis by simp
qed

lemma schedule_ok:
  assumes ok: "world_ok w" and run: "schedule_interview sv id now i user roles rq w = Inr (res, w')"
  shows "rounds_step (db_of w) (db_of w')" "world_ok w'"
proof -
  note wf = ok[unfolded world_ok_def]
  from run wf obtain cc latest r d previous where c: "latest_round i (db_of w) = Some latest"
    "if ir_status latest = IS_PENDING then r = latest \<and> d = db_of w
     else r = blank_round (db_next (db_of w)) i (ir_number latest + 1) now
       \<and> create_next_round i (ir_number latest + 1) now (db_of w) = ((Some r, True), d)"
    "fill_round sv now user roles rq cc previous r d w = (res, w')"
    by (blast elim: schedule_cases)
  have "rounds_step (db_of w) (db_of w') \<and> world_ok w'"
  proof (cases "ir_status latest = IS_PENDING")
    case True
    then have d: "r = latest" "d = db_of w" using c(2) by auto
    have fine: "rounds_fine d" "wf_interviews d" "mail_once (wo_mail w)" using wf d by auto
    have "r \<in> set (db_rounds d)" "ir_status r = IS_PENDING" using latest_round_in[OF c(1)] d True by auto
    from fill_round_effect(2,3)[OF fine(2,1,3) this c(3)] d show ?thesis by simp
  next
    case False
    then have new: "r = blank_round (db_next (db_of w)) i (ir_number latest + 1) now"
      "create_next_round i (ir_number latest + 1) now (db_of w) = ((Some r, True), d)" using c(2) by auto
    note ins = create_next_round_inserted[OF new(2)]
    have fine0: "rounds_fine (db_of w)" using wf by blast
    note st = insert_round_step[OF ins fine0]
    have d: "db_rounds d = db_rounds (db_of w) @ [r]" using insert_round_Inr(2)[OF ins] by simp
    have wfd: "wf_interviews d" using create_next_round_wf(1)[OF _ c(1) new(2)] wf by blast
    have mail: "mail_once (wo_mail w)" using wf by blast
    have "r \<in> set (db_rounds d)" "ir_status r = IS_PENDING" using d new(1) by (simp_all add: blank_round_def)
    note f = fill_round_effect(2,3)[OF wfd st(2) mail this c(3)]
    show ?thesis using rounds_step_trans[OF st(1) d f(1)] f(2) by blast
  qed
  then show "rounds_step (db_of w) (db_of w')" "world_ok w'" by blast+
qed

lemma submit_ok:
  assumes ok: "wf_interviews (hd_interviews h)" and run: "submit_feedback verify now token rec notes h = Inr h'"
  shows "wf_interviews (hd_interviews h')" "db_rounds (hd_interviews h') = db_rounds (hd_interviews h)"
proof -
  from run obtain r v where "resolve_token verify token (hd_interviews h) = Inr (r, v)"
    "\<exists>e. ir_end_at r = Some e \<and> e \<le> now"
    and e: "feedback_of (ir_id r) (iv_id v) (hd_interviews h) = None"
    "hd_interviews h' = (hd_interviews h)\<lparr>db_feedback := db_feedback (hd_interviews h) @
       [\<lparr>fb_round = ir_id r, fb_interviewer = iv_id v, fb_recommendation = rec, fb_notes = notes\<rparr>]\<rparr>"
    by (rule submit_effect)
  have "(ir_id r, iv_id v) \<notin> (\<lambda>f. (fb_round f, fb_interviewer f)) ` set (db_feedback (hd_interviews h))"
    using e(1) by (auto simp: feedback_of_def find_None_all)
  then show "wf_interviews (hd_interviews h')"
    using ok by (simp add: e(2) wf_interviews_def round_keys_ok_def rounds_numbered_def all_rounds_def
        interviewer_keys_ok_def feedback_once_def)
  show "db_rounds (hd_interviews h') = db_rounds (hd_interviews h)" by (simp add: e(2))
qed

lemma service_step_ok:
  "service_step sv w w' \<Longrightarrow> world_ok w \<Longrightarrow> world_ok w' \<and> rounds_step (db_of w) (db_of w')"
proof (induction rule: service_step.induct)
  case (enter now i w d)
  then show ?case using enter_ok[OF enter.hyps] by (simp add: world_ok_def)
next
  case (leave reason now i u ro w d)
  then show ?case using leave_ok[OF leave.hyps] by (simp add: world_ok_def)
next
  case schedule
  then show ?case using schedule_ok by blast
next
  case reschedule
  then show ?case using reschedule_ok by blast
next
  case cancel
  then show ?case using cancel_ok by blast
next
  case ask
  then show ?case using request_feedback_ok rounds_step_refl by metis
next
  case complete
  then show ?case using complete_ok by blast
next
  case (sweep w now)
  have "mail_once (snd (sweep_rounds sv (ended_active_rounds now (db_of w)) (wo_hiring w) (wo_mail w)))"
    by (rule sweep_rounds_once) (use sweep in \<open>simp add: world_ok_def\<close>)
  then show ?case using sweep rounds_step_refl
    by (simp add: sweep_feedback_def world_ok_def case_prod_beta)
next
  case (submit verify now token rec msg w h)
  have "wf_interviews (db_of w)" using submit.prems by (simp add: world_ok_def)
  note s = submit_ok[OF this submit.hyps]
  show ?case using s submit.prems rounds_step_refl[of "db_of w"]
    by (simp add: world_ok_def rounds_fine_def rounds_step_def)
qed

section \<open>Example states\<close>

definition plain_env :: interview_env where
  "plain_env = \<lparr>sv_to_utc = (\<lambda>z t. t), sv_create = (\<lambda>p u rq. (Some ''link'', Some ''event'')),
     sv_template = (\<lambda>ev. True), sv_link = (\<lambda>r v. ''feedback'')\<rparr>"

definition request_at :: "int \<Rightarrow> int \<Rightarrow> schedule_request" where
  "request_at s e = \<lparr>rq_type = None, rq_people = [\<lparr>ii_name = ''Ann'', ii_email = ''ann@x'', ii_timezone = None\<rparr>],
     rq_start = s, rq_end = e, rq_timezone = ''UTC'', rq_candidate_timezone = None, rq_platform = Some TEAMS,
     rq_location = None, rq_notes = None, rq_reason = None\<rparr>"

definition pending_world :: interview_world where
  "pending_world = \<lparr>wo_hiring = set_interviews
       (empty_interviews\<lparr>db_rounds := [blank_round 0 1 1 0], db_next := 1\<rparr>)
       (example_db [blank_candidate 1 9 INTERVIEW (Some HM_REVIEW)]), wo_mail = [], wo_calls = []\<rparr>"

lemma pending_world_ok: "world_ok pending_world"
proof -
  have "rounds_numbered (empty_interviews\<lparr>db_rounds := [blank_round 0 1 1 0], db_next := 1\<rparr>)"
    by (simp add: rounds_numbered_def all_rounds_def empty_interviews_def blank_round_def)
  then show ?thesis
    by (simp add: world_ok_def pending_world_def wf_interviews_def round_keys_ok_def interviewer_keys_ok_def
        feedback_once_def rounds_fine_def blank_fine mail_once_def) (simp add: empty_interviews_def blank_round_def)
qed

definition next_world :: "(interview_error, 'a \<times> interview_world) result \<Rightarrow> interview_world" where
  "next_world r = (case r of Inl e \<Rightarrow> pending_world | Inr (a, w) \<Rightarrow> w)"

definition scheduled_world :: interview_world where
  "scheduled_world = next_world (schedule_interview plain_env id 5 1 ''hr'' [HR_ADMIN] (request_at 100 160) pending_world)"

lemma scheduled_run:
  "\<exists>res. schedule_interview plain_env id 5 1 ''hr'' [HR_ADMIN] (request_at 100 160) pending_world = Inr (res, scheduled_world)"
proof -
  have "is_ok (schedule_interview plain_env id 5 1 ''hr'' [HR_ADMIN] (request_at 100 160) pending_world)" by code_simp
  then show ?thesis by (auto simp: is_ok_iff scheduled_world_def next_world_def)
qed

lemma scheduled_world_ok: "world_ok scheduled_world"
  using scheduled_run schedule_ok(2)[OF pending_world_ok] by blast

section \<open>The life cycle\<close>

text \<open>
  Property C9.  Every state that the interview handlers, the sweep, the feedback
  form and the pipeline's hooks reach from a well-formed state is well formed:
  rounds of a candidate numbered 1, 2, ... without gaps, one feedback for each
  round and interviewer, a time for every round that is scheduled, rescheduled or
  completed, none for a pending one, a reason for every cancelled one, and no
  notice sent twice.
\<close>

theorem service_states_ok:
  assumes "service_reach sv w0 w" "world_ok w0"
  shows "world_ok w"
  using assms by (induction rule: service_reach.induct) (auto dest: service_step_ok)

lemma service_states_ok_witness:
  "service_reach plain_env pending_world scheduled_world \<and> world_ok scheduled_world
     \<and> map ir_status (db_rounds (db_of scheduled_world)) = [IS_SCHEDULED]"
proof -
  have r: "service_reach plain_env pending_world scheduled_world"
    using scheduled_run by (blast intro: service_reach.intros service_step.schedule)
  have "map ir_status (db_rounds (db_of scheduled_world)) = [IS_SCHEDULED]" by code_simp
  with r service_states_ok[OF r pending_world_ok] show ?thesis by blast
qed

text \<open>
  Property C10.  No step deletes a round or changes its key, candidate or number,
  and its status moves along the life cycle only: a round becomes SCHEDULED only
  from PENDING, RESCHEDULED only from SCHEDULED, RESCHEDULED or CANCELLED, and
  COMPLETED only from SCHEDULED or RESCHEDULED; a completed round can only be
  cancelled.
\<close>

theorem round_life_cycle:
  assumes "service_step sv w w'" "world_ok w" "r \<in> set (db_rounds (db_of w))"
  shows "\<exists>r'\<in>set (db_rounds (db_of w')). same_slot r r' \<and> status_step (ir_status r) (ir_status r')
     \<and> (ir_status r = IS_COMPLETED \<longrightarrow> ir_status r' \<in> {IS_COMPLETED, IS_CANCELLED})
     \<and> (ir_status r' = IS_SCHEDULED \<longrightarrow> ir_status r \<in> {IS_PENDING, IS_SCHEDULED})"
proof -
  obtain r' where r': "r' \<in> set (db_rounds (db_of w'))" "same_slot r r'" "status_step (ir_status r) (ir_status r')"
    using service_step_ok[OF assms(1,2)] assms(3) by (auto simp: rounds_step_def)
  moreover have "ir_status r' \<in> {IS_COMPLETED, IS_CANCELLED}" if "ir_status r = IS_COMPLETED"
    using r'(3) that by (auto elim: status_from_completed simp: reschedulable_def)
  moreover have "ir_status r \<in> {IS_PENDING, IS_SCHEDULED}" if "ir_status r' = IS_SCHEDULED"
    using r'(3) that by (auto elim: status_to_scheduled)
  ultimately show ?thesis by blast
qed

lemma round_life_cycle_witness:
  "\<exists>r\<in>set (db_rounds (db_of scheduled_world)). ir_number r = 1 \<and> status_step IS_PENDING (ir_status r)"
proof -
  obtain res where "schedule_interview plain_env id 5 1 ''hr'' [HR_ADMIN] (request_at 100 160) pending_world = Inr (res, scheduled_world)"
    using scheduled_run by blast
  then have "service_step plain_env pending_world scheduled_world" by (rule service_step.schedule)
  moreover have "blank_round 0 1 1 0 \<in> set (db_rounds (db_of pending_world))" by (simp add: pending_world_def)
  ultimately have "\<exists>r'\<in>set (db_rounds (db_of scheduled_world)). same_slot (blank_round 0 1 1 0) r'
      \<and> status_step (ir_status (blank_round 0 1 1 0)) (ir_status r')"
    using round_life_cycle[OF _ pending_world_ok] by meson
  then show ?thesis by (auto simp: same_slot_def blank_round_def)
qed

text \<open>
  A successful schedule fills the candidate's pending round, or
  opens the next round when the latest one is no longer pending, with the
  requested times and interviewers; no earlier round changes.
\<close>

theorem schedule_opens_round:
  assumes ok: "world_ok w" and run: "schedule_interview sv id now i user roles rq w = Inr (res, w')"
  shows "\<exists>latest. latest_round i (db_of w) = Some latest
     \<and> ir_candidate (fst res) = i \<and> ir_status (fst res) = IS_SCHEDULED
     \<and> ir_number (fst res) = (if ir_status latest = IS_PENDING then ir_number latest else ir_number latest + 1)
     \<and> ir_start_at (fst res) = Some (sv_to_utc sv (rq_timezone rq) (rq_start rq))
     \<and> ir_end_at (fst res) = Some (sv_to_utc sv (rq_timezone rq) (rq_end rq))
     \<and> latest_round i (db_of w') = Some (fst res)
     \<and> mail_of ` set (active_interviewers (ir_id (fst res)) (db_of w')) = mail_in ` set (rq_people rq)
     \<and> (\<forall>r\<in>set (db_rounds (db_of w)). ir_id r \<noteq> ir_id (fst res) \<longrightarrow> r \<in> set (db_rounds (db_of w')))"
proof -
  note wf = ok[unfolded world_ok_def]
  from run wf obtain cc latest r d previous where c: "latest_round i (db_of w) = Some latest"
    "if ir_status latest = IS_PENDING then r = latest \<and> d = db_of w
     else r = blank_round (db_next (db_of w)) i (ir_number latest + 1) now
       \<and> create_next_round i (ir_number latest + 1) now (db_of w) = ((Some r, True), d)"
    "fill_round sv now user roles rq cc previous r d w = (res, w')"
    by (blast elim: schedule_cases)
  have ready: "wf_interviews d \<and> rounds_fine d \<and> r \<in> set (db_rounds d) \<and> ir_status r = IS_PENDING
    \<and> set (db_rounds (db_of w)) \<subseteq> set (db_rounds d) \<and> ir_candidate r = i
    \<and> ir_number r = (if ir_status latest = IS_PENDING then ir_number latest else ir_number latest + 1)
    \<and> latest_round i d = Some r"
  proof (cases "ir_status latest = IS_PENDING")
    case True
    then show ?thesis using c(1,2) wf latest_round_in[OF c(1)] by auto
  next
    case False
    then have new: "r = blank_round (db_next (db_of w)) i (ir_number latest + 1) now"
      "create_next_round i (ir_number latest + 1) now (db_of w) = ((Some r, True), d)" using c(2) by auto
    note ins = create_next_round_inserted[OF new(2)]
    have d: "db_rounds d = db_rounds (db_of w) @ [r]" using insert_round_Inr(2)[OF ins] by simp
    have wfd: "wf_interviews d" using create_next_round_wf(1)[OF _ c(1) new(2)] wf by blast
    have num: "ir_number latest = int (length (all_rounds i (db_of w)))"
      using latest_round_number(1)[OF _ c(1)] wf by (simp add: wf_interviews_def)
    have "all_rounds i d = all_rounds i (db_of w) @ [r]"
    proof -
      have "ir_number x \<le> ir_number latest + 1" if "x \<in> set (all_rounds i (db_of w))" for x
        using that round_number_range[of "db_of w" x] wf num by (auto simp: wf_interviews_def)
      then show ?thesis using insert_round_all_rounds[OF ins, of i] by simp
    qed
    then have "latest_round i d = Some r" by (simp add: latest_round_def)
    moreover have "rounds_fine d" using insert_round_step(2)[OF ins] wf by blast
    ultimately show ?thesis using wfd d new(1) False by (auto simp: blank_round_def)
  qed
  have mail: "mail_once (wo_mail w)" using wf by blast
  have fine: "wf_interviews d" "rounds_fine d" "r \<in> set (db_rounds d)" "ir_status r = IS_PENDING" using ready by blast+
  from fill_round_effect(1)[OF fine(1,2) mail fine(3,4) c(3)] obtain r1 where f: "fst res = r1" "same_slot r r1"
    "ir_status r1 = IS_SCHEDULED" "ir_start_at r1 = Some (sv_to_utc sv (rq_timezone rq) (rq_start rq))"
    "ir_end_at r1 = Some (sv_to_utc sv (rq_timezone rq) (rq_end rq))"
    "db_rounds (db_of w') = db_rounds (put_round r1 d)"
    "mail_of ` set (active_interviewers (ir_id r) (db_of w')) = mail_in ` set (rq_people rq)"
    by blast
  have slot: "ir_id r1 = ir_id r" "ir_candidate r1 = i" "ir_number r1 = ir_number r"
    using f(2) ready by (auto simp: same_slot_def)
  have keys: "round_keys_ok d" using fine(1) by (simp add: wf_interviews_def)
  have "all_rounds i (db_of w') = all_rounds i (put_round r1 d)" by (simp add: all_rounds_def f(6))
  also have "\<dots> = map (\<lambda>x. if ir_id x = ir_id r1 then r1 else x) (all_rounds i d)"
    by (rule put_round_all_rounds[OF keys fine(3) f(2)])
  finally have all: "all_rounds i (db_of w') = map (\<lambda>x. if ir_id x = ir_id r1 then r1 else x) (all_rounds i d)" .
  have "all_rounds i d \<noteq> []" "last (all_rounds i d) = r" using latest_round_Some[of i d r] ready by auto
  then have "latest_round i (db_of w') = Some r1"
    using latest_round_eq[of i "db_of w'"] by (simp add: all last_map slot(1))
  moreover have "x \<in> set (db_rounds (db_of w'))" if "x \<in> set (db_rounds (db_of w))" "ir_id x \<noteq> ir_id r1" for x
    using that ready by (force simp: f(6) put_round_def)
  ultimately show ?thesis using c(1) f slot ready by auto
qed

lemma schedule_opens_round_witness:
  "\<exists>res. schedule_interview plain_env id 5 1 ''hr'' [HR_ADMIN] (request_at 100 160) pending_world = Inr (res, scheduled_world)
     \<and> ir_start_at (fst res) = Some 100 \<and> latest_round 1 (db_of scheduled_world) = Some (fst res)"
proof -
  obtain res where run:
    "schedule_interview plain_env id 5 1 ''hr'' [HR_ADMIN] (request_at 100 160) pending_world = Inr (res, scheduled_world)"
    using scheduled_run by blast
  show ?thesis
    using schedule_opens_round[OF pending_world_ok run] run by (auto simp: plain_env_def request_at_def)
qed

section \<open>Rescheduling and the notices\<close>

lemma lifecycle_keeps_candidate_notices:
  "filter (\<lambda>n. candidate_event (nt_event n)) (queue_lifecycle_emails tm resch cc r active removed mail) =
   filter (\<lambda>n. candidate_event (nt_event n)) mail"
proof -
  have one: "filter (\<lambda>n. candidate_event (nt_event n)) (snd (queue_interviewer_email tm ev timed info cc r v m)) =
      filter (\<lambda>n. candidate_event (nt_event n)) m" if "\<not> candidate_event ev" for ev timed info v m
    using that by (auto simp: queue_interviewer_email_def)
  have ev: "\<not> candidate_event EV_IV_INVITATION" "\<not> candidate_event EV_IV_RESCHEDULED" "\<not> candidate_event EV_IV_REMOVED"
    by (simp_all add: candidate_event_def)
  have inv: "filter (\<lambda>n. candidate_event (nt_event n)) (invite_all tm resch cc r vs m) =
      filter (\<lambda>n. candidate_event (nt_event n)) m" for vs m
    by (induction vs arbitrary: m)
      (simp_all add: case_prod_beta Let_def queue_invitation_def queue_iv_rescheduled_def one ev)
  have "filter (\<lambda>n. candidate_event (nt_event n)) (fold (\<lambda>v m. snd (queue_iv_removed tm cc r v m)) vs m) =
      filter (\<lambda>n. candidate_event (nt_event n)) m" for vs m
    by (induction vs arbitrary: m) (simp_all add: queue_iv_removed_def one ev)
  then show ?thesis by (simp add: queue_lifecycle_emails_def inv)
qed

text \<open>
  An edit of a live round that keeps its times is quiet: the status
  stays, no history row and no audit row is written and no notice goes to the
  candidate; the interviewers and the calendar are brought up to date all the
  same.
\<close>

theorem same_time_edit_is_quiet:
  assumes ok: "world_ok w" and run: "reschedule_interview sv now i user roles rq w = Inr (res, w')"
    and r: "round_by_id i (db_of w) = Some r" and quiet: "\<not> is_reschedule_event sv rq r"
  shows "ir_status (fst res) = ir_status r \<and> ir_start_at (fst res) = ir_start_at r
     \<and> db_round_history (db_of w') = db_round_history (db_of w)
     \<and> hd_audit (wo_hiring w') = hd_audit (wo_hiring w)
     \<and> filter (\<lambda>n. candidate_event (nt_event n)) (wo_mail w') = filter (\<lambda>n. candidate_event (nt_event n)) (wo_mail w)
     \<and> mail_of ` set (active_interviewers i (db_of w')) = mail_in ` set (rq_people rq)
     \<and> wo_calls w' = wo_calls w @ snd (sync_calendar sv user rq r (rescheduled_round sv now rq r))"
proof -
  from reschedule_effect[OF run] r obtain cc r1 calls active removed d1 where e:
    "sync_calendar sv user rq r (rescheduled_round sv now rq r) = (r1, calls)"
    "replace_interviewers (ir_id r) (rq_people rq) (put_round r1 (db_of w)) = ((active, removed), d1)"
    "(if is_reschedule_event sv rq r
      then add_round_history (ir_id r) HE_RESCHEDULED (ir_start_at r) (ir_start_at r1) (Some user)
             (map_option role_value (first_role roles)) (rq_reason rq) d1 else Inr d1) = Inr (db_of w')"
    "wo_mail w' = queue_lifecycle_emails (sv_template sv) (is_reschedule_event sv rq r) cc r1 active removed
       (if is_reschedule_event sv rq r
        then queue_candidate_notice (sv_template sv) EV_RESCHEDULED False cc (Some r1) (wo_mail w) else wo_mail w)"
    "wo_calls w' = wo_calls w @ calls"
    "is_reschedule_event sv rq r \<or> hd_audit (wo_hiring w') = hd_audit (wo_hiring w)" "fst res = r1"
    by (metis option.inject)
  obtain link ev where r1: "r1 = (rescheduled_round sv now rq r)\<lparr>ir_meeting_link := link, ir_event_id := ev\<rparr>"
    using sync_calendar_round[OF e(1)] by blast
  have in_r: "r \<in> set (db_rounds (db_of w))" "ir_id r = i" using round_by_id_Some[OF r] by auto
  have slot: "same_slot r r1" using rescheduled_slot[of r sv now rq] by (simp add: r1 same_slot_def)
  have "wf_interviews (put_round r1 (db_of w))" using put_round_wf[OF _ in_r(1) slot] ok by (simp add: world_ok_def)
  note p = replace_interviewers_correct_parts(1)[OF this e(2)]
    and f = replace_interviewers_frame(2)[OF _ e(2)]
  have d1: "db_of w' = d1" using e(3) quiet by simp
  have "interviewer_keys_ok (put_round r1 (db_of w))"
    using ok by (simp add: world_ok_def wf_interviews_def interviewer_keys_ok_def put_round_def)
  then have "db_round_history d1 = db_round_history (db_of w)" using f by (simp add: put_round_def)
  then show ?thesis
    using e quiet d1 p in_r(2) by (simp add: r1 rescheduled_round_def is_reschedule_event_def lifecycle_keeps_candidate_notices)
qed

lemma same_time_edit_is_quiet_witness:
  "\<exists>res w'. reschedule_interview plain_env 6 0 ''hr'' [HR_ADMIN] (request_at 100 160) scheduled_world = Inr (res, w')
     \<and> ir_status (fst res) = IS_SCHEDULED \<and> hd_audit (wo_hiring w') = hd_audit (wo_hiring scheduled_world)"
proof -
  have "is_ok (reschedule_interview plain_env 6 0 ''hr'' [HR_ADMIN] (request_at 100 160) scheduled_world)" by code_simp
  then obtain res w' where run:
    "reschedule_interview plain_env 6 0 ''hr'' [HR_ADMIN] (request_at 100 160) scheduled_world = Inr (res, w')"
    by (auto simp: is_ok_iff)
  have "case round_by_id 0 (db_of scheduled_world) of None \<Rightarrow> False
      | Some r \<Rightarrow> \<not> is_reschedule_event plain_env (request_at 100 160) r \<and> ir_status r = IS_SCHEDULED"
    by code_simp
  then obtain r where r: "round_by_id 0 (db_of scheduled_world) = Some r"
    "\<not> is_reschedule_event plain_env (request_at 100 160) r" "ir_status r = IS_SCHEDULED"
    by (auto split: option.splits)
  show ?thesis using same_time_edit_is_quiet[OF scheduled_world_ok run r(1,2)] run r(3)
    by (intro exI[of _ res] exI[of _ w']) simp
qed

text \<open>
  The notice of a new time is looked up by round and event, so it
  goes out once in the life of a round: when a live RESCHEDULED notice is there,
  moving the round again, to whatever time, sends the candidate nothing, although
  the move is recorded in the history.
\<close>

theorem second_reschedule_is_silent:
  assumes ok: "world_ok w" and run: "reschedule_interview sv now i user roles rq w = Inr (res, w')"
    and r: "round_by_id i (db_of w) = Some r" and event: "is_reschedule_event sv rq r"
    and told: "n \<in> set (wo_mail w)" "live_notice n" "nt_round n = Some i" "nt_event n = EV_RESCHEDULED"
  shows "filter (\<lambda>n. candidate_event (nt_event n)) (wo_mail w') = filter (\<lambda>n. candidate_event (nt_event n)) (wo_mail w)
     \<and> ir_status (fst res) = IS_RESCHEDULED
     \<and> ir_start_at (fst res) = Some (sv_to_utc sv (rq_timezone rq) (rq_start rq))
     \<and> (\<exists>row. db_round_history (db_of w') = db_round_history (db_of w) @ [row] \<and> rh_event row = HE_RESCHEDULED
           \<and> rh_old_start row = ir_start_at r \<and> rh_new_start row = ir_start_at (fst res))"
proof -
  from reschedule_effect[OF run] r obtain cc r1 calls active removed d1 where e:
    "sync_calendar sv user rq r (rescheduled_round sv now rq r) = (r1, calls)"
    "replace_interviewers (ir_id r) (rq_people rq) (put_round r1 (db_of w)) = ((active, removed), d1)"
    "(if is_reschedule_event sv rq r
      then add_round_history (ir_id r) HE_RESCHEDULED (ir_start_at r) (ir_start_at r1) (Some user)
             (map_option role_value (first_role roles)) (rq_reason rq) d1 else Inr d1) = Inr (db_of w')"
    "wo_mail w' = queue_lifecycle_emails (sv_template sv) (is_reschedule_event sv rq r) cc r1 active removed
       (if is_reschedule_event sv rq r
        then queue_candidate_notice (sv_template sv) EV_RESCHEDULED False cc (Some r1) (wo_mail w) else wo_mail w)"
    "fst res = r1"
    by (metis option.inject)
  obtain link ev where r1: "r1 = (rescheduled_round sv now rq r)\<lparr>ir_meeting_link := link, ir_event_id := ev\<rparr>"
    using sync_calendar_round[OF e(1)] by blast
  have id: "ir_id r1 = i"
    using rescheduled_slot[of r sv now rq] round_by_id_Some[OF r] by (simp add: r1 same_slot_def)
  have "queue_candidate_notice (sv_template sv) EV_RESCHEDULED False cc (Some r1) (wo_mail w) = wo_mail w"
    using told id by (auto simp: queue_candidate_notice_def Let_def list_ex_iff)
  then have mail: "filter (\<lambda>n. candidate_event (nt_event n)) (wo_mail w') = filter (\<lambda>n. candidate_event (nt_event n)) (wo_mail w)"
    using e(4) event by (simp add: lifecycle_keeps_candidate_notices)
  have "interviewer_keys_ok (put_round r1 (db_of w))"
    using ok by (simp add: world_ok_def wf_interviews_def interviewer_keys_ok_def put_round_def)
  then have "db_round_history d1 = db_round_history (db_of w)"
    using replace_interviewers_frame(2)[OF _ e(2)] by (simp add: put_round_def)
  moreover from e(3) event have "add_round_history (ir_id r) HE_RESCHEDULED (ir_start_at r) (ir_start_at r1) (Some user)
             (map_option role_value (first_role roles)) (rq_reason rq) d1 = Inr (db_of w')" by simp
  note h = add_round_history_Inr(5)[OF this]
  ultimately show ?thesis
    using mail h event e(5) by (auto simp: r1 rescheduled_round_def)
qed

definition moved_world :: interview_world where
  "moved_world = next_world (reschedule_interview plain_env 6 0 ''hr'' [HR_ADMIN] (request_at 200 260) scheduled_world)"

lemma moved_world_ok: "world_ok moved_world"
proof -
  have "is_ok (reschedule_interview plain_env 6 0 ''hr'' [HR_ADMIN] (request_at 200 260) scheduled_world)" by code_simp
  then obtain res w' where "reschedule_interview plain_env 6 0 ''hr'' [HR_ADMIN] (request_at 200 260) scheduled_world = Inr (res, w')"
    by (auto simp: is_ok_iff)
  with reschedule_ok(2)[OF scheduled_world_ok this] show ?thesis by (simp add: moved_world_def next_world_def)
qed

lemma second_reschedule_is_silent_witness:
  "\<exists>res w'. reschedule_interview plain_env 7 0 ''hr'' [HR_ADMIN] (request_at 300 360) moved_world = Inr (res, w')
     \<and> ir_start_at (fst res) = Some 300
     \<and> filter (\<lambda>n. candidate_event (nt_event n)) (wo_mail w') = filter (\<lambda>n. candidate_event (nt_event n)) (wo_mail moved_world)"
proof -
  have "is_ok (reschedule_interview plain_env 7 0 ''hr'' [HR_ADMIN] (request_at 300 360) moved_world)" by code_simp
  then obtain res w' where run:
    "reschedule_interview plain_env 7 0 ''hr'' [HR_ADMIN] (request_at 300 360) moved_world = Inr (res, w')"
    by (auto simp: is_ok_iff)
  have "case round_by_id 0 (db_of moved_world) of None \<Rightarrow> False
      | Some r \<Rightarrow> is_reschedule_event plain_env (request_at 300 360) r"
    by code_simp
  then obtain r where r: "round_by_id 0 (db_of moved_world) = Some r" "is_reschedule_event plain_env (request_at 300 360) r"
    by (auto split: option.splits)
  have "list_ex (\<lambda>n. live_notice n \<and> nt_round n = Some 0 \<and> nt_event n = EV_RESCHEDULED) (wo_mail moved_world)"
    by code_simp
  then obtain n where n: "n \<in> set (wo_mail moved_world)" "live_notice n" "nt_round n = Some 0" "nt_event n = EV_RESCHEDULED"
    by (auto simp: list_ex_iff)
  show ?thesis using second_reschedule_is_silent[OF moved_world_ok run r n] run
    by (auto simp: plain_env_def request_at_def)
qed

end
