(* ===== verification/Interview_Feedback.thy ===== *)
theory Interview_Feedback
  imports Interview_Life
begin

text \<open>
  Feedback on a round: the requests of the sweep and of the handlers go to each
  interviewer once, a submitted feedback counts once, and a completed round can
  be taken up again.
\<close>

section \<open>Requests\<close>

text \<open>Nobody is left to ask: everyone gave feedback, was asked, or there is no template.\<close>

definition nobody_to_ask ::
    "(trigger_event \<Rightarrow> bool) \<Rightarrow> interview_round \<Rightarrow> interviewer_row list \<Rightarrow> interview_db \<Rightarrow> notice list \<Rightarrow> bool" where
  "nobody_to_ask tm r vs d mail \<longleftrightarrow>
     (\<forall>v\<in>set vs. iv_id v \<in> fb_interviewer ` set (feedback_of_round (ir_id r) d)
        \<or> already_told r v EV_FEEDBACK_REQUESTED mail \<or> \<not> tm EV_FEEDBACK_REQUESTED)"

lemma already_told_append: "already_told r v ev mail \<Longrightarrow> already_told r v ev (mail @ new)"
  by (auto simp: already_told_iff)

lemma request_all_appends: "\<exists>new. snd (request_all tm link cc r given vs mail) = mail @ new"
proof (induction vs arbitrary: mail)
  case (Cons v vs)
  have "\<exists>new. snd (queue_feedback_request tm link cc r v mail) = mail @ new"
    by (auto simp: queue_feedback_request_def queue_interviewer_email_def)
  then show ?case using Cons.IH[of mail] Cons.IH[of "snd (queue_feedback_request tm link cc r v mail)"]
    by (auto simp: case_prod_beta Let_def)
qed simp

lemma request_all_asks:
  "v \<in> set vs \<Longrightarrow> iv_id v \<notin> set given \<Longrightarrow> tm EV_FEEDBACK_REQUESTED \<Longrightarrow>
     already_told r v EV_FEEDBACK_REQUESTED (snd (request_all tm link cc r given vs mail))"
proof (induction vs arbitrary: mail)
  case (Cons u vs)
  show ?case
  proof (cases "iv_id u \<in> set given")
    case True
    then show ?thesis using Cons by auto
  next
    case False
    obtain b m1 where one: "queue_feedback_request tm link cc r u mail = (b, m1)" by (metis surj_pair)
    have told: "already_told r u EV_FEEDBACK_REQUESTED m1"
      using interviewer_email_cases[OF one[unfolded queue_feedback_request_def]] Cons.prems(3)
      by (force simp: already_told_iff)
    obtain new where "snd (request_all tm link cc r given vs m1) = m1 @ new"
      using request_all_appends by blast
    then show ?thesis using False one told Cons.IH[of m1] Cons.prems already_told_append
      by (auto simp: case_prod_beta Let_def)
  qed
qed simp

lemma request_all_silent:
  "(\<forall>v\<in>set vs. iv_id v \<in> set given \<or> already_told r v EV_FEEDBACK_REQUESTED mail \<or> \<not> tm EV_FEEDBACK_REQUESTED)
     \<Longrightarrow> request_all tm link cc r given vs mail = (0, mail)"
proof (induction vs)
  case (Cons v vs)
  have "iv_id v \<in> set given \<or> queue_feedback_request tm link cc r v mail = (False, mail)"
    using Cons.prems by (auto simp: queue_feedback_request_def queue_interviewer_email_def)
  then show ?case using Cons by auto
qed simp

lemma pending_requests_ask:
  "nobody_to_ask tm r vs d (snd (queue_pending_feedback_requests tm link cc r vs d mail))"
proof -
  let ?given = "map fb_interviewer (feedback_of_round (ir_id r) d)"
  have "iv_id v \<in> set ?given \<or> already_told r v EV_FEEDBACK_REQUESTED (snd (request_all tm link cc r ?given vs mail))
      \<or> \<not> tm EV_FEEDBACK_REQUESTED" if "v \<in> set vs" for v
    using request_all_asks[of v vs ?given tm r link cc mail, OF that] by blast
  then show ?thesis by (simp add: nobody_to_ask_def queue_pending_feedback_requests_def)
qed

lemma pending_requests_silent:
  "nobody_to_ask tm r vs d mail \<Longrightarrow> queue_pending_feedback_requests tm link cc r vs d mail = (0, mail)"
  unfolding queue_pending_feedback_requests_def
  by (rule request_all_silent) (simp add: nobody_to_ask_def)

lemma nobody_to_ask_append: "nobody_to_ask tm r vs d mail \<Longrightarrow> nobody_to_ask tm r vs d (mail @ new)"
  unfolding nobody_to_ask_def using already_told_append by blast

definition swept :: "interview_env \<Rightarrow> hiring_db \<Rightarrow> interview_round \<Rightarrow> notice list \<Rightarrow> bool" where
  "swept sv h r mail \<longleftrightarrow> find_candidate (ir_candidate r) h \<noteq> None \<longrightarrow>
     nobody_to_ask (sv_template sv) r (active_interviewers (ir_id r) (hd_interviews h)) (hd_interviews h) mail"

lemma sweep_rounds_appends: "\<exists>new. snd (sweep_rounds sv rs h mail) = mail @ new"
proof (induction rs arbitrary: mail)
  case (Cons r rs)
  let ?vs = "active_interviewers (ir_id r) (hd_interviews h)"
  show ?case
  proof (cases "?vs = [] \<or> find_candidate (ir_candidate r) h = None")
    case True
    then show ?thesis using Cons by (auto simp: Let_def)
  next
    case False
    then obtain cc where cc: "find_candidate (ir_candidate r) h = Some cc" by auto
    let ?q = "queue_pending_feedback_requests (sv_template sv) (sv_link sv) cc r ?vs (hd_interviews h) mail"
    obtain a where a: "snd ?q = mail @ a"
      using request_all_appends by (metis queue_pending_feedback_requests_def)
    obtain b where "snd (sweep_rounds sv rs h (snd ?q)) = snd ?q @ b" using Cons.IH by blast
    then show ?thesis using False cc a by (simp add: Let_def case_prod_beta)
  qed
qed simp

lemma sweep_rounds_asks: "r \<in> set rs \<Longrightarrow> swept sv h r (snd (sweep_rounds sv rs h mail))"
proof (induction rs arbitrary: mail)
  case (Cons s rs)
  let ?vs = "active_interviewers (ir_id s) (hd_interviews h)"
  show ?case
  proof (cases "?vs = [] \<or> find_candidate (ir_candidate s) h = None")
    case True
    then have "snd (sweep_rounds sv (s # rs) h mail) = snd (sweep_rounds sv rs h mail)" by (auto simp: Let_def)
    moreover have "swept sv h s m" for m using True by (auto simp: swept_def nobody_to_ask_def)
    ultimately show ?thesis using Cons by auto
  next
    case False
    then obtain cc where cc: "find_candidate (ir_candidate s) h = Some cc" by auto
    let ?q = "queue_pending_feedback_requests (sv_template sv) (sv_link sv) cc s ?vs (hd_interviews h) mail"
    have eq: "snd (sweep_rounds sv (s # rs) h mail) = snd (sweep_rounds sv rs h (snd ?q))"
      using False cc by (simp add: Let_def case_prod_beta)
    show ?thesis
    proof (cases "r = s")
      case True
      obtain b where "snd (sweep_rounds sv rs h (snd ?q)) = snd ?q @ b" using sweep_rounds_appends by blast
      then show ?thesis unfolding eq True swept_def
        using nobody_to_ask_append[OF pending_requests_ask] by metis
    next
      case False
      then show ?thesis unfolding eq using Cons by simp
    qed
  qed
qed simp

lemma sweep_rounds_silent:
  "(\<forall>r\<in>set rs. swept sv h r mail) \<Longrightarrow> sweep_rounds sv rs h mail = (0, mail)"
proof (induction rs)
  case (Cons r rs)
  let ?vs = "active_interviewers (ir_id r) (hd_interviews h)"
  show ?case
  proof (cases "?vs = [] \<or> find_candidate (ir_candidate r) h = None")
    case False
    then obtain cc where cc: "find_candidate (ir_candidate r) h = Some cc" by auto
    then have "nobody_to_ask (sv_template sv) r ?vs (hd_interviews h) mail" using Cons.prems by (simp add: swept_def)
    from pending_requests_silent[OF this] Cons cc False show ?thesis by (simp add: Let_def)
  qed (use Cons in \<open>auto simp: Let_def\<close>)
qed simp

text \<open>
  The sweep asks everyone who is to be asked and nobody twice: for
  every ended round that is still scheduled, each active interviewer without
  feedback has a live request afterwards, and a second run queues nothing.
\<close>

theorem sweep_asks_each_once:
  shows "sweep_feedback sv now (snd (sweep_feedback sv now w)) = (0, snd (sweep_feedback sv now w))
    \<and> (\<forall>r\<in>set (db_rounds (db_of w)). \<forall>v\<in>set (active_interviewers (ir_id r) (db_of w)).
         ir_status r \<in> {IS_SCHEDULED, IS_RESCHEDULED} \<and> (\<exists>e. ir_end_at r = Some e \<and> e < now)
         \<and> find_candidate (ir_candidate r) (wo_hiring w) \<noteq> None \<and> sv_template sv EV_FEEDBACK_REQUESTED
         \<and> feedback_of (ir_id r) (iv_id v) (db_of w) = None
         \<longrightarrow> already_told r v EV_FEEDBACK_REQUESTED (wo_mail (snd (sweep_feedback sv now w))))"
proof (intro conjI ballI impI)
  let ?rs = "ended_active_rounds now (db_of w)" and ?h = "wo_hiring w"
  let ?mail = "snd (sweep_rounds sv ?rs ?h (wo_mail w))"
  have w': "snd (sweep_feedback sv now w) = w\<lparr>wo_mail := ?mail\<rparr>"
    by (simp add: sweep_feedback_def case_prod_beta)
  have "\<forall>r\<in>set ?rs. swept sv ?h r ?mail" using sweep_rounds_asks by blast
  from sweep_rounds_silent[OF this]
  show "sweep_feedback sv now (snd (sweep_feedback sv now w)) = (0, snd (sweep_feedback sv now w))"
    unfolding w' by (simp add: sweep_feedback_def)
  fix r v assume r: "r \<in> set (db_rounds (db_of w))" "v \<in> set (active_interviewers (ir_id r) (db_of w))"
    and cond: "ir_status r \<in> {IS_SCHEDULED, IS_RESCHEDULED} \<and> (\<exists>e. ir_end_at r = Some e \<and> e < now)
         \<and> find_candidate (ir_candidate r) (wo_hiring w) \<noteq> None \<and> sv_template sv EV_FEEDBACK_REQUESTED
         \<and> feedback_of (ir_id r) (iv_id v) (db_of w) = None"
  then have "r \<in> set ?rs" by (auto simp: ended_active_rounds_def)
  then have "swept sv ?h r ?mail" by (rule sweep_rounds_asks)
  moreover have "iv_id v \<notin> fb_interviewer ` set (feedback_of_round (ir_id r) (db_of w))"
    using cond by (auto simp: feedback_of_def feedback_of_round_def find_None_all)
  ultimately show "already_told r v EV_FEEDBACK_REQUESTED (wo_mail (snd (sweep_feedback sv now w)))"
    using cond r(2) by (auto simp: w' swept_def nobody_to_ask_def)
qed

lemma sweep_asks_each_once_witness:
  "fst (sweep_feedback plain_env 500 scheduled_world) = 1
     \<and> fst (sweep_feedback plain_env 500 (snd (sweep_feedback plain_env 500 scheduled_world))) = 0"
proof -
  have "fst (sweep_feedback plain_env 500 scheduled_world) = 1" by code_simp
  then show ?thesis using sweep_asks_each_once[of plain_env 500 scheduled_world] by simp
qed

section \<open>Submitted feedback\<close>

text \<open>
  Property C11.  Feedback comes in only by a link whose interviewer belongs to the
  round it names, only after the round has ended, and once: it is stored with the
  submitted recommendation, the tables stay well formed, and every further
  submission with the same link is refused without a write.
\<close>

theorem feedback_is_given_once:
  assumes wf: "wf_interviews (hd_interviews h)"
    and run: "submit_feedback verify now token rec text h = Inr h'"
  shows "\<exists>r v. verify token = Some (ir_id r, iv_id v) \<and> round_by_id (ir_id r) (hd_interviews h) = Some r
     \<and> interviewer_by_id (iv_id v) (hd_interviews h) = Some v \<and> iv_interview v = ir_id r \<and> (\<exists>e. ir_end_at r = Some e \<and> e \<le> now)
     \<and> feedback_of (ir_id r) (iv_id v) (hd_interviews h) = None
     \<and> map_option fb_recommendation (feedback_of (ir_id r) (iv_id v) (hd_interviews h')) = Some rec
     \<and> wf_interviews (hd_interviews h')
     \<and> submit_feedback verify now token rec2 text2 h' = Inl IE_Submitted"
proof -
  from run obtain r v where e: "resolve_token verify token (hd_interviews h) = Inr (r, v)"
    "\<exists>e. ir_end_at r = Some e \<and> e \<le> now" "feedback_of (ir_id r) (iv_id v) (hd_interviews h) = None"
    "hd_interviews h' = (hd_interviews h)\<lparr>db_feedback := db_feedback (hd_interviews h) @
       [\<lparr>fb_round = ir_id r, fb_interviewer = iv_id v, fb_recommendation = rec, fb_notes = text\<rparr>]\<rparr>"
    by (rule submit_effect)
  from e(1) obtain ri vi where t: "verify token = Some (ri, vi)" "round_by_id ri (hd_interviews h) = Some r"
    "interviewer_by_id vi (hd_interviews h) = Some v" "iv_interview v = ir_id r"
    by (auto simp: resolve_token_def split: option.splits if_splits)
  have ids: "ri = ir_id r" "vi = iv_id v"
    using round_by_id_Some[OF t(2)] find_Some_set[OF t(3)[unfolded interviewer_by_id_def]] by auto
  have "find (\<lambda>f. fb_round f = ir_id r \<and> fb_interviewer f = iv_id v) (db_feedback (hd_interviews h)) = None"
    using e(3) by (simp add: feedback_of_def)
  then have fb: "feedback_of (ir_id r) (iv_id v) (hd_interviews h') =
      Some \<lparr>fb_round = ir_id r, fb_interviewer = iv_id v, fb_recommendation = rec, fb_notes = text\<rparr>"
    by (simp add: feedback_of_def e(4) find_append)
  have "resolve_token verify token (hd_interviews h') = Inr (r, v)"
    using t by (simp add: resolve_token_def e(4) round_by_id_def interviewer_by_id_def)
  then have "submit_feedback verify now token rec2 text2 h' = Inl IE_Submitted"
    using e(2) fb by (auto simp: submit_feedback_def create_feedback_def)
  then have "verify token = Some (ir_id r, iv_id v) \<and> round_by_id (ir_id r) (hd_interviews h) = Some r
     \<and> interviewer_by_id (iv_id v) (hd_interviews h) = Some v \<and> iv_interview v = ir_id r \<and> (\<exists>e. ir_end_at r = Some e \<and> e \<le> now)
     \<and> feedback_of (ir_id r) (iv_id v) (hd_interviews h) = None
     \<and> map_option fb_recommendation (feedback_of (ir_id r) (iv_id v) (hd_interviews h')) = Some rec
     \<and> wf_interviews (hd_interviews h')
     \<and> submit_feedback verify now token rec2 text2 h' = Inl IE_Submitted"
    using t ids e(2,3) fb submit_ok(1)[OF wf run] by simp
  then show ?thesis by blast
qed

lemma feedback_is_given_once_witness:
  "\<exists>h'. submit_feedback (\<lambda>t. Some (0, 1)) 500 ''t'' REC_SELECT None (wo_hiring scheduled_world) = Inr h'
     \<and> submit_feedback (\<lambda>t. Some (0, 1)) 500 ''t'' REC_REJECT None h' = Inl IE_Submitted"
proof -
  have "is_ok (submit_feedback (\<lambda>t. Some (0, 1)) 500 ''t'' REC_SELECT None (wo_hiring scheduled_world))" by code_simp
  then obtain h' where run: "submit_feedback (\<lambda>t. Some (0, 1)) 500 ''t'' REC_SELECT None (wo_hiring scheduled_world) = Inr h'"
    by (auto simp: is_ok_iff)
  have "wf_interviews (hd_interviews (wo_hiring scheduled_world))"
    using scheduled_world_ok by (simp add: world_ok_def)
  from feedback_is_given_once[OF this run] run show ?thesis by blast
qed

section \<open>Completed is not final\<close>

definition completed_world :: interview_world where
  "completed_world = next_world (complete_interview plain_env 500 0 ''hr'' [HR_ADMIN] scheduled_world)"

text \<open>
  A completed round can be cancelled, although it "can no longer be
  edited", and a cancelled round can be rescheduled: two calls turn a completed
  round with its feedback requested into a live one.
\<close>

theorem completed_round_revived:
  "map ir_status (db_rounds (db_of completed_world)) = [IS_COMPLETED]
   \<and> \<not> is_ok (reschedule_interview plain_env 600 0 ''hr'' [HR_ADMIN] (request_at 700 760) completed_world)
   \<and> map ir_status (db_rounds (db_of
        (next_world (reschedule_interview plain_env 602 0 ''hr'' [HR_ADMIN] (request_at 700 760)
          (next_world (cancel_interview plain_env 601 0 ''hr'' [HR_ADMIN] ''x'' completed_world)))))) = [IS_RESCHEDULED]"
proof (intro conjI)
  show "map ir_status (db_rounds (db_of completed_world)) = [IS_COMPLETED]" by code_simp
  show "\<not> is_ok (reschedule_interview plain_env 600 0 ''hr'' [HR_ADMIN] (request_at 700 760) completed_world)"
    by code_simp
  show "map ir_status (db_rounds (db_of
        (next_world (reschedule_interview plain_env 602 0 ''hr'' [HR_ADMIN] (request_at 700 760)
          (next_world (cancel_interview plain_env 601 0 ''hr'' [HR_ADMIN] ''x'' completed_world)))))) = [IS_RESCHEDULED]"
    by code_simp
qed

end
