(* ===== verification/Task_Failures.thy ===== *)
theory Task_Failures
  imports Stage_State
begin

text \<open>
  What becomes of a task that raises: \<open>error_classifier.py\<close>, \<open>embedding_error_classifier.py\<close>,
  \<open>retry_policy.py\<close>, \<open>retry_driver.py\<close> and \<open>stage_summary.py\<close> (all in
  \<open>app/services/document_processing\<close>), the status changes of \<open>CeleryTaskLogService\<close> and the
  table \<open>dead_letter_queue\<close> with its repository.  An exception is a value that carries what
  the classifiers look at; times are left out.
\<close>

section \<open>Exceptions and their classes\<close>

datatype failure_kind =
    FK_LLM_Transient | FK_LLM_Permanent | FK_GenAI_Server | FK_GenAI_Client "int option" | FK_GenAI_API
  | FK_Connection | FK_Timeout | FK_Operational | FK_Boto string
  | FK_Value | FK_Key | FK_Type | FK_Other

record failure =
  fl_kind :: failure_kind
  fl_text :: string
  fl_status :: "int option"
  fl_retry_after :: "rat option"

datatype failure_class = FC_TRANSIENT | FC_PERMANENT | FC_UNKNOWN

fun starts_with :: "string \<Rightarrow> string \<Rightarrow> bool" where
  "starts_with [] s = True"
| "starts_with (c # cs) [] = False"
| "starts_with (c # cs) (d # ds) = (c = d \<and> starts_with cs ds)"

text \<open>Python's \<open>a in s\<close> on strings.\<close>

fun contained_in :: "string \<Rightarrow> string \<Rightarrow> bool" where
  "contained_in a [] = (a = [])"
| "contained_in a (c # s) = (starts_with a (c # s) \<or> contained_in a s)"

definition quota_markers :: "string list" where
  "quota_markers = [''RESOURCE_EXHAUSTED'', ''exceeded your current quota'', ''billing'']"

definition is_quota_exhausted :: "string \<Rightarrow> bool" where
  "is_quota_exhausted msg = list_ex (\<lambda>m. contained_in (lower m) (lower msg)) quota_markers"

definition transient_ses_codes :: "string list" where
  "transient_ses_codes = [''Throttling'', ''ThrottlingException'', ''ServiceUnavailable'', ''RequestTimeout'']"

definition classify :: "failure \<Rightarrow> failure_class" where
  "classify e =
     (case fl_kind e of
        FK_LLM_Transient \<Rightarrow> FC_TRANSIENT
      | FK_LLM_Permanent \<Rightarrow> FC_PERMANENT
      | FK_GenAI_Server \<Rightarrow> FC_TRANSIENT
      | FK_GenAI_Client code \<Rightarrow>
          if code = Some 429 then (if is_quota_exhausted (fl_text e) then FC_PERMANENT else FC_TRANSIENT)
          else FC_PERMANENT
      | FK_Connection \<Rightarrow> FC_TRANSIENT
      | FK_Timeout \<Rightarrow> FC_TRANSIENT
      | FK_Operational \<Rightarrow> FC_TRANSIENT
      | FK_Boto code \<Rightarrow> if code \<in> set transient_ses_codes then FC_TRANSIENT else FC_PERMANENT
      | FK_Value \<Rightarrow> FC_PERMANENT
      | FK_Key \<Rightarrow> FC_PERMANENT
      | FK_Type \<Rightarrow> FC_PERMANENT
      | FK_GenAI_API \<Rightarrow> FC_UNKNOWN
      | FK_Other \<Rightarrow> FC_UNKNOWN)"

datatype embedding_class = EC_RATE_LIMITED "rat option" | EC_SERVER_ERROR | EC_PERMANENT

definition classify_embedding_error :: "failure \<Rightarrow> embedding_class" where
  "classify_embedding_error e =
     (if fl_status e = Some 429 then EC_RATE_LIMITED (fl_retry_after e)
      else if fl_status e \<in> set [Some 500, Some 503] then EC_SERVER_ERROR
      else if fl_status e = Some 400 then EC_PERMANENT
      else if classify e = FC_PERMANENT then EC_PERMANENT else EC_SERVER_ERROR)"

section \<open>Retry policies\<close>

record retry_policy =
  rp_max :: nat
  rp_base :: nat
  rp_cap :: nat

datatype processing_stage =
    PS_VALIDATION | PS_STORAGE | PS_TEXT_EXTRACTION | PS_TEXT_CLEANING | PS_PII_DETECTION | PS_PII_REDACTION
  | PS_AI_EXTRACTION | PS_JSON_VALIDATION | PS_SKILL_NORMALIZATION | PS_EMBEDDING_GENERATION | PS_PERSISTENCE

definition stage_order :: "processing_stage list" where
  "stage_order =
     [PS_VALIDATION, PS_STORAGE, PS_TEXT_EXTRACTION, PS_TEXT_CLEANING, PS_PII_DETECTION, PS_PII_REDACTION,
      PS_AI_EXTRACTION, PS_JSON_VALIDATION, PS_SKILL_NORMALIZATION, PS_EMBEDDING_GENERATION, PS_PERSISTENCE]"

definition default_policy :: retry_policy where
  "default_policy = \<lparr>rp_max = 3, rp_base = 5, rp_cap = 60\<rparr>"

definition stage_policy :: "processing_stage \<Rightarrow> retry_policy" where
  "stage_policy s = (if s = PS_AI_EXTRACTION then \<lparr>rp_max = 5, rp_base = 10, rp_cap = 120\<rparr> else default_policy)"

text \<open>Attempts count from 1.\<close>

definition compute_backoff_seconds :: "retry_policy \<Rightarrow> nat \<Rightarrow> nat" where
  "compute_backoff_seconds p attempt = min (rp_base p * 2 ^ (attempt - 1)) (rp_cap p)"

definition get_max_attempts :: "processing_stage option \<Rightarrow> nat" where
  "get_max_attempts s = rp_max (case s of None \<Rightarrow> default_policy | Some t \<Rightarrow> stage_policy t)"

definition get_retries_remaining :: "processing_stage option \<Rightarrow> nat \<Rightarrow> nat" where
  "get_retries_remaining s attempt = get_max_attempts s - attempt"

section \<open>The task log\<close>

definition set_status :: "string \<Rightarrow> task_status \<Rightarrow> task_log list \<Rightarrow> task_log list" where
  "set_status i s ts = map (\<lambda>t. if tk_id t = i then t\<lparr>tk_status := s\<rparr> else t) ts"

definition mark_retry :: "string \<Rightarrow> task_log list \<Rightarrow> task_log list" where
  "mark_retry i ts =
     map (\<lambda>t. if tk_id t = i then t\<lparr>tk_status := TK_RETRY, tk_retries := Suc (tk_retries t)\<rparr> else t) ts"

text \<open>
  \<open>dead_letter_queue\<close>: rows are only ever added, and marked replayed or resolved.
\<close>

record dead_letter =
  dq_id :: nat
  dq_task :: string
  dq_type :: string
  dq_resume :: "nat option"
  dq_candidate :: "nat option"
  dq_error :: string
  dq_retries :: nat
  dq_replayed_by :: "string option"
  dq_resolved :: bool

definition dead_letter_of ::
    "nat \<Rightarrow> string \<Rightarrow> string \<Rightarrow> nat option \<Rightarrow> nat option \<Rightarrow> string \<Rightarrow> nat \<Rightarrow> dead_letter" where
  "dead_letter_of i task type resume cand err n =
     \<lparr>dq_id = i, dq_task = task, dq_type = type, dq_resume = resume, dq_candidate = cand, dq_error = err,
      dq_retries = n, dq_replayed_by = None, dq_resolved = False\<rparr>"

definition add_dead_letter ::
    "string \<Rightarrow> string \<Rightarrow> nat option \<Rightarrow> nat option \<Rightarrow> string \<Rightarrow> nat \<Rightarrow> dead_letter list \<Rightarrow> dead_letter list" where
  "add_dead_letter task type resume cand err n q = q @ [dead_letter_of (length q) task type resume cand err n]"

text \<open>The rows of one piece of work: by candidate if there is one, else by resume.\<close>

definition same_work :: "string \<Rightarrow> nat option \<Rightarrow> nat option \<Rightarrow> dead_letter \<Rightarrow> bool" where
  "same_work type cand resume d \<longleftrightarrow> dq_type d = type \<and>
     (if cand \<noteq> None then dq_candidate d = cand
      else resume \<noteq> None \<and> dq_resume d = resume \<and> dq_candidate d = None)"

definition resolve_open :: "string \<Rightarrow> nat option \<Rightarrow> nat option \<Rightarrow> dead_letter list \<Rightarrow> dead_letter list" where
  "resolve_open type cand resume q = map (\<lambda>d. if same_work type cand resume d then d\<lparr>dq_resolved := True\<rparr> else d) q"

definition mark_success ::
    "string \<Rightarrow> task_log list \<times> dead_letter list \<Rightarrow> task_log list \<times> dead_letter list" where
  "mark_success i = (\<lambda>(ts, q).
     (set_status i TK_SUCCESS ts,
      case find (\<lambda>t. tk_id t = i) ts of None \<Rightarrow> q | Some t \<Rightarrow> resolve_open (tk_type t) (tk_candidate t) (tk_resume t) q))"

section \<open>The retry driver\<close>

record stage_failure =
  sf_task :: string
  sf_stage :: processing_stage
  sf_attempt :: nat
  sf_message :: string
  sf_class :: failure_class

record job_tables =
  jt_tasks :: "task_log list"
  jt_failures :: "stage_failure list"
  jt_dlq :: "dead_letter list"

text \<open>
  \<open>handle_failure\<close>: \<open>Some\<close> delay if the task was scheduled again (then \<open>retry\<close> raises), \<open>None\<close>
  if it was dead-lettered.
\<close>

definition handle_failure ::
    "string \<Rightarrow> string \<Rightarrow> processing_stage \<times> failure \<Rightarrow> nat \<Rightarrow> nat option \<Rightarrow> job_tables \<Rightarrow> nat option \<times> job_tables" where
  "handle_failure type task err attempt resume j =
     (let (stage, e) = err; c = classify e;
          j1 = j\<lparr>jt_failures := jt_failures j @ [\<lparr>sf_task = task, sf_stage = stage, sf_attempt = attempt,
                 sf_message = fl_text e, sf_class = c\<rparr>]\<rparr>;
          p = stage_policy stage
      in if c = FC_PERMANENT \<or> attempt \<ge> rp_max p
         then (None, j1\<lparr>jt_dlq := add_dead_letter task type resume None (fl_text e) attempt (jt_dlq j1)\<rparr>)
         else (Some (compute_backoff_seconds p attempt), j1\<lparr>jt_tasks := mark_retry task (jt_tasks j1)\<rparr>))"

text \<open>
  The runs of one document task, attempt by attempt: \<open>fails n\<close> is what stops attempt \<open>n\<close>, if
  anything does.  The result: the delays waited, whether it succeeded, the tables.
\<close>

lemma policy_max_le: "rp_max (stage_policy s) \<le> 5"
  by (simp add: stage_policy_def default_policy_def)

lemma handle_failure_retries: "handle_failure type task err n r j = (Some d, j') \<Longrightarrow> n < 5"
  using policy_max_le[of "fst err"] by (auto simp: handle_failure_def Let_def split: prod.splits if_splits)

function run_attempts ::
    "string \<Rightarrow> string \<Rightarrow> nat option \<Rightarrow> (nat \<Rightarrow> (processing_stage \<times> failure) option) \<Rightarrow> nat \<Rightarrow> job_tables
     \<Rightarrow> nat list \<times> bool \<times> job_tables" where
  "run_attempts type task resume fails n j =
     (let j1 = j\<lparr>jt_tasks := set_status task TK_RUNNING (jt_tasks j)\<rparr> in
      case fails n of
        None \<Rightarrow> (let (ts, q) = mark_success task (jt_tasks j1, jt_dlq j1) in ([], True, j1\<lparr>jt_tasks := ts, jt_dlq := q\<rparr>))
      | Some err \<Rightarrow>
          (case handle_failure type task err n resume j1 of
             (None, j2) \<Rightarrow> ([], False, j2\<lparr>jt_tasks := set_status task TK_FAILURE (jt_tasks j2)\<rparr>)
           | (Some d, j2) \<Rightarrow> (let (ds, ok, j3) = run_attempts type task resume fails (Suc n) j2 in (d # ds, ok, j3))))"
  by pat_completeness auto
termination
  by (relation "measure (\<lambda>(type, task, resume, fails, n, j). 5 - n)")
     (auto dest: handle_failure_retries[OF sym])

declare run_attempts.simps [simp del]

section \<open>What is shown of the stages\<close>

datatype execution_status = EX_PENDING | EX_RUNNING | EX_SUCCESS | EX_FAILED | EX_SKIPPED

record stage_execution =
  se_stage :: processing_stage
  se_status :: execution_status
  se_attempt :: nat

definition replaces :: "stage_execution \<Rightarrow> stage_execution \<Rightarrow> bool" where
  "replaces new old =
     (if se_status old = EX_SKIPPED \<and> se_status new \<noteq> EX_SKIPPED then True
      else if se_status new = EX_SKIPPED \<and> se_status old \<noteq> EX_SKIPPED then False
      else se_attempt new \<ge> se_attempt old)"

definition note_execution ::
    "stage_execution \<Rightarrow> (processing_stage \<times> stage_execution) list \<Rightarrow> (processing_stage \<times> stage_execution) list" where
  "note_execution e d =
     (case map_of d (se_stage e) of
        None \<Rightarrow> AList.update (se_stage e) e d
      | Some old \<Rightarrow> if replaces e old then AList.update (se_stage e) e d else d)"

fun position :: "'a \<Rightarrow> 'a list \<Rightarrow> nat" where
  "position x [] = 0"
| "position x (y # ys) = (if x = y then 0 else Suc (position x ys))"

definition collapse_to_latest_attempt :: "stage_execution list \<Rightarrow> stage_execution list" where
  "collapse_to_latest_attempt es = sort_key (\<lambda>e. position (se_stage e) stage_order) (map snd (fold note_execution es []))"

definition terminal_statuses :: "task_status list" where
  "terminal_statuses = [TK_SUCCESS, TK_FAILURE, TK_DEAD]"

definition retry_budget :: "task_log \<Rightarrow> stage_execution list \<Rightarrow> nat \<times> nat" where
  "retry_budget t es =
     (let stage = (if es = [] then None else Some (se_stage (last es))); m = get_max_attempts stage
      in if tk_status t \<in> set terminal_statuses then (m, 0) else (m, get_retries_remaining stage (tk_retries t + 1)))"

definition stage_retries_remaining :: "stage_execution \<Rightarrow> nat option" where
  "stage_retries_remaining e =
     (if se_status e \<noteq> EX_FAILED then None else Some (get_retries_remaining (Some (se_stage e)) (se_attempt e)))"

section \<open>Lemmas\<close>

lemma position_less_iff: "x \<in> set xs \<Longrightarrow> position x xs < length xs"
  by (induction xs) auto

lemma position_inj: "x \<in> set xs \<Longrightarrow> y \<in> set xs \<Longrightarrow> position x xs = position y xs \<Longrightarrow> x = y"
  by (induction xs) (auto split: if_splits)

lemma stage_order_all [simp]: "s \<in> set stage_order"
  by (cases s) (simp_all add: stage_order_def)

text \<open>What the fold keeps: every stage once, with its best row so far.\<close>

definition best_row :: "stage_execution list \<Rightarrow> stage_execution \<Rightarrow> bool" where
  "best_row es r \<longleftrightarrow> r \<in> set es \<and> (\<forall>e\<in>set es. se_stage e = se_stage r \<longrightarrow> replaces r e)"

lemma replaces_refl: "replaces e e"
  by (simp add: replaces_def)

lemma replaces_iff: "replaces new old \<longleftrightarrow>
    (se_status new \<noteq> EX_SKIPPED \<and> se_status old = EX_SKIPPED)
    \<or> ((se_status new = EX_SKIPPED) = (se_status old = EX_SKIPPED) \<and> se_attempt old \<le> se_attempt new)"
  by (cases "se_status new = EX_SKIPPED"; cases "se_status old = EX_SKIPPED") (simp_all add: replaces_def)

lemma replaces_trans: "replaces a b \<Longrightarrow> replaces b c \<Longrightarrow> replaces a c"
  unfolding replaces_iff by linarith

lemma replaces_total: "\<not> replaces a b \<Longrightarrow> replaces b a"
  unfolding replaces_iff by linarith

lemma set_update_distinct:
  "distinct (map fst d) \<Longrightarrow> set (AList.update k v d) = insert (k, v) {p \<in> set d. fst p \<noteq> k}"
  by (induction d) force+

lemma note_execution_inv:
  assumes "distinct (map fst d)" "\<forall>(s, r)\<in>set d. se_stage r = s \<and> best_row es r"
    "fst ` set d = se_stage ` set es"
  shows "distinct (map fst (note_execution e d))"
    "\<forall>(s, r)\<in>set (note_execution e d). se_stage r = s \<and> best_row (es @ [e]) r"
    "fst ` set (note_execution e d) = se_stage ` set (es @ [e])"
proof -
  note upd = set_update_distinct[OF assms(1)]
  have keys: "fst ` set (AList.update k v d) = insert k (fst ` set d)" for k and v :: stage_execution
    by (simp add: AList.dom_update)
  show "distinct (map fst (note_execution e d))"
    using assms(1) by (auto simp: note_execution_def update_keys_distinct split: option.splits)
  consider (new) "map_of d (se_stage e) = None" | (old) r where "map_of d (se_stage e) = Some r" by fastforce
  then have both: "(\<forall>(s, r)\<in>set (note_execution e d). se_stage r = s \<and> best_row (es @ [e]) r)
      \<and> fst ` set (note_execution e d) = se_stage ` set (es @ [e])"
  proof cases
    case new
    then have "se_stage e \<notin> se_stage ` set es" using assms(3) by (simp add: map_of_eq_None_iff)
    then have none: "\<forall>x\<in>set es. se_stage x \<noteq> se_stage e" by (metis imageI)
    have "best_row (es @ [e]) e" using none by (auto simp: best_row_def replaces_refl)
    moreover have "best_row (es @ [e]) r" if "(s, r) \<in> set d" for s r
    proof -
      have r: "se_stage r = s" "best_row es r" using assms(2) that by auto
      then have "se_stage r \<noteq> se_stage e" using none by (auto simp: best_row_def)
      with r show ?thesis by (auto simp: best_row_def)
    qed
    ultimately show ?thesis using new assms(2,3) keys by (auto simp: note_execution_def upd)
  next
    case old
    then have mem: "(se_stage e, r) \<in> set d" by (rule map_of_SomeD)
    then have r: "se_stage r = se_stage e" "best_row es r" using assms(2) by auto
    have other: "best_row (es @ [e]) x" if "(s, x) \<in> set d" "s \<noteq> se_stage e" for s x
      using assms(2) that by (auto simp: best_row_def)
    have in_keys: "se_stage e \<in> fst ` set d" using mem by force
    show ?thesis
    proof (cases "replaces e r")
      case True
      have "best_row (es @ [e]) e"
        using r True by (auto simp: best_row_def replaces_refl intro: replaces_trans[OF True])
      then show ?thesis using old True assms(2,3) other in_keys keys by (auto simp: note_execution_def upd)
    next
      case False
      then have "best_row (es @ [e]) r" using r replaces_total[OF False] by (auto simp: best_row_def)
      moreover have "x = r" if "(se_stage e, x) \<in> set d" for x
        using map_of_is_SomeI[OF assms(1) that] old by simp
      ultimately have "best_row (es @ [e]) x" if "(s, x) \<in> set d" for s x
        using other that by (cases "s = se_stage e") auto
      then show ?thesis using old False assms(2,3) in_keys by (auto simp: note_execution_def)
    qed
  qed
  then show "\<forall>(s, r)\<in>set (note_execution e d). se_stage r = s \<and> best_row (es @ [e]) r"
    "fst ` set (note_execution e d) = se_stage ` set (es @ [e])" by blast+
qed

lemma fold_note_inv:
  "distinct (map fst (fold note_execution es [])) \<and>
   (\<forall>(s, r)\<in>set (fold note_execution es []). se_stage r = s \<and> best_row es r) \<and>
   fst ` set (fold note_execution es []) = se_stage ` set es"
proof (induction es rule: rev_induct)
  case (snoc e es)
  then show ?case using note_execution_inv[of "fold note_execution es []" es e] by simp
qed simp

lemma collapse_facts:
  "distinct (map se_stage (collapse_to_latest_attempt es))"
  "set (collapse_to_latest_attempt es) = {r. best_row es r \<and> r \<in> snd ` set (fold note_execution es [])}"
  "se_stage ` set (collapse_to_latest_attempt es) = se_stage ` set es"
  "sorted (map (\<lambda>r. position (se_stage r) stage_order) (collapse_to_latest_attempt es))"
proof -
  let ?d = "fold note_execution es []" and ?k = "\<lambda>r. position (se_stage r) stage_order"
  note inv = fold_note_inv[of es]
  have st: "map se_stage (map snd ?d) = map fst ?d" using inv by (auto intro!: map_cong)
  show "sorted (map ?k (collapse_to_latest_attempt es))" by (simp add: collapse_to_latest_attempt_def)
  have perm: "mset (map se_stage (collapse_to_latest_attempt es)) = mset (map fst ?d)"
    unfolding collapse_to_latest_attempt_def st[symmetric] by (simp only: mset_map mset_sort)
  then show "distinct (map se_stage (collapse_to_latest_attempt es))" using inv by (metis mset_eq_imp_distinct_iff)
  show "se_stage ` set (collapse_to_latest_attempt es) = se_stage ` set es"
    using mset_eq_setD[OF perm] inv by simp
  show "set (collapse_to_latest_attempt es) = {r. best_row es r \<and> r \<in> snd ` set ?d}"
    using inv by (auto simp: collapse_to_latest_attempt_def)
qed

text \<open>
  The stages shown for a task: every stage that was executed appears once,
  in the order of the pipeline, with one of its rows; a skipped row is shown only
  for a stage that was skipped every time, and no other row of the same kind has a higher
  attempt number.
\<close>

theorem latest_attempts_shown:
  "distinct (map se_stage (collapse_to_latest_attempt es))
   \<and> se_stage ` set (collapse_to_latest_attempt es) = se_stage ` set es
   \<and> sorted (map (\<lambda>r. position (se_stage r) stage_order) (collapse_to_latest_attempt es))
   \<and> (\<forall>r\<in>set (collapse_to_latest_attempt es). r \<in> set es
        \<and> (\<forall>e\<in>set es. se_stage e = se_stage r \<longrightarrow> (se_status r = EX_SKIPPED \<longrightarrow> se_status e = EX_SKIPPED)
             \<and> ((se_status e = EX_SKIPPED) = (se_status r = EX_SKIPPED) \<longrightarrow> se_attempt e \<le> se_attempt r)))"
  using collapse_facts[of es] by (fastforce simp: best_row_def replaces_iff)

section \<open>The runs of a document task\<close>

lemma backoff_bounds: "compute_backoff_seconds p n \<le> rp_cap p" "m \<le> n \<Longrightarrow> compute_backoff_seconds p m \<le> compute_backoff_seconds p n"
proof -
  show "compute_backoff_seconds p n \<le> rp_cap p" by (simp add: compute_backoff_seconds_def)
  assume "m \<le> n"
  then have "(2::nat) ^ (m - 1) \<le> 2 ^ (n - 1)" by (simp add: diff_le_mono)
  then have "rp_base p * 2 ^ (m - 1) \<le> rp_base p * 2 ^ (n - 1)" by simp
  then show "compute_backoff_seconds p m \<le> compute_backoff_seconds p n"
    unfolding compute_backoff_seconds_def by linarith
qed

lemma handle_failure_cases:
  assumes "handle_failure type task (s, e) n r j = (x, j')"
  shows "if classify e = FC_PERMANENT \<or> n \<ge> rp_max (stage_policy s)
    then x = None \<and> jt_dlq j' = add_dead_letter task type r None (fl_text e) n (jt_dlq j) \<and> jt_tasks j' = jt_tasks j
    else x = Some (compute_backoff_seconds (stage_policy s) n) \<and> jt_dlq j' = jt_dlq j \<and> jt_tasks j' = mark_retry task (jt_tasks j)"
  using assms by (auto simp: handle_failure_def Let_def split: if_splits)

text \<open>
  A document task ends: whatever fails, it is run at most five times, and
  at most three times if the AI extraction never fails; every delay is at most two
  minutes.  If the last run fails, exactly one row is added to the dead letters,
  otherwise none.
\<close>

theorem document_attempts_end:
  assumes "run_attempts type task r fails 1 j = (ds, ok, j')"
  shows "length ds \<le> 4 \<and> (\<forall>d\<in>set ds. d \<le> 120)
    \<and> ((\<forall>n e. fails n \<noteq> Some (PS_AI_EXTRACTION, e)) \<longrightarrow> length ds \<le> 2)
    \<and> (\<forall>n\<le>length ds. 0 < n \<longrightarrow> fails n \<noteq> None) \<and> (ok \<longleftrightarrow> fails (Suc (length ds)) = None)
    \<and> (if ok then length (jt_dlq j') = length (jt_dlq j)
       else \<exists>d. jt_dlq j' = jt_dlq j @ [d] \<and> dq_task d = task \<and> dq_type d = type \<and> dq_resume d = r \<and> dq_retries d = Suc (length ds))"
proof -
  have gen: "length ds + n \<le> max n 5 \<and> (\<forall>d\<in>set ds. d \<le> 120)
    \<and> ((\<forall>n e. fails n \<noteq> Some (PS_AI_EXTRACTION, e)) \<longrightarrow> length ds + n \<le> max n 3)
    \<and> (\<forall>m. n \<le> m \<and> m < n + length ds \<longrightarrow> fails m \<noteq> None) \<and> (ok \<longleftrightarrow> fails (n + length ds) = None)
    \<and> (if ok then length (jt_dlq j') = length (jt_dlq j)
       else \<exists>d. jt_dlq j' = jt_dlq j @ [d] \<and> dq_task d = task \<and> dq_type d = type \<and> dq_resume d = r \<and> dq_retries d = n + length ds)"
    if "run_attempts type task r fails n j = (ds, ok, j')" for n
    using that
  proof (induction type task r fails n j arbitrary: ds rule: run_attempts.induct)
    case (1 type task r fails n j)
    let ?j1 = "j\<lparr>jt_tasks := set_status task TK_RUNNING (jt_tasks j)\<rparr>"
    show ?case
    proof (cases "fails n")
      case None
      then have "ds = []" "ok" "length (jt_dlq j') = length (jt_dlq j)"
        using "1.prems" by (subst (asm) run_attempts.simps,
          auto simp: mark_success_def resolve_open_def Let_def split: option.splits)+
      with None show ?thesis by auto
    next
      case (Some err)
      obtain s e where err: "err = (s, e)" by (cases err)
      obtain x j2 where h: "handle_failure type task (s, e) n r ?j1 = (x, j2)" by (metis surj_pair)
      note hc = handle_failure_cases[OF h]
      show ?thesis
      proof (cases x)
        case None
        then have end_here: "ds = []" "\<not> ok" "jt_dlq j' = jt_dlq j2"
          using "1.prems" Some h err by (subst (asm) run_attempts.simps, auto simp: Let_def)+
        with hc None Some show ?thesis by (auto simp: add_dead_letter_def dead_letter_of_def split: if_splits)
      next
        case (Some d)
        obtain ds' ok' j3 where rec: "run_attempts type task r fails (Suc n) j2 = (ds', ok', j3)" by (metis prod_cases3)
        have eqs: "ds = d # ds'" "ok = ok'" "j' = j3"
          using "1.prems" Some \<open>fails n = Some err\<close> h err rec
          by (subst (asm) run_attempts.simps, auto simp: Let_def)+
        have less: "n < rp_max (stage_policy s)" "d = compute_backoff_seconds (stage_policy s) n" "jt_dlq j2 = jt_dlq j"
          using hc Some by (auto split: if_splits)
        have cap: "d \<le> 120" using backoff_bounds(1)[of "stage_policy s" n] less(2)
          by (simp add: stage_policy_def default_policy_def split: if_splits)
        have ai: "(\<forall>n e. fails n \<noteq> Some (PS_AI_EXTRACTION, e)) \<Longrightarrow> n < 3"
          using less(1) \<open>fails n = Some err\<close> err by (auto simp: stage_policy_def default_policy_def split: if_splits)
        have ih: "length ds' + Suc n \<le> max (Suc n) 5 \<and> (\<forall>d\<in>set ds'. d \<le> 120)
          \<and> ((\<forall>n e. fails n \<noteq> Some (PS_AI_EXTRACTION, e)) \<longrightarrow> length ds' + Suc n \<le> max (Suc n) 3)
          \<and> (\<forall>m. Suc n \<le> m \<and> m < Suc n + length ds' \<longrightarrow> fails m \<noteq> None) \<and> (ok' \<longleftrightarrow> fails (Suc n + length ds') = None)
          \<and> (if ok' then length (jt_dlq j') = length (jt_dlq j2)
             else \<exists>d. jt_dlq j' = jt_dlq j2 @ [d] \<and> dq_task d = task \<and> dq_type d = type \<and> dq_resume d = r \<and> dq_retries d = Suc n + length ds')"
          unfolding eqs(2)[symmetric]
          by (rule "1.IH"[OF refl \<open>fails n = Some err\<close> _ Some]) (use h err rec eqs in auto)
        have mid: "fails m \<noteq> None" if "n \<le> m" "m < n + Suc (length ds')" for m
          using ih \<open>fails n = Some err\<close> that by (cases "m = n") auto
        show ?thesis using ih eqs less cap ai mid policy_max_le[of s] by auto
      qed
    qed
  qed
  from gen[OF assms] show ?thesis by (auto simp: less_Suc_eq_le)
qed

definition lost_connection :: failure where
  "lost_connection = \<lparr>fl_kind = FK_Connection, fl_text = ''connection reset'', fl_status = None, fl_retry_after = None\<rparr>"

definition document_tables :: job_tables where
  "document_tables = \<lparr>jt_tasks = [queued_log ''t'' ''RESUME_DOCUMENT_PROCESSING'' None], jt_failures = [], jt_dlq = []\<rparr>"

text \<open>The extraction recovers at its fourth attempt; the first failure of a later stage is then the last.\<close>

definition late_failure :: "nat \<Rightarrow> (processing_stage \<times> failure) option" where
  "late_failure n = (if n \<le> 3 then Some (PS_AI_EXTRACTION, lost_connection) else Some (PS_PERSISTENCE, lost_connection))"

lemma document_attempts_end_witness:
  "\<exists>j. run_attempts ''RESUME_DOCUMENT_PROCESSING'' ''t'' (Some 1) late_failure 1 document_tables = ([10, 20, 40], False, j)
     \<and> (\<exists>d. jt_dlq j = [d] \<and> dq_retries d = 4)"
proof -
  let ?r = "run_attempts ''RESUME_DOCUMENT_PROCESSING'' ''t'' (Some 1) late_failure 1 document_tables"
  have "(fst ?r, fst (snd ?r)) = ([10, 20, 40], False)" by code_simp
  then obtain j where r: "?r = ([10, 20, 40], False, j)" by (cases ?r) auto
  from document_attempts_end[OF this] obtain d where "jt_dlq j = jt_dlq document_tables @ [d]" "dq_retries d = Suc (length [10::nat, 20, 40])"
    by auto
  then have "jt_dlq j = [d] \<and> dq_retries d = 4" by (simp add: document_tables_def)
  with r show ?thesis by blast
qed

text \<open>A stage that failed once and then succeeded, one that was skipped on the second run.\<close>

definition two_runs :: "stage_execution list" where
  "two_runs =
     [\<lparr>se_stage = PS_STORAGE, se_status = EX_SUCCESS, se_attempt = 1\<rparr>, \<lparr>se_stage = PS_VALIDATION, se_status = EX_SUCCESS, se_attempt = 1\<rparr>,
      \<lparr>se_stage = PS_AI_EXTRACTION, se_status = EX_FAILED, se_attempt = 1\<rparr>, \<lparr>se_stage = PS_STORAGE, se_status = EX_SKIPPED, se_attempt = 2\<rparr>,
      \<lparr>se_stage = PS_AI_EXTRACTION, se_status = EX_SUCCESS, se_attempt = 2\<rparr>]"

lemma latest_attempts_shown_witness:
  "map (\<lambda>r. (se_stage r, se_attempt r)) (collapse_to_latest_attempt two_runs) = [(PS_VALIDATION, 1), (PS_STORAGE, 1), (PS_AI_EXTRACTION, 2)]
   \<and> se_stage ` set (collapse_to_latest_attempt two_runs) = se_stage ` set two_runs"
proof
  show "map (\<lambda>r. (se_stage r, se_attempt r)) (collapse_to_latest_attempt two_runs) = [(PS_VALIDATION, 1), (PS_STORAGE, 1), (PS_AI_EXTRACTION, 2)]"
    by code_simp
  show "se_stage ` set (collapse_to_latest_attempt two_runs) = se_stage ` set two_runs"
    using latest_attempts_shown[of two_runs] by blast
qed

end
