(* ===== verification/Score_Rounding.thy ===== *)
theory Score_Rounding
  imports AIRS_Prelude
begin

text \<open>
  Rounding of scores.  Scores are Python floats or \<open>Decimal\<close>s in the sources and
  rational numbers here, so every intermediate value is exact and the only loss is
  the rounding that the code asks for: \<open>round(x, n)\<close> rounds to the nearest
  multiple of \<open>10 ** -n\<close> with ties to even, \<open>quantize(..., ROUND_HALF_UP)\<close>
  (\<open>app/utils/scoring_utils.py\<close>) with ties away from zero.  What the scoring services
  need of either is stated once, as a locale.
\<close>

section \<open>The two roundings\<close>

definition half_even :: "rat \<Rightarrow> int" where
  "half_even x =
     (let f = \<lfloor>x\<rfloor>; d = x - of_int f
      in if d < 1 / 2 then f else if d > 1 / 2 then f + 1 else if even f then f else f + 1)"

definition half_up :: "rat \<Rightarrow> int" where
  "half_up x = (if x \<ge> 0 then \<lfloor>x + 1 / 2\<rfloor> else - \<lfloor>- x + 1 / 2\<rfloor>)"

definition to_places :: "(rat \<Rightarrow> int) \<Rightarrow> nat \<Rightarrow> rat \<Rightarrow> rat" where
  "to_places r n x = of_int (r (x * 10 ^ n)) / 10 ^ n"

definition py_round :: "nat \<Rightarrow> rat \<Rightarrow> rat" where
  "py_round n x = to_places half_even n x"

definition round_composite_score :: "rat \<Rightarrow> rat" where
  "round_composite_score x = to_places half_up 2 x"

section \<open>Laws of a rounding\<close>

locale integer_rounding =
  fixes r :: "rat \<Rightarrow> int"
  assumes exact: "r (of_int k) = k"
    and mono: "x \<le> y \<Longrightarrow> r x \<le> r y"
    and near: "\<bar>of_int (r x) - x\<bar> \<le> 1 / 2"
begin

lemma places_mono: "x \<le> y \<Longrightarrow> to_places r n x \<le> to_places r n y"
  by (simp add: to_places_def divide_right_mono mono mult_right_mono)

lemma places_grid: "to_places r n (of_int k / 10 ^ n) = of_int k / 10 ^ n"
  by (simp add: to_places_def exact)

lemma places_idem: "to_places r n (to_places r n x) = to_places r n x"
  using places_grid[of n "r (x * 10 ^ n)"] by (simp add: to_places_def)

lemma places_int: "to_places r n (of_int k) = of_int k"
  using places_grid[of n "k * 10 ^ n"] by simp

lemma places_lower: "of_int a \<le> x \<Longrightarrow> of_int a \<le> to_places r n x"
  using places_mono[of "of_int a" x n] by (simp add: places_int)

lemma places_upper: "x \<le> of_int b \<Longrightarrow> to_places r n x \<le> of_int b"
  using places_mono[of x "of_int b" n] by (simp add: places_int)

lemma places_under: "x \<le> to_places r n y \<Longrightarrow> to_places r n x \<le> to_places r n y"
  using places_mono[of x "to_places r n y" n] by (simp add: places_idem)

lemma places_near: "\<bar>to_places r n x - x\<bar> \<le> 1 / (2 * 10 ^ n)"
proof -
  have "\<bar>of_int (r (x * 10 ^ n)) - x * 10 ^ n\<bar> / 10 ^ n \<le> (1 / 2) / 10 ^ n"
    by (rule divide_right_mono[OF near]) simp
  moreover have "to_places r n x - x = (of_int (r (x * 10 ^ n)) - x * 10 ^ n) / 10 ^ n"
    by (simp add: to_places_def diff_divide_distrib)
  then have "\<bar>to_places r n x - x\<bar> = \<bar>of_int (r (x * 10 ^ n)) - x * 10 ^ n\<bar> / 10 ^ n"
    by (simp add: abs_divide)
  ultimately show ?thesis by simp
qed

lemma places_drop: "x - d \<le> y \<Longrightarrow> to_places r n x - (d + 1 / 10 ^ n) \<le> to_places r n y"
proof -
  assume "x - d \<le> y"
  moreover have "to_places r n x \<le> x + 1 / (2 * 10 ^ n)" "y - 1 / (2 * 10 ^ n) \<le> to_places r n y"
    using places_near[of n x] places_near[of n y] by (simp_all only: abs_le_iff) linarith+
  moreover have "(1 :: rat) / 10 ^ n = 1 / (2 * 10 ^ n) + 1 / (2 * 10 ^ n)" by simp
  ultimately show ?thesis by linarith
qed

end

lemma half_even_cases:
  obtains "half_even x = \<lfloor>x\<rfloor>" "x - of_int \<lfloor>x\<rfloor> \<le> 1 / 2" | "half_even x = \<lfloor>x\<rfloor> + 1" "1 / 2 \<le> x - of_int \<lfloor>x\<rfloor>"
  by (cases "x - of_int \<lfloor>x\<rfloor> < 1 / 2"; cases "x - of_int \<lfloor>x\<rfloor> > 1 / 2"; cases "even \<lfloor>x\<rfloor>")
     (auto simp: half_even_def Let_def)

lemma half_even_mono: "x \<le> y \<Longrightarrow> half_even x \<le> half_even y"
proof (cases "\<lfloor>x\<rfloor> = \<lfloor>y\<rfloor>")
  case True
  assume "x \<le> y"
  then show ?thesis by (auto simp: half_even_def Let_def True)
next
  case False
  assume "x \<le> y"
  then have "\<lfloor>x\<rfloor> + 1 \<le> \<lfloor>y\<rfloor>" using floor_mono[of x y] False by simp
  moreover have "half_even x \<le> \<lfloor>x\<rfloor> + 1" by (rule half_even_cases[of x]) auto
  moreover have "\<lfloor>y\<rfloor> \<le> half_even y" by (rule half_even_cases[of y]) auto
  ultimately show ?thesis by simp
qed

interpretation py: integer_rounding half_even
proof unfold_locales
  show "half_even (of_int k) = k" for k by (simp add: half_even_def)
  show "half_even x \<le> half_even y" if "x \<le> y" for x y using that by (rule half_even_mono)
  show "\<bar>of_int (half_even x) - x\<bar> \<le> 1 / 2" for x :: rat
  proof (rule half_even_cases[of x])
    assume "half_even x = \<lfloor>x\<rfloor>" "x - of_int \<lfloor>x\<rfloor> \<le> 1 / 2"
    then show ?thesis using of_int_floor_le[of x] by (simp add: abs_le_iff)
  next
    assume *: "half_even x = \<lfloor>x\<rfloor> + 1" "1 / 2 \<le> x - of_int \<lfloor>x\<rfloor>"
    have "x < of_int \<lfloor>x\<rfloor> + 1" by (rule floor_correct[THEN conjunct2, THEN order_less_le_trans]) simp
    with * show ?thesis by (simp add: abs_le_iff)
  qed
qed

interpretation dec: integer_rounding half_up
proof unfold_locales
  show "half_up (of_int k) = k" for k by (simp add: half_up_def floor_unique)
  show "half_up x \<le> half_up y" if "x \<le> y" for x y
  proof (cases "x < 0 \<and> 0 \<le> y")
    case True
    have "0 \<le> \<lfloor>- x + 1 / 2\<rfloor>" "0 \<le> \<lfloor>y + 1 / 2\<rfloor>" using True by (simp_all add: le_floor_iff)
    then have "- \<lfloor>- x + 1 / 2\<rfloor> \<le> \<lfloor>y + 1 / 2\<rfloor>" by linarith
    then show ?thesis using True by (simp add: half_up_def)
  next
    case False
    then show ?thesis using that floor_mono[of "x + 1 / 2" "y + 1 / 2"] floor_mono[of "- y + 1 / 2" "- x + 1 / 2"]
      by (auto simp: half_up_def)
  qed
  show "\<bar>of_int (half_up x) - x\<bar> \<le> 1 / 2" for x :: rat
  proof (cases "0 \<le> x")
    case True
    have "\<bar>of_int \<lfloor>x + 1 / 2\<rfloor> - x\<bar> \<le> 1 / 2" using floor_correct[of "x + 1 / 2"] unfolding abs_le_iff by linarith
    then show ?thesis using True by (simp only: half_up_def if_True)
  next
    case False
    have "\<bar>- of_int \<lfloor>- x + 1 / 2\<rfloor> - x\<bar> \<le> 1 / 2" using floor_correct[of "- x + 1 / 2"] unfolding abs_le_iff by linarith
    then show ?thesis using False by (simp only: half_up_def if_False of_int_minus)
  qed
qed

lemma py_round_int [simp]: "py_round n (of_int k) = of_int k"
  by (simp add: py_round_def py.places_int)

lemma py_round_const [simp]: "py_round n 0 = 0" "py_round n 1 = 1" "py_round n (numeral v) = numeral v"
  using py_round_int[of n 0] py_round_int[of n 1] py_round_int[of n "numeral v"] by simp_all

lemma py_round_mono: "x \<le> y \<Longrightarrow> py_round n x \<le> py_round n y"
  by (simp add: py_round_def py.places_mono)

lemma py_round_idem [simp]: "py_round n (py_round n x) = py_round n x"
  by (simp add: py_round_def py.places_idem)

lemma py_round_nonneg: "0 \<le> x \<Longrightarrow> 0 \<le> py_round n x"
  using py_round_mono[of 0 x n] by simp

lemma py_round_percent: "0 \<le> x \<Longrightarrow> x \<le> 100 \<Longrightarrow> 0 \<le> py_round n x \<and> py_round n x \<le> 100"
  using py_round_mono[of 0 x n] py_round_mono[of x 100 n] by simp

lemma ratio_percent:
  fixes a m :: rat
  assumes "0 \<le> a" "a \<le> m" "0 < m"
  shows "0 \<le> a / m * 100" "a / m * 100 \<le> 100"
  using assms by (simp_all add: field_simps)

end
