(* ===== verification/Composite_Score.thy ===== *)
theory Composite_Score
  imports Score_Rounding Pipeline_Outcomes
begin

text \<open>
  \<open>CompositeScoringService\<close> (\<open>app/services/campaign/composite_scoring_service.py\<close>): the
  only writer of \<open>campaign_candidates.composite_score\<close> and of the table
  \<open>candidate_composite_score_history\<close>.  An error value stands for the raised
  \<open>ValueError\<close>, after which the caller rolls back.
\<close>

section \<open>Rows and errors\<close>

datatype composite_trigger = TR_AI_EVALUATION | TR_REJECTION | TR_CAMPAIGN_WEIGHT_CHANGE

fun trigger_value :: "composite_trigger \<Rightarrow> string" where
  "trigger_value TR_AI_EVALUATION = ''AI_EVALUATION''"
| "trigger_value TR_REJECTION = ''REJECTION''"
| "trigger_value TR_CAMPAIGN_WEIGHT_CHANGE = ''CAMPAIGN_WEIGHT_CHANGE''"

record composite_row =
  ch_candidate :: nat
  ch_det :: "rat option"
  ch_sem :: "rat option"
  ch_norm_sem :: "rat option"
  ch_ai :: "rat option"
  ch_w_det :: rat
  ch_w_sem :: rat
  ch_w_ai :: rat
  ch_score :: rat
  ch_version :: string
  ch_trigger :: composite_trigger

datatype composite_error =
    CE_No_Candidate | CE_No_Campaign | CE_Invalid_Weights rat | CE_Invalid_Range string rat

definition effective_ai_score :: "nat \<Rightarrow> hiring_db \<Rightarrow> rat option" where
  "effective_ai_score i h = Option.bind (find (\<lambda>a. ae_candidate a = i) (hd_ai h)) ae_effective"

section \<open>Validation\<close>

definition validate_weights :: "campaign_row \<Rightarrow> (composite_error, unit) result" where
  "validate_weights ca =
     (let total = ca_w_det ca + ca_w_sem ca + ca_w_ai ca
      in if total \<noteq> 100 then Inl (CE_Invalid_Weights total) else Inr ())"

definition check_range :: "string \<Rightarrow> rat option \<Rightarrow> rat \<Rightarrow> rat \<Rightarrow> (composite_error, unit) result" where
  "check_range field v lo hi =
     (case v of None \<Rightarrow> Inr () | Some x \<Rightarrow> if x < lo \<or> x > hi then Inl (CE_Invalid_Range field x) else Inr ())"

definition validate_score_ranges :: "campaign_candidate \<Rightarrow> rat option \<Rightarrow> (composite_error, unit) result" where
  "validate_score_ranges cc ai =
     res_bind (check_range ''deterministic_score'' (cc_det_score cc) 0 100) (\<lambda>_.
     res_bind (check_range ''semantic_score'' (cc_sem_score cc) 0 1) (\<lambda>_.
     check_range ''effective_ai_score'' ai 0 100))"

definition validate_inputs :: "nat \<Rightarrow> hiring_db \<Rightarrow> (composite_error, campaign_candidate \<times> campaign_row) result" where
  "validate_inputs i h =
     (case find_candidate i h of
        None \<Rightarrow> Inl CE_No_Candidate
      | Some cc \<Rightarrow>
          (case find_campaign (cc_campaign cc) h of
             None \<Rightarrow> Inl CE_No_Campaign
           | Some ca \<Rightarrow>
               res_bind (validate_weights ca) (\<lambda>_.
               res_bind (validate_score_ranges cc (effective_ai_score i h)) (\<lambda>_. Inr (cc, ca)))))"

section \<open>The formula\<close>

record normalized_scores =
  nm_det :: rat
  nm_sem :: rat
  nm_ai :: rat

definition or_else_zero :: "rat option \<Rightarrow> rat" where
  "or_else_zero x = (case x of None \<Rightarrow> 0 | Some v \<Rightarrow> v)"

definition normalize_scores :: "campaign_candidate \<Rightarrow> rat option \<Rightarrow> normalized_scores" where
  "normalize_scores cc ai =
     \<lparr>nm_det = or_else_zero (cc_det_score cc), nm_sem = or_else_zero (cc_sem_score cc) * 100, nm_ai = or_else_zero ai\<rparr>"

definition calculate_score :: "campaign_row \<Rightarrow> normalized_scores \<Rightarrow> rat" where
  "calculate_score ca n =
     ca_w_det ca / 100 * nm_det n + ca_w_sem ca / 100 * nm_sem n + ca_w_ai ca / 100 * nm_ai n"

section \<open>Calculation\<close>

definition composite_details :: "campaign_candidate \<Rightarrow> campaign_row \<Rightarrow> rat option \<Rightarrow> rat \<Rightarrow> composite_trigger \<Rightarrow> int \<Rightarrow> json_dict" where
  "composite_details cc ca ai score trigger now =
     [(''deterministic_score'', json_opt JNum (cc_det_score cc)),
      (''semantic_score'', json_opt JNum (cc_sem_score cc)),
      (''normalized_semantic_score'', json_opt (\<lambda>s. JNum (s * 100)) (cc_sem_score cc)),
      (''effective_ai_score'', json_opt JNum ai),
      (''weight_deterministic'', JNum (ca_w_det ca)), (''weight_semantic'', JNum (ca_w_sem ca)),
      (''weight_ai'', JNum (ca_w_ai ca)), (''composite_score'', JNum score),
      (''formula_version'', JStr ''v1''), (''trigger_source'', JStr (trigger_value trigger)),
      (''computed_at'', JTime now)]"

definition history_row :: "campaign_candidate \<Rightarrow> campaign_row \<Rightarrow> rat option \<Rightarrow> rat \<Rightarrow> composite_trigger \<Rightarrow> composite_row" where
  "history_row cc ca ai score trigger =
     \<lparr>ch_candidate = cc_id cc, ch_det = cc_det_score cc, ch_sem = cc_sem_score cc,
      ch_norm_sem = map_option (\<lambda>s. s * 100) (cc_sem_score cc), ch_ai = ai,
      ch_w_det = ca_w_det ca, ch_w_sem = ca_w_sem ca, ch_w_ai = ca_w_ai ca, ch_score = score,
      ch_version = ''v1'', ch_trigger = trigger\<rparr>"

definition persist_score :: "nat \<Rightarrow> rat \<Rightarrow> int \<Rightarrow> hiring_db \<Rightarrow> hiring_db" where
  "persist_score i score now h =
     update_candidate i (\<lambda>c. c\<lparr>cc_composite := Some score, cc_composite_at := Some now\<rparr>) h"

definition calculate_composite ::
    "int \<Rightarrow> nat \<Rightarrow> composite_trigger \<Rightarrow> hiring_db \<times> composite_row list
     \<Rightarrow> (composite_error, json_dict \<times> hiring_db \<times> composite_row list) result" where
  "calculate_composite now i trigger s =
     (let (h, rows) = s in
      res_bind (validate_inputs i h) (\<lambda>(cc, ca).
        let ai = effective_ai_score i h;
            score = round_composite_score (calculate_score ca (normalize_scores cc ai));
            details = composite_details cc ca ai score trigger now;
            h1 = persist_score i score now h;
            h2 = audit None (Some SYSTEM) ''COMPOSITE_SCORE_COMPUTED'' i details h1
        in Inr (details, h2, rows @ [history_row cc ca ai score trigger])))"

section \<open>Properties\<close>

lemma validate_inputs_ok:
  assumes "validate_inputs i h = Inr (cc, ca)"
  shows "find_candidate i h = Some cc" "find_campaign (cc_campaign cc) h = Some ca"
    "ca_w_det ca + ca_w_sem ca + ca_w_ai ca = 100"
    "0 \<le> or_else_zero (cc_det_score cc) \<and> or_else_zero (cc_det_score cc) \<le> 100"
    "0 \<le> or_else_zero (cc_sem_score cc) \<and> or_else_zero (cc_sem_score cc) \<le> 1"
    "0 \<le> or_else_zero (effective_ai_score i h) \<and> or_else_zero (effective_ai_score i h) \<le> 100"
  using assms
  by (auto simp: validate_inputs_def validate_weights_def validate_score_ranges_def check_range_def or_else_zero_def
      Let_def not_less split: option.splits if_splits)

lemma weighted_sum_range:
  fixes a b c x y z :: rat
  assumes "0 \<le> a" "0 \<le> b" "0 \<le> c" "a + b + c = 100" "0 \<le> x" "x \<le> 100" "0 \<le> y" "y \<le> 100" "0 \<le> z" "z \<le> 100"
  shows "0 \<le> a / 100 * x + b / 100 * y + c / 100 * z" "a / 100 * x + b / 100 * y + c / 100 * z \<le> 100"
proof -
  show "0 \<le> a / 100 * x + b / 100 * y + c / 100 * z" using assms by simp
  have "a / 100 * x \<le> a / 100 * 100" "b / 100 * y \<le> b / 100 * 100" "c / 100 * z \<le> c / 100 * 100"
    using assms by (intro mult_left_mono; simp)+
  then show "a / 100 * x + b / 100 * y + c / 100 * z \<le> 100" using assms(4) by simp
qed

lemma round_composite_range: "0 \<le> x \<Longrightarrow> x \<le> 100 \<Longrightarrow> 0 \<le> round_composite_score x \<and> round_composite_score x \<le> 100"
  using dec.places_lower[of 0 x 2] dec.places_upper[of x 100 2] by (simp add: round_composite_score_def)

text \<open>
  Property C15.  A successful calculation stores the weighted mean of the stored scores, a
  missing one counting as zero, rounded once; the score lies between 0 and 100 if none of the
  campaign's three weights is negative (the request that creates a campaign lets negative weights
  pass).  It writes that candidate's two composite columns, one history row with the inputs
  used, one audit row, and nothing else.
\<close>

theorem composite_score_sound:
  assumes run: "calculate_composite now i trigger (h, rows) = Inr (details, h', rows')"
  shows "\<exists>cc ca score. find_candidate i h = Some cc \<and> find_campaign (cc_campaign cc) h = Some ca
    \<and> score = round_composite_score (ca_w_det ca / 100 * or_else_zero (cc_det_score cc)
        + ca_w_sem ca / 100 * (or_else_zero (cc_sem_score cc) * 100)
        + ca_w_ai ca / 100 * or_else_zero (effective_ai_score i h))
    \<and> (0 \<le> ca_w_det ca \<and> 0 \<le> ca_w_sem ca \<and> 0 \<le> ca_w_ai ca \<longrightarrow> 0 \<le> score \<and> score \<le> 100)
    \<and> h' = audit None (Some SYSTEM) ''COMPOSITE_SCORE_COMPUTED'' i details
        (update_candidate i (\<lambda>c. c\<lparr>cc_composite := Some score, cc_composite_at := Some now\<rparr>) h)
    \<and> rows' = rows @ [history_row cc ca (effective_ai_score i h) score trigger]"
proof -
  from run obtain cc ca where v: "validate_inputs i h = Inr (cc, ca)"
    by (auto simp: calculate_composite_def res_bind_Inr_iff)
  note ok = validate_inputs_ok[OF v]
  let ?ai = "effective_ai_score i h"
  let ?x = "ca_w_det ca / 100 * or_else_zero (cc_det_score cc) + ca_w_sem ca / 100 * (or_else_zero (cc_sem_score cc) * 100)
      + ca_w_ai ca / 100 * or_else_zero ?ai"
  have range: "0 \<le> round_composite_score ?x \<and> round_composite_score ?x \<le> 100"
    if w: "0 \<le> ca_w_det ca" "0 \<le> ca_w_sem ca" "0 \<le> ca_w_ai ca"
  proof -
    have "0 \<le> ?x" "?x \<le> 100" using ok(4,5,6) by (intro weighted_sum_range[OF w ok(3)]; simp)+
    then show ?thesis by (rule round_composite_range)
  qed
  have "calculate_score ca (normalize_scores cc ?ai) = ?x" by (simp add: calculate_score_def normalize_scores_def)
  then show ?thesis using run range ok(1,2)
    by (auto simp: calculate_composite_def v Let_def persist_score_def)
qed

lemma composite_score_mono:
  assumes "0 \<le> ca_w_det ca" "0 \<le> ca_w_sem ca" "0 \<le> ca_w_ai ca"
    "nm_det m \<le> nm_det n" "nm_sem m \<le> nm_sem n" "nm_ai m \<le> nm_ai n"
  shows "round_composite_score (calculate_score ca m) \<le> round_composite_score (calculate_score ca n)"
  unfolding round_composite_score_def calculate_score_def
  by (rule dec.places_mono, intro add_mono mult_left_mono) (use assms in auto)

definition scored_candidate :: campaign_candidate where
  "scored_candidate = (blank_candidate 1 9 SCREENING (Some UPLOADED))\<lparr>cc_det_score := Some 80, cc_sem_score := Some (3 / 4)\<rparr>"

definition scored_db :: hiring_db where
  "scored_db = (example_db [scored_candidate])\<lparr>hd_campaigns := [open_campaign None]\<rparr>"

lemma composite_score_sound_witness:
  "\<exists>details h' rows'. calculate_composite 5 1 TR_REJECTION (scored_db, []) = Inr (details, h', rows')
     \<and> map cc_composite (hd_candidates h') = [Some 54] \<and> map ch_score rows' = [54] \<and> length (hd_audit h') = 1"
proof -
  have "map_sum id (\<lambda>(d, h, rs). map ch_score rs) (calculate_composite 5 1 TR_REJECTION (scored_db, [])) = Inr [54]" by code_simp
  then obtain details h' rows' where run: "calculate_composite 5 1 TR_REJECTION (scored_db, []) = Inr (details, h', rows')"
    and sc: "map ch_score rows' = [54]"
    by (cases "calculate_composite 5 1 TR_REJECTION (scored_db, [])") auto
  from composite_score_sound[OF run] obtain cc ca score where
    h': "h' = audit None (Some SYSTEM) ''COMPOSITE_SCORE_COMPUTED'' 1 details
        (update_candidate 1 (\<lambda>c. c\<lparr>cc_composite := Some score, cc_composite_at := Some 5\<rparr>) scored_db)"
    and rows: "rows' = [] @ [history_row cc ca (effective_ai_score 1 scored_db) score TR_REJECTION]" by blast
  have "score = 54" using sc by (simp add: rows history_row_def)
  then show ?thesis using run sc
    by (simp add: h' audit_def update_candidate_def scored_db_def example_db_def scored_candidate_def blank_candidate_def)
qed

end
