(* ===== verification/Campaign_Lifecycle.thy ===== *)
theory Campaign_Lifecycle
  imports Composite_Score
begin

text \<open>
  The life cycle of a campaign: \<open>CampaignService\<close> (\<open>app/services/campaign/campaign_service.py\<close>)
  creates, edits, pauses, resumes, closes and reopens it, \<open>CampaignSchedulerService\<close>
  (\<open>campaign_scheduler_service.py\<close>) closes it when its deadline has passed, over the
  queries and writes of \<open>CampaignRepository\<close>.  A handler returns a result and the state it
  leaves.  What the database holds is undone by a rollback; what was sent to the message
  broker is not, so the broker is a component of the state of its own.  Whether the broker
  accepts a message is a parameter.
\<close>

section \<open>Rows\<close>

record jd_row =
  jr_id :: nat
  jr_active :: bool
  jr_closed_at :: "int option"

text \<open>The rows behind the readiness counts: a skill of a job, an unresolved extraction.\<close>

record jd_skill_check =
  jk_jd :: nat
  jk_mandatory :: bool
  jk_pending :: bool

record jd_unknown_skill =
  ju_jd :: nat
  ju_pending :: bool

datatype prompt_status = PR_ACTIVE | PR_INACTIVE

record prompt_row =
  pr_id :: nat
  pr_status :: prompt_status
  pr_task :: string

record user_row =
  us_id :: string
  us_role :: role_name
  us_active :: bool

record weight_change =
  wc_campaign :: nat
  wc_old :: "rat \<times> rat \<times> rat"
  wc_new :: "rat \<times> rat \<times> rat"
  wc_by :: string
  wc_version :: string

datatype bulk_status =
  BU_PENDING | BU_EXTRACTING | BU_PROCESSING | BU_COMPLETED | BU_PARTIAL_FAILURE | BU_FAILED | BU_CANCELLED

record bulk_job =
  bj_id :: nat
  bj_campaign :: nat
  bj_status :: bulk_status

text \<open>A message handed to the broker: task name, keyword arguments and task id.\<close>

record message =
  ms_task :: string
  ms_args :: json_dict
  ms_id :: string

record campaign_world =
  cw_db :: hiring_db
  cw_jds :: "jd_row list"
  cw_jd_skills :: "jd_skill_check list"
  cw_jd_unknown :: "jd_unknown_skill list"
  cw_prompts :: "prompt_row list"
  cw_users :: "user_row list"
  cw_weight_log :: "weight_change list"
  cw_jobs :: "bulk_job list"
  cw_config :: "(string \<times> rat) list"
  cw_resume_tasks :: "(nat \<times> string) list"
  cw_broker :: "message list"

text \<open>
  \<open>apply_async\<close> either hands the message to the broker or raises (broker unreachable,
  arguments missing); \<open>ev_fresh\<close> makes the ids of \<open>uuid4\<close>.
\<close>

record campaign_env =
  ev_send :: "string \<Rightarrow> json_dict \<Rightarrow> bool"
  ev_fresh :: "nat \<Rightarrow> string"

datatype prompt_error = PE_Required | PE_Missing | PE_Inactive | PE_Wrong_Task

datatype readiness_issue =
  JD_NOT_FOUND | JD_NOT_ACTIVE_VERSION | JD_CLOSED | MANDATORY_SKILLS_UNVERIFIED nat | UNRESOLVED_SKILL_EXTRACTION nat

datatype campaign_error =
    KE_Not_Found | KE_Weights_Sum | KE_Weight_Range | KE_Min_Layer rat
  | KE_No_JD | KE_JD_Inactive | KE_JD_Closed | KE_Name_Taken | KE_Past_Deadline | KE_Prompt prompt_error
  | KE_Closed | KE_Transition campaign_status campaign_status | KE_Below_Selected int
  | KE_No_User | KE_Not_Manager | KE_Inactive_User | KE_Confirm | KE_No_Changes
  | KE_Not_Active | KE_Not_Paused | KE_Not_Open | KE_Not_Closed | KE_Not_Ready "readiness_issue list"
  | KE_Constraint | KE_Dispatch | KE_Missing_Config

section \<open>Requests\<close>

record create_request =
  cr_name :: string
  cr_jd :: nat
  cr_max :: "int option"
  cr_deadline :: "int option"
  cr_w_det :: rat
  cr_w_sem :: rat
  cr_w_ai :: rat
  cr_sem_threshold :: rat
  cr_ai_threshold :: rat
  cr_det_threshold :: rat
  cr_manager :: string
  cr_recruiter :: string
  cr_prompt :: "nat option"
  cr_ai_prompt :: "nat option"

text \<open>
  What the request model checks: the bounds declared on the fields, and the name
  without surrounding blanks.  The weights and the other two thresholds have no bounds.
\<close>

definition valid_name :: "string \<Rightarrow> string option" where
  "valid_name n = (if n = [] \<or> length n > 255 \<or> strip n = [] then None else Some (strip n))"

definition valid_max :: "int option \<Rightarrow> bool" where
  "valid_max m = (case m of None \<Rightarrow> True | Some k \<Rightarrow> 0 < k \<and> k \<le> 100000)"

definition parse_create :: "create_request \<Rightarrow> create_request option" where
  "parse_create rq =
     (case valid_name (cr_name rq) of
        None \<Rightarrow> None
      | Some n \<Rightarrow>
          if valid_max (cr_max rq) \<and> 0 \<le> cr_sem_threshold rq \<and> cr_sem_threshold rq \<le> 1
          then Some (rq\<lparr>cr_name := n\<rparr>) else None)"

record update_request =
  ur_name :: "string option"
  ur_status :: "campaign_status option"
  ur_deadline :: "int option"
  ur_clear_deadline :: bool
  ur_max :: "int option"
  ur_clear_max :: bool
  ur_manager :: "string option"
  ur_prompt :: "nat option"
  ur_ai_prompt :: "nat option"
  ur_w_det :: "rat option"
  ur_w_sem :: "rat option"
  ur_w_ai :: "rat option"
  ur_sem_threshold :: "rat option"
  ur_ai_threshold :: "rat option"
  ur_det_threshold :: "rat option"
  ur_confirm :: bool

definition places :: "nat \<Rightarrow> rat \<Rightarrow> bool" where
  "places n x \<longleftrightarrow> to_places half_up n x = x"

definition valid_percent :: "rat \<Rightarrow> bool" where
  "valid_percent x \<longleftrightarrow> 0 \<le> x \<and> x \<le> 100 \<and> places 2 x"

definition sent_valid :: "rat option \<Rightarrow> bool" where
  "sent_valid x = (case x of None \<Rightarrow> True | Some v \<Rightarrow> valid_percent v)"

definition parse_update :: "update_request \<Rightarrow> update_request option" where
  "parse_update rq =
     (if valid_max (ur_max rq) \<and> sent_valid (ur_w_det rq)
         \<and> sent_valid (ur_w_sem rq) \<and> sent_valid (ur_w_ai rq)
      then (case ur_name rq of
              None \<Rightarrow> Some rq
            | Some n \<Rightarrow> (case valid_name n of None \<Rightarrow> None | Some m \<Rightarrow> Some (rq\<lparr>ur_name := Some m\<rparr>)))
      else None)"

record scoring_request =
  sr_w_det :: rat
  sr_w_sem :: rat
  sr_w_ai :: rat
  sr_sem_threshold :: rat
  sr_ai_threshold :: rat
  sr_det_threshold :: rat

definition parse_scoring :: "scoring_request \<Rightarrow> scoring_request option" where
  "parse_scoring rq =
     (if valid_percent (sr_w_det rq) \<and> valid_percent (sr_w_sem rq) \<and> valid_percent (sr_w_ai rq)
         \<and> 0 \<le> sr_sem_threshold rq \<and> sr_sem_threshold rq \<le> 1 \<and> places 4 (sr_sem_threshold rq)
         \<and> valid_percent (sr_ai_threshold rq) \<and> valid_percent (sr_det_threshold rq)
      then Some rq else None)"

section \<open>Queries\<close>

definition campaign_named :: "nat option \<Rightarrow> string \<Rightarrow> hiring_db \<Rightarrow> campaign_row option" where
  "campaign_named org n h = find (\<lambda>c. ca_org c = org \<and> lower (ca_name c) = lower n) (hd_campaigns h)"

definition jd_by_id :: "nat \<Rightarrow> campaign_world \<Rightarrow> jd_row option" where
  "jd_by_id i w = find (\<lambda>j. jr_id j = i) (cw_jds w)"

definition members :: "nat \<Rightarrow> hiring_db \<Rightarrow> campaign_candidate list" where
  "members camp h = filter (\<lambda>c. cc_campaign c = camp) (hd_candidates h)"

definition of_campaign :: "nat \<Rightarrow> hiring_db \<Rightarrow> task_log \<Rightarrow> bool" where
  "of_campaign camp h t = (case tk_candidate t of None \<Rightarrow> False | Some i \<Rightarrow> i \<in> set (map cc_id (members camp h)))"

definition count_tasks :: "nat \<Rightarrow> task_status list \<Rightarrow> hiring_db \<Rightarrow> nat" where
  "count_tasks camp ss h = length (filter (\<lambda>t. of_campaign camp h t \<and> tk_status t \<in> set ss) (hd_tasks h))"

definition count_active_queue_tasks :: "nat \<Rightarrow> hiring_db \<Rightarrow> nat" where
  "count_active_queue_tasks camp h = count_tasks camp [TK_QUEUED, TK_RUNNING] h"

definition count_paused_tasks :: "nat \<Rightarrow> hiring_db \<Rightarrow> nat" where
  "count_paused_tasks camp h = count_tasks camp [TK_PAUSED] h"

definition count_processing_bulk_jobs :: "nat \<Rightarrow> campaign_world \<Rightarrow> nat" where
  "count_processing_bulk_jobs camp w =
     length (filter (\<lambda>j. bj_campaign j = camp \<and> bj_status j = BU_PROCESSING) (cw_jobs w))"

definition pending_resumes :: "nat \<Rightarrow> hiring_db \<Rightarrow> resume_row list" where
  "pending_resumes camp h =
     filter (\<lambda>r. re_id r \<in> set (map cc_resume (members camp h)) \<and> re_status r = PS_PENDING) (hd_resumes h)"

definition stage_count :: "nat \<Rightarrow> pipeline_stage \<Rightarrow> hiring_db \<Rightarrow> nat" where
  "stage_count camp s h = length (filter (\<lambda>c. cc_stage c = s) (members camp h))"

definition stage_counts :: "nat \<Rightarrow> hiring_db \<Rightarrow> (pipeline_stage \<times> nat) list" where
  "stage_counts camp h = filter (\<lambda>(s, n). n > 0) (map (\<lambda>s. (s, stage_count camp s h))
     [UPLOADED, SCREENING, SHORTLISTED, HOLD, HM_REVIEW, INTERVIEW, SELECTED, REJECTED, FRAUD_REVIEW])"

definition count_pending_human_decision :: "nat \<Rightarrow> hiring_db \<Rightarrow> nat" where
  "count_pending_human_decision camp h =
     length (filter (\<lambda>c. cc_stage c \<in> set [INTERVIEW, HM_REVIEW]) (members camp h))"

definition unverified_skills :: "nat \<Rightarrow> campaign_world \<Rightarrow> nat" where
  "unverified_skills jd w = length (filter (\<lambda>s. jk_jd s = jd \<and> jk_mandatory s \<and> jk_pending s) (cw_jd_skills w))"

definition unresolved_skills :: "nat \<Rightarrow> campaign_world \<Rightarrow> nat" where
  "unresolved_skills jd w = length (filter (\<lambda>s. ju_jd s = jd \<and> ju_pending s) (cw_jd_unknown w))"

definition setting :: "string \<Rightarrow> rat \<Rightarrow> campaign_world \<Rightarrow> rat" where
  "setting k d w = (case map_of (cw_config w) k of None \<Rightarrow> d | Some v \<Rightarrow> v)"

definition is_approaching_cap :: "int \<Rightarrow> int option \<Rightarrow> rat \<Rightarrow> bool" where
  "is_approaching_cap n cap pct =
     (case cap of None \<Rightarrow> False | Some m \<Rightarrow> if m = 0 then False else of_int n \<ge> of_int m * (pct / 100))"

definition is_deadline_soon :: "int \<Rightarrow> int option \<Rightarrow> int \<Rightarrow> bool" where
  "is_deadline_soon now dl days =
     (case dl of None \<Rightarrow> False | Some d \<Rightarrow> now \<le> d \<and> d \<le> now + days * 86400)"

definition warning_thresholds :: "campaign_world \<Rightarrow> rat \<times> int" where
  "warning_thresholds w = (setting ''CAP_WARNING_PERCENTAGE'' 80 w, \<lfloor>setting ''DEADLINE_WARNING_DAYS'' 3 w\<rfloor>)"

section \<open>Validation\<close>

definition validate_prompt :: "nat option \<Rightarrow> string \<Rightarrow> campaign_world \<Rightarrow> (campaign_error, nat) result" where
  "validate_prompt p task w =
     (case p of
        None \<Rightarrow> Inl (KE_Prompt PE_Required)
      | Some i \<Rightarrow>
          (case find (\<lambda>r. pr_id r = i) (cw_prompts w) of
             None \<Rightarrow> Inl (KE_Prompt PE_Missing)
           | Some r \<Rightarrow>
               if pr_status r \<noteq> PR_ACTIVE then Inl (KE_Prompt PE_Inactive)
               else if pr_task r \<noteq> task then Inl (KE_Prompt PE_Wrong_Task)
               else Inr (pr_id r)))"

definition validate_scoring_weights :: "rat \<Rightarrow> rat \<Rightarrow> rat \<Rightarrow> campaign_world \<Rightarrow> (campaign_error, unit) result" where
  "validate_scoring_weights d s a w =
     (let low = setting ''MIN_LAYER_WEIGHT'' 5 w in
      if list_ex (\<lambda>x. x < 0 \<or> x > 100) [d, s, a] then Inl KE_Weight_Range
      else if d + s + a \<noteq> 100 then Inl KE_Weights_Sum
      else if list_ex (\<lambda>x. x < low) [d, s, a] then Inl (KE_Min_Layer low)
      else Inr ())"

text \<open>
  Flushing a campaign: the columns are \<open>NUMERIC(5, 2)\<close> and \<open>NUMERIC(5, 4)\<close>, which the
  database rounds half away from zero, and \<open>chk_weights_sum_100\<close> is checked on what is
  stored.
\<close>

definition numeric :: "nat \<Rightarrow> rat \<Rightarrow> rat option" where
  "numeric s x = (let y = to_places half_up s x in if \<bar>y\<bar> < 10 ^ (5 - s) then Some y else None)"

definition stored_row :: "campaign_row \<Rightarrow> (campaign_error, campaign_row) result" where
  "stored_row c =
     (case (numeric 2 (ca_w_det c), numeric 2 (ca_w_sem c), numeric 2 (ca_w_ai c),
            numeric 4 (ca_sem_threshold c), numeric 2 (ca_ai_threshold c), numeric 2 (ca_det_threshold c)) of
        (Some d, Some s, Some a, Some st, Some ait, Some dt) \<Rightarrow>
          if d + s + a = 100
          then Inr (c\<lparr>ca_w_det := d, ca_w_sem := s, ca_w_ai := a, ca_sem_threshold := st,
                      ca_ai_threshold := ait, ca_det_threshold := dt\<rparr>)
          else Inl KE_Constraint
      | _ \<Rightarrow> Inl KE_Constraint)"

definition flush_campaign :: "campaign_row \<Rightarrow> hiring_db \<Rightarrow> (campaign_error, campaign_row \<times> hiring_db) result" where
  "flush_campaign c h = res_bind (stored_row c) (\<lambda>r. Inr (r, update_campaign_row (ca_id c) (\<lambda>_. r) h))"

definition insert_campaign :: "campaign_row \<Rightarrow> hiring_db \<Rightarrow> (campaign_error, hiring_db) result" where
  "insert_campaign c h =
     (if list_ex (\<lambda>r. ca_org r = ca_org c \<and> ca_org c \<noteq> None \<and> ca_name r = ca_name c) (hd_campaigns h)
      then Inl KE_Constraint
      else res_bind (stored_row c) (\<lambda>r. Inr (h\<lparr>hd_campaigns := hd_campaigns h @ [r]\<rparr>)))"

section \<open>Creating a campaign\<close>

definition new_campaign :: "nat \<Rightarrow> nat option \<Rightarrow> create_request \<Rightarrow> nat \<Rightarrow> nat \<Rightarrow> string \<Rightarrow> int \<Rightarrow> campaign_row" where
  "new_campaign i org rq p ap by now =
     \<lparr>ca_id = i, ca_org = org, ca_jd = cr_jd rq, ca_name = strip (cr_name rq), ca_status = CS_ACTIVE,
      ca_w_det = cr_w_det rq, ca_w_sem = cr_w_sem rq, ca_w_ai = cr_w_ai rq,
      ca_sem_threshold = cr_sem_threshold rq, ca_ai_threshold = cr_ai_threshold rq,
      ca_det_threshold = cr_det_threshold rq, ca_coverage = 0, ca_max_missing_core = 3,
      ca_max = cr_max rq, ca_deadline = cr_deadline rq, ca_prompt = p, ca_ai_prompt = Some ap,
      ca_manager = cr_manager rq, ca_recruiter = cr_recruiter rq, ca_created_by = by,
      ca_updated_at = Some now\<rparr>"

definition check_jd :: "nat \<Rightarrow> campaign_world \<Rightarrow> (campaign_error, unit) result" where
  "check_jd i w =
     (case jd_by_id i w of
        None \<Rightarrow> Inl KE_No_JD
      | Some j \<Rightarrow>
          if \<not> jr_active j then Inl KE_JD_Inactive
          else if jr_closed_at j \<noteq> None then Inl KE_JD_Closed
          else Inr ())"

definition check_deadline :: "int \<Rightarrow> int option \<Rightarrow> (campaign_error, unit) result" where
  "check_deadline now dl = (case dl of None \<Rightarrow> Inr () | Some d \<Rightarrow> if d \<le> now then Inl KE_Past_Deadline else Inr ())"

definition create_campaign ::
    "int \<Rightarrow> nat \<Rightarrow> nat option \<Rightarrow> string \<Rightarrow> create_request \<Rightarrow> campaign_world \<Rightarrow> (campaign_error, campaign_world) result" where
  "create_campaign now i org by rq w =
     (if cr_w_det rq + cr_w_sem rq + cr_w_ai rq \<noteq> 100 then Inl KE_Weights_Sum
      else
        res_bind (check_jd (cr_jd rq) w) (\<lambda>_.
        if campaign_named org (cr_name rq) (cw_db w) \<noteq> None then Inl KE_Name_Taken
        else
          res_bind (check_deadline now (cr_deadline rq)) (\<lambda>_.
          res_bind (validate_prompt (cr_prompt rq) ''RESUME_PARSE'' w) (\<lambda>p.
          res_bind (validate_prompt (cr_ai_prompt rq) ''AI_EVALUATE'' w) (\<lambda>ap.
          res_bind (insert_campaign (new_campaign i org rq p ap by now) (cw_db w)) (\<lambda>h.
          Inr (w\<lparr>cw_db := audit (Some by) (Some HR_ADMIN) ''CAMPAIGN_CREATED'' i
                  [(''jd_id'', JNum (of_nat (cr_jd rq))), (''previous_prompt_template_id'', JNull),
                   (''new_prompt_template_id'', JNum (of_nat p)), (''previous_ai_evaluate_prompt_id'', JNull),
                   (''new_ai_evaluate_prompt_id'', JNum (of_nat ap))] h\<rparr>)))))))"

section \<open>Editing\<close>

text \<open>
  An edit carries the loaded row, changed in place, and the dict of changes (field, before,
  after).
\<close>

type_synonym row_edit = "campaign_row \<times> (string \<times> json \<times> json) list"

fun status_value :: "campaign_status \<Rightarrow> string" where
  "status_value CS_ACTIVE = ''ACTIVE''"
| "status_value CS_PAUSED = ''PAUSED''"
| "status_value CS_CLOSED = ''CLOSED''"

definition edit_status :: "update_request \<Rightarrow> row_edit \<Rightarrow> (campaign_error, row_edit) result" where
  "edit_status rq e =
     (let (c, ch) = e in
      (case ur_status rq of
         None \<Rightarrow> Inr e
       | Some s \<Rightarrow>
           if s = ca_status c then Inr e
           else if (ca_status c = CS_ACTIVE \<and> s = CS_PAUSED) \<or> (ca_status c = CS_PAUSED \<and> s = CS_ACTIVE)
           then Inr (c\<lparr>ca_status := s\<rparr>,
                     ch @ [(''status'', JStr (status_value (ca_status c)), JStr (status_value s))])
           else Inl (KE_Transition (ca_status c) s)))"

definition edit_name :: "hiring_db \<Rightarrow> update_request \<Rightarrow> row_edit \<Rightarrow> (campaign_error, row_edit) result" where
  "edit_name h rq e =
     (let (c, ch) = e in
      (case ur_name rq of
         None \<Rightarrow> Inr e
       | Some n \<Rightarrow>
           if n = ca_name c then Inr e
           else if (case campaign_named (ca_org c) n h of None \<Rightarrow> False | Some d \<Rightarrow> ca_id d \<noteq> ca_id c)
           then Inl KE_Name_Taken
           else Inr (c\<lparr>ca_name := n\<rparr>, ch @ [(''name'', JStr (ca_name c), JStr n)])))"

definition json_int :: "int option \<Rightarrow> json" where
  "json_int = json_opt (\<lambda>k. JNum (of_int k))"

definition edit_openings :: "hiring_db \<Rightarrow> update_request \<Rightarrow> row_edit \<Rightarrow> (campaign_error, row_edit) result" where
  "edit_openings h rq e =
     (let (c, ch) = e in
      if ur_clear_max rq then
        (if ca_max c \<noteq> None
         then Inr (c\<lparr>ca_max := None\<rparr>, ch @ [(''max_candidates'', json_int (ca_max c), JNull)])
         else Inr e)
      else (case ur_max rq of
              None \<Rightarrow> Inr e
            | Some m \<Rightarrow>
                if ca_max c = Some m then Inr e
                else if m < selected_count (ca_id c) h then Inl (KE_Below_Selected (selected_count (ca_id c) h))
                else Inr (c\<lparr>ca_max := Some m\<rparr>, ch @ [(''max_candidates'', json_int (ca_max c), json_int (Some m))])))"

definition edit_deadline :: "int \<Rightarrow> update_request \<Rightarrow> row_edit \<Rightarrow> (campaign_error, row_edit) result" where
  "edit_deadline now rq e =
     (let (c, ch) = e in
      if ur_clear_deadline rq then
        (if ca_deadline c \<noteq> None
         then Inr (c\<lparr>ca_deadline := None\<rparr>, ch @ [(''deadline'', json_opt JTime (ca_deadline c), JNull)])
         else Inr e)
      else (case ur_deadline rq of
              None \<Rightarrow> Inr e
            | Some d \<Rightarrow>
                if ca_deadline c = Some d then Inr e
                else if d \<le> now then Inl KE_Past_Deadline
                else Inr (c\<lparr>ca_deadline := Some d\<rparr>, ch @ [(''deadline'', json_opt JTime (ca_deadline c), JTime d)])))"

definition edit_prompts :: "campaign_world \<Rightarrow> update_request \<Rightarrow> row_edit \<Rightarrow> (campaign_error, row_edit) result" where
  "edit_prompts w rq e =
     res_bind (let (c, ch) = e in
         if ur_prompt rq = None \<or> ur_prompt rq = Some (ca_prompt c) then Inr e
         else res_bind (validate_prompt (ur_prompt rq) ''RESUME_PARSE'' w) (\<lambda>p.
           Inr (c\<lparr>ca_prompt := p\<rparr>, ch @ [(''prompt_template_id'', JNum (of_nat (ca_prompt c)), JNum (of_nat p))])))
       (\<lambda>(c, ch).
         if ur_ai_prompt rq = None \<or> ur_ai_prompt rq = ca_ai_prompt c then Inr (c, ch)
         else res_bind (validate_prompt (ur_ai_prompt rq) ''AI_EVALUATE'' w) (\<lambda>p.
           Inr (c\<lparr>ca_ai_prompt := Some p\<rparr>,
                ch @ [(''ai_evaluate_prompt_id'', json_opt (\<lambda>i. JNum (of_nat i)) (ca_ai_prompt c), JNum (of_nat p))])))"

definition edit_manager :: "campaign_world \<Rightarrow> update_request \<Rightarrow> row_edit \<Rightarrow> (campaign_error, row_edit) result" where
  "edit_manager w rq e =
     (let (c, ch) = e in
      (case ur_manager rq of
         None \<Rightarrow> Inr e
       | Some m \<Rightarrow>
           if m = ca_manager c then Inr e
           else (case find (\<lambda>u. us_id u = m) (cw_users w) of
                   None \<Rightarrow> Inl KE_No_User
                 | Some u \<Rightarrow>
                     if us_role u \<noteq> HIRING_MANAGER then Inl KE_Not_Manager
                     else if \<not> us_active u then Inl KE_Inactive_User
                     else Inr (c\<lparr>ca_manager := m\<rparr>, ch @ [(''hiring_manager_id'', JStr (ca_manager c), JStr m)]))))"

text \<open>A scoring field changes when it is sent with another value than the stored one.\<close>

definition changed :: "string \<Rightarrow> rat \<Rightarrow> rat option \<Rightarrow> (string \<times> json \<times> json) list" where
  "changed field old new = (case new of None \<Rightarrow> [] | Some v \<Rightarrow> if v = old then [] else [(field, JNum old, JNum v)])"

definition weight_changes :: "campaign_row \<Rightarrow> update_request \<Rightarrow> (string \<times> json \<times> json) list" where
  "weight_changes c rq =
     changed ''weight_deterministic'' (ca_w_det c) (ur_w_det rq)
     @ changed ''weight_semantic'' (ca_w_sem c) (ur_w_sem rq)
     @ changed ''weight_ai'' (ca_w_ai c) (ur_w_ai rq)"

definition scoring_changes :: "campaign_row \<Rightarrow> update_request \<Rightarrow> (string \<times> json \<times> json) list" where
  "scoring_changes c rq =
     weight_changes c rq
     @ changed ''semantic_threshold'' (ca_sem_threshold c) (ur_sem_threshold rq)
     @ changed ''ai_threshold'' (ca_ai_threshold c) (ur_ai_threshold rq)
     @ changed ''deterministic_threshold'' (ca_det_threshold c) (ur_det_threshold rq)"

definition pick :: "rat \<Rightarrow> rat option \<Rightarrow> rat" where
  "pick old new = (case new of None \<Rightarrow> old | Some v \<Rightarrow> v)"

definition merge_scoring :: "campaign_row \<Rightarrow> update_request \<Rightarrow> campaign_row" where
  "merge_scoring c rq =
     c\<lparr>ca_w_det := pick (ca_w_det c) (ur_w_det rq), ca_w_sem := pick (ca_w_sem c) (ur_w_sem rq),
       ca_w_ai := pick (ca_w_ai c) (ur_w_ai rq), ca_sem_threshold := pick (ca_sem_threshold c) (ur_sem_threshold rq),
       ca_ai_threshold := pick (ca_ai_threshold c) (ur_ai_threshold rq),
       ca_det_threshold := pick (ca_det_threshold c) (ur_det_threshold rq)\<rparr>"

definition edit_scoring :: "campaign_world \<Rightarrow> update_request \<Rightarrow> row_edit \<Rightarrow> (campaign_error, row_edit) result" where
  "edit_scoring w rq e =
     (let (c, ch) = e; sc = scoring_changes c rq; m = merge_scoring c rq in
      if sc = [] then Inr e
      else if ca_status c = CS_ACTIVE \<and> \<not> ur_confirm rq then Inl KE_Confirm
      else res_bind (validate_scoring_weights (ca_w_det m) (ca_w_sem m) (ca_w_ai m) w) (\<lambda>_. Inr (m, ch @ sc)))"

definition edit_row :: "int \<Rightarrow> campaign_world \<Rightarrow> update_request \<Rightarrow> campaign_row \<Rightarrow> (campaign_error, row_edit) result" where
  "edit_row now w rq c =
     res_bind (edit_status rq (c, [])) (\<lambda>e.
     res_bind (edit_name (cw_db w) rq e) (\<lambda>e.
     res_bind (edit_openings (cw_db w) rq e) (\<lambda>e.
     res_bind (edit_deadline now rq e) (\<lambda>e.
     res_bind (edit_prompts w rq e) (\<lambda>e.
     res_bind (edit_manager w rq e) (\<lambda>e.
     res_bind (edit_scoring w rq e) (\<lambda>(m, ch).
     if ch = [] then Inl KE_No_Changes else Inr (m\<lparr>ca_updated_at := Some now\<rparr>, ch))))))))"

section \<open>Queued tasks\<close>

definition suspend_queued_tasks :: "nat \<Rightarrow> hiring_db \<Rightarrow> nat \<times> hiring_db" where
  "suspend_queued_tasks camp h =
     (count_tasks camp [TK_QUEUED] h,
      h\<lparr>hd_tasks := map (\<lambda>t. if of_campaign camp h t \<and> tk_status t = TK_QUEUED then t\<lparr>tk_status := TK_PAUSED\<rparr> else t)
          (hd_tasks h)\<rparr>)"

definition kill_queued_tasks :: "nat \<Rightarrow> hiring_db \<Rightarrow> nat \<times> hiring_db" where
  "kill_queued_tasks camp h =
     (count_tasks camp [TK_QUEUED] h,
      h\<lparr>hd_tasks := map (\<lambda>t. if of_campaign camp h t \<and> tk_status t = TK_QUEUED then t\<lparr>tk_status := TK_DEAD\<rparr> else t)
          (hd_tasks h)\<rparr>)"

definition cancel_pending_bulk_jobs :: "nat \<Rightarrow> campaign_world \<Rightarrow> nat \<times> campaign_world" where
  "cancel_pending_bulk_jobs camp w =
     (let hit = (\<lambda>j. bj_campaign j = camp \<and> bj_status j \<in> set [BU_PENDING, BU_EXTRACTING])
      in (length (filter hit (cw_jobs w)),
          w\<lparr>cw_jobs := map (\<lambda>j. if hit j then j\<lparr>bj_status := BU_FAILED\<rparr> else j) (cw_jobs w)\<rparr>))"

definition apply_async ::
    "campaign_env \<Rightarrow> string \<Rightarrow> json_dict \<Rightarrow> string \<Rightarrow> campaign_world \<Rightarrow> (campaign_error, unit) result \<times> campaign_world" where
  "apply_async ev name args i w =
     (if ev_send ev name args
      then (Inr (), w\<lparr>cw_broker := cw_broker w @ [\<lparr>ms_task = name, ms_args = args, ms_id = i\<rparr>]\<rparr>)
      else (Inl KE_Dispatch, w))"

definition set_task_status :: "string \<Rightarrow> task_status \<Rightarrow> hiring_db \<Rightarrow> hiring_db" where
  "set_task_status i s h = h\<lparr>hd_tasks := map (\<lambda>t. if tk_id t = i then t\<lparr>tk_status := s\<rparr> else t) (hd_tasks h)\<rparr>"

fun resubmit :: "campaign_env \<Rightarrow> task_log list \<Rightarrow> campaign_world \<Rightarrow> (campaign_error, nat) result \<times> campaign_world" where
  "resubmit ev [] w = (Inr 0, w)"
| "resubmit ev (t # ts) w =
     (if tk_type t \<noteq> ''DETERMINISTIC_SCORE'' then resubmit ev ts w
      else (case apply_async ev ''scoring.calculate_deterministic_score''
                   [(''campaign_candidate_id'', json_opt (\<lambda>i. JNum (of_nat i)) (tk_candidate t))] (tk_id t) w of
              (Inl e, w1) \<Rightarrow> (Inl e, w1)
            | (Inr _, w1) \<Rightarrow>
                (case resubmit ev ts (w1\<lparr>cw_db := set_task_status (tk_id t) TK_QUEUED (cw_db w1)\<rparr>) of
                   (Inl e, w2) \<Rightarrow> (Inl e, w2)
                 | (Inr n, w2) \<Rightarrow> (Inr (Suc n), w2))))"

definition resubmit_paused_tasks :: "campaign_env \<Rightarrow> nat \<Rightarrow> campaign_world \<Rightarrow> (campaign_error, nat) result \<times> campaign_world" where
  "resubmit_paused_tasks ev camp w =
     resubmit ev (filter (\<lambda>t. of_campaign camp (cw_db w) t \<and> tk_status t = TK_PAUSED) (hd_tasks (cw_db w))) w"

text \<open>The id of the new task is stored with the resume before the message is sent.\<close>

fun enqueue_parses :: "campaign_env \<Rightarrow> resume_row list \<Rightarrow> campaign_world \<Rightarrow> (campaign_error, nat) result \<times> campaign_world" where
  "enqueue_parses ev [] w = (Inr 0, w)"
| "enqueue_parses ev (r # rs) w =
     (let n = hd_next_id (cw_db w); i = ev_fresh ev n;
          w0 = w\<lparr>cw_resume_tasks := cw_resume_tasks w @ [(re_id r, i)], cw_db := (cw_db w)\<lparr>hd_next_id := Suc n\<rparr>\<rparr>
      in (case apply_async ev ''resume.process_document'' [(''resume_id'', JNum (of_nat (re_id r)))] i w0 of
            (Inl e, w1) \<Rightarrow> (Inl e, w1)
          | (Inr _, w1) \<Rightarrow>
              (case enqueue_parses ev rs w1 of
                 (Inl e, w2) \<Rightarrow> (Inl e, w2)
               | (Inr n, w2) \<Rightarrow> (Inr (Suc n), w2))))"

definition enqueue_pending_resume_parses ::
    "campaign_env \<Rightarrow> nat \<Rightarrow> campaign_world \<Rightarrow> (campaign_error, nat) result \<times> campaign_world" where
  "enqueue_pending_resume_parses ev camp w = enqueue_parses ev (pending_resumes camp (cw_db w)) w"

text \<open>
  The log row is committed before the message is sent, and a failure to send it is only
  logged.
\<close>

definition enqueue_composite :: "campaign_env \<Rightarrow> composite_trigger \<Rightarrow> nat \<Rightarrow> campaign_world \<Rightarrow> campaign_world" where
  "enqueue_composite ev trigger i w =
     (let h = cw_db w in
      if list_ex (\<lambda>t. tk_candidate t = Some i \<and> tk_type t = ''COMPOSITE_SCORE'' \<and> tk_status t \<in> set [TK_QUEUED, TK_RUNNING])
           (hd_tasks h) then w
      else
        let n = hd_next_id h; tid = ev_fresh ev n;
            w1 = w\<lparr>cw_db := h\<lparr>hd_tasks := hd_tasks h @ [queued_log tid ''COMPOSITE_SCORE'' (Some i)], hd_next_id := Suc n\<rparr>\<rparr>
        in snd (apply_async ev ''scoring.calculate_composite_score''
             [(''campaign_candidate_id'', JNum (of_nat i)), (''trigger_source'', JStr (trigger_value trigger))] tid w1))"

definition enqueue_composite_recalculation :: "campaign_env \<Rightarrow> nat \<Rightarrow> campaign_world \<Rightarrow> campaign_world" where
  "enqueue_composite_recalculation ev camp w =
     fold (enqueue_composite ev TR_CAMPAIGN_WEIGHT_CHANGE) (map cc_id (members camp (cw_db w))) w"

section \<open>The PATCH of a campaign\<close>

definition weights :: "campaign_row \<Rightarrow> rat \<times> rat \<times> rat" where
  "weights c = (ca_w_det c, ca_w_sem c, ca_w_ai c)"

fun weights_json :: "rat \<times> rat \<times> rat \<Rightarrow> json" where
  "weights_json (d, s, a) =
     JObj [(''weight_deterministic'', JNum d), (''weight_semantic'', JNum s), (''weight_ai'', JNum a)]"

definition record_weight_change :: "campaign_row \<Rightarrow> rat \<times> rat \<times> rat \<Rightarrow> string \<Rightarrow> campaign_world \<Rightarrow> campaign_world" where
  "record_weight_change c old by w =
     w\<lparr>cw_weight_log := cw_weight_log w @
          [\<lparr>wc_campaign = ca_id c, wc_old = old, wc_new = weights c, wc_by = by, wc_version = ''v1''\<rparr>],
       cw_db := audit (Some by) (Some HR_ADMIN) ''CAMPAIGN_WEIGHT_CONFIGURATION_CHANGED'' (ca_id c)
          [(''old_weights'', weights_json old), (''new_weights'', weights_json (weights c)),
           (''changed_by'', JStr by), (''formula_version'', JStr ''v1'')] (cw_db w)\<rparr>"

definition changes_json :: "(string \<times> json \<times> json) list \<Rightarrow> json" where
  "changes_json ch = JObj (map (\<lambda>(f, b, a). (f, JObj [(''before'', b), (''after'', a)])) ch)"

definition json_nat :: "nat \<Rightarrow> json" where
  "json_nat n = JNum (of_nat n)"

text \<open>What pausing and resuming do beside the flush, with the action and the details they report.\<close>

definition pause_effects :: "nat \<Rightarrow> campaign_world \<Rightarrow> (string \<times> json_dict) \<times> campaign_world" where
  "pause_effects camp w =
     (let (n, h) = suspend_queued_tasks camp (cw_db w)
      in ((''CAMPAIGN_PAUSED'', [(''tasks_suspended'', json_nat n),
            (''in_flight_bulk_jobs'', json_nat (count_processing_bulk_jobs camp w))]), w\<lparr>cw_db := h\<rparr>))"

definition resume_effects ::
    "campaign_env \<Rightarrow> nat \<Rightarrow> campaign_world \<Rightarrow> (campaign_error, string \<times> json_dict) result \<times> campaign_world" where
  "resume_effects ev camp w =
     (case resubmit_paused_tasks ev camp w of
        (Inl e, w1) \<Rightarrow> (Inl e, w1)
      | (Inr n, w1) \<Rightarrow>
          (case enqueue_pending_resume_parses ev camp w1 of
             (Inl e, w2) \<Rightarrow> (Inl e, w2)
           | (Inr m, w2) \<Rightarrow>
               (Inr (''CAMPAIGN_RESUMED'', [(''tasks_requeued'', json_nat n), (''resumes_enqueued'', json_nat m)]), w2)))"

definition status_effects ::
    "campaign_env \<Rightarrow> campaign_row \<Rightarrow> campaign_row \<Rightarrow> bool \<Rightarrow> campaign_world
     \<Rightarrow> (campaign_error, string \<times> json_dict) result \<times> campaign_world" where
  "status_effects ev old new scoring w =
     (if ca_status old = CS_ACTIVE \<and> ca_status new = CS_PAUSED then
        (let (r, w1) = pause_effects (ca_id new) w in (Inr r, w1))
      else if ca_status old = CS_PAUSED \<and> ca_status new = CS_ACTIVE then resume_effects ev (ca_id new) w
      else (Inr (if scoring then ''CAMPAIGN_SCORING_CONFIG_CHANGED'' else ''CAMPAIGN_UPDATED'', []), w))"

definition audit_manager_change :: "campaign_row \<Rightarrow> campaign_row \<Rightarrow> string \<Rightarrow> campaign_world \<Rightarrow> campaign_world" where
  "audit_manager_change old new by w =
     (if ca_manager old = ca_manager new then w
      else w\<lparr>cw_db := audit (Some by) (Some HR_ADMIN) ''HIRING_MANAGER_REASSIGNED'' (ca_id new)
             [(''previous_hiring_manager_id'', JStr (ca_manager old)),
              (''new_hiring_manager_id'', JStr (ca_manager new)),
              (''hm_review_pending_count'', json_nat (stage_count (ca_id new) HM_REVIEW (cw_db w)))] (cw_db w)\<rparr>)"

text \<open>
  After a rollback the tables are as before the request; what the broker took stays.
\<close>

definition rolled_back :: "campaign_world \<Rightarrow> campaign_world \<Rightarrow> campaign_world" where
  "rolled_back w w' = w\<lparr>cw_broker := cw_broker w'\<rparr>"

definition update_campaign ::
    "campaign_env \<Rightarrow> int \<Rightarrow> nat \<Rightarrow> update_request \<Rightarrow> string \<Rightarrow> campaign_world
     \<Rightarrow> (campaign_error, unit) result \<times> campaign_world" where
  "update_campaign ev now i rq by w =
     (case find_campaign i (cw_db w) of
        None \<Rightarrow> (Inl KE_Not_Found, w)
      | Some c \<Rightarrow>
          if ca_status c = CS_CLOSED then
            (Inl KE_Closed, w\<lparr>cw_db := audit (Some by) (Some HR_ADMIN) ''CAMPAIGN_EDIT_BLOCKED'' i [] (cw_db w)\<rparr>)
          else
            (case edit_row now w rq c of
               Inl e \<Rightarrow> (Inl e, w)
             | Inr (edited, ch) \<Rightarrow>
                 (case flush_campaign edited (cw_db w) of
                    Inl e \<Rightarrow> (Inl e, w)
                  | Inr (m, h) \<Rightarrow>
                      (case status_effects ev c m (scoring_changes c rq \<noteq> []) (w\<lparr>cw_db := h\<rparr>) of
                         (Inl e, w1) \<Rightarrow> (Inl e, rolled_back w w1)
                       | (Inr (action, details), w1) \<Rightarrow>
                           let w2 = w1\<lparr>cw_db := audit (Some by) (Some HR_ADMIN) action i
                                        ((''changes'', changes_json ch) # details) (cw_db w1)\<rparr>;
                               w3 = audit_manager_change c m by w2
                           in (Inr (),
                               if weight_changes c rq = [] then w3
                               else enqueue_composite_recalculation ev i (record_weight_change m (weights c) by w3))))))"

section \<open>The scoring configuration\<close>

definition scoring_update :: "scoring_request \<Rightarrow> update_request" where
  "scoring_update rq =
     \<lparr>ur_name = None, ur_status = None, ur_deadline = None, ur_clear_deadline = False, ur_max = None,
      ur_clear_max = False, ur_manager = None, ur_prompt = None, ur_ai_prompt = None,
      ur_w_det = Some (sr_w_det rq), ur_w_sem = Some (sr_w_sem rq), ur_w_ai = Some (sr_w_ai rq),
      ur_sem_threshold = Some (sr_sem_threshold rq), ur_ai_threshold = Some (sr_ai_threshold rq),
      ur_det_threshold = Some (sr_det_threshold rq), ur_confirm = False\<rparr>"

definition update_scoring_configuration ::
    "campaign_env \<Rightarrow> int \<Rightarrow> nat \<Rightarrow> scoring_request \<Rightarrow> string \<Rightarrow> campaign_world
     \<Rightarrow> (campaign_error, campaign_world) result" where
  "update_scoring_configuration ev now i rq by w =
     (case find_campaign i (cw_db w) of
        None \<Rightarrow> Inl KE_Not_Found
      | Some c \<Rightarrow>
          res_bind (validate_scoring_weights (sr_w_det rq) (sr_w_sem rq) (sr_w_ai rq) w) (\<lambda>_.
          let u = scoring_update rq in
          res_bind (flush_campaign ((merge_scoring c u)\<lparr>ca_updated_at := Some now\<rparr>) (cw_db w)) (\<lambda>(m, h).
          let w1 = w\<lparr>cw_db := (if scoring_changes c u = [] then h
                else audit (Some by) (Some HR_ADMIN) ''CAMPAIGN_SCORING_CONFIG_CHANGED'' i
                  [(''changes'', changes_json (scoring_changes c u)),
                   (''candidates_already_processed'', json_nat (length (members i h)))] h)\<rparr>
          in Inr (if weight_changes c u = [] then w1
                  else enqueue_composite_recalculation ev i (record_weight_change m (weights c) by w1)))))"

definition default_scoring :: "campaign_row \<Rightarrow> campaign_world \<Rightarrow> scoring_request" where
  "default_scoring c w =
     \<lparr>sr_w_det = setting ''CAMPAIGN_WEIGHT_DETERMINISTIC'' 30 w, sr_w_sem = setting ''CAMPAIGN_WEIGHT_SEMANTIC'' 40 w,
      sr_w_ai = setting ''CAMPAIGN_WEIGHT_AI'' 30 w, sr_sem_threshold = setting ''SEMANTIC_PASS_THRESHOLD'' (65 / 100) w,
      sr_ai_threshold = setting ''AI_PASS_THRESHOLD'' 50 w, sr_det_threshold = ca_det_threshold c\<rparr>"

text \<open>The request object validates its bounds when it is built; its error is none of the service's.\<close>

definition reset_scoring_to_defaults ::
    "campaign_env \<Rightarrow> int \<Rightarrow> nat \<Rightarrow> string \<Rightarrow> campaign_world \<Rightarrow> (campaign_error, campaign_world) result" where
  "reset_scoring_to_defaults ev now i by w =
     (case find_campaign i (cw_db w) of
        None \<Rightarrow> Inl KE_Not_Found
      | Some c \<Rightarrow>
          (case parse_scoring (default_scoring c w) of
             None \<Rightarrow> Inl KE_Constraint
           | Some rq \<Rightarrow> update_scoring_configuration ev now i rq by w))"

text \<open>
  Only settings that exist are updated; the response reads all five of them back, after the
  commit.
\<close>

definition update_configs :: "(string \<times> rat) list \<Rightarrow> (string \<times> rat) list \<Rightarrow> (string \<times> rat) list" where
  "update_configs us cfg = map (\<lambda>(k, v). (k, case map_of us k of None \<Rightarrow> v | Some u \<Rightarrow> u)) cfg"

definition default_updates :: "scoring_request \<Rightarrow> (string \<times> rat) list" where
  "default_updates rq =
     [(''CAMPAIGN_WEIGHT_DETERMINISTIC'', sr_w_det rq), (''CAMPAIGN_WEIGHT_SEMANTIC'', sr_w_sem rq),
      (''CAMPAIGN_WEIGHT_AI'', sr_w_ai rq), (''SEMANTIC_PASS_THRESHOLD'', sr_sem_threshold rq),
      (''AI_PASS_THRESHOLD'', sr_ai_threshold rq)]"

definition update_platform_default_weights ::
    "scoring_request \<Rightarrow> string \<Rightarrow> campaign_world \<Rightarrow> (campaign_error, unit) result \<times> campaign_world" where
  "update_platform_default_weights rq by w =
     (case validate_scoring_weights (sr_w_det rq) (sr_w_sem rq) (sr_w_ai rq) w of
        Inl e \<Rightarrow> (Inl e, w)
      | Inr _ \<Rightarrow>
          let us = default_updates rq;
              shown = (\<lambda>cfg. JObj (map (\<lambda>(k, v). (k, JNum v)) (filter (\<lambda>(k, v). k \<in> set (map fst us)) cfg)));
              w1 = w\<lparr>cw_config := update_configs us (cw_config w)\<rparr>;
              w2 = w1\<lparr>cw_db := audit (Some by) (Some HR_ADMIN) ''PLATFORM_CONFIG_UPDATED'' 0
                [(''before'', shown (cw_config w)), (''after'', shown (cw_config w1))] (cw_db w1)\<rparr>
          in (if list_all (\<lambda>(k, v). map_of (cw_config w) k \<noteq> None) us then Inr () else Inl KE_Missing_Config, w2))"

section \<open>Summaries for the confirmation dialogs\<close>

definition get_pause_impact_summary :: "nat \<Rightarrow> campaign_world \<Rightarrow> (campaign_error, nat \<times> nat \<times> nat) result" where
  "get_pause_impact_summary i w =
     (case find_campaign i (cw_db w) of
        None \<Rightarrow> Inl KE_Not_Found
      | Some c \<Rightarrow>
          if ca_status c \<noteq> CS_ACTIVE then Inl KE_Not_Active
          else Inr (length (members i (cw_db w)), count_active_queue_tasks i (cw_db w), count_processing_bulk_jobs i w))"

definition get_resume_summary :: "nat \<Rightarrow> campaign_world \<Rightarrow> (campaign_error, nat \<times> nat \<times> nat option) result" where
  "get_resume_summary i w =
     (case find_campaign i (cw_db w) of
        None \<Rightarrow> Inl KE_Not_Found
      | Some c \<Rightarrow>
          if ca_status c \<noteq> CS_PAUSED then Inl KE_Not_Paused
          else let p = count_paused_tasks i (cw_db w); r = length (pending_resumes i (cw_db w))
               in Inr (p, r, if p + r = 0 then None else Some ((p + r) * 45)))"

definition get_closure_impact_summary ::
    "nat \<Rightarrow> campaign_world \<Rightarrow> (campaign_error, nat \<times> (pipeline_stage \<times> nat) list \<times> nat \<times> nat \<times> nat) result" where
  "get_closure_impact_summary i w =
     (case find_campaign i (cw_db w) of
        None \<Rightarrow> Inl KE_Not_Found
      | Some c \<Rightarrow>
          if ca_status c \<notin> set [CS_ACTIVE, CS_PAUSED] then Inl KE_Not_Open
          else Inr (length (members i (cw_db w)), stage_counts i (cw_db w), count_active_queue_tasks i (cw_db w),
                    count_pending_human_decision i (cw_db w), count_processing_bulk_jobs i w))"

section \<open>Closing\<close>

datatype closure_reason = CR_POSITION_FILLED | CR_BUDGET_FREEZE | CR_ROLE_CANCELLED | CR_INTAKE_COMPLETE | CR_OTHER

fun closure_value :: "closure_reason \<Rightarrow> string" where
  "closure_value CR_POSITION_FILLED = ''POSITION_FILLED''"
| "closure_value CR_BUDGET_FREEZE = ''BUDGET_FREEZE''"
| "closure_value CR_ROLE_CANCELLED = ''ROLE_CANCELLED''"
| "closure_value CR_INTAKE_COMPLETE = ''INTAKE_COMPLETE''"
| "closure_value CR_OTHER = ''OTHER''"

definition close_row :: "int \<Rightarrow> nat \<Rightarrow> hiring_db \<Rightarrow> hiring_db" where
  "close_row now i h = update_campaign_row i (\<lambda>c. c\<lparr>ca_status := CS_CLOSED, ca_updated_at := Some now\<rparr>) h"

definition close_campaign ::
    "int \<Rightarrow> nat \<Rightarrow> closure_reason \<Rightarrow> string \<Rightarrow> campaign_world
     \<Rightarrow> (campaign_error, ((pipeline_stage \<times> nat) list \<times> nat \<times> nat) \<times> campaign_world) result" where
  "close_campaign now i reason by w =
     (case find_campaign i (cw_db w) of
        None \<Rightarrow> Inl KE_Not_Found
      | Some c \<Rightarrow>
          if ca_status c \<notin> set [CS_ACTIVE, CS_PAUSED] then Inl KE_Not_Open
          else
            let (tasks, h1) = kill_queued_tasks i (cw_db w);
                (jobs, w2) = cancel_pending_bulk_jobs i (w\<lparr>cw_db := h1\<rparr>);
                h3 = close_row now i (cw_db w2);
                counts = stage_counts i h3;
                h4 = audit (Some by) (Some HR_ADMIN) ''CAMPAIGN_CLOSED'' i
                       [(''closure_reason'', JStr (closure_value reason)),
                        (''final_pipeline_state'', JObj (map (\<lambda>(s, n). (stage_value s, json_nat n)) counts)),
                        (''tasks_cancelled'', json_nat tasks), (''bulk_uploads_cancelled'', json_nat jobs)] h3
            in Inr ((counts, tasks, jobs), w2\<lparr>cw_db := h4\<rparr>))"

section \<open>Reopening\<close>

definition readiness_issues :: "campaign_row \<Rightarrow> campaign_world \<Rightarrow> readiness_issue list" where
  "readiness_issues c w =
     (case jd_by_id (ca_jd c) w of
        None \<Rightarrow> [JD_NOT_FOUND]
      | Some j \<Rightarrow>
          (if jr_active j then [] else [JD_NOT_ACTIVE_VERSION])
          @ (if jr_closed_at j = None then [] else [JD_CLOSED])
          @ (if unverified_skills (jr_id j) w > 0 then [MANDATORY_SKILLS_UNVERIFIED (unverified_skills (jr_id j) w)] else [])
          @ (if unresolved_skills (jr_id j) w > 0 then [UNRESOLVED_SKILL_EXTRACTION (unresolved_skills (jr_id j) w)] else []))"

text \<open>The warning that all openings are filled.\<close>

definition reopen_cap_warning :: "campaign_row \<Rightarrow> hiring_db \<Rightarrow> bool" where
  "reopen_cap_warning c h = (case ca_max c of None \<Rightarrow> False | Some m \<Rightarrow> \<not> selected_count (ca_id c) h < m)"

definition get_reopen_readiness ::
    "nat \<Rightarrow> campaign_world \<Rightarrow> (campaign_error, readiness_issue list \<times> bool) result" where
  "get_reopen_readiness i w =
     (case find_campaign i (cw_db w) of
        None \<Rightarrow> Inl KE_Not_Found
      | Some c \<Rightarrow>
          if ca_status c \<noteq> CS_CLOSED then Inl KE_Not_Closed
          else Inr (readiness_issues c w, reopen_cap_warning c (cw_db w)))"

definition latest_entry :: "nat \<Rightarrow> string \<Rightarrow> hiring_db \<Rightarrow> audit_row option" where
  "latest_entry i action h = find (\<lambda>a. au_entity a = i \<and> au_action a = action) (rev (hd_audit h))"

definition reopen_row :: "int \<Rightarrow> campaign_row \<Rightarrow> campaign_row" where
  "reopen_row now c =
     c\<lparr>ca_deadline := (case ca_deadline c of None \<Rightarrow> None | Some d \<Rightarrow> if d \<le> now then None else Some d),
       ca_status := CS_ACTIVE, ca_updated_at := Some now\<rparr>"

definition reopen_campaign ::
    "int \<Rightarrow> nat \<Rightarrow> string \<Rightarrow> campaign_world \<Rightarrow> (campaign_error, bool \<times> campaign_world) result" where
  "reopen_campaign now i by w =
     res_bind (get_reopen_readiness i w) (\<lambda>(issues, cap).
       if issues \<noteq> [] then Inl (KE_Not_Ready issues)
       else
         (case find_campaign i (cw_db w) of
            None \<Rightarrow> Inl KE_Not_Found
          | Some c \<Rightarrow>
              res_bind (flush_campaign (reopen_row now c) (cw_db w)) (\<lambda>(m, h).
              let h1 = audit (Some by) (Some HR_ADMIN) ''CAMPAIGN_REOPENED'' i
                    [(''original_closure_reason'',
                      (case latest_entry i ''CAMPAIGN_CLOSED'' h of None \<Rightarrow> JNull | Some a \<Rightarrow> json_get (au_details a) ''closure_reason'')),
                     (''deadline_cleared'', JBool (ca_deadline c \<noteq> ca_deadline m)),
                     (''reopened_at_candidate_cap'', JBool cap)] h
              in Inr (cap, w\<lparr>cw_db := h1\<rparr>))))"

section \<open>Closing expired campaigns\<close>

definition is_expired :: "int \<Rightarrow> campaign_row \<Rightarrow> bool" where
  "is_expired now c \<longleftrightarrow> ca_status c = CS_ACTIVE \<and> (case ca_deadline c of None \<Rightarrow> False | Some d \<Rightarrow> d < now)"

definition get_expired_campaigns :: "int \<Rightarrow> nat \<Rightarrow> hiring_db \<Rightarrow> campaign_row list" where
  "get_expired_campaigns now limit h = take limit (filter (is_expired now) (hd_campaigns h))"

definition close_expired :: "int \<Rightarrow> campaign_row \<Rightarrow> hiring_db \<Rightarrow> hiring_db" where
  "close_expired now c h =
     audit None (Some SYSTEM) ''CAMPAIGN_AUTO_CLOSED'' (ca_id c)
       [(''reason'', JStr ''DEADLINE_EXPIRED''), (''deadline'', json_opt JTime (ca_deadline c)), (''closed_at'', JTime now)]
       (close_row now (ca_id c) h)"

definition close_batch :: "int \<Rightarrow> campaign_row list \<Rightarrow> hiring_db \<Rightarrow> hiring_db" where
  "close_batch now cs h = fold (close_expired now) cs h"

definition active_count :: "hiring_db \<Rightarrow> nat" where
  "active_count h = length (filter (\<lambda>c. ca_status c = CS_ACTIVE) (hd_campaigns h))"

lemma close_expired_campaigns:
  "hd_campaigns (close_expired now c h) =
     map (\<lambda>r. if ca_id r = ca_id c then r\<lparr>ca_status := CS_CLOSED, ca_updated_at := Some now\<rparr> else r) (hd_campaigns h)"
  by (simp add: close_expired_def close_row_def update_campaign_row_def audit_def)

lemma close_batch_campaigns:
  "hd_campaigns (close_batch now cs h) =
     map (\<lambda>r. if ca_id r \<in> ca_id ` set cs then r\<lparr>ca_status := CS_CLOSED, ca_updated_at := Some now\<rparr> else r) (hd_campaigns h)"
proof (induction cs arbitrary: h)
  case (Cons c cs)
  show ?case
    by (simp only: close_batch_def fold_simps comp_apply)
       (auto simp: Cons[unfolded close_batch_def] close_expired_campaigns)
qed (simp add: close_batch_def)

lemma active_count_close_batch: "active_count (close_batch now cs h) =
    length (filter (\<lambda>c. ca_status c = CS_ACTIVE \<and> ca_id c \<notin> ca_id ` set cs) (hd_campaigns h))"
  unfolding active_count_def close_batch_campaigns
  by (induction "hd_campaigns h") (auto simp: filter_map comp_def intro!: arg_cong[of _ _ length] filter_cong)

lemma expired_active: "c \<in> set (get_expired_campaigns now n h) \<Longrightarrow> c \<in> set (hd_campaigns h) \<and> is_expired now c"
  unfolding get_expired_campaigns_def by (auto dest: in_set_takeD)

lemma close_batch_decreases:
  assumes "get_expired_campaigns now n h = c # cs"
  shows "active_count (close_batch now (c # cs) h) < active_count h"
proof -
  have c: "c \<in> set (hd_campaigns h)" "ca_status c = CS_ACTIVE"
    using expired_active[of c now n h] assms by (auto simp: is_expired_def)
  have split: "filter (\<lambda>x. ca_status x = CS_ACTIVE \<and> ca_id x \<notin> ca_id ` set (c # cs)) (hd_campaigns h)
      = filter (\<lambda>x. ca_id x \<notin> ca_id ` set (c # cs)) (filter (\<lambda>x. ca_status x = CS_ACTIVE) (hd_campaigns h))"
    by (simp add: conj_commute)
  show ?thesis unfolding active_count_close_batch split unfolding active_count_def
    by (rule length_filter_less[of c]) (use c in simp_all)
qed

text \<open>
  The batches: every batch reads the clock anew (the \<open>k\<close>-th call sees \<open>clock k\<close>), closes the
  rows it got and is committed; the loop stops at an empty batch or one smaller than the
  limit.  Rows come in table order, one of the orders that a query without \<open>ORDER BY\<close> may
  give.
\<close>

function auto_close_from :: "nat \<Rightarrow> (nat \<Rightarrow> int) \<Rightarrow> nat \<Rightarrow> hiring_db \<Rightarrow> nat \<times> hiring_db" where
  "auto_close_from limit clock k h =
     (case get_expired_campaigns (clock k) limit h of
        [] \<Rightarrow> (0, h)
      | c # cs \<Rightarrow>
          let h1 = close_batch (clock k) (c # cs) h; n = length (c # cs)
          in if n < limit then (n, h1)
             else (let (m, h2) = auto_close_from limit clock (Suc k) h1 in (n + m, h2)))"
  by pat_completeness auto
termination
  by (relation "measure (\<lambda>(limit, clock, k, h). active_count h)") (auto simp: close_batch_decreases)

declare auto_close_from.simps [simp del]

definition auto_close_expired_campaigns :: "nat \<Rightarrow> (nat \<Rightarrow> int) \<Rightarrow> hiring_db \<Rightarrow> nat \<times> hiring_db" where
  "auto_close_expired_campaigns limit clock h = auto_close_from limit clock 0 h"

section \<open>The scoring tasks of a campaign\<close>

text \<open>
  How a worker starts \<open>calculate_deterministic_score_task\<close> or
  \<open>calculate_composite_score_task\<close>: only a finished task is not run again, and only the
  status of the campaign decides whether the work is done; \<open>score\<close> is that work.
\<close>

definition scoreable :: "campaign_status list" where
  "scoreable = [CS_ACTIVE, CS_PAUSED]"

definition ensure_log :: "string \<Rightarrow> string \<Rightarrow> nat option \<Rightarrow> hiring_db \<Rightarrow> hiring_db" where
  "ensure_log tid type c h =
     (if list_ex (\<lambda>t. tk_id t = tid) (hd_tasks h) then h
      else h\<lparr>hd_tasks := hd_tasks h @ [queued_log tid type c]\<rparr>)"

definition run_scoring_task ::
    "(nat \<Rightarrow> hiring_db \<Rightarrow> hiring_db) \<Rightarrow> string \<Rightarrow> string \<Rightarrow> nat \<Rightarrow> hiring_db \<Rightarrow> (campaign_error, hiring_db) result" where
  "run_scoring_task score tid type i h =
     (if (case find (\<lambda>t. tk_id t = tid) (hd_tasks h) of None \<Rightarrow> False | Some t \<Rightarrow> tk_status t = TK_SUCCESS)
      then Inr h
      else
        let h1 = set_task_status tid TK_RUNNING (ensure_log tid type (map_option cc_id (find_candidate i h)) h) in
        (case find_candidate i h1 of
           None \<Rightarrow> Inr (set_task_status tid TK_SUCCESS h1)
         | Some cc \<Rightarrow>
             (case find_campaign (cc_campaign cc) h1 of
                None \<Rightarrow> Inl KE_Not_Found
              | Some c \<Rightarrow>
                  if ca_status c \<notin> set scoreable then Inr (set_task_status tid TK_SUCCESS h1)
                  else Inr (set_task_status tid TK_SUCCESS (score i h1)))))"

end
