(* ===== verification/Skill_Scoring.thy ===== *)
theory Skill_Scoring
  imports Score_Rounding "HOL-Library.List_Lexorder" "HOL-Library.Char_ord"
begin

text \<open>
  The skill breakdown of a resume against a job description:
  \<open>CandidateScoringService\<close> (\<open>app/services/campaign/candidate_scoring_service.py\<close>) over
  the lookups of \<open>SkillRepository\<close>, \<open>SkillOntologyRepository\<close> and \<open>ConfigRepository\<close>.

  The state is the four tables these read; the only parameter is the cosine
  distance of two embeddings, computed by the database.  Scores are rational
  numbers (see \<open>Score_Rounding\<close>).  A query without an order returns the rows in
  table order.
\<close>

section \<open>Tables\<close>

datatype skill_match_tier =
    SM_EXACT | SM_ALIAS | SM_CASE_INSENSITIVE | SM_RULE_BASED | SM_FUZZY | SM_SEMANTIC | SM_UNKNOWN | SM_MANUAL_HR

datatype verification_status = VS_AUTO_VERIFIED | VS_PENDING_REVIEW

definition auto_verified_tiers :: "skill_match_tier list" where
  "auto_verified_tiers = [SM_EXACT, SM_ALIAS, SM_CASE_INSENSITIVE, SM_RULE_BASED, SM_MANUAL_HR]"

definition verification_status_for_tier :: "skill_match_tier \<Rightarrow> verification_status" where
  "verification_status_for_tier t = (if t \<in> set auto_verified_tiers then VS_AUTO_VERIFIED else VS_PENDING_REVIEW)"

definition scoring_weight_for_tier :: "skill_match_tier \<Rightarrow> rat" where
  "scoring_weight_for_tier t =
     (if t \<in> set [SM_EXACT, SM_ALIAS, SM_CASE_INSENSITIVE, SM_RULE_BASED, SM_MANUAL_HR] then 1
      else if t \<in> set [SM_FUZZY, SM_SEMANTIC] then 8 / 10 else 0)"

datatype skill_importance = CORE | SUPPORTING

record ontology_skill =
  so_id :: nat
  so_name :: string
  so_parent :: "nat option"
  so_embedding :: "rat list option"
  so_active :: bool

record jd_skill =
  js_jd :: nat
  js_skill :: nat
  js_mandatory :: bool
  js_weight :: "rat option"
  js_importance :: "skill_importance option"
  js_aliases :: "nat list option"

record candidate_skill =
  cs_resume :: nat
  cs_skill :: "nat option"
  cs_weight :: rat
  cs_tier :: skill_match_tier
  cs_confidence :: "rat option"

record skill_db =
  sd_ontology :: "ontology_skill list"
  sd_jd :: "jd_skill list"
  sd_candidates :: "candidate_skill list"
  sd_config :: "(string \<times> rat) list"
  sd_distance :: "rat list \<Rightarrow> rat list \<Rightarrow> rat"

text \<open>A platform setting, parsed with \<open>float\<close>, or its default.\<close>

definition config_value :: "skill_db \<Rightarrow> string \<Rightarrow> rat \<Rightarrow> rat" where
  "config_value db k d = (case map_of (sd_config db) k of None \<Rightarrow> d | Some v \<Rightarrow> v)"

section \<open>Lookups\<close>

text \<open>A row of the outer join of the job's skills with the candidate's.\<close>

record coverage_row =
  cv_skill :: nat
  cv_weight :: "rat option"
  cv_mandatory :: bool
  cv_importance :: "skill_importance option"
  cv_aliases :: "nat list option"
  cv_cand_weight :: "rat option"
  cv_tier :: "skill_match_tier option"
  cv_confidence :: "rat option"

definition join_row :: "jd_skill \<Rightarrow> candidate_skill option \<Rightarrow> coverage_row" where
  "join_row j m =
     \<lparr>cv_skill = js_skill j, cv_weight = js_weight j, cv_mandatory = js_mandatory j,
      cv_importance = js_importance j, cv_aliases = js_aliases j,
      cv_cand_weight = map_option cs_weight m, cv_tier = map_option cs_tier m,
      cv_confidence = Option.bind m cs_confidence\<rparr>"

definition skill_coverage :: "skill_db \<Rightarrow> nat \<Rightarrow> nat \<Rightarrow> bool \<Rightarrow> coverage_row list" where
  "skill_coverage db jd resume mandatory =
     concat (map (\<lambda>j.
       (case filter (\<lambda>c. cs_skill c = Some (js_skill j) \<and> cs_resume c = resume \<and> cs_weight c > 0) (sd_candidates db) of
          [] \<Rightarrow> [join_row j None]
        | m # ms \<Rightarrow> map (\<lambda>c. join_row j (Some c)) (m # ms)))
      (filter (\<lambda>j. js_jd j = jd \<and> js_mandatory j = mandatory) (sd_jd db)))"

definition normalized_skills :: "skill_db \<Rightarrow> nat \<Rightarrow> candidate_skill list" where
  "normalized_skills db resume = filter (\<lambda>c. cs_resume c = resume \<and> cs_skill c \<noteq> None) (sd_candidates db)"

text \<open>The candidate's skills in play, a dict keyed by canonical skill.\<close>

definition skills_in_play :: "skill_db \<Rightarrow> nat \<Rightarrow> (nat \<times> candidate_skill) list" where
  "skills_in_play db resume =
     fold (\<lambda>c d. (case cs_skill c of
                    Some k \<Rightarrow> if cs_weight c > 0 then AList.update k c d else d
                  | None \<Rightarrow> d))
       (normalized_skills db resume) []"

definition skill_by_id :: "skill_db \<Rightarrow> nat \<Rightarrow> ontology_skill option" where
  "skill_by_id db i = find (\<lambda>s. so_id s = i) (sd_ontology db)"

definition children_of :: "skill_db \<Rightarrow> nat \<Rightarrow> ontology_skill list" where
  "children_of db p = sort_key so_name (filter (\<lambda>s. so_parent s = Some p) (sd_ontology db))"

text \<open>The part of the hierarchy that belongs to a job, loaded once.\<close>

record skill_hierarchy =
  hi_skill :: "nat \<Rightarrow> ontology_skill option"
  hi_children :: "nat \<Rightarrow> ontology_skill list"
  hi_grandchildren :: "nat \<Rightarrow> ontology_skill list"

definition load_hierarchy :: "skill_db \<Rightarrow> nat list \<Rightarrow> skill_hierarchy" where
  "load_hierarchy db ids =
     (let skills = (\<lambda>i. if i \<in> set ids then skill_by_id db i else None);
          parents = List.map_filter (\<lambda>i. Option.bind (skills i) so_parent) ids;
          children = (\<lambda>p. if p \<in> set (ids @ parents) then children_of db p else []);
          child_ids = concat (map (\<lambda>i. map so_id (filter so_active (children i))) ids)
      in \<lparr>hi_skill = skills, hi_children = children,
          hi_grandchildren = (\<lambda>p. if p \<in> set child_ids then children_of db p else [])\<rparr>)"

definition mandatory_jd_skills :: "skill_db \<Rightarrow> nat \<Rightarrow> jd_skill list" where
  "mandatory_jd_skills db jd = filter (\<lambda>j. js_jd j = jd \<and> js_mandatory j) (sd_jd db)"

definition load_hierarchy_for_jd :: "skill_db \<Rightarrow> nat \<Rightarrow> skill_hierarchy" where
  "load_hierarchy_for_jd db jd = load_hierarchy db (map js_skill (mandatory_jd_skills db jd))"

definition best_semantic_match :: "skill_db \<Rightarrow> rat list \<Rightarrow> nat list \<Rightarrow> (nat \<times> rat) option" where
  "best_semantic_match db target ids =
     (let near = List.map_filter (\<lambda>s. map_option (\<lambda>e. (so_id s, 1 - sd_distance db e target)) (so_embedding s))
                   (filter (\<lambda>s. so_id s \<in> set ids) (sd_ontology db))
      in if ids = [] then None else first_max snd near)"

section \<open>One entry of the breakdown\<close>

datatype match_type = MT_EXACT | MT_CHILD | MT_GRANDCHILD | MT_SIBLING | MT_SEMANTIC | MT_MISSING

definition covered_types :: "match_type list" where
  "covered_types = [MT_EXACT, MT_CHILD, MT_GRANDCHILD, MT_SIBLING, MT_SEMANTIC]"

datatype sibling_skip = SIBLING_SKIPPED | ROOT_SKILL_NO_PARENT

record skill_entry =
  en_skill :: nat
  en_name :: "string option"
  en_mandatory :: bool
  en_weight :: "rat option"
  en_importance :: "skill_importance option"
  en_multiplier :: rat
  en_effective :: "rat option"
  en_match :: match_type
  en_matched_name :: "string option"
  en_hierarchy :: rat
  en_cand_weight :: "rat option"
  en_tier :: "skill_match_tier option"
  en_confidence :: "rat option"
  en_contribution :: "rat option"
  en_via_alias :: bool
  en_similarity :: "rat option"
  en_skip :: "sibling_skip option"

definition importance_multiplier :: "skill_importance option \<Rightarrow> rat \<Rightarrow> rat \<Rightarrow> rat" where
  "importance_multiplier imp core supporting =
     (case imp of Some CORE \<Rightarrow> core | Some SUPPORTING \<Rightarrow> supporting | None \<Rightarrow> 1)"

definition breakdown_entry ::
    "nat \<Rightarrow> string option \<Rightarrow> bool \<Rightarrow> rat option \<Rightarrow> match_type \<Rightarrow> rat \<Rightarrow> rat option \<Rightarrow> skill_match_tier option
     \<Rightarrow> rat option \<Rightarrow> string option \<Rightarrow> skill_importance option \<Rightarrow> rat \<Rightarrow> skill_entry" where
  "breakdown_entry skill name mandatory weight mt hier cand tier confidence matched imp factor =
     (let effective = map_option (\<lambda>w. py_round 4 (w * factor)) weight;
          contribution =
            (if mt = MT_MISSING then Some 0
             else (case (effective, cand) of
                     (Some e, Some c) \<Rightarrow> Some (py_round 4 (e * c * hier))
                   | _ \<Rightarrow> None))
      in \<lparr>en_skill = skill, en_name = name, en_mandatory = mandatory, en_weight = weight, en_importance = imp,
          en_multiplier = factor, en_effective = effective, en_match = mt, en_matched_name = matched,
          en_hierarchy = hier, en_cand_weight = cand, en_tier = tier, en_confidence = confidence,
          en_contribution = contribution, en_via_alias = False, en_similarity = None, en_skip = None\<rparr>)"

text \<open>Of the skills that the candidate has, the one with the greatest weight.\<close>

definition best_hierarchy_match ::
    "ontology_skill list \<Rightarrow> (nat \<times> candidate_skill) list \<Rightarrow> (ontology_skill \<times> candidate_skill) option" where
  "best_hierarchy_match skills cand =
     first_max (\<lambda>p. cs_weight (snd p))
       (List.map_filter (\<lambda>s. map_option (Pair s) (map_of cand (so_id s))) skills)"

definition best_alias_match ::
    "nat list option \<Rightarrow> (nat \<times> candidate_skill) list \<Rightarrow> (nat \<times> candidate_skill) option" where
  "best_alias_match aliases cand =
     first_max (\<lambda>p. cs_weight (snd p))
       (List.map_filter (\<lambda>a. map_option (Pair a) (map_of cand a)) (case aliases of None \<Rightarrow> [] | Some xs \<Rightarrow> xs))"

definition alias_names :: "skill_db \<Rightarrow> coverage_row list \<Rightarrow> nat \<Rightarrow> string option" where
  "alias_names db rows i =
     (if i \<in> set (concat (map (\<lambda>r. case cv_aliases r of None \<Rightarrow> [] | Some xs \<Rightarrow> xs) rows))
      then map_option so_name (skill_by_id db i) else None)"

section \<open>The tiers\<close>

record scoring_config =
  sc_grandchild :: rat
  sc_semantic :: "rat option"
  sc_core :: rat
  sc_supporting :: rat

definition scoring_configs :: "skill_db \<Rightarrow> scoring_config" where
  "scoring_configs db =
     \<lparr>sc_grandchild = config_value db ''HIERARCHY_GRANDCHILD_MULTIPLIER'' (50 / 100),
      sc_semantic = map_of (sd_config db) ''HIERARCHY_SEMANTIC_ONLY_THRESHOLD'',
      sc_core = config_value db ''CORE_IMPORTANCE_WEIGHT_MULTIPLIER'' 1,
      sc_supporting = config_value db ''SUPPORTING_IMPORTANCE_WEIGHT_MULTIPLIER'' 1\<rparr>"

definition active_children :: "skill_hierarchy \<Rightarrow> nat \<Rightarrow> ontology_skill list" where
  "active_children hi i = filter so_active (hi_children hi i)"

definition active_grandchildren :: "skill_hierarchy \<Rightarrow> nat \<Rightarrow> ontology_skill list" where
  "active_grandchildren hi i =
     concat (map (\<lambda>c. filter so_active (hi_grandchildren hi (so_id c))) (active_children hi i))"

definition active_siblings :: "skill_hierarchy \<Rightarrow> nat \<Rightarrow> ontology_skill list" where
  "active_siblings hi i =
     (case Option.bind (hi_skill hi i) so_parent of
        None \<Rightarrow> []
      | Some p \<Rightarrow> filter (\<lambda>s. so_id s \<noteq> i \<and> so_active s) (hi_children hi p))"

text \<open>An entry for a candidate skill that was found, with the row's own fields.\<close>

definition found_entry ::
    "scoring_config \<Rightarrow> skill_hierarchy \<Rightarrow> coverage_row \<Rightarrow> match_type \<Rightarrow> rat \<Rightarrow> candidate_skill \<Rightarrow> string option \<Rightarrow> skill_entry" where
  "found_entry sc hi row mt hier c matched =
     breakdown_entry (cv_skill row) (map_option so_name (hi_skill hi (cv_skill row))) (cv_mandatory row) (cv_weight row)
       mt hier (Some (cs_weight c)) (Some (cs_tier c)) (cs_confidence c) matched (cv_importance row)
       (importance_multiplier (cv_importance row) (sc_core sc) (sc_supporting sc))"

definition semantic_match ::
    "skill_db \<Rightarrow> scoring_config \<Rightarrow> skill_hierarchy \<Rightarrow> nat \<Rightarrow> (nat \<times> candidate_skill) list
     \<Rightarrow> (candidate_skill \<times> nat \<times> rat) option" where
  "semantic_match db sc hi i cand =
     (case (sc_semantic sc, Option.bind (hi_skill hi i) so_embedding) of
        (Some threshold, Some target) \<Rightarrow>
          (case best_semantic_match db target (map fst cand) of
             Some (m, similarity) \<Rightarrow>
               if similarity \<ge> threshold then map_option (\<lambda>c. (c, m, similarity)) (map_of cand m) else None
           | None \<Rightarrow> None)
      | _ \<Rightarrow> None)"

definition sibling_skip_reason :: "skill_hierarchy \<Rightarrow> nat \<Rightarrow> sibling_skip option" where
  "sibling_skip_reason hi i =
     (case hi_skill hi i of
        None \<Rightarrow> Some SIBLING_SKIPPED
      | Some t \<Rightarrow> if so_parent t = None then Some ROOT_SKILL_NO_PARENT else None)"

definition score_one ::
    "skill_db \<Rightarrow> scoring_config \<Rightarrow> skill_hierarchy \<Rightarrow> (nat \<Rightarrow> string option) \<Rightarrow> (nat \<times> candidate_skill) list
     \<Rightarrow> coverage_row \<Rightarrow> skill_entry" where
  "score_one db sc hi names cand row =
     (let i = cv_skill row;
          name = map_option so_name (hi_skill hi i);
          factor = importance_multiplier (cv_importance row) (sc_core sc) (sc_supporting sc) in
      (case cv_cand_weight row of
         Some cw \<Rightarrow> breakdown_entry i name (cv_mandatory row) (cv_weight row) MT_EXACT 1 (Some cw) (cv_tier row)
                      (cv_confidence row) name (cv_importance row) factor
       | None \<Rightarrow>
      (case best_alias_match (cv_aliases row) cand of
         Some (a, c) \<Rightarrow> (found_entry sc hi row MT_EXACT 1 c (names a))\<lparr>en_via_alias := True\<rparr>
       | None \<Rightarrow>
      (case best_hierarchy_match (active_children hi i) cand of
         Some (s, c) \<Rightarrow> found_entry sc hi row MT_CHILD (7 / 10) c (Some (so_name s))
       | None \<Rightarrow>
      (case best_hierarchy_match (active_grandchildren hi i) cand of
         Some (s, c) \<Rightarrow> found_entry sc hi row MT_GRANDCHILD (sc_grandchild sc) c (Some (so_name s))
       | None \<Rightarrow>
      (case best_hierarchy_match (active_siblings hi i) cand of
         Some (s, c) \<Rightarrow> found_entry sc hi row MT_SIBLING (4 / 10) c (Some (so_name s))
       | None \<Rightarrow>
      (case semantic_match db sc hi i cand of
         Some (c, m, similarity) \<Rightarrow>
           (found_entry sc hi row MT_SEMANTIC (2 / 10) c (map_option so_name (skill_by_id db m)))
             \<lparr>en_similarity := Some (py_round 4 similarity)\<rparr>
       | None \<Rightarrow>
           (breakdown_entry i name (cv_mandatory row) (cv_weight row) MT_MISSING 0 None None None None
              (cv_importance row) factor)\<lparr>en_skip := sibling_skip_reason hi i\<rparr>)))))))"

section \<open>The breakdown\<close>

datatype gate_scope = SCOPE_CORE | SCOPE_ALL_MANDATORY

record skill_breakdown =
  bd_entries :: "skill_entry list"
  bd_coverage :: rat
  bd_core_coverage :: rat
  bd_scope :: gate_scope
  bd_score :: rat
  bd_semantic_tier :: bool
  bd_no_verified :: bool

definition gate_scope_of :: "skill_entry list \<Rightarrow> gate_scope" where
  "gate_scope_of es = (if list_ex (\<lambda>e. en_importance e \<noteq> None) es then SCOPE_CORE else SCOPE_ALL_MANDATORY)"

definition gate_skills :: "skill_entry list \<Rightarrow> skill_entry list" where
  "gate_skills es =
     (if gate_scope_of es = SCOPE_ALL_MANDATORY then es else filter (\<lambda>e. en_importance e = Some CORE) es)"

definition covered :: "skill_entry \<Rightarrow> bool" where
  "covered e \<longleftrightarrow> en_match e \<in> set covered_types"

definition coverage_pct :: "skill_entry list \<Rightarrow> rat" where
  "coverage_pct es =
     (if es = [] then 100
      else py_round 2 (of_nat (length (filter covered es)) / of_nat (length es) * 100))"

definition or_zero :: "rat option \<Rightarrow> rat" where
  "or_zero x = (case x of None \<Rightarrow> 0 | Some v \<Rightarrow> v)"

definition actual_sum :: "skill_entry list \<Rightarrow> rat" where
  "actual_sum es = sum_list (map (\<lambda>e. or_zero (en_contribution e)) es)"

definition max_sum :: "skill_entry list \<Rightarrow> rat" where
  "max_sum es = sum_list (map (\<lambda>e. or_zero (en_effective e)) es)"

definition breakdown_of ::
    "skill_db \<Rightarrow> nat \<Rightarrow> nat \<Rightarrow> skill_hierarchy option \<Rightarrow> skill_breakdown" where
  "breakdown_of db jd resume given =
     (let rows = skill_coverage db jd resume True;
          hi = (case given of Some h \<Rightarrow> h | None \<Rightarrow> load_hierarchy db (map cv_skill rows));
          cand = skills_in_play db resume;
          sc = scoring_configs db;
          es = map (score_one db sc hi (alias_names db rows) cand) rows;
          m = max_sum es
      in \<lparr>bd_entries = es, bd_coverage = coverage_pct es, bd_core_coverage = coverage_pct (gate_skills es),
          bd_scope = gate_scope_of es,
          bd_score = (if m > 0 then py_round 2 (actual_sum es / m * 100) else 100),
          bd_semantic_tier = (sc_semantic sc \<noteq> None), bd_no_verified = (cand = [])\<rparr>)"

definition calculate_deterministic_score :: "skill_db \<Rightarrow> nat \<Rightarrow> nat \<Rightarrow> rat \<Rightarrow> rat \<times> bool" where
  "calculate_deterministic_score db jd resume threshold =
     (let b = breakdown_of db jd resume None
      in (bd_score b,
          \<not> list_ex (\<lambda>e. en_match e = MT_MISSING) (gate_skills (bd_entries b)) \<and> bd_score b \<ge> threshold))"

section \<open>Preferred skills\<close>

definition preferred_entry ::
    "skill_db \<Rightarrow> (nat \<Rightarrow> string option) \<Rightarrow> (nat \<times> candidate_skill) list \<Rightarrow> coverage_row \<Rightarrow> skill_entry" where
  "preferred_entry db names cand row =
     (let name = map_option so_name (skill_by_id db (cv_skill row));
          entry = breakdown_entry (cv_skill row) name (cv_mandatory row) (cv_weight row) in
      (case cv_cand_weight row of
         Some w \<Rightarrow> entry MT_EXACT 1 (Some w) (cv_tier row) (cv_confidence row) name None 1
       | None \<Rightarrow>
          (case best_alias_match (cv_aliases row) cand of
             Some (a, c) \<Rightarrow>
               (entry MT_EXACT 1 (Some (cs_weight c)) (Some (cs_tier c)) (cs_confidence c) (names a) None 1)
                 \<lparr>en_via_alias := True\<rparr>
           | None \<Rightarrow> entry MT_MISSING 0 None (cv_tier row) (cv_confidence row) None None 1)))"

definition preferred_breakdown :: "skill_db \<Rightarrow> nat \<Rightarrow> nat \<Rightarrow> skill_entry list \<times> rat" where
  "preferred_breakdown db jd resume =
     (let rows = skill_coverage db jd resume False;
          names = alias_names db rows;
          cand = (if list_ex (\<lambda>r. \<exists>a\<in>set (case cv_aliases r of None \<Rightarrow> [] | Some xs \<Rightarrow> xs). names a \<noteq> None) rows
                  then skills_in_play db resume else []);
          es = map (preferred_entry db names cand) rows
      in (es, py_round 4 (actual_sum es)))"

end
