(* ===== verification/Skill_Scoring_Props.thy ===== *)
theory Skill_Scoring_Props
  imports Skill_Scoring
begin

text \<open>
  Properties of the skill breakdown: the strict order of the tiers, one entry for
  each mandatory skill, the bounds of every score, and the case in which holding
  one more skill lowers a score.
\<close>

section \<open>The order of the tiers\<close>

definition held :: "(nat \<times> candidate_skill) list \<Rightarrow> nat set \<Rightarrow> candidate_skill set" where
  "held cand ids = {c. \<exists>i\<in>ids. map_of cand i = Some c}"

text \<open>What a candidate has to offer at a tier, without the join's direct match.\<close>

fun tier_skills ::
    "skill_db \<Rightarrow> scoring_config \<Rightarrow> skill_hierarchy \<Rightarrow> (nat \<times> candidate_skill) list \<Rightarrow> coverage_row \<Rightarrow> match_type
     \<Rightarrow> candidate_skill set" where
  "tier_skills db sc hi cand row MT_EXACT = held cand (set (case cv_aliases row of None \<Rightarrow> [] | Some xs \<Rightarrow> xs))"
| "tier_skills db sc hi cand row MT_CHILD = held cand (so_id ` set (active_children hi (cv_skill row)))"
| "tier_skills db sc hi cand row MT_GRANDCHILD = held cand (so_id ` set (active_grandchildren hi (cv_skill row)))"
| "tier_skills db sc hi cand row MT_SIBLING = held cand (so_id ` set (active_siblings hi (cv_skill row)))"
| "tier_skills db sc hi cand row MT_SEMANTIC = {c. \<exists>m s. semantic_match db sc hi (cv_skill row) cand = Some (c, m, s)}"
| "tier_skills db sc hi cand row MT_MISSING = {}"

fun tier_rank :: "match_type \<Rightarrow> nat" where
  "tier_rank MT_EXACT = 0"
| "tier_rank MT_CHILD = 1"
| "tier_rank MT_GRANDCHILD = 2"
| "tier_rank MT_SIBLING = 3"
| "tier_rank MT_SEMANTIC = 4"
| "tier_rank MT_MISSING = 5"

fun tier_multiplier :: "scoring_config \<Rightarrow> match_type \<Rightarrow> rat" where
  "tier_multiplier sc MT_EXACT = 1"
| "tier_multiplier sc MT_CHILD = 7 / 10"
| "tier_multiplier sc MT_GRANDCHILD = sc_grandchild sc"
| "tier_multiplier sc MT_SIBLING = 4 / 10"
| "tier_multiplier sc MT_SEMANTIC = 2 / 10"
| "tier_multiplier sc MT_MISSING = 0"

lemma breakdown_entry_simps [simp]:
  "en_match (breakdown_entry i n md w mt hier cw tier cf mn imp factor) = mt"
  "en_hierarchy (breakdown_entry i n md w mt hier cw tier cf mn imp factor) = hier"
  "en_cand_weight (breakdown_entry i n md w mt hier cw tier cf mn imp factor) = cw"
  "en_skill (breakdown_entry i n md w mt hier cw tier cf mn imp factor) = i"
  "en_importance (breakdown_entry i n md w mt hier cw tier cf mn imp factor) = imp"
  "en_mandatory (breakdown_entry i n md w mt hier cw tier cf mn imp factor) = md"
  by (simp_all add: breakdown_entry_def Let_def)

lemma found_entry_simps [simp]:
  "en_match (found_entry sc hi row mt hier c mn) = mt"
  "en_hierarchy (found_entry sc hi row mt hier c mn) = hier"
  "en_cand_weight (found_entry sc hi row mt hier c mn) = Some (cs_weight c)"
  "en_skill (found_entry sc hi row mt hier c mn) = cv_skill row"
  "en_importance (found_entry sc hi row mt hier c mn) = cv_importance row"
  by (simp_all add: found_entry_def)

lemma map_filter_set: "x \<in> set (List.map_filter f xs) \<longleftrightarrow> (\<exists>y\<in>set xs. f y = Some x)"
  by (induction xs) (auto simp: List.map_filter_simps split: option.splits)

lemma best_alias_None: "best_alias_match al cand = None \<longleftrightarrow> held cand (set (case al of None \<Rightarrow> [] | Some xs \<Rightarrow> xs)) = {}"
  unfolding best_alias_match_def first_max_None
  by (simp only: set_empty[symmetric] set_eq_iff map_filter_set held_def) (auto split: option.splits)

lemma best_alias_Some:
  assumes "best_alias_match al cand = Some (a, c)"
  shows "c \<in> held cand (set (case al of None \<Rightarrow> [] | Some xs \<Rightarrow> xs))"
    "\<forall>c'\<in>held cand (set (case al of None \<Rightarrow> [] | Some xs \<Rightarrow> xs)). cs_weight c' \<le> cs_weight c"
proof -
  note m = assms[unfolded best_alias_match_def]
  show "c \<in> held cand (set (case al of None \<Rightarrow> [] | Some xs \<Rightarrow> xs))"
    using first_max_in[OF m] by (auto simp: map_filter_set held_def split: option.splits)
  show "\<forall>c'\<in>held cand (set (case al of None \<Rightarrow> [] | Some xs \<Rightarrow> xs)). cs_weight c' \<le> cs_weight c"
  proof
    fix c' assume "c' \<in> held cand (set (case al of None \<Rightarrow> [] | Some xs \<Rightarrow> xs))"
    then obtain i where "i \<in> set (case al of None \<Rightarrow> [] | Some xs \<Rightarrow> xs)" "map_of cand i = Some c'"
      by (auto simp: held_def)
    then have "(i, c') \<in> set (List.map_filter (\<lambda>a. map_option (Pair a) (map_of cand a)) (case al of None \<Rightarrow> [] | Some xs \<Rightarrow> xs))"
      by (force simp: map_filter_set)
    from first_max_ge[OF m this] show "cs_weight c' \<le> cs_weight c" by simp
  qed
qed

lemma best_hierarchy_None: "best_hierarchy_match skills cand = None \<longleftrightarrow> held cand (so_id ` set skills) = {}"
  unfolding best_hierarchy_match_def first_max_None
  by (simp only: set_empty[symmetric] set_eq_iff map_filter_set held_def) auto

lemma best_hierarchy_Some:
  assumes "best_hierarchy_match skills cand = Some (s, c)"
  shows "c \<in> held cand (so_id ` set skills)" "\<forall>c'\<in>held cand (so_id ` set skills). cs_weight c' \<le> cs_weight c"
proof -
  note m = assms[unfolded best_hierarchy_match_def]
  show "c \<in> held cand (so_id ` set skills)"
    using first_max_in[OF m] by (auto simp: map_filter_set held_def)
  show "\<forall>c'\<in>held cand (so_id ` set skills). cs_weight c' \<le> cs_weight c"
  proof
    fix c' assume "c' \<in> held cand (so_id ` set skills)"
    then obtain t where "t \<in> set skills" "map_of cand (so_id t) = Some c'" by (auto simp: held_def)
    then have "(t, c') \<in> set (List.map_filter (\<lambda>s. map_option (Pair s) (map_of cand (so_id s))) skills)"
      by (force simp: map_filter_set)
    from first_max_ge[OF m this] show "cs_weight c' \<le> cs_weight c" by simp
  qed
qed

lemma tiers_empty:
  assumes "best_alias_match (cv_aliases row) cand = None"
  shows "tier_rank t < tier_rank MT_CHILD \<Longrightarrow> tier_skills db sc hi cand row t = {}"
    "best_hierarchy_match (active_children hi (cv_skill row)) cand = None
     \<Longrightarrow> tier_rank t < tier_rank MT_GRANDCHILD \<Longrightarrow> tier_skills db sc hi cand row t = {}"
    "best_hierarchy_match (active_children hi (cv_skill row)) cand = None
     \<Longrightarrow> best_hierarchy_match (active_grandchildren hi (cv_skill row)) cand = None
     \<Longrightarrow> tier_rank t < tier_rank MT_SIBLING \<Longrightarrow> tier_skills db sc hi cand row t = {}"
    "best_hierarchy_match (active_children hi (cv_skill row)) cand = None
     \<Longrightarrow> best_hierarchy_match (active_grandchildren hi (cv_skill row)) cand = None
     \<Longrightarrow> best_hierarchy_match (active_siblings hi (cv_skill row)) cand = None
     \<Longrightarrow> tier_rank t < tier_rank MT_SEMANTIC \<Longrightarrow> tier_skills db sc hi cand row t = {}"
  by (cases t; use assms in \<open>simp add: best_alias_None best_hierarchy_None\<close>)+

lemma tier_found:
  assumes "en_match e = t" "t \<noteq> MT_MISSING" "\<And>t'. tier_rank t' < tier_rank t \<Longrightarrow> S t' = {}"
    "en_hierarchy e = tier_multiplier sc t" "en_cand_weight e = Some (cs_weight c)"
    "c \<in> S t" "\<forall>c'\<in>S t. cs_weight c' \<le> cs_weight c"
  shows "(\<forall>t. tier_rank t < tier_rank (en_match e) \<longrightarrow> S t = {})
    \<and> en_hierarchy e = tier_multiplier sc (en_match e)
    \<and> (if en_match e = MT_MISSING then en_cand_weight e = None
       else \<exists>c\<in>S (en_match e). en_cand_weight e = Some (cs_weight c) \<and> (\<forall>c'\<in>S (en_match e). cs_weight c' \<le> cs_weight c))"
  using assms by auto

lemma tier_order:
  assumes direct: "cv_cand_weight row = None" and e: "e = score_one db sc hi names cand row"
  shows "(\<forall>t. tier_rank t < tier_rank (en_match e) \<longrightarrow> tier_skills db sc hi cand row t = {})
    \<and> en_hierarchy e = tier_multiplier sc (en_match e)
    \<and> (if en_match e = MT_MISSING then en_cand_weight e = None
       else \<exists>c\<in>tier_skills db sc hi cand row (en_match e). en_cand_weight e = Some (cs_weight c)
         \<and> (\<forall>c'\<in>tier_skills db sc hi cand row (en_match e). cs_weight c' \<le> cs_weight c))"
proof -
  let ?i = "cv_skill row" and ?S = "tier_skills db sc hi cand row"
  note eq = e score_one_def Let_def direct
  consider (via) a c where "best_alias_match (cv_aliases row) cand = Some (a, c)"
    | (child) s c where "best_alias_match (cv_aliases row) cand = None"
        "best_hierarchy_match (active_children hi ?i) cand = Some (s, c)"
    | (grand) s c where "best_alias_match (cv_aliases row) cand = None"
        "best_hierarchy_match (active_children hi ?i) cand = None"
        "best_hierarchy_match (active_grandchildren hi ?i) cand = Some (s, c)"
    | (sibling) s c where "best_alias_match (cv_aliases row) cand = None"
        "best_hierarchy_match (active_children hi ?i) cand = None"
        "best_hierarchy_match (active_grandchildren hi ?i) cand = None"
        "best_hierarchy_match (active_siblings hi ?i) cand = Some (s, c)"
    | (rest) "best_alias_match (cv_aliases row) cand = None"
        "best_hierarchy_match (active_children hi ?i) cand = None"
        "best_hierarchy_match (active_grandchildren hi ?i) cand = None"
        "best_hierarchy_match (active_siblings hi ?i) cand = None"
    by (metis not_Some_eq surj_pair)
  then show ?thesis
  proof cases
    case via
    from best_alias_Some[OF via] show ?thesis
      by (intro tier_found[of e MT_EXACT ?S sc c]) (simp_all add: eq via)
  next
    case child
    from best_hierarchy_Some[OF child(2)] tiers_empty(1)[OF child(1)] show ?thesis
      by (intro tier_found[of e MT_CHILD ?S sc c]) (simp_all add: eq child)
  next
    case grand
    from best_hierarchy_Some[OF grand(3)] tiers_empty(2)[OF grand(1,2)] show ?thesis
      by (intro tier_found[of e MT_GRANDCHILD ?S sc c]) (simp_all add: eq grand)
  next
    case sibling
    from best_hierarchy_Some[OF sibling(4)] tiers_empty(3)[OF sibling(1,2,3)] show ?thesis
      by (intro tier_found[of e MT_SIBLING ?S sc c]) (simp_all add: eq sibling)
  next
    case rest
    note empty = tiers_empty(4)[OF rest]
    show ?thesis
    proof (cases "semantic_match db sc hi ?i cand")
      case None
      then have "?S t = {}" for t
        by (cases "tier_rank t < tier_rank MT_SEMANTIC"; cases t) (simp_all only: empty, simp_all)
      then show ?thesis using None by (simp add: eq rest)
    next
      case (Some q)
      then obtain c m s where q: "semantic_match db sc hi ?i cand = Some (c, m, s)" by (cases q) auto
      from empty show ?thesis
        by (intro tier_found[of e MT_SEMANTIC ?S sc c]) (simp_all add: eq rest q)
    qed
  qed
qed

text \<open>
  Property C13.  A mandatory skill that the candidate holds directly is scored as exact, with the
  full multiplier and the weight of that very skill, whatever an alias would offer.  Without a
  direct match it is scored at the first tier, in the order alias, child, grandchild, sibling,
  semantic, at which the candidate has an active skill to offer, with the tier's multiplier and the
  greatest weight among the candidate's skills of that tier (the semantic tier has one, the nearest
  skill); it is missing exactly if no tier offers anything.
\<close>

theorem tier_priority:
  assumes "e = score_one db sc hi names cand row"
  shows "case cv_cand_weight row of
      Some own \<Rightarrow> en_match e = MT_EXACT \<and> \<not> en_via_alias e \<and> en_hierarchy e = 1 \<and> en_cand_weight e = Some own
    | None \<Rightarrow> (\<forall>t. tier_rank t < tier_rank (en_match e) \<longrightarrow> tier_skills db sc hi cand row t = {})
        \<and> en_hierarchy e = tier_multiplier sc (en_match e)
        \<and> (if en_match e = MT_MISSING then en_cand_weight e = None
           else \<exists>c\<in>tier_skills db sc hi cand row (en_match e). en_cand_weight e = Some (cs_weight c)
             \<and> (\<forall>c'\<in>tier_skills db sc hi cand row (en_match e). cs_weight c' \<le> cs_weight c))"
proof (cases "cv_cand_weight row")
  case None
  then show ?thesis using tier_order[OF None assms] by simp
next
  case (Some own)
  then show ?thesis by (simp add: assms score_one_def breakdown_entry_def Let_def)
qed

text \<open>
  An ontology with a skill, its child and grandchild and an alias; a job that asks
  for the skill, and a candidate with the given skills.
\<close>

definition skill_row :: "nat \<Rightarrow> nat option \<Rightarrow> string \<Rightarrow> ontology_skill" where
  "skill_row i p n = \<lparr>so_id = i, so_name = n, so_parent = p, so_embedding = None, so_active = True\<rparr>"

definition skill_example :: "(nat \<times> skill_match_tier) list \<Rightarrow> skill_db" where
  "skill_example have =
     \<lparr>sd_ontology = [skill_row 1 None ''ServiceNow SPM'', skill_row 2 (Some 1) ''PPM'',
                     skill_row 3 (Some 2) ''PPM Reports'', skill_row 4 None ''ITBM''],
      sd_jd = [\<lparr>js_jd = 7, js_skill = 1, js_mandatory = True, js_weight = Some 10, js_importance = Some CORE,
                js_aliases = Some [4]\<rparr>],
      sd_candidates = map (\<lambda>(i, t). \<lparr>cs_resume = 9, cs_skill = Some i, cs_weight = scoring_weight_for_tier t,
                                      cs_tier = t, cs_confidence = None\<rparr>) have,
      sd_config = [], sd_distance = (\<lambda>a b. 0)\<rparr>"

definition example_row :: coverage_row where
  "example_row = \<lparr>cv_skill = 1, cv_weight = Some 10, cv_mandatory = True, cv_importance = Some CORE,
     cv_aliases = Some [4], cv_cand_weight = None, cv_tier = None, cv_confidence = None\<rparr>"

lemma tier_priority_witness:
  "let db = skill_example [(2, SM_FUZZY), (3, SM_EXACT)];
       hi = load_hierarchy db [1]; cand = skills_in_play db 9;
       e = score_one db (scoring_configs db) hi (\<lambda>_. None) cand example_row
   in skill_coverage db 7 9 True = [example_row] \<and> en_match e = MT_CHILD \<and> en_contribution e = Some (56 / 10)
      \<and> tier_skills db (scoring_configs db) hi cand example_row MT_EXACT = {}
      \<and> en_hierarchy e = 7 / 10"
proof -
  let ?db = "skill_example [(2, SM_FUZZY), (3, SM_EXACT)]"
  let ?e = "score_one ?db (scoring_configs ?db) (load_hierarchy ?db [1]) (\<lambda>_. None) (skills_in_play ?db 9) example_row"
  have e: "en_match ?e = MT_CHILD" "en_contribution ?e = Some (56 / 10)" "skill_coverage ?db 7 9 True = [example_row]" by code_simp+
  have d: "cv_cand_weight example_row = None" by (simp add: example_row_def)
  note t = tier_priority[OF refl, where row = example_row and db = ?db and sc = "scoring_configs ?db" and hi = "load_hierarchy ?db [1]"
      and names = "\<lambda>_. None" and cand = "skills_in_play ?db 9", unfolded d option.case]
  have "tier_skills ?db (scoring_configs ?db) (load_hierarchy ?db [1]) (skills_in_play ?db 9) example_row MT_EXACT = {}"
    using t[THEN conjunct1, rule_format, of MT_EXACT] by (simp only: e tier_rank.simps)
  moreover have "en_hierarchy ?e = 7 / 10"
    using t[THEN conjunct2, THEN conjunct1] by (simp only: e tier_multiplier.simps)
  ultimately show ?thesis unfolding Let_def using e by blast
qed

section \<open>Bounds\<close>

definition skill_data_ok :: "skill_db \<Rightarrow> bool" where
  "skill_data_ok db \<longleftrightarrow>
     (\<forall>j\<in>set (sd_jd db). 0 \<le> or_zero (js_weight j)) \<and> (\<forall>c\<in>set (sd_candidates db). 0 \<le> cs_weight c \<and> cs_weight c \<le> 1)
     \<and> 0 \<le> sc_grandchild (scoring_configs db) \<and> sc_grandchild (scoring_configs db) \<le> 1
     \<and> 0 \<le> sc_core (scoring_configs db) \<and> 0 \<le> sc_supporting (scoring_configs db)"

definition entry_ok :: "skill_entry \<Rightarrow> bool" where
  "entry_ok e \<longleftrightarrow> 0 \<le> or_zero (en_contribution e) \<and> or_zero (en_contribution e) \<le> or_zero (en_effective e)"

lemma breakdown_entry_ok:
  assumes "0 \<le> or_zero w" "0 \<le> factor" "0 \<le> hier" "hier \<le> 1" "\<forall>c. cw = Some c \<longrightarrow> 0 \<le> c \<and> c \<le> 1"
  shows "entry_ok (breakdown_entry i n md w mt hier cw tier cf mn imp factor)"
proof (cases w)
  case None
  then show ?thesis by (auto simp: entry_ok_def breakdown_entry_def or_zero_def Let_def)
next
  case (Some v)
  let ?e = "py_round 4 (v * factor)"
  have e: "0 \<le> ?e" using assms(1,2) Some by (auto simp: or_zero_def intro!: py_round_nonneg)
  have "0 \<le> py_round 4 (?e * c * hier) \<and> py_round 4 (?e * c * hier) \<le> ?e" if "cw = Some c" for c
  proof -
    have c: "0 \<le> c" "c \<le> 1" using assms(5) that by auto
    have "c * hier \<le> 1" using c assms(3,4) mult_le_one by blast
    then have "?e * (c * hier) \<le> ?e" using e mult_left_le by blast
    then have "py_round 4 (?e * c * hier) \<le> py_round 4 ?e" by (intro py_round_mono) (simp add: mult.assoc)
    then show ?thesis using e c assms(3) by (simp add: py_round_nonneg)
  qed
  with e Some show ?thesis by (auto simp: entry_ok_def breakdown_entry_def or_zero_def Let_def split: option.splits)
qed

lemma entry_ok_update [simp]:
  "entry_ok (e\<lparr>en_via_alias := b\<rparr>) = entry_ok e" "entry_ok (e\<lparr>en_similarity := s\<rparr>) = entry_ok e"
  "entry_ok (e\<lparr>en_skip := k\<rparr>) = entry_ok e"
  by (simp_all add: entry_ok_def)

lemma update_in_range:
  "(\<forall>x\<in>snd ` set d. P x) \<Longrightarrow> P v \<Longrightarrow> \<forall>x\<in>snd ` set (AList.update k v d). P x"
  by (induction d) auto

lemma in_play_range:
  assumes "\<forall>c\<in>set (sd_candidates db). P c"
  shows "map_of (skills_in_play db resume) i = Some c \<Longrightarrow> P c"
proof -
  have "\<forall>x\<in>snd ` set (fold (\<lambda>c d. case cs_skill c of Some k \<Rightarrow> if cs_weight c > 0 then AList.update k c d else d | None \<Rightarrow> d) cs d). P x"
    if "\<forall>c\<in>set cs. P c" "\<forall>x\<in>snd ` set d. P x" for cs d
    using that
  proof (induction cs arbitrary: d)
    case (Cons a cs)
    have "\<forall>x\<in>snd ` set (case cs_skill a of Some k \<Rightarrow> if cs_weight a > 0 then AList.update k a d else d | None \<Rightarrow> d). P x"
      using Cons.prems update_in_range[of d P a] by (auto split: option.splits)
    with Cons show ?case by simp
  qed simp
  from this[of "normalized_skills db resume" "[]"] assms
  have "\<forall>x\<in>snd ` set (skills_in_play db resume). P x" by (auto simp: skills_in_play_def normalized_skills_def)
  then show "map_of (skills_in_play db resume) i = Some c \<Longrightarrow> P c" by (force dest: map_of_SomeD)
qed

lemma coverage_row_from:
  assumes "row \<in> set (skill_coverage db jd resume mandatory)"
  obtains j where "j \<in> set (sd_jd db)" "js_jd j = jd" "js_mandatory j = mandatory" "cv_skill row = js_skill j"
    "cv_weight row = js_weight j" "cv_importance row = js_importance j" "cv_mandatory row = mandatory"
    "\<And>w. cv_cand_weight row = Some w \<Longrightarrow> \<exists>c\<in>set (sd_candidates db). cs_weight c = w"
proof -
  from assms obtain j where j: "j \<in> set (sd_jd db)" "js_jd j = jd" "js_mandatory j = mandatory"
    and row: "row \<in> set (case filter (\<lambda>c. cs_skill c = Some (js_skill j) \<and> cs_resume c = resume \<and> cs_weight c > 0) (sd_candidates db) of
          [] \<Rightarrow> [join_row j None] | m # ms \<Rightarrow> map (\<lambda>c. join_row j (Some c)) (m # ms))"
    unfolding skill_coverage_def by auto
  let ?ms = "filter (\<lambda>c. cs_skill c = Some (js_skill j) \<and> cs_resume c = resume \<and> cs_weight c > 0) (sd_candidates db)"
  have "\<exists>m. row = join_row j m \<and> (\<forall>c. m = Some c \<longrightarrow> c \<in> set (sd_candidates db))"
  proof (cases ?ms)
    case Nil
    then show ?thesis using row by (intro exI[of _ None]) simp
  next
    case (Cons m ms)
    then obtain c where "c \<in> set ?ms" "row = join_row j (Some c)" using row by auto
    then show ?thesis by (intro exI[of _ "Some c"]) simp
  qed
  then obtain m where m: "row = join_row j m" "\<And>c. m = Some c \<Longrightarrow> c \<in> set (sd_candidates db)" by blast
  show thesis by (rule that[OF j]) (use m j in \<open>auto simp: join_row_def\<close>)
qed

lemma importance_factor_nonneg:
  "skill_data_ok db \<Longrightarrow> 0 \<le> importance_multiplier imp (sc_core (scoring_configs db)) (sc_supporting (scoring_configs db))"
  by (auto simp: skill_data_ok_def importance_multiplier_def split: option.splits skill_importance.splits)

lemma found_entry_ok:
  assumes "skill_data_ok db" "0 \<le> or_zero (cv_weight row)" "0 \<le> hier" "hier \<le> 1" "0 \<le> cs_weight c" "cs_weight c \<le> 1"
  shows "entry_ok (found_entry (scoring_configs db) hi row mt hier c mn)"
  unfolding found_entry_def using assms importance_factor_nonneg[OF assms(1)] by (intro breakdown_entry_ok) auto

lemma score_one_ok:
  assumes ok: "skill_data_ok db" and row: "row \<in> set (skill_coverage db jd resume True)"
  shows "entry_ok (score_one db (scoring_configs db) hi names (skills_in_play db resume) row)"
proof -
  obtain j where j: "j \<in> set (sd_jd db)" "cv_weight row = js_weight j"
    "\<And>w. cv_cand_weight row = Some w \<Longrightarrow> \<exists>c\<in>set (sd_candidates db). cs_weight c = w"
    using row by (elim coverage_row_from) blast
  have w: "0 \<le> or_zero (cv_weight row)" using ok j by (simp add: skill_data_ok_def)
  have range: "0 \<le> cs_weight c \<and> cs_weight c \<le> 1" if "map_of (skills_in_play db resume) i = Some c" for i c
    using in_play_range[of db "\<lambda>c. 0 \<le> cs_weight c \<and> cs_weight c \<le> 1"] ok that by (auto simp: skill_data_ok_def)
  have al: "0 \<le> cs_weight c \<and> cs_weight c \<le> 1" if "best_alias_match al (skills_in_play db resume) = Some (a, c)" for al a c
    using best_alias_Some(1)[OF that] range by (auto simp: held_def)
  have hm: "0 \<le> cs_weight c \<and> cs_weight c \<le> 1" if "best_hierarchy_match ss (skills_in_play db resume) = Some (s, c)" for ss s c
    using best_hierarchy_Some(1)[OF that] range by (auto simp: held_def)
  have se: "0 \<le> cs_weight c \<and> cs_weight c \<le> 1"
    if "semantic_match db (scoring_configs db) hi i (skills_in_play db resume) = Some (c, m, s)" for i c m s
    using that range by (auto simp: semantic_match_def split: option.splits if_splits)
  have g: "0 \<le> sc_grandchild (scoring_configs db)" "sc_grandchild (scoring_configs db) \<le> 1"
    using ok by (auto simp: skill_data_ok_def)
  have d: "0 \<le> v \<and> v \<le> 1" if "cv_cand_weight row = Some v" for v
    using j(3)[OF that] ok by (auto simp: skill_data_ok_def)
  note found = found_entry_ok[OF ok w]
  show ?thesis
    unfolding score_one_def Let_def
    using w importance_factor_nonneg[OF ok] g
    by (auto split: option.splits intro!: breakdown_entry_ok found dest: al hm se d)
qed

lemma sums_ok:
  assumes "\<forall>e\<in>set es. entry_ok e"
  shows "0 \<le> actual_sum es" "actual_sum es \<le> max_sum es"
  using assms by (induction es) (auto simp: actual_sum_def max_sum_def entry_ok_def)

lemma coverage_pct_range: "0 \<le> coverage_pct es \<and> coverage_pct es \<le> 100"
proof (cases es)
  case (Cons e rest)
  have "rat_of_nat (length (filter covered es)) \<le> of_nat (length es)" by simp
  then show ?thesis
    using ratio_percent[of "of_nat (length (filter covered es))" "of_nat (length es)"] Cons
    by (simp add: coverage_pct_def py_round_percent del: filter.simps)
qed (simp add: coverage_pct_def)

text \<open>
  With weights that are not negative, candidate weights in [0, 1] and
  multipliers in range, every contribution lies between zero and the weight of its
  skill, and the deterministic score and both coverage percentages lie between 0
  and 100.
\<close>

theorem skill_scores_bounded:
  assumes "skill_data_ok db"
  shows "(\<forall>e\<in>set (bd_entries (breakdown_of db jd resume given)). entry_ok e)
    \<and> bd_score (breakdown_of db jd resume given) \<in> {0..100}
    \<and> bd_coverage (breakdown_of db jd resume given) \<in> {0..100}
    \<and> bd_core_coverage (breakdown_of db jd resume given) \<in> {0..100}"
proof -
  have e: "\<forall>e\<in>set (bd_entries (breakdown_of db jd resume given)). entry_ok e"
    using score_one_ok[OF assms] by (auto simp: breakdown_of_def Let_def)
  let ?es = "bd_entries (breakdown_of db jd resume given)"
  have "bd_score (breakdown_of db jd resume given) = (if max_sum ?es > 0 then py_round 2 (actual_sum ?es / max_sum ?es * 100) else 100)"
    by (simp add: breakdown_of_def Let_def)
  then have "bd_score (breakdown_of db jd resume given) \<in> {0..100}"
    using sums_ok[OF e] ratio_percent[of "actual_sum ?es" "max_sum ?es"] py_round_percent by auto
  moreover have "bd_coverage (breakdown_of db jd resume given) = coverage_pct ?es"
    "bd_core_coverage (breakdown_of db jd resume given) = coverage_pct (gate_skills ?es)"
    by (simp_all add: breakdown_of_def Let_def)
  ultimately show ?thesis using e coverage_pct_range by auto
qed

lemma skill_scores_bounded_witness:
  "bd_score (breakdown_of (skill_example [(2, SM_FUZZY)]) 7 9 None) \<in> {0..100}
     \<and> bd_score (breakdown_of (skill_example [(2, SM_FUZZY)]) 7 9 None) = 56"
proof -
  have "skill_data_ok (skill_example [(2, SM_FUZZY)])" by code_simp
  from skill_scores_bounded[OF this, of 7 9 None]
  have "bd_score (breakdown_of (skill_example [(2, SM_FUZZY)]) 7 9 None) \<in> {0..100}" by blast
  moreover have "bd_score (breakdown_of (skill_example [(2, SM_FUZZY)]) 7 9 None) = 56" by code_simp
  ultimately show ?thesis by blast
qed

section \<open>One entry for each skill\<close>

text \<open>The unique index on a resume's canonical skills.\<close>

definition one_skill_each :: "skill_db \<Rightarrow> bool" where
  "one_skill_each db \<longleftrightarrow>
     distinct (map (\<lambda>c. (cs_resume c, cs_skill c)) (filter (\<lambda>c. cs_skill c \<noteq> None) (sd_candidates db)))"

lemma score_one_fields [simp]:
  "en_skill (score_one db sc hi names cand row) = cv_skill row"
  "en_importance (score_one db sc hi names cand row) = cv_importance row"
  by (auto simp: score_one_def Let_def split: option.splits)

lemma distinct_filter_single:
  assumes "distinct (map f xs)" "\<And>x y. x \<in> set xs \<Longrightarrow> y \<in> set xs \<Longrightarrow> P x \<Longrightarrow> P y \<Longrightarrow> f x = f y"
  shows "length (filter P xs) \<le> 1"
  using assms
proof (induction xs)
  case (Cons x xs)
  show ?case
  proof (cases "P x")
    case True
    have "\<not> P y" if "y \<in> set xs" for y using Cons.prems True that by (auto simp: image_iff)
    then have "filter P xs = []" by (simp add: filter_empty_conv)
    then show ?thesis using True by simp
  next
    case False
    then show ?thesis using Cons by simp
  qed
qed simp

lemma coverage_skills:
  assumes "one_skill_each db"
  shows "map cv_skill (skill_coverage db jd resume m) = map js_skill (filter (\<lambda>j. js_jd j = jd \<and> js_mandatory j = m) (sd_jd db))"
proof -
  have one: "length (filter (\<lambda>c. cs_skill c = Some k \<and> cs_resume c = resume \<and> cs_weight c > 0) (sd_candidates db)) \<le> 1" for k
  proof -
    have eq: "filter (\<lambda>c. cs_skill c = Some k \<and> cs_resume c = resume \<and> cs_weight c > 0) (sd_candidates db) =
        filter (\<lambda>c. cs_skill c = Some k \<and> cs_resume c = resume \<and> cs_weight c > 0)
          (filter (\<lambda>c. cs_skill c \<noteq> None) (sd_candidates db))"
      by (induction "sd_candidates db") (auto simp: filter_filter intro: filter_cong)
    show ?thesis unfolding eq
      by (rule distinct_filter_single[OF assms[unfolded one_skill_each_def]]) simp
  qed
  have row: "map cv_skill (case filter (\<lambda>c. cs_skill c = Some (js_skill j) \<and> cs_resume c = resume \<and> cs_weight c > 0) (sd_candidates db) of
          [] \<Rightarrow> [join_row j None] | m # ms \<Rightarrow> map (\<lambda>c. join_row j (Some c)) (m # ms)) = [js_skill j]" for j
    using one[of "js_skill j"] by (auto simp: join_row_def split: list.splits)
  show ?thesis unfolding skill_coverage_def map_concat map_map o_def row
    by (induction "filter (\<lambda>j. js_jd j = jd \<and> js_mandatory j = m) (sd_jd db)") (auto simp: concat_map_singleton)
qed

lemma breakdown_covers_job:
  assumes "one_skill_each db"
  shows "map en_skill (bd_entries (breakdown_of db jd resume given)) = map js_skill (mandatory_jd_skills db jd)"
  using coverage_skills[OF assms, of jd resume True] by (simp add: breakdown_of_def Let_def mandatory_jd_skills_def o_def)

text \<open>The hierarchy depends on the job alone, so loading it once for several resumes is sound.\<close>

lemma hierarchy_shared:
  assumes "one_skill_each db"
  shows "breakdown_of db jd resume (Some (load_hierarchy_for_jd db jd)) = breakdown_of db jd resume None"
  using coverage_skills[OF assms, of jd resume True]
  by (simp add: breakdown_of_def Let_def load_hierarchy_for_jd_def mandatory_jd_skills_def)

text \<open>
  An alias of a required skill counts in full, but only while the
  candidate has no match of the skill itself: a candidate with the alias scores
  100, and the same candidate with one more extracted skill, a fuzzy match of the
  required one, scores 80 and fails a threshold of 90.
\<close>

theorem fuzzy_match_hides_alias:
  "calculate_deterministic_score (skill_example [(4, SM_EXACT)]) 7 9 90 = (100, True)
   \<and> calculate_deterministic_score (skill_example [(4, SM_EXACT), (1, SM_FUZZY)]) 7 9 90 = (80, False)"
proof (rule conjI)
  show "calculate_deterministic_score (skill_example [(4, SM_EXACT)]) 7 9 90 = (100, True)" by code_simp
  show "calculate_deterministic_score (skill_example [(4, SM_EXACT), (1, SM_FUZZY)]) 7 9 90 = (80, False)" by code_simp
qed

end
