(* ===== verification/Education_Matching.thy ===== *)
theory Education_Matching
  imports AIRS_Prelude
begin

text \<open>
  Degree levels, fields of study and the education match:
  \<open>app/enums/education.py\<close> and \<open>app/services/education/education_matching_service.py\<close>.
  Texts are ASCII; a value that is not in a vocabulary is no value, as the
  coercions of the code have it.
\<close>

section \<open>Vocabularies\<close>

datatype degree_level =
    CERTIFICATE | DIPLOMA | ASSOCIATE | BACHELOR | POSTGRADUATE_DIPLOMA | MASTER | DOCTORATE
  | PROFESSIONAL | OTHER_LEVEL | UNKNOWN_LEVEL

fun degree_name :: "degree_level \<Rightarrow> string" where
  "degree_name CERTIFICATE = ''CERTIFICATE''"
| "degree_name DIPLOMA = ''DIPLOMA''"
| "degree_name ASSOCIATE = ''ASSOCIATE''"
| "degree_name BACHELOR = ''BACHELOR''"
| "degree_name POSTGRADUATE_DIPLOMA = ''POSTGRADUATE_DIPLOMA''"
| "degree_name MASTER = ''MASTER''"
| "degree_name DOCTORATE = ''DOCTORATE''"
| "degree_name PROFESSIONAL = ''PROFESSIONAL''"
| "degree_name OTHER_LEVEL = ''OTHER''"
| "degree_name UNKNOWN_LEVEL = ''UNKNOWN''"

definition all_levels :: "degree_level list" where
  "all_levels = [CERTIFICATE, DIPLOMA, ASSOCIATE, BACHELOR, POSTGRADUATE_DIPLOMA, MASTER, DOCTORATE,
     PROFESSIONAL, OTHER_LEVEL, UNKNOWN_LEVEL]"

definition coerce_level :: "string option \<Rightarrow> degree_level option" where
  "coerce_level v = (case v of None \<Rightarrow> None | Some s \<Rightarrow> find (\<lambda>l. degree_name l = s) all_levels)"

definition degree_level_rank :: "degree_level \<Rightarrow> nat option" where
  "degree_level_rank l = map_of
     [(CERTIFICATE, 1), (DIPLOMA, 2), (ASSOCIATE, 3), (BACHELOR, 4), (POSTGRADUATE_DIPLOMA, 5), (MASTER, 6), (DOCTORATE, 7)] l"

datatype education_field =
    COMPUTER_SCIENCE | INFORMATION_TECHNOLOGY | SOFTWARE_ENGINEERING | DATA_SCIENCE
  | ELECTRONICS_ENGINEERING | ELECTRICAL_ENGINEERING | MECHANICAL_ENGINEERING | CIVIL_ENGINEERING
  | MATHEMATICS | STATISTICS | BUSINESS_ADMINISTRATION | COMMERCE | ECONOMICS | OTHER_FIELD | UNKNOWN_FIELD

fun field_name :: "education_field \<Rightarrow> string" where
  "field_name COMPUTER_SCIENCE = ''COMPUTER_SCIENCE''"
| "field_name INFORMATION_TECHNOLOGY = ''INFORMATION_TECHNOLOGY''"
| "field_name SOFTWARE_ENGINEERING = ''SOFTWARE_ENGINEERING''"
| "field_name DATA_SCIENCE = ''DATA_SCIENCE''"
| "field_name ELECTRONICS_ENGINEERING = ''ELECTRONICS_ENGINEERING''"
| "field_name ELECTRICAL_ENGINEERING = ''ELECTRICAL_ENGINEERING''"
| "field_name MECHANICAL_ENGINEERING = ''MECHANICAL_ENGINEERING''"
| "field_name CIVIL_ENGINEERING = ''CIVIL_ENGINEERING''"
| "field_name MATHEMATICS = ''MATHEMATICS''"
| "field_name STATISTICS = ''STATISTICS''"
| "field_name BUSINESS_ADMINISTRATION = ''BUSINESS_ADMINISTRATION''"
| "field_name COMMERCE = ''COMMERCE''"
| "field_name ECONOMICS = ''ECONOMICS''"
| "field_name OTHER_FIELD = ''OTHER''"
| "field_name UNKNOWN_FIELD = ''UNKNOWN''"

definition all_fields :: "education_field list" where
  "all_fields = [COMPUTER_SCIENCE, INFORMATION_TECHNOLOGY, SOFTWARE_ENGINEERING, DATA_SCIENCE,
     ELECTRONICS_ENGINEERING, ELECTRICAL_ENGINEERING, MECHANICAL_ENGINEERING, CIVIL_ENGINEERING,
     MATHEMATICS, STATISTICS, BUSINESS_ADMINISTRATION, COMMERCE, ECONOMICS, OTHER_FIELD, UNKNOWN_FIELD]"

definition coerce_field :: "string option \<Rightarrow> education_field option" where
  "coerce_field v = (case v of None \<Rightarrow> None | Some s \<Rightarrow> find (\<lambda>f. field_name f = s) all_fields)"

fun related_fields :: "education_field \<Rightarrow> education_field list" where
  "related_fields COMPUTER_SCIENCE = [INFORMATION_TECHNOLOGY, SOFTWARE_ENGINEERING, DATA_SCIENCE]"
| "related_fields INFORMATION_TECHNOLOGY = [COMPUTER_SCIENCE, SOFTWARE_ENGINEERING, DATA_SCIENCE]"
| "related_fields SOFTWARE_ENGINEERING = [COMPUTER_SCIENCE, INFORMATION_TECHNOLOGY, DATA_SCIENCE]"
| "related_fields DATA_SCIENCE = [COMPUTER_SCIENCE, INFORMATION_TECHNOLOGY, STATISTICS, MATHEMATICS]"
| "related_fields ELECTRONICS_ENGINEERING = [ELECTRICAL_ENGINEERING]"
| "related_fields ELECTRICAL_ENGINEERING = [ELECTRONICS_ENGINEERING]"
| "related_fields STATISTICS = [MATHEMATICS, DATA_SCIENCE]"
| "related_fields MATHEMATICS = [STATISTICS, DATA_SCIENCE]"
| "related_fields COMMERCE = [BUSINESS_ADMINISTRATION, ECONOMICS]"
| "related_fields BUSINESS_ADMINISTRATION = [COMMERCE, ECONOMICS]"
| "related_fields ECONOMICS = [COMMERCE, BUSINESS_ADMINISTRATION]"
| "related_fields f = []"

datatype education_match =
    FULL_MATCH | RELATED_FIELD_MATCH | DEGREE_LEVEL_EXCEEDS | PARTIAL_MATCH | DEGREE_LEVEL_MISMATCH
  | DISCIPLINE_MISMATCH | NO_EDUCATION_DATA | UNKNOWN_MATCH

section \<open>Classification of texts\<close>

text \<open>\<open>needle in hay\<close>.\<close>

fun occurs_in :: "string \<Rightarrow> string \<Rightarrow> bool" where
  "occurs_in needle [] = (needle = [])"
| "occurs_in needle (c # cs) = (take (length needle) (c # cs) = needle \<or> occurs_in needle cs)"

definition degree_level_keywords :: "(degree_level \<times> string list) list" where
  "degree_level_keywords =
     [(CERTIFICATE, [''certificate'']), (DIPLOMA, [''diploma'']), (ASSOCIATE, [''associate'']),
      (BACHELOR, [''bachelor'', ''b.tech'', ''btech'', ''b.e.'', '' be '', ''b.sc'', ''bsc'', ''bca'', ''b.a.'',
                  '' ba '', ''b.com'', ''bcom'', ''undergraduate'']),
      (POSTGRADUATE_DIPLOMA, [''postgraduate diploma'', ''post graduate diploma'', ''pg diploma'', ''pgdm'',
                  ''graduate diploma'']),
      (MASTER, [''master'', ''m.tech'', ''mtech'', ''m.e.'', '' me '', ''m.sc'', ''msc'', ''mca'', ''mba'', ''m.a.'',
                '' ma '', ''m.com'', ''mcom'']),
      (DOCTORATE, [''phd'', ''ph.d'', ''doctorate'', ''doctor of philosophy'', ''d.phil''])]"

definition professional_keywords :: "string list" where
  "professional_keywords = [''pmp'', ''cpa'', ''cfa'', ''professional certification'', ''chartered'']"

definition field_keywords :: "(education_field \<times> string list) list" where
  "field_keywords =
     [(COMPUTER_SCIENCE, [''computer science'', ''computer engineering'', ''cse'']),
      (INFORMATION_TECHNOLOGY, [''information technology'', ''information systems'', '' it '']),
      (SOFTWARE_ENGINEERING, [''software engineering'']),
      (DATA_SCIENCE, [''data science'', ''data analytics'']),
      (ELECTRONICS_ENGINEERING, [''electronics and communication'', ''electronics'', ''ece'']),
      (ELECTRICAL_ENGINEERING, [''electrical engineering'', ''electrical and electronics'', ''eee'']),
      (MECHANICAL_ENGINEERING, [''mechanical engineering'', ''mechanical'']),
      (CIVIL_ENGINEERING, [''civil engineering'', ''civil'']),
      (MATHEMATICS, [''mathematics'', ''applied math'']),
      (STATISTICS, [''statistics'', ''biostatistics'']),
      (BUSINESS_ADMINISTRATION, [''business administration'', ''management studies'']),
      (COMMERCE, [''commerce'', ''b.com'', ''m.com'']),
      (ECONOMICS, [''economics''])]"

definition any_keyword :: "string list \<Rightarrow> string \<Rightarrow> bool" where
  "any_keyword ks s \<longleftrightarrow> list_ex (\<lambda>k. occurs_in k s) ks"

text \<open>The loop over the tiers: a later tier replaces an earlier one of lower rank.\<close>

fun best_level :: "(degree_level \<times> string list) list \<Rightarrow> string \<Rightarrow> int \<Rightarrow> degree_level option \<Rightarrow> degree_level option" where
  "best_level [] s best_rank best = best"
| "best_level ((l, ks) # rest) s best_rank best =
     (case degree_level_rank l of
        Some r \<Rightarrow> if any_keyword ks s \<and> int r > best_rank then best_level rest s (int r) (Some l)
                  else best_level rest s best_rank best
      | None \<Rightarrow> best_level rest s best_rank best)"

definition classify_degree_level :: "string option \<Rightarrow> degree_level" where
  "classify_degree_level text =
     (case text of
        None \<Rightarrow> UNKNOWN_LEVEL
      | Some t \<Rightarrow>
          if t = [] then UNKNOWN_LEVEL
          else let lowered = '' '' @ lower t @ '' '' in
            (case best_level degree_level_keywords lowered (- 1) None of
               Some l \<Rightarrow> l
             | None \<Rightarrow> if any_keyword professional_keywords lowered then PROFESSIONAL else UNKNOWN_LEVEL))"

definition classify_field :: "string option \<Rightarrow> education_field" where
  "classify_field text =
     (case text of
        None \<Rightarrow> UNKNOWN_FIELD
      | Some t \<Rightarrow>
          if t = [] then UNKNOWN_FIELD
          else (case find (\<lambda>(f, ks). any_keyword ks (lower t)) field_keywords of
                  Some (f, ks) \<Rightarrow> f | None \<Rightarrow> UNKNOWN_FIELD))"

definition related_field_allowed :: "string option \<Rightarrow> bool" where
  "related_field_allowed text =
     (case text of
        None \<Rightarrow> False
      | Some t \<Rightarrow> t \<noteq> [] \<and>
          any_keyword [''or related'', ''or equivalent'', ''or similar'', ''related field'', ''related discipline''] (lower t))"

section \<open>Matching\<close>

text \<open>An education entry of a resume, or the education criteria of a job.\<close>

record education_entry =
  ee_level :: "string option"
  ee_degree :: "string option"
  ee_field_value :: "string option"
  ee_field :: "string option"

record education_requirement =
  er_level :: degree_level
  er_field :: education_field
  er_related :: bool

definition jd_requirement :: "education_entry option \<Rightarrow> education_requirement" where
  "jd_requirement criteria =
     (let degree = Option.bind criteria ee_degree; field = Option.bind criteria ee_field
      in \<lparr>er_level = classify_degree_level degree, er_field = classify_field field, er_related = related_field_allowed field\<rparr>)"

definition candidate_education :: "education_entry \<Rightarrow> degree_level \<times> education_field" where
  "candidate_education e =
     ((case coerce_level (ee_level e) of
         None \<Rightarrow> classify_degree_level (ee_degree e)
       | Some l \<Rightarrow> if l = UNKNOWN_LEVEL then classify_degree_level (ee_degree e) else l),
      (case coerce_field (ee_field_value e) of
         None \<Rightarrow> classify_field (ee_field e)
       | Some f \<Rightarrow> if f = UNKNOWN_FIELD then classify_field (ee_field e) else f))"

definition match_education ::
    "degree_level \<Rightarrow> education_field \<Rightarrow> bool \<Rightarrow> degree_level \<Rightarrow> education_field \<Rightarrow> education_match" where
  "match_education rl rf related cl cf =
     (if rl = UNKNOWN_LEVEL then UNKNOWN_MATCH
      else
        (case (degree_level_rank rl, degree_level_rank cl) of
           (Some r, Some c) \<Rightarrow>
             if c < r then DEGREE_LEVEL_MISMATCH
             else if rf = UNKNOWN_FIELD \<or> cf = rf then (if c = r then FULL_MATCH else DEGREE_LEVEL_EXCEEDS)
             else if related \<and> cf \<in> set (related_fields rf) then RELATED_FIELD_MATCH
             else DISCIPLINE_MISMATCH
         | _ \<Rightarrow> PARTIAL_MATCH))"

fun result_quality :: "education_match \<Rightarrow> nat option" where
  "result_quality FULL_MATCH = Some 5"
| "result_quality DEGREE_LEVEL_EXCEEDS = Some 4"
| "result_quality RELATED_FIELD_MATCH = Some 3"
| "result_quality PARTIAL_MATCH = Some 2"
| "result_quality DEGREE_LEVEL_MISMATCH = Some 1"
| "result_quality DISCIPLINE_MISMATCH = Some 0"
| "result_quality m = None"

record education_verdict =
  ev_result :: education_match
  ev_required :: education_requirement
  ev_candidate :: "(degree_level \<times> education_field) option"
  ev_index :: "nat option"

text \<open>The loop over the entries keeps the first one of the best quality.\<close>

fun best_entry ::
    "education_requirement \<Rightarrow> nat \<Rightarrow> education_entry list
     \<Rightarrow> (education_match \<times> nat \<times> degree_level \<times> education_field) option
     \<Rightarrow> (education_match \<times> nat \<times> degree_level \<times> education_field) option" where
  "best_entry q i [] best = best"
| "best_entry q i (e # es) best =
     (let n = candidate_education e;
          r = match_education (er_level q) (er_field q) (er_related q) (fst n) (snd n)
      in best_entry q (Suc i) es
           (case best of
              None \<Rightarrow> Some (r, i, n)
            | Some (b, k) \<Rightarrow>
                (case (result_quality r, result_quality b) of
                   (Some x, Some y) \<Rightarrow> if x > y then Some (r, i, n) else best
                 | _ \<Rightarrow> best)))"

definition evaluate_candidate_education ::
    "education_entry option \<Rightarrow> education_entry list \<Rightarrow> education_verdict" where
  "evaluate_candidate_education criteria entries =
     (let q = jd_requirement criteria in
      if er_level q = UNKNOWN_LEVEL then \<lparr>ev_result = UNKNOWN_MATCH, ev_required = q, ev_candidate = None, ev_index = None\<rparr>
      else
        (case best_entry q 0 entries None of
           None \<Rightarrow> \<lparr>ev_result = NO_EDUCATION_DATA, ev_required = q, ev_candidate = None, ev_index = None\<rparr>
         | Some (r, i, n) \<Rightarrow> \<lparr>ev_result = r, ev_required = q, ev_candidate = Some n, ev_index = Some i\<rparr>))"

section \<open>Properties\<close>

text \<open>Every result that the loop compares has a quality rank.\<close>

lemma match_ranked: "rl \<noteq> UNKNOWN_LEVEL \<Longrightarrow> result_quality (match_education rl rf related cl cf) \<noteq> None"
  by (auto simp: match_education_def split: option.splits)

text \<open>
  The relation of fields, documented as symmetric, is not: a data
  science degree counts as related for a software engineering job, a software
  engineering degree does not for a data science job, and this is the only pair of
  fields on which the two directions differ.
\<close>

theorem related_fields_one_sided:
  "{(f, g). f \<in> set (related_fields g) \<and> g \<notin> set (related_fields f)} = {(DATA_SCIENCE, SOFTWARE_ENGINEERING)}
   \<and> match_education BACHELOR SOFTWARE_ENGINEERING True BACHELOR DATA_SCIENCE = RELATED_FIELD_MATCH
   \<and> match_education BACHELOR DATA_SCIENCE True BACHELOR SOFTWARE_ENGINEERING = DISCIPLINE_MISMATCH"
proof (intro conjI)
  have "f = DATA_SCIENCE \<and> g = SOFTWARE_ENGINEERING" if "f \<in> set (related_fields g)" "g \<notin> set (related_fields f)" for f g
    using that by (cases g; auto)
  then show "{(f, g). f \<in> set (related_fields g) \<and> g \<notin> set (related_fields f)} = {(DATA_SCIENCE, SOFTWARE_ENGINEERING)}"
    by auto
qed (simp_all add: match_education_def degree_level_rank_def)

end
