(* ===== verification/Experience_Education.thy ===== *)
theory Experience_Education
  imports Education_Matching Score_Rounding
begin

text \<open>
  The experience and education checks of the deterministic layer:
  \<open>app/services/campaign/experience_education_validation_service.py\<close>, with the
  durations that feed it, \<open>app/services/resume/work_experience_duration.py\<close>.
  Reading a date and counting the months between two dates are \<open>dateutil\<close>'s:
  \<open>parse\<close> and \<open>months\<close> are parameters.
\<close>

section \<open>Durations\<close>

record work_entry =
  we_start :: "string option"
  we_end :: "string option"
  we_current :: bool
  we_internship :: bool
  we_volunteer :: bool

definition current_markers :: "string list" where
  "current_markers = [''present'', ''current'', ''till date'', ''ongoing'', ''now'', ''till now'']"

definition parse_month :: "(string \<Rightarrow> int option) \<Rightarrow> string option \<Rightarrow> int option" where
  "parse_month parse d =
     (case d of None \<Rightarrow> None | Some s \<Rightarrow> if strip s = [] then None else parse (strip s))"

definition entry_months ::
    "(string \<Rightarrow> int option) \<Rightarrow> (int \<Rightarrow> int \<Rightarrow> int) \<Rightarrow> int \<Rightarrow> work_entry \<Rightarrow> int option" where
  "entry_months parse months now e =
     (case parse_month parse (we_start e) of
        None \<Rightarrow> None
      | Some start \<Rightarrow>
          let raw = lower (strip (case we_end e of None \<Rightarrow> [] | Some s \<Rightarrow> s));
              finish = (if we_current e \<or> raw \<in> set current_markers \<or> raw = [] then Some now
                        else parse_month parse (we_end e))
          in (case finish of
                None \<Rightarrow> None
              | Some f \<Rightarrow> if months f start < 0 then None else Some (months f start)))"

text \<open>\<open>total_experience_years\<close> of the annotated resume; the extracted figure stays if nothing counts.\<close>

definition total_experience ::
    "(string \<Rightarrow> int option) \<Rightarrow> (int \<Rightarrow> int \<Rightarrow> int) \<Rightarrow> int \<Rightarrow> work_entry list \<Rightarrow> rat option \<Rightarrow> rat option" where
  "total_experience parse months now entries extracted =
     (let countable = List.map_filter (\<lambda>e. if we_internship e \<or> we_volunteer e then None else entry_months parse months now e) entries
      in if countable = [] then extracted else Some (py_round 1 (of_int (sum_list countable) / 12)))"

section \<open>Experience\<close>

record experience_result =
  xr_applicable :: bool
  xr_skipped :: bool
  xr_missing :: bool
  xr_passed :: bool
  xr_score :: "rat option"
  xr_candidate :: "rat option"
  xr_min :: "rat option"
  xr_effective :: "rat option"

definition validate_experience ::
    "rat \<Rightarrow> rat option \<Rightarrow> rat option \<Rightarrow> rat option \<Rightarrow> experience_result" where
  "validate_experience tolerance min_years years extracted_min =
     (case (case extracted_min of Some m \<Rightarrow> Some m | None \<Rightarrow> min_years) of
        None \<Rightarrow> \<lparr>xr_applicable = False, xr_skipped = True, xr_missing = False, xr_passed = True, xr_score = Some 100,
                 xr_candidate = years, xr_min = None, xr_effective = None\<rparr>
      | Some m \<Rightarrow>
          (case years of
             None \<Rightarrow> \<lparr>xr_applicable = False, xr_skipped = False, xr_missing = True, xr_passed = True, xr_score = None,
                      xr_candidate = None, xr_min = Some m, xr_effective = None\<rparr>
           | Some y \<Rightarrow>
               let eff = max (m - tolerance) 0; passed = (y \<ge> eff);
                   score = (if passed then 100 else if eff > 0 then py_round 2 (y / eff * 100) else 100)
               in \<lparr>xr_applicable = True, xr_skipped = False, xr_missing = False, xr_passed = passed, xr_score = Some score,
                   xr_candidate = Some y, xr_min = Some m, xr_effective = Some eff\<rparr>))"

section \<open>Education\<close>

record education_result =
  dr_applicable :: bool
  dr_skipped :: bool
  dr_missing :: bool
  dr_passed :: bool
  dr_score :: "rat option"
  dr_required :: "degree_level option"
  dr_candidate :: "degree_level option"
  dr_equivalent :: bool
  dr_required_text :: "string option"
  dr_candidate_text :: "string option"

definition rank_level :: "degree_level \<Rightarrow> (nat \<times> degree_level) option" where
  "rank_level l = map_option (\<lambda>r. (r, l)) (degree_level_rank l)"

text \<open>The extracted level if it is known, else the classified text.\<close>

definition level_of :: "string option \<Rightarrow> string option \<Rightarrow> (nat \<times> degree_level) option" where
  "level_of value text =
     rank_level (case coerce_level value of
        None \<Rightarrow> classify_degree_level text
      | Some l \<Rightarrow> if l = UNKNOWN_LEVEL then classify_degree_level text else l)"

definition required_level :: "string option \<Rightarrow> education_entry option \<Rightarrow> (nat \<times> degree_level) option" where
  "required_level text extracted = level_of (Option.bind extracted ee_level) text"

definition candidate_level :: "education_entry \<Rightarrow> (nat \<times> degree_level) option" where
  "candidate_level e = level_of (ee_level e) (ee_degree e)"

definition ranked_entries :: "education_entry list \<Rightarrow> ((nat \<times> degree_level) \<times> education_entry) list" where
  "ranked_entries es = List.map_filter (\<lambda>e. map_option (\<lambda>l. (l, e)) (candidate_level e)) es"

definition best_ranked :: "education_entry list \<Rightarrow> ((nat \<times> degree_level) \<times> education_entry) option" where
  "best_ranked es = first_max (\<lambda>p. fst (fst p)) (ranked_entries es)"

definition best_degree_text :: "education_entry list \<Rightarrow> string option" where
  "best_degree_text es =
     (case best_ranked es of
        Some (l, e) \<Rightarrow> ee_degree e
      | None \<Rightarrow> (case es of [] \<Rightarrow> None | e # rest \<Rightarrow> ee_degree e))"

definition meets_equivalent :: "rat option \<Rightarrow> rat option \<Rightarrow> bool" where
  "meets_equivalent equivalent years =
     (case (equivalent, years) of (Some q, Some y) \<Rightarrow> y \<ge> q | _ \<Rightarrow> False)"

text \<open>Python's \<open>a or b\<close> on optional strings.\<close>

definition or_text :: "string option \<Rightarrow> string option \<Rightarrow> string option" where
  "or_text a b = (case a of None \<Rightarrow> b | Some s \<Rightarrow> if s = [] then b else a)"

definition validate_education ::
    "rat option \<Rightarrow> string option \<Rightarrow> education_entry list \<Rightarrow> rat option \<Rightarrow> education_entry option \<Rightarrow> education_result" where
  "validate_education equivalent required_text entries years extracted =
     (let shown = or_text required_text (Option.bind extracted ee_degree); cand_shown = best_degree_text entries in
      (case required_level required_text extracted of
         None \<Rightarrow>
           \<lparr>dr_applicable = False, dr_skipped = True, dr_missing = False, dr_passed = True, dr_score = Some 100,
            dr_required = None, dr_candidate = None, dr_equivalent = False, dr_required_text = shown,
            dr_candidate_text = cand_shown\<rparr>
       | Some (rr, rl) \<Rightarrow>
           (case best_ranked entries of
              None \<Rightarrow>
                let ok = meets_equivalent equivalent years in
                \<lparr>dr_applicable = ok, dr_skipped = False, dr_missing = True, dr_passed = True,
                 dr_score = (if ok then Some 100 else None), dr_required = Some rl, dr_candidate = None,
                 dr_equivalent = ok, dr_required_text = shown, dr_candidate_text = cand_shown\<rparr>
            | Some ((cr, cl), e) \<Rightarrow>
                let by_degree = (cr \<ge> rr); by_years = (\<not> by_degree \<and> meets_equivalent equivalent years);
                    passed = (by_degree \<or> by_years) in
                \<lparr>dr_applicable = True, dr_skipped = False, dr_missing = False, dr_passed = passed,
                 dr_score = Some (if passed then 100 else py_round 2 (of_nat cr / of_nat rr * 100)),
                 dr_required = Some rl, dr_candidate = Some cl, dr_equivalent = by_years,
                 dr_required_text = shown, dr_candidate_text = or_text (ee_degree e) cand_shown\<rparr>)))"

section \<open>What the blend relies on\<close>

lemma degree_rank_pos: "degree_level_rank l = Some r \<Longrightarrow> 0 < r"
  by (auto simp: degree_level_rank_def split: if_splits)

lemma level_of_pos: "level_of v t = Some (r, l) \<Longrightarrow> 0 < r"
  by (auto simp: level_of_def rank_level_def intro: degree_rank_pos)

lemma experience_score_ok:
  assumes "\<forall>y. years = Some y \<longrightarrow> 0 \<le> y"
  shows "xr_applicable (validate_experience tol m years x) \<Longrightarrow>
      \<exists>s. xr_score (validate_experience tol m years x) = Some s \<and> 0 \<le> s \<and> s \<le> 100"
    "\<not> xr_applicable (validate_experience tol m years x) \<Longrightarrow> xr_passed (validate_experience tol m years x)"
    "xr_applicable (validate_experience tol m years x) \<Longrightarrow> xr_passed (validate_experience tol m years x)
      \<Longrightarrow> xr_score (validate_experience tol m years x) = Some 100"
proof -
  have range: "0 \<le> py_round 2 (y / e * 100) \<and> py_round 2 (y / e * 100) \<le> 100" if "0 \<le> y" "y < e" "0 < e" for y e :: rat
    by (rule py_round_percent) (use that in \<open>simp_all add: field_simps\<close>)
  show "\<exists>s. xr_score (validate_experience tol m years x) = Some s \<and> 0 \<le> s \<and> s \<le> 100"
    if "xr_applicable (validate_experience tol m years x)"
    using that assms range by (auto simp: validate_experience_def Let_def split: option.splits if_splits)
  show "xr_passed (validate_experience tol m years x)" if "\<not> xr_applicable (validate_experience tol m years x)"
    using that by (auto simp: validate_experience_def Let_def split: option.splits)
  show "xr_score (validate_experience tol m years x) = Some 100"
    if "xr_applicable (validate_experience tol m years x)" "xr_passed (validate_experience tol m years x)"
    using that by (auto simp: validate_experience_def Let_def split: option.splits)
qed

lemma education_score_ok:
  "dr_applicable (validate_education q t es years x) \<Longrightarrow>
      \<exists>s. dr_score (validate_education q t es years x) = Some s \<and> 0 \<le> s \<and> s \<le> 100"
  "\<not> dr_applicable (validate_education q t es years x) \<Longrightarrow> dr_passed (validate_education q t es years x)"
  "dr_applicable (validate_education q t es years x) \<Longrightarrow> dr_passed (validate_education q t es years x)
      \<Longrightarrow> dr_score (validate_education q t es years x) = Some 100"
proof -
  have range: "0 \<le> py_round 2 (of_nat c / of_nat r * 100) \<and> py_round 2 (of_nat c / of_nat r * 100) \<le> (100 :: rat)"
    if "c < r" for c r :: nat
    by (rule py_round_percent) (use that in \<open>simp_all add: field_simps\<close>)
  show "\<exists>s. dr_score (validate_education q t es years x) = Some s \<and> 0 \<le> s \<and> s \<le> 100"
    if "dr_applicable (validate_education q t es years x)"
    using that range by (auto simp: validate_education_def Let_def not_le split: option.splits if_splits prod.splits)
  show "dr_passed (validate_education q t es years x)" if "\<not> dr_applicable (validate_education q t es years x)"
    using that by (auto simp: validate_education_def Let_def split: option.splits prod.splits)
  show "dr_score (validate_education q t es years x) = Some 100"
    if "dr_applicable (validate_education q t es years x)" "dr_passed (validate_education q t es years x)"
    using that by (auto simp: validate_education_def Let_def split: option.splits prod.splits)
qed

text \<open>Two jobs held at the same time count twice: a year of two parallel jobs is two years.\<close>

lemma parallel_jobs_count_twice:
  "total_experience (\<lambda>s. if s = ''2023-01'' then Some 0 else Some 12) (\<lambda>e s. e - s) 12
     [\<lparr>we_start = Some ''2023-01'', we_end = Some ''2024-01'', we_current = False, we_internship = False, we_volunteer = False\<rparr>,
      \<lparr>we_start = Some ''2023-01'', we_end = Some ''2024-01'', we_current = False, we_internship = False, we_volunteer = False\<rparr>] None
   = Some 2"
  by code_simp

end
