(* ===== verification/Domain_Matching.thy ===== *)
theory Domain_Matching
  imports Score_Rounding
begin

text \<open>
  The match of a job's domain capabilities with the sentences of a resume:
  \<open>app/services/campaign/domain_capability_matching_service.py\<close>.  Texts are ASCII, so
  of the bullet characters that split sentences only \<open>.\<close>, \<open>;\<close>, \<open>|\<close> and the line breaks
  occur.  The similarity ratio of two words is \<open>rapidfuzz\<close>'s: the parameter \<open>ratio\<close>.
\<close>

section \<open>Words\<close>

definition is_alnum :: "char \<Rightarrow> bool" where
  "is_alnum c = (let n = (of_char c :: nat) in (48 \<le> n \<and> n \<le> 57) \<or> (65 \<le> n \<and> n \<le> 90) \<or> (97 \<le> n \<and> n \<le> 122))"

definition token_char :: "char \<Rightarrow> bool" where
  "token_char c \<longleftrightarrow> is_alnum c \<or> c = CHR ''+'' \<or> c = CHR ''#''"

text \<open>\<open>[A-Za-z0-9][A-Za-z0-9+#]*\<close>, all matches from the left.\<close>

function tokens :: "string \<Rightarrow> string list" where
  "tokens [] = []"
| "tokens (c # cs) =
     (if is_alnum c then (c # takeWhile token_char cs) # tokens (dropWhile token_char cs) else tokens cs)"
  by pat_completeness auto
termination by (relation "measure length") (auto simp: le_imp_less_Suc length_dropWhile_le)

definition stopwords :: "string list" where
  "stopwords = [''a'', ''an'', ''and'', ''or'', ''of'', ''the'', ''for'', ''to'', ''in'', ''on'', ''with'', ''by'', ''at'', ''as'', ''via'']"

definition content_tokens :: "string \<Rightarrow> string list" where
  "content_tokens text = filter (\<lambda>t. lower t \<notin> set stopwords \<and> length t > 1) (tokens text)"

definition suffix_list :: "string list" where
  "suffix_list = [''ations'', ''ation'', ''ments'', ''ment'', ''ings'', ''ing'', ''ies'', ''es'', ''ed'', ''s'']"

definition ends_with :: "string \<Rightarrow> string \<Rightarrow> bool" where
  "ends_with suffix s \<longleftrightarrow> length suffix \<le> length s \<and> drop (length s - length suffix) s = suffix"

definition stem :: "string \<Rightarrow> string" where
  "stem token =
     (let t = lower token;
          t1 = (case find (\<lambda>x. ends_with x t \<and> length t - length x \<ge> 4) suffix_list of
                  Some x \<Rightarrow> take (length t - length x) t | None \<Rightarrow> t)
      in if length t1 > 4 \<and> t1 ! (length t1 - 1) = t1 ! (length t1 - 2) then butlast t1 else t1)"

fun common_prefix :: "string \<Rightarrow> string \<Rightarrow> nat" where
  "common_prefix (a # as) (b # bs) = (if a = b then Suc (common_prefix as bs) else 0)"
| "common_prefix as bs = 0"

definition tokens_match :: "(string \<Rightarrow> string \<Rightarrow> rat) \<Rightarrow> string \<Rightarrow> string \<Rightarrow> bool" where
  "tokens_match ratio a b \<longleftrightarrow>
     (let shortest = min (length a) (length b); p = common_prefix a b in
      a = b
      \<or> (shortest \<ge> 4 \<and> p \<ge> 4 \<and> of_nat p \<ge> (8 / 10 :: rat) * of_nat shortest)
      \<or> (shortest \<ge> 5 \<and> ratio a b \<ge> 88))"

section \<open>Sentences\<close>

definition chunk_break :: "char \<Rightarrow> bool" where
  "chunk_break c \<longleftrightarrow> c \<in> set [CHR ''.'', CHR '';'', CHR ''|'', char_of (10 :: nat), char_of (13 :: nat)]"

function chunks_of :: "string \<Rightarrow> string list" where
  "chunks_of s =
     (case dropWhile (\<lambda>c. \<not> chunk_break c) s of
        [] \<Rightarrow> [takeWhile (\<lambda>c. \<not> chunk_break c) s]
      | c # rest \<Rightarrow> takeWhile (\<lambda>c. \<not> chunk_break c) s # chunks_of (dropWhile chunk_break rest))"
  by pat_completeness auto
termination
proof (relation "measure length")
  fix s :: string and c rest
  assume "dropWhile (\<lambda>c. \<not> chunk_break c) s = c # rest"
  then have "length (c # rest) \<le> length s" by (metis length_dropWhile_le)
  moreover have "length (dropWhile chunk_break rest) \<le> length rest" by (rule length_dropWhile_le)
  ultimately show "(dropWhile chunk_break rest, s) \<in> measure length" by simp
qed simp

text \<open>A resume: the summary, and title or name and description of each entry.\<close>

record resume_text =
  rt_summary :: "string option"
  rt_work :: "(string option \<times> string option) list"
  rt_projects :: "(string option \<times> string option) list"

definition opt_list :: "'a option \<Rightarrow> 'a list" where
  "opt_list x = (case x of None \<Rightarrow> [] | Some v \<Rightarrow> [v])"

definition evidence_chunks :: "resume_text \<Rightarrow> string list" where
  "evidence_chunks r =
     (let entries = concat (map (\<lambda>(a, b). opt_list a @ opt_list b) (rt_work r @ rt_projects r));
          texts = opt_list (rt_summary r) @ entries
      in filter (\<lambda>c. c \<noteq> []) (map strip (concat (map chunks_of texts))))"

section \<open>Capabilities\<close>

text \<open>The contents of \<open>\\(([^)]*)\\)\<close>, and the text with every match replaced by a blank.\<close>

fun parentheses :: "string \<Rightarrow> string option \<Rightarrow> string list \<times> string" where
  "parentheses [] None = ([], [])"
| "parentheses [] (Some inner) = ([], CHR ''('' # rev inner)"
| "parentheses (c # cs) None =
     (if c = CHR ''('' \<and> CHR '')'' \<in> set cs then parentheses cs (Some [])
      else let (ps, rest) = parentheses cs None in (ps, c # rest))"
| "parentheses (c # cs) (Some inner) =
     (if c = CHR '')'' then let (ps, rest) = parentheses cs None in (rev inner # ps, CHR '' '' # rest)
      else parentheses cs (Some (c # inner)))"

definition acronyms :: "string \<Rightarrow> string list" where
  "acronyms capability =
     filter (\<lambda>a. a \<noteq> [] \<and> CHR '' '' \<notin> set a) (map strip (fst (parentheses capability None)))"

definition word_char :: "char \<Rightarrow> bool" where
  "word_char c \<longleftrightarrow> is_alnum c \<or> c = CHR ''_''"

text \<open>Is there a word boundary (\<open>\\b\<close>) between the two neighbours?\<close>

definition boundary :: "char option \<Rightarrow> char option \<Rightarrow> bool" where
  "boundary a b \<longleftrightarrow> (case a of None \<Rightarrow> False | Some c \<Rightarrow> word_char c) \<noteq> (case b of None \<Rightarrow> False | Some c \<Rightarrow> word_char c)"

definition first_char :: "string \<Rightarrow> char option" where
  "first_char s = (case s of [] \<Rightarrow> None | c # cs \<Rightarrow> Some c)"

fun whole_word :: "string \<Rightarrow> char option \<Rightarrow> string \<Rightarrow> bool" where
  "whole_word w before [] = False"
| "whole_word w before (c # cs) =
     ((take (length w) (c # cs) = w \<and> boundary before (Some c)
        \<and> boundary (if w = [] then before else Some (last w)) (first_char (drop (length w) (c # cs))))
      \<or> whole_word w (Some c) cs)"

record chunk =
  ch_text :: string
  ch_stems :: "string list"
  ch_lower :: string

definition stemmed_chunk :: "string \<Rightarrow> chunk" where
  "stemmed_chunk s = \<lparr>ch_text = s, ch_stems = map stem (content_tokens s), ch_lower = lower s\<rparr>"

definition matched_share :: "(string \<Rightarrow> string \<Rightarrow> rat) \<Rightarrow> string list \<Rightarrow> chunk \<Rightarrow> rat" where
  "matched_share ratio stems ch =
     of_nat (length (filter (\<lambda>c. list_ex (tokens_match ratio c) (ch_stems ch)) stems)) / of_nat (length stems)"

text \<open>The loop over the sentences, left as soon as the score is 1.\<close>

fun best_chunk ::
    "(string \<Rightarrow> string \<Rightarrow> rat) \<Rightarrow> string list \<Rightarrow> string list \<Rightarrow> chunk list \<Rightarrow> rat \<times> string option \<Rightarrow> rat \<times> string option" where
  "best_chunk ratio acr stems [] best = best"
| "best_chunk ratio acr stems (ch # chs) best =
     (if list_ex (\<lambda>a. whole_word (lower a) None (ch_lower ch)) acr then (1, Some (ch_text ch))
      else if stems = [] then best_chunk ratio acr stems chs best
      else let s = matched_share ratio stems ch in
        if s > fst best then (if s = 1 then (s, Some (ch_text ch)) else best_chunk ratio acr stems chs (s, Some (ch_text ch)))
        else best_chunk ratio acr stems chs best)"

record capability_score =
  cp_name :: string
  cp_score :: rat
  cp_evidence :: "string option"

definition capability_stems :: "string \<Rightarrow> string list" where
  "capability_stems capability = rev (remdups (rev (map stem (content_tokens (snd (parentheses capability None))))))"

definition score_capability ::
    "(string \<Rightarrow> string \<Rightarrow> rat) \<Rightarrow> chunk list \<Rightarrow> string \<Rightarrow> capability_score" where
  "score_capability ratio chs capability =
     (let (s, e) = best_chunk ratio (acronyms capability) (capability_stems capability) chs (0, None)
      in \<lparr>cp_name = capability, cp_score = py_round 2 s,
          cp_evidence = (if s > 0 then map_option (take 200) e else None)\<rparr>)"

record domain_result =
  dm_applicable :: bool
  dm_skipped :: bool
  dm_missing :: bool
  dm_passed :: bool
  dm_score :: "rat option"
  dm_required :: "capability_score list"
  dm_preferred :: "capability_score list"

definition capability_list :: "string list \<Rightarrow> string list" where
  "capability_list xs = filter (\<lambda>s. s \<noteq> []) (map strip xs)"

definition evaluate_domain ::
    "(string \<Rightarrow> string \<Rightarrow> rat) \<Rightarrow> string list \<Rightarrow> string list \<Rightarrow> resume_text \<Rightarrow> domain_result" where
  "evaluate_domain ratio req pref resume =
     (let required = capability_list req; preferred = capability_list pref; chs = evidence_chunks resume in
      if required = [] \<and> preferred = []
      then \<lparr>dm_applicable = False, dm_skipped = True, dm_missing = False, dm_passed = True, dm_score = None,
            dm_required = [], dm_preferred = []\<rparr>
      else if chs = []
      then \<lparr>dm_applicable = False, dm_skipped = False, dm_missing = True, dm_passed = True, dm_score = None,
            dm_required = [], dm_preferred = []\<rparr>
      else
        let sc = map stemmed_chunk chs;
            rs = map (score_capability ratio sc) required;
            ps = map (score_capability ratio sc) preferred;
            weighted = sum_list (map cp_score rs) + (1 / 2) * sum_list (map cp_score ps);
            total = of_nat (length rs) + (1 / 2) * of_nat (length ps)
        in \<lparr>dm_applicable = True, dm_skipped = False, dm_missing = False, dm_passed = True,
            dm_score = Some (py_round 2 (weighted / total * 100)), dm_required = rs, dm_preferred = ps\<rparr>)"

section \<open>The score of a match\<close>

lemma matched_share_range: "0 \<le> matched_share ratio stems ch \<and> matched_share ratio stems ch \<le> 1"
proof -
  have "rat_of_nat (length (filter P stems)) \<le> of_nat (length stems)" for P by simp
  then show ?thesis by (simp add: matched_share_def divide_le_eq_1)
qed

lemma best_chunk_range: "0 \<le> fst b \<and> fst b \<le> 1 \<Longrightarrow> 0 \<le> fst (best_chunk ratio acr stems chs b) \<and> fst (best_chunk ratio acr stems chs b) \<le> 1"
proof (induction chs arbitrary: b)
  case (Cons ch chs)
  note step = Cons.IH[OF Cons.prems] Cons.IH[of "(matched_share ratio stems ch, Some (ch_text ch))"]
  show ?case using step Cons.prems matched_share_range[of ratio stems ch] by (auto simp: Let_def)
qed simp

lemma capability_range: "0 \<le> cp_score (score_capability ratio chs c) \<and> cp_score (score_capability ratio chs c) \<le> 1"
  using best_chunk_range[of "(0, None)" ratio "acronyms c" "capability_stems c" chs]
    py_round_mono[of _ 1 2] py_round_nonneg[of _ 2]
  by (auto simp: score_capability_def case_prod_beta)

lemma sum_range: "\<forall>c\<in>set cs. 0 \<le> f c \<and> f c \<le> (1 :: rat) \<Longrightarrow> 0 \<le> sum_list (map f cs) \<and> sum_list (map f cs) \<le> of_nat (length cs)"
  by (induction cs) auto

lemma domain_score_ok:
  "dm_applicable (evaluate_domain ratio req pref resume) \<Longrightarrow>
     \<exists>s. dm_score (evaluate_domain ratio req pref resume) = Some s \<and> 0 \<le> s \<and> s \<le> 100"
  "dm_passed (evaluate_domain ratio req pref resume)"
proof -
  show "dm_passed (evaluate_domain ratio req pref resume)" by (simp add: evaluate_domain_def Let_def)
  assume ap: "dm_applicable (evaluate_domain ratio req pref resume)"
  let ?sc = "map stemmed_chunk (evidence_chunks resume)"
  let ?rs = "map (score_capability ratio ?sc) (capability_list req)" and ?ps = "map (score_capability ratio ?sc) (capability_list pref)"
  let ?w = "sum_list (map cp_score ?rs) + (1 / 2) * sum_list (map cp_score ?ps)"
  let ?t = "of_nat (length ?rs) + (1 / 2) * of_nat (length ?ps) :: rat"
  from ap have ne: "capability_list req \<noteq> [] \<or> capability_list pref \<noteq> []"
    and s: "dm_score (evaluate_domain ratio req pref resume) = Some (py_round 2 (?w / ?t * 100))"
    by (auto simp: evaluate_domain_def Let_def split: if_splits)
  have "0 < rat_of_nat (length ?rs) \<or> 0 < rat_of_nat (length ?ps)" using ne by auto
  moreover have "0 \<le> rat_of_nat (length ?rs)" "0 \<le> rat_of_nat (length ?ps)" by simp_all
  ultimately have t: "0 < ?t" by linarith
  have r: "0 \<le> sum_list (map cp_score ?rs) \<and> sum_list (map cp_score ?rs) \<le> of_nat (length ?rs)"
    "0 \<le> sum_list (map cp_score ?ps) \<and> sum_list (map cp_score ?ps) \<le> of_nat (length ?ps)"
    by (rule sum_range; use capability_range in auto)+
  then have "0 \<le> ?w" "?w \<le> ?t" by linarith+
  from ratio_percent[OF this t] show "\<exists>s. dm_score (evaluate_domain ratio req pref resume) = Some s \<and> 0 \<le> s \<and> s \<le> 100"
    using s py_round_percent by blast
qed

end
