(* ===== verification/Score_Blend.thy ===== *)
theory Score_Blend
  imports Skill_Scoring_Props Experience_Education Domain_Matching Stage_State
begin

text \<open>
  From the breakdown to the stored deterministic score: the technical score, the
  three checks of the skill stage, the blend with experience, education and domain
  capabilities, and the write to \<open>campaign_candidates\<close>
  (\<open>CandidateScoringService\<close>, second half of
  \<open>app/services/campaign/candidate_scoring_service.py\<close>).  The stored dict is the
  record \<open>score_outcome\<close>; \<open>enc\<close> is its encoding in the JSON column.
\<close>

section \<open>Technical score\<close>

definition weighted_ratio :: "skill_entry list \<Rightarrow> rat option" where
  "weighted_ratio es = (if max_sum es \<le> 0 then None else Some (actual_sum es / max_sum es * 100))"

definition scored_entries :: "skill_entry list \<Rightarrow> skill_entry list" where
  "scored_entries es =
     (let rest = filter (\<lambda>e. en_importance e \<noteq> Some CORE) es in if rest = [] then es else rest)"

definition preferred_share :: "skill_db \<Rightarrow> rat" where
  "preferred_share db = config_value db ''PREFERRED_SKILL_SHARE'' (10 / 100)"

definition technical_score :: "skill_db \<Rightarrow> skill_entry list \<Rightarrow> skill_entry list \<Rightarrow> rat option" where
  "technical_score db es preferred =
     (case (weighted_ratio (scored_entries es), weighted_ratio preferred) of
        (None, None) \<Rightarrow> None
      | (Some r, None) \<Rightarrow> Some (py_round 2 r)
      | (None, Some p) \<Rightarrow> Some (py_round 2 p)
      | (Some r, Some p) \<Rightarrow> Some (py_round 2 ((1 - preferred_share db) * r + preferred_share db * p)))"

section \<open>Qualification\<close>

record skill_qualification =
  ql_coverage_threshold :: rat
  ql_coverage :: bool
  ql_score :: bool
  ql_missing_core :: nat
  ql_max_missing :: int
  ql_core_gap :: bool
  ql_passed :: bool

definition missing_core :: "skill_entry list \<Rightarrow> nat" where
  "missing_core es = length (filter (\<lambda>e. en_match e = MT_MISSING \<and> en_importance e = Some CORE) es)"

definition evaluate_qualification ::
    "skill_breakdown \<Rightarrow> rat option \<Rightarrow> rat \<Rightarrow> rat \<Rightarrow> int \<Rightarrow> skill_qualification" where
  "evaluate_qualification b score threshold coverage_threshold max_missing =
     (let cov = (bd_core_coverage b \<ge> coverage_threshold);
          gap = (int (missing_core (bd_entries b)) \<le> max_missing);
          sc = (case score of None \<Rightarrow> True | Some s \<Rightarrow> s \<ge> threshold)
      in \<lparr>ql_coverage_threshold = coverage_threshold, ql_coverage = cov, ql_score = sc,
          ql_missing_core = missing_core (bd_entries b), ql_max_missing = max_missing, ql_core_gap = gap,
          ql_passed = (cov \<and> sc \<and> gap)\<rparr>)"

section \<open>Blend\<close>

datatype score_error = SE_Not_Found | SE_Type

definition default_weight :: "string \<Rightarrow> rat" where
  "default_weight k = (if k = ''skills'' then 70 / 100 else 15 / 100)"

definition weight_of :: "(string \<times> rat) list \<Rightarrow> string \<Rightarrow> rat" where
  "weight_of ws k = (case map_of ws k of Some w \<Rightarrow> w | None \<Rightarrow> default_weight k)"

text \<open>A component enters the sums with its score; \<open>None\<close> times a weight raises.\<close>

fun known_scores :: "(rat option \<times> rat) list \<Rightarrow> (score_error, (rat \<times> rat) list) result" where
  "known_scores [] = Inr []"
| "known_scores ((None, w) # cs) = Inl SE_Type"
| "known_scores ((Some s, w) # cs) = res_bind (known_scores cs) (\<lambda>rest. Inr ((s, w) # rest))"

definition components ::
    "rat option \<Rightarrow> domain_result option \<Rightarrow> experience_result option \<Rightarrow> education_result option
     \<Rightarrow> (string \<times> rat) list \<Rightarrow> (rat option \<times> rat) list" where
  "components skill dres ex ed ws =
     (if skill = None then [] else [(skill, weight_of ws ''skills'')]) @
     (case dres of None \<Rightarrow> [] | Some d \<Rightarrow> if dm_applicable d then [(dm_score d, weight_of ws ''functional'')] else []) @
     (case ex of None \<Rightarrow> [] | Some x \<Rightarrow> if xr_applicable x then [(xr_score x, weight_of ws ''experience'')] else []) @
     (case ed of None \<Rightarrow> [] | Some e \<Rightarrow> if dr_applicable e then [(dr_score e, weight_of ws ''education'')] else [])"

definition weight_sum :: "(rat \<times> rat) list \<Rightarrow> rat" where
  "weight_sum cs = sum_list (map snd cs)"

definition score_sum :: "(rat \<times> rat) list \<Rightarrow> rat" where
  "score_sum cs = sum_list (map (\<lambda>(s, w). s * w) cs)"

definition combine_scores ::
    "rat option \<Rightarrow> bool \<Rightarrow> experience_result option \<Rightarrow> education_result option \<Rightarrow> (string \<times> rat) list \<Rightarrow> rat
     \<Rightarrow> domain_result option \<Rightarrow> (score_error, rat \<times> bool) result" where
  "combine_scores skill structural ex ed ws threshold dres =
     res_bind (known_scores (components skill dres ex ed ws)) (\<lambda>cs.
       let score = (if weight_sum cs > 0 then py_round 2 (score_sum cs / weight_sum cs)
                    else (case skill of Some s \<Rightarrow> s | None \<Rightarrow> 100))
       in Inr (score,
            structural
            \<and> (case ex of None \<Rightarrow> True | Some x \<Rightarrow> xr_passed x)
            \<and> (case ed of None \<Rightarrow> True | Some e \<Rightarrow> dr_passed e)
            \<and> score \<ge> threshold))"

section \<open>Reasons of a rejection\<close>

text \<open>The clauses that are joined to the text of \<open>rejection_reason\<close>.\<close>

datatype reason_clause =
    RC_No_Verified_Skills
  | RC_Missing_Skills "(string option \<times> nat) list"
  | RC_Core_Gap nat int
  | RC_Coverage gate_scope rat rat
  | RC_Experience rat rat rat
  | RC_Education "degree_level option" "degree_level option"
  | RC_Below_Threshold

definition rejection_clauses ::
    "skill_breakdown \<Rightarrow> skill_qualification option \<Rightarrow> experience_result option \<Rightarrow> education_result option
     \<Rightarrow> reason_clause list" where
  "rejection_clauses b q ex ed =
     (let missing = filter (\<lambda>e. en_match e = MT_MISSING) (bd_entries b);
          cs = (if bd_no_verified b then [RC_No_Verified_Skills]
                else if missing \<noteq> [] then [RC_Missing_Skills (map (\<lambda>e. (en_name e, en_skill e)) missing)] else []) @
               (case q of None \<Rightarrow> [] | Some q \<Rightarrow>
                  (if \<not> ql_core_gap q then [RC_Core_Gap (ql_missing_core q) (ql_max_missing q)] else []) @
                  (if \<not> ql_coverage q then [RC_Coverage (bd_scope b) (bd_core_coverage b) (ql_coverage_threshold q)] else [])) @
               (case ex of None \<Rightarrow> [] | Some x \<Rightarrow>
                  if xr_passed x then []
                  else (case (xr_candidate x, xr_min x) of
                          (Some y, Some m) \<Rightarrow> [RC_Experience y m (py_round 1 (m - y))] | _ \<Rightarrow> [])) @
               (case ed of None \<Rightarrow> [] | Some e \<Rightarrow>
                  if dr_passed e then [] else [RC_Education (dr_required e) (dr_candidate e)])
      in if cs = [] then [RC_Below_Threshold] else cs)"

section \<open>The stored score\<close>

record score_outcome =
  oc_breakdown :: skill_breakdown
  oc_technical :: "rat option"
  oc_qualification :: skill_qualification
  oc_preferred :: "skill_entry list"
  oc_bonus :: rat
  oc_experience :: "experience_result option"
  oc_education :: "education_result option"
  oc_domain :: "domain_result option"
  oc_threshold :: rat
  oc_score :: rat
  oc_passed :: bool

definition score_resume ::
    "skill_db \<Rightarrow> nat \<Rightarrow> nat \<Rightarrow> rat \<Rightarrow> experience_result option \<Rightarrow> education_result option \<Rightarrow> (string \<times> rat) list
     \<Rightarrow> rat \<Rightarrow> int \<Rightarrow> domain_result option \<Rightarrow> (score_error, score_outcome) result" where
  "score_resume db jd resume threshold ex ed ws coverage_threshold max_missing dres =
     (let b = breakdown_of db jd resume None;
          (preferred, bonus) = preferred_breakdown db jd resume;
          skill = technical_score db (bd_entries b) preferred;
          q = evaluate_qualification b skill threshold coverage_threshold max_missing
      in res_bind
           (if ex = None \<and> ed = None \<and> dres = None
            then Inr ((case skill of Some s \<Rightarrow> s | None \<Rightarrow> 100), ql_passed q)
            else combine_scores skill (ql_coverage q \<and> ql_core_gap q) ex ed ws threshold dres)
           (\<lambda>(final, passed).
             Inr \<lparr>oc_breakdown = b, oc_technical = skill, oc_qualification = q, oc_preferred = preferred, oc_bonus = bonus,
                  oc_experience = ex, oc_education = ed, oc_domain = dres, oc_threshold = threshold,
                  oc_score = final, oc_passed = passed\<rparr>))"

definition store_score_breakdown ::
    "skill_db \<Rightarrow> (score_outcome \<Rightarrow> json) \<Rightarrow> nat \<Rightarrow> nat \<Rightarrow> nat \<Rightarrow> rat \<Rightarrow> experience_result option
     \<Rightarrow> education_result option \<Rightarrow> (string \<times> rat) list \<Rightarrow> rat \<Rightarrow> int \<Rightarrow> domain_result option \<Rightarrow> hiring_db
     \<Rightarrow> (score_error, score_outcome \<times> hiring_db) result" where
  "store_score_breakdown db enc i jd resume threshold ex ed ws coverage_threshold max_missing dres h =
     (case find_candidate i h of
        None \<Rightarrow> Inl SE_Not_Found
      | Some cc \<Rightarrow>
          res_bind (score_resume db jd resume threshold ex ed ws coverage_threshold max_missing dres) (\<lambda>oc.
            Inr (oc, update_candidate i
                   (\<lambda>c. c\<lparr>cc_det_breakdown := Some (enc oc), cc_det_score := Some (oc_score oc),
                         cc_det_passed := Some (oc_passed oc)\<rparr>) h)))"

end
