(* ===== verification/Screening_Tasks.thy ===== *)
theory Screening_Tasks
  imports Campaign_Lifecycle Task_Failures Score_Blend "HOL-Library.List_Lexorder" "HOL-Library.Char_ord"
begin

text \<open>
  The screening tasks of a campaign candidate: \<open>deterministic_scoring_tasks.py\<close>,
  \<open>semantic_scoring_tasks.py\<close> and \<open>ai_evaluation_tasks.py\<close> (\<open>app/tasks\<close>) over
  \<open>SemanticScoringService\<close>, \<open>AIEvaluationService\<close>, \<open>StageTransitionService\<close> and the task log,
  and the override of a rejection (\<open>CampaignCandidateService.apply_hr_override\<close>).

  A task takes the state and returns how the run ended and the state it leaves.  What the
  sources do not define is a parameter: parsing of dates, string similarity, the texts shown
  to users, hashing, the vector distance of two embeddings, the language model and the broker.
  A database error inside a run is an argument of the run; it leaves the last commit, the
  one that marked the task as running.
\<close>

section \<open>State and parameters\<close>

record parsed_resume =
  pa_text :: resume_text
  pa_work :: "work_entry list"
  pa_years :: "rat option"
  pa_education :: "education_entry list"
  pa_skills :: "string list"

record job_content =
  jb_min_years :: "rat option"
  jb_extracted_min :: "rat option"
  jb_degree :: "string option"
  jb_extracted_education :: "education_entry option"
  jb_required :: "string list"
  jb_preferred :: "string list"
  jb_json :: json_dict

datatype mail_status = MA_QUEUED | MA_SENT | MA_FAILED

record rejection_mail =
  rm_candidate :: nat
  rm_status :: mail_status

text \<open>An embedding: whose it is, under which model version.\<close>

record screening_world =
  sw_main :: campaign_world
  sw_dlq :: "dead_letter list"
  sw_embeddings :: "(nat \<times> nat) list"
  sw_jd_embeddings :: "(nat \<times> nat) list"
  sw_mails :: "rejection_mail list"

record ai_response =
  ar_technical :: int
  ar_experience :: int
  ar_education :: int
  ar_domain :: int
  ar_overall :: int
  ar_confidence :: int
  ar_recommendation :: string
  ar_strengths :: "string list"
  ar_gaps :: "string list"

record screening_env =
  sv_broker :: campaign_env
  sv_skills :: skill_db
  sv_months :: "int \<Rightarrow> int \<Rightarrow> int"
  sv_date :: "string \<Rightarrow> int option"
  sv_ratio :: "string \<Rightarrow> string \<Rightarrow> rat"
  sv_encode :: "score_outcome \<Rightarrow> json_dict"
  sv_reason :: "reason_clause list \<Rightarrow> string"
  sv_explain :: "rat \<Rightarrow> rat \<Rightarrow> bool \<Rightarrow> string"
  sv_show :: "nat \<Rightarrow> string"
  sv_hash :: "string \<Rightarrow> string"
  sv_resume :: "nat \<Rightarrow> parsed_resume option"
  sv_job :: "nat \<Rightarrow> job_content option"
  sv_similarity :: "nat \<Rightarrow> nat \<Rightarrow> rat"
  sv_llm :: "nat \<Rightarrow> nat \<Rightarrow> nat \<Rightarrow> (failure, ai_response) result"
  sv_template :: bool

definition sw_db :: "screening_world \<Rightarrow> hiring_db" where
  "sw_db w = cw_db (sw_main w)"

definition with_db :: "hiring_db \<Rightarrow> screening_world \<Rightarrow> screening_world" where
  "with_db h w = w\<lparr>sw_main := (sw_main w)\<lparr>cw_db := h\<rparr>\<rparr>"

definition on_main :: "(campaign_world \<Rightarrow> campaign_world) \<Rightarrow> screening_world \<Rightarrow> screening_world" where
  "on_main f w = w\<lparr>sw_main := f (sw_main w)\<rparr>"

definition failure_of :: "failure_kind \<Rightarrow> string \<Rightarrow> failure" where
  "failure_of k s = \<lparr>fl_kind = k, fl_text = s, fl_status = None, fl_retry_after = None\<rparr>"

definition raise_value :: "string \<Rightarrow> failure" where
  "raise_value s = failure_of FK_Value s"

section \<open>The start and the end of a run\<close>

datatype run_end = RE_DONE | RE_RAISED failure | RE_RETRY nat | RE_DEAD

definition already_done :: "string \<Rightarrow> hiring_db \<Rightarrow> bool" where
  "already_done tid h =
     (case find (\<lambda>t. tk_id t = tid) (hd_tasks h) of None \<Rightarrow> False | Some t \<Rightarrow> tk_status t = TK_SUCCESS)"

definition start_task :: "string \<Rightarrow> string \<Rightarrow> nat \<Rightarrow> screening_world \<Rightarrow> screening_world" where
  "start_task tid type i w =
     with_db (set_task_status tid TK_RUNNING (ensure_log tid type (map_option cc_id (find_candidate i (sw_db w))) (sw_db w))) w"

definition succeed :: "string \<Rightarrow> screening_world \<Rightarrow> screening_world" where
  "succeed tid w =
     (let (ts, q) = mark_success tid (hd_tasks (sw_db w), sw_dlq w)
      in with_db ((sw_db w)\<lparr>hd_tasks := ts\<rparr>) (w\<lparr>sw_dlq := q\<rparr>))"

definition set_tasks :: "(task_log list \<Rightarrow> task_log list) \<Rightarrow> screening_world \<Rightarrow> screening_world" where
  "set_tasks f w = with_db ((sw_db w)\<lparr>hd_tasks := f (hd_tasks (sw_db w))\<rparr>) w"

definition screening_policy :: retry_policy where
  "screening_policy = \<lparr>rp_max = 3, rp_base = 10, rp_cap = 120\<rparr>"

text \<open>The \<open>except\<close> clause of the semantic and of the AI task; \<open>retries\<close> is Celery's counter.\<close>

definition fail_task ::
    "string \<Rightarrow> string \<Rightarrow> nat \<Rightarrow> nat \<Rightarrow> failure \<Rightarrow> screening_world \<Rightarrow> run_end \<times> screening_world" where
  "fail_task tid type i retries e w =
     (let attempt = retries + 1 in
      if classify e \<noteq> FC_PERMANENT \<and> attempt < rp_max screening_policy
      then (RE_RETRY (compute_backoff_seconds screening_policy attempt), set_tasks (mark_retry tid) w)
      else (RE_DEAD, set_tasks (set_status tid TK_DEAD)
              (w\<lparr>sw_dlq := add_dead_letter tid type None (Some i) (fl_text e) attempt (sw_dlq w)\<rparr>)))"

text \<open>
  What fails in a run: the scoring, before anything is written, or the last step, the commit that
  marks the log as done, when the results are already committed and their messages sent.
\<close>

datatype task_fault = TF_Work failure | TF_Success failure

fun work_fault :: "task_fault option \<Rightarrow> failure option" where
  "work_fault (Some (TF_Work e)) = Some e"
| "work_fault _ = None"

fun success_fault :: "task_fault option \<Rightarrow> failure option" where
  "success_fault (Some (TF_Success e)) = Some e"
| "success_fault _ = None"

definition end_task ::
    "task_fault option \<Rightarrow> string \<Rightarrow> string \<Rightarrow> nat \<Rightarrow> nat \<Rightarrow> screening_world \<Rightarrow> run_end \<times> screening_world" where
  "end_task fault tid type i retries w =
     (case success_fault fault of Some e \<Rightarrow> fail_task tid type i retries e w | None \<Rightarrow> (RE_DONE, succeed tid w))"

section \<open>Messages\<close>

text \<open>A failure to send is only logged.\<close>

definition dispatch :: "screening_env \<Rightarrow> string \<Rightarrow> string \<Rightarrow> nat \<Rightarrow> string \<Rightarrow> screening_world \<Rightarrow> screening_world" where
  "dispatch sv task arg i tid w =
     on_main (\<lambda>m. snd (apply_async (sv_broker sv) task [(arg, JNum (of_nat i))] tid m)) w"

definition new_row :: "screening_env \<Rightarrow> (string \<Rightarrow> task_log) \<Rightarrow> screening_world \<Rightarrow> string \<times> screening_world" where
  "new_row sv mk w =
     (let h = sw_db w; n = hd_next_id h; tid = ev_fresh (sv_broker sv) n
      in (tid, with_db (h\<lparr>hd_tasks := hd_tasks h @ [mk tid], hd_next_id := Suc n\<rparr>) w))"

definition log_by_key :: "string \<Rightarrow> hiring_db \<Rightarrow> task_log option" where
  "log_by_key k h = find (\<lambda>t. tk_key t = Some k) (hd_tasks h)"

definition embedding_of :: "nat \<Rightarrow> (nat \<times> nat) list \<Rightarrow> (nat \<times> nat) option" where
  "embedding_of i es = find (\<lambda>e. fst e = i) es"

definition embed_key :: "screening_env \<Rightarrow> nat \<Rightarrow> string" where
  "embed_key sv r = ''EMBED_RESUME:'' @ sv_show sv r"

definition enqueue_resume_embedding :: "screening_env \<Rightarrow> nat \<Rightarrow> screening_world \<Rightarrow> screening_world" where
  "enqueue_resume_embedding sv r w =
     (if log_by_key (embed_key sv r) (sw_db w) \<noteq> None then w
      else (let (tid, w1) = new_row sv (\<lambda>tid. (queued_log tid ''EMBED_RESUME'' None)\<lparr>tk_resume := Some r, tk_key := Some (embed_key sv r)\<rparr>) w
            in dispatch sv ''embedding.generate_resume_embedding'' ''resume_id'' r tid w1))"

definition semantic_key :: "screening_env \<Rightarrow> nat \<Rightarrow> string" where
  "semantic_key sv i = sv_hash sv (sv_show sv i @ ''SEM'')"

text \<open>
  A row that a dead letter refers to cannot be given another task id: the foreign key of
  \<open>dead_letter_queue.original_task_id\<close> refuses the update.
\<close>

definition referenced :: "string \<Rightarrow> dead_letter list \<Rightarrow> bool" where
  "referenced tid q = list_ex (\<lambda>d. dq_task d = tid) q"

definition enqueue_semantic :: "screening_env \<Rightarrow> nat \<Rightarrow> nat \<Rightarrow> screening_world \<Rightarrow> (failure, unit) result \<times> screening_world" where
  "enqueue_semantic sv i resume w =
     (if embedding_of resume (sw_embeddings w) = None then (Inr (), enqueue_resume_embedding sv resume w)
      else
        (case log_by_key (semantic_key sv i) (sw_db w) of
           None \<Rightarrow>
             (let (tid, w1) = new_row sv (\<lambda>tid. (queued_log tid ''SEMANTIC_SCORE'' (Some i))\<lparr>tk_key := Some (semantic_key sv i)\<rparr>) w
              in (Inr (), dispatch sv ''scoring.calculate_semantic_score'' ''campaign_candidate_id'' i tid w1))
         | Some t \<Rightarrow>
             if tk_status t \<in> set [TK_QUEUED, TK_RUNNING, TK_SUCCESS] then (Inr (), w)
             else if referenced (tk_id t) (sw_dlq w) then (Inl (failure_of FK_Other ''foreign key violation''), w)
             else
               (let n = hd_next_id (sw_db w); tid = ev_fresh (sv_broker sv) n;
                    w1 = set_tasks (map (\<lambda>x. if tk_id x = tk_id t then x\<lparr>tk_id := tid, tk_status := TK_QUEUED\<rparr> else x)) w
                in (Inr (), dispatch sv ''scoring.calculate_semantic_score'' ''campaign_candidate_id'' i tid
                      (with_db ((sw_db w1)\<lparr>hd_next_id := Suc n\<rparr>) w1)))))"

text \<open>A loop over candidates stops at the first error.\<close>

fun enqueue_each ::
    "screening_env \<Rightarrow> campaign_candidate list \<Rightarrow> screening_world \<Rightarrow> (failure, unit) result \<times> screening_world" where
  "enqueue_each sv [] w = (Inr (), w)"
| "enqueue_each sv (c # cs) w =
     (case enqueue_semantic sv (cc_id c) (cc_resume c) w of
        (Inl e, w1) \<Rightarrow> (Inl e, w1)
      | (Inr _, w1) \<Rightarrow> enqueue_each sv cs w1)"

definition trigger_pending ::
    "screening_env \<Rightarrow> nat \<Rightarrow> screening_world \<Rightarrow> (failure, unit) result \<times> screening_world" where
  "trigger_pending sv resume w =
     enqueue_each sv (filter (\<lambda>c. cc_resume c = resume \<and> cc_det_passed c = Some True \<and> cc_sem_breakdown c = None)
       (hd_candidates (sw_db w))) w"

definition pending_semantic :: "screening_world \<Rightarrow> campaign_candidate list" where
  "pending_semantic w =
     filter (\<lambda>c. embedding_of (cc_resume c) (sw_embeddings w) \<noteq> None \<and> cc_det_passed c = Some True \<and> cc_sem_score c = None)
       (hd_candidates (sw_db w))"

definition recover_pending :: "screening_env \<Rightarrow> screening_world \<Rightarrow> run_end \<times> screening_world" where
  "recover_pending sv w =
     (let (tid, w1) = new_row sv (\<lambda>tid. queued_log tid ''SEMANTIC_SCORE_RECOVERY_SCAN'' None) w
      in (case enqueue_each sv (pending_semantic w1) w1 of
            (Inl e, w2) \<Rightarrow> (RE_RAISED e, set_tasks (set_status tid TK_FAILURE) w2)
          | (Inr _, w2) \<Rightarrow> (RE_DONE, succeed tid w2)))"

definition enqueue_ai :: "screening_env \<Rightarrow> nat \<Rightarrow> screening_world \<Rightarrow> screening_world" where
  "enqueue_ai sv i w =
     (if list_ex (\<lambda>t. tk_candidate t = Some i \<and> tk_type t = ''AI_EVALUATE'' \<and> tk_status t \<in> set [TK_QUEUED, TK_RUNNING])
           (hd_tasks (sw_db w)) then w
      else (let (tid, w1) = new_row sv (\<lambda>tid. queued_log tid ''AI_EVALUATE'' (Some i)) w
            in dispatch sv ''scoring.calculate_ai_evaluation'' ''campaign_candidate_id'' i tid w1))"

definition queue_rejection_mail :: "screening_env \<Rightarrow> nat \<Rightarrow> screening_world \<Rightarrow> screening_world" where
  "queue_rejection_mail sv i w =
     (if list_ex (\<lambda>m. rm_candidate m = i \<and> rm_status m \<in> set [MA_QUEUED, MA_SENT]) (sw_mails w) \<or> \<not> sv_template sv then w
      else w\<lparr>sw_mails := sw_mails w @ [\<lparr>rm_candidate = i, rm_status = MA_QUEUED\<rparr>]\<rparr>)"

definition after_rejection :: "screening_env \<Rightarrow> nat \<Rightarrow> screening_world \<Rightarrow> screening_world" where
  "after_rejection sv i w = on_main (enqueue_composite (sv_broker sv) TR_REJECTION i) (queue_rejection_mail sv i w)"

section \<open>Rejection at a layer\<close>

definition cancel_downstream :: "nat \<Rightarrow> hiring_db \<Rightarrow> hiring_db" where
  "cancel_downstream i h =
     (let h1 = h\<lparr>hd_tasks := map (\<lambda>t. if tk_candidate t = Some i \<and> tk_type t = ''AI_EVALUATE'' \<and> tk_status t = TK_QUEUED
               then t\<lparr>tk_status := TK_DEAD\<rparr> else t) (hd_tasks h)\<rparr>;
          h2 = snd (get_or_create_ai i h1)
      in update_ai i (\<lambda>a. a\<lparr>ae_status := AI_SKIPPED\<rparr>) h2)"

definition reject_at ::
    "int \<Rightarrow> campaign_candidate \<Rightarrow> string \<Rightarrow> decision_source \<Rightarrow> string \<Rightarrow> json_dict \<Rightarrow> hiring_db \<Rightarrow> bool \<times> hiring_db" where
  "reject_at now cc change ds reason details h =
     (let (ok, h1) = transition_to_rejected now cc change (Some details) ds (Some reason) (Some details) None h
      in (ok, cancel_downstream (cc_id cc) h1))"

section \<open>The deterministic task\<close>

definition blank_resume :: parsed_resume where
  "blank_resume = \<lparr>pa_text = \<lparr>rt_summary = None, rt_work = [], rt_projects = []\<rparr>, pa_work = [], pa_years = None,
     pa_education = [], pa_skills = []\<rparr>"

definition resume_content :: "screening_env \<Rightarrow> nat \<Rightarrow> parsed_resume" where
  "resume_content sv r = (case sv_resume sv r of None \<Rightarrow> blank_resume | Some p \<Rightarrow> p)"

definition score_weights :: "campaign_world \<Rightarrow> (string \<times> rat) list" where
  "score_weights m =
     [(''skills'', setting ''DETERMINISTIC_WEIGHT_SKILLS'' (70 / 100) m),
      (''experience'', setting ''DETERMINISTIC_WEIGHT_EXPERIENCE'' (15 / 100) m),
      (''education'', setting ''DETERMINISTIC_WEIGHT_EDUCATION'' (15 / 100) m),
      (''functional'', setting ''DETERMINISTIC_WEIGHT_FUNCTIONAL'' (15 / 100) m)]"

definition run_scoring ::
    "screening_env \<Rightarrow> int \<Rightarrow> campaign_candidate \<Rightarrow> campaign_row \<Rightarrow> job_content \<Rightarrow> campaign_world
     \<Rightarrow> (score_error, score_outcome \<times> hiring_db) result" where
  "run_scoring sv now cc ca job m =
     (let resume = resume_content sv (cc_resume cc);
          years = total_experience (sv_date sv) (sv_months sv) now (pa_work resume) (pa_years resume);
          ex = validate_experience (setting ''EXPERIENCE_TOLERANCE_YEARS'' 0 m) (jb_min_years job) years (jb_extracted_min job);
          ed = validate_education (map_of (cw_config m) ''EQUIVALENT_EXPERIENCE_YEARS'') (jb_degree job)
                 (pa_education resume) years (jb_extracted_education job);
          dom = evaluate_domain (sv_ratio sv) (jb_required job) (jb_preferred job) (pa_text resume)
      in store_score_breakdown (sv_skills sv) (\<lambda>oc. JObj (sv_encode sv oc)) (cc_id cc) (ca_jd ca) (cc_resume cc)
           (ca_det_threshold ca) (Some ex) (Some ed) (score_weights m) (ca_coverage ca) (ca_max_missing_core ca) (Some dom) (cw_db m))"

definition score_failure :: "score_error \<Rightarrow> failure" where
  "score_failure e = (case e of SE_Not_Found \<Rightarrow> raise_value ''CampaignCandidate not found''
     | SE_Type \<Rightarrow> failure_of FK_Type ''unsupported operand'')"

text \<open>What is done up to the commit: whether the candidate passed, and whether a rejection took effect.\<close>

definition deterministic_body ::
    "screening_env \<Rightarrow> int \<Rightarrow> campaign_candidate \<Rightarrow> campaign_row \<Rightarrow> campaign_world
     \<Rightarrow> (failure, bool \<times> bool \<times> hiring_db) result" where
  "deterministic_body sv now cc ca m =
     (let h = cw_db m; i = cc_id cc in
      if \<not> list_ex (\<lambda>r. re_id r = cc_resume cc \<and> re_status r = PS_PARSED) (hd_resumes h)
      then Inl (raise_value ''Resume has not completed parsing'')
      else (case (jd_by_id (ca_jd ca) m, sv_job sv (ca_jd ca)) of
        (Some _, Some job) \<Rightarrow>
          let h1 = snd (transition_to_screening now cc h) in
          (case find_candidate i h1 of
             None \<Rightarrow> Inl (raise_value ''CampaignCandidate not found'')
           | Some c1 \<Rightarrow>
               if cc_stage c1 = UPLOADED then Inl (failure_of FK_Other ''transition_to_screening did not advance'')
               else
                 (case run_scoring sv now c1 ca job (m\<lparr>cw_db := h1\<rparr>) of
                    Inl e \<Rightarrow> Inl (score_failure e)
                  | Inr (oc, h2) \<Rightarrow>
                      let h3 = update_candidate i (\<lambda>c. c\<lparr>cc_screened_at := Some now, cc_updated_at := Some now\<rparr>) h2;
                          details = sv_encode sv oc;
                          reason = sv_reason sv (rejection_clauses (oc_breakdown oc) (Some (oc_qualification oc))
                                     (oc_experience oc) (oc_education oc));
                          c3 = (case find_candidate i h3 of None \<Rightarrow> c1 | Some c \<Rightarrow> c);
                          (moved, h4) = (if oc_passed oc then (False, h3)
                             else reject_at now c3 ''Deterministic filter rejection'' DS_DETERMINISTIC reason details h3);
                          h5 = audit None (Some SYSTEM) ''DETERMINISTIC_SCORE_COMPUTED'' i details h4
                      in Inr (oc_passed oc, moved, h5)))
      | _ \<Rightarrow> Inl (raise_value ''Job description not found'')))"

definition deterministic_task ::
    "screening_env \<Rightarrow> int \<Rightarrow> string \<Rightarrow> nat \<Rightarrow> screening_world \<Rightarrow> run_end \<times> screening_world" where
  "deterministic_task sv now tid i w =
     (if already_done tid (sw_db w) then (RE_DONE, w)
      else
        let w1 = start_task tid ''DETERMINISTIC_SCORE'' i w;
            failed = (\<lambda>e. (RE_RAISED e, set_tasks (set_status tid TK_FAILURE) w1))
        in (case find_candidate i (sw_db w1) of
              None \<Rightarrow> (RE_DONE, succeed tid w1)
            | Some cc \<Rightarrow>
                (case find_campaign (cc_campaign cc) (sw_db w1) of
                   None \<Rightarrow> failed (raise_value ''Campaign not found'')
                 | Some ca \<Rightarrow>
                     if ca_status ca \<notin> set scoreable then (RE_DONE, succeed tid w1)
                     else
                       (case deterministic_body sv now cc ca (sw_main w1) of
                          Inl e \<Rightarrow> failed e
                        | Inr (passed, moved, h) \<Rightarrow>
                            let w2 = succeed tid (with_db h w1);
                                w3 = (if \<not> passed \<and> moved then after_rejection sv i w2 else w2)
                            in (RE_DONE, if passed then snd (enqueue_semantic sv i (cc_resume cc) w3) else w3)))))"

section \<open>The semantic task\<close>

fun json_items :: "json \<Rightarrow> json list" where
  "json_items (JArr l) = l"
| "json_items _ = []"

fun json_field :: "json \<Rightarrow> string \<Rightarrow> json" where
  "json_field (JObj d) k = json_get d k"
| "json_field _ k = JNull"

text \<open>The names of the matched and of the missing skills of the stored breakdown.\<close>

definition breakdown_skills :: "campaign_candidate \<Rightarrow> string list \<times> string list" where
  "breakdown_skills cc =
     (let b = (case cc_det_breakdown cc of None \<Rightarrow> JNull | Some j \<Rightarrow> j);
          entries = json_items (json_field b ''mandatory_skills'') @ json_items (json_field b ''preferred_skills'');
          named = filter (\<lambda>e. json_truthy (json_field e ''canonical_name'')) entries;
          name = (\<lambda>e. case json_str (json_field e ''canonical_name'') of None \<Rightarrow> [] | Some s \<Rightarrow> s);
          missing = (\<lambda>e. json_field e ''match_type'' = JStr ''MISSING'')
      in (map name (filter (\<lambda>e. \<not> missing e) named), map name (filter missing named)))"

fun skill_names :: "json \<Rightarrow> string list" where
  "skill_names (JObj d) = concat (map (\<lambda>p. skill_names (snd p)) d)"
| "skill_names (JArr l) = List.map_filter
     (\<lambda>x. case x of JStr s \<Rightarrow> Some s | JObj d \<Rightarrow> json_str (json_get d ''name'') | _ \<Rightarrow> None) l"
| "skill_names _ = []"

definition jd_skill_names :: "json_dict \<Rightarrow> string list" where
  "jd_skill_names d =
     skill_names (json_get d ''required_skills'') @ skill_names (json_get d ''preferred_skills'')
     @ (case json_get d ''aliases'' of JObj al \<Rightarrow> concat (map (\<lambda>p. skill_names (snd p)) al) | _ \<Rightarrow> [])"

definition matched_keywords :: "json_dict \<Rightarrow> string list \<Rightarrow> string list" where
  "matched_keywords job skills =
     (let jd = map (\<lambda>s. lower (strip s)) (filter (\<lambda>s. strip s \<noteq> []) (jd_skill_names job));
          cv = map (\<lambda>s. lower (strip s)) (filter (\<lambda>s. s \<noteq> []) skills)
      in sort (remdups (filter (\<lambda>s. s \<in> set cv) jd)))"

record semantic_result =
  sm_similarity :: rat
  sm_passed :: bool
  sm_clamped :: bool
  sm_json :: json_dict

definition semantic_breakdown ::
    "screening_env \<Rightarrow> int \<Rightarrow> campaign_candidate \<Rightarrow> campaign_row \<Rightarrow> nat \<Rightarrow> semantic_result" where
  "semantic_breakdown sv now cc ca version =
     (let raw = sv_similarity sv (cc_resume cc) (ca_jd ca);
          s = (if raw < 0 then 0 else raw);
          passed = (s \<ge> ca_sem_threshold ca);
          (matching, missing) = breakdown_skills cc;
          job = (case sv_job sv (ca_jd ca) of None \<Rightarrow> [] | Some j \<Rightarrow> jb_json j);
          cv = (case sv_resume sv (cc_resume cc) of None \<Rightarrow> [] | Some p \<Rightarrow> pa_skills p)
      in \<lparr>sm_similarity = s, sm_passed = passed, sm_clamped = (raw < 0),
          sm_json =
            [(''semantic_score'', JNum (py_round 4 s)), (''overall_similarity'', JNum (py_round 4 s)),
             (''semantic_passed'', JBool passed), (''semantic_threshold'', JNum (ca_sem_threshold ca)),
             (''matching_skills'', JArr (map JStr matching)), (''missing_skills'', JArr (map JStr missing)),
             (''matched_keywords'', JArr (map JStr (matched_keywords job cv))),
             (''semantic_explanation'', JStr (sv_explain sv s (ca_sem_threshold ca) passed)),
             (''resume_embedding_model_version_id'', JNum (of_nat version)),
             (''jd_embedding_model_version_id'', JNum (of_nat version)),
             (''computed_at'', JTime now), (''score_clamped_to_zero'', JBool (raw < 0)),
             (''score_clamp_reason'', if raw < 0 then JStr ''SCORE_CLAMPED_TO_ZERO'' else JNull)]\<rparr>)"

text \<open>The column \<open>semantic_score\<close> has four places.\<close>

definition store_semantic :: "int \<Rightarrow> nat \<Rightarrow> semantic_result \<Rightarrow> hiring_db \<Rightarrow> hiring_db" where
  "store_semantic now i r h =
     update_candidate i (\<lambda>c. c\<lparr>cc_sem_score := Some (to_places half_up 4 (sm_similarity r)), cc_sem_passed := Some (sm_passed r),
        cc_sem_breakdown := Some (JObj (sm_json r)), cc_sem_at := Some now, cc_updated_at := Some now\<rparr>) h"

definition score_and_persist_semantic ::
    "screening_env \<Rightarrow> int \<Rightarrow> campaign_candidate \<Rightarrow> campaign_row \<Rightarrow> nat \<Rightarrow> screening_world \<Rightarrow> screening_world" where
  "score_and_persist_semantic sv now cc ca version w =
     (let i = cc_id cc; r = semantic_breakdown sv now cc ca version;
          h1 = store_semantic now i r (sw_db w);
          (moved, h2) = (if sm_passed r then (False, h1)
             else reject_at now cc ''Semantic similarity filter rejection'' DS_SEMANTIC
                    (sv_explain sv (sm_similarity r) (ca_sem_threshold ca) False) (sm_json r) h1);
          w1 = with_db (audit None (Some SYSTEM) ''SEMANTIC_SCORE_COMPUTED'' i (sm_json r) h2) w;
          w2 = (if \<not> sm_passed r \<and> moved then after_rejection sv i w1 else w1)
      in if sm_passed r then enqueue_ai sv i w2 else w2)"

definition flag_manual_review :: "nat \<Rightarrow> hiring_db \<Rightarrow> hiring_db" where
  "flag_manual_review i h = update_ai i (\<lambda>a. a\<lparr>ae_status := AI_MANUAL_REVIEW\<rparr>) (snd (get_or_create_ai i h))"

definition missing_embedding_reason :: string where
  "missing_embedding_reason = ''Resume embedding not available -- semantic scoring skipped''"

definition record_missing_embedding :: "int \<Rightarrow> nat \<Rightarrow> hiring_db \<Rightarrow> hiring_db" where
  "record_missing_embedding now i h =
     update_candidate i (\<lambda>c. if cc_decision_reason c = Some missing_embedding_reason then c
       else c\<lparr>cc_decision_source := Some DS_SEMANTIC, cc_decision_reason := Some missing_embedding_reason,
              cc_decision_details := Some [(''reason'', JStr missing_embedding_reason)], cc_decision_at := Some now\<rparr>)
       (flag_manual_review i h)"

definition clear_semantic_score :: "nat \<Rightarrow> hiring_db \<Rightarrow> hiring_db" where
  "clear_semantic_score i h = flag_manual_review i (update_candidate i (\<lambda>c. c\<lparr>cc_sem_score := None\<rparr>) h)"

definition semantic_task ::
    "screening_env \<Rightarrow> int \<Rightarrow> task_fault option \<Rightarrow> string \<Rightarrow> nat \<Rightarrow> nat \<Rightarrow> screening_world \<Rightarrow> run_end \<times> screening_world" where
  "semantic_task sv now fault tid i retries w =
     (if already_done tid (sw_db w) then (RE_DONE, w)
      else
        let w1 = start_task tid ''SEMANTIC_SCORE'' i w;
            skip = (\<lambda>h. end_task fault tid ''SEMANTIC_SCORE'' i retries (with_db h w1))
        in (case find_candidate i (sw_db w1) of
              None \<Rightarrow> skip (sw_db w1)
            | Some cc \<Rightarrow>
                (case find_campaign (cc_campaign cc) (sw_db w1) of
                   None \<Rightarrow> fail_task tid ''SEMANTIC_SCORE'' i retries (raise_value ''Campaign not found'') w1
                 | Some ca \<Rightarrow>
                     if ca_status ca \<notin> set scoreable then skip (sw_db w1)
                     else if cc_det_passed cc \<noteq> Some True then skip (sw_db w1)
                     else
                       (case embedding_of (cc_resume cc) (sw_embeddings w1) of
                          None \<Rightarrow> skip (record_missing_embedding now i (sw_db w1))
                        | Some re \<Rightarrow>
                            (case embedding_of (ca_jd ca) (sw_jd_embeddings w1) of
                               None \<Rightarrow> if retries < 3 then (RE_RETRY 60, set_tasks (mark_retry tid) w1)
                                       else skip (clear_semantic_score i (sw_db w1))
                             | Some je \<Rightarrow>
                                 if snd re \<noteq> snd je then skip (clear_semantic_score i (sw_db w1))
                                 else (case work_fault fault of
                                         Some e \<Rightarrow> fail_task tid ''SEMANTIC_SCORE'' i retries e w1
                                       | None \<Rightarrow> end_task fault tid ''SEMANTIC_SCORE'' i retries
                                           (score_and_persist_semantic sv now cc ca (snd je) w1)))))))"

section \<open>The AI evaluation task\<close>

definition in_percent :: "int \<Rightarrow> bool" where
  "in_percent x \<longleftrightarrow> 0 \<le> x \<and> x \<le> 100"

definition parse_recommendation :: "string \<Rightarrow> ai_recommendation option" where
  "parse_recommendation s =
     (if s = ''SHORTLIST'' then Some AI_SHORTLIST else if s = ''HOLD'' then Some AI_HOLD
      else if s = ''REJECT'' then Some AI_REJECT else None)"

definition validate_response :: "ai_response \<Rightarrow> (failure, ai_response \<times> ai_recommendation) result" where
  "validate_response r =
     (case parse_recommendation (ar_recommendation r) of
        Some k \<Rightarrow>
          if list_all in_percent [ar_technical r, ar_experience r, ar_education r, ar_domain r, ar_overall r, ar_confidence r]
          then Inr (r, k) else Inl (raise_value ''AI Evaluation response failed schema validation'')
      | None \<Rightarrow> Inl (raise_value ''AI Evaluation response failed schema validation''))"

definition response_json :: "ai_response \<Rightarrow> json_dict" where
  "response_json r =
     [(''scores'', JObj [(''technical_match'', JNum (of_int (ar_technical r))), (''experience_match'', JNum (of_int (ar_experience r))),
        (''education_match'', JNum (of_int (ar_education r))), (''domain_match'', JNum (of_int (ar_domain r))),
        (''overall_score'', JNum (of_int (ar_overall r)))]),
      (''confidence_score'', JNum (of_int (ar_confidence r))), (''recommendation'', JStr (ar_recommendation r)),
      (''strengths'', JArr (map JStr (ar_strengths r))), (''gaps'', JArr (map JStr (ar_gaps r)))]"

definition store_evaluation :: "int \<Rightarrow> nat \<Rightarrow> ai_response \<times> ai_recommendation \<Rightarrow> hiring_db \<Rightarrow> hiring_db" where
  "store_evaluation now i = (\<lambda>(r, k) h.
     update_candidate i (\<lambda>c. c\<lparr>cc_updated_at := Some now\<rparr>)
       (update_ai i (\<lambda>a. a\<lparr>ae_effective := Some (of_int (ar_overall r)), ae_confidence := Some (of_int (ar_confidence r) / 100),
          ae_recommendation := Some k, ae_strengths := Some (JArr (map JStr (ar_strengths r))),
          ae_weaknesses := Some (JArr (map JStr (ar_gaps r))), ae_response := Some (JObj (response_json r)),
          ae_status := AI_COMPLETED\<rparr>) (snd (get_or_create_ai i h))))"

fun join :: "string \<Rightarrow> string list \<Rightarrow> string" where
  "join sep [] = []"
| "join sep [x] = x"
| "join sep (x # y # xs) = x @ sep @ join sep (y # xs)"

definition ai_rejection_reason :: "ai_response \<Rightarrow> string" where
  "ai_rejection_reason r =
     (if ar_gaps r = [] then ''AI evaluation recommended rejection.''
      else ''AI evaluation identified the following gaps: '' @ join ''; '' (ar_gaps r))"

definition apply_recommendation ::
    "int \<Rightarrow> campaign_candidate \<Rightarrow> ai_response \<times> ai_recommendation \<Rightarrow> hiring_db \<Rightarrow> bool \<times> hiring_db" where
  "apply_recommendation now cc = (\<lambda>(r, k) h.
     let d = Some (response_json r) in
     case k of
       AI_REJECT \<Rightarrow> transition_to_rejected now cc ''AI evaluation rejection'' d DS_AI (Some (ai_rejection_reason r)) d None h
     | AI_SHORTLIST \<Rightarrow> transition_on_ai_success now cc SHORTLISTED DT_SHORTLISTED ''AI evaluation shortlist recommendation'' d
           (Some ''AI evaluation recommended shortlisting this candidate.'') d h
     | AI_HOLD \<Rightarrow> transition_on_ai_success now cc HOLD DT_HOLD ''AI evaluation hold recommendation'' d
           (Some ''AI evaluation recommended placing this candidate on hold.'') d h)"

definition ai_body ::
    "screening_env \<Rightarrow> campaign_candidate \<Rightarrow> campaign_row \<Rightarrow> campaign_world \<Rightarrow> (failure, ai_response \<times> ai_recommendation) result" where
  "ai_body sv cc ca m =
     (if sv_resume sv (cc_resume cc) = None then Inl (raise_value ''Resume has no parsed_json'')
      else if jd_by_id (ca_jd ca) m = None \<or> (case sv_job sv (ca_jd ca) of None \<Rightarrow> True | Some j \<Rightarrow> jb_json j = [])
      then Inl (raise_value ''Job description has no extracted_json'')
      else (case validate_prompt (ca_ai_prompt ca) ''AI_EVALUATE'' m of
              Inl _ \<Rightarrow> Inl (raise_value ''Prompt template cannot be used'')
            | Inr p \<Rightarrow> res_bind (sv_llm sv p (cc_resume cc) (ca_jd ca)) validate_response))"

definition semantic_gate :: "campaign_candidate \<Rightarrow> bool" where
  "semantic_gate cc = (case cc_sem_breakdown cc of None \<Rightarrow> False | Some b \<Rightarrow> json_truthy (json_field b ''semantic_passed''))"

text \<open>What is sent when the log is marked as done.\<close>

definition after_evaluation :: "screening_env \<Rightarrow> nat \<Rightarrow> ai_recommendation \<Rightarrow> bool \<Rightarrow> screening_world \<Rightarrow> screening_world" where
  "after_evaluation sv i k moved w =
     (if k = AI_REJECT then (if moved then after_rejection sv i w else w)
      else on_main (enqueue_composite (sv_broker sv) TR_AI_EVALUATION i) w)"

definition then_send :: "(screening_world \<Rightarrow> screening_world) \<Rightarrow> run_end \<times> screening_world \<Rightarrow> run_end \<times> screening_world" where
  "then_send g = (\<lambda>(r, w). (r, if r = RE_DONE then g w else w))"

definition ai_task ::
    "screening_env \<Rightarrow> int \<Rightarrow> task_fault option \<Rightarrow> string \<Rightarrow> nat \<Rightarrow> nat \<Rightarrow> screening_world \<Rightarrow> run_end \<times> screening_world" where
  "ai_task sv now fault tid i retries w =
     (if already_done tid (sw_db w) then (RE_DONE, w)
      else
        let w1 = start_task tid ''AI_EVALUATE'' i w;
            failed = (\<lambda>e. fail_task tid ''AI_EVALUATE'' i retries e w1);
            skip = end_task fault tid ''AI_EVALUATE'' i retries w1
        in (case find_candidate i (sw_db w1) of
              None \<Rightarrow> skip
            | Some cc \<Rightarrow>
                (case find_campaign (cc_campaign cc) (sw_db w1) of
                   None \<Rightarrow> failed (raise_value ''Campaign not found'')
                 | Some ca \<Rightarrow>
                     if ca_status ca \<notin> set scoreable \<or> cc_stage cc = REJECTED \<or> \<not> semantic_gate cc then skip
                     else
                       (case res_bind (case work_fault fault of Some e \<Rightarrow> Inl e | None \<Rightarrow> Inr ()) (\<lambda>_. ai_body sv cc ca (sw_main w1)) of
                          Inl e \<Rightarrow> failed e
                        | Inr (r, k) \<Rightarrow>
                            let (moved, h) = apply_recommendation now cc (r, k) (store_evaluation now i (r, k) (sw_db w1));
                                w2 = with_db (audit None (Some SYSTEM) ''AI_EVALUATION_COMPUTED'' i (response_json r) h) w1
                            in then_send (after_evaluation sv i k moved) (end_task fault tid ''AI_EVALUATE'' i retries w2)))))"

section \<open>The override of a rejection\<close>

datatype hr_override_error = HE_Not_Found | HE_Not_Rejected | HE_Wrong_Layer | HE_Not_Allowed

definition post_override_evaluation :: "screening_env \<Rightarrow> campaign_candidate \<Rightarrow> screening_world \<Rightarrow> screening_world" where
  "post_override_evaluation sv cc w =
     (if cc_sem_score cc \<noteq> None then enqueue_ai sv (cc_id cc) w
      else snd (enqueue_semantic sv (cc_id cc) (cc_resume cc) w))"

definition override_change_reason :: string where
  "override_change_reason = ''RECRUITER override of deterministic rejection''"

definition hr_override ::
    "screening_env \<Rightarrow> int \<Rightarrow> nat \<Rightarrow> string \<Rightarrow> string \<Rightarrow> role_name option \<Rightarrow> screening_world
     \<Rightarrow> (hr_override_error, screening_world) result" where
  "hr_override sv now i reason actor role w =
     (case find_candidate i (sw_db w) of
        None \<Rightarrow> Inl HE_Not_Found
      | Some cc \<Rightarrow>
          if cc_stage cc \<noteq> REJECTED then Inl HE_Not_Rejected
          else if cc_decision_type cc \<noteq> Some DT_REJECTED \<or> cc_decision_source cc \<notin> set [Some DS_DETERMINISTIC, Some DS_SEMANTIC]
          then Inl HE_Wrong_Layer
          else
            let h1 = update_candidate i (\<lambda>c. c\<lparr>cc_det_passed := Some True\<rparr>) (sw_db w);
                h2 = update_ai i (\<lambda>a. a\<lparr>ae_status := AI_PENDING\<rparr>) (snd (get_or_create_ai i h1));
                (ok, h3) = apply_hr_override now cc actor override_change_reason (Some reason) h2
            in if \<not> ok then Inl HE_Not_Allowed
               else
                 let d = overridden_details cc;
                     h4 = audit (Some actor) role ''DETERMINISTIC_OVERRIDE_APPLIED'' i
                       [(''override_reason'', JStr reason), (''original_rejection_reason'', json_get d ''overridden_decision_reason''),
                        (''overridden_layer'', json_get d ''overridden_decision_source'')] h3;
                     w1 = with_db h4 w
                 in Inr (post_override_evaluation sv cc w1))"

end
