(* ===== verification/Campaign_Lifecycle_Props.thy ===== *)
theory Campaign_Lifecycle_Props
  imports Campaign_Lifecycle
begin

text \<open>
  What the handlers of \<open>Campaign_Lifecycle\<close> guarantee: laws of the campaign table that every
  request keeps, the life cycle of a campaign, the sweep of expired campaigns, and what
  happens to the queued work of a campaign that is paused, resumed, closed or reopened.
\<close>

section \<open>What the handlers do to the campaign table\<close>

lemma audit_frame [simp]:
  "hd_campaigns (audit a r x e d h) = hd_campaigns h" "hd_tasks (audit a r x e d h) = hd_tasks h"
  "hd_candidates (audit a r x e d h) = hd_candidates h" "hd_resumes (audit a r x e d h) = hd_resumes h"
  by (simp_all add: audit_def)

lemma set_task_status_frame [simp]:
  "hd_campaigns (set_task_status i s h) = hd_campaigns h" "hd_candidates (set_task_status i s h) = hd_candidates h"
  "hd_resumes (set_task_status i s h) = hd_resumes h" "hd_audit (set_task_status i s h) = hd_audit h"
  by (simp_all add: set_task_status_def)

lemma apply_async_frame: "apply_async ev name args i w = (r, w') \<Longrightarrow> cw_db w' = cw_db w"
  by (auto simp: apply_async_def split: if_splits)

lemma resubmit_frame:
  "resubmit ev ts w = (r, w') \<Longrightarrow>
     hd_campaigns (cw_db w') = hd_campaigns (cw_db w) \<and> hd_candidates (cw_db w') = hd_candidates (cw_db w)
     \<and> hd_resumes (cw_db w') = hd_resumes (cw_db w)"
proof (induction ev ts w arbitrary: r w' rule: resubmit.induct)
  case (2 ev t ts w)
  show ?case
  proof (cases "tk_type t = ''DETERMINISTIC_SCORE''")
    case False
    then show ?thesis using 2 by simp
  next
    case True
    obtain q w1 where sent: "apply_async ev ''scoring.calculate_deterministic_score''
        [(''campaign_candidate_id'', json_opt (\<lambda>i. JNum (of_nat i)) (tk_candidate t))] (tk_id t) w = (q, w1)"
      by (metis surj_pair)
    note db = apply_async_frame[OF sent]
    show ?thesis
    proof (cases q)
      case (Inl e)
      then show ?thesis using 2(3) True sent db by simp
    next
      case (Inr u)
      obtain p w2 where rest: "resubmit ev ts (w1\<lparr>cw_db := set_task_status (tk_id t) TK_QUEUED (cw_db w1)\<rparr>) = (p, w2)"
        by (metis surj_pair)
      have "w' = w2" using 2(3) True sent Inr rest by (cases p) simp_all
      then show ?thesis using 2(2)[OF _ sent[symmetric] Inr rest] True db by simp
    qed
  qed
qed simp

lemma enqueue_parses_frame:
  "enqueue_parses ev rs w = (r, w') \<Longrightarrow> hd_campaigns (cw_db w') = hd_campaigns (cw_db w)"
proof (induction rs arbitrary: r w w')
  case (Cons x rs)
  let ?i = "ev_fresh ev (hd_next_id (cw_db w))"
  let ?w0 = "w\<lparr>cw_resume_tasks := cw_resume_tasks w @ [(re_id x, ?i)],
       cw_db := (cw_db w)\<lparr>hd_next_id := Suc (hd_next_id (cw_db w))\<rparr>\<rparr>"
  obtain q w1 where sent: "apply_async ev ''resume.process_document'' [(''resume_id'', JNum (of_nat (re_id x)))] ?i ?w0 = (q, w1)"
    by (metis surj_pair)
  have db: "hd_campaigns (cw_db w1) = hd_campaigns (cw_db w)" using apply_async_frame[OF sent] by simp
  show ?case
  proof (cases q)
    case (Inl e)
    then show ?thesis using Cons.prems sent db by (simp add: Let_def)
  next
    case (Inr u)
    obtain p w2 where rest: "enqueue_parses ev rs w1 = (p, w2)" by (metis surj_pair)
    have "w' = w2" using Cons.prems sent Inr rest by (cases p) (simp_all add: Let_def)
    then show ?thesis using Cons.IH[OF rest] db by simp
  qed
qed simp

lemma status_effects_frame:
  assumes "status_effects ev c m b w = (r, w')"
  shows "hd_campaigns (cw_db w') = hd_campaigns (cw_db w)"
proof -
  have pause: "hd_campaigns (cw_db (snd (pause_effects i w))) = hd_campaigns (cw_db w)" for i
    by (simp add: pause_effects_def suspend_queued_tasks_def)
  have resume: "hd_campaigns (cw_db (snd (resume_effects ev i w))) = hd_campaigns (cw_db w)" for i
  proof -
    obtain q w1 where one: "resubmit_paused_tasks ev i w = (q, w1)" by (metis surj_pair)
    obtain p w2 where two: "enqueue_pending_resume_parses ev i w1 = (p, w2)" by (metis surj_pair)
    show ?thesis
      using resubmit_frame[OF one[unfolded resubmit_paused_tasks_def]]
        enqueue_parses_frame[OF two[unfolded enqueue_pending_resume_parses_def]]
      by (cases q; cases p) (simp_all add: resume_effects_def one two)
  qed
  show ?thesis using assms pause[of "ca_id m"] resume[of "ca_id m"]
    by (auto simp: status_effects_def Let_def case_prod_beta split: if_splits)
qed

lemma composite_frame:
  "hd_campaigns (cw_db (enqueue_composite ev tr i w)) = hd_campaigns (cw_db w)"
  by (auto simp: enqueue_composite_def Let_def apply_async_def)

lemma recalculation_frame:
  "hd_campaigns (cw_db (enqueue_composite_recalculation ev i w)) = hd_campaigns (cw_db w)"
proof -
  have "hd_campaigns (cw_db (fold (enqueue_composite ev tr) is w)) = hd_campaigns (cw_db w)" for tr "is"
    by (induction "is" arbitrary: w) (simp_all add: composite_frame)
  then show ?thesis by (simp add: enqueue_composite_recalculation_def)
qed

lemma record_weight_frame [simp]:
  "hd_campaigns (cw_db (record_weight_change c old by w)) = hd_campaigns (cw_db w)"
  by (simp add: record_weight_change_def)

lemma manager_frame [simp]:
  "hd_campaigns (cw_db (audit_manager_change old new by w)) = hd_campaigns (cw_db w)"
  by (simp add: audit_manager_change_def)

definition replace_row :: "nat \<Rightarrow> campaign_row \<Rightarrow> campaign_row list \<Rightarrow> campaign_row list" where
  "replace_row i m cs = map (\<lambda>x. if ca_id x = i then m else x) cs"

lemma flush_result:
  assumes "flush_campaign c h = Inr (m, h')"
  shows "stored_row c = Inr m" "hd_campaigns h' = replace_row (ca_id c) m (hd_campaigns h)"
    "h' = update_campaign_row (ca_id c) (\<lambda>_. m) h"
  using assms by (auto simp: flush_campaign_def res_bind_Inr_iff update_campaign_row_def replace_row_def)

lemma stored_row_facts:
  assumes "stored_row c = Inr m"
  shows "ca_w_det m + ca_w_sem m + ca_w_ai m = 100" "ca_id m = ca_id c" "ca_status m = ca_status c"
    "ca_org m = ca_org c" "ca_jd m = ca_jd c" "ca_name m = ca_name c" "ca_max m = ca_max c"
    "ca_deadline m = ca_deadline c" "ca_manager m = ca_manager c" "ca_created_by m = ca_created_by c"
    "ca_w_det m = to_places half_up 2 (ca_w_det c)" "ca_w_sem m = to_places half_up 2 (ca_w_sem c)"
    "ca_w_ai m = to_places half_up 2 (ca_w_ai c)"
  using assms by (auto simp: stored_row_def numeric_def Let_def split: option.splits if_splits)

lemma find_campaign_id: "find_campaign i h = Some c \<Longrightarrow> ca_id c = i \<and> c \<in> set (hd_campaigns h)"
  unfolding find_campaign_def by (auto dest: find_Some_set)

text \<open>What each step of an edit may change.\<close>

lemma edit_status_step:
  "edit_status rq (c, ch) = Inr (m, d) \<Longrightarrow> m = c\<lparr>ca_status := ca_status m\<rparr>
     \<and> (ca_status m = ca_status c \<and> d = ch \<or> ur_status rq = Some (ca_status m) \<and> d \<noteq> []
          \<and> (ca_status c, ca_status m) \<in> {(CS_ACTIVE, CS_PAUSED), (CS_PAUSED, CS_ACTIVE)})
     \<and> (\<forall>s. ur_status rq = Some s \<longrightarrow> ca_status m = s)"
  by (auto simp: edit_status_def Let_def split: option.splits if_splits)

lemma edit_name_step:
  "edit_name h rq (c, ch) = Inr (m, d) \<Longrightarrow> m = c\<lparr>ca_name := ca_name m\<rparr>
     \<and> (ca_name m = ca_name c
        \<or> (\<forall>x. campaign_named (ca_org c) (ca_name m) h = Some x \<longrightarrow> ca_id x = ca_id c))"
  by (auto simp: edit_name_def Let_def split: option.splits if_splits)

lemma edit_openings_step:
  "edit_openings h rq (c, ch) = Inr (m, d) \<Longrightarrow> m = c\<lparr>ca_max := ca_max m\<rparr>
     \<and> (ca_max m = ca_max c \<or> (\<forall>k. ca_max m = Some k \<longrightarrow> selected_count (ca_id c) h \<le> k))"
  by (auto simp: edit_openings_def Let_def split: option.splits if_splits)

lemma edit_deadline_step:
  "edit_deadline now rq (c, ch) = Inr (m, d) \<Longrightarrow> m = c\<lparr>ca_deadline := ca_deadline m\<rparr>
     \<and> (ca_deadline m = ca_deadline c \<or> (\<forall>t. ca_deadline m = Some t \<longrightarrow> now < t))"
  by (auto simp: edit_deadline_def Let_def split: option.splits if_splits)

lemma edit_prompts_step:
  "edit_prompts w rq (c, ch) = Inr (m, d) \<Longrightarrow> m = c\<lparr>ca_prompt := ca_prompt m, ca_ai_prompt := ca_ai_prompt m\<rparr>"
  by (auto simp: edit_prompts_def Let_def res_bind_Inr_iff split: if_splits)

lemma edit_manager_step:
  "edit_manager w rq (c, ch) = Inr (m, d) \<Longrightarrow> m = c\<lparr>ca_manager := ca_manager m\<rparr>"
  by (auto simp: edit_manager_def Let_def split: option.splits if_splits)

lemma validated_weights:
  "validate_scoring_weights a b c w = Inr u \<Longrightarrow>
     a + b + c = 100 \<and> (\<forall>x\<in>{a, b, c}. 0 \<le> x \<and> x \<le> 100 \<and> setting ''MIN_LAYER_WEIGHT'' 5 w \<le> x)"
  by (auto simp: validate_scoring_weights_def Let_def split: if_splits)

lemma changed_Nil: "changed f old new = [] \<longleftrightarrow> pick old new = old"
  by (auto simp: changed_def pick_def split: option.splits)

lemma edit_scoring_step:
  assumes "edit_scoring w rq (c, ch) = Inr (m, d)"
  shows "m = merge_scoring c rq"
    "scoring_changes c rq \<noteq> [] \<Longrightarrow> validate_scoring_weights (ca_w_det m) (ca_w_sem m) (ca_w_ai m) w = Inr ()
       \<and> (ca_status c = CS_ACTIVE \<longrightarrow> ur_confirm rq)"
    "d = ch @ scoring_changes c rq"
proof -
  have same: "scoring_changes c rq = [] \<Longrightarrow> merge_scoring c rq = c"
    by (cases c) (simp add: scoring_changes_def weight_changes_def changed_Nil merge_scoring_def)
  show "m = merge_scoring c rq" "d = ch @ scoring_changes c rq"
    using assms same by (auto simp: edit_scoring_def Let_def res_bind_Inr_iff split: if_splits)
  show "scoring_changes c rq \<noteq> [] \<Longrightarrow> validate_scoring_weights (ca_w_det m) (ca_w_sem m) (ca_w_ai m) w = Inr ()
       \<and> (ca_status c = CS_ACTIVE \<longrightarrow> ur_confirm rq)"
    using assms by (auto simp: edit_scoring_def Let_def res_bind_Inr_iff split: if_splits)
qed

text \<open>
  The whole edit, in one step: the loaded row \<open>c\<close> with new status, name, openings, deadline,
  prompts and manager is \<open>b\<close>, and the scoring fields are merged into it last.
\<close>

lemma edit_row_steps:
  assumes "edit_row now w rq c = Inr (m, ch)"
  obtains b where
    "b = c\<lparr>ca_status := ca_status m, ca_name := ca_name m, ca_max := ca_max m, ca_deadline := ca_deadline m,
           ca_prompt := ca_prompt m, ca_ai_prompt := ca_ai_prompt m, ca_manager := ca_manager m\<rparr>"
    "m = (merge_scoring b rq)\<lparr>ca_updated_at := Some now\<rparr>"
    "ca_status m = ca_status c \<or> ur_status rq = Some (ca_status m)
       \<and> (ca_status c, ca_status m) \<in> {(CS_ACTIVE, CS_PAUSED), (CS_PAUSED, CS_ACTIVE)}"
    "ca_name m = ca_name c
       \<or> (\<forall>x. campaign_named (ca_org c) (ca_name m) (cw_db w) = Some x \<longrightarrow> ca_id x = ca_id c)"
    "ca_max m = ca_max c \<or> (\<forall>k. ca_max m = Some k \<longrightarrow> selected_count (ca_id c) (cw_db w) \<le> k)"
    "ca_deadline m = ca_deadline c \<or> (\<forall>t. ca_deadline m = Some t \<longrightarrow> now < t)"
    "scoring_changes c rq \<noteq> [] \<longrightarrow> validate_scoring_weights (ca_w_det m) (ca_w_sem m) (ca_w_ai m) w = Inr ()
       \<and> (ca_status m = CS_ACTIVE \<longrightarrow> ur_confirm rq)"
    "ch \<noteq> []" "\<forall>s. ur_status rq = Some s \<longrightarrow> ca_status m = s"
proof -
  from assms obtain c1 d1 c2 d2 c3 d3 c4 d4 c5 d5 c6 d6 c7 where
    steps: "edit_status rq (c, []) = Inr (c1, d1)" "edit_name (cw_db w) rq (c1, d1) = Inr (c2, d2)"
      "edit_openings (cw_db w) rq (c2, d2) = Inr (c3, d3)" "edit_deadline now rq (c3, d3) = Inr (c4, d4)"
      "edit_prompts w rq (c4, d4) = Inr (c5, d5)" "edit_manager w rq (c5, d5) = Inr (c6, d6)"
      "edit_scoring w rq (c6, d6) = Inr (c7, ch)" "ch \<noteq> []" "m = c7\<lparr>ca_updated_at := Some now\<rparr>"
    by (auto simp: edit_row_def res_bind_Inr_iff split: if_splits)
  note f1 = edit_status_step[OF steps(1)] and f2 = edit_name_step[OF steps(2)]
    and f3 = edit_openings_step[OF steps(3)] and f4 = edit_deadline_step[OF steps(4)]
    and f5 = edit_prompts_step[OF steps(5)] and f6 = edit_manager_step[OF steps(6)]
    and f7 = edit_scoring_step[OF steps(7)]
  from f1 obtain s where c1: "c1 = c\<lparr>ca_status := s\<rparr>" by blast
  from f2 obtain n where c2: "c2 = c1\<lparr>ca_name := n\<rparr>" by blast
  from f3 obtain k where c3: "c3 = c2\<lparr>ca_max := k\<rparr>" by blast
  from f4 obtain t where c4: "c4 = c3\<lparr>ca_deadline := t\<rparr>" by blast
  from f5 obtain p a where c5: "c5 = c4\<lparr>ca_prompt := p, ca_ai_prompt := a\<rparr>" by blast
  from f6 obtain g where c6: "c6 = c5\<lparr>ca_manager := g\<rparr>" by blast
  have b: "c6 = c\<lparr>ca_status := s, ca_name := n, ca_max := k, ca_deadline := t, ca_prompt := p, ca_ai_prompt := a, ca_manager := g\<rparr>"
    unfolding c6 c5 c4 c3 c2 c1 by (cases c) simp
  have m: "m = (merge_scoring c6 rq)\<lparr>ca_updated_at := Some now\<rparr>" using steps(9) f7(1) by simp
  have same: "scoring_changes c6 rq = scoring_changes c rq" unfolding b by (simp add: scoring_changes_def weight_changes_def)
  show ?thesis
  proof (rule that[of c6])
    show "m = (merge_scoring c6 rq)\<lparr>ca_updated_at := Some now\<rparr>" by (rule m)
    show "c6 = c\<lparr>ca_status := ca_status m, ca_name := ca_name m, ca_max := ca_max m, ca_deadline := ca_deadline m,
           ca_prompt := ca_prompt m, ca_ai_prompt := ca_ai_prompt m, ca_manager := ca_manager m\<rparr>"
      unfolding m b by (cases c) (simp add: merge_scoring_def)
    show "ca_status m = ca_status c \<or> ur_status rq = Some (ca_status m)
       \<and> (ca_status c, ca_status m) \<in> {(CS_ACTIVE, CS_PAUSED), (CS_PAUSED, CS_ACTIVE)}"
      using f1 unfolding m b c1 by (auto simp: merge_scoring_def)
    show "ca_name m = ca_name c
       \<or> (\<forall>x. campaign_named (ca_org c) (ca_name m) (cw_db w) = Some x \<longrightarrow> ca_id x = ca_id c)"
      using f2 unfolding m b c2 c1 by (simp add: merge_scoring_def)
    show "ca_max m = ca_max c \<or> (\<forall>k. ca_max m = Some k \<longrightarrow> selected_count (ca_id c) (cw_db w) \<le> k)"
      using f3 unfolding m b c3 c2 c1 by (simp add: merge_scoring_def)
    show "ca_deadline m = ca_deadline c \<or> (\<forall>t. ca_deadline m = Some t \<longrightarrow> now < t)"
      using f4 unfolding m b c4 c3 c2 c1 by (simp add: merge_scoring_def)
    show "scoring_changes c rq \<noteq> [] \<longrightarrow> validate_scoring_weights (ca_w_det m) (ca_w_sem m) (ca_w_ai m) w = Inr ()
       \<and> (ca_status m = CS_ACTIVE \<longrightarrow> ur_confirm rq)"
      using f7(2) unfolding f7(1) same unfolding m b by (simp add: merge_scoring_def)
    show "ch \<noteq> []" by (rule steps(8))
    show "\<forall>s. ur_status rq = Some s \<longrightarrow> ca_status m = s"
      using f1 unfolding m b c1 by (auto simp: merge_scoring_def)
  qed
qed

section \<open>The sweep of expired campaigns\<close>

definition closed_at :: "int \<Rightarrow> campaign_row \<Rightarrow> campaign_row" where
  "closed_at now c = c\<lparr>ca_status := CS_CLOSED, ca_updated_at := Some now\<rparr>"

lemma batch_rows:
  assumes "distinct (map ca_id (hd_campaigns h))"
    and "set cs \<subseteq> set (hd_campaigns h)"
  shows "hd_campaigns (close_batch now cs h) = map (\<lambda>c. if c \<in> set cs then closed_at now c else c) (hd_campaigns h)"
proof -
  have "c \<in> set cs \<longleftrightarrow> ca_id c \<in> ca_id ` set cs" if "c \<in> set (hd_campaigns h)" for c
    using assms that by (auto simp: distinct_map inj_on_def)
  then show ?thesis by (simp add: close_batch_campaigns closed_at_def)
qed

lemma get_expired_set: "set (get_expired_campaigns now n h) \<subseteq> {c \<in> set (hd_campaigns h). is_expired now c}"
  using expired_active by blast

lemma closed_at_id [simp]: "ca_id (closed_at now c) = ca_id c" "ca_status (closed_at now c) = CS_CLOSED"
  by (simp_all add: closed_at_def)

lemma batch_ids: "map ca_id (hd_campaigns (close_batch now cs h)) = map ca_id (hd_campaigns h)"
  by (simp add: close_batch_campaigns comp_def)

lemma batch_distinct:
  assumes "distinct (map ca_id (hd_campaigns h))"
  shows "distinct (get_expired_campaigns now n h)"
  using assms by (simp add: get_expired_campaigns_def distinct_map)

text \<open>One batch closes as many active campaigns as it has rows, with one audit row each.\<close>

lemma batch_counts:
  assumes "distinct (map ca_id (hd_campaigns h))" "get_expired_campaigns now n h = cs"
  shows "active_count (close_batch now cs h) + length cs = active_count h"
    "length (hd_audit (close_batch now cs h)) = length (hd_audit h) + length cs"
proof -
  let ?A = "{c \<in> set (hd_campaigns h). ca_status c = CS_ACTIVE}"
  have sub: "set cs \<subseteq> ?A" using get_expired_set[of now n h] assms(2) by (auto simp: is_expired_def)
  have dc: "distinct cs" using batch_distinct[OF assms(1)] assms(2) by blast
  have d: "distinct (hd_campaigns h)" using assms(1) by (simp add: distinct_map)
  have act: "active_count h = card ?A"
    unfolding active_count_def using d by (simp add: distinct_length_filter Int_def conj_commute)
  have inj: "inj_on ca_id (set (hd_campaigns h))" using assms(1) by (simp add: distinct_map)
  have "{c \<in> set (hd_campaigns h). ca_status c = CS_ACTIVE \<and> ca_id c \<notin> ca_id ` set cs} = ?A - set cs"
    using sub inj by (auto simp: inj_on_def)
  then have "active_count (close_batch now cs h) = card (?A - set cs)"
    unfolding active_count_close_batch using d by (simp add: distinct_length_filter Int_def conj_commute)
  also have "\<dots> = card ?A - card (set cs)" using sub by (simp add: card_Diff_subset)
  finally show "active_count (close_batch now cs h) + length cs = active_count h"
    using card_mono[OF _ sub] act distinct_card[OF dc] by simp
  have "length (hd_audit (fold (close_expired now) xs h)) = length (hd_audit h) + length xs" for xs h
    by (induction xs arbitrary: h) (simp_all add: close_expired_def audit_def close_row_def update_campaign_row_def)
  then show "length (hd_audit (close_batch now cs h)) = length (hd_audit h) + length cs" by (simp add: close_batch_def)
qed

definition swept :: "(nat \<Rightarrow> int) \<Rightarrow> nat \<Rightarrow> campaign_row \<Rightarrow> campaign_row \<Rightarrow> bool" where
  "swept clock k c m \<longleftrightarrow> m = c \<or> (\<exists>j\<ge>k. is_expired (clock j) c \<and> m = closed_at (clock j) c)"

text \<open>The loop, one batch at a time.\<close>

lemma auto_close_cases:
  obtains "get_expired_campaigns (clock k) n h = []" "auto_close_from n clock k h = (0, h)"
  | cs where "get_expired_campaigns (clock k) n h = cs" "cs \<noteq> []" "length cs < n"
      "auto_close_from n clock k h = (length cs, close_batch (clock k) cs h)"
  | cs m h2 where "get_expired_campaigns (clock k) n h = cs" "cs \<noteq> []" "\<not> length cs < n"
      "auto_close_from n clock (Suc k) (close_batch (clock k) cs h) = (m, h2)"
      "auto_close_from n clock k h = (length cs + m, h2)"
proof (cases "get_expired_campaigns (clock k) n h")
  case Nil
  then show ?thesis using that(1) by (simp add: auto_close_from.simps)
next
  case (Cons c cs)
  obtain m h2 where rest: "auto_close_from n clock (Suc k) (close_batch (clock k) (c # cs) h) = (m, h2)" by (metis surj_pair)
  show ?thesis
  proof (cases "length (c # cs) < n")
    case True
    then show ?thesis using that(2)[OF Cons] by (simp add: auto_close_from.simps[of n clock k h] Cons Let_def)
  next
    case False
    then show ?thesis using that(3)[OF Cons _ _ rest] rest
      by (simp add: auto_close_from.simps[of n clock k h] Cons Let_def)
  qed
qed

lemma auto_close_rows:
  assumes "auto_close_from n clock k h = (t, h')" "distinct (map ca_id (hd_campaigns h))"
  shows "list_all2 (swept clock k) (hd_campaigns h) (hd_campaigns h')
    \<and> active_count h' + t = active_count h \<and> length (hd_audit h') = length (hd_audit h) + t"
  using assms
proof (induction "active_count h" arbitrary: k h t h' rule: less_induct)
  case less
  have refl: "list_all2 (swept clock j) xs xs" for j xs by (simp add: list_all2_same swept_def)
  have one: "list_all2 (swept clock k) (hd_campaigns h) (hd_campaigns (close_batch (clock k) cs h))"
    if "get_expired_campaigns (clock k) n h = cs" for cs
  proof -
    have "set cs \<subseteq> {c \<in> set (hd_campaigns h). is_expired (clock k) c}" using get_expired_set that by blast
    then have sub: "set cs \<subseteq> set (hd_campaigns h)" "\<And>c. c \<in> set cs \<Longrightarrow> is_expired (clock k) c" by auto
    show ?thesis unfolding batch_rows[OF less.prems(2) sub(1)]
      using sub(2) by (auto simp: list_all2_map2 list_all2_same swept_def)
  qed
  show ?case
  proof (cases rule: auto_close_cases[of clock k n h])
    case 1
    then show ?thesis using less.prems refl by simp
  next
    case (2 cs)
    then show ?thesis using less.prems one[OF 2(1)] batch_counts[OF less.prems(2) 2(1)] by simp
  next
    case (3 cs m h2)
    let ?h1 = "close_batch (clock k) cs h"
    have dec: "active_count ?h1 < active_count h" using close_batch_decreases 3(1,2) by (cases cs) auto
    have d1: "distinct (map ca_id (hd_campaigns ?h1))" using less.prems(2) by (simp add: batch_ids)
    have res: "t = length cs + m" "h' = h2" using less.prems(1) 3(5) by simp_all
    note ih = less.hyps[OF dec 3(4) d1]
    have trans: "swept clock k a c" if "swept clock k a b" "swept clock (Suc k) b c" for a b c
    proof -
      from that(1) consider "b = a" | "ca_status b = CS_CLOSED" unfolding swept_def by auto
      then show ?thesis
      proof cases
        case 1
        then show ?thesis using that(2) Suc_leD unfolding swept_def by blast
      next
        case 2
        then have "c = b" using that(2) unfolding swept_def is_expired_def by auto
        then show ?thesis using that(1) by simp
      qed
    qed
    have "list_all2 (swept clock k) (hd_campaigns h) (hd_campaigns h')"
      unfolding res(2) by (rule list_all2_trans[OF _ one[OF 3(1)] conjunct1[OF ih]]) (rule trans)
    then show ?thesis using ih batch_counts[OF less.prems(2) 3(1)] res by simp
  qed
qed

text \<open>Nothing that was expired when the sweep began is left open.\<close>

lemma batch_small:
  assumes "length (get_expired_campaigns now n h) < n"
  shows "get_expired_campaigns now n h = filter (is_expired now) (hd_campaigns h)"
  using assms unfolding get_expired_campaigns_def by (simp add: min_def split: if_splits)

lemma auto_close_complete:
  assumes "auto_close_from n clock k h = (t, h')" "distinct (map ca_id (hd_campaigns h))" "0 < n"
    and "\<And>j. k \<le> j \<Longrightarrow> now \<le> clock j"
  shows "\<forall>c\<in>set (hd_campaigns h'). \<not> is_expired now c"
  using assms
proof (induction "active_count h" arbitrary: k h t h' rule: less_induct)
  case less
  have later: "is_expired now c \<Longrightarrow> is_expired (clock k) c" for c
    using less.prems(4)[of k] by (auto simp: is_expired_def split: option.splits)
  show ?case
  proof (cases rule: auto_close_cases[of clock k n h])
    case 1
    then have "filter (is_expired (clock k)) (hd_campaigns h) = []"
      using less.prems(3) by (simp add: get_expired_campaigns_def)
    then show ?thesis using 1 less.prems(1) later by (auto simp: filter_empty_conv)
  next
    case (2 cs)
    then have all: "cs = filter (is_expired (clock k)) (hd_campaigns h)" using batch_small by blast
    show ?thesis
      using 2(4) less.prems(1) later batch_rows[OF less.prems(2), of cs "clock k"]
      by (auto simp: all) (auto simp: is_expired_def)
  next
    case (3 cs m h2)
    let ?h1 = "close_batch (clock k) cs h"
    have dec: "active_count ?h1 < active_count h" using close_batch_decreases 3(1,2) by (cases cs) auto
    have d1: "distinct (map ca_id (hd_campaigns ?h1))" using less.prems(2) by (simp add: batch_ids)
    have "h' = h2" using less.prems(1) 3(5) by simp
    then show ?thesis using less.hyps[OF dec 3(4) d1 less.prems(3)] less.prems(4) by simp
  qed
qed

text \<open>
  Property C18.  The sweep of expired campaigns returns after finitely many batches, whatever
  the clock and the batch size.  Started with a positive batch size under a clock that does not go
  back, it leaves no campaign open that was expired when it began, touches no campaign that
  was not active and expired at one of its clock readings, changes nothing but status and
  time stamp of a campaign, and returns the number of campaigns it closed, each with one
  audit row.
\<close>

theorem auto_close_exact:
  assumes "distinct (map ca_id (hd_campaigns h))" and "0 < n" and "\<forall>k. clock 0 \<le> clock k"
  shows "\<exists>t h'. auto_close_expired_campaigns n clock h = (t, h')
    \<and> list_all2 (\<lambda>c m. m = c \<or> (\<exists>k. ca_status c = CS_ACTIVE \<and> (\<exists>d. ca_deadline c = Some d \<and> d < clock k)
          \<and> m = c\<lparr>ca_status := CS_CLOSED, ca_updated_at := Some (clock k)\<rparr>)) (hd_campaigns h) (hd_campaigns h')
    \<and> (\<forall>c\<in>set (hd_campaigns h'). \<not> is_expired (clock 0) c)
    \<and> t = active_count h - active_count h' \<and> length (hd_audit h') = length (hd_audit h) + t"
proof -
  obtain t h' where run: "auto_close_from n clock 0 h = (t, h')" by (metis surj_pair)
  note rows = auto_close_rows[OF run assms(1)]
  have "list_all2 (\<lambda>c m. m = c \<or> (\<exists>k. ca_status c = CS_ACTIVE \<and> (\<exists>d. ca_deadline c = Some d \<and> d < clock k)
          \<and> m = c\<lparr>ca_status := CS_CLOSED, ca_updated_at := Some (clock k)\<rparr>)) (hd_campaigns h) (hd_campaigns h')"
    by (rule list_all2_mono[OF conjunct1[OF rows]])
      (fastforce simp: swept_def closed_at_def is_expired_def split: option.splits)
  then show ?thesis
    using run rows auto_close_complete[OF run assms(1,2), of "clock 0"] assms(3)
    by (auto simp: auto_close_expired_campaigns_def)
qed

section \<open>Requests as steps\<close>

datatype campaign_event =
  EV_Create | EV_Update int | EV_Scoring | EV_Close | EV_Reopen int | EV_Sweep "nat \<Rightarrow> int" | EV_Filled | EV_Other

text \<open>
  \<open>EV_Other\<close> is any other write of the program: it changes no campaign row.
\<close>

inductive campaign_step :: "campaign_event \<Rightarrow> campaign_world \<Rightarrow> campaign_world \<Rightarrow> bool" where
  step_create: "parse_create raw = Some rq \<Longrightarrow> i \<notin> ca_id ` set (hd_campaigns (cw_db w)) \<Longrightarrow>
     create_campaign now i org by rq w = Inr w' \<Longrightarrow> campaign_step EV_Create w w'"
| step_update: "parse_update raw = Some rq \<Longrightarrow> update_campaign ev now i rq by w = (r, w') \<Longrightarrow>
     campaign_step (EV_Update now) w w'"
| step_scoring: "update_scoring_configuration ev now i rq by w = Inr w' \<Longrightarrow> campaign_step EV_Scoring w w'"
| step_reset: "reset_scoring_to_defaults ev now i by w = Inr w' \<Longrightarrow> campaign_step EV_Scoring w w'"
| step_defaults: "update_platform_default_weights rq by w = (r, w') \<Longrightarrow> campaign_step EV_Other w w'"
| step_close: "close_campaign now i reason by w = Inr (r, w') \<Longrightarrow> campaign_step EV_Close w w'"
| step_reopen: "reopen_campaign now i by w = Inr (r, w') \<Longrightarrow> campaign_step (EV_Reopen now) w w'"
| step_sweep: "auto_close_expired_campaigns n clock (cw_db w) = (t, h) \<Longrightarrow>
     campaign_step (EV_Sweep clock) w (w\<lparr>cw_db := h\<rparr>)"
| step_filled: "close_if_filled now i by role (cw_db w) = (b, h) \<Longrightarrow> campaign_step EV_Filled w (w\<lparr>cw_db := h\<rparr>)"
| step_other: "hd_campaigns (cw_db w') = hd_campaigns (cw_db w) \<Longrightarrow> campaign_step EV_Other w w'"

inductive campaign_run :: "campaign_world \<Rightarrow> campaign_world \<Rightarrow> bool" where
  run_refl: "campaign_run w w"
| run_step: "campaign_run w u \<Longrightarrow> campaign_step e u v \<Longrightarrow> campaign_run w v"

text \<open>How an event may change the status of a campaign.\<close>

fun status_edge :: "campaign_event \<Rightarrow> campaign_world \<Rightarrow> campaign_row \<Rightarrow> campaign_row \<Rightarrow> bool" where
  "status_edge (EV_Update now) w c m \<longleftrightarrow>
     (ca_status c, ca_status m) \<in> {(CS_ACTIVE, CS_ACTIVE), (CS_PAUSED, CS_PAUSED), (CS_ACTIVE, CS_PAUSED), (CS_PAUSED, CS_ACTIVE)}
     \<and> (ca_max m = ca_max c \<or> (\<forall>k. ca_max m = Some k \<longrightarrow> selected_count (ca_id c) (cw_db w) \<le> k))
     \<and> (ca_deadline m = ca_deadline c \<or> (\<forall>t. ca_deadline m = Some t \<longrightarrow> now < t))"
| "status_edge EV_Scoring w c m \<longleftrightarrow> ca_status m = ca_status c"
| "status_edge EV_Close w c m \<longleftrightarrow> ca_status c \<noteq> CS_CLOSED \<and> ca_status m = CS_CLOSED"
| "status_edge (EV_Reopen now) w c m \<longleftrightarrow> ca_status c = CS_CLOSED \<and> ca_status m = CS_ACTIVE
     \<and> readiness_issues c w = [] \<and> (\<forall>t. ca_deadline m = Some t \<longrightarrow> now < t)"
| "status_edge (EV_Sweep clock) w c m \<longleftrightarrow> ca_status m = CS_CLOSED \<and> (\<exists>k. is_expired (clock k) c)"
| "status_edge EV_Filled w c m \<longleftrightarrow> ca_status c \<noteq> CS_CLOSED \<and> ca_status m = CS_CLOSED
     \<and> (\<exists>k. ca_max c = Some k \<and> k \<le> selected_count (ca_id c) (cw_db w))"
| "status_edge _ w c m \<longleftrightarrow> False"

definition weights_stored :: "campaign_row \<Rightarrow> bool" where
  "weights_stored c \<longleftrightarrow> ca_w_det c + ca_w_sem c + ca_w_ai c = 100
     \<and> places 2 (ca_w_det c) \<and> places 2 (ca_w_sem c) \<and> places 2 (ca_w_ai c)"

definition row_step :: "campaign_event \<Rightarrow> nat \<Rightarrow> campaign_world \<Rightarrow> campaign_row \<Rightarrow> campaign_row \<Rightarrow> bool" where
  "row_step e i w c m \<longleftrightarrow> m = c \<or>
     (ca_id m = ca_id c \<and> ca_org m = ca_org c \<and> ca_jd m = ca_jd c \<and> ca_created_by m = ca_created_by c
      \<and> (weights_stored c \<longrightarrow> weights_stored m)
      \<and> (ca_name m = ca_name c
          \<or> ca_id c = i \<and> (\<forall>x. campaign_named (ca_org c) (ca_name m) (cw_db w) = Some x \<longrightarrow> ca_id x = i))
      \<and> status_edge e w c m)"

lemma row_step_refl [simp]: "row_step e i w c c"
  by (simp add: row_step_def)

lemma stored_weights: "stored_row c = Inr m \<Longrightarrow> weights_stored m"
  using stored_row_facts[of c m] by (simp add: weights_stored_def places_def dec.places_idem)

text \<open>A flush of an edited row replaces the row under its key.\<close>

lemma flush_rows:
  assumes "flush_campaign b h = Inr (m, h')" "find_campaign i h = Some c" "ca_id b = i"
    "distinct (map ca_id (hd_campaigns h))" "row_step e i w c m"
  shows "list_all2 (row_step e i w) (hd_campaigns h) (hd_campaigns h')"
proof -
  have only: "x = c" if "x \<in> set (hd_campaigns h)" "ca_id x = i" for x
    using that assms(4) find_campaign_id[OF assms(2)] by (auto simp: distinct_map inj_on_def)
  show ?thesis unfolding flush_result(2)[OF assms(1)] replace_row_def assms(3)
    using only assms(5) by (auto simp: list_all2_map2 list_all2_same)
qed

lemma update_rows:
  assumes run: "update_campaign ev now i rq by w = (r, w')" and d: "distinct (map ca_id (hd_campaigns (cw_db w)))"
  shows "list_all2 (row_step (EV_Update now) i w) (hd_campaigns (cw_db w)) (hd_campaigns (cw_db w'))"
proof -
  have same: ?thesis if "hd_campaigns (cw_db w') = hd_campaigns (cw_db w)" using that by (simp add: list_all2_same)
  consider (keep) "hd_campaigns (cw_db w') = hd_campaigns (cw_db w)"
    | (flush) c b ch m h r1 w1 where "find_campaign i (cw_db w) = Some c" "ca_status c \<noteq> CS_CLOSED"
        "edit_row now w rq c = Inr (b, ch)" "flush_campaign b (cw_db w) = Inr (m, h)"
        "status_effects ev c m (scoring_changes c rq \<noteq> []) (w\<lparr>cw_db := h\<rparr>) = (r1, w1)"
        "hd_campaigns (cw_db w') = hd_campaigns (cw_db w1)"
    using run
    by (fastforce simp: update_campaign_def rolled_back_def Let_def recalculation_frame
        split: option.splits if_splits sum.splits prod.splits)
  then show ?thesis
  proof cases
    case keep
    then show ?thesis by (rule same)
  next
    case flush
    have id: "ca_id c = i" using find_campaign_id[OF flush(1)] by simp
    from edit_row_steps[OF flush(3)] obtain b0 where
      b0: "b0 = c\<lparr>ca_status := ca_status b, ca_name := ca_name b, ca_max := ca_max b, ca_deadline := ca_deadline b,
           ca_prompt := ca_prompt b, ca_ai_prompt := ca_ai_prompt b, ca_manager := ca_manager b\<rparr>"
      and b: "b = (merge_scoring b0 rq)\<lparr>ca_updated_at := Some now\<rparr>"
      and st: "ca_status b = ca_status c \<or> ur_status rq = Some (ca_status b)
       \<and> (ca_status c, ca_status b) \<in> {(CS_ACTIVE, CS_PAUSED), (CS_PAUSED, CS_ACTIVE)}"
      and rest: "ca_name b = ca_name c
       \<or> (\<forall>x. campaign_named (ca_org c) (ca_name b) (cw_db w) = Some x \<longrightarrow> ca_id x = ca_id c)"
      "ca_max b = ca_max c \<or> (\<forall>k. ca_max b = Some k \<longrightarrow> selected_count (ca_id c) (cw_db w) \<le> k)"
      "ca_deadline b = ca_deadline c \<or> (\<forall>t. ca_deadline b = Some t \<longrightarrow> now < t)" by metis
    have keep: "ca_id b = ca_id c" "ca_org b = ca_org c" "ca_jd b = ca_jd c" "ca_created_by b = ca_created_by c"
      using arg_cong[OF b0, of ca_id] arg_cong[OF b, of ca_id] arg_cong[OF b0, of ca_org] arg_cong[OF b, of ca_org]
        arg_cong[OF b0, of ca_jd] arg_cong[OF b, of ca_jd] arg_cong[OF b0, of ca_created_by] arg_cong[OF b, of ca_created_by]
      by (simp_all add: merge_scoring_def)
    note sf = stored_row_facts[OF flush_result(1)[OF flush(4)]]
    have cases: "(ca_status c, ca_status b) \<in> {(CS_ACTIVE, CS_ACTIVE), (CS_PAUSED, CS_PAUSED), (CS_ACTIVE, CS_PAUSED), (CS_PAUSED, CS_ACTIVE)}"
      using st flush(2) by (cases "ca_status c") auto
    have "row_step (EV_Update now) i w c m"
      using keep rest cases stored_weights[OF flush_result(1)[OF flush(4)]] sf id by (auto simp: row_step_def)
    then have "list_all2 (row_step (EV_Update now) i w) (hd_campaigns (cw_db w)) (hd_campaigns h)"
      using keep(1) id by (intro flush_rows[OF flush(4,1) _ d]) simp_all
    then show ?thesis using flush(6) status_effects_frame[OF flush(5)] by simp
  qed
qed

lemma scoring_rows:
  assumes run: "update_scoring_configuration ev now i rq by w = Inr w'"
    and d: "distinct (map ca_id (hd_campaigns (cw_db w)))"
  shows "list_all2 (row_step EV_Scoring i w) (hd_campaigns (cw_db w)) (hd_campaigns (cw_db w'))"
proof -
  from run obtain c m h where c: "find_campaign i (cw_db w) = Some c"
    and flush: "flush_campaign ((merge_scoring c (scoring_update rq))\<lparr>ca_updated_at := Some now\<rparr>) (cw_db w) = Inr (m, h)"
    and db: "hd_campaigns (cw_db w') = hd_campaigns h"
    by (auto simp: update_scoring_configuration_def res_bind_Inr_iff Let_def recalculation_frame split: option.splits if_splits)
  have id: "ca_id c = i" using find_campaign_id[OF c] by simp
  have "row_step EV_Scoring i w c m"
    using stored_row_facts[OF flush_result(1)[OF flush]] stored_weights[OF flush_result(1)[OF flush]]
    by (simp add: row_step_def merge_scoring_def)
  then show ?thesis unfolding db by (intro flush_rows[OF flush c _ d]) (simp_all add: merge_scoring_def id)
qed

lemma one_row:
  assumes "find_campaign i h = Some c" "distinct (map ca_id (hd_campaigns h))" "row_step e i w c (f c)"
  shows "list_all2 (row_step e i w) (hd_campaigns h) (map (\<lambda>x. if ca_id x = i then f x else x) (hd_campaigns h))"
proof -
  have "x = c" if "x \<in> set (hd_campaigns h)" "ca_id x = i" for x
    using that assms(2) find_campaign_id[OF assms(1)] by (auto simp: distinct_map inj_on_def)
  then show ?thesis using assms(3) by (auto simp: list_all2_map2 list_all2_same)
qed

lemma close_rows:
  assumes run: "close_campaign now i reason by w = Inr (r, w')"
    and d: "distinct (map ca_id (hd_campaigns (cw_db w)))"
  shows "list_all2 (row_step EV_Close i w) (hd_campaigns (cw_db w)) (hd_campaigns (cw_db w'))"
proof -
  from run obtain c where c: "find_campaign i (cw_db w) = Some c" and st: "ca_status c \<noteq> CS_CLOSED"
    and db: "hd_campaigns (cw_db w') = map (\<lambda>x. if ca_id x = i then closed_at now x else x) (hd_campaigns (cw_db w))"
    by (auto simp: close_campaign_def Let_def cancel_pending_bulk_jobs_def kill_queued_tasks_def close_row_def
        update_campaign_row_def closed_at_def split: option.splits if_splits)
  show ?thesis unfolding db
    by (rule one_row[OF c d]) (use st in \<open>simp add: row_step_def closed_at_def weights_stored_def\<close>)
qed

lemma reopen_rows:
  assumes run: "reopen_campaign now i by w = Inr (r, w')"
    and d: "distinct (map ca_id (hd_campaigns (cw_db w)))"
  shows "list_all2 (row_step (EV_Reopen now) i w) (hd_campaigns (cw_db w)) (hd_campaigns (cw_db w'))"
proof -
  from run obtain c m h where c: "find_campaign i (cw_db w) = Some c" and st: "ca_status c = CS_CLOSED"
    and ready: "readiness_issues c w = []"
    and flush: "flush_campaign (reopen_row now c) (cw_db w) = Inr (m, h)"
    and db: "hd_campaigns (cw_db w') = hd_campaigns h"
    by (auto simp: reopen_campaign_def get_reopen_readiness_def res_bind_Inr_iff Let_def split: option.splits if_splits)
  have id: "ca_id c = i" using find_campaign_id[OF c] by simp
  have "row_step (EV_Reopen now) i w c m"
    using stored_row_facts[OF flush_result(1)[OF flush]] stored_weights[OF flush_result(1)[OF flush]] st ready
    by (auto simp: row_step_def reopen_row_def split: option.splits if_splits)
  then show ?thesis unfolding db by (intro flush_rows[OF flush c _ d]) (simp_all add: reopen_row_def id)
qed

lemma filled_rows:
  assumes run: "close_if_filled now i by role (cw_db w) = (b, h)"
    and d: "distinct (map ca_id (hd_campaigns (cw_db w)))"
  shows "list_all2 (row_step EV_Filled i w) (hd_campaigns (cw_db w)) (hd_campaigns h)"
proof -
  consider "hd_campaigns h = hd_campaigns (cw_db w)"
    | c k where "find_campaign i (cw_db w) = Some c" "ca_status c \<noteq> CS_CLOSED" "ca_max c = Some k"
        "k \<le> selected_count i (cw_db w)"
        "hd_campaigns h = map (\<lambda>x. if ca_id x = i then closed_at now x else x) (hd_campaigns (cw_db w))"
    using run by (auto simp: close_if_filled_def Let_def update_campaign_row_def closed_at_def not_less
        split: option.splits if_splits)
  then show ?thesis
  proof cases
    case 1
    then show ?thesis by (simp add: list_all2_same)
  next
    case 2
    have "ca_id c = i" using find_campaign_id[OF 2(1)] by simp
    then show ?thesis unfolding 2(5)
      by (intro one_row[OF 2(1) d]) (use 2 in \<open>simp add: row_step_def closed_at_def weights_stored_def\<close>)
  qed
qed

lemma sweep_rows:
  assumes run: "auto_close_expired_campaigns n clock (cw_db w) = (t, h)"
    and d: "distinct (map ca_id (hd_campaigns (cw_db w)))"
  shows "list_all2 (row_step (EV_Sweep clock) i w) (hd_campaigns (cw_db w)) (hd_campaigns h)"
  by (rule list_all2_mono[OF conjunct1[OF auto_close_rows[OF run[unfolded auto_close_expired_campaigns_def] d]]])
    (auto simp: swept_def row_step_def closed_at_def weights_stored_def)

lemma create_rows:
  assumes "create_campaign now i org by rq w = Inr w'"
  shows "\<exists>m. hd_campaigns (cw_db w') = hd_campaigns (cw_db w) @ [m] \<and> ca_id m = i \<and> weights_stored m
     \<and> ca_status m = CS_ACTIVE \<and> campaign_named (ca_org m) (cr_name rq) (cw_db w) = None \<and> ca_name m = strip (cr_name rq)"
proof -
  from assms obtain m h p ap where new: "campaign_named org (cr_name rq) (cw_db w) = None"
    "insert_campaign (new_campaign i org rq p ap by now) (cw_db w) = Inr h" "hd_campaigns (cw_db w') = hd_campaigns h"
    by (auto simp: create_campaign_def res_bind_Inr_iff split: if_splits)
  then obtain m where m: "stored_row (new_campaign i org rq p ap by now) = Inr m"
    "hd_campaigns h = hd_campaigns (cw_db w) @ [m]"
    by (auto simp: insert_campaign_def res_bind_Inr_iff split: if_splits)
  show ?thesis using new m stored_row_facts[OF m(1)] stored_weights[OF m(1)]
    by (intro exI[of _ m]) (simp add: new_campaign_def)
qed

text \<open>A step either appends a new campaign or maps the rows along \<^const>\<open>row_step\<close>.\<close>

lemma step_rows:
  assumes "campaign_step e w w'" "distinct (map ca_id (hd_campaigns (cw_db w)))"
  shows "e = EV_Create \<and> (\<exists>m rq raw. parse_create raw = Some rq \<and> hd_campaigns (cw_db w') = hd_campaigns (cw_db w) @ [m]
        \<and> ca_id m \<notin> ca_id ` set (hd_campaigns (cw_db w)) \<and> weights_stored m \<and> ca_status m = CS_ACTIVE
        \<and> campaign_named (ca_org m) (cr_name rq) (cw_db w) = None \<and> ca_name m = strip (cr_name rq))
    \<or> (\<exists>i. list_all2 (row_step e i w) (hd_campaigns (cw_db w)) (hd_campaigns (cw_db w')))"
  using assms(1)
proof (cases rule: campaign_step.cases)
  case (step_create raw rq i now org usr)
  then show ?thesis using create_rows[OF step_create(4)] by blast
next
  case (step_update raw rq ev now i usr r)
  then show ?thesis using update_rows[OF step_update(3) assms(2)] by auto
next
  case (step_scoring ev now i rq usr)
  then show ?thesis using scoring_rows[OF step_scoring(2) assms(2)] by auto
next
  case (step_reset ev now i usr)
  then obtain rq where "update_scoring_configuration ev now i rq usr w = Inr w'"
    by (auto simp: reset_scoring_to_defaults_def split: option.splits)
  then show ?thesis using scoring_rows[OF _ assms(2)] step_reset(1) by blast
next
  case (step_defaults rq usr r)
  then show ?thesis by (auto simp: update_platform_default_weights_def Let_def list_all2_same split: sum.splits)
next
  case (step_close now i reason usr r)
  then show ?thesis using close_rows[OF step_close(2) assms(2)] by auto
next
  case (step_reopen now i usr r)
  then show ?thesis using reopen_rows[OF step_reopen(2) assms(2)] by auto
next
  case (step_sweep n clock t h)
  then show ?thesis using sweep_rows[OF step_sweep(3) assms(2)] by auto
next
  case (step_filled now i usr role b h)
  then show ?thesis using filled_rows[OF step_filled(3) assms(2)] by auto
next
  case step_other
  then show ?thesis by (simp add: list_all2_same)
qed

section \<open>Laws of the campaign table\<close>

definition campaign_ok :: "hiring_db \<Rightarrow> bool" where
  "campaign_ok h \<longleftrightarrow> distinct (map ca_id (hd_campaigns h)) \<and> (\<forall>c\<in>set (hd_campaigns h). weights_stored c)
     \<and> (\<forall>c\<in>set (hd_campaigns h). \<forall>d\<in>set (hd_campaigns h).
          ca_org c = ca_org d \<and> lower (ca_name c) = lower (ca_name d) \<longrightarrow> ca_id c = ca_id d)"

lemma campaign_okD:
  assumes "campaign_ok h"
  shows "distinct (map ca_id (hd_campaigns h))" "\<forall>c\<in>set (hd_campaigns h). weights_stored c"
    "\<forall>c\<in>set (hd_campaigns h). \<forall>d\<in>set (hd_campaigns h).
       ca_org c = ca_org d \<and> lower (ca_name c) = lower (ca_name d) \<longrightarrow> ca_id c = ca_id d"
  using assms unfolding campaign_ok_def by blast+

lemma named_none:
  "campaign_named org n h = None \<Longrightarrow> c \<in> set (hd_campaigns h) \<Longrightarrow> ca_org c = org \<Longrightarrow> lower (ca_name c) \<noteq> lower n"
  by (auto simp: campaign_named_def find_None_all)

lemma named_own:
  assumes "\<forall>x. campaign_named org n h = Some x \<longrightarrow> ca_id x = i" "campaign_ok h"
    "c \<in> set (hd_campaigns h)" "ca_org c = org" "lower (ca_name c) = lower n"
  shows "ca_id c = i"
proof (cases "campaign_named org n h")
  case None
  then show ?thesis using named_none[OF None assms(3,4)] assms(5) by simp
next
  case (Some x)
  then have "x \<in> set (hd_campaigns h)" "ca_org x = org" "lower (ca_name x) = lower n"
    unfolding campaign_named_def by (auto dest: find_Some_set)
  then show ?thesis using assms(1,3,4,5) Some campaign_okD(3)[OF assms(2)] by metis
qed

lemma rows_ids: "list_all2 (row_step e i w) cs ms \<Longrightarrow> map ca_id ms = map ca_id cs"
  by (induction rule: list_all2_induct) (auto simp: row_step_def)

lemma strip_fixed: "parse_create raw = Some rq \<Longrightarrow> \<exists>n. cr_name rq = strip n"
  by (auto simp: parse_create_def valid_name_def split: option.splits if_splits)

lemma dropWhile_rev_dropWhile:
  "dropWhile P xs = xs \<Longrightarrow> dropWhile P (rev (dropWhile P (rev xs))) = rev (dropWhile P (rev xs))"
proof (cases "rev (dropWhile P (rev xs))")
  case (Cons a ys)
  assume fixed: "dropWhile P xs = xs"
  have "xs = rev (dropWhile P (rev xs)) @ rev (takeWhile P (rev xs))"
    by (metis rev_append rev_rev_ident takeWhile_dropWhile_id)
  then have hd: "xs = a # ys @ rev (takeWhile P (rev xs))" using Cons by simp
  have "\<not> P a" using fixed hd by (metis dropWhile.simps(2) hd_dropWhile list.distinct(1) list.sel(1))
  then show ?thesis using Cons by simp
next
  case Nil
  then show ?thesis by (simp only: dropWhile.simps rev.simps)
qed

lemma strip_idem: "strip (strip s) = strip s"
proof -
  let ?l = "dropWhile is_space s"
  have "dropWhile is_space (strip s) = strip s"
    unfolding strip_def by (rule dropWhile_rev_dropWhile) simp
  then show ?thesis by (simp add: strip_def)
qed

lemma unique_insert:
  assumes "\<forall>c\<in>set xs. \<forall>d\<in>set xs. P c d \<longrightarrow> f c = f d" "\<And>c. c \<in> set xs \<Longrightarrow> \<not> P c m" "\<And>c. c \<in> set xs \<Longrightarrow> \<not> P m c"
  shows "\<forall>c\<in>set (m # xs). \<forall>d\<in>set (m # xs). P c d \<longrightarrow> f c = f d"
  using assms by auto

lemma step_keeps_ok:
  assumes "campaign_step e w w'" "campaign_ok (cw_db w)"
  shows "campaign_ok (cw_db w')"
proof -
  have d: "distinct (map ca_id (hd_campaigns (cw_db w)))" using assms(2) by (rule campaign_okD)
  from step_rows[OF assms(1) d] consider
    (new) m rq raw where "parse_create raw = Some rq" "hd_campaigns (cw_db w') = hd_campaigns (cw_db w) @ [m]"
        "ca_id m \<notin> ca_id ` set (hd_campaigns (cw_db w))" "weights_stored m"
        "campaign_named (ca_org m) (cr_name rq) (cw_db w) = None" "ca_name m = strip (cr_name rq)"
    | (rows) i where "list_all2 (row_step e i w) (hd_campaigns (cw_db w)) (hd_campaigns (cw_db w'))" by blast
  then show ?thesis
  proof cases
    case new
    have "strip (cr_name rq) = cr_name rq" using strip_fixed[OF new(1)] strip_idem by auto
    then have "lower (ca_name c) \<noteq> lower (ca_name m)" if "c \<in> set (hd_campaigns (cw_db w))" "ca_org c = ca_org m" for c
      using named_none[OF new(5) that] new(6) by simp
    then have apart: "\<not> (ca_org c = ca_org m \<and> lower (ca_name c) = lower (ca_name m))"
      if "c \<in> set (hd_campaigns (cw_db w))" for c using that by blast
    have ws: "\<forall>c\<in>set (hd_campaigns (cw_db w)). weights_stored c" using assms(2) by (rule campaign_okD)
    have "\<forall>c\<in>set (m # hd_campaigns (cw_db w)). \<forall>d\<in>set (m # hd_campaigns (cw_db w)).
          ca_org c = ca_org d \<and> lower (ca_name c) = lower (ca_name d) \<longrightarrow> ca_id c = ca_id d"
    proof (rule unique_insert[where P = "\<lambda>c d. ca_org c = ca_org d \<and> lower (ca_name c) = lower (ca_name d)" and f = ca_id])
      show "\<forall>c\<in>set (hd_campaigns (cw_db w)). \<forall>d\<in>set (hd_campaigns (cw_db w)).
          ca_org c = ca_org d \<and> lower (ca_name c) = lower (ca_name d) \<longrightarrow> ca_id c = ca_id d"
        by (rule campaign_okD(3)[OF assms(2)])
      show "\<not> (ca_org c = ca_org m \<and> lower (ca_name c) = lower (ca_name m))"
        if "c \<in> set (hd_campaigns (cw_db w))" for c by (rule apart[OF that])
      show "\<not> (ca_org m = ca_org c \<and> lower (ca_name m) = lower (ca_name c))"
        if "c \<in> set (hd_campaigns (cw_db w))" for c using apart[OF that] by metis
    qed
    then have names: "\<forall>c\<in>set (hd_campaigns (cw_db w')). \<forall>d\<in>set (hd_campaigns (cw_db w')).
          ca_org c = ca_org d \<and> lower (ca_name c) = lower (ca_name d) \<longrightarrow> ca_id c = ca_id d"
      unfolding new(2) by (simp only: set_append list.set Un_insert_right sup_bot_right)
    have "distinct (map ca_id (hd_campaigns (cw_db w')))" "\<forall>c\<in>set (hd_campaigns (cw_db w')). weights_stored c"
      using d ws new(3,4) unfolding new(2) by auto
    with names show ?thesis unfolding campaign_ok_def by blast
  next
    case rows
    note ids = rows_ids[OF rows]
    have origin: "\<exists>c\<in>set (hd_campaigns (cw_db w)). row_step e i w c m" if "m \<in> set (hd_campaigns (cw_db w'))" for m
      using rows that by (metis in_set_conv_nth list_all2_conv_all_nth)
    have ws: "weights_stored m" if "m \<in> set (hd_campaigns (cw_db w'))" for m
      using origin[OF that] campaign_okD(2)[OF assms(2)] unfolding row_step_def by blast
    have names: "ca_id m = ca_id n"
      if "m \<in> set (hd_campaigns (cw_db w'))" "n \<in> set (hd_campaigns (cw_db w'))"
        "ca_org m = ca_org n" "lower (ca_name m) = lower (ca_name n)" for m n
    proof -
      obtain c where c: "c \<in> set (hd_campaigns (cw_db w))" "row_step e i w c m" using origin[OF \<open>m \<in> _\<close>] by blast
      obtain d where d: "d \<in> set (hd_campaigns (cw_db w))" "row_step e i w d n" using origin[OF \<open>n \<in> _\<close>] by blast
      have keep: "ca_id m = ca_id c" "ca_org m = ca_org c" "ca_id n = ca_id d" "ca_org n = ca_org d"
        using c d by (auto simp: row_step_def)
      have cn: "ca_name m = ca_name c \<or> ca_id c = i \<and> (\<forall>x. campaign_named (ca_org c) (ca_name m) (cw_db w) = Some x \<longrightarrow> ca_id x = i)"
        and dn: "ca_name n = ca_name d \<or> ca_id d = i \<and> (\<forall>x. campaign_named (ca_org d) (ca_name n) (cw_db w) = Some x \<longrightarrow> ca_id x = i)"
        using c(2) d(2) by (auto simp: row_step_def)
      from cn show ?thesis
      proof
        assume same: "ca_name m = ca_name c"
        from dn show ?thesis
        proof
          assume "ca_name n = ca_name d"
          then show ?thesis using same that keep c(1) d(1) campaign_okD(3)[OF assms(2)] by metis
        next
          assume fresh: "ca_id d = i \<and> (\<forall>x. campaign_named (ca_org d) (ca_name n) (cw_db w) = Some x \<longrightarrow> ca_id x = i)"
          have "ca_id c = i"
            by (rule named_own[OF conjunct2[OF fresh] assms(2) c(1)]) (use that keep same in auto)
          then show ?thesis using fresh keep by simp
        qed
      next
        assume fresh: "ca_id c = i \<and> (\<forall>x. campaign_named (ca_org c) (ca_name m) (cw_db w) = Some x \<longrightarrow> ca_id x = i)"
        from dn show ?thesis
        proof
          assume same: "ca_name n = ca_name d"
          have "ca_id d = i"
            by (rule named_own[OF conjunct2[OF fresh] assms(2) d(1)]) (use that keep same in auto)
          then show ?thesis using fresh keep by simp
        next
          assume "ca_id d = i \<and> (\<forall>x. campaign_named (ca_org d) (ca_name n) (cw_db w) = Some x \<longrightarrow> ca_id x = i)"
          then show ?thesis using fresh keep by simp
        qed
      qed
    qed
    have "distinct (map ca_id (hd_campaigns (cw_db w')))" using ids d by simp
    with ws names show ?thesis unfolding campaign_ok_def by blast
  qed
qed

text \<open>
  Property C17.  Whatever sequence of requests is served, in whatever order, the campaign ids
  stay distinct, the weights of every campaign sum to 100 in two decimals, and no two
  campaigns of one organisation have the same name up to case.
\<close>

theorem campaign_states_ok:
  assumes "campaign_run w w'" and "campaign_ok (cw_db w)"
  shows "campaign_ok (cw_db w')"
  using assms by (induction rule: campaign_run.induct) (auto intro: step_keeps_ok)

text \<open>
  Property C16.  A campaign is never deleted, renumbered or moved to another organisation or
  job, and its status moves only along the life cycle: an edit exchanges active and paused and
  is refused on a closed campaign, closing is for open campaigns, only reopening leaves
  the closed state and only for a ready job, and afterwards no deadline has passed; the sweep
  closes expired campaigns, a full campaign closes by itself, and an edit never sets
  the openings below the candidates already selected.
\<close>

theorem campaign_life_cycle:
  assumes "campaign_step e w w'" and "campaign_ok (cw_db w)" and "c \<in> set (hd_campaigns (cw_db w))"
  shows "\<exists>m\<in>set (hd_campaigns (cw_db w')). ca_id m = ca_id c \<and> ca_org m = ca_org c \<and> ca_jd m = ca_jd c
     \<and> ca_created_by m = ca_created_by c \<and> (m = c \<or> status_edge e w c m)"
  using step_rows[OF assms(1) campaign_okD(1)[OF assms(2)]]
proof
  assume "\<exists>i. list_all2 (row_step e i w) (hd_campaigns (cw_db w)) (hd_campaigns (cw_db w'))"
  then obtain i m where "m \<in> set (hd_campaigns (cw_db w'))" "row_step e i w c m"
    using assms(3) by (metis in_set_conv_nth list_all2_conv_all_nth)
  then show ?thesis by (auto simp: row_step_def)
qed (use assms(3) in auto)

section \<open>Weights\<close>

lemma apply_async_log: "cw_weight_log (snd (apply_async ev n a i w)) = cw_weight_log w"
  by (simp add: apply_async_def)

lemma resubmit_log: "cw_weight_log (snd (resubmit ev ts w)) = cw_weight_log w"
  by (induction ev ts w rule: resubmit.induct) (auto simp: apply_async_def split: sum.splits prod.splits)

lemma enqueue_parses_log: "enqueue_parses ev rs w = (r, w') \<Longrightarrow> cw_weight_log w' = cw_weight_log w"
  by (induction rs arbitrary: w r) (fastforce simp: apply_async_def Let_def split: sum.splits prod.splits if_splits)+

lemma status_effects_log: "cw_weight_log (snd (status_effects ev c m b w)) = cw_weight_log w"
proof -
  have "cw_weight_log (snd (resume_effects ev i w)) = cw_weight_log w" for i
    using resubmit_log[of ev "filter (\<lambda>t. of_campaign i (cw_db w) t \<and> tk_status t = TK_PAUSED) (hd_tasks (cw_db w))" w]
    by (auto simp: resume_effects_def resubmit_paused_tasks_def enqueue_pending_resume_parses_def
        dest: enqueue_parses_log split: sum.splits prod.splits)
  then show ?thesis by (auto simp: status_effects_def pause_effects_def Let_def case_prod_beta)
qed

lemma recalculation_log: "cw_weight_log (enqueue_composite_recalculation ev i w) = cw_weight_log w"
proof -
  have "cw_weight_log (fold (enqueue_composite ev tr) is w) = cw_weight_log w" for tr "is"
    by (induction "is" arbitrary: w) (simp_all add: enqueue_composite_def Let_def apply_async_log)
  then show ?thesis by (simp add: enqueue_composite_recalculation_def)
qed

lemma find_replaced:
  assumes "find_campaign i h = Some c" "hd_campaigns h' = replace_row i m (hd_campaigns h)" "ca_id m = i"
  shows "find_campaign i h' = Some m"
proof -
  have "find (\<lambda>x. ca_id x = i) (map (\<lambda>x. if ca_id x = i then m else x) xs) = Some m"
    if "find (\<lambda>x. ca_id x = i) xs = Some c" for xs
    using that assms(3) by (induction xs) (auto split: if_splits)
  then show ?thesis using assms by (simp add: find_campaign_def replace_row_def)
qed

text \<open>
  A successful edit that changes a weight leaves weights between the minimum
  of a layer and 100 that sum to 100, needed the confirmation if the campaign is active
  afterwards, and appends exactly one row with the old and the new weights to the history;
  an edit that changes no weight leaves weights and history alone.
\<close>

theorem edited_weights_sound:
  assumes run: "update_campaign ev now i rq by w = (Inr (), w')" and ok: "campaign_ok (cw_db w)"
    and c: "find_campaign i (cw_db w) = Some c"
  shows "\<exists>m. find_campaign i (cw_db w') = Some m
    \<and> (if weight_changes c rq = [] then weights m = weights c \<and> cw_weight_log w' = cw_weight_log w
       else (\<forall>x\<in>{ca_w_det m, ca_w_sem m, ca_w_ai m}. to_places half_up 2 (setting ''MIN_LAYER_WEIGHT'' 5 w) \<le> x \<and> 0 \<le> x \<and> x \<le> 100)
         \<and> ca_w_det m + ca_w_sem m + ca_w_ai m = 100 \<and> (ca_status m = CS_ACTIVE \<longrightarrow> ur_confirm rq)
         \<and> cw_weight_log w' = cw_weight_log w
             @ [\<lparr>wc_campaign = i, wc_old = weights c, wc_new = weights m, wc_by = by, wc_version = ''v1''\<rparr>])"
proof -
  from run c obtain b ch m h a ds w1 where steps: "edit_row now w rq c = Inr (b, ch)"
      "flush_campaign b (cw_db w) = Inr (m, h)"
      "status_effects ev c m (scoring_changes c rq \<noteq> []) (w\<lparr>cw_db := h\<rparr>) = (Inr (a, ds), w1)"
    and w': "w' = (let w3 = audit_manager_change c m by (w1\<lparr>cw_db := audit (Some by) (Some HR_ADMIN) a i
                 ((''changes'', changes_json ch) # ds) (cw_db w1)\<rparr>)
               in if weight_changes c rq = [] then w3
                  else enqueue_composite_recalculation ev i (record_weight_change m (weights c) by w3))"
    by (auto simp: update_campaign_def Let_def split: if_splits sum.splits prod.splits)
  from edit_row_steps[OF steps(1)] obtain b0 where
      b0: "b0 = c\<lparr>ca_status := ca_status b, ca_name := ca_name b, ca_max := ca_max b, ca_deadline := ca_deadline b,
           ca_prompt := ca_prompt b, ca_ai_prompt := ca_ai_prompt b, ca_manager := ca_manager b\<rparr>"
    and b: "b = (merge_scoring b0 rq)\<lparr>ca_updated_at := Some now\<rparr>"
    and checked: "scoring_changes c rq \<noteq> [] \<longrightarrow> validate_scoring_weights (ca_w_det b) (ca_w_sem b) (ca_w_ai b) w = Inr ()
       \<and> (ca_status b = CS_ACTIVE \<longrightarrow> ur_confirm rq)" by metis
  have id: "ca_id b = i" using arg_cong[OF b0, of ca_id] arg_cong[OF b, of ca_id] find_campaign_id[OF c] by (simp add: merge_scoring_def)
  have wb: "ca_w_det b = pick (ca_w_det c) (ur_w_det rq)" "ca_w_sem b = pick (ca_w_sem c) (ur_w_sem rq)"
      "ca_w_ai b = pick (ca_w_ai c) (ur_w_ai rq)"
    using arg_cong[OF b0, of ca_w_det] arg_cong[OF b0, of ca_w_sem] arg_cong[OF b0, of ca_w_ai]
      arg_cong[OF b, of ca_w_det] arg_cong[OF b, of ca_w_sem] arg_cong[OF b, of ca_w_ai]
    by (simp_all add: merge_scoring_def)
  note sf = stored_row_facts[OF flush_result(1)[OF steps(2)]]
  have camps: "hd_campaigns (cw_db w') = replace_row i m (hd_campaigns (cw_db w))"
    using flush_result(2)[OF steps(2)] status_effects_frame[OF steps(3)] id
    by (simp add: w' Let_def recalculation_frame)
  have found: "find_campaign i (cw_db w') = Some m"
    by (rule find_replaced[OF c camps]) (simp add: sf id)
  have log1: "cw_weight_log w1 = cw_weight_log w"
    using status_effects_log[of ev c m "scoring_changes c rq \<noteq> []" "w\<lparr>cw_db := h\<rparr>"] steps(3) by simp
  have manager: "cw_weight_log (audit_manager_change c m by v) = cw_weight_log v" for v
    by (simp add: audit_manager_change_def)
  show ?thesis
  proof (cases "weight_changes c rq = []")
    case True
    have "weights_stored c" using campaign_okD(2)[OF ok] find_campaign_id[OF c] by blast
    then have "weights m = weights c"
      using True wb sf(11,12,13) by (simp add: weight_changes_def changed_Nil weights_def weights_stored_def places_def)
    then show ?thesis using found True by (intro exI[of _ m]) (simp add: w' Let_def manager log1)
  next
    case False
    then have sc: "scoring_changes c rq \<noteq> []" by (simp add: scoring_changes_def)
    let ?low = "setting ''MIN_LAYER_WEIGHT'' 5 w"
    have vs: "\<forall>x\<in>{ca_w_det b, ca_w_sem b, ca_w_ai b}. 0 \<le> x \<and> x \<le> 100 \<and> ?low \<le> x"
      using validated_weights checked sc by blast
    have range: "0 \<le> to_places half_up 2 x \<and> to_places half_up 2 x \<le> 100 \<and> to_places half_up 2 ?low \<le> to_places half_up 2 x"
      if "0 \<le> x" "x \<le> 100" "?low \<le> x" for x
      using dec.places_lower[of 0 x 2] dec.places_upper[of x 100 2] dec.places_mono[OF that(3), of 2] that by simp
    have "\<forall>x\<in>{ca_w_det m, ca_w_sem m, ca_w_ai m}. to_places half_up 2 ?low \<le> x \<and> 0 \<le> x \<and> x \<le> 100"
      unfolding sf(11,12,13) using vs range by blast
    moreover have "ca_status m = CS_ACTIVE \<longrightarrow> ur_confirm rq" using checked sc sf(3) by simp
    ultimately show ?thesis using found False sf(1) id
      by (intro exI[of _ m]) (simp add: w' Let_def recalculation_log manager log1 record_weight_change_def sf(2))
  qed
qed

section \<open>Queued work of a paused campaign\<close>

lemma edited_status:
  assumes "edit_row now w rq c = Inr (m, ch)" "ur_status rq = Some s"
  shows "ca_status m = s" "ca_id m = ca_id c"
proof -
  from edit_row_steps[OF assms(1)] obtain b where
    b: "b = c\<lparr>ca_status := ca_status m, ca_name := ca_name m, ca_max := ca_max m, ca_deadline := ca_deadline m,
           ca_prompt := ca_prompt m, ca_ai_prompt := ca_ai_prompt m, ca_manager := ca_manager m\<rparr>"
    and m: "m = (merge_scoring b rq)\<lparr>ca_updated_at := Some now\<rparr>"
    and s: "\<forall>s. ur_status rq = Some s \<longrightarrow> ca_status m = s" by metis
  show "ca_status m = s" using s assms(2) by blast
  show "ca_id m = ca_id c" using arg_cong[OF b, of ca_id] arg_cong[OF m, of ca_id] by (simp add: merge_scoring_def)
qed

lemma update_campaign_row_frame:
  "hd_tasks (update_campaign_row i f h) = hd_tasks h" "hd_candidates (update_campaign_row i f h) = hd_candidates h"
  "hd_resumes (update_campaign_row i f h) = hd_resumes h"
  by (simp_all add: update_campaign_row_def)

lemma of_campaign_cong: "hd_candidates h = hd_candidates h' \<Longrightarrow> of_campaign i h t = of_campaign i h' t"
  by (simp add: of_campaign_def members_def split: option.split)

lemma pending_cong:
  "hd_candidates h = hd_candidates h' \<Longrightarrow> hd_resumes h = hd_resumes h' \<Longrightarrow> pending_resumes i h = pending_resumes i h'"
  by (simp add: pending_resumes_def members_def)

text \<open>
  Resuming a paused campaign fails, and undoes every change to the tables, as
  long as one resume of it has not been parsed, whatever else the request asks for: the
  message for the parsing task carries no \<open>prompt_template_id\<close>, which the task requires and
  the broker's client therefore refuses.
\<close>

theorem resume_fails_with_unparsed_resume:
  assumes c: "find_campaign i (cw_db w) = Some c" and paused: "ca_status c = CS_PAUSED"
    and want: "ur_status rq = Some CS_ACTIVE" and unparsed: "pending_resumes i (cw_db w) \<noteq> []"
    and checked: "\<forall>args. ev_send ev ''resume.process_document'' args
        \<longrightarrow> ''resume_id'' \<in> fst ` set args \<and> ''prompt_template_id'' \<in> fst ` set args"
  shows "\<exists>e w'. update_campaign ev now i rq by w = (Inl e, w') \<and> w' = w\<lparr>cw_broker := cw_broker w'\<rparr>"
proof -
  consider e where "edit_row now w rq c = Inl e"
    | b ch e where "edit_row now w rq c = Inr (b, ch)" "flush_campaign b (cw_db w) = Inl e"
    | b ch m h where "edit_row now w rq c = Inr (b, ch)" "flush_campaign b (cw_db w) = Inr (m, h)"
    by (cases "edit_row now w rq c"; cases "flush_campaign (fst (projr (edit_row now w rq c))) (cw_db w)") fastforce+
  then show ?thesis
  proof cases
    case 1
    then show ?thesis using c paused by (simp add: update_campaign_def)
  next
    case 2
    then show ?thesis using c paused by (simp add: update_campaign_def)
  next
    case 3
    have m: "ca_status m = CS_ACTIVE" "ca_id m = i"
      using edited_status[OF 3(1) want] stored_row_facts(2,3)[OF flush_result(1)[OF 3(2)]] find_campaign_id[OF c] by auto
    let ?w = "w\<lparr>cw_db := h\<rparr>"
    have h: "hd_candidates h = hd_candidates (cw_db w)" "hd_resumes h = hd_resumes (cw_db w)"
      using flush_result(3)[OF 3(2)] by (simp_all add: update_campaign_row_frame)
    have "\<exists>e w1. resume_effects ev i ?w = (Inl e, w1)"
    proof -
      obtain q w1 where re: "resubmit_paused_tasks ev i ?w = (q, w1)" by (metis surj_pair)
      have "pending_resumes i (cw_db w1) = pending_resumes i (cw_db w)"
        using resubmit_frame[OF re[unfolded resubmit_paused_tasks_def]] h by (intro pending_cong) simp_all
      then obtain r rs where "pending_resumes i (cw_db w1) = r # rs" using unparsed by (cases "pending_resumes i (cw_db w)") auto
      moreover have "\<not> ev_send ev ''resume.process_document'' [(''resume_id'', JNum x)]" for x
        using checked by fastforce
      ultimately have "\<exists>e w2. enqueue_pending_resume_parses ev i w1 = (Inl e, w2)"
        by (simp add: enqueue_pending_resume_parses_def Let_def apply_async_def)
      then show ?thesis using re by (cases q) (auto simp: resume_effects_def)
    qed
    then obtain e w1 where "status_effects ev c m (scoring_changes c rq \<noteq> []) ?w = (Inl e, w1)"
      using paused m by (auto simp: status_effects_def)
    then show ?thesis using c paused 3 by (simp add: update_campaign_def rolled_back_def)
  qed
qed

text \<open>
  Closing a paused campaign and reopening it leaves its suspended tasks
  suspended for good: nothing resubmits them, no message was sent, and since the campaign is
  active the resume summary is refused too.
\<close>

theorem close_strands_paused_tasks:
  assumes t: "t \<in> set (hd_tasks (cw_db w))" "of_campaign i (cw_db w) t" "tk_status t = TK_PAUSED"
    and closed: "close_campaign now i reason by w = Inr (r, w1)"
    and reopened: "reopen_campaign now' i by' w1 = Inr (q, w2)"
    and ids: "distinct (map ca_id (hd_campaigns (cw_db w)))"
  shows "t \<in> set (hd_tasks (cw_db w2)) \<and> of_campaign i (cw_db w2) t \<and> cw_broker w2 = cw_broker w
    \<and> (\<exists>c. find_campaign i (cw_db w2) = Some c \<and> ca_status c = CS_ACTIVE) \<and> get_resume_summary i w2 = Inl KE_Not_Paused"
proof -
  from closed have w1: "hd_tasks (cw_db w1) = hd_tasks (snd (kill_queued_tasks i (cw_db w)))"
      "hd_candidates (cw_db w1) = hd_candidates (cw_db w)" "cw_broker w1 = cw_broker w"
    by (auto simp: close_campaign_def Let_def cancel_pending_bulk_jobs_def kill_queued_tasks_def close_row_def
        update_campaign_row_def split: option.splits if_splits)
  have t1: "t \<in> set (hd_tasks (cw_db w1))" unfolding w1(1) kill_queued_tasks_def using t by force
  from reopened obtain c m h where c: "find_campaign i (cw_db w1) = Some c"
    and flush: "flush_campaign (reopen_row now' c) (cw_db w1) = Inr (m, h)"
    and w2: "hd_tasks (cw_db w2) = hd_tasks h" "hd_candidates (cw_db w2) = hd_candidates h" "cw_broker w2 = cw_broker w1"
      "hd_campaigns (cw_db w2) = hd_campaigns h"
    by (auto simp: reopen_campaign_def get_reopen_readiness_def res_bind_Inr_iff Let_def split: option.splits if_splits)
  note fl = flush_result[OF flush]
  have id: "ca_id (reopen_row now' c) = i" using find_campaign_id[OF c] by (simp add: reopen_row_def)
  have m: "find_campaign i (cw_db w2) = Some m"
    using fl(2) stored_row_facts(2)[OF fl(1)] id unfolding w2(4)[symmetric] by (intro find_replaced[OF c]) simp_all
  have act: "ca_status m = CS_ACTIVE" using stored_row_facts(3)[OF fl(1)] by (simp add: reopen_row_def)
  have "hd_tasks h = hd_tasks (cw_db w1)" "hd_candidates h = hd_candidates (cw_db w1)"
    using fl(3) by (simp_all add: update_campaign_row_frame)
  then show ?thesis using t1 t(2) w1 w2 m act of_campaign_cong[of "cw_db w2" "cw_db w" i t]
    by (simp add: get_resume_summary_def)
qed

text \<open>
  Pausing a campaign suspends its queued tasks in the task table only: a worker
  that then takes the message of a suspended task runs it to its end, because neither the
  paused campaign nor the status of the task stops it.
\<close>

theorem suspended_task_still_runs:
  assumes run: "update_campaign ev now i rq by w = (Inr (), w')"
    and c: "find_campaign i (cw_db w) = Some c" "ca_status c = CS_ACTIVE" "ur_status rq = Some CS_PAUSED"
    and t: "t \<in> set (hd_tasks (cw_db w))" "tk_candidate t = Some k" "tk_status t = TK_QUEUED"
    and cand: "find_candidate k (cw_db w) = Some cc" "cc_campaign cc = i"
    and quiet: "weight_changes c rq = []" and ids: "distinct (map tk_id (hd_tasks (cw_db w)))"
  shows "t\<lparr>tk_status := TK_PAUSED\<rparr> \<in> set (hd_tasks (cw_db w'))
    \<and> run_scoring_task score (tk_id t) type k (cw_db w')
      = Inr (set_task_status (tk_id t) TK_SUCCESS (score k (set_task_status (tk_id t) TK_RUNNING (cw_db w'))))"
proof -
  from run c(1,2) obtain b ch m h a ds w1 where steps: "edit_row now w rq c = Inr (b, ch)"
      "flush_campaign b (cw_db w) = Inr (m, h)"
      "status_effects ev c m (scoring_changes c rq \<noteq> []) (w\<lparr>cw_db := h\<rparr>) = (Inr (a, ds), w1)"
    and w': "w' = audit_manager_change c m by (w1\<lparr>cw_db := audit (Some by) (Some HR_ADMIN) a i
                 ((''changes'', changes_json ch) # ds) (cw_db w1)\<rparr>)"
    using quiet by (auto simp: update_campaign_def Let_def split: if_splits sum.splits prod.splits)
  note fl = flush_result[OF steps(2)]
  have m: "ca_status m = CS_PAUSED" "ca_id m = i"
    using edited_status[OF steps(1) c(3)] stored_row_facts(2,3)[OF fl(1)] find_campaign_id[OF c(1)] by auto
  have frame: "hd_tasks h = hd_tasks (cw_db w)" "hd_candidates h = hd_candidates (cw_db w)"
    using fl(3) by (simp_all add: update_campaign_row_frame)
  have w1: "cw_db w1 = snd (suspend_queued_tasks i h)"
    using steps(3) c(2) m by (auto simp: status_effects_def pause_effects_def Let_def case_prod_beta)
  have mine: "of_campaign i h t" "cc \<in> set (hd_candidates h)" "cc_id cc = k"
    using t(2) cand frame(2) find_Some_set[of _ "hd_candidates (cw_db w)" cc]
    by (auto simp: of_campaign_def members_def find_candidate_def)
  have tasks: "hd_tasks (cw_db w') = map (\<lambda>t. if of_campaign i h t \<and> tk_status t = TK_QUEUED then t\<lparr>tk_status := TK_PAUSED\<rparr> else t)
      (hd_tasks (cw_db w))"
    by (simp add: w' w1 suspend_queued_tasks_def frame audit_manager_change_def)
  have in': "t\<lparr>tk_status := TK_PAUSED\<rparr> \<in> set (hd_tasks (cw_db w'))"
    unfolding tasks using t(1,3) mine(1) by force
  have ids': "distinct (map tk_id (hd_tasks (cw_db w')))"
    using ids by (simp add: tasks comp_def if_distrib[of tk_id] cong: if_cong)
  have first: "find (\<lambda>x. tk_id x = tk_id t) (hd_tasks (cw_db w')) = Some (t\<lparr>tk_status := TK_PAUSED\<rparr>)"
    by (rule find_unique[OF in']) (use ids' in' in \<open>auto simp: distinct_map inj_on_def\<close>)
  have known: "list_ex (\<lambda>x. tk_id x = tk_id t) (hd_tasks (cw_db w'))"
    unfolding list_ex_iff by (rule bexI[OF _ in']) simp
  have cand': "find_candidate k (cw_db w') = Some cc"
    using cand(1) frame(2) by (simp add: find_candidate_def w' w1 suspend_queued_tasks_def audit_manager_change_def)
  have camps: "hd_campaigns (cw_db w') = replace_row i m (hd_campaigns (cw_db w))"
    using fl(2) edited_status(2)[OF steps(1) c(3)] find_campaign_id[OF c(1)]
    by (simp add: w' w1 suspend_queued_tasks_def)
  have camp': "find_campaign i (cw_db w') = Some m" by (rule find_replaced[OF c(1) camps m(2)])
  have "find_candidate k (set_task_status x y d) = find_candidate k d" "find_campaign i (set_task_status x y d) = find_campaign i d" for x y d
    by (simp_all add: find_candidate_def find_campaign_def)
  then show ?thesis using in' first known cand' camp' m(1) cand(2)
    by (simp add: run_scoring_task_def ensure_log_def Let_def scoreable_def)
qed

text \<open>
  A trigger of the composite score whose message cannot be sent leaves a queued
  task without a message, and from then on every further trigger for the candidate does
  nothing, whatever the state of the broker.
\<close>

theorem lost_message_blocks_composite:
  assumes fails: "\<forall>args. \<not> ev_send ev ''scoring.calculate_composite_score'' args"
    and free: "\<forall>t\<in>set (hd_tasks (cw_db w)). tk_candidate t = Some i \<and> tk_type t = ''COMPOSITE_SCORE''
        \<longrightarrow> tk_status t \<notin> {TK_QUEUED, TK_RUNNING}"
  shows "\<exists>t. hd_tasks (cw_db (enqueue_composite ev tr i w)) = hd_tasks (cw_db w) @ [t] \<and> tk_status t = TK_QUEUED
    \<and> cw_broker (enqueue_composite ev tr i w) = cw_broker w
    \<and> enqueue_composite ev' tr' i (enqueue_composite ev tr i w) = enqueue_composite ev tr i w"
proof -
  have none: "\<not> list_ex (\<lambda>t. tk_candidate t = Some i \<and> tk_type t = ''COMPOSITE_SCORE'' \<and> tk_status t \<in> set [TK_QUEUED, TK_RUNNING])
      (hd_tasks (cw_db w))" using free by (auto simp: list_ex_iff)
  let ?t = "queued_log (ev_fresh ev (hd_next_id (cw_db w))) ''COMPOSITE_SCORE'' (Some i)"
  have w1: "enqueue_composite ev tr i w = w\<lparr>cw_db := (cw_db w)\<lparr>hd_tasks := hd_tasks (cw_db w) @ [?t],
      hd_next_id := Suc (hd_next_id (cw_db w))\<rparr>\<rparr>"
    using none fails by (simp add: enqueue_composite_def Let_def apply_async_def)
  have "enqueue_composite ev' tr' i (enqueue_composite ev tr i w) = enqueue_composite ev tr i w"
    unfolding w1 by (simp add: enqueue_composite_def Let_def)
  then show ?thesis by (simp add: w1)
qed

section \<open>Examples\<close>

definition blank_update :: update_request where
  "blank_update = \<lparr>ur_name = None, ur_status = None, ur_deadline = None, ur_clear_deadline = False, ur_max = None,
     ur_clear_max = False, ur_manager = None, ur_prompt = None, ur_ai_prompt = None, ur_w_det = None, ur_w_sem = None,
     ur_w_ai = None, ur_sem_threshold = None, ur_ai_threshold = None, ur_det_threshold = None, ur_confirm = False\<rparr>"

definition sample_world :: "task_log list \<Rightarrow> resume_row list \<Rightarrow> campaign_world" where
  "sample_world ts rs =
     \<lparr>cw_db = uploaded_db\<lparr>hd_tasks := ts, hd_resumes := rs\<rparr>, cw_jds = [\<lparr>jr_id = 1, jr_active = True, jr_closed_at = None\<rparr>],
      cw_jd_skills = [], cw_jd_unknown = [],
      cw_prompts = [\<lparr>pr_id = 1, pr_status = PR_ACTIVE, pr_task = ''RESUME_PARSE''\<rparr>,
                    \<lparr>pr_id = 2, pr_status = PR_ACTIVE, pr_task = ''AI_EVALUATE''\<rparr>],
      cw_users = [], cw_weight_log = [], cw_jobs = [], cw_config = [], cw_resume_tasks = [], cw_broker = []\<rparr>"

definition scoring_task :: task_log where
  "scoring_task = queued_log ''t1'' ''DETERMINISTIC_SCORE'' (Some 1)"

text \<open>A broker that knows the signatures of the tasks, and one that is down.\<close>

definition required_args :: "string \<Rightarrow> string list" where
  "required_args task =
     (if task = ''resume.process_document'' then [''resume_id'', ''prompt_template_id'']
      else if task = ''scoring.calculate_composite_score'' then [''campaign_candidate_id'', ''trigger_source'']
      else [''campaign_candidate_id''])"

definition typed_broker :: campaign_env where
  "typed_broker = \<lparr>ev_send = (\<lambda>task args. list_all (\<lambda>a. a \<in> set (map fst args)) (required_args task)), ev_fresh = (\<lambda>n. replicate n CHR ''x'')\<rparr>"

definition dead_broker :: campaign_env where
  "dead_broker = \<lparr>ev_send = (\<lambda>_ _. False), ev_fresh = (\<lambda>n. replicate n CHR ''x'')\<rparr>"

definition skewed_request :: create_request where
  "skewed_request = \<lparr>cr_name = ''Skewed'', cr_jd = 1, cr_max = Some 1, cr_deadline = None, cr_w_det = - 50, cr_w_sem = 200,
     cr_w_ai = - 50, cr_sem_threshold = 65 / 100, cr_ai_threshold = 50, cr_det_threshold = 70, cr_manager = ''hm'',
     cr_recruiter = ''rec'', cr_prompt = Some 1, cr_ai_prompt = Some 2\<rparr>"

definition closed_sample :: campaign_world where
  "closed_sample = (sample_world [] [])\<lparr>cw_db := uploaded_db\<lparr>hd_campaigns := [(open_campaign None)\<lparr>ca_status := CS_CLOSED\<rparr>]\<rparr>\<rparr>"

definition skewed_world :: campaign_world where
  "skewed_world = projr (create_campaign 0 5 (Some 1) ''hr'' skewed_request (sample_world [] []))"

definition skewed_db :: hiring_db where
  "skewed_db = (cw_db skewed_world)\<lparr>hd_candidates :=
     [(blank_candidate 2 5 SCREENING None)\<lparr>cc_det_score := Some 0, cc_sem_score := Some (3 / 4)\<rparr>]\<rparr>"

lemma projr_ok: "is_ok r \<Longrightarrow> r = Inr (projr r)"
  by (cases r) simp_all

text \<open>
  Weights outside [0, 100] pass the creation of a campaign, request model and
  handler, as long as they sum to 100; the composite scoring accepts them too and stores a
  composite score of 150 out of 100.  The editing handlers refuse the same weights.
\<close>

theorem created_weights_unbounded:
  "parse_create skewed_request = Some skewed_request
   \<and> create_campaign 0 5 (Some 1) ''hr'' skewed_request (sample_world [] []) = Inr skewed_world
   \<and> map weights (hd_campaigns (cw_db skewed_world)) = [(30, 40, 30), (- 50, 200, - 50)]
   \<and> map_sum id (\<lambda>(d, h, rs). map cc_composite (hd_candidates h)) (calculate_composite 1 2 TR_REJECTION (skewed_db, []))
       = Inr [Some 150]
   \<and> validate_scoring_weights (- 50) 200 (- 50) skewed_world = Inl KE_Weight_Range"
proof (intro conjI)
  show "parse_create skewed_request = Some skewed_request" by code_simp
  show "create_campaign 0 5 (Some 1) ''hr'' skewed_request (sample_world [] []) = Inr skewed_world"
    unfolding skewed_world_def by (rule projr_ok) code_simp
  show "map weights (hd_campaigns (cw_db skewed_world)) = [(30, 40, 30), (- 50, 200, - 50)]" by code_simp
  show "map_sum id (\<lambda>(d, h, rs). map cc_composite (hd_candidates h)) (calculate_composite 1 2 TR_REJECTION (skewed_db, []))
       = Inr [Some 150]" by code_simp
  show "validate_scoring_weights (- 50) 200 (- 50) skewed_world = Inl KE_Weight_Range" by code_simp
qed

text \<open>The rule that a closed campaign cannot be edited does not hold for the reset of its scoring.\<close>

lemma closed_campaign_reset:
  "fst (update_campaign typed_broker 0 9 (blank_update\<lparr>ur_name := Some ''X''\<rparr>) ''hr'' closed_sample) = Inl KE_Closed"
  "map_sum id (\<lambda>w. map weights (hd_campaigns (cw_db w)))
     (reset_scoring_to_defaults typed_broker 0 9 ''hr''
       (closed_sample\<lparr>cw_config := [(''CAMPAIGN_WEIGHT_AI'', 20), (''CAMPAIGN_WEIGHT_SEMANTIC'', 50)]\<rparr>)) = Inr [(30, 50, 20)]"
  by code_simp+

section \<open>Witnesses\<close>

definition pause_request :: update_request where
  "pause_request = blank_update\<lparr>ur_status := Some CS_PAUSED\<rparr>"

definition resume_request :: update_request where
  "resume_request = blank_update\<lparr>ur_status := Some CS_ACTIVE\<rparr>"

definition weight_request :: update_request where
  "weight_request = blank_update\<lparr>ur_w_det := Some 50, ur_w_sem := Some 20, ur_confirm := True\<rparr>"

definition busy_world :: campaign_world where
  "busy_world = sample_world [scoring_task] []"

definition paused_world :: campaign_world where
  "paused_world = snd (update_campaign typed_broker 0 9 pause_request ''hr'' busy_world)"

definition paused_pending_world :: campaign_world where
  "paused_pending_world = (sample_world [] [\<lparr>re_id = 1, re_status = PS_PENDING\<rparr>])\<lparr>cw_db :=
     uploaded_db\<lparr>hd_resumes := [\<lparr>re_id = 1, re_status = PS_PENDING\<rparr>], hd_campaigns := [(open_campaign None)\<lparr>ca_status := CS_PAUSED\<rparr>]\<rparr>\<rparr>"

definition closed_world :: campaign_world where
  "closed_world = snd (projr (close_campaign 1 9 CR_OTHER ''hr'' paused_world))"

definition reopened_world :: campaign_world where
  "reopened_world = snd (projr (reopen_campaign 2 9 ''hr'' closed_world))"

lemma sample_ok: "campaign_ok (cw_db (sample_world ts rs))"
proof -
  have "weights_stored (open_campaign None)"
    unfolding weights_stored_def places_def by (intro conjI; code_simp)
  then show ?thesis by (simp add: campaign_ok_def sample_world_def uploaded_db_def)
qed

lemma first_ok: "fst x = Inr () \<Longrightarrow> x = (Inr (), snd x)"
  by (cases x) simp

lemma paused_run: "update_campaign typed_broker 0 9 pause_request ''hr'' busy_world = (Inr (), paused_world)"
  unfolding paused_world_def by (rule first_ok) code_simp

lemma closed_run: "\<exists>r. close_campaign 1 9 CR_OTHER ''hr'' paused_world = Inr (r, closed_world)"
proof -
  have "is_ok (close_campaign 1 9 CR_OTHER ''hr'' paused_world)" by code_simp
  then show ?thesis unfolding closed_world_def by (metis projr_ok surjective_pairing)
qed

lemma reopened_run: "\<exists>q. reopen_campaign 2 9 ''hr'' closed_world = Inr (q, reopened_world)"
proof -
  have "is_ok (reopen_campaign 2 9 ''hr'' closed_world)" by code_simp
  then show ?thesis unfolding reopened_world_def by (metis projr_ok surjective_pairing)
qed

definition expired_db :: hiring_db where
  "expired_db = uploaded_db\<lparr>hd_campaigns := [(open_campaign None)\<lparr>ca_deadline := Some 5\<rparr>]\<rparr>"

lemma auto_close_exact_witness:
  "\<exists>t h'. auto_close_expired_campaigns 1 (\<lambda>k. 10) expired_db = (t, h') \<and> \<not> list_ex (is_expired 10) (hd_campaigns h')
     \<and> t = active_count expired_db - active_count h'"
proof -
  have "distinct (map ca_id (hd_campaigns expired_db))" by (simp add: expired_db_def)
  from auto_close_exact[OF this, of 1 "\<lambda>k. 10"] show ?thesis by (auto simp: list_ex_iff)
qed

lemma sample_run: "campaign_run busy_world reopened_world"
proof -
  have "parse_update pause_request = Some pause_request" by code_simp
  then have "campaign_step (EV_Update 0) busy_world paused_world" using paused_run by (rule step_update)
  then have "campaign_run busy_world paused_world" by (rule run_step[OF run_refl])
  moreover have "campaign_step EV_Close paused_world closed_world" using closed_run by (blast intro: step_close)
  moreover have "campaign_step (EV_Reopen 2) closed_world reopened_world" using reopened_run by (blast intro: step_reopen)
  ultimately show ?thesis by (blast intro: run_step)
qed

lemma busy_ok: "campaign_ok (cw_db busy_world)"
  unfolding busy_world_def by (rule sample_ok)

lemma campaign_states_ok_witness:
  "campaign_ok (cw_db reopened_world) \<and> map ca_status (hd_campaigns (cw_db reopened_world)) = [CS_ACTIVE]"
proof
  show "campaign_ok (cw_db reopened_world)" by (rule campaign_states_ok[OF sample_run busy_ok])
  show "map ca_status (hd_campaigns (cw_db reopened_world)) = [CS_ACTIVE]" by code_simp
qed

lemma campaign_life_cycle_witness:
  "\<exists>m. m \<in> set (hd_campaigns (cw_db paused_world)) \<and> ca_id m = 9 \<and> status_edge (EV_Update 0) busy_world (open_campaign None) m"
proof -
  have parse: "parse_update pause_request = Some pause_request" by code_simp
  have c: "open_campaign None \<in> set (hd_campaigns (cw_db busy_world))"
    by (simp add: busy_world_def sample_world_def uploaded_db_def)
  from campaign_life_cycle[OF step_update[OF parse paused_run] busy_ok c]
  obtain m where m: "m \<in> set (hd_campaigns (cw_db paused_world))" "ca_id m = ca_id (open_campaign None)"
    "m = open_campaign None \<or> status_edge (EV_Update 0) busy_world (open_campaign None) m" by blast
  have "map ca_status (hd_campaigns (cw_db paused_world)) = [CS_PAUSED]" by code_simp
  then have "ca_status m = CS_PAUSED" using m(1) by (cases "hd_campaigns (cw_db paused_world)") auto
  then show ?thesis using m by (intro exI[of _ m]) (auto simp: open_campaign_def)
qed

lemma busy_campaign: "find_campaign 9 (cw_db busy_world) = Some (open_campaign None)"
  by (simp add: busy_world_def sample_world_def uploaded_db_def find_campaign_def open_campaign_def)

lemma edited_weights_sound_witness:
  "\<exists>w' m. update_campaign typed_broker 0 9 weight_request ''hr'' busy_world = (Inr (), w')
     \<and> find_campaign 9 (cw_db w') = Some m \<and> 5 \<le> ca_w_sem m \<and> ca_w_det m + ca_w_sem m + ca_w_ai m = 100
     \<and> cw_weight_log w' = [\<lparr>wc_campaign = 9, wc_old = (30, 40, 30), wc_new = weights m, wc_by = ''hr'', wc_version = ''v1''\<rparr>]"
proof -
  let ?w = "snd (update_campaign typed_broker 0 9 weight_request ''hr'' busy_world)"
  have run: "update_campaign typed_broker 0 9 weight_request ''hr'' busy_world = (Inr (), ?w)"
    by (rule first_ok) code_simp
  have ch: "weight_changes (open_campaign None) weight_request \<noteq> []" by code_simp
  have low: "to_places half_up 2 (setting ''MIN_LAYER_WEIGHT'' 5 busy_world) = 5" by code_simp
  have "weights (open_campaign None) = (30, 40, 30)" "cw_weight_log busy_world = []" by code_simp+
  then show ?thesis using edited_weights_sound[OF run busy_ok busy_campaign] ch run unfolding low by auto
qed

lemma paused_campaign:
  "find_campaign 9 (cw_db paused_pending_world) = Some ((open_campaign None)\<lparr>ca_status := CS_PAUSED\<rparr>)"
  by (simp add: paused_pending_world_def sample_world_def uploaded_db_def find_campaign_def open_campaign_def)

lemma resume_fails_with_unparsed_resume_witness:
  "\<exists>e w'. update_campaign typed_broker 0 9 resume_request ''hr'' paused_pending_world = (Inl e, w')
     \<and> w' = paused_pending_world\<lparr>cw_broker := cw_broker w'\<rparr>"
  by (rule resume_fails_with_unparsed_resume[OF paused_campaign])
    (code_simp, code_simp, code_simp, auto simp: typed_broker_def required_args_def)

lemma close_strands_paused_tasks_witness:
  "\<exists>t. t \<in> set (hd_tasks (cw_db reopened_world)) \<and> tk_status t = TK_PAUSED \<and> get_resume_summary 9 reopened_world = Inl KE_Not_Paused"
proof -
  let ?t = "scoring_task\<lparr>tk_status := TK_PAUSED\<rparr>"
  have "hd_tasks (cw_db paused_world) = [?t]" by code_simp
  then have t: "?t \<in> set (hd_tasks (cw_db paused_world))" by simp
  have mine: "of_campaign 9 (cw_db paused_world) ?t" by code_simp
  have ids: "distinct (map ca_id (hd_campaigns (cw_db paused_world)))" by code_simp
  obtain r q where runs: "close_campaign 1 9 CR_OTHER ''hr'' paused_world = Inr (r, closed_world)"
    "reopen_campaign 2 9 ''hr'' closed_world = Inr (q, reopened_world)" using closed_run reopened_run by blast
  show ?thesis using close_strands_paused_tasks[OF t mine _ runs ids] by (intro exI[of _ ?t]) simp
qed

lemma suspended_task_still_runs_witness:
  "run_scoring_task (\<lambda>i. update_candidate i (\<lambda>c. c\<lparr>cc_det_score := Some 80\<rparr>)) ''t1'' ''DETERMINISTIC_SCORE'' 1 (cw_db paused_world)
     = Inr (set_task_status ''t1'' TK_SUCCESS (update_candidate 1 (\<lambda>c. c\<lparr>cc_det_score := Some 80\<rparr>)
         (set_task_status ''t1'' TK_RUNNING (cw_db paused_world))))"
proof -
  have t: "scoring_task \<in> set (hd_tasks (cw_db busy_world))" "tk_candidate scoring_task = Some 1" "tk_status scoring_task = TK_QUEUED"
    by (simp_all add: busy_world_def sample_world_def scoring_task_def)
  have cand: "find_candidate 1 (cw_db busy_world) = Some (blank_candidate 1 9 UPLOADED None)"
    "cc_campaign (blank_candidate 1 9 UPLOADED None) = 9"
    by (simp_all add: busy_world_def sample_world_def uploaded_db_def example_db_def find_candidate_def blank_candidate_def)
  have st: "ca_status (open_campaign None) = CS_ACTIVE" "ur_status pause_request = Some CS_PAUSED"
    by (simp_all add: open_campaign_def pause_request_def)
  have quiet: "weight_changes (open_campaign None) pause_request = []" by code_simp
  have ids: "distinct (map tk_id (hd_tasks (cw_db busy_world)))" by (simp add: busy_world_def sample_world_def)
  show ?thesis
    using suspended_task_still_runs[OF paused_run busy_campaign st t cand quiet ids,
        of "\<lambda>i. update_candidate i (\<lambda>c. c\<lparr>cc_det_score := Some 80\<rparr>)" "''DETERMINISTIC_SCORE''"]
    by (simp add: scoring_task_def)
qed

lemma lost_message_blocks_composite_witness:
  "enqueue_composite typed_broker TR_AI_EVALUATION 1 (enqueue_composite dead_broker TR_REJECTION 1 busy_world)
     = enqueue_composite dead_broker TR_REJECTION 1 busy_world
   \<and> length (hd_tasks (cw_db (enqueue_composite dead_broker TR_REJECTION 1 busy_world))) = 2"
  using lost_message_blocks_composite[of dead_broker busy_world 1 TR_REJECTION typed_broker TR_AI_EVALUATION]
  by (auto simp: dead_broker_def busy_world_def sample_world_def scoring_task_def)

end
