(* ===== verification/Screening_Frames.thy ===== *)
theory Screening_Frames
  imports Screening_Tasks Campaign_Lifecycle_Props
begin

text \<open>
  What the small operations of the screening tasks leave alone: the bookkeeping of a run
  touches only task logs and dead letters, sending a message only the broker and the logs.
\<close>

named_theorems screening_frames "fields an operation leaves alone"

section \<open>Accessors\<close>

lemma sw_db_with_db [simp]: "sw_db (with_db h w) = h"
  by (simp add: sw_db_def with_db_def)

lemma with_db_fields [simp]:
  "sw_dlq (with_db h w) = sw_dlq w" "sw_embeddings (with_db h w) = sw_embeddings w"
  "sw_jd_embeddings (with_db h w) = sw_jd_embeddings w" "sw_mails (with_db h w) = sw_mails w"
  "cw_broker (sw_main (with_db h w)) = cw_broker (sw_main w)" "cw_db (sw_main (with_db h w)) = h"
  by (simp_all add: with_db_def)

definition broker :: "screening_world \<Rightarrow> message list" where
  "broker w = cw_broker (sw_main w)"

lemma broker_with_db [simp]: "broker (with_db h w) = broker w"
  by (simp add: broker_def)

text \<open>The tables beside the task logs: what scoring reads and writes.\<close>

definition same_records :: "hiring_db \<Rightarrow> hiring_db \<Rightarrow> bool" where
  "same_records h k \<longleftrightarrow> hd_candidates k = hd_candidates h \<and> hd_campaigns k = hd_campaigns h \<and> hd_ai k = hd_ai h
     \<and> hd_history k = hd_history h \<and> hd_log k = hd_log h \<and> hd_audit k = hd_audit h \<and> hd_rules k = hd_rules h
     \<and> hd_resumes k = hd_resumes h \<and> hd_interviews k = hd_interviews h"

lemma same_records_refl [simp]: "same_records h h"
  by (simp add: same_records_def)

lemma same_records_trans: "same_records h k \<Longrightarrow> same_records k l \<Longrightarrow> same_records h l"
  by (simp add: same_records_def)

lemma same_records_find: "same_records h k \<Longrightarrow> find_candidate i k = find_candidate i h \<and> find_campaign j k = find_campaign j h"
  by (simp add: same_records_def find_candidate_def find_campaign_def)

lemma same_records_iff: "same_records k l \<Longrightarrow> same_records h l \<longleftrightarrow> same_records h k"
  by (simp add: same_records_def)

lemma same_records_tasks [simp]: "same_records h (h\<lparr>hd_tasks := ts\<rparr>)" "same_records h (h\<lparr>hd_tasks := ts, hd_next_id := n\<rparr>)"
  "same_records h (h\<lparr>hd_next_id := n\<rparr>)"
  by (simp_all add: same_records_def)

section \<open>Bookkeeping\<close>

lemma set_tasks_frame [screening_frames]:
  "same_records h (sw_db (set_tasks f w)) \<longleftrightarrow> same_records h (sw_db w)" "broker (set_tasks f w) = broker w" "sw_dlq (set_tasks f w) = sw_dlq w"
  "sw_mails (set_tasks f w) = sw_mails w" "sw_embeddings (set_tasks f w) = sw_embeddings w"
  "sw_jd_embeddings (set_tasks f w) = sw_jd_embeddings w" "hd_tasks (sw_db (set_tasks f w)) = f (hd_tasks (sw_db w))"
  by (simp_all add: set_tasks_def same_records_def)

lemma set_task_status_records [simp]: "same_records h (set_task_status tid s h)"
  by (simp add: set_task_status_def)

lemma ensure_log_records [simp]: "same_records h (ensure_log tid type c h)"
  by (simp add: ensure_log_def)

lemma start_task_frame [screening_frames]:
  "same_records h (sw_db (start_task tid type i w)) \<longleftrightarrow> same_records h (sw_db w)" "broker (start_task tid type i w) = broker w"
  "sw_dlq (start_task tid type i w) = sw_dlq w" "sw_mails (start_task tid type i w) = sw_mails w"
  "sw_embeddings (start_task tid type i w) = sw_embeddings w" "sw_jd_embeddings (start_task tid type i w) = sw_jd_embeddings w"
  unfolding start_task_def
  by (simp_all add: same_records_iff[OF same_records_trans[OF ensure_log_records set_task_status_records]])

lemma succeed_frame [screening_frames]:
  "same_records h (sw_db (succeed tid w)) \<longleftrightarrow> same_records h (sw_db w)" "broker (succeed tid w) = broker w"
  "sw_mails (succeed tid w) = sw_mails w" "sw_embeddings (succeed tid w) = sw_embeddings w"
  "sw_jd_embeddings (succeed tid w) = sw_jd_embeddings w"
  "hd_tasks (sw_db (succeed tid w)) = set_status tid TK_SUCCESS (hd_tasks (sw_db w))"
  by (simp_all add: succeed_def mark_success_def Let_def broker_def same_records_def sw_db_def with_db_def)

lemma fail_task_cases:
  assumes "fail_task tid type i retries e w = (r, w')"
  shows "same_records (sw_db w) (sw_db w') \<and> broker w' = broker w \<and> sw_mails w' = sw_mails w
    \<and> (if classify e \<noteq> FC_PERMANENT \<and> retries < 2
       then r = RE_RETRY (compute_backoff_seconds screening_policy (Suc retries)) \<and> sw_dlq w' = sw_dlq w
         \<and> hd_tasks (sw_db w') = mark_retry tid (hd_tasks (sw_db w))
       else r = RE_DEAD \<and> sw_dlq w' = add_dead_letter tid type None (Some i) (fl_text e) (Suc retries) (sw_dlq w)
         \<and> hd_tasks (sw_db w') = set_status tid TK_DEAD (hd_tasks (sw_db w)))"
proof -
  have upd: "sw_db (w\<lparr>sw_dlq := q\<rparr>) = sw_db w" "broker (w\<lparr>sw_dlq := q\<rparr>) = broker w" for q
    by (simp_all add: sw_db_def broker_def)
  show ?thesis using assms
    by (auto simp: fail_task_def Let_def screening_policy_def screening_frames upd split: if_splits)
qed

section \<open>Messages\<close>

lemma apply_async_broker: "cw_broker (snd (apply_async ev task args tid m)) =
    cw_broker m @ (if ev_send ev task args then [\<lparr>ms_task = task, ms_args = args, ms_id = tid\<rparr>] else [])"
  "cw_db (snd (apply_async ev task args tid m)) = cw_db m"
  by (simp_all add: apply_async_def)

lemma dispatch_frame [screening_frames]:
  "sw_db (dispatch sv task a i tid w) = sw_db w" "sw_dlq (dispatch sv task a i tid w) = sw_dlq w"
  "sw_mails (dispatch sv task a i tid w) = sw_mails w" "sw_embeddings (dispatch sv task a i tid w) = sw_embeddings w"
  "sw_jd_embeddings (dispatch sv task a i tid w) = sw_jd_embeddings w"
  by (simp_all add: dispatch_def on_main_def sw_db_def apply_async_broker)

lemma dispatch_broker:
  "broker (dispatch sv task a i tid w) = broker w @
     (if ev_send (sv_broker sv) task [(a, JNum (of_nat i))] then [\<lparr>ms_task = task, ms_args = [(a, JNum (of_nat i))], ms_id = tid\<rparr>] else [])"
  by (simp add: dispatch_def on_main_def broker_def apply_async_broker)

lemma new_row_frame:
  assumes "new_row sv mk w = (tid, w')"
  shows "tid = ev_fresh (sv_broker sv) (hd_next_id (sw_db w))" "same_records (sw_db w) (sw_db w')"
    "hd_tasks (sw_db w') = hd_tasks (sw_db w) @ [mk tid]" "broker w' = broker w" "sw_dlq w' = sw_dlq w"
    "sw_mails w' = sw_mails w" "sw_embeddings w' = sw_embeddings w" "sw_jd_embeddings w' = sw_jd_embeddings w"
    "hd_next_id (sw_db w') = Suc (hd_next_id (sw_db w))"
  using assms by (auto simp: new_row_def Let_def)

definition to_candidate :: "string \<Rightarrow> nat \<Rightarrow> message \<Rightarrow> bool" where
  "to_candidate task i m \<longleftrightarrow> ms_task m = task \<and> ms_args m = [(''campaign_candidate_id'', JNum (of_nat i))]"

definition semantic_messages :: "nat \<Rightarrow> screening_world \<Rightarrow> message list" where
  "semantic_messages i w = filter (to_candidate ''scoring.calculate_semantic_score'' i) (broker w)"

lemma semantic_messages_cong: "broker w' = broker w \<Longrightarrow> semantic_messages i w' = semantic_messages i w"
  by (simp add: semantic_messages_def)

lemma semantic_messages_dispatch:
  "semantic_messages i (dispatch sv task a j tid w) =
     semantic_messages i w @ (if ev_send (sv_broker sv) task [(a, JNum (of_nat j))] \<and> task = ''scoring.calculate_semantic_score''
       \<and> a = ''campaign_candidate_id'' \<and> i = j
       then [\<lparr>ms_task = task, ms_args = [(a, JNum (of_nat j))], ms_id = tid\<rparr>] else [])"
  by (auto simp: semantic_messages_def dispatch_broker to_candidate_def)

section \<open>Enqueueing\<close>

lemma enqueue_resume_embedding_frame:
  "same_records (sw_db w) (sw_db (enqueue_resume_embedding sv r w))" "sw_dlq (enqueue_resume_embedding sv r w) = sw_dlq w"
  "sw_mails (enqueue_resume_embedding sv r w) = sw_mails w"
  "sw_embeddings (enqueue_resume_embedding sv r w) = sw_embeddings w"
  "sw_jd_embeddings (enqueue_resume_embedding sv r w) = sw_jd_embeddings w"
  "semantic_messages i (enqueue_resume_embedding sv r w) = semantic_messages i w"
proof -
  let ?mk = "\<lambda>tid. (queued_log tid ''EMBED_RESUME'' None)\<lparr>tk_resume := Some r, tk_key := Some (embed_key sv r)\<rparr>"
  obtain tid w1 where n: "new_row sv ?mk w = (tid, w1)" by (metis surj_pair)
  note f = new_row_frame[OF n]
  have w': "enqueue_resume_embedding sv r w = w
      \<or> enqueue_resume_embedding sv r w = dispatch sv ''embedding.generate_resume_embedding'' ''resume_id'' r tid w1"
    using n by (simp add: enqueue_resume_embedding_def)
  show "same_records (sw_db w) (sw_db (enqueue_resume_embedding sv r w))" "sw_dlq (enqueue_resume_embedding sv r w) = sw_dlq w"
    "sw_mails (enqueue_resume_embedding sv r w) = sw_mails w"
    "sw_embeddings (enqueue_resume_embedding sv r w) = sw_embeddings w"
    "sw_jd_embeddings (enqueue_resume_embedding sv r w) = sw_jd_embeddings w"
    using w' f(2,5-8) by (auto simp: screening_frames)
  show "semantic_messages i (enqueue_resume_embedding sv r w) = semantic_messages i w"
    using w' semantic_messages_cong[OF f(4), of i] by (auto simp: semantic_messages_dispatch)
qed

text \<open>The three things that \<open>enqueue_semantic\<close> does with the logs.\<close>

lemma enqueue_semantic_cases:
  assumes "enqueue_semantic sv i r w = (res, w')"
  obtains (embed) "embedding_of r (sw_embeddings w) = None" "w' = enqueue_resume_embedding sv r w" "res = Inr ()"
  | (fresh) tid w1 where "embedding_of r (sw_embeddings w) \<noteq> None" "log_by_key (semantic_key sv i) (sw_db w) = None"
      "new_row sv (\<lambda>tid. (queued_log tid ''SEMANTIC_SCORE'' (Some i))\<lparr>tk_key := Some (semantic_key sv i)\<rparr>) w = (tid, w1)"
      "w' = dispatch sv ''scoring.calculate_semantic_score'' ''campaign_candidate_id'' i tid w1" "res = Inr ()"
  | (stay) t where "embedding_of r (sw_embeddings w) \<noteq> None" "log_by_key (semantic_key sv i) (sw_db w) = Some t"
      "tk_status t \<in> {TK_QUEUED, TK_RUNNING, TK_SUCCESS}" "w' = w" "res = Inr ()"
  | (refused) t where "embedding_of r (sw_embeddings w) \<noteq> None" "log_by_key (semantic_key sv i) (sw_db w) = Some t"
      "tk_status t \<notin> {TK_QUEUED, TK_RUNNING, TK_SUCCESS}" "referenced (tk_id t) (sw_dlq w)" "w' = w"
      "res = Inl (failure_of FK_Other ''foreign key violation'')"
  | (reuse) t tid w1 where "embedding_of r (sw_embeddings w) \<noteq> None" "log_by_key (semantic_key sv i) (sw_db w) = Some t"
      "tk_status t \<notin> {TK_QUEUED, TK_RUNNING, TK_SUCCESS}" "\<not> referenced (tk_id t) (sw_dlq w)"
      "tid = ev_fresh (sv_broker sv) (hd_next_id (sw_db w))"
      "hd_tasks (sw_db w1) = map (\<lambda>x. if tk_id x = tk_id t then x\<lparr>tk_id := tid, tk_status := TK_QUEUED\<rparr> else x) (hd_tasks (sw_db w))"
      "same_records (sw_db w) (sw_db w1)" "broker w1 = broker w" "sw_dlq w1 = sw_dlq w" "sw_mails w1 = sw_mails w"
      "sw_embeddings w1 = sw_embeddings w" "sw_jd_embeddings w1 = sw_jd_embeddings w"
      "w' = dispatch sv ''scoring.calculate_semantic_score'' ''campaign_candidate_id'' i tid w1" "res = Inr ()"
proof -
  show thesis
  proof (cases "embedding_of r (sw_embeddings w) = None")
    case True
    with assms embed show thesis by (auto simp: enqueue_semantic_def)
  next
    case has: False
    show thesis
    proof (cases "log_by_key (semantic_key sv i) (sw_db w)")
      case None
      obtain tid w1 where n: "new_row sv (\<lambda>tid. (queued_log tid ''SEMANTIC_SCORE'' (Some i))\<lparr>tk_key := Some (semantic_key sv i)\<rparr>) w = (tid, w1)"
        by (metis surj_pair)
      show thesis using fresh[OF has None n] assms has None n by (auto simp: enqueue_semantic_def)
    next
      case (Some t)
      let ?tid = "ev_fresh (sv_broker sv) (hd_next_id (sw_db w))"
      let ?w0 = "set_tasks (map (\<lambda>x. if tk_id x = tk_id t then x\<lparr>tk_id := ?tid, tk_status := TK_QUEUED\<rparr> else x)) w"
      let ?w1 = "with_db ((sw_db ?w0)\<lparr>hd_next_id := Suc (hd_next_id (sw_db w))\<rparr>) ?w0"
      consider "tk_status t \<in> {TK_QUEUED, TK_RUNNING, TK_SUCCESS}"
        | "tk_status t \<notin> {TK_QUEUED, TK_RUNNING, TK_SUCCESS}" "referenced (tk_id t) (sw_dlq w)"
        | "tk_status t \<notin> {TK_QUEUED, TK_RUNNING, TK_SUCCESS}" "\<not> referenced (tk_id t) (sw_dlq w)" by blast
      then show thesis
      proof cases
        case 1
        then show thesis using stay[OF has Some 1] assms has Some by (auto simp: enqueue_semantic_def)
      next
        case 2
        then show thesis using refused[OF has Some 2] assms has Some by (auto simp: enqueue_semantic_def)
      next
        case 3
        have rec: "same_records (sw_db w) (sw_db ?w1)"
          by (simp add: set_tasks_def same_records_def)
        have rest: "hd_tasks (sw_db ?w1) = map (\<lambda>x. if tk_id x = tk_id t then x\<lparr>tk_id := ?tid, tk_status := TK_QUEUED\<rparr> else x) (hd_tasks (sw_db w))"
          "broker ?w1 = broker w" "sw_dlq ?w1 = sw_dlq w" "sw_mails ?w1 = sw_mails w" "sw_embeddings ?w1 = sw_embeddings w"
          "sw_jd_embeddings ?w1 = sw_jd_embeddings w"
          by (simp_all add: screening_frames)
        have out: "w' = dispatch sv ''scoring.calculate_semantic_score'' ''campaign_candidate_id'' i ?tid ?w1" "res = Inr ()"
          using assms has Some 3 by (auto simp: enqueue_semantic_def Let_def)
        show thesis by (rule reuse[OF has Some 3 refl rest(1) rec rest(2-6) out])
      qed
    qed
  qed
qed

lemma enqueue_semantic_frame:
  assumes "enqueue_semantic sv i r w = (res, w')"
  shows "same_records (sw_db w) (sw_db w')" "sw_dlq w' = sw_dlq w" "sw_mails w' = sw_mails w"
    "sw_embeddings w' = sw_embeddings w" "sw_jd_embeddings w' = sw_jd_embeddings w"
    "j \<noteq> i \<Longrightarrow> semantic_messages j w' = semantic_messages j w"
proof -
  have "same_records (sw_db w) (sw_db w') \<and> sw_dlq w' = sw_dlq w \<and> sw_mails w' = sw_mails w \<and> sw_embeddings w' = sw_embeddings w
      \<and> sw_jd_embeddings w' = sw_jd_embeddings w \<and> (j \<noteq> i \<longrightarrow> semantic_messages j w' = semantic_messages j w)"
    using assms
  proof (cases rule: enqueue_semantic_cases)
    case embed
    then show ?thesis by (simp add: enqueue_resume_embedding_frame)
  next
    case (fresh tid w1)
    note n = new_row_frame[OF fresh(3)]
    show ?thesis using n(2,5-8) semantic_messages_cong[OF n(4), of j]
      by (simp add: fresh(4) screening_frames semantic_messages_dispatch)
  next
    case (reuse t tid w1)
    show ?thesis using reuse(7,9-12) semantic_messages_cong[OF reuse(8), of j]
      by (simp add: reuse(13) screening_frames semantic_messages_dispatch)
  qed auto
  then show "same_records (sw_db w) (sw_db w')" "sw_dlq w' = sw_dlq w" "sw_mails w' = sw_mails w"
    "sw_embeddings w' = sw_embeddings w" "sw_jd_embeddings w' = sw_jd_embeddings w"
    "j \<noteq> i \<Longrightarrow> semantic_messages j w' = semantic_messages j w" by blast+
qed

lemma enqueue_each_frame:
  "enqueue_each sv cs w = (res, w') \<Longrightarrow> same_records (sw_db w) (sw_db w') \<and> sw_dlq w' = sw_dlq w \<and> sw_mails w' = sw_mails w
     \<and> sw_embeddings w' = sw_embeddings w \<and> sw_jd_embeddings w' = sw_jd_embeddings w
     \<and> (j \<notin> cc_id ` set cs \<longrightarrow> semantic_messages j w' = semantic_messages j w)"
proof (induction cs arbitrary: w)
  case (Cons c cs)
  obtain r w1 where e: "enqueue_semantic sv (cc_id c) (cc_resume c) w = (r, w1)" by (metis surj_pair)
  note f = enqueue_semantic_frame[OF e]
  show ?case
  proof (cases r)
    case (Inl x)
    then show ?thesis using Cons.prems e f by auto
  next
    case (Inr u)
    then have "enqueue_each sv cs w1 = (res, w')" using Cons.prems e by simp
    from Cons.IH[OF this] f show ?thesis by (auto intro: same_records_trans)
  qed
qed auto

lemma enqueue_ai_frame:
  "same_records (sw_db w) (sw_db (enqueue_ai sv i w))" "sw_dlq (enqueue_ai sv i w) = sw_dlq w"
  "sw_mails (enqueue_ai sv i w) = sw_mails w" "sw_embeddings (enqueue_ai sv i w) = sw_embeddings w"
  "sw_jd_embeddings (enqueue_ai sv i w) = sw_jd_embeddings w"
  by (auto simp: enqueue_ai_def screening_frames split: prod.split dest: new_row_frame)

lemma enqueue_composite_records: "same_records (cw_db m) (cw_db (enqueue_composite ev tr i m))"
  by (auto simp: enqueue_composite_def Let_def apply_async_broker)

lemma after_rejection_records: "same_records (sw_db w) (sw_db (after_rejection sv i w))"
proof -
  have "sw_db (queue_rejection_mail sv i w) = sw_db w" by (simp add: queue_rejection_mail_def sw_db_def)
  then show ?thesis using enqueue_composite_records[of "sw_main (queue_rejection_mail sv i w)"]
    by (simp add: after_rejection_def on_main_def sw_db_def)
qed

lemma persist_dlq: "sw_dlq (score_and_persist_semantic sv now cc ca v w) = sw_dlq w"
  by (simp add: score_and_persist_semantic_def Let_def enqueue_ai_frame after_rejection_def queue_rejection_mail_def on_main_def split: prod.split)

end
