(* ===== verification/Screening_Props.thy ===== *)
theory Screening_Props
  imports Screening_Frames
begin

text \<open>
  What the screening tasks guarantee: the gates between the layers, what a finished run
  stores, when a run is repeated, and where a candidate is left behind.
\<close>

section \<open>Lookups through the bookkeeping\<close>

lemma start_task_find [simp]:
  "find_candidate j (sw_db (start_task tid type i w)) = find_candidate j (sw_db w)"
  "find_campaign j (sw_db (start_task tid type i w)) = find_campaign j (sw_db w)"
  using same_records_find[of "sw_db w" "sw_db (start_task tid type i w)"] by (simp_all add: screening_frames)

lemma succeed_find [simp]: "find_candidate j (sw_db (succeed tid w)) = find_candidate j (sw_db w)"
  "hd_ai (sw_db (succeed tid w)) = hd_ai (sw_db w)"
  using same_records_find[of "sw_db w" "sw_db (succeed tid w)"] succeed_frame(1)[of "sw_db w" tid w]
  by (auto simp: screening_frames same_records_def)

lemma start_task_ai [simp]: "hd_ai (sw_db (start_task tid type i w)) = hd_ai (sw_db w)"
  using start_task_frame(1)[of "sw_db w" tid type i w] by (simp add: same_records_def)

section \<open>The gates\<close>

definition screening_open :: "campaign_row \<Rightarrow> bool" where
  "screening_open ca \<longleftrightarrow> ca_status ca \<in> set [CS_ACTIVE, CS_PAUSED]"

lemma end_task_records: "same_records (sw_db w) (sw_db (snd (end_task fault tid type i retries w)))"
proof (cases "success_fault fault")
  case None
  then show ?thesis by (simp add: end_task_def screening_frames)
next
  case (Some e)
  obtain r w' where "fail_task tid type i retries e w = (r, w')" by fastforce
  then show ?thesis using Some fail_task_cases[of tid type i retries e w r w'] by (simp add: end_task_def)
qed

lemma end_task_find [simp]:
  "find_candidate j (sw_db (snd (end_task fault tid type i retries w))) = find_candidate j (sw_db w)"
  "hd_ai (sw_db (snd (end_task fault tid type i retries w))) = hd_ai (sw_db w)"
  using same_records_find[OF end_task_records[of w fault tid type i retries]] end_task_records[of w fault tid type i retries]
  by (simp_all add: same_records_def)

lemma semantic_task_closed:
  assumes "find_candidate i (sw_db w) = Some cc" "find_campaign (cc_campaign cc) (sw_db w) = Some ca"
    "\<not> screening_open ca \<or> cc_det_passed cc \<noteq> Some True" "\<not> already_done tid (sw_db w)"
  shows "semantic_task sv now fault tid i retries w
    = end_task fault tid ''SEMANTIC_SCORE'' i retries (start_task tid ''SEMANTIC_SCORE'' i w)"
proof -
  have "with_db (sw_db x) x = x" for x by (simp add: with_db_def sw_db_def)
  then show ?thesis using assms
    by (auto simp: semantic_task_def Let_def screening_open_def scoreable_def)
qed

lemma ai_task_closed:
  assumes "find_candidate i (sw_db w) = Some cc" "find_campaign (cc_campaign cc) (sw_db w) = Some ca"
    "\<not> screening_open ca \<or> cc_stage cc = REJECTED \<or> \<not> semantic_gate cc" "\<not> already_done tid (sw_db w)"
  shows "ai_task sv now fault tid i retries w
    = end_task fault tid ''AI_EVALUATE'' i retries (start_task tid ''AI_EVALUATE'' i w)"
  using assms by (auto simp: ai_task_def Let_def screening_open_def scoreable_def)

lemma already_done_same: "already_done tid (sw_db w) \<Longrightarrow> semantic_task sv now fault tid i retries w = (RE_DONE, w)"
  "already_done tid (sw_db w) \<Longrightarrow> ai_task sv now fault tid i retries w = (RE_DONE, w)"
  by (simp_all add: semantic_task_def ai_task_def)

text \<open>
  Property C19.  The layers are passed in order.  A run of the semantic task changes the
  candidate or his evaluation only if the campaign is active or paused and the
  deterministic layer was passed; a run of the AI task only if the campaign is open, the
  candidate is not rejected and the stored semantic breakdown says that he passed.
\<close>

theorem screening_gates:
  assumes "find_candidate i (sw_db w) = Some cc" "find_campaign (cc_campaign cc) (sw_db w) = Some ca"
  shows "(let w' = snd (semantic_task sv now fault tid i retries w) in
            find_candidate i (sw_db w') \<noteq> Some cc \<or> hd_ai (sw_db w') \<noteq> hd_ai (sw_db w)
            \<longrightarrow> screening_open ca \<and> cc_det_passed cc = Some True)
       \<and> (let w' = snd (ai_task sv now fault tid i retries w) in
            find_candidate i (sw_db w') \<noteq> Some cc \<or> hd_ai (sw_db w') \<noteq> hd_ai (sw_db w)
            \<longrightarrow> screening_open ca \<and> cc_stage cc \<noteq> REJECTED \<and> semantic_gate cc)"
proof (cases "already_done tid (sw_db w)")
  case True
  then show ?thesis using assms by (simp add: already_done_same)
next
  case False
  have sem: "\<not> (screening_open ca \<and> cc_det_passed cc = Some True) \<Longrightarrow>
      find_candidate i (sw_db (snd (semantic_task sv now fault tid i retries w))) = Some cc
      \<and> hd_ai (sw_db (snd (semantic_task sv now fault tid i retries w))) = hd_ai (sw_db w)"
    using semantic_task_closed[OF assms _ False, of sv now fault retries] assms(1) by simp
  have ai: "\<not> (screening_open ca \<and> cc_stage cc \<noteq> REJECTED \<and> semantic_gate cc) \<Longrightarrow>
      find_candidate i (sw_db (snd (ai_task sv now fault tid i retries w))) = Some cc
      \<and> hd_ai (sw_db (snd (ai_task sv now fault tid i retries w))) = hd_ai (sw_db w)"
    using ai_task_closed[OF assms _ False, of sv now fault retries] assms(1) by simp
  show ?thesis unfolding Let_def using sem ai by blast
qed

section \<open>Ids of the rows\<close>

lemma find_candidate_update_same:
  assumes "\<And>c. cc_id (f c) = cc_id c" "find_candidate i h = Some c"
  shows "find_candidate i (update_candidate i f h) = Some (f c)"
  using find_candidate_update[of f i i h] assms by simp

lemma rejected_frame:
  assumes "reject_at now cc change ds reason details h = (ok, h')" "find_candidate (cc_id cc) h = Some c"
  shows "\<exists>d. find_candidate (cc_id cc) h' = Some d \<and> cc_det_passed d = cc_det_passed c \<and> cc_det_score d = cc_det_score c
      \<and> cc_sem_score d = cc_sem_score c \<and> cc_sem_passed d = cc_sem_passed c \<and> cc_sem_breakdown d = cc_sem_breakdown c
      \<and> (if ok then cc_stage d = REJECTED \<and> cc_decision_source d = Some ds \<and> cc_decision_type d = Some DT_REJECTED
         else cc_stage d = cc_stage c)"
proof -
  obtain h1 where t: "transition_to_rejected now cc change (Some details) ds (Some reason) (Some details) None h = (ok, h1)"
    and h': "h' = cancel_downstream (cc_id cc) h1"
    using assms(1) by (auto simp: reject_at_def split: prod.splits)
  have same: "find_candidate j (cancel_downstream (cc_id cc) h1) = find_candidate j h1" for j
    by (auto simp: cancel_downstream_def Let_def find_candidate_def update_ai_def get_or_create_ai_def split: option.splits)
  have "\<exists>d. find_candidate (cc_id cc) h1 = Some d \<and> cc_det_passed d = cc_det_passed c \<and> cc_det_score d = cc_det_score c
      \<and> cc_sem_score d = cc_sem_score c \<and> cc_sem_passed d = cc_sem_passed c \<and> cc_sem_breakdown d = cc_sem_breakdown c
      \<and> (if ok then cc_stage d = REJECTED \<and> cc_decision_source d = Some ds \<and> cc_decision_type d = Some DT_REJECTED
         else cc_stage d = cc_stage c)"
  proof (cases ok)
    case False
    then have "h1 = h" using t by (auto simp: transition_to_rejected_def Let_def split: if_splits)
    with False assms(2) show ?thesis by auto
  next
    case True
    let ?f = "\<lambda>c. decide DT_REJECTED (Some ds) (Some reason) (Some details) None now (move_stage (cc_stage cc) REJECTED c)"
    have "find_candidate (cc_id cc) h1 = find_candidate (cc_id cc) (update_candidate (cc_id cc) ?f h)"
      using t True by (auto simp: transition_to_rejected_def Let_def find_candidate_def create_transition_log_def
          create_stage_history_def add_stage_history_def split: if_splits)
    moreover have "find_candidate (cc_id cc) (update_candidate (cc_id cc) ?f h) = Some (?f c)"
      by (rule find_candidate_update_same[OF _ assms(2)]) (simp add: decide_def move_stage_def)
    ultimately show ?thesis using True by (simp add: decide_def move_stage_def)
  qed
  then show ?thesis by (simp add: h' same)
qed

lemma audit_find [simp]: "find_candidate i (audit a r act e d h) = find_candidate i h"
  by (simp add: find_candidate_def audit_def)

section \<open>The semantic score\<close>

lemma persisted_candidate:
  assumes cc: "find_candidate (cc_id cc) (sw_db w) = Some cc"
  shows "\<exists>d. find_candidate (cc_id cc) (sw_db (score_and_persist_semantic sv now cc ca v w)) = Some d
    \<and> cc_det_passed d = cc_det_passed cc
    \<and> cc_sem_score d = Some (to_places half_up 4 (sm_similarity (semantic_breakdown sv now cc ca v)))
    \<and> cc_sem_passed d = Some (sm_passed (semantic_breakdown sv now cc ca v))
    \<and> cc_sem_breakdown d = Some (JObj (sm_json (semantic_breakdown sv now cc ca v)))
    \<and> (sm_passed (semantic_breakdown sv now cc ca v) \<longrightarrow> cc_stage d = cc_stage cc)
    \<and> (cc_stage d = cc_stage cc \<or> cc_stage d = REJECTED)"
proof -
  let ?r = "semantic_breakdown sv now cc ca v" and ?i = "cc_id cc"
  let ?f = "\<lambda>c. c\<lparr>cc_sem_score := Some (to_places half_up 4 (sm_similarity ?r)), cc_sem_passed := Some (sm_passed ?r),
        cc_sem_breakdown := Some (JObj (sm_json ?r)), cc_sem_at := Some now, cc_updated_at := Some now\<rparr>"
  let ?h1 = "store_semantic now ?i ?r (sw_db w)"
  have c1: "find_candidate ?i ?h1 = Some (?f cc)"
    unfolding store_semantic_def by (rule find_candidate_update_same[OF _ cc]) simp
  obtain moved h2 where h2: "(if sm_passed ?r then (False, ?h1)
             else reject_at now cc ''Semantic similarity filter rejection'' DS_SEMANTIC
                    (sv_explain sv (sm_similarity ?r) (ca_sem_threshold ca) False) (sm_json ?r) ?h1) = (moved, h2)"
    by (metis surj_pair)
  have d: "\<exists>d. find_candidate ?i h2 = Some d \<and> cc_det_passed d = cc_det_passed cc \<and> cc_sem_score d = cc_sem_score (?f cc)
     \<and> cc_sem_passed d = cc_sem_passed (?f cc) \<and> cc_sem_breakdown d = cc_sem_breakdown (?f cc)
     \<and> (sm_passed ?r \<longrightarrow> cc_stage d = cc_stage cc) \<and> (cc_stage d = cc_stage cc \<or> cc_stage d = REJECTED)"
  proof (cases "sm_passed ?r")
    case True
    then show ?thesis using h2 c1 by auto
  next
    case False
    then have "reject_at now cc ''Semantic similarity filter rejection'' DS_SEMANTIC
        (sv_explain sv (sm_similarity ?r) (ca_sem_threshold ca) False) (sm_json ?r) ?h1 = (moved, h2)" using h2 by simp
    from rejected_frame[OF this c1] False show ?thesis by (auto split: if_splits)
  qed
  let ?w1 = "with_db (audit None (Some SYSTEM) ''SEMANTIC_SCORE_COMPUTED'' ?i (sm_json ?r) h2) w"
  have "find_candidate ?i (sw_db (score_and_persist_semantic sv now cc ca v w)) = find_candidate ?i h2"
  proof -
    let ?w2 = "if \<not> sm_passed ?r \<and> moved then after_rejection sv ?i ?w1 else ?w1"
    have out: "score_and_persist_semantic sv now cc ca v w = (if sm_passed ?r then enqueue_ai sv ?i ?w2 else ?w2)"
      unfolding score_and_persist_semantic_def Let_def h2 by simp
    have "same_records (sw_db ?w1) (sw_db (score_and_persist_semantic sv now cc ca v w))"
      unfolding out by (simp add: same_records_iff[OF after_rejection_records] same_records_iff[OF enqueue_ai_frame(1)])
    then show ?thesis using same_records_find by fastforce
  qed
  with d show ?thesis by auto
qed

text \<open>
  Property C20.  The semantic score that a run stores is the similarity of the two
  embeddings, a negative one raised to zero, rounded to four places; so it lies between
  zero and the largest similarity, and whether the candidate passed is decided on the value
  before rounding.
\<close>

theorem semantic_score_stored:
  assumes cc: "find_candidate i (sw_db w) = Some cc" and ca: "find_campaign (cc_campaign cc) (sw_db w) = Some ca"
    and gate: "screening_open ca" "cc_det_passed cc = Some True" "\<not> already_done tid (sw_db w)"
    and embedded: "embedding_of (cc_resume cc) (sw_embeddings w) = Some (r, v)" "embedding_of (ca_jd ca) (sw_jd_embeddings w) = Some (j, v)"
  shows "let s = max 0 (sv_similarity sv (cc_resume cc) (ca_jd ca)); out = semantic_task sv now None tid i retries w in
     fst out = RE_DONE
     \<and> (\<exists>d. find_candidate i (sw_db (snd out)) = Some d \<and> cc_sem_score d = Some (to_places half_up 4 s)
          \<and> cc_sem_passed d = Some (s \<ge> ca_sem_threshold ca) \<and> semantic_gate d = (s \<ge> ca_sem_threshold ca)
          \<and> (s \<ge> ca_sem_threshold ca \<longrightarrow> cc_stage d = cc_stage cc) \<and> 0 \<le> to_places half_up 4 s \<and> (s \<le> 1 \<longrightarrow> to_places half_up 4 s \<le> 1))"
proof -
  let ?w1 = "start_task tid ''SEMANTIC_SCORE'' i w" and ?s = "max 0 (sv_similarity sv (cc_resume cc) (ca_jd ca))"
  let ?r = "semantic_breakdown sv now cc ca v"
  have id: "cc_id cc = i" using find_candidate_Some cc by blast
  have out: "semantic_task sv now None tid i retries w = (RE_DONE, succeed tid (score_and_persist_semantic sv now cc ca v ?w1))"
    using cc ca gate embedded by (simp add: semantic_task_def end_task_def Let_def screening_open_def scoreable_def screening_frames)
  have r: "sm_similarity ?r = ?s" "sm_passed ?r = (?s \<ge> ca_sem_threshold ca)"
    by (auto simp: semantic_breakdown_def Let_def max_def split: prod.split)
  have json: "json_field (JObj (sm_json ?r)) ''semantic_passed'' = JBool (sm_passed ?r)"
    by (simp add: semantic_breakdown_def Let_def json_get_def split: prod.split)
  from persisted_candidate[of cc ?w1 sv now ca v] cc id
  obtain d where d: "find_candidate i (sw_db (score_and_persist_semantic sv now cc ca v ?w1)) = Some d"
    "cc_sem_score d = Some (to_places half_up 4 ?s)" "cc_sem_passed d = Some (?s \<ge> ca_sem_threshold ca)"
    "cc_sem_breakdown d = Some (JObj (sm_json ?r))" "?s \<ge> ca_sem_threshold ca \<longrightarrow> cc_stage d = cc_stage cc"
    by (auto simp: r)
  have "semantic_gate d = (?s \<ge> ca_sem_threshold ca)"
    using json by (simp add: semantic_gate_def d(4) r)
  moreover have "0 \<le> to_places half_up 4 ?s" "?s \<le> 1 \<longrightarrow> to_places half_up 4 ?s \<le> 1"
    using dec.places_lower[of 0 ?s 4] dec.places_upper[of ?s 1 4] by simp_all
  ultimately show ?thesis using d by (auto simp: Let_def out)
qed

section \<open>A semantic task that is settled\<close>

text \<open>
  The row under the candidate's key is done, and no task id drawn later is its id
  (\<open>uuid4\<close> does not repeat one).
\<close>

definition settled :: "screening_env \<Rightarrow> nat \<Rightarrow> screening_world \<Rightarrow> bool" where
  "settled sv i w \<longleftrightarrow> (\<exists>t. log_by_key (semantic_key sv i) (sw_db w) = Some t \<and> tk_id t \<notin> range (ev_fresh (sv_broker sv))
     \<and> (\<forall>x\<in>set (hd_tasks (sw_db w)). tk_id x = tk_id t \<longrightarrow> tk_status x = TK_SUCCESS))"

definition settled_log :: "string \<Rightarrow> string set \<Rightarrow> task_log list \<Rightarrow> bool" where
  "settled_log k fresh ts \<longleftrightarrow> (\<exists>t. find (\<lambda>t. tk_key t = Some k) ts = Some t \<and> tk_id t \<notin> fresh
     \<and> (\<forall>x\<in>set ts. tk_id x = tk_id t \<longrightarrow> tk_status x = TK_SUCCESS))"

lemma settled_iff: "settled sv i w \<longleftrightarrow> settled_log (semantic_key sv i) (range (ev_fresh (sv_broker sv))) (hd_tasks (sw_db w))"
  by (simp add: settled_def settled_log_def log_by_key_def)

lemma settled_done: "settled sv i w \<Longrightarrow> \<exists>t. log_by_key (semantic_key sv i) (sw_db w) = Some t \<and> tk_status t = TK_SUCCESS"
  unfolding settled_def log_by_key_def using find_Some_set by fastforce

lemma find_append_Some: "find P xs = Some x \<Longrightarrow> find P (xs @ ys) = Some x"
  by (induction xs) auto

lemma settled_log_append:
  assumes "settled_log k F ts" "tk_id n \<in> F"
  shows "settled_log k F (ts @ [n])"
  using assms unfolding settled_log_def by (auto dest: find_append_Some)

lemma find_map_keys:
  assumes "\<And>x. tk_key (f x) = tk_key x"
  shows "find (\<lambda>t. tk_key t = Some k) (map f ts) = map_option f (find (\<lambda>t. tk_key t = Some k) ts)"
  by (induction ts) (simp_all add: assms)

text \<open>Rows may be given fresh ids or another status, as long as the settled one is not among them.\<close>

lemma settled_log_map:
  assumes "settled_log k F ts" "\<And>x. tk_key (f x) = tk_key x"
    "\<And>x. tk_id (f x) = tk_id x \<or> tk_id (f x) \<in> F"
    "\<And>x. x \<in> set ts \<Longrightarrow> tk_status x = TK_SUCCESS \<Longrightarrow> tk_id x \<notin> F \<Longrightarrow> (\<forall>y\<in>set ts. tk_id y = tk_id x \<longrightarrow> tk_status y = TK_SUCCESS) \<Longrightarrow> f x = x"
  shows "settled_log k F (map f ts)"
proof -
  from assms(1) obtain t where t: "find (\<lambda>t. tk_key t = Some k) ts = Some t" "tk_id t \<notin> F"
    "\<forall>x\<in>set ts. tk_id x = tk_id t \<longrightarrow> tk_status x = TK_SUCCESS"
    unfolding settled_log_def by blast
  have mem: "t \<in> set ts" using find_Some_set[OF t(1)] by simp
  have ft: "f t = t" by (rule assms(4)[OF mem]) (use t mem in auto)
  have "tk_status (f x) = TK_SUCCESS" if x: "x \<in> set ts" "tk_id (f x) = tk_id t" for x
  proof -
    have id: "tk_id x = tk_id t" using assms(3)[of x] x(2) t(2) by auto
    then have "tk_status x = TK_SUCCESS" using t(3) x(1) by blast
    moreover have "f x = x" by (rule assms(4)[OF x(1)]) (use id t x(1) in auto)
    ultimately show ?thesis by simp
  qed
  then show ?thesis unfolding settled_log_def find_map_keys[OF assms(2)] using t(1,2) ft
    by (intro exI[of _ t]) auto
qed

lemma settled_tasks_cong: "hd_tasks (sw_db w') = hd_tasks (sw_db w) \<Longrightarrow> settled sv i w' = settled sv i w"
  by (simp add: settled_iff)

lemma settled_new_row:
  assumes "new_row sv mk w = (tid, w')" "settled sv i w" "\<And>x. tk_id (mk x) = x"
  shows "settled sv i w'"
  using assms(2) settled_log_append[of _ _ _ "mk tid"] new_row_frame(1,3)[OF assms(1)] assms(3)
  by (simp add: settled_iff)

lemma settled_enqueue:
  assumes "enqueue_semantic sv j r w = (res, w')" "settled sv i w"
  shows "settled sv i w'"
  using assms(1)
proof (cases rule: enqueue_semantic_cases)
  case embed
  obtain tid w1 where n: "new_row sv (\<lambda>tid. (queued_log tid ''EMBED_RESUME'' None)\<lparr>tk_resume := Some r, tk_key := Some (embed_key sv r)\<rparr>) w = (tid, w1)"
    by (metis surj_pair)
  have "settled sv i w1" by (rule settled_new_row[OF n assms(2)]) simp
  then show ?thesis using assms(2) n
    by (auto simp: embed(2) enqueue_resume_embedding_def screening_frames settled_iff)
next
  case (fresh tid w1)
  have "settled sv i w1" by (rule settled_new_row[OF fresh(3) assms(2)]) simp
  then show ?thesis by (simp add: fresh(4) settled_iff screening_frames)
next
  case (reuse t tid w1)
  have t: "t \<in> set (hd_tasks (sw_db w))" using reuse(2) find_Some_set by (fastforce simp: log_by_key_def)
  have "settled sv i w1" unfolding settled_iff reuse(6)
    by (rule settled_log_map[OF assms(2)[unfolded settled_iff]]) (use reuse(3,5) t in auto)
  then show ?thesis by (simp add: reuse(13) settled_iff screening_frames)
qed (use assms(2) in auto)

lemma settled_enqueue_self:
  assumes "settled sv i w" "embedding_of r (sw_embeddings w) \<noteq> None"
  shows "enqueue_semantic sv i r w = (Inr (), w)"
  using settled_done[OF assms(1)] assms(2) by (auto simp: enqueue_semantic_def)

lemma settled_enqueue_silent:
  assumes "enqueue_semantic sv j r w = (res, w')" "settled sv i w"
  shows "semantic_messages i w' = semantic_messages i w"
proof (cases "j = i")
  case False
  then show ?thesis using enqueue_semantic_frame(6)[OF assms(1), of i] by simp
next
  case True
  show ?thesis
  proof (cases "embedding_of r (sw_embeddings w)")
    case None
    then have "w' = enqueue_resume_embedding sv r w" using assms(1) by (simp add: enqueue_semantic_def)
    then show ?thesis by (simp add: enqueue_resume_embedding_frame)
  next
    case (Some e)
    then show ?thesis using settled_enqueue_self[OF assms(2)] assms(1) True by simp
  qed
qed

lemma settled_enqueue_each:
  "enqueue_each sv cs w = (res, w') \<Longrightarrow> settled sv i w \<Longrightarrow> settled sv i w' \<and> semantic_messages i w' = semantic_messages i w"
proof (induction cs arbitrary: w)
  case (Cons c cs)
  obtain r w1 where e: "enqueue_semantic sv (cc_id c) (cc_resume c) w = (r, w1)" by (metis surj_pair)
  have w1: "settled sv i w1" "semantic_messages i w1 = semantic_messages i w"
    by (rule settled_enqueue[OF e Cons.prems(2)], rule settled_enqueue_silent[OF e Cons.prems(2)])
  show ?case
  proof (cases r)
    case (Inl x)
    then show ?thesis using Cons.prems(1) e w1 by simp
  next
    case (Inr u)
    then have "enqueue_each sv cs w1 = (res, w')" using Cons.prems(1) e by simp
    from Cons.IH[OF this w1(1)] w1 show ?thesis by simp
  qed
qed simp

section \<open>Recovery\<close>

text \<open>
  What can happen to a candidate left behind: the periodic scan, the trigger after a
  resume was embedded, and embeddings that arrive.
\<close>

datatype rescue = RS_Scan | RS_Trigger nat | RS_Resume_Embedded nat nat | RS_Job_Embedded nat nat

fun rescue_step :: "screening_env \<Rightarrow> rescue \<Rightarrow> screening_world \<Rightarrow> screening_world" where
  "rescue_step sv RS_Scan w = snd (recover_pending sv w)"
| "rescue_step sv (RS_Trigger r) w = snd (trigger_pending sv r w)"
| "rescue_step sv (RS_Resume_Embedded r v) w = w\<lparr>sw_embeddings := (r, v) # sw_embeddings w\<rparr>"
| "rescue_step sv (RS_Job_Embedded j v) w = w\<lparr>sw_jd_embeddings := (j, v) # sw_jd_embeddings w\<rparr>"

lemma recover_settled:
  assumes "settled sv i w"
  shows "settled sv i (snd (recover_pending sv w))" "semantic_messages i (snd (recover_pending sv w)) = semantic_messages i w"
    "same_records (sw_db w) (sw_db (snd (recover_pending sv w)))"
proof -
  obtain tid w1 where n: "new_row sv (\<lambda>tid. queued_log tid ''SEMANTIC_SCORE_RECOVERY_SCAN'' None) w = (tid, w1)" by (metis surj_pair)
  obtain res w2 where e: "enqueue_each sv (pending_semantic w1) w1 = (res, w2)" by (metis surj_pair)
  have w1: "settled sv i w1" by (rule settled_new_row[OF n assms]) simp
  note w2 = settled_enqueue_each[OF e w1]
  have rec: "same_records (sw_db w) (sw_db w2)"
    using new_row_frame(2)[OF n] enqueue_each_frame[OF e] by (blast intro: same_records_trans)
  have fresh: "tid \<in> range (ev_fresh (sv_broker sv))" using new_row_frame(1)[OF n] by simp
  have status: "settled_log k F (set_status tid s (hd_tasks (sw_db w2)))"
    if "settled_log k F (hd_tasks (sw_db w2))" "tid \<in> F" for k F s
    unfolding set_status_def by (rule settled_log_map[OF that(1)]) (use that(2) in auto)
  have "settled sv i (set_tasks (set_status tid s) w2)" for s
    using status w2 fresh by (simp add: settled_iff screening_frames)
  moreover have "settled sv i (succeed tid w2)"
    using status w2 fresh by (simp add: settled_iff screening_frames)
  moreover have "semantic_messages i w2 = semantic_messages i w"
    using w2 semantic_messages_cong[OF new_row_frame(4)[OF n]] by metis
  moreover have "snd (recover_pending sv w) = succeed tid w2 \<or> (\<exists>s. snd (recover_pending sv w) = set_tasks (set_status tid s) w2)"
    by (cases res) (auto simp: recover_pending_def n e)
  ultimately show "settled sv i (snd (recover_pending sv w))"
    "semantic_messages i (snd (recover_pending sv w)) = semantic_messages i w"
    "same_records (sw_db w) (sw_db (snd (recover_pending sv w)))"
    using rec by (auto simp: screening_frames semantic_messages_def)
qed

lemma rescue_step_settled:
  assumes "settled sv i w"
  shows "settled sv i (rescue_step sv x w) \<and> semantic_messages i (rescue_step sv x w) = semantic_messages i w
    \<and> find_candidate i (sw_db (rescue_step sv x w)) = find_candidate i (sw_db w)"
proof (cases x)
  case RS_Scan
  then show ?thesis using recover_settled[OF assms] same_records_find by fastforce
next
  case (RS_Trigger r)
  obtain res w' where e: "trigger_pending sv r w = (res, w')" by (metis surj_pair)
  have "find_candidate i (sw_db w') = find_candidate i (sw_db w)"
    using enqueue_each_frame[OF e[unfolded trigger_pending_def]] same_records_find by fastforce
  then show ?thesis using settled_enqueue_each[OF e[unfolded trigger_pending_def] assms] by (simp add: RS_Trigger e)
qed (use assms in \<open>simp_all add: settled_iff semantic_messages_def broker_def sw_db_def\<close>)

lemma rescue_settled:
  "settled sv i w \<Longrightarrow> semantic_messages i (fold (rescue_step sv) xs w) = semantic_messages i w
    \<and> find_candidate i (sw_db (fold (rescue_step sv) xs w)) = find_candidate i (sw_db w)"
  by (induction xs arbitrary: w) (auto simp: rescue_step_settled)

lemma find_by_key_id:
  assumes "log_by_key k h = Some t" "distinct (map tk_id (hd_tasks h))" "x \<in> set (hd_tasks h)" "tk_id x = tk_id t"
  shows "x = t"
  using assms find_Some_set[of "\<lambda>t. tk_key t = Some k" "hd_tasks h" t]
  by (auto simp: log_by_key_def dest: inj_onD[OF distinct_map[THEN iffD1, THEN conjunct2]])

lemma flag_tasks [simp]: "hd_tasks (flag_manual_review i h) = hd_tasks h" "hd_tasks (record_missing_embedding now i h) = hd_tasks h"
  "hd_tasks (clear_semantic_score i h) = hd_tasks h"
  by (simp_all add: flag_manual_review_def record_missing_embedding_def clear_semantic_score_def update_ai_def
      update_candidate_def get_or_create_ai_def split: option.split)

lemma fail_task_not_done: "fst (fail_task tid type i retries e w) \<noteq> RE_DONE"
  by (simp add: fail_task_def Let_def)

lemma fail_task_not_done' [simp]: "fail_task tid type i retries e w \<noteq> (RE_DONE, w')"
  using fail_task_not_done[of tid type i retries e w] by force

lemma end_task_done [simp]:
  "end_task fault tid type i retries w = (RE_DONE, w') \<longleftrightarrow> success_fault fault = None \<and> w' = succeed tid w"
  by (auto simp: end_task_def split: option.split)

lemma unscored_run:
  assumes run: "semantic_task sv now fault tid i retries w = (RE_DONE, w')"
    and c: "find_candidate i (sw_db w') = Some c" "cc_sem_score c = None"
  shows "(already_done tid (sw_db w) \<and> w' = w)
    \<or> (\<exists>h. w' = succeed tid (with_db h (start_task tid ''SEMANTIC_SCORE'' i w))
          \<and> hd_tasks h = hd_tasks (sw_db (start_task tid ''SEMANTIC_SCORE'' i w)))"
proof (cases "already_done tid (sw_db w)")
  case True
  then show ?thesis using run by (simp add: semantic_task_def)
next
  case False
  let ?w1 = "start_task tid ''SEMANTIC_SCORE'' i w"
  show ?thesis
  proof (cases "\<exists>h. w' = succeed tid (with_db h ?w1) \<and> hd_tasks h = hd_tasks (sw_db ?w1)")
    case stay: False
    have rule: "w' = succeed tid (with_db h ?w1) \<Longrightarrow> hd_tasks h \<noteq> hd_tasks (sw_db ?w1)" for h using stay by blast
    obtain cc ca v where cc: "find_candidate i (sw_db ?w1) = Some cc"
      and out: "w' = succeed tid (score_and_persist_semantic sv now cc ca v ?w1)"
      using run False by (auto simp: semantic_task_def Let_def dest: rule split: option.splits if_splits prod.splits)
    have "cc_id cc = i" using find_candidate_Some[OF cc] by blast
    then show ?thesis using persisted_candidate[of cc ?w1 sv now ca v] cc c out by auto
  qed blast
qed

lemma set_status_find: "find P (set_status tid s ts) = map_option (\<lambda>t. if tk_id t = tid then t\<lparr>tk_status := s\<rparr> else t) (find P ts)"
  if "\<And>t. P (t\<lparr>tk_status := s\<rparr>) = P t"
  using that by (induction ts) (auto simp: set_status_def)

lemma set_status_member:
  assumes "x \<in> set (set_status tid s ts)" "tk_id x = tid"
  shows "tk_status x = s"
proof -
  obtain y where "x = (if tk_id y = tid then y\<lparr>tk_status := s\<rparr> else y)"
    using assms(1) unfolding set_status_def set_map by blast
  then show ?thesis using assms(2) by (cases "tk_id y = tid") simp_all
qed

lemma unscored_settled:
  assumes run: "semantic_task sv now fault tid i retries w = (RE_DONE, w')"
    and row: "log_by_key (semantic_key sv i) (sw_db w) = Some t" "tk_id t = tid" "tid \<notin> range (ev_fresh (sv_broker sv))"
    and ids: "distinct (map tk_id (hd_tasks (sw_db w)))"
    and c: "find_candidate i (sw_db w') = Some c" "cc_sem_score c = None"
  shows "settled sv i w'"
proof -
  have mem: "t \<in> set (hd_tasks (sw_db w))" using row(1) find_Some_set by (fastforce simp: log_by_key_def)
  from unscored_run[OF run c] show ?thesis
  proof
    assume dn: "already_done tid (sw_db w) \<and> w' = w"
    then obtain x where x: "find (\<lambda>t. tk_id t = tid) (hd_tasks (sw_db w)) = Some x" "tk_status x = TK_SUCCESS"
      by (auto simp: already_done_def split: option.splits)
    have "x = t" using find_by_key_id[OF row(1) ids, of x] find_Some_set[OF x(1)] row(2) by simp
    then show ?thesis using dn row x(2) find_by_key_id[OF row(1) ids] by (auto simp: settled_def)
  next
    assume "\<exists>h. w' = succeed tid (with_db h (start_task tid ''SEMANTIC_SCORE'' i w))
          \<and> hd_tasks h = hd_tasks (sw_db (start_task tid ''SEMANTIC_SCORE'' i w))"
    then have tasks: "hd_tasks (sw_db w') = set_status tid TK_SUCCESS (hd_tasks (sw_db (start_task tid ''SEMANTIC_SCORE'' i w)))"
      by (auto simp: screening_frames)
    have "ensure_log tid ''SEMANTIC_SCORE'' (map_option cc_id (find_candidate i (sw_db w))) (sw_db w) = sw_db w"
      using mem row(2) by (auto simp: ensure_log_def list_ex_iff)
    then have "hd_tasks (sw_db (start_task tid ''SEMANTIC_SCORE'' i w)) = set_status tid TK_RUNNING (hd_tasks (sw_db w))"
      by (simp add: start_task_def set_task_status_def set_status_def)
    then have w': "hd_tasks (sw_db w') = set_status tid TK_SUCCESS (set_status tid TK_RUNNING (hd_tasks (sw_db w)))"
      using tasks by simp
    have "find (\<lambda>t. tk_key t = Some (semantic_key sv i)) (hd_tasks (sw_db w)) = Some t"
      using row(1) by (simp add: log_by_key_def)
    then have "find (\<lambda>t. tk_key t = Some (semantic_key sv i)) (hd_tasks (sw_db w')) = Some (t\<lparr>tk_status := TK_SUCCESS\<rparr>)"
      using row(2) by (simp add: w' set_status_find)
    moreover have "\<forall>x\<in>set (hd_tasks (sw_db w')). tk_id x = tid \<longrightarrow> tk_status x = TK_SUCCESS"
      unfolding w' using set_status_member by blast
    ultimately show ?thesis using row(2,3) unfolding settled_def log_by_key_def
      by (intro exI[of _ "t\<lparr>tk_status := TK_SUCCESS\<rparr>"]) simp
  qed
qed

text \<open>
  Property C24.  A semantic run that ends without a score (the campaign was closed, an
  embedding was missing, the model versions differed) settles the candidate's task for
  good: no later recovery scan, no trigger after an embedding, and no embedding that
  arrives makes the code send his scoring task again, and he keeps having no score.
\<close>

theorem unscored_candidate_stays:
  assumes "semantic_task sv now fault tid i retries w = (RE_DONE, w')"
    and "log_by_key (semantic_key sv i) (sw_db w) = Some t" "tk_id t = tid" "tid \<notin> range (ev_fresh (sv_broker sv))"
    and "distinct (map tk_id (hd_tasks (sw_db w)))"
    and "find_candidate i (sw_db w') = Some c" "cc_sem_score c = None"
  shows "semantic_messages i (fold (rescue_step sv) steps w') = semantic_messages i w'
     \<and> find_candidate i (sw_db (fold (rescue_step sv) steps w')) = Some c"
  using rescue_settled[OF unscored_settled[OF assms], of steps] assms(6) by simp

section \<open>A dead-lettered semantic task\<close>

text \<open>The row under the key is dead and a dead letter refers to it.\<close>

definition refused_row :: "screening_env \<Rightarrow> nat \<Rightarrow> screening_world \<Rightarrow> bool" where
  "refused_row sv i w \<longleftrightarrow> (\<exists>t. log_by_key (semantic_key sv i) (sw_db w) = Some t \<and> referenced (tk_id t) (sw_dlq w)
     \<and> (\<forall>x\<in>set (hd_tasks (sw_db w)). tk_id x = tk_id t \<longrightarrow> tk_status x = TK_DEAD))"

lemma refused_status: "refused_row sv i w \<Longrightarrow> \<exists>t. log_by_key (semantic_key sv i) (sw_db w) = Some t \<and> tk_status t = TK_DEAD
    \<and> referenced (tk_id t) (sw_dlq w)"
  unfolding refused_row_def log_by_key_def using find_Some_set by fastforce

lemma refused_enqueue:
  assumes "refused_row sv i w" "embedding_of r (sw_embeddings w) \<noteq> None"
  shows "enqueue_semantic sv i r w = (Inl (failure_of FK_Other ''foreign key violation''), w)"
  using refused_status[OF assms(1)] assms(2) by (auto simp: enqueue_semantic_def)

text \<open>Other candidates' rows come behind, or are given ids that no dead letter knows.\<close>

lemma refused_kept:
  assumes "enqueue_semantic sv j r w = (Inr u, w')" "refused_row sv i w" "embedding_of r (sw_embeddings w) \<noteq> None"
    "\<forall>d\<in>set (sw_dlq w). dq_task d \<notin> range (ev_fresh (sv_broker sv))"
  shows "refused_row sv i w'"
proof -
  from assms(2) obtain t where t: "log_by_key (semantic_key sv i) (sw_db w) = Some t" "referenced (tk_id t) (sw_dlq w)"
    "\<forall>x\<in>set (hd_tasks (sw_db w)). tk_id x = tk_id t \<longrightarrow> tk_status x = TK_DEAD"
    unfolding refused_row_def by blast
  have fresh_t: "tk_id t \<notin> range (ev_fresh (sv_broker sv))" using t(2) assms(4) by (auto simp: referenced_def list_ex_iff)
  have same: "sw_dlq w' = sw_dlq w" using enqueue_semantic_frame[OF assms(1)] by simp
  show ?thesis using assms(1)
  proof (cases rule: enqueue_semantic_cases)
    case (fresh tid w1)
    note n = new_row_frame[OF fresh(3)]
    have "tid \<noteq> tk_id t" using n(1) fresh_t by (metis rangeI)
    then show ?thesis using t n(3,5) find_append_Some[of _ "hd_tasks (sw_db w)" t]
      by (auto simp: fresh(4) refused_row_def screening_frames log_by_key_def intro!: exI[of _ t])
  next
    case (reuse x tid w1)
    let ?f = "\<lambda>y. if tk_id y = tk_id x then y\<lparr>tk_id := tid, tk_status := TK_QUEUED\<rparr> else y"
    have neq: "tk_id t \<noteq> tk_id x" using reuse(4) t(2) by auto
    have "find (\<lambda>t. tk_key t = Some (semantic_key sv i)) (map ?f (hd_tasks (sw_db w))) = map_option ?f (Some t)"
      using t(1) by (subst find_map_keys) (auto simp: log_by_key_def)
    moreover have "tid \<noteq> tk_id t" using reuse(5) fresh_t by (metis rangeI)
    ultimately show ?thesis using t(2,3) neq reuse(6,9)
      by (auto simp: reuse(13) refused_row_def screening_frames log_by_key_def)
  qed (use assms in auto)
qed

lemma refused_stops:
  assumes "refused_row sv i w" "\<forall>c\<in>set (xs @ [c]). embedding_of (cc_resume c) (sw_embeddings w) \<noteq> None" "cc_id c = i"
    "\<forall>d\<in>set (sw_dlq w). dq_task d \<notin> range (ev_fresh (sv_broker sv))"
  shows "\<exists>e. fst (enqueue_each sv (xs @ c # ys) w) = Inl e \<and> enqueue_each sv (xs @ c # ys) w = enqueue_each sv (xs @ [c]) w"
  using assms
proof (induction xs arbitrary: w)
  case Nil
  then show ?case using refused_enqueue[of sv i w "cc_resume c"] by simp
next
  case (Cons x xs)
  obtain r w1 where e: "enqueue_semantic sv (cc_id x) (cc_resume x) w = (r, w1)" by (metis surj_pair)
  note f = enqueue_semantic_frame[OF e]
  show ?case
  proof (cases r)
    case (Inl a)
    then show ?thesis using e by simp
  next
    case (Inr u)
    have "refused_row sv i w1" using refused_kept[OF e[unfolded Inr] Cons.prems(1)] Cons.prems(2,4) by simp
    then have "\<exists>e. fst (enqueue_each sv (xs @ c # ys) w1) = Inl e \<and> enqueue_each sv (xs @ c # ys) w1 = enqueue_each sv (xs @ [c]) w1"
      by (rule Cons.IH) (use Cons.prems(2-4) f in simp_all)
    then show ?thesis using e Inr by auto
  qed
qed

lemma dead_run:
  assumes run: "semantic_task sv now fault tid i retries w = (RE_DEAD, w')" and early: "success_fault fault = None"
    and row: "log_by_key (semantic_key sv i) (sw_db w) = Some t" "tk_id t = tid"
  shows "refused_row sv i w'"
proof -
  let ?w1 = "start_task tid ''SEMANTIC_SCORE'' i w"
  have mem: "t \<in> set (hd_tasks (sw_db w))" using row(1) find_Some_set by (fastforce simp: log_by_key_def)
  have "ensure_log tid ''SEMANTIC_SCORE'' (map_option cc_id (find_candidate i (sw_db w))) (sw_db w) = sw_db w"
    using mem row(2) by (auto simp: ensure_log_def list_ex_iff)
  then have w1: "hd_tasks (sw_db ?w1) = set_status tid TK_RUNNING (hd_tasks (sw_db w))"
    by (simp add: start_task_def set_task_status_def set_status_def)
  obtain e where "fail_task tid ''SEMANTIC_SCORE'' i retries e ?w1 = (RE_DEAD, w')"
    using run early by (auto simp: semantic_task_def end_task_def Let_def split: option.splits if_splits prod.splits)
  note f = fail_task_cases[OF this]
  then have tasks: "hd_tasks (sw_db w') = set_status tid TK_DEAD (set_status tid TK_RUNNING (hd_tasks (sw_db w)))"
    and dlq: "sw_dlq w' = add_dead_letter tid ''SEMANTIC_SCORE'' None (Some i) (fl_text e) (Suc retries) (sw_dlq ?w1)"
    by (auto simp: w1 split: if_splits)
  have "find (\<lambda>t. tk_key t = Some (semantic_key sv i)) (hd_tasks (sw_db w)) = Some t"
    using row(1) by (simp add: log_by_key_def)
  then have "find (\<lambda>t. tk_key t = Some (semantic_key sv i)) (hd_tasks (sw_db w')) = Some (t\<lparr>tk_status := TK_DEAD\<rparr>)"
    using row(2) by (simp add: tasks set_status_find)
  moreover have "\<forall>x\<in>set (hd_tasks (sw_db w')). tk_id x = tid \<longrightarrow> tk_status x = TK_DEAD"
    unfolding tasks using set_status_member by blast
  moreover have "referenced tid (sw_dlq w')"
    by (simp add: dlq referenced_def add_dead_letter_def dead_letter_of_def)
  ultimately show ?thesis using row(2) unfolding refused_row_def log_by_key_def
    by (intro exI[of _ "t\<lparr>tk_status := TK_DEAD\<rparr>"]) simp
qed

text \<open>
  Once a semantic task was dead-lettered for a failure of the scoring, the recovery scan fails at its
  candidate: the row cannot be given a new task id, because the dead letter refers to the
  old one.  The scan stops there, so no candidate behind him is enqueued.
\<close>

theorem dead_task_blocks_recovery:
  assumes run: "semantic_task sv now fault tid i retries w = (RE_DEAD, w')" "success_fault fault = None"
    and row: "log_by_key (semantic_key sv i) (sw_db w) = Some t" "tk_id t = tid"
    and pending: "pending_semantic w' = xs @ c # ys" "cc_id c = i"
    and ids: "\<forall>d\<in>set (sw_dlq w'). dq_task d \<notin> range (ev_fresh (sv_broker sv))"
  shows "(\<exists>e. fst (recover_pending sv w') = RE_RAISED e)
     \<and> (\<forall>y\<in>set ys. cc_id y \<notin> cc_id ` set (xs @ [c]) \<longrightarrow>
          semantic_messages (cc_id y) (snd (recover_pending sv w')) = semantic_messages (cc_id y) w')"
proof -
  obtain tid' w1 where n: "new_row sv (\<lambda>tid. queued_log tid ''SEMANTIC_SCORE_RECOVERY_SCAN'' None) w' = (tid', w1)" by (metis surj_pair)
  note nf = new_row_frame[OF n]
  have pend: "pending_semantic w1 = xs @ c # ys"
    using pending(1) nf(2,7) by (simp add: pending_semantic_def same_records_def)
  from dead_run[OF run row] obtain u where u: "log_by_key (semantic_key sv i) (sw_db w') = Some u" "referenced (tk_id u) (sw_dlq w')"
    "\<forall>x\<in>set (hd_tasks (sw_db w')). tk_id x = tk_id u \<longrightarrow> tk_status x = TK_DEAD"
    unfolding refused_row_def by blast
  have "tk_id u \<notin> range (ev_fresh (sv_broker sv))" using u(2) ids by (auto simp: referenced_def list_ex_iff)
  then have "tid' \<noteq> tk_id u" using nf(1) by (metis rangeI)
  then have ref: "refused_row sv i w1" using u nf(3,5) find_append_Some[of _ "hd_tasks (sw_db w')" u]
    by (auto simp: refused_row_def log_by_key_def intro!: exI[of _ u])
  have emb: "\<forall>x\<in>set (xs @ [c]). embedding_of (cc_resume x) (sw_embeddings w1) \<noteq> None"
  proof
    fix x assume "x \<in> set (xs @ [c])"
    then have "x \<in> set (pending_semantic w1)" by (auto simp: pend)
    then show "embedding_of (cc_resume x) (sw_embeddings w1) \<noteq> None" unfolding pending_semantic_def by simp
  qed
  from refused_stops[OF ref emb pending(2), of ys] ids nf(5)
  obtain e where e: "fst (enqueue_each sv (xs @ c # ys) w1) = Inl e" "enqueue_each sv (xs @ c # ys) w1 = enqueue_each sv (xs @ [c]) w1"
    by auto
  obtain w2 where w2: "enqueue_each sv (xs @ [c]) w1 = (Inl e, w2)" using e by (metis prod.collapse)
  have scan: "recover_pending sv w' = (RE_RAISED e, set_tasks (set_status tid' TK_FAILURE) w2)"
    by (simp add: recover_pending_def n pend e(2) w2)
  have "semantic_messages j w2 = semantic_messages j w'" if "j \<notin> cc_id ` set (xs @ [c])" for j
    using enqueue_each_frame[OF w2, of j] that semantic_messages_cong[OF nf(4), of j] by simp
  then show ?thesis by (simp add: scan semantic_messages_def screening_frames)
qed

section \<open>Runs end\<close>

lemma backoff_small: "retries < 2 \<Longrightarrow> compute_backoff_seconds screening_policy (Suc retries) \<le> 20"
  by (auto simp: compute_backoff_seconds_def screening_policy_def less_2_cases_iff)

definition bounded_end :: "task_fault option \<Rightarrow> nat \<Rightarrow> nat \<Rightarrow> nat \<Rightarrow> nat \<Rightarrow> screening_world \<Rightarrow> run_end \<times> screening_world \<Rightarrow> bool" where
  "bounded_end fault i retries limit delay w = (\<lambda>(r, w').
     case r of
       RE_DONE \<Rightarrow> True
     | RE_RAISED e \<Rightarrow> False
     | RE_RETRY d \<Rightarrow> retries < limit \<and> d \<le> delay \<and> sw_dlq w' = sw_dlq w
         \<and> (success_fault fault \<noteq> None \<or> same_records (sw_db w) (sw_db w') \<and> broker w' = broker w)
     | RE_DEAD \<Rightarrow> (success_fault fault \<noteq> None \<or> same_records (sw_db w) (sw_db w') \<and> broker w' = broker w)
         \<and> (\<exists>d. sw_dlq w' = sw_dlq w @ [d] \<and> dq_candidate d = Some i \<and> dq_retries d = Suc retries \<and> \<not> dq_resolved d))"

lemma fail_task_bounded:
  assumes "limit \<ge> 2" "delay \<ge> 20" "sw_dlq w1 = sw_dlq w"
    and "success_fault fault \<noteq> None \<or> same_records (sw_db w) (sw_db w1) \<and> broker w1 = broker w"
  shows "bounded_end fault i retries limit delay w (fail_task tid type i retries e w1)"
proof -
  obtain r w' where f: "fail_task tid type i retries e w1 = (r, w')" by (metis surj_pair)
  note c = fail_task_cases[OF f]
  have kept: "success_fault fault \<noteq> None \<or> same_records (sw_db w) (sw_db w') \<and> broker w' = broker w"
    using c assms(4) by (auto intro: same_records_trans)
  show ?thesis
  proof (cases "classify e \<noteq> FC_PERMANENT \<and> retries < 2")
    case True
    then show ?thesis using c kept assms backoff_small[of retries] by (simp add: f bounded_end_def)
  next
    case False
    then have "r = RE_DEAD \<and> sw_dlq w' = sw_dlq w @ [dead_letter_of (length (sw_dlq w)) tid type None (Some i) (fl_text e) (Suc retries)]"
      using c assms by (simp add: add_dead_letter_def split: if_splits)
    then show ?thesis using kept by (simp add: f bounded_end_def dead_letter_of_def)
  qed
qed

lemma end_task_bounded:
  assumes "limit \<ge> 2" "delay \<ge> 20" "sw_dlq w1 = sw_dlq w"
  shows "bounded_end fault i retries limit delay w (end_task fault tid type i retries w1)"
proof (cases "success_fault fault")
  case None
  then show ?thesis by (simp add: end_task_def bounded_end_def)
next
  case (Some e)
  then show ?thesis using fail_task_bounded[OF assms] by (simp add: end_task_def)
qed

text \<open>Two ends of the same work leave the same records.\<close>

lemma end_task_same: "same_records (sw_db (snd (end_task f tid type i retries w))) (sw_db (snd (end_task g tid type i retries w)))"
  using end_task_records[of w f tid type i retries] end_task_records[of w g tid type i retries] by (simp add: same_records_def)

lemma after_evaluation_records: "same_records (sw_db w) (sw_db (after_evaluation sv i k moved w))"
  using after_rejection_records[of w sv i] enqueue_composite_records[of "sw_main w"]
  by (auto simp: after_evaluation_def on_main_def sw_db_def)

lemma then_send_end:
  "fst (then_send g x) = fst x"
  "(\<And>x. same_records (sw_db x) (sw_db (g x))) \<Longrightarrow> same_records (sw_db (snd x)) (sw_db (snd (then_send g x)))"
  "bounded_end f i retries l d u x \<Longrightarrow> bounded_end f i retries l d u (then_send g x)"
  by (auto simp: then_send_def bounded_end_def split: prod.split run_end.split)

lemma ai_end_same:
  "same_records (sw_db (snd (then_send (after_evaluation sv i k moved) (end_task f tid type i retries w))))
     (sw_db (snd (then_send (after_evaluation sv i k moved) (end_task g tid type i retries w))))"
  using then_send_end(2)[of "after_evaluation sv i k moved", OF after_evaluation_records] end_task_same
  by (simp add: same_records_def)

text \<open>Which end a run reaches does not depend on a failure of its last step.\<close>

lemma ai_task_ends:
  "(\<exists>x. \<forall>f. work_fault f = None \<longrightarrow> ai_task sv now f tid i retries w = x)
   \<or> (\<exists>v. \<forall>f. work_fault f = None \<longrightarrow> ai_task sv now f tid i retries w = end_task f tid ''AI_EVALUATE'' i retries v)
   \<or> (\<exists>k moved v. \<forall>f. work_fault f = None \<longrightarrow>
        ai_task sv now f tid i retries w = then_send (after_evaluation sv i k moved) (end_task f tid ''AI_EVALUATE'' i retries v))"
    (is "?fixed \<or> ?skip \<or> ?sent")
proof (cases "already_done tid (sw_db w)")
  case True
  then have ?fixed by (simp add: ai_task_def)
  then show ?thesis by (rule disjI1)
next
  case run: False
  let ?w1 = "start_task tid ''AI_EVALUATE'' i w"
  show ?thesis
  proof (cases "find_candidate i (sw_db ?w1)")
    case None
    then have ?skip using run by (auto simp: ai_task_def Let_def)
    then show ?thesis by blast
  next
    case cc: (Some cc)
    show ?thesis
    proof (cases "find_campaign (cc_campaign cc) (sw_db ?w1)")
      case None
      then have ?fixed using run cc by (simp add: ai_task_def Let_def)
      then show ?thesis by blast
    next
      case ca: (Some ca)
      show ?thesis
      proof (cases "ca_status ca \<notin> set scoreable \<or> cc_stage cc = REJECTED \<or> \<not> semantic_gate cc")
        case True
        then have ?skip using run cc ca by (auto simp: ai_task_def Let_def)
        then show ?thesis by blast
      next
        case gate: False
        show ?thesis
        proof (cases "ai_body sv cc ca (sw_main ?w1)")
          case (Inl e)
          then have ?fixed using run cc ca gate by (auto simp: ai_task_def Let_def)
          then show ?thesis by blast
        next
          case (Inr y)
          obtain r k where y: "y = (r, k)" by fastforce
          obtain moved h where m: "apply_recommendation now cc (r, k) (store_evaluation now i (r, k) (sw_db ?w1)) = (moved, h)" by fastforce
          have ?sent using run cc ca gate Inr y m by (auto simp: ai_task_def Let_def)
          then show ?thesis by blast
        qed
      qed
    qed
  qed
qed

lemma semantic_task_ends:
  "(\<exists>x. \<forall>f. work_fault f = None \<longrightarrow> semantic_task sv now f tid i retries w = x)
   \<or> (\<exists>v. \<forall>f. work_fault f = None \<longrightarrow> semantic_task sv now f tid i retries w = end_task f tid ''SEMANTIC_SCORE'' i retries v)"
    (is "?fixed \<or> ?ended")
proof (cases "already_done tid (sw_db w)")
  case True
  then have ?fixed by (simp add: semantic_task_def)
  then show ?thesis by (rule disjI1)
next
  case run: False
  let ?w1 = "start_task tid ''SEMANTIC_SCORE'' i w"
  show ?thesis
  proof (cases "find_candidate i (sw_db ?w1)")
    case None
    then have ?ended using run by (auto simp: semantic_task_def Let_def)
    then show ?thesis by blast
  next
    case cc: (Some cc)
    show ?thesis
    proof (cases "find_campaign (cc_campaign cc) (sw_db ?w1)")
      case None
      then have ?fixed using run cc by (simp add: semantic_task_def Let_def)
      then show ?thesis by blast
    next
      case ca: (Some ca)
      show ?thesis
      proof (cases "ca_status ca \<in> set scoreable \<and> cc_det_passed cc = Some True")
        case False
        then have ?ended using run cc ca by (auto simp: semantic_task_def Let_def)
        then show ?thesis by blast
      next
        case gate: True
        show ?thesis
        proof (cases "embedding_of (cc_resume cc) (sw_embeddings ?w1)")
          case None
          then have ?ended using run cc ca gate by (auto simp: semantic_task_def Let_def)
          then show ?thesis by blast
        next
          case re: (Some re)
          note known = run cc ca gate re
          have "?fixed \<or> ?ended" if "embedding_of (ca_jd ca) (sw_jd_embeddings ?w1) = None"
            using known that by (cases "retries < 3") (auto simp: semantic_task_def Let_def)
          moreover have ?ended if "embedding_of (ca_jd ca) (sw_jd_embeddings ?w1) = Some je" for je
            using known that by (cases "snd re = snd je") (auto simp: semantic_task_def Let_def)
          ultimately show ?thesis by (cases "embedding_of (ca_jd ca) (sw_jd_embeddings ?w1)") blast+
        qed
      qed
    qed
  qed
qed

text \<open>
  Property C23.  The runs of the semantic and of the AI task come to an end: the AI task is run
  again only while Celery has counted fewer than two retries, the semantic task fewer than three,
  after at most a minute; neither raises.  A run that is repeated or given up before its results
  are committed leaves every record and the broker as they were; one that fails only when its log
  is marked as done leaves the records of a run that succeeds.  Giving up adds exactly one dead
  letter that names the candidate and the number of runs.
\<close>

theorem screening_runs_end:
  "bounded_end fault i retries 2 20 w (ai_task sv now fault tid i retries w)
   \<and> bounded_end fault i retries 3 60 w (semantic_task sv now fault tid i retries w)
   \<and> same_records (sw_db (snd (ai_task sv now None tid i retries w))) (sw_db (snd (ai_task sv now (Some (TF_Success e)) tid i retries w)))
   \<and> same_records (sw_db (snd (semantic_task sv now None tid i retries w)))
       (sw_db (snd (semantic_task sv now (Some (TF_Success e)) tid i retries w)))"
proof -
  have fin: "bounded_end fault i retries l d w (RE_DONE, w')" for l d w' by (simp add: bounded_end_def)
  have ai: "bounded_end fault i retries 2 20 w (fail_task tid ''AI_EVALUATE'' i retries e (start_task tid ''AI_EVALUATE'' i w))" for e
    by (rule fail_task_bounded) (simp_all add: screening_frames)
  have ai_skip: "bounded_end fault i retries 2 20 w (end_task fault tid ''AI_EVALUATE'' i retries (start_task tid ''AI_EVALUATE'' i w))"
    by (rule end_task_bounded) (simp_all add: screening_frames)
  have ai_done: "bounded_end fault i retries 2 20 w (end_task fault tid ''AI_EVALUATE'' i retries (with_db h (start_task tid ''AI_EVALUATE'' i w)))" for h
    by (rule end_task_bounded) (simp_all add: screening_frames)
  have sem: "bounded_end fault i retries 3 60 w (fail_task tid ''SEMANTIC_SCORE'' i retries e (start_task tid ''SEMANTIC_SCORE'' i w))" for e
    by (rule fail_task_bounded) (simp_all add: screening_frames)
  have sem_end: "bounded_end fault i retries 3 60 w (end_task fault tid ''SEMANTIC_SCORE'' i retries v)"
    if "sw_dlq v = sw_dlq w" for v
    by (rule end_task_bounded) (simp_all add: that)
  have skip: "bounded_end fault i retries 3 60 w (end_task fault tid ''SEMANTIC_SCORE'' i retries (with_db h (start_task tid ''SEMANTIC_SCORE'' i w)))" for h
    by (rule sem_end) (simp add: screening_frames)
  have scored: "bounded_end fault i retries 3 60 w (end_task fault tid ''SEMANTIC_SCORE'' i retries
      (score_and_persist_semantic sv now cc ca v (start_task tid ''SEMANTIC_SCORE'' i w)))" for cc ca v
    by (rule sem_end) (simp add: screening_frames persist_dlq)
  have jd: "bounded_end fault i retries 3 60 w
      (if retries < 3 then (RE_RETRY 60, set_tasks (mark_retry tid) (start_task tid ''SEMANTIC_SCORE'' i w))
       else end_task fault tid ''SEMANTIC_SCORE'' i retries (with_db h (start_task tid ''SEMANTIC_SCORE'' i w)))" for h
    using skip[of h] by (simp add: bounded_end_def screening_frames)
  have "bounded_end fault i retries 2 20 w (ai_task sv now fault tid i retries w)"
    unfolding ai_task_def Let_def
    by (auto simp only: fin ai ai_skip split: option.split sum.split prod.split if_split intro!: then_send_end(3)[OF ai_done])
  moreover have "bounded_end fault i retries 3 60 w (semantic_task sv now fault tid i retries w)"
  proof (cases "already_done tid (sw_db w)")
    case True
    then show ?thesis by (simp add: semantic_task_def fin)
  next
    case run: False
    let ?w1 = "start_task tid ''SEMANTIC_SCORE'' i w"
    show ?thesis
    proof (cases "find_candidate i (sw_db ?w1)")
      case None
      then show ?thesis using run by (simp add: semantic_task_def Let_def skip)
    next
      case cc: (Some cc)
      show ?thesis
      proof (cases "find_campaign (cc_campaign cc) (sw_db ?w1)")
        case None
        then show ?thesis using run cc by (simp add: semantic_task_def Let_def sem)
      next
        case ca: (Some ca)
        show ?thesis
        proof (cases "embedding_of (cc_resume cc) (sw_embeddings ?w1)")
          case None
          then show ?thesis using run cc ca by (simp add: semantic_task_def Let_def skip)
        next
          case re: (Some re)
          show ?thesis using run cc ca re
            by (cases "embedding_of (ca_jd ca) (sw_jd_embeddings ?w1)"; cases "work_fault fault")
              (simp_all add: semantic_task_def Let_def skip sem scored jd)
        qed
      qed
    qed
  qed
  moreover have "same_records (sw_db (snd (ai_task sv now None tid i retries w))) (sw_db (snd (ai_task sv now (Some (TF_Success e)) tid i retries w)))"
    using ai_task_ends[of sv now tid i retries w] ai_end_same end_task_same by (elim disjE exE) (simp_all add: same_records_refl)
  moreover have "same_records (sw_db (snd (semantic_task sv now None tid i retries w)))
       (sw_db (snd (semantic_task sv now (Some (TF_Success e)) tid i retries w)))"
    using semantic_task_ends[of sv now tid i retries w] end_task_same by (elim disjE exE) (simp_all add: same_records_refl)
  ultimately show ?thesis by blast
qed

end
