(* ===== verification/Screening_Outcomes.thy ===== *)
theory Screening_Outcomes
  imports Screening_Props
begin

text \<open>
  What a finished run of the deterministic task and of the AI task leaves, the override of
  a rejection, and example states for all properties of the screening tasks.
\<close>

section \<open>Stage moves by the system\<close>

lemma ai_move_frame:
  assumes "apply_recommendation now cc (r, k) h = (ok, h')" "find_candidate (cc_id cc) h = Some c"
  defines "target \<equiv> (case k of AI_REJECT \<Rightarrow> REJECTED | AI_SHORTLIST \<Rightarrow> SHORTLISTED | AI_HOLD \<Rightarrow> HOLD)"
  shows "ok = is_transition_allowed (hd_rules h) (cc_stage cc) target (cc_previous cc)"
    "\<exists>d. find_candidate (cc_id cc) h' = Some d \<and> cc_stage d = (if ok then target else cc_stage c)
       \<and> (ok \<longrightarrow> cc_previous d = Some (cc_stage cc) \<and> cc_decision_source d = Some DS_AI)"
    "hd_interviews h' = hd_interviews h" "hd_ai h' = hd_ai h"
proof -
  show ok: "ok = is_transition_allowed (hd_rules h) (cc_stage cc) target (cc_previous cc)"
    using assms(1) by (cases k) (auto simp: apply_recommendation_def target_def transition_to_rejected_def transition_on_ai_success_def
        Let_def split: if_splits)
  have rest: "hd_interviews h' = hd_interviews h \<and> hd_ai h' = hd_ai h"
    using assms(1) by (cases k) (auto simp: apply_recommendation_def transition_to_rejected_def transition_on_ai_success_def
        Let_def update_candidate_def create_stage_history_def add_stage_history_def create_transition_log_def split: if_splits)
  then show "hd_interviews h' = hd_interviews h" "hd_ai h' = hd_ai h" by blast+
  show "\<exists>d. find_candidate (cc_id cc) h' = Some d \<and> cc_stage d = (if ok then target else cc_stage c)
       \<and> (ok \<longrightarrow> cc_previous d = Some (cc_stage cc) \<and> cc_decision_source d = Some DS_AI)"
  proof (cases ok)
    case False
    then have "h' = h" using assms(1) by (cases k) (auto simp: apply_recommendation_def transition_to_rejected_def
        transition_on_ai_success_def Let_def split: if_splits)
    with False assms(2) show ?thesis by simp
  next
    case True
    then obtain dt reason details where h': "hd_candidates h' = hd_candidates (update_candidate (cc_id cc)
        (\<lambda>c. decide dt (Some DS_AI) reason details None now (move_stage (cc_stage cc) target c)) h)"
      using assms(1) by (cases k) (auto simp: apply_recommendation_def target_def transition_to_rejected_def transition_on_ai_success_def
        Let_def create_stage_history_def add_stage_history_def create_transition_log_def split: if_splits)
    have "find_candidate (cc_id cc) h' = Some (decide dt (Some DS_AI) reason details None now (move_stage (cc_stage cc) target c))"
      using find_candidate_update_same[OF _ assms(2), of "\<lambda>c. decide dt (Some DS_AI) reason details None now (move_stage (cc_stage cc) target c)"] h'
      by (simp add: find_candidate_def decide_def move_stage_def)
    with True show ?thesis by (simp add: decide_def move_stage_def)
  qed
qed

lemma evaluation_stored:
  assumes "find_candidate i h = Some c"
  shows "find_candidate i (store_evaluation now i (r, k) h) = Some (c\<lparr>cc_updated_at := Some now\<rparr>)"
    "effective_ai_score i (store_evaluation now i (r, k) h) = Some (of_int (ar_overall r))"
    "hd_interviews (store_evaluation now i (r, k) h) = hd_interviews h" "hd_rules (store_evaluation now i (r, k) h) = hd_rules h"
proof -
  let ?h1 = "update_ai i (\<lambda>a. a\<lparr>ae_effective := Some (of_int (ar_overall r)), ae_confidence := Some (of_int (ar_confidence r) / 100),
          ae_recommendation := Some k, ae_strengths := Some (JArr (map JStr (ar_strengths r))),
          ae_weaknesses := Some (JArr (map JStr (ar_gaps r))), ae_response := Some (JObj (response_json r)),
          ae_status := AI_COMPLETED\<rparr>) (snd (get_or_create_ai i h))"
  have h1: "find_candidate i ?h1 = Some c" using assms
    by (auto simp: find_candidate_def update_ai_def get_or_create_ai_def split: option.split)
  show "find_candidate i (store_evaluation now i (r, k) h) = Some (c\<lparr>cc_updated_at := Some now\<rparr>)"
    unfolding store_evaluation_def prod.case by (rule find_candidate_update_same[OF _ h1]) simp
  have ex: "find (\<lambda>a. ae_candidate a = i) (hd_ai (snd (get_or_create_ai i h))) \<noteq> None"
    by (auto simp: get_or_create_ai_def find_None_all blank_ai_def split: option.split dest: find_Some_set)
  have upd: "find (\<lambda>a. ae_candidate a = i) (map (\<lambda>a. if ae_candidate a = i then f a else a) as)
      = map_option f (find (\<lambda>a. ae_candidate a = i) as)" if "\<And>a. ae_candidate (f a) = ae_candidate a" for f as
    using that by (induction as) auto
  show "effective_ai_score i (store_evaluation now i (r, k) h) = Some (of_int (ar_overall r))"
    using ex by (auto simp: effective_ai_score_def store_evaluation_def update_candidate_def update_ai_def upd)
  show "hd_interviews (store_evaluation now i (r, k) h) = hd_interviews h" "hd_rules (store_evaluation now i (r, k) h) = hd_rules h"
    by (auto simp: store_evaluation_def update_candidate_def update_ai_def get_or_create_ai_def split: option.split)
qed

lemma validate_response_ok:
  assumes "res_bind x validate_response = Inr (r, k)"
  shows "0 \<le> ar_overall r \<and> ar_overall r \<le> 100" "0 \<le> ar_confidence r \<and> ar_confidence r \<le> 100"
    "parse_recommendation (ar_recommendation r) = Some k"
  using assms by (auto simp: res_bind_Inr_iff validate_response_def in_percent_def split: option.splits if_splits)

lemma ai_body_ok:
  assumes "ai_body sv cc ca m = Inr (r, k)"
  shows "0 \<le> ar_overall r \<and> ar_overall r \<le> 100" "parse_recommendation (ar_recommendation r) = Some k"
  using assms validate_response_ok by (auto simp: ai_body_def split: if_splits option.splits sum.splits)

lemma start_task_main: "ai_body sv cc ca (sw_main (start_task tid type i w)) = ai_body sv cc ca (sw_main w)"
proof -
  have "validate_prompt p t (m\<lparr>cw_db := h\<rparr>) = validate_prompt p t m" for p t h and m :: campaign_world
    by (cases p) (simp_all add: validate_prompt_def)
  then show ?thesis by (simp add: ai_body_def start_task_def with_db_def jd_by_id_def)
qed

text \<open>
  Property C21.  An AI evaluation that is carried out stores the validated score, between 0
  and 100, and moves the candidate to the recommended stage exactly if the transition table
  allows that move from the stage he is in at that moment, whoever put him there; his
  interviews are not touched.
\<close>

theorem ai_recommendation_applied:
  assumes cc: "find_candidate i (sw_db w) = Some cc" and ca: "find_campaign (cc_campaign cc) (sw_db w) = Some ca"
    and gate: "screening_open ca" "cc_stage cc \<noteq> REJECTED" "semantic_gate cc" "\<not> already_done tid (sw_db w)"
    and body: "ai_body sv cc ca (sw_main w) = Inr (r, k)"
  shows "let w' = snd (ai_task sv now None tid i retries w);
             target = (case k of AI_REJECT \<Rightarrow> REJECTED | AI_SHORTLIST \<Rightarrow> SHORTLISTED | AI_HOLD \<Rightarrow> HOLD);
             moves = is_transition_allowed (hd_rules (sw_db w)) (cc_stage cc) target (cc_previous cc)
         in (\<exists>d. find_candidate i (sw_db w') = Some d \<and> cc_stage d = (if moves then target else cc_stage cc)
               \<and> (moves \<longrightarrow> cc_previous d = Some (cc_stage cc) \<and> cc_decision_source d = Some DS_AI))
            \<and> effective_ai_score i (sw_db w') = Some (of_int (ar_overall r)) \<and> 0 \<le> ar_overall r \<and> ar_overall r \<le> 100
            \<and> hd_interviews (sw_db w') = hd_interviews (sw_db w)"
proof -
  let ?w1 = "start_task tid ''AI_EVALUATE'' i w"
  let ?target = "case k of AI_REJECT \<Rightarrow> REJECTED | AI_SHORTLIST \<Rightarrow> SHORTLISTED | AI_HOLD \<Rightarrow> HOLD"
  let ?h1 = "store_evaluation now i (r, k) (sw_db ?w1)"
  have id: "cc_id cc = i" using find_candidate_Some[OF cc] by blast
  have s1: "same_records (sw_db w) (sw_db ?w1)" by (simp add: screening_frames)
  obtain moved h2 where m: "apply_recommendation now cc (r, k) ?h1 = (moved, h2)" by (metis surj_pair)
  let ?w2 = "succeed tid (with_db (audit None (Some SYSTEM) ''AI_EVALUATION_COMPUTED'' i (response_json r) h2) ?w1)"
  have run: "ai_task sv now None tid i retries w = (RE_DONE,
      if k = AI_REJECT then (if moved then after_rejection sv i ?w2 else ?w2)
      else on_main (enqueue_composite (sv_broker sv) TR_AI_EVALUATION i) ?w2)"
    using cc ca gate body m by (simp add: ai_task_def Let_def screening_open_def scoreable_def start_task_main then_send_def
        after_evaluation_def end_task_def)
  have on_main: "same_records (sw_db x) (sw_db (on_main (enqueue_composite ev tr i) x))" for x ev tr
    using enqueue_composite_records[of "sw_main x"] by (simp add: on_main_def sw_db_def)
  have last: "same_records (audit None (Some SYSTEM) ''AI_EVALUATION_COMPUTED'' i (response_json r) h2)
      (sw_db (snd (ai_task sv now None tid i retries w)))"
    unfolding run by (simp add: same_records_iff[OF after_rejection_records] same_records_iff[OF on_main] screening_frames)
  have final: "find_candidate i (sw_db (snd (ai_task sv now None tid i retries w))) = find_candidate i h2"
    "hd_ai (sw_db (snd (ai_task sv now None tid i retries w))) = hd_ai h2"
    "hd_interviews (sw_db (snd (ai_task sv now None tid i retries w))) = hd_interviews h2"
    using same_records_find[OF last] last[unfolded same_records_def] by (simp, simp add: audit_def, simp add: audit_def)
  have c1: "find_candidate i (sw_db ?w1) = Some cc" using cc by simp
  note ev = evaluation_stored[OF c1, of now r k]
  note mv = ai_move_frame[OF m, unfolded id, OF ev(1)]
  have rules: "hd_rules (sw_db ?w1) = hd_rules (sw_db w)" "hd_interviews (sw_db ?w1) = hd_interviews (sw_db w)"
    using s1 by (simp_all add: same_records_def)
  have "effective_ai_score i (sw_db (snd (ai_task sv now None tid i retries w))) = effective_ai_score i ?h1"
    using final(2) mv(4) by (simp add: effective_ai_score_def)
  then show ?thesis
    using mv ev final rules ai_body_ok[OF body] unfolding Let_def by auto
qed

section \<open>The deterministic task\<close>

lemma screening_exit: "is_transition_allowed seeded_rows SCREENING REJECTED p"
proof -
  have "list_all (is_transition_allowed seeded_rows SCREENING REJECTED)
      (None # map Some [UPLOADED, SCREENING, SHORTLISTED, HOLD, HM_REVIEW, INTERVIEW, SELECTED, REJECTED, FRAUD_REVIEW])"
    by code_simp
  moreover have "p \<in> set (None # map Some [UPLOADED, SCREENING, SHORTLISTED, HOLD, HM_REVIEW, INTERVIEW, SELECTED, REJECTED, FRAUD_REVIEW])"
  proof (cases p)
    case (Some s)
    then show ?thesis by (cases s) simp_all
  qed simp
  ultimately show ?thesis unfolding list_all_iff by blast
qed

lemma entry_allowed: "is_transition_allowed seeded_rows UPLOADED SCREENING None"
  by code_simp

definition in_screening :: "campaign_candidate \<Rightarrow> bool" where
  "in_screening cc \<longleftrightarrow> cc_stage cc = SCREENING \<or> (cc_stage cc = UPLOADED \<and> cc_previous cc = None)"

lemma enter_screening:
  assumes "find_candidate (cc_id cc) h = Some cc" "in_screening cc" "hd_rules h = seeded_rows"
  shows "\<exists>c1. find_candidate (cc_id cc) (snd (transition_to_screening now cc h)) = Some c1 \<and> cc_stage c1 = SCREENING \<and> cc_id c1 = cc_id cc
     \<and> cc_resume c1 = cc_resume cc"
    "hd_rules (snd (transition_to_screening now cc h)) = hd_rules h"
proof -
  let ?f = "\<lambda>c. (move_stage UPLOADED SCREENING c)\<lparr>cc_updated_at := Some now\<rparr>"
  have upd: "find_candidate (cc_id cc) (update_candidate (cc_id cc) ?f h) = Some (?f cc)"
    by (rule find_candidate_update_same[OF _ assms(1)]) (simp add: move_stage_def)
  show "\<exists>c1. find_candidate (cc_id cc) (snd (transition_to_screening now cc h)) = Some c1 \<and> cc_stage c1 = SCREENING \<and> cc_id c1 = cc_id cc
     \<and> cc_resume c1 = cc_resume cc"
  proof (cases "cc_stage cc = SCREENING")
    case True
    then show ?thesis using assms(1) by (simp add: transition_to_screening_def Let_def)
  next
    case False
    then have up: "cc_stage cc = UPLOADED" "cc_previous cc = None" using assms(2) by (auto simp: in_screening_def)
    have "find_candidate (cc_id cc) (snd (transition_to_screening now cc h)) = Some (?f cc)"
      using up upd entry_allowed assms(3) by (simp add: transition_to_screening_def Let_def find_candidate_def create_transition_log_def
          create_stage_history_def add_stage_history_def)
    then show ?thesis by (simp add: move_stage_def)
  qed
  show "hd_rules (snd (transition_to_screening now cc h)) = hd_rules h"
    by (simp add: transition_to_screening_def Let_def create_transition_log_def create_stage_history_def add_stage_history_def
        update_candidate_def)
qed

lemma run_scoring_frame:
  assumes "run_scoring sv now c ca job m = Inr (oc, h')" "find_candidate (cc_id c) (cw_db m) = Some c0"
  shows "\<exists>d. find_candidate (cc_id c) h' = Some d \<and> cc_det_passed d = Some (oc_passed oc) \<and> cc_det_score d = Some (oc_score oc)
      \<and> cc_stage d = cc_stage c0 \<and> cc_previous d = cc_previous c0" "hd_rules h' = hd_rules (cw_db m)"
proof -
  let ?f = "\<lambda>c. c\<lparr>cc_det_breakdown := Some (JObj (sv_encode sv oc)), cc_det_score := Some (oc_score oc), cc_det_passed := Some (oc_passed oc)\<rparr>"
  have h': "h' = update_candidate (cc_id c) ?f (cw_db m)"
    using assms by (auto simp: run_scoring_def store_score_breakdown_def Let_def res_bind_Inr_iff)
  have "find_candidate (cc_id c) h' = Some (?f c0)"
    unfolding h' by (rule find_candidate_update_same[OF _ assms(2)]) simp
  then show "\<exists>d. find_candidate (cc_id c) h' = Some d \<and> cc_det_passed d = Some (oc_passed oc) \<and> cc_det_score d = Some (oc_score oc)
      \<and> cc_stage d = cc_stage c0 \<and> cc_previous d = cc_previous c0" by simp
  show "hd_rules h' = hd_rules (cw_db m)" by (simp add: h' update_candidate_def)
qed

lemma ai_status_set:
  "\<exists>a\<in>set (hd_ai (update_ai i (\<lambda>a. a\<lparr>ae_status := s\<rparr>) (snd (get_or_create_ai i h)))). ae_candidate a = i \<and> ae_status a = s"
proof -
  have "\<exists>a\<in>set (hd_ai (snd (get_or_create_ai i h))). ae_candidate a = i"
  proof (cases "find (\<lambda>a. ae_candidate a = i) (hd_ai h)")
    case (Some a)
    then show ?thesis using find_Some_set[OF Some] by (auto simp: get_or_create_ai_def)
  qed (simp add: get_or_create_ai_def blank_ai_def)
  then obtain a where a: "a \<in> set (hd_ai (snd (get_or_create_ai i h)))" "ae_candidate a = i" by blast
  then have "a\<lparr>ae_status := s\<rparr> \<in> set (hd_ai (update_ai i (\<lambda>a. a\<lparr>ae_status := s\<rparr>) (snd (get_or_create_ai i h))))"
    unfolding update_ai_def by (simp add: image_iff) (use a(2) in blast)
  then show ?thesis using a(2) by (intro bexI[of _ "a\<lparr>ae_status := s\<rparr>"]) simp_all
qed

lemma deterministic_body_frame:
  assumes run: "deterministic_body sv now cc ca m = Inr (passed, moved, h')"
    and cc: "find_candidate (cc_id cc) (cw_db m) = Some cc" "in_screening cc" "hd_rules (cw_db m) = seeded_rows"
  shows "\<exists>d. find_candidate (cc_id cc) h' = Some d \<and> cc_det_passed d = Some passed
     \<and> (if passed then cc_stage d = SCREENING else cc_stage d = REJECTED \<and> cc_decision_source d = Some DS_DETERMINISTIC)"
    "\<not> passed \<Longrightarrow> \<exists>a\<in>set (hd_ai h'). ae_candidate a = cc_id cc \<and> ae_status a = AI_SKIPPED"
proof -
  let ?i = "cc_id cc"
  let ?h1 = "snd (transition_to_screening now cc (cw_db m))"
  obtain c1 where c1: "find_candidate ?i ?h1 = Some c1" "cc_stage c1 = SCREENING" "cc_id c1 = ?i"
    using enter_screening(1)[OF cc] by blast
  have rules1: "hd_rules ?h1 = seeded_rows" using enter_screening(2)[OF cc] cc(3) by simp
  obtain jd job oc h2 where job: "jd_by_id (ca_jd ca) m = Some jd" "sv_job sv (ca_jd ca) = Some job"
    and score: "run_scoring sv now c1 ca job (m\<lparr>cw_db := ?h1\<rparr>) = Inr (oc, h2)"
    using run c1 by (auto simp: deterministic_body_def Let_def split: if_splits option.splits sum.splits)
  note sc = run_scoring_frame[OF score, unfolded c1(3), simplified, OF c1(1)]
  let ?f = "\<lambda>c. c\<lparr>cc_screened_at := Some now, cc_updated_at := Some now\<rparr>"
  let ?h3 = "update_candidate ?i ?f h2"
  obtain c2 where c2: "find_candidate ?i h2 = Some c2" "cc_det_passed c2 = Some (oc_passed oc)" "cc_stage c2 = SCREENING"
    using sc(1) c1(2) by auto
  have c3: "find_candidate ?i ?h3 = Some (?f c2)" by (rule find_candidate_update_same[OF _ c2(1)]) simp
  have id3: "cc_id (?f c2) = ?i" using find_candidate_Some[OF c3] by blast
  define reason where "reason = sv_reason sv (rejection_clauses (oc_breakdown oc) (Some (oc_qualification oc)) (oc_experience oc) (oc_education oc))"
  obtain ok h4 where rej: "reject_at now (?f c2) ''Deterministic filter rejection'' DS_DETERMINISTIC reason (sv_encode sv oc) ?h3 = (ok, h4)"
    by (metis surj_pair)
  have out: "passed = oc_passed oc \<and> (\<exists>d. h' = audit None (Some SYSTEM) ''DETERMINISTIC_SCORE_COMPUTED'' ?i d (if passed then ?h3 else h4))"
    using run c1 score c3 rej job unfolding reason_def by (auto simp: deterministic_body_def Let_def split: if_splits)
  have okv: "ok"
  proof -
    have "hd_rules ?h3 = seeded_rows" using sc(2) rules1 by (simp add: update_candidate_def)
    then show ?thesis using rej screening_exit c2(3)
      by (auto simp: reject_at_def transition_to_rejected_def Let_def split: prod.splits)
  qed
  show "\<exists>d. find_candidate ?i h' = Some d \<and> cc_det_passed d = Some passed
     \<and> (if passed then cc_stage d = SCREENING else cc_stage d = REJECTED \<and> cc_decision_source d = Some DS_DETERMINISTIC)"
  proof (cases passed)
    case True
    then show ?thesis using out c3 c2 by auto
  next
    case False
    from rejected_frame[OF rej] id3 c3 okv obtain d where "find_candidate ?i h4 = Some d" "cc_det_passed d = cc_det_passed c2"
      "cc_stage d = REJECTED" "cc_decision_source d = Some DS_DETERMINISTIC" by auto
    then show ?thesis using out c2(2) False by auto
  qed
  show "\<exists>a\<in>set (hd_ai h'). ae_candidate a = ?i \<and> ae_status a = AI_SKIPPED" if "\<not> passed"
  proof -
    obtain g where g: "h4 = cancel_downstream ?i g" using rej id3 by (auto simp: reject_at_def split: prod.splits)
    have "\<exists>a\<in>set (hd_ai h4). ae_candidate a = ?i \<and> ae_status a = AI_SKIPPED"
      unfolding g cancel_downstream_def Let_def by (rule ai_status_set)
    then show ?thesis using out that by (auto simp: audit_def)
  qed
qed

lemma after_rejection_semantic: "semantic_messages j (after_rejection sv i w) = semantic_messages j w"
proof -
  have "filter (to_candidate ''scoring.calculate_semantic_score'' j) (cw_broker (enqueue_composite ev tr i m))
      = filter (to_candidate ''scoring.calculate_semantic_score'' j) (cw_broker m)" for ev tr m
    by (simp add: enqueue_composite_def Let_def apply_async_broker to_candidate_def)
  then show ?thesis by (simp add: semantic_messages_def broker_def after_rejection_def on_main_def queue_rejection_mail_def)
qed

text \<open>
  Property C22.  A deterministic run that ends, for an open campaign and a candidate who is
  new or in screening, under the seeded transition table, leaves one of two states: passed
  and in screening, or not passed, rejected by the deterministic layer, with the AI
  evaluation marked as skipped and no semantic task sent.
\<close>

theorem deterministic_run_outcome:
  assumes cc: "find_candidate i (sw_db w) = Some cc" and ca: "find_campaign (cc_campaign cc) (sw_db w) = Some ca"
    and gate: "screening_open ca" "\<not> already_done tid (sw_db w)" "in_screening cc" "hd_rules (sw_db w) = seeded_rows"
    and run: "deterministic_task sv now tid i w = (RE_DONE, w')"
  shows "\<exists>d. find_candidate i (sw_db w') = Some d \<and>
     ((cc_det_passed d = Some True \<and> cc_stage d = SCREENING)
      \<or> (cc_det_passed d = Some False \<and> cc_stage d = REJECTED \<and> cc_decision_source d = Some DS_DETERMINISTIC
         \<and> (\<exists>a\<in>set (hd_ai (sw_db w')). ae_candidate a = i \<and> ae_status a = AI_SKIPPED)
         \<and> semantic_messages i w' = semantic_messages i w))"
proof -
  let ?w1 = "start_task tid ''DETERMINISTIC_SCORE'' i w"
  have id: "cc_id cc = i" using find_candidate_Some[OF cc] by blast
  have live: "ca_status ca \<in> set scoreable" using gate(1) by (simp add: screening_open_def scoreable_def)
  have s1: "same_records (sw_db w) (sw_db ?w1)" by (simp add: screening_frames)
  obtain passed moved h where body: "deterministic_body sv now cc ca (sw_main ?w1) = Inr (passed, moved, h)"
    using run cc ca gate(2) live by (auto simp: deterministic_task_def Let_def split: sum.splits)
  have pre: "find_candidate (cc_id cc) (cw_db (sw_main ?w1)) = Some cc" "hd_rules (cw_db (sw_main ?w1)) = seeded_rows"
    using cc id gate(4) s1 by (simp_all add: sw_db_def[symmetric] same_records_def)
  note fr = deterministic_body_frame[OF body pre(1) gate(3) pre(2), unfolded id]
  let ?w2 = "succeed tid (with_db h ?w1)"
  let ?w3 = "if \<not> passed \<and> moved then after_rejection sv i ?w2 else ?w2"
  have w': "w' = (if passed then snd (enqueue_semantic sv i (cc_resume cc) ?w3) else ?w3)"
    using run cc ca gate(2) live body by (simp add: deterministic_task_def Let_def)
  have "same_records (sw_db ?w3) (sw_db (snd (enqueue_semantic sv i (cc_resume cc) ?w3)))"
    using enqueue_semantic_frame(1)[of sv i "cc_resume cc" ?w3] by (metis prod.collapse)
  then have last: "same_records h (sw_db w')" unfolding w'
    by (simp add: same_records_iff[OF after_rejection_records] screening_frames same_records_iff split: if_splits)
  have final: "find_candidate i (sw_db w') = find_candidate i h" "hd_ai (sw_db w') = hd_ai h"
    using last same_records_find[OF last] by (simp, simp add: same_records_def)
  have "semantic_messages i w' = semantic_messages i w" if "\<not> passed"
    using that by (simp add: w' after_rejection_semantic, simp add: semantic_messages_def screening_frames)
  then show ?thesis using fr final by (cases passed) auto
qed

text \<open>
  A deterministic run that raises leaves every record as it was: only its
  task log says FAILURE.  Nothing is added to the dead letters, so the failure appears in
  none of the places that list or replay dead letters.
\<close>

theorem deterministic_failure_unlisted:
  assumes "deterministic_task sv now tid i w = (RE_RAISED e, w')"
  shows "same_records (sw_db w) (sw_db w') \<and> broker w' = broker w \<and> sw_dlq w' = sw_dlq w
     \<and> (\<forall>t\<in>set (hd_tasks (sw_db w')). tk_id t = tid \<longrightarrow> tk_status t = TK_FAILURE)"
proof -
  have "w' = set_tasks (set_status tid TK_FAILURE) (start_task tid ''DETERMINISTIC_SCORE'' i w)"
    using assms by (auto simp: deterministic_task_def Let_def split: if_splits option.splits sum.splits prod.splits)
  then show ?thesis using set_status_member by (auto simp: screening_frames)
qed

section \<open>The override\<close>

text \<open>
  Overriding the rejection of a candidate whom the semantic layer rejected
  sends only the AI task, and every run of that task is skipped, because the stored
  semantic breakdown still says that he did not pass: he stays in screening with a pending
  evaluation.
\<close>

theorem semantic_override_dead_end:
  assumes cc: "find_candidate i (sw_db w) = Some cc" "cc_sem_score cc \<noteq> None" "\<not> semantic_gate cc"
    and over: "hr_override sv now i reason act role w = Inr w1"
    and ca: "find_campaign (cc_campaign cc) (sw_db w) = Some ca"
  shows "\<exists>c. find_candidate i (sw_db w1) = Some c \<and> cc_stage c = SCREENING \<and> cc_det_passed c = Some True
     \<and> semantic_messages i w1 = semantic_messages i w
     \<and> find_candidate i (sw_db (snd (ai_task sv later fault tid i retries w1))) = Some c
     \<and> hd_ai (sw_db (snd (ai_task sv later fault tid i retries w1))) = hd_ai (sw_db w1)
     \<and> (\<exists>a\<in>set (hd_ai (sw_db w1)). ae_candidate a = i \<and> ae_status a = AI_PENDING)"
proof -
  have id: "cc_id cc = i" using find_candidate_Some[OF cc(1)] by blast
  let ?h1 = "update_candidate i (\<lambda>c. c\<lparr>cc_det_passed := Some True\<rparr>) (sw_db w)"
  let ?h2 = "update_ai i (\<lambda>a. a\<lparr>ae_status := AI_PENDING\<rparr>) (snd (get_or_create_ai i ?h1))"
  obtain ok h3 where o: "apply_hr_override now cc act override_change_reason (Some reason) ?h2 = (ok, h3)" by (metis surj_pair)
  have ok: "ok" and w1: "\<exists>d. w1 = enqueue_ai sv i (with_db (audit (Some act) role ''DETERMINISTIC_OVERRIDE_APPLIED'' i d h3) w)"
    using over cc o id by (auto simp: hr_override_def Let_def post_override_evaluation_def split: if_splits)
  have c2: "find_candidate i ?h2 = Some (cc\<lparr>cc_det_passed := Some True\<rparr>)"
  proof -
    have "find_candidate i ?h1 = Some (cc\<lparr>cc_det_passed := Some True\<rparr>)" by (rule find_candidate_update_same[OF _ cc(1)]) simp
    then show ?thesis by (auto simp: find_candidate_def update_ai_def get_or_create_ai_def split: option.split)
  qed
  let ?f = "\<lambda>c. decide DT_RESET (Some DS_RECRUITER) (Some reason) (Some (overridden_details cc)) (Some act) now
      (move_stage (cc_stage cc) SCREENING c)"
  have h3: "hd_candidates h3 = hd_candidates (update_candidate i ?f ?h2)" "hd_ai h3 = hd_ai ?h2" "hd_campaigns h3 = hd_campaigns (sw_db w)"
    using o ok id by (auto simp: apply_hr_override_def Let_def create_stage_history_def add_stage_history_def create_transition_log_def
        update_candidate_def update_ai_def get_or_create_ai_def split: if_splits option.splits)
  have c3: "find_candidate i h3 = Some (?f (cc\<lparr>cc_det_passed := Some True\<rparr>))"
    using find_candidate_update_same[OF _ c2, of ?f] h3(1) by (simp add: find_candidate_def decide_def move_stage_def)
  obtain d where d: "w1 = enqueue_ai sv i (with_db (audit (Some act) role ''DETERMINISTIC_OVERRIDE_APPLIED'' i d h3) w)" using w1 by blast
  have rec: "same_records (audit (Some act) role ''DETERMINISTIC_OVERRIDE_APPLIED'' i d h3) (sw_db w1)"
    unfolding d by (simp add: same_records_iff[OF enqueue_ai_frame(1)])
  let ?c = "?f (cc\<lparr>cc_det_passed := Some True\<rparr>)"
  have c: "find_candidate i (sw_db w1) = Some ?c" using same_records_find[OF rec] c3 by simp
  have camp: "find_campaign (cc_campaign ?c) (sw_db w1) = Some ca"
    using rec h3(3) ca by (simp add: same_records_def find_campaign_def audit_def decide_def move_stage_def)
  have gate: "\<not> semantic_gate ?c" using cc(3) by (simp add: semantic_gate_def decide_def move_stage_def)
  have skip: "find_candidate i (sw_db (snd (ai_task sv later fault tid i retries w1))) = Some ?c
      \<and> hd_ai (sw_db (snd (ai_task sv later fault tid i retries w1))) = hd_ai (sw_db w1)"
  proof (cases "already_done tid (sw_db w1)")
    case True
    then show ?thesis using c by (simp add: already_done_same)
  next
    case False
    then show ?thesis using ai_task_closed[OF c camp _ False, of sv later fault retries] gate c by simp
  qed
  have pend: "\<exists>a\<in>set (hd_ai (sw_db w1)). ae_candidate a = i \<and> ae_status a = AI_PENDING"
  proof -
    have "\<exists>a\<in>set (hd_ai ?h2). ae_candidate a = i \<and> ae_status a = AI_PENDING" by (rule ai_status_set)
    then show ?thesis using rec h3(2) by (simp add: same_records_def audit_def)
  qed
  have quiet: "semantic_messages i (enqueue_ai sv i x) = semantic_messages i x" for x
  proof -
    obtain t x1 where n: "new_row sv (\<lambda>tid. queued_log tid ''AI_EVALUATE'' (Some i)) x = (t, x1)" by (metis surj_pair)
    show ?thesis using semantic_messages_cong[OF new_row_frame(4)[OF n], of i]
      by (simp add: enqueue_ai_def n semantic_messages_dispatch)
  qed
  have "semantic_messages i w1 = semantic_messages i w" unfolding d quiet by (simp add: semantic_messages_def)
  then show ?thesis using c skip pend by (intro exI[of _ ?c]) (simp add: decide_def move_stage_def)
qed

end
