(* ===== verification/Screening_Examples.thy ===== *)
theory Screening_Examples
  imports Screening_Outcomes
begin

text \<open>
  Concrete runs of the screening tasks, at which the properties of the screening tasks apply.
\<close>

section \<open>States\<close>

definition plain_resume :: parsed_resume where
  "plain_resume = blank_resume\<lparr>pa_years := Some 1, pa_skills := [''Java'']\<rparr>"

definition plain_job :: "rat option \<Rightarrow> job_content" where
  "plain_job years = \<lparr>jb_min_years = years, jb_extracted_min = None, jb_degree = None, jb_extracted_education = None, jb_required = [],
     jb_preferred = [], jb_json = [(''required_skills'', JObj [(''core'', JArr [JStr ''Java''])])]\<rparr>"

definition sample_response :: "string \<Rightarrow> ai_response" where
  "sample_response k = \<lparr>ar_technical = 40, ar_experience = 30, ar_education = 50, ar_domain = 20, ar_overall = 35, ar_confidence = 80,
     ar_recommendation = k, ar_strengths = [], ar_gaps = [''experience'']\<rparr>"

text \<open>One model for all tests: the similarity of resume 1 and job 1, and what the model answers.\<close>

definition screening_sample :: "rat option \<Rightarrow> rat \<Rightarrow> string \<Rightarrow> screening_env" where
  "screening_sample years sim answer =
     \<lparr>sv_broker = \<lparr>ev_send = (\<lambda>task args. True), ev_fresh = (\<lambda>n. CHR ''u'' # replicate n CHR ''x'')\<rparr>,
      sv_skills = \<lparr>sd_ontology = [], sd_jd = [], sd_candidates = [], sd_config = [], sd_distance = (\<lambda>a b. 1)\<rparr>,
      sv_months = (\<lambda>a b. 0), sv_date = (\<lambda>s. None), sv_ratio = (\<lambda>a b. 0), sv_encode = (\<lambda>oc. []), sv_reason = (\<lambda>cs. ''below''),
      sv_explain = (\<lambda>a b p. ''similarity''), sv_show = (\<lambda>n. replicate n CHR ''i''), sv_hash = (\<lambda>s. s),
      sv_resume = (\<lambda>r. Some plain_resume), sv_job = (\<lambda>j. Some (plain_job years)), sv_similarity = (\<lambda>r j. sim),
      sv_llm = (\<lambda>p r j. Inr (sample_response answer)), sv_template = True\<rparr>"

definition screening_campaign :: "campaign_status \<Rightarrow> campaign_row" where
  "screening_campaign s = (open_campaign None)\<lparr>ca_ai_prompt := Some 2, ca_status := s\<rparr>"

definition screening_start ::
    "campaign_status \<Rightarrow> campaign_candidate list \<Rightarrow> task_log list \<Rightarrow> interview_db \<Rightarrow> (nat \<times> nat) list \<Rightarrow> screening_world" where
  "screening_start s cs ts ivs jes =
     (let m = sample_world ts [\<lparr>re_id = 1, re_status = PS_PARSED\<rparr>]
      in \<lparr>sw_main = m\<lparr>cw_db := (cw_db m)\<lparr>hd_candidates := cs, hd_campaigns := [screening_campaign s], hd_interviews := ivs\<rparr>\<rparr>,
          sw_dlq = [], sw_embeddings = [(1, 7), (2, 7)], sw_jd_embeddings = jes, sw_mails = []\<rparr>)"

definition passed_candidate :: "nat \<Rightarrow> campaign_candidate" where
  "passed_candidate i = (blank_candidate i 9 SCREENING (Some UPLOADED))\<lparr>cc_det_passed := Some True\<rparr>"

definition semantic_row :: task_log where
  "semantic_row = (queued_log ''t'' ''SEMANTIC_SCORE'' (Some 1))\<lparr>tk_key := Some ''iSEM''\<rparr>"

definition semantic_start :: "campaign_status \<Rightarrow> (nat \<times> nat) list \<Rightarrow> screening_world" where
  "semantic_start s jes = screening_start s [passed_candidate 1, passed_candidate 2] [semantic_row] empty_interviews jes"

lemma sample_fresh: "''t'' \<notin> range (ev_fresh (sv_broker (screening_sample y s a)))"
  by (auto simp: screening_sample_def)

section \<open>The gates and the semantic layer\<close>

definition rejected_candidate :: campaign_candidate where
  "rejected_candidate = (passed_candidate 1)\<lparr>cc_stage := REJECTED, cc_sem_breakdown := Some (JObj [(''semantic_passed'', JBool True)])\<rparr>"

lemma screening_gates_witness:
  "find_candidate 1 (sw_db (snd (ai_task (screening_sample None 1 ''SHORTLIST'') 5 None ''t'' 1 0
      (screening_start CS_ACTIVE [rejected_candidate] [] empty_interviews [(1, 7)])))) = Some rejected_candidate"
proof -
  let ?w = "screening_start CS_ACTIVE [rejected_candidate] [] empty_interviews [(1, 7)]"
  have cc: "find_candidate 1 (sw_db ?w) = Some rejected_candidate"
    by (simp add: screening_start_def Let_def sw_db_def find_candidate_def rejected_candidate_def passed_candidate_def blank_candidate_def)
  have ca: "find_campaign (cc_campaign rejected_candidate) (sw_db ?w) = Some (screening_campaign CS_ACTIVE)"
    by (simp add: screening_start_def Let_def sw_db_def find_campaign_def rejected_candidate_def passed_candidate_def blank_candidate_def
        screening_campaign_def open_campaign_def)
  have "cc_stage rejected_candidate = REJECTED" by (simp add: rejected_candidate_def)
  then show ?thesis
    using screening_gates[OF cc ca, of "screening_sample None 1 ''SHORTLIST''" 5 None "''t''" 0] unfolding Let_def by blast
qed

text \<open>A similarity just under the threshold is stored as the threshold, and does not pass.\<close>

lemma semantic_score_stored_witness:
  "(let w' = snd (semantic_task (screening_sample None (64996 / 100000) ''HOLD'') 5 None ''t'' 1 0 (semantic_start CS_ACTIVE [(1, 7)]))
    in (\<exists>d. find_candidate 1 (sw_db w') = Some d \<and> cc_sem_score d = Some (65 / 100) \<and> cc_sem_passed d = Some False)
       \<and> ca_sem_threshold (screening_campaign CS_ACTIVE) = 65 / 100)"
proof -
  let ?w = "semantic_start CS_ACTIVE [(1, 7)]" and ?sv = "screening_sample None (64996 / 100000) ''HOLD''"
  have cc: "find_candidate 1 (sw_db ?w) = Some (passed_candidate 1)"
    by (simp add: semantic_start_def screening_start_def Let_def sw_db_def find_candidate_def passed_candidate_def blank_candidate_def)
  have ca: "find_campaign (cc_campaign (passed_candidate 1)) (sw_db ?w) = Some (screening_campaign CS_ACTIVE)"
    by (simp add: semantic_start_def screening_start_def Let_def sw_db_def find_campaign_def passed_candidate_def blank_candidate_def
        screening_campaign_def open_campaign_def)
  have gate: "screening_open (screening_campaign CS_ACTIVE)" "cc_det_passed (passed_candidate 1) = Some True" "\<not> already_done ''t'' (sw_db ?w)"
    by (simp_all add: screening_open_def screening_campaign_def passed_candidate_def already_done_def semantic_start_def
        screening_start_def sample_world_def Let_def sw_db_def semantic_row_def)
  have emb: "embedding_of (cc_resume (passed_candidate 1)) (sw_embeddings ?w) = Some (1, 7)"
    "embedding_of (ca_jd (screening_campaign CS_ACTIVE)) (sw_jd_embeddings ?w) = Some (1, 7)"
    by (simp_all add: embedding_of_def passed_candidate_def blank_candidate_def semantic_start_def screening_start_def Let_def
        screening_campaign_def open_campaign_def)
  have s: "max 0 (sv_similarity ?sv (cc_resume (passed_candidate 1)) (ca_jd (screening_campaign CS_ACTIVE))) = 64996 / 100000"
    by (simp add: screening_sample_def)
  have t: "ca_sem_threshold (screening_campaign CS_ACTIVE) = 65 / 100" by (simp add: screening_campaign_def open_campaign_def)
  have r: "to_places half_up 4 (64996 / 100000) = (65 / 100 :: rat)" by code_simp
  show ?thesis using semantic_score_stored[OF cc ca gate emb, of ?sv 5 0] unfolding Let_def s t r by auto
qed

section \<open>Left behind\<close>

text \<open>The job is embedded a moment after the third retry.\<close>

lemma unscored_candidate_stays_witness:
  "\<exists>w'. semantic_task (screening_sample None 1 ''HOLD'') 5 None ''t'' 1 3 (semantic_start CS_ACTIVE []) = (RE_DONE, w')
     \<and> (let later = fold (rescue_step (screening_sample None 1 ''HOLD'')) [RS_Job_Embedded 1 7, RS_Scan] w'
        in map cc_id (pending_semantic w') = [1, 2] \<and> semantic_messages 1 later = []
           \<and> map cc_sem_score (pending_semantic later) = [None, None])"
proof -
  let ?sv = "screening_sample None 1 ''HOLD''" and ?w = "semantic_start CS_ACTIVE []"
  let ?steps = "[RS_Job_Embedded 1 7, RS_Scan]"
  have fin: "fst (semantic_task ?sv 5 None ''t'' 1 3 ?w) = RE_DONE" by code_simp
  then obtain w' where run: "semantic_task ?sv 5 None ''t'' 1 3 ?w = (RE_DONE, w')" by (metis prod.collapse)
  then have w': "w' = snd (semantic_task ?sv 5 None ''t'' 1 3 ?w)" by simp
  have row: "log_by_key (semantic_key ?sv 1) (sw_db ?w) = Some semantic_row" "tk_id semantic_row = ''t''" "distinct (map tk_id (hd_tasks (sw_db ?w)))"
    by (simp_all add: log_by_key_def semantic_key_def screening_sample_def semantic_start_def screening_start_def sample_world_def Let_def
        sw_db_def semantic_row_def)
  have cand: "map_option cc_sem_score (find_candidate 1 (sw_db (snd (semantic_task ?sv 5 None ''t'' 1 3 ?w)))) = Some None" by code_simp
  then obtain c where c: "find_candidate 1 (sw_db w') = Some c" "cc_sem_score c = None" by (auto simp: w')
  note stay = unscored_candidate_stays[OF run row(1,2) sample_fresh row(3) c, of ?steps]
  have msgs: "semantic_messages 1 (snd (semantic_task ?sv 5 None ''t'' 1 3 ?w)) = []" by code_simp
  have pend: "map cc_id (pending_semantic (snd (semantic_task ?sv 5 None ''t'' 1 3 ?w))) = [1, 2]" by code_simp
  have later: "map cc_sem_score (pending_semantic (fold (rescue_step ?sv) ?steps (snd (semantic_task ?sv 5 None ''t'' 1 3 ?w)))) = [None, None]"
    by code_simp
  show ?thesis using run stay msgs pend later by (auto simp: w' Let_def)
qed

lemma dead_task_blocks_recovery_witness:
  "\<exists>w'. semantic_task (screening_sample None 1 ''HOLD'') 5 (Some (TF_Work lost_connection)) ''t'' 1 2 (semantic_start CS_ACTIVE [(1, 7)]) = (RE_DEAD, w')
     \<and> (\<exists>e. fst (recover_pending (screening_sample None 1 ''HOLD'') w') = RE_RAISED e)
     \<and> semantic_messages 2 (snd (recover_pending (screening_sample None 1 ''HOLD'') w')) = []"
proof -
  let ?sv = "screening_sample None 1 ''HOLD''" and ?w = "semantic_start CS_ACTIVE [(1, 7)]"
  let ?run = "semantic_task ?sv 5 (Some (TF_Work lost_connection)) ''t'' 1 2 ?w"
  have "fst ?run = RE_DEAD" by code_simp
  then obtain w' where run: "?run = (RE_DEAD, w')" by (metis prod.collapse)
  then have w': "w' = snd ?run" by simp
  have row: "log_by_key (semantic_key ?sv 1) (sw_db ?w) = Some semantic_row" "tk_id semantic_row = ''t''"
    by (simp_all add: log_by_key_def semantic_key_def screening_sample_def semantic_start_def screening_start_def sample_world_def Let_def
        sw_db_def semantic_row_def)
  have "map cc_id (pending_semantic (snd ?run)) = [1, 2]" by code_simp
  then obtain c d where pend: "pending_semantic w' = [] @ c # [d]" "cc_id c = 1" "cc_id d = 2" by (auto simp: w')
  have "map dq_task (sw_dlq (snd ?run)) = [''t'']" by code_simp
  then have ids: "\<forall>x\<in>set (sw_dlq w'). dq_task x \<notin> range (ev_fresh (sv_broker ?sv))"
    using sample_fresh[of None 1 "''HOLD''"] by (auto simp: w' simp del: range_eqI)
  have msgs: "semantic_messages 2 (snd ?run) = []" by code_simp
  show ?thesis using dead_task_blocks_recovery[OF run _ row pend(1,2) ids] run msgs pend by (auto simp: w')
qed

section \<open>The AI layer, the deterministic layer and the override\<close>

text \<open>A candidate who was invited to an interview while the evaluation was waiting.\<close>

definition invited_candidate :: campaign_candidate where
  "invited_candidate = (passed_candidate 1)\<lparr>cc_stage := INTERVIEW, cc_previous := Some SHORTLISTED,
     cc_sem_breakdown := Some (JObj [(''semantic_passed'', JBool True)])\<rparr>"

definition invited_round :: interview_db where
  "invited_round = (case enter_interview 0 1 empty_interviews of Inr d \<Rightarrow> d | Inl e \<Rightarrow> empty_interviews)"

lemma ai_recommendation_applied_witness:
  "let w' = snd (ai_task (screening_sample None 1 ''REJECT'') 5 None ''t'' 1 0
      (screening_start CS_ACTIVE [invited_candidate] [] invited_round [(1, 7)]))
   in (\<exists>d. find_candidate 1 (sw_db w') = Some d \<and> cc_stage d = REJECTED) \<and> live_round 1 (hd_interviews (sw_db w'))"
proof -
  let ?w = "screening_start CS_ACTIVE [invited_candidate] [] invited_round [(1, 7)]" and ?sv = "screening_sample None 1 ''REJECT''"
  have cc: "find_candidate 1 (sw_db ?w) = Some invited_candidate"
    by (simp add: screening_start_def Let_def sw_db_def find_candidate_def invited_candidate_def passed_candidate_def blank_candidate_def)
  have ca: "find_campaign (cc_campaign invited_candidate) (sw_db ?w) = Some (screening_campaign CS_ACTIVE)"
    by (simp add: screening_start_def Let_def sw_db_def find_campaign_def invited_candidate_def passed_candidate_def blank_candidate_def
        screening_campaign_def open_campaign_def)
  have gate: "screening_open (screening_campaign CS_ACTIVE)" "cc_stage invited_candidate \<noteq> REJECTED" "semantic_gate invited_candidate"
    "\<not> already_done ''t'' (sw_db ?w)"
    by (simp_all add: screening_open_def screening_campaign_def invited_candidate_def semantic_gate_def json_get_def already_done_def
        screening_start_def sample_world_def Let_def sw_db_def)
  have body: "ai_body ?sv invited_candidate (screening_campaign CS_ACTIVE) (sw_main ?w) = Inr (sample_response ''REJECT'', AI_REJECT)"
    by code_simp
  have rules: "hd_rules (sw_db ?w) = seeded_rows"
    by (simp add: screening_start_def Let_def sw_db_def sample_world_def uploaded_db_def example_db_def)
  have moves: "is_transition_allowed seeded_rows (cc_stage invited_candidate) REJECTED (cc_previous invited_candidate)"
    by (simp add: invited_candidate_def) code_simp
  have live: "live_round 1 (hd_interviews (sw_db ?w))"
  proof -
    have "live_round 1 invited_round" by code_simp
    then show ?thesis by (simp add: screening_start_def Let_def sw_db_def)
  qed
  show ?thesis using ai_recommendation_applied[OF cc ca gate body, of 5 0] rules moves live unfolding Let_def by auto
qed

definition new_candidate :: campaign_candidate where
  "new_candidate = blank_candidate 1 9 UPLOADED None"

definition new_start :: "parse_status \<Rightarrow> screening_world" where
  "new_start p = (let w = screening_start CS_ACTIVE [new_candidate] [] empty_interviews [(1, 7)]
     in with_db ((sw_db w)\<lparr>hd_resumes := [\<lparr>re_id = 1, re_status = p\<rparr>]\<rparr>) w)"

lemma deterministic_run_outcome_witness:
  "\<exists>w' d. deterministic_task (screening_sample (Some 5) 1 ''HOLD'') 5 ''t'' 1 (new_start PS_PARSED) = (RE_DONE, w')
     \<and> find_candidate 1 (sw_db w') = Some d \<and> cc_det_passed d = Some False \<and> cc_stage d = REJECTED"
proof -
  let ?w = "new_start PS_PARSED" and ?sv = "screening_sample (Some 5) 1 ''HOLD''"
  let ?run = "deterministic_task ?sv 5 ''t'' 1 ?w"
  have cc: "find_candidate 1 (sw_db ?w) = Some new_candidate"
    by (simp add: new_start_def screening_start_def Let_def sw_db_def with_db_def find_candidate_def new_candidate_def blank_candidate_def)
  have ca: "find_campaign (cc_campaign new_candidate) (sw_db ?w) = Some (screening_campaign CS_ACTIVE)"
    by (simp add: new_start_def screening_start_def Let_def sw_db_def with_db_def find_campaign_def new_candidate_def blank_candidate_def
        screening_campaign_def open_campaign_def)
  have gate: "screening_open (screening_campaign CS_ACTIVE)" "\<not> already_done ''t'' (sw_db ?w)" "in_screening new_candidate"
    "hd_rules (sw_db ?w) = seeded_rows"
    by (simp_all add: screening_open_def screening_campaign_def already_done_def in_screening_def new_candidate_def blank_candidate_def
        new_start_def screening_start_def sample_world_def Let_def sw_db_def with_db_def uploaded_db_def example_db_def)
  have "fst ?run = RE_DONE" by code_simp
  then obtain w' where run: "?run = (RE_DONE, w')" by (metis prod.collapse)
  have "map_option cc_det_passed (find_candidate 1 (sw_db (snd ?run))) = Some (Some False)" by code_simp
  then have "map_option cc_det_passed (find_candidate 1 (sw_db w')) = Some (Some False)" using run by simp
  with deterministic_run_outcome[OF cc ca gate run] run show ?thesis by auto
qed

lemma deterministic_failure_unlisted_witness:
  "\<exists>w'. deterministic_task (screening_sample None 1 ''HOLD'') 5 ''t'' 1 (new_start PS_PENDING)
     = (RE_RAISED (raise_value ''Resume has not completed parsing''), w') \<and> sw_dlq w' = []"
proof -
  let ?run = "deterministic_task (screening_sample None 1 ''HOLD'') 5 ''t'' 1 (new_start PS_PENDING)"
  have "fst ?run = RE_RAISED (raise_value ''Resume has not completed parsing'')" by code_simp
  then obtain w' where run: "?run = (RE_RAISED (raise_value ''Resume has not completed parsing''), w')" by (metis prod.collapse)
  have "sw_dlq (new_start PS_PENDING) = []" by (simp add: new_start_def screening_start_def Let_def)
  with deterministic_failure_unlisted[OF run] run show ?thesis by auto
qed

definition weak_candidate :: campaign_candidate where
  "weak_candidate = (passed_candidate 1)\<lparr>cc_stage := REJECTED, cc_previous := Some SCREENING, cc_sem_score := Some (1 / 10),
     cc_sem_passed := Some False, cc_sem_breakdown := Some (JObj [(''semantic_passed'', JBool False)]),
     cc_decision_type := Some DT_REJECTED, cc_decision_source := Some DS_SEMANTIC\<rparr>"

lemma semantic_override_dead_end_witness:
  "\<exists>w1. hr_override (screening_sample None 1 ''HOLD'') 5 1 ''strong portfolio'' ''admin'' (Some HR_ADMIN)
      (screening_start CS_ACTIVE [weak_candidate] [] empty_interviews [(1, 7)]) = Inr w1
     \<and> map ms_task (broker w1) = [''scoring.calculate_ai_evaluation'']
     \<and> (\<exists>c. find_candidate 1 (sw_db (snd (ai_task (screening_sample None 1 ''HOLD'') 6 None ''u'' 1 0 w1))) = Some c \<and> cc_stage c = SCREENING)"
proof -
  let ?w = "screening_start CS_ACTIVE [weak_candidate] [] empty_interviews [(1, 7)]" and ?sv = "screening_sample None 1 ''HOLD''"
  let ?run = "hr_override ?sv 5 1 ''strong portfolio'' ''admin'' (Some HR_ADMIN) ?w"
  have cc: "find_candidate 1 (sw_db ?w) = Some weak_candidate"
    by (simp add: screening_start_def Let_def sw_db_def find_candidate_def weak_candidate_def passed_candidate_def blank_candidate_def)
  have ca: "find_campaign (cc_campaign weak_candidate) (sw_db ?w) = Some (screening_campaign CS_ACTIVE)"
    by (simp add: screening_start_def Let_def sw_db_def find_campaign_def weak_candidate_def passed_candidate_def blank_candidate_def
        screening_campaign_def open_campaign_def)
  have weak: "cc_sem_score weak_candidate \<noteq> None" "\<not> semantic_gate weak_candidate"
    by (simp_all add: weak_candidate_def semantic_gate_def json_get_def)
  have msgs: "map_sum id (\<lambda>w. map ms_task (broker w)) ?run = Inr [''scoring.calculate_ai_evaluation'']" by code_simp
  then obtain w1 where run: "?run = Inr w1" by (cases ?run) auto
  show ?thesis using semantic_override_dead_end[OF cc weak run ca, where later = 6 and fault = None and tid = "''u''" and retries = 0] run msgs by auto
qed

end
