(* ===== verification/Resume_Intake.thy ===== *)
theory Resume_Intake
  imports Campaign_Lifecycle Task_Failures
begin

text \<open>
  The intake of resumes: validation and upload of a file (\<open>services/resume/file_validation_service.py\<close>,
  \<open>resume_upload_service.py\<close>), the candidate behind it (\<open>candidate_service.py\<close>), his entry in the
  campaign (\<open>CampaignCandidateService.create_campaign_candidate\<close>), the request that ties them
  together (\<open>resume_intake_service.py\<close>), the retry of failed parses and the recovery scan of
  \<open>tasks/resume_processing_tasks.py\<close>.

  A request works on a session: \<open>it_db\<close> is what it sees, \<open>it_saved\<close> what is committed.  Messages
  and stored objects are outside of the session.  Parameters of the environment: the detection and
  check of file contents, the digests, encryption, the storage and the broker.  Digests of ids are
  represented by the ids.
\<close>

section \<open>Tables and sessions\<close>

datatype file_format = FF_PDF | FF_DOCX | FF_PNG | FF_JPEG

record candidate_row =
  pn_id :: nat
  pn_email :: string
  pn_consent :: "string option"
  pn_erasure :: bool
  pn_deleted :: bool

record resume_file =
  rf_id :: nat
  rf_candidate :: nat
  rf_path :: string
  rf_format :: file_format
  rf_hash :: string
  rf_version :: nat
  rf_active :: bool
  rf_status :: parse_status
  rf_task :: "string option"
  rf_job :: "nat option"

record member =
  mb_id :: nat
  mb_campaign :: nat
  mb_candidate :: nat
  mb_resume :: nat
  mb_stage :: pipeline_stage
  mb_key :: "nat \<times> nat \<times> nat"

record task_row =
  tr_task :: string
  tr_type :: string
  tr_key :: "(string \<times> nat) option"
  tr_resume :: "nat option"
  tr_status :: task_status
  tr_failed :: bool
  tr_queued :: int
  tr_started :: "int option"
  tr_completed :: bool

datatype breaker_state = CB_CLOSED | CB_OPEN | CB_HALF_OPEN

record breaker =
  br_service :: string
  br_state :: breaker_state
  br_count :: nat
  br_threshold :: nat
  br_retry_after :: "int option"

record intake_db =
  ik_campaigns :: "campaign_row list"
  ik_people :: "candidate_row list"
  ik_consents :: "(nat \<times> string \<times> string) list"
  ik_resumes :: "resume_file list"
  ik_members :: "member list"
  ik_history :: "(nat \<times> pipeline_stage) list"
  ik_audit :: "audit_row list"
  ik_tasks :: "task_row list"
  ik_dlq :: "dead_letter list"
  ik_breakers :: "breaker list"
  ik_next :: nat

record intake =
  it_saved :: intake_db
  it_db :: intake_db
  it_broker :: "message list"
  it_storage :: "string list"
  it_drawn :: nat

record intake_env = campaign_env +
  ie_guess :: "string \<Rightarrow> string option"
  ie_intact :: "file_format \<Rightarrow> string \<Rightarrow> bool"
  ie_md5 :: "string \<Rightarrow> string"
  ie_digest :: "string \<Rightarrow> string"
  ie_encrypt :: bool
  ie_store :: "string \<Rightarrow> bool"
  ie_config :: "(string \<times> rat) list"
  ie_clock :: int

datatype intake_error =
    IK_No_Campaign | IK_Paused | IK_Closed | IK_Member nat
  | IK_Format | IK_Mismatch | IK_Size | IK_Corrupt | IK_Duplicate nat nat
  | IK_Storage | IK_Encryption | IK_Erasure
  | IK_No_Resume | IK_Not_Failed parse_status | IK_Unlinked
  | IK_No_Letter | IK_Replayed | IK_Not_Resume | IK_Broker

definition commit :: "intake \<Rightarrow> intake" where
  "commit w = w\<lparr>it_saved := it_db w\<rparr>"

definition rollback :: "intake \<Rightarrow> intake" where
  "rollback w = w\<lparr>it_db := it_saved w\<rparr>"

definition edit :: "(intake_db \<Rightarrow> intake_db) \<Rightarrow> intake \<Rightarrow> intake" where
  "edit f w = w\<lparr>it_db := f (it_db w)\<rparr>"

definition draw_id :: "intake_env \<Rightarrow> intake \<Rightarrow> string \<times> intake" where
  "draw_id ev w = (ev_fresh ev (it_drawn w), w\<lparr>it_drawn := Suc (it_drawn w)\<rparr>)"

text \<open>\<open>get_db\<close>: a request starts from the committed rows, and what it did not commit is lost.\<close>

definition in_session :: "(intake \<Rightarrow> 'r \<times> intake) \<Rightarrow> intake \<Rightarrow> 'r \<times> intake" where
  "in_session f w = (let (r, w') = f (rollback w) in (r, rollback w'))"

definition log_intake :: "string \<Rightarrow> role_name option \<Rightarrow> string \<Rightarrow> nat \<Rightarrow> json_dict \<Rightarrow> intake_db \<Rightarrow> intake_db" where
  "log_intake actor role action i details d =
     d\<lparr>ik_audit := ik_audit d @ [\<lparr>au_actor = Some actor, au_role = role, au_action = action, au_entity = i, au_details = details\<rparr>]\<rparr>"

definition campaign_of :: "nat \<Rightarrow> intake_db \<Rightarrow> campaign_row option" where
  "campaign_of c d = find (\<lambda>x. ca_id x = c) (ik_campaigns d)"

section \<open>Validation of a file\<close>

definition extension_format :: "string \<Rightarrow> file_format option" where
  "extension_format e =
     map_of [(''pdf'', FF_PDF), (''docx'', FF_DOCX), (''png'', FF_PNG), (''jpg'', FF_JPEG), (''jpeg'', FF_JPEG)] e"

definition claimed_extension :: "string \<Rightarrow> string" where
  "claimed_extension f = (if CHR ''.'' \<in> set f then lower (rev (takeWhile (\<lambda>c. c \<noteq> CHR ''.'') (rev f))) else [])"

definition detect_format :: "intake_env \<Rightarrow> string \<Rightarrow> string \<Rightarrow> (intake_error, file_format) result" where
  "detect_format ev bytes name =
     (case (case ie_guess ev bytes of None \<Rightarrow> None | Some e \<Rightarrow> extension_format (lower e)) of
        None \<Rightarrow> Inl IK_Format
      | Some f \<Rightarrow>
          (case extension_format (claimed_extension name) of
             None \<Rightarrow> Inr f
           | Some g \<Rightarrow> if g \<noteq> f then Inl IK_Mismatch else Inr f))"

text \<open>A missing or unreadable setting gives the default.\<close>

definition max_size_mb :: "intake_env \<Rightarrow> rat" where
  "max_size_mb ev = (case map_of (ie_config ev) ''RESUME_MAX_SIZE_MB'' of None \<Rightarrow> 10 | Some m \<Rightarrow> m)"

definition validate_file :: "intake_env \<Rightarrow> string \<Rightarrow> string \<Rightarrow> (intake_error, file_format) result" where
  "validate_file ev bytes name =
     res_bind (detect_format ev bytes name) (\<lambda>f.
       if of_nat (length bytes) > max_size_mb ev * 1024 * 1024 then Inl IK_Size
       else if \<not> ie_intact ev f bytes then Inl IK_Corrupt else Inr f)"

section \<open>Circuit breakers\<close>

definition get_breaker :: "string \<Rightarrow> intake_db \<Rightarrow> breaker" where
  "get_breaker s d =
     (case find (\<lambda>b. br_service b = s) (ik_breakers d) of
        Some b \<Rightarrow> b
      | None \<Rightarrow> \<lparr>br_service = s, br_state = CB_CLOSED, br_count = 0, br_threshold = 10, br_retry_after = None\<rparr>)"

definition put_breaker :: "breaker \<Rightarrow> intake_db \<Rightarrow> intake_db" where
  "put_breaker b d =
     d\<lparr>ik_breakers := (if list_ex (\<lambda>x. br_service x = br_service b) (ik_breakers d)
        then map (\<lambda>x. if br_service x = br_service b then b else x) (ik_breakers d) else ik_breakers d @ [b])\<rparr>"

definition increment_failure :: "int \<Rightarrow> string \<Rightarrow> intake_db \<Rightarrow> (breaker \<times> bool) \<times> intake_db" where
  "increment_failure now s d =
     (let b = get_breaker s d; n = Suc (br_count b); opens = (br_state b \<noteq> CB_OPEN \<and> n \<ge> br_threshold b);
          b' = (if opens then b\<lparr>br_count := n, br_state := CB_OPEN, br_retry_after := Some (now + 300)\<rparr> else b\<lparr>br_count := n\<rparr>)
      in ((b', opens), put_breaker b' d))"

definition transition_to_half_open_if_due :: "int \<Rightarrow> string \<Rightarrow> intake_db \<Rightarrow> breaker \<times> intake_db" where
  "transition_to_half_open_if_due now s d =
     (let b = get_breaker s d;
          due = (br_state b = CB_OPEN \<and> (case br_retry_after b of None \<Rightarrow> False | Some t \<Rightarrow> now \<ge> t));
          b' = (if due then b\<lparr>br_state := CB_HALF_OPEN\<rparr> else b)
      in (b', put_breaker b' d))"

definition reset_breaker :: "string \<Rightarrow> intake_db \<Rightarrow> intake_db" where
  "reset_breaker s d =
     (if list_ex (\<lambda>b. br_service b = s) (ik_breakers d)
      then put_breaker ((get_breaker s d)\<lparr>br_state := CB_CLOSED, br_count := 0, br_retry_after := None\<rparr>) d else d)"

definition safe_record_infra_failure :: "intake_env \<Rightarrow> string \<Rightarrow> intake \<Rightarrow> intake" where
  "safe_record_infra_failure ev s w =
     (let ((b, opens), d) = increment_failure (ie_clock ev) s (it_db w); w1 = commit (w\<lparr>it_db := d\<rparr>)
      in if opens
         then commit (edit (\<lambda>d. d\<lparr>ik_audit := ik_audit d @ [\<lparr>au_actor = None, au_role = None, au_action = ''CIRCUIT_BREAKER_OPENED'',
                au_entity = 0, au_details = [(''service_name'', JStr s), (''failure_count'', JNum (of_nat (br_count b))),
                  (''failure_threshold'', JNum (of_nat (br_threshold b)))]\<rparr>]\<rparr>) w1)
         else w1)"

section \<open>Candidates and versions\<close>

definition get_by_email :: "string \<Rightarrow> intake_db \<Rightarrow> candidate_row option" where
  "get_by_email h d = find (\<lambda>p. pn_email p = h) (ik_people d)"

definition get_or_create_person ::
    "intake_env \<Rightarrow> string \<Rightarrow> string \<Rightarrow> string \<Rightarrow> string \<Rightarrow> role_name option \<Rightarrow> intake
     \<Rightarrow> (intake_error, nat) result \<times> intake" where
  "get_or_create_person ev email juris source actor role w =
     (case get_by_email (ie_digest ev email) (it_db w) of
        Some p \<Rightarrow> (if pn_erasure p \<or> pn_deleted p then Inl IK_Erasure else Inr (pn_id p), w)
      | None \<Rightarrow>
          if \<not> ie_encrypt ev then (Inl IK_Encryption, w)
          else (let i = ik_next (it_db w) in
            (Inr i, commit (edit (\<lambda>d. log_intake actor role ''CONSENT_RECORDED'' i [(''consent_source'', JStr source)]
               (d\<lparr>ik_people := ik_people d @ [\<lparr>pn_id = i, pn_email = ie_digest ev email, pn_consent = Some source,
                    pn_erasure = False, pn_deleted = False\<rparr>],
                  ik_consents := ik_consents d @ [(i, juris, source)], ik_next := Suc i\<rparr>)) w))))"

definition resume_by_id :: "nat \<Rightarrow> intake_db \<Rightarrow> resume_file option" where
  "resume_by_id i d = find (\<lambda>r. rf_id r = i) (ik_resumes d)"

definition get_by_file_hash_global :: "string \<Rightarrow> intake_db \<Rightarrow> resume_file option" where
  "get_by_file_hash_global h d = find (\<lambda>r. rf_hash r = h) (ik_resumes d)"

definition get_active_by_candidate :: "nat \<Rightarrow> intake_db \<Rightarrow> resume_file option" where
  "get_active_by_candidate c d = first_max rf_version (filter (\<lambda>r. rf_candidate r = c \<and> rf_active r) (ik_resumes d))"

definition get_max_version_number :: "nat \<Rightarrow> intake_db \<Rightarrow> nat" where
  "get_max_version_number c d = foldr max (map rf_version (filter (\<lambda>r. rf_candidate r = c) (ik_resumes d))) 0"

definition deactivate_active_version :: "nat \<Rightarrow> intake_db \<Rightarrow> intake_db" where
  "deactivate_active_version c d =
     d\<lparr>ik_resumes := map (\<lambda>r. if rf_candidate r = c \<and> rf_active r then r\<lparr>rf_active := False\<rparr> else r) (ik_resumes d)\<rparr>"

text \<open>The next version of a candidate's resume; a bulk upload names its job and task.\<close>

definition next_version ::
    "nat \<Rightarrow> string \<Rightarrow> file_format \<Rightarrow> string \<Rightarrow> string option \<Rightarrow> nat option \<Rightarrow> intake_db \<Rightarrow> nat \<times> intake_db" where
  "next_version c path f h task job d =
     (let (v, d1) = (case get_active_by_candidate c d of
                       None \<Rightarrow> (1, d)
                     | Some r \<Rightarrow> (get_max_version_number c d + 1, deactivate_active_version c d));
          i = ik_next d1
      in (i, d1\<lparr>ik_resumes := ik_resumes d1 @ [\<lparr>rf_id = i, rf_candidate = c, rf_path = path, rf_format = f, rf_hash = h,
                  rf_version = v, rf_active = True, rf_status = PS_PENDING, rf_task = task, rf_job = job\<rparr>],
                ik_next := Suc i\<rparr>))"

definition create_next_version :: "nat \<Rightarrow> string \<Rightarrow> file_format \<Rightarrow> string \<Rightarrow> intake \<Rightarrow> nat \<times> intake" where
  "create_next_version c path f h w =
     (let (i, d) = next_version c path f h None None (it_db w) in (i, commit (w\<lparr>it_db := d\<rparr>)))"

section \<open>The upload of a file\<close>

datatype resolution = USE_EXISTING | UPLOAD_ANYWAY

record upload_request =
  up_campaign :: nat
  up_bytes :: string
  up_name :: string
  up_email :: string
  up_juris :: string
  up_by :: string
  up_role :: "role_name option"
  up_resolution :: "resolution option"

definition format_extension :: "file_format \<Rightarrow> string" where
  "format_extension f =
     (case f of FF_PDF \<Rightarrow> ''pdf'' | FF_DOCX \<Rightarrow> ''docx'' | FF_PNG \<Rightarrow> ''png'' | FF_JPEG \<Rightarrow> ''jpg'')"

definition store_object :: "intake_env \<Rightarrow> file_format \<Rightarrow> intake \<Rightarrow> (intake_error, string) result \<times> intake" where
  "store_object ev f w =
     (let (u, w1) = draw_id ev w; path = ''org_None/resume/'' @ u @ ''.'' @ format_extension f
      in if ie_store ev path then (Inr path, w1\<lparr>it_storage := it_storage w1 @ [path]\<rparr>)
         else (Inl IK_Storage, safe_record_infra_failure ev ''SUPABASE_STORAGE'' w1))"

text \<open>\<open>upload\<close>: the resume, and whether it has to be processed.\<close>

definition upload_file :: "intake_env \<Rightarrow> upload_request \<Rightarrow> intake \<Rightarrow> (intake_error, nat \<times> bool) result \<times> intake" where
  "upload_file ev rq w =
     (case validate_file ev (up_bytes rq) (up_name rq) of
        Inl e \<Rightarrow> (Inl e, w)
      | Inr f \<Rightarrow>
          let h = ie_md5 ev (up_bytes rq) in
          (case get_by_file_hash_global h (it_db w) of
             Some m \<Rightarrow>
               (case up_resolution rq of
                  None \<Rightarrow> (Inl (IK_Duplicate (rf_id m) (rf_candidate m)), w)
                | Some USE_EXISTING \<Rightarrow> (Inr (rf_id m, False), w)
                | Some UPLOAD_ANYWAY \<Rightarrow>
                    (case store_object ev f w of
                       (Inl e, w1) \<Rightarrow> (Inl e, w1)
                     | (Inr path, w1) \<Rightarrow>
                         let (i, w2) = create_next_version (rf_candidate m) path f h w1 in (Inr (i, True), w2)))
           | None \<Rightarrow>
               (case store_object ev f w of
                  (Inl e, w1) \<Rightarrow> (Inl e, w1)
                | (Inr path, w1) \<Rightarrow>
                    (case get_or_create_person ev (up_email rq) (up_juris rq) ''UPLOAD_FORM'' (up_by rq) (up_role rq) w1 of
                       (Inl e, w2) \<Rightarrow>
                         (Inl e, if e = IK_Encryption then safe_record_infra_failure ev ''ENCRYPTION_SERVICE'' w2 else w2)
                     | (Inr c, w2) \<Rightarrow> let (i, w3) = create_next_version c path f h w2 in (Inr (i, True), w3)))))"

section \<open>The entry in the campaign\<close>

definition member_of :: "nat \<Rightarrow> nat \<Rightarrow> intake_db \<Rightarrow> member option" where
  "member_of camp c d = find (\<lambda>m. mb_campaign m = camp \<and> mb_candidate m = c) (ik_members d)"

definition members_of_resume :: "nat option \<Rightarrow> intake_db \<Rightarrow> member list" where
  "members_of_resume r d = filter (\<lambda>m. Some (mb_resume m) = r) (ik_members d)"

definition check_no_existing_campaign_membership :: "intake_env \<Rightarrow> nat \<Rightarrow> string \<Rightarrow> intake_db \<Rightarrow> (intake_error, unit) result" where
  "check_no_existing_campaign_membership ev camp email d =
     (case get_by_email (ie_digest ev email) d of
        None \<Rightarrow> Inr ()
      | Some p \<Rightarrow> (case member_of camp (pn_id p) d of None \<Rightarrow> Inr () | Some m \<Rightarrow> Inl (IK_Member (mb_id m))))"

text \<open>
  The insert is not committed here: the caller does, unless the row was there under its key already.
\<close>

definition create_campaign_candidate ::
    "nat \<Rightarrow> nat \<Rightarrow> nat \<Rightarrow> string \<Rightarrow> role_name option \<Rightarrow> intake \<Rightarrow> (intake_error, member) result \<times> intake" where
  "create_campaign_candidate camp c r actor role w =
     (let d = it_db w in
      case campaign_of camp d of
        None \<Rightarrow> (Inl IK_No_Campaign, rollback w)
      | Some ca \<Rightarrow>
          (case member_of camp c d of
             Some m \<Rightarrow> (Inl (IK_Member (mb_id m)), rollback w)
           | None \<Rightarrow>
               if ca_status ca = CS_PAUSED then (Inl IK_Paused, rollback w)
               else if ca_status ca \<noteq> CS_ACTIVE then (Inl IK_Closed, rollback w)
               else (case find (\<lambda>m. mb_key m = (camp, c, r)) (ik_members d) of
                       Some m \<Rightarrow> (Inr m, commit w)
                     | None \<Rightarrow>
                         let m = \<lparr>mb_id = ik_next d, mb_campaign = camp, mb_candidate = c, mb_resume = r,
                                  mb_stage = UPLOADED, mb_key = (camp, c, r)\<rparr>
                         in (Inr m, edit (\<lambda>d. log_intake actor role ''CANDIDATE_ADDED'' (mb_id m)
                              [(''candidate_id'', JNum (of_nat c)), (''resume_id'', JNum (of_nat r)),
                               (''pipeline_stage'', JStr (stage_value UPLOADED))]
                              (d\<lparr>ik_members := ik_members d @ [m], ik_history := ik_history d @ [(mb_id m, UPLOADED)],
                                 ik_next := Suc (ik_next d)\<rparr>)) w))))"

section \<open>The request\<close>

definition precheck_campaign_eligibility :: "nat \<Rightarrow> intake_db \<Rightarrow> (intake_error, campaign_row) result" where
  "precheck_campaign_eligibility camp d =
     (case campaign_of camp d of
        None \<Rightarrow> Inl IK_No_Campaign
      | Some ca \<Rightarrow> if ca_status ca = CS_PAUSED then Inl IK_Paused
                   else if ca_status ca \<noteq> CS_ACTIVE then Inl IK_Closed else Inr ca)"

definition set_task_id :: "nat \<Rightarrow> string \<Rightarrow> intake_db \<Rightarrow> intake_db" where
  "set_task_id r t d = d\<lparr>ik_resumes := map (\<lambda>x. if rf_id x = r then x\<lparr>rf_task := Some t\<rparr> else x) (ik_resumes d)\<rparr>"

definition set_parse_status :: "nat \<Rightarrow> parse_status \<Rightarrow> intake_db \<Rightarrow> intake_db" where
  "set_parse_status r s d = d\<lparr>ik_resumes := map (\<lambda>x. if rf_id x = r then x\<lparr>rf_status := s\<rparr> else x) (ik_resumes d)\<rparr>"

definition record_task_id :: "nat \<Rightarrow> string \<Rightarrow> intake \<Rightarrow> intake" where
  "record_task_id r t w = commit (edit (set_task_id r t) w)"

definition document_type :: string where
  "document_type = ''RESUME_DOCUMENT_PROCESSING''"

definition edit_task :: "string \<Rightarrow> (task_row \<Rightarrow> task_row) \<Rightarrow> intake_db \<Rightarrow> intake_db" where
  "edit_task t f d = d\<lparr>ik_tasks := map (\<lambda>x. if tr_task x = t then f x else x) (ik_tasks d)\<rparr>"

text \<open>\<open>create_if_new_idempotency_key\<close>; see the findings for the index it relies on.\<close>

definition create_if_new_key :: "task_row \<Rightarrow> intake_db \<Rightarrow> (task_row \<times> bool) \<times> intake_db" where
  "create_if_new_key t d =
     (case find (\<lambda>x. tr_key x = tr_key t \<and> tr_key t \<noteq> None) (ik_tasks d) of
        Some x \<Rightarrow> ((x, False), d)
      | None \<Rightarrow> ((t, True), d\<lparr>ik_tasks := ik_tasks d @ [t]\<rparr>))"

definition mark_dispatch_failed :: "string \<Rightarrow> intake \<Rightarrow> intake" where
  "mark_dispatch_failed t w = commit (edit (edit_task t (\<lambda>x. x\<lparr>tr_failed := True\<rparr>)) w)"

definition document_args :: "nat option \<Rightarrow> campaign_row \<Rightarrow> json_dict" where
  "document_args r ca =
     [(''resume_id'', json_opt (\<lambda>i. JNum (of_nat i)) r), (''prompt_template_id'', JNum (of_nat (ca_prompt ca)))]"

definition send_document :: "intake_env \<Rightarrow> nat option \<Rightarrow> campaign_row \<Rightarrow> string \<Rightarrow> intake \<Rightarrow> bool \<times> intake" where
  "send_document ev r ca t w =
     (let args = document_args r ca in
      if ev_send ev ''resume.process_document'' args
      then (True, w\<lparr>it_broker := it_broker w @ [\<lparr>ms_task = ''resume.process_document'', ms_args = args, ms_id = t\<rparr>]\<rparr>)
      else (False, w))"

record upload_answer =
  ua_resume :: nat
  ua_member :: member
  ua_task :: "string option"
  ua_processing :: bool

definition enqueue_processing :: "intake_env \<Rightarrow> nat \<Rightarrow> member \<Rightarrow> campaign_row \<Rightarrow> intake \<Rightarrow> upload_answer \<times> intake" where
  "enqueue_processing ev r m ca w =
     (let (t, w1) = draw_id ev w; w2 = record_task_id r t w1;
          ((row, created), d) = create_if_new_key
             \<lparr>tr_task = t, tr_type = document_type, tr_key = Some (document_type, r), tr_resume = Some r, tr_status = TK_QUEUED,
              tr_failed = False, tr_queued = ie_clock ev, tr_started = None, tr_completed = False\<rparr> (it_db w2);
          w3 = commit (w2\<lparr>it_db := d\<rparr>);
          answer = (\<lambda>t. \<lparr>ua_resume = r, ua_member = m, ua_task = Some t, ua_processing = True\<rparr>)
      in if \<not> created then (answer (tr_task row), record_task_id r (tr_task row) w3)
         else (let (sent, w4) = send_document ev (Some r) ca t w3
               in (answer t, if sent then w4 else mark_dispatch_failed t w4)))"

definition upload_resume :: "intake_env \<Rightarrow> upload_request \<Rightarrow> intake \<Rightarrow> (intake_error, upload_answer) result \<times> intake" where
  "upload_resume ev rq w =
     (case precheck_campaign_eligibility (up_campaign rq) (it_db w) of
        Inl e \<Rightarrow> (Inl e, w)
      | Inr ca \<Rightarrow>
          (case check_no_existing_campaign_membership ev (up_campaign rq) (up_email rq) (it_db w) of
             Inl e \<Rightarrow> (Inl e, w)
           | Inr _ \<Rightarrow>
               (case upload_file ev rq w of
                  (Inl e, w1) \<Rightarrow> (Inl e, w1)
                | (Inr (r, processing), w1) \<Rightarrow>
                    (case resume_by_id r (it_db w1) of
                       None \<Rightarrow> (Inl IK_No_Resume, w1)
                     | Some rf \<Rightarrow>
                         (case create_campaign_candidate (up_campaign rq) (rf_candidate rf) r (up_by rq) (up_role rq) w1 of
                            (Inl e, w2) \<Rightarrow> (Inl e, w2)
                          | (Inr m, w2) \<Rightarrow>
                              if \<not> processing
                              then (Inr \<lparr>ua_resume = r, ua_member = m, ua_task = rf_task rf, ua_processing = False\<rparr>, w2)
                              else (let w3 = commit (edit (log_intake (up_by rq) None ''RESUME_UPLOADED'' r
                                       [(''candidate_id'', JNum (of_nat (rf_candidate rf)))]) w2);
                                     (a, w4) = enqueue_processing ev r m ca w3 in (Inr a, w4)))))))"

section \<open>Retry and replay of a failed parse\<close>

definition resolve_owning_campaign :: "nat \<Rightarrow> intake_db \<Rightarrow> campaign_row option" where
  "resolve_owning_campaign r d =
     (let ms = members_of_resume (Some r) d in if ms = [] then None else campaign_of (mb_campaign (last ms)) d)"

definition reparse :: "nat \<Rightarrow> string \<Rightarrow> intake_db \<Rightarrow> intake_db" where
  "reparse r t d = set_task_id r t (set_parse_status r PS_PENDING d)"

definition resend :: "intake_env \<Rightarrow> nat \<Rightarrow> campaign_row \<Rightarrow> string \<Rightarrow> intake \<Rightarrow> (intake_error, string) result \<times> intake" where
  "resend ev r ca t w = (let (sent, w1) = send_document ev (Some r) ca t w in (if sent then Inr t else Inl IK_Broker, w1))"

definition retry_parse :: "intake_env \<Rightarrow> nat \<Rightarrow> string \<Rightarrow> role_name option \<Rightarrow> intake \<Rightarrow> (intake_error, string) result \<times> intake" where
  "retry_parse ev r actor role w =
     (case resume_by_id r (it_db w) of
        None \<Rightarrow> (Inl IK_No_Resume, w)
      | Some rf \<Rightarrow>
          if rf_status rf \<noteq> PS_FAILED then (Inl (IK_Not_Failed (rf_status rf)), w)
          else (case resolve_owning_campaign r (it_db w) of
                  None \<Rightarrow> (Inl IK_Unlinked, w)
                | Some ca \<Rightarrow>
                    let (t, w1) = draw_id ev w in
                    resend ev r ca t (commit (edit (\<lambda>d. log_intake actor role ''RESUME_UPLOAD_RETRIED'' r
                      [(''new_task_id'', JStr t)] (reparse r t d)) w1))))"

definition replay_from_dlq :: "intake_env \<Rightarrow> nat \<Rightarrow> string \<Rightarrow> role_name option \<Rightarrow> intake \<Rightarrow> (intake_error, string) result \<times> intake" where
  "replay_from_dlq ev i actor role w =
     (case find (\<lambda>x. dq_id x = i) (ik_dlq (it_db w)) of
        None \<Rightarrow> (Inl IK_No_Letter, w)
      | Some x \<Rightarrow>
          if dq_replayed_by x \<noteq> None then (Inl IK_Replayed, w)
          else (case dq_resume x of
                  None \<Rightarrow> (Inl IK_Not_Resume, w)
                | Some r \<Rightarrow>
                    if resume_by_id r (it_db w) = None then (Inl IK_No_Resume, w)
                    else (case resolve_owning_campaign r (it_db w) of
                            None \<Rightarrow> (Inl IK_Unlinked, w)
                          | Some ca \<Rightarrow>
                              let (t, w1) = draw_id ev w in
                              resend ev r ca t (commit (edit (\<lambda>d. log_intake actor role ''INDIVIDUAL_UPLOAD_DLQ_REPLAYED'' r
                                [(''dead_letter_queue_id'', JNum (of_nat i)), (''original_task_id'', JStr (dq_task x)), (''new_task_id'', JStr t)]
                                ((reparse r t d)\<lparr>ik_dlq := map (\<lambda>y. if dq_id y = i then y\<lparr>dq_replayed_by := Some actor\<rparr> else y) (ik_dlq d)\<rparr>)) w1)))))"

section \<open>The worker\<close>

text \<open>
  One run of \<open>process_resume_document\<close>: the row of the task is found or created, without the
  resume, and set running.  How the run ends is a parameter (the retry driver is modelled in
  \<open>Task_Failures\<close>): \<open>DO_Failed\<close> names the error and the attempts when the run is dead-lettered,
  \<open>DO_Crash\<close> is the loss of the worker.
\<close>

datatype document_outcome = DO_Parsed | DO_Failed "(string \<times> nat) option" | DO_Retry | DO_Crash

definition start_document :: "intake_env \<Rightarrow> string \<Rightarrow> intake_db \<Rightarrow> intake_db" where
  "start_document ev t d =
     (let d1 = (if list_ex (\<lambda>x. tr_task x = t) (ik_tasks d) then d
                else d\<lparr>ik_tasks := ik_tasks d @ [\<lparr>tr_task = t, tr_type = document_type, tr_key = None, tr_resume = None,
                       tr_status = TK_QUEUED, tr_failed = False, tr_queued = ie_clock ev, tr_started = None, tr_completed = False\<rparr>]\<rparr>)
      in edit_task t (\<lambda>x. x\<lparr>tr_status := TK_RUNNING,
             tr_started := Some (case tr_started x of None \<Rightarrow> ie_clock ev | Some s \<Rightarrow> s)\<rparr>) d1)"

definition end_document :: "document_outcome \<Rightarrow> string \<Rightarrow> nat \<Rightarrow> intake_db \<Rightarrow> intake_db" where
  "end_document out t r d =
     (case out of
        DO_Parsed \<Rightarrow> edit_task t (\<lambda>x. x\<lparr>tr_resume := Some r, tr_status := TK_SUCCESS, tr_completed := True\<rparr>)
          (set_parse_status r PS_PARSED (d\<lparr>ik_dlq := resolve_open document_type None (Some r) (ik_dlq d)\<rparr>))
      | DO_Failed dead \<Rightarrow>
          (let d1 = (case dead of None \<Rightarrow> d
                     | Some (err, n) \<Rightarrow> d\<lparr>ik_dlq := add_dead_letter t document_type (Some r) None err n (ik_dlq d)\<rparr>)
           in edit_task t (\<lambda>x. x\<lparr>tr_status := TK_FAILURE, tr_completed := True\<rparr>) (set_parse_status r PS_FAILED d1))
      | DO_Retry \<Rightarrow> edit_task t (\<lambda>x. x\<lparr>tr_status := TK_RETRY\<rparr>) d
      | DO_Crash \<Rightarrow> d)"

definition process_document :: "intake_env \<Rightarrow> document_outcome \<Rightarrow> string \<Rightarrow> nat \<Rightarrow> intake \<Rightarrow> intake" where
  "process_document ev out t r w = commit (edit (\<lambda>d. end_document out t r (start_document ev t d)) (rollback w))"

section \<open>The recovery scan\<close>

definition get_queued_dispatch_failed :: "intake_db \<Rightarrow> task_row list" where
  "get_queued_dispatch_failed d = filter (\<lambda>x. tr_type x = document_type \<and> tr_status x = TK_QUEUED \<and> tr_failed x) (ik_tasks d)"

definition claim_for_redispatch :: "string \<Rightarrow> intake \<Rightarrow> bool \<times> intake" where
  "claim_for_redispatch t w =
     (if list_ex (\<lambda>x. tr_task x = t \<and> tr_failed x) (ik_tasks (it_db w))
      then (True, commit (edit (edit_task t (\<lambda>x. x\<lparr>tr_failed := False\<rparr>)) w)) else (False, w))"

text \<open>The campaign of the first entry found.\<close>

definition first_campaign :: "nat option \<Rightarrow> intake_db \<Rightarrow> campaign_row option" where
  "first_campaign r d = (case members_of_resume r d of [] \<Rightarrow> None | m # _ \<Rightarrow> campaign_of (mb_campaign m) d)"

definition recover_queued :: "intake_env \<Rightarrow> task_row \<Rightarrow> nat \<times> intake \<Rightarrow> nat \<times> intake" where
  "recover_queued ev x = (\<lambda>(n, w).
     (let (mine, w1) = claim_for_redispatch (tr_task x) w in
      if \<not> mine then (n, w1)
      else (case first_campaign (tr_resume x) (it_db w1) of
              None \<Rightarrow> (n, mark_dispatch_failed (tr_task x) w1)
            | Some ca \<Rightarrow>
                (let (sent, w2) = send_document ev (tr_resume x) ca (tr_task x) w1
                 in if sent then (Suc n, w2) else (n, mark_dispatch_failed (tr_task x) w2)))))"

definition stalled_in_flight :: "task_row \<Rightarrow> bool" where
  "stalled_in_flight x \<longleftrightarrow> tr_type x = document_type \<and> tr_status x \<in> {TK_RUNNING, TK_RETRY} \<and> \<not> tr_completed x"

definition last_touched :: "task_row \<Rightarrow> int" where
  "last_touched x = (case tr_started x of None \<Rightarrow> tr_queued x | Some s \<Rightarrow> s)"

definition get_stalled_in_flight :: "int \<Rightarrow> intake_db \<Rightarrow> task_row list" where
  "get_stalled_in_flight before d = filter (\<lambda>x. stalled_in_flight x \<and> last_touched x < before) (ik_tasks d)"

definition claim_in_flight :: "string \<Rightarrow> intake \<Rightarrow> bool \<times> intake" where
  "claim_in_flight t w =
     (if list_ex (\<lambda>x. tr_task x = t \<and> tr_status x \<in> {TK_RUNNING, TK_RETRY} \<and> \<not> tr_completed x) (ik_tasks (it_db w))
      then (True, commit (edit (edit_task t (\<lambda>x. x\<lparr>tr_status := TK_QUEUED, tr_started := None\<rparr>)) w)) else (False, w))"

definition recover_in_flight :: "intake_env \<Rightarrow> task_row \<Rightarrow> nat \<times> intake \<Rightarrow> nat \<times> intake" where
  "recover_in_flight ev x = (\<lambda>(n, w).
     (case first_campaign (tr_resume x) (it_db w) of
        None \<Rightarrow> (n, w)
      | Some ca \<Rightarrow>
          (let (mine, w1) = claim_in_flight (tr_task x) w in
           if \<not> mine then (n, w1)
           else (let (sent, w2) = send_document ev (tr_resume x) ca (tr_task x) w1 in (if sent then Suc n else n, w2)))))"

definition stalled_in_flight_minutes :: int where
  "stalled_in_flight_minutes = 15"

text \<open>\<open>live\<close>: the tasks the workers hold, if they answer.\<close>

definition recover_stalled_uploads :: "intake_env \<Rightarrow> string list option \<Rightarrow> intake \<Rightarrow> nat \<times> intake" where
  "recover_stalled_uploads ev live w =
     (let (n, w1) = fold (recover_queued ev) (get_queued_dispatch_failed (it_db w)) (0, w) in
      case live of
        None \<Rightarrow> (n, w1)
      | Some ids \<Rightarrow>
          fold (recover_in_flight ev)
            (filter (\<lambda>x. tr_task x \<notin> set ids) (get_stalled_in_flight (ie_clock ev - 60 * stalled_in_flight_minutes) (it_db w1))) (n, w1))"

end
