(* ===== verification/Resume_Intake_Props.thy ===== *)
theory Resume_Intake_Props
  imports Resume_Intake
begin

text \<open>
  The intake of resumes: the versions of a candidate's resume, what a request leaves in the
  database, and which uploads the recovery scan can still bring to a worker.
\<close>

section \<open>Frames\<close>

lemma session_simps [simp]:
  "it_saved (commit w) = it_db w" "it_db (commit w) = it_db w" "it_broker (commit w) = it_broker w" "it_drawn (commit w) = it_drawn w"
  "it_saved (rollback w) = it_saved w" "it_db (rollback w) = it_saved w" "it_broker (rollback w) = it_broker w" "it_drawn (rollback w) = it_drawn w"
  "it_saved (edit f w) = it_saved w" "it_db (edit f w) = f (it_db w)" "it_broker (edit f w) = it_broker w" "it_drawn (edit f w) = it_drawn w"
  by (simp_all add: commit_def rollback_def edit_def)

lemma log_intake_simps [simp]:
  "ik_resumes (log_intake a b c i e d) = ik_resumes d" "ik_members (log_intake a b c i e d) = ik_members d"
  "ik_tasks (log_intake a b c i e d) = ik_tasks d" "ik_next (log_intake a b c i e d) = ik_next d"
  "ik_dlq (log_intake a b c i e d) = ik_dlq d" "ik_campaigns (log_intake a b c i e d) = ik_campaigns d"
  by (simp_all add: log_intake_def)

text \<open>What identifies a version.\<close>

definition version_key :: "resume_file \<Rightarrow> nat \<times> nat \<times> nat \<times> bool" where
  "version_key r = (rf_id r, rf_candidate r, rf_version r, rf_active r)"

abbreviation version_keys :: "intake_db \<Rightarrow> (nat \<times> nat \<times> nat \<times> bool) list" where
  "version_keys d \<equiv> map version_key (ik_resumes d)"

lemma version_keys_edit [simp]:
  "version_keys (set_task_id r t d) = version_keys d" "version_keys (set_parse_status r s d) = version_keys d"
  "version_keys (edit_task t f d) = version_keys d" "version_keys (reparse r t d) = version_keys d"
  "version_keys (start_document ev t d) = version_keys d" "version_keys (end_document out t r d) = version_keys d"
  by (auto simp: set_task_id_def set_parse_status_def edit_task_def reparse_def start_document_def end_document_def
      version_key_def Let_def split: document_outcome.split option.split)

lemma next_edit [simp]:
  "ik_next (set_task_id r t d) = ik_next d" "ik_next (set_parse_status r s d) = ik_next d"
  "ik_next (edit_task t f d) = ik_next d" "ik_next (reparse r t d) = ik_next d"
  "ik_next (start_document ev t d) = ik_next d" "ik_next (end_document out t r d) = ik_next d"
  by (auto simp: set_task_id_def set_parse_status_def edit_task_def reparse_def start_document_def end_document_def
      Let_def split: document_outcome.split option.split)

section \<open>The versions of a candidate\<close>

definition versions_of :: "nat \<Rightarrow> (nat \<times> nat \<times> nat \<times> bool) list \<Rightarrow> (nat \<times> bool) list" where
  "versions_of c ks = map (\<lambda>(i, c, v, a). (v, a)) (filter (\<lambda>(i, x, v, a). x = c) ks)"

text \<open>In the order of their creation: numbered from one, and only the last one active.\<close>

definition numbered :: "nat \<Rightarrow> (nat \<times> bool) list" where
  "numbered n = map (\<lambda>v. (v, v = n)) [1..<Suc n]"

definition versions_fine :: "intake_db \<Rightarrow> bool" where
  "versions_fine d \<longleftrightarrow> distinct (map rf_id (ik_resumes d)) \<and> (\<forall>r\<in>set (ik_resumes d). rf_id r < ik_next d)
     \<and> (\<forall>c. \<exists>n. versions_of c (version_keys d) = numbered n)"

lemma versions_fine_cong:
  assumes "version_keys d = version_keys e" "ik_next e \<le> ik_next d" "versions_fine e"
  shows "versions_fine d"
proof -
  have "map fst (version_keys d) = map fst (version_keys e)" using assms(1) by simp
  then have ids: "map rf_id (ik_resumes d) = map rf_id (ik_resumes e)" by (simp add: version_key_def comp_def)
  have "rf_id r < ik_next d" if "r \<in> set (ik_resumes d)" for r
  proof -
    have "rf_id r \<in> set (map rf_id (ik_resumes e))" unfolding ids[symmetric] using that by simp
    then show ?thesis using assms(2,3) by (auto simp: versions_fine_def)
  qed
  then show ?thesis using assms(1,3) ids by (simp add: versions_fine_def)
qed

lemma versions_of_filter:
  "versions_of c (version_keys d) = map (\<lambda>r. (rf_version r, rf_active r)) (filter (\<lambda>r. rf_candidate r = c) (ik_resumes d))"
  by (simp add: versions_of_def version_key_def filter_map comp_def)

lemma foldr_max: "foldr max xs (m::nat) = max (foldr max xs 0) m"
  by (induction xs) auto

lemma max_version:
  assumes "versions_of c (version_keys d) = numbered n"
  shows "get_max_version_number c d = n"
proof -
  have "map fst (versions_of c (version_keys d)) = [1..<Suc n]" unfolding assms numbered_def by (simp add: comp_def)
  then have "map rf_version (filter (\<lambda>r. rf_candidate r = c) (ik_resumes d)) = [1..<Suc n]" by (simp add: versions_of_filter comp_def)
  then have "get_max_version_number c d = foldr max [1..<Suc n] 0" by (simp add: get_max_version_number_def)
  also have "\<dots> = n" by (induction n) (simp_all add: foldr_max[of _ "Suc _"])
  finally show ?thesis .
qed

lemma active_version:
  assumes "versions_of c (version_keys d) = numbered n"
  shows "get_active_by_candidate c d = None \<longleftrightarrow> n = 0"
proof -
  have "filter snd (versions_of c (version_keys d)) = [] \<longleftrightarrow> n = 0"
    unfolding assms numbered_def by (auto simp: filter_empty_conv)
  moreover have "filter snd (versions_of c (version_keys d))
      = map (\<lambda>r. (rf_version r, rf_active r)) (filter (\<lambda>r. rf_candidate r = c \<and> rf_active r) (ik_resumes d))"
    unfolding versions_of_filter by (simp add: filter_map comp_def)
  ultimately show ?thesis by (simp add: get_active_by_candidate_def)
qed

lemma versions_deactivated:
  "versions_of x (version_keys (deactivate_active_version c d))
     = (if x = c then map (\<lambda>(v, a). (v, False)) (versions_of x (version_keys d)) else versions_of x (version_keys d))"
proof -
  have "map (\<lambda>r. (rf_version r, rf_active r)) (filter (\<lambda>r. rf_candidate r = x)
      (map (\<lambda>r. if rf_candidate r = c \<and> rf_active r then r\<lparr>rf_active := False\<rparr> else r) rs))
    = (if x = c then map (\<lambda>r. (rf_version r, False)) (filter (\<lambda>r. rf_candidate r = x) rs)
       else map (\<lambda>r. (rf_version r, rf_active r)) (filter (\<lambda>r. rf_candidate r = x) rs))" for rs :: "resume_file list"
    by (induction rs) auto
  then show ?thesis unfolding versions_of_filter deactivate_active_version_def by (simp add: comp_def)
qed

lemma next_version_fine:
  assumes "versions_fine d" "next_version c path f h task job d = (i, d')"
  shows "versions_fine d'" "i = ik_next d"
    "\<exists>r\<in>set (ik_resumes d'). rf_id r = i \<and> rf_candidate r = c \<and> rf_active r \<and> rf_status r = PS_PENDING \<and> rf_task r = task \<and> rf_hash r = h"
    "ik_tasks d' = ik_tasks d" "ik_members d' = ik_members d" "ik_campaigns d' = ik_campaigns d" "ik_next d' = Suc (ik_next d)" "ik_dlq d' = ik_dlq d"
proof -
  obtain n where n: "versions_of c (version_keys d) = numbered n" using assms(1) by (auto simp: versions_fine_def)
  define d1 where "d1 = (if n = 0 then d else deactivate_active_version c d)"
  define r where "r = \<lparr>rf_id = ik_next d, rf_candidate = c, rf_path = path, rf_format = f, rf_hash = h,
                  rf_version = Suc n, rf_active = True, rf_status = PS_PENDING, rf_task = task, rf_job = job\<rparr>"
  have d': "d' = d1\<lparr>ik_resumes := ik_resumes d1 @ [r], ik_next := Suc (ik_next d)\<rparr>" "i = ik_next d"
    using assms(2) active_version[OF n] max_version[OF n]
    by (auto simp: next_version_def d1_def r_def Let_def deactivate_active_version_def split: option.splits)
  have ids: "map rf_id (ik_resumes d1) = map rf_id (ik_resumes d)" by (simp add: d1_def deactivate_active_version_def)
  have less: "\<forall>r\<in>set (ik_resumes d1). rf_id r < ik_next d"
    using assms(1) by (auto simp: d1_def deactivate_active_version_def versions_fine_def)
  have "\<exists>m. versions_of x (version_keys d') = numbered m" for x
  proof (cases "x = c")
    case True
    have "versions_of c (version_keys d1) = map (\<lambda>v. (v, False)) [1..<Suc n]"
      unfolding d1_def using n by (auto simp: versions_deactivated numbered_def comp_def)
    then have "versions_of c (version_keys d') = map (\<lambda>v. (v, False)) [1..<Suc n] @ [(Suc n, True)]"
      unfolding d' by (simp add: versions_of_def version_key_def r_def)
    also have "\<dots> = numbered (Suc n)" by (auto simp: numbered_def)
    finally show ?thesis using True by blast
  next
    case False
    have "versions_of x (version_keys d') = versions_of x (version_keys d1)"
      using False unfolding d' by (simp add: versions_of_def version_key_def r_def)
    also have "\<dots> = versions_of x (version_keys d)" using False by (simp add: d1_def versions_deactivated)
    finally show ?thesis using assms(1) by (simp add: versions_fine_def)
  qed
  then show "versions_fine d'" using assms(1) ids less unfolding versions_fine_def d' by (auto simp: r_def)
  show "i = ik_next d" by (rule d'(2))
  show "\<exists>r\<in>set (ik_resumes d'). rf_id r = i \<and> rf_candidate r = c \<and> rf_active r \<and> rf_status r = PS_PENDING \<and> rf_task r = task \<and> rf_hash r = h"
    unfolding d' by (simp add: r_def)
  show "ik_tasks d' = ik_tasks d" "ik_members d' = ik_members d" "ik_campaigns d' = ik_campaigns d" "ik_next d' = Suc (ik_next d)" "ik_dlq d' = ik_dlq d"
    unfolding d' by (simp_all add: d1_def deactivate_active_version_def)
qed

section \<open>Requests keep the versions in order\<close>

definition sound :: "intake \<Rightarrow> bool" where
  "sound w \<longleftrightarrow> versions_fine (it_saved w) \<and> versions_fine (it_db w)"

lemma sound_commit [simp]: "sound w \<Longrightarrow> sound (commit w)"
  and sound_rollback [simp]: "sound w \<Longrightarrow> sound (rollback w)"
  by (simp_all add: sound_def)

lemma sound_edit: "sound w \<Longrightarrow> version_keys (f (it_db w)) = version_keys (it_db w) \<Longrightarrow> ik_next (it_db w) \<le> ik_next (f (it_db w)) \<Longrightarrow> sound (edit f w)"
  by (auto simp: sound_def intro: versions_fine_cong)

lemma sound_with_db: "sound w \<Longrightarrow> versions_fine d \<Longrightarrow> sound (w\<lparr>it_db := d\<rparr>)"
  by (simp add: sound_def)

lemma sound_other [simp]:
  "sound (w\<lparr>it_broker := b\<rparr>) = sound w" "sound (w\<lparr>it_storage := xs\<rparr>) = sound w" "sound (w\<lparr>it_drawn := n\<rparr>) = sound w"
  by (simp_all add: sound_def)

lemma sound_draw: "draw_id ev w = (t, w') \<Longrightarrow> sound w \<Longrightarrow> sound w'"
  by (auto simp: draw_id_def)

lemma sound_send: "send_document ev r ca t w = (b, w') \<Longrightarrow> sound w \<Longrightarrow> sound w'"
  by (auto simp: send_document_def Let_def split: if_splits)

lemma put_breaker_simps [simp]:
  "ik_resumes (put_breaker b d) = ik_resumes d" "ik_next (put_breaker b d) = ik_next d"
  by (simp_all add: put_breaker_def)

lemma increment_failure_frame:
  "increment_failure now s d = (x, d') \<Longrightarrow> ik_resumes d' = ik_resumes d \<and> ik_next d' = ik_next d"
  by (auto simp: increment_failure_def Let_def)

lemma sound_infra: "sound w \<Longrightarrow> sound (safe_record_infra_failure ev s w)"
  by (auto simp: safe_record_infra_failure_def Let_def sound_def split: prod.splits
      dest!: increment_failure_frame intro: versions_fine_cong)

lemma sound_store: "store_object ev f w = (r, w') \<Longrightarrow> sound w \<Longrightarrow> sound w'"
  by (auto simp: store_object_def Let_def draw_id_def intro!: sound_infra split: if_splits)

lemma sound_person: "get_or_create_person ev e j s a role w = (r, w') \<Longrightarrow> sound w \<Longrightarrow> sound w'"
  by (auto simp: get_or_create_person_def Let_def intro!: sound_edit sound_commit split: option.splits if_splits)

lemma sound_version: "create_next_version c path f h w = (i, w') \<Longrightarrow> sound w \<Longrightarrow> sound w'"
  by (auto simp: create_next_version_def sound_def split: prod.splits intro: next_version_fine(1))

lemma sound_upload_file: "upload_file ev rq w = (r, w') \<Longrightarrow> sound w \<Longrightarrow> sound w'"
  by (auto simp: upload_file_def Let_def split: sum.splits option.splits resolution.splits prod.splits if_splits
      dest: sound_store sound_person sound_version intro!: sound_infra)

lemma sound_create: "create_campaign_candidate camp c r a role w = (x, w') \<Longrightarrow> sound w \<Longrightarrow> sound w'"
  by (auto simp: create_campaign_candidate_def Let_def split: option.splits if_splits intro!: sound_commit sound_edit)

lemma create_if_new_frame:
  "create_if_new_key t d = (x, d') \<Longrightarrow> ik_resumes d' = ik_resumes d \<and> ik_next d' = ik_next d"
  by (auto simp: create_if_new_key_def split: option.splits)

lemma sound_dispatch_failed: "sound w \<Longrightarrow> sound (mark_dispatch_failed t w)"
  by (auto simp: mark_dispatch_failed_def intro!: sound_commit sound_edit)

lemma sound_record: "sound w \<Longrightarrow> sound (record_task_id r t w)"
  by (auto simp: record_task_id_def intro!: sound_commit sound_edit)

lemma sound_enqueue: 
  assumes "enqueue_processing ev r m ca w = (a, w')" "sound w"
  shows "sound w'"
proof -
  obtain t w1 where t: "draw_id ev w = (t, w1)" by fastforce
  define w2 where "w2 = record_task_id r t w1"
  have w2: "sound w2" unfolding w2_def by (intro sound_record sound_draw[OF t assms(2)])
  obtain row created d where c: "create_if_new_key \<lparr>tr_task = t, tr_type = document_type, tr_key = Some (document_type, r), tr_resume = Some r,
      tr_status = TK_QUEUED, tr_failed = False, tr_queued = ie_clock ev, tr_started = None, tr_completed = False\<rparr> (it_db w2) = ((row, created), d)"
    by (metis surj_pair)
  have w3: "sound (commit (w2\<lparr>it_db := d\<rparr>))"
    using create_if_new_frame[OF c] w2 by (auto intro!: sound_commit sound_with_db versions_fine_cong[of d "it_db w2"] simp: sound_def)
  obtain sent w4 where s: "send_document ev (Some r) ca t (commit (w2\<lparr>it_db := d\<rparr>)) = (sent, w4)" by fastforce
  have "w' = (if \<not> created then record_task_id r (tr_task row) (commit (w2\<lparr>it_db := d\<rparr>)) else if sent then w4 else mark_dispatch_failed t w4)"
    using assms(1) t c s by (auto simp: enqueue_processing_def w2_def Let_def split: if_splits)
  then show ?thesis using sound_record[OF w3] sound_send[OF s w3] sound_dispatch_failed by auto
qed

lemma sound_upload: "upload_resume ev rq w = (r, w') \<Longrightarrow> sound w \<Longrightarrow> sound w'"
  by (auto simp: upload_resume_def Let_def split: sum.splits option.splits prod.splits if_splits
      dest: sound_upload_file sound_create dest!: sound_enqueue intro!: sound_commit sound_edit)

lemma sound_resend: "resend ev r ca t w = (x, w') \<Longrightarrow> sound w \<Longrightarrow> sound w'"
  by (auto simp: resend_def Let_def split: prod.splits dest: sound_send)

lemma sound_retry: "retry_parse ev r actor role w = (x, w') \<Longrightarrow> sound w \<Longrightarrow> sound w'"
  by (auto simp: retry_parse_def split: option.splits if_splits prod.splits
      dest!: sound_resend sound_draw intro!: sound_commit sound_edit)

lemma sound_replay: "replay_from_dlq ev i actor role w = (x, w') \<Longrightarrow> sound w \<Longrightarrow> sound w'"
  by (auto simp: replay_from_dlq_def split: option.splits if_splits prod.splits
      dest!: sound_resend sound_draw intro!: sound_commit sound_edit)

lemma sound_process: "sound w \<Longrightarrow> sound (process_document ev out t r w)"
  by (auto simp: process_document_def intro!: sound_commit sound_edit)

lemma sound_claim: "claim_for_redispatch t w = (b, w') \<Longrightarrow> sound w \<Longrightarrow> sound w'"
  "claim_in_flight t w = (b, w') \<Longrightarrow> sound w \<Longrightarrow> sound w'"
  by (auto simp: claim_for_redispatch_def claim_in_flight_def split: if_splits intro!: sound_commit sound_edit)

lemma sound_recover_one:
  "recover_queued ev x (n, w) = (m, w') \<Longrightarrow> sound w \<Longrightarrow> sound w'"
  "recover_in_flight ev x (n, w) = (m, w') \<Longrightarrow> sound w \<Longrightarrow> sound w'"
  by (auto simp: recover_queued_def recover_in_flight_def Let_def split: prod.splits if_splits option.splits
      dest: sound_claim sound_send intro!: sound_dispatch_failed)

datatype intake_request =
    IR_Upload upload_request | IR_Retry nat string "role_name option" | IR_Replay nat string "role_name option"
  | IR_Run document_outcome string nat | IR_Recover "string list option"

fun serve :: "intake_env \<Rightarrow> intake_request \<Rightarrow> intake \<Rightarrow> intake" where
  "serve ev (IR_Upload rq) w = snd (in_session (upload_resume ev rq) w)"
| "serve ev (IR_Retry r actor role) w = snd (in_session (retry_parse ev r actor role) w)"
| "serve ev (IR_Replay i actor role) w = snd (in_session (replay_from_dlq ev i actor role) w)"
| "serve ev (IR_Run out t r) w = process_document ev out t r w"
| "serve ev (IR_Recover live) w = snd (in_session (recover_stalled_uploads ev live) w)"

lemma sound_session: "(\<And>r w'. f (rollback w) = (r, w') \<Longrightarrow> sound w') \<Longrightarrow> sound (snd (in_session f w))"
  by (auto simp: in_session_def split: prod.split)

lemma sound_recover: "recover_stalled_uploads ev live w = (n, w') \<Longrightarrow> sound w \<Longrightarrow> sound w'"
proof -
  have step: "sound (snd (fold f xs (n, w)))" if "\<And>x n w. sound w \<Longrightarrow> sound (snd (f x (n, w)))" "sound w" for f :: "task_row \<Rightarrow> nat \<times> intake \<Rightarrow> nat \<times> intake" and xs n w
    using that(2) by (induction xs arbitrary: n w) (simp, metis fold_simps(2) surj_pair snd_conv that(1))
  have q: "sound w \<Longrightarrow> sound (snd (recover_queued ev x (n, w)))" for x n w by (metis sound_recover_one(1) surj_pair snd_conv)
  have f: "sound w \<Longrightarrow> sound (snd (recover_in_flight ev x (n, w)))" for x n w by (metis sound_recover_one(2) surj_pair snd_conv)
  assume run: "recover_stalled_uploads ev live w = (n, w')" "sound w"
  obtain m w1 where one: "fold (recover_queued ev) (get_queued_dispatch_failed (it_db w)) (0, w) = (m, w1)" by fastforce
  have "sound w1" using step[of "recover_queued ev", OF q run(2)] one by (metis snd_conv)
  then show "sound w'" using run(1) step[of "recover_in_flight ev", OF f] one by (auto simp: recover_stalled_uploads_def Let_def split: option.splits) (metis snd_conv)
qed

text \<open>
  Property C32.  Whatever is uploaded, retried, replayed, processed or recovered, by any resolution
  of a duplicate and with any failure of storage, encryption or broker: the versions of each
  candidate's resume are numbered one, two, three without gaps in the order of their creation, and
  exactly the last one is active.
\<close>

theorem versions_stay_numbered:
  assumes "versions_fine (it_saved w)"
  shows "versions_fine (it_saved (fold (\<lambda>(ev, r). serve ev r) rs w))"
  using assms
proof (induction rs arbitrary: w)
  case (Cons x rs)
  obtain ev r where x: "x = (ev, r)" by fastforce
  have start: "sound (rollback w)" using Cons.prems by (simp add: sound_def)
  have "sound (serve ev r w)"
  proof (cases r)
    case (IR_Run out t i)
    have "process_document ev out t i w = process_document ev out t i (rollback w)" by (simp add: process_document_def rollback_def)
    then show ?thesis using IR_Run sound_process[OF start] by simp
  qed (use start in \<open>auto intro!: sound_session dest: sound_upload sound_retry sound_replay sound_recover\<close>)
  then show ?case using Cons.IH x by (simp add: sound_def)
qed simp

end
