(* ===== verification/Resume_Intake_Outcomes.thy ===== *)
theory Resume_Intake_Outcomes
  imports Resume_Intake_Props
begin

text \<open>
  What a request of the intake leaves behind: accepted uploads reach a worker, an accepted link to
  an existing resume is not saved, a refused upload leaves a new active version, and a retry that
  finds the broker down is beyond recovery.
\<close>

section \<open>Uploads\<close>

lemma store_frame:
  assumes "store_object ev f w = (Inr path, w')"
  shows "it_db w' = it_db w" "it_saved w' = it_saved w" "it_broker w' = it_broker w" "it_drawn w' = Suc (it_drawn w)"
  using assms by (auto simp: store_object_def draw_id_def Let_def split: if_splits)

lemma person_frame:
  assumes "get_or_create_person ev e j s a role w = (Inr c, w')" "it_saved w = it_db w"
  shows "it_saved w' = it_db w'" "it_broker w' = it_broker w" "it_drawn w' = it_drawn w" "ik_tasks (it_db w') = ik_tasks (it_db w)"
    "ik_members (it_db w') = ik_members (it_db w)" "ik_campaigns (it_db w') = ik_campaigns (it_db w)"
    "ik_next (it_db w) \<le> ik_next (it_db w')" "ik_resumes (it_db w') = ik_resumes (it_db w)"
  using assms by (auto simp: get_or_create_person_def Let_def split: option.splits if_splits)

lemma version_frame:
  assumes "create_next_version c path f h w = (i, w')" "versions_fine (it_db w)"
  shows "it_saved w' = it_db w'" "it_broker w' = it_broker w" "it_drawn w' = it_drawn w" "ik_tasks (it_db w') = ik_tasks (it_db w)"
    "ik_members (it_db w') = ik_members (it_db w)" "ik_campaigns (it_db w') = ik_campaigns (it_db w)" "i = ik_next (it_db w)"
    "ik_next (it_db w') = Suc i"
    "\<exists>r\<in>set (ik_resumes (it_db w')). rf_id r = i \<and> rf_candidate r = c \<and> rf_active r \<and> rf_status r = PS_PENDING \<and> rf_task r = None"
proof -
  obtain d where d: "next_version c path f h None None (it_db w) = (i, d)" "w' = commit (w\<lparr>it_db := d\<rparr>)"
    using assms(1) by (auto simp: create_next_version_def split: prod.splits)
  note n = next_version_fine[OF assms(2) d(1)]
  show "it_saved w' = it_db w'" "it_broker w' = it_broker w" "it_drawn w' = it_drawn w" "ik_tasks (it_db w') = ik_tasks (it_db w)"
    "ik_members (it_db w') = ik_members (it_db w)" "ik_campaigns (it_db w') = ik_campaigns (it_db w)" "i = ik_next (it_db w)"
    "ik_next (it_db w') = Suc i" using n d(2) by simp_all
  show "\<exists>r\<in>set (ik_resumes (it_db w')). rf_id r = i \<and> rf_candidate r = c \<and> rf_active r \<and> rf_status r = PS_PENDING \<and> rf_task r = None"
    using n(3) d(2) by auto
qed

lemma upload_file_processed:
  assumes "upload_file ev rq w = (Inr (r, True), w')" "it_saved w = it_db w" "versions_fine (it_db w)"
  shows "it_saved w' = it_db w'" "it_broker w' = it_broker w" "it_drawn w < it_drawn w'" "ik_tasks (it_db w') = ik_tasks (it_db w)"
    "ik_members (it_db w') = ik_members (it_db w)" "ik_campaigns (it_db w') = ik_campaigns (it_db w)" "ik_next (it_db w) \<le> r"
proof -
  obtain c path f h w1 w2 where s: "store_object ev f w = (Inr path, w1)"
      and p: "w2 = w1 \<or> (\<exists>e j s a role. get_or_create_person ev e j s a role w1 = (Inr c, w2))"
      and v: "create_next_version c path f h w2 = (r, w')"
    using assms(1) by (auto simp: upload_file_def Let_def split: sum.splits option.splits resolution.splits prod.splits) metis+
  have 1: "it_saved w1 = it_db w1" "versions_fine (it_db w1)" "it_db w1 = it_db w" "it_broker w1 = it_broker w" "it_drawn w1 = Suc (it_drawn w)"
    using store_frame[OF s] assms(2,3) by simp_all
  have 2: "it_saved w2 = it_db w2 \<and> it_broker w2 = it_broker w1 \<and> it_drawn w2 = it_drawn w1 \<and> ik_tasks (it_db w2) = ik_tasks (it_db w1)
      \<and> ik_members (it_db w2) = ik_members (it_db w1) \<and> ik_campaigns (it_db w2) = ik_campaigns (it_db w1)
      \<and> ik_next (it_db w1) \<le> ik_next (it_db w2) \<and> ik_resumes (it_db w2) = ik_resumes (it_db w1)"
    using p
  proof
    assume "\<exists>e j s a role. get_or_create_person ev e j s a role w1 = (Inr c, w2)"
    then obtain e j s a role where "get_or_create_person ev e j s a role w1 = (Inr c, w2)" by blast
    from person_frame[OF this 1(1)] show ?thesis by simp
  qed (use 1 in simp)
  then have "versions_fine (it_db w2)" using 1(2) versions_fine_cong[of "it_db w2" "it_db w1"] by simp
  note n = version_frame[OF v this]
  show "it_saved w' = it_db w'" "it_broker w' = it_broker w" "it_drawn w < it_drawn w'" "ik_tasks (it_db w') = ik_tasks (it_db w)"
    "ik_members (it_db w') = ik_members (it_db w)" "ik_campaigns (it_db w') = ik_campaigns (it_db w)" "ik_next (it_db w) \<le> r"
    using n 1 2 by simp_all
qed

lemma create_new:
  assumes "create_campaign_candidate camp c r a role w = (Inr m, w')" "\<forall>x\<in>set (ik_members (it_db w)). mb_resume x < r"
    and "\<forall>x\<in>set (ik_members (it_db w)). \<exists>q. mb_key x = (mb_campaign x, mb_candidate x, q)"
  shows "member_of camp c (it_db w) = None" "mb_campaign m = camp" "mb_candidate m = c" "mb_resume m = r"
    "ik_members (it_db w') = ik_members (it_db w) @ [m]" "it_saved w' = it_saved w"
    "it_broker w' = it_broker w" "it_drawn w' = it_drawn w" "ik_tasks (it_db w') = ik_tasks (it_db w)"
    "ik_campaigns (it_db w') = ik_campaigns (it_db w)"
proof -
  have none: "member_of camp c (it_db w) = None" using assms(1) by (auto simp: create_campaign_candidate_def Let_def split: option.splits if_splits)
  have key: "find (\<lambda>m. mb_key m = (camp, c, r)) (ik_members (it_db w)) = None"
    using none assms(3) by (fastforce simp: member_of_def find_None_iff)
  show "member_of camp c (it_db w) = None" by (rule none)
  show "mb_campaign m = camp" "mb_candidate m = c" "mb_resume m = r"
    "ik_members (it_db w') = ik_members (it_db w) @ [m]" "it_saved w' = it_saved w"
    "it_broker w' = it_broker w" "it_drawn w' = it_drawn w" "ik_tasks (it_db w') = ik_tasks (it_db w)"
    "ik_campaigns (it_db w') = ik_campaigns (it_db w)"
    using assms(1) key by (auto simp: create_campaign_candidate_def Let_def split: option.splits if_splits)
qed

text \<open>The keys of entries and tasks name rows that exist.\<close>

definition keys_fine :: "intake_db \<Rightarrow> bool" where
  "keys_fine d \<longleftrightarrow> (\<forall>m\<in>set (ik_members d). mb_resume m < ik_next d \<and> (\<exists>q. mb_key m = (mb_campaign m, mb_candidate m, q)))
     \<and> (\<forall>x\<in>set (ik_tasks d). \<forall>k r. tr_key x = Some (k, r) \<longrightarrow> r < ik_next d)"

text \<open>
  Property C34.  The answer to an upload that links an existing resume is positive and shows the
  new entry in the campaign, but the request ends without a commit: nothing of it is saved.
\<close>

theorem linked_resume_not_saved:
  assumes "in_session (upload_resume ev rq) w = (Inr a, w')" "\<not> ua_processing a" "keys_fine (it_saved w)"
  shows "it_saved w' = it_saved w \<and> it_broker w' = it_broker w
    \<and> mb_campaign (ua_member a) = up_campaign rq \<and> member_of (up_campaign rq) (mb_candidate (ua_member a)) (it_saved w') = None"
proof -
  obtain w2 where run: "upload_resume ev rq (rollback w) = (Inr a, w2)" "w' = rollback w2"
    using assms(1) by (auto simp: in_session_def split: prod.splits)
  have not_new: "ua_processing b" if "enqueue_processing ev r m ca x = (b, y)" for b r m ca x y
    using that by (auto simp: enqueue_processing_def Let_def split: prod.splits if_splits)
  obtain r w1 and rf :: resume_file and m where u: "upload_file ev rq (rollback w) = (Inr (r, False), w1)"
      and c: "create_campaign_candidate (up_campaign rq) (rf_candidate rf) r (up_by rq) (up_role rq) w1 = (Inr m, w2)" "ua_member a = m"
    using run(1) assms(2) by (auto simp: upload_resume_def Let_def split: sum.splits option.splits prod.splits if_splits dest!: not_new)
  have w1: "w1 = rollback w" using u by (auto simp: upload_file_def Let_def split: sum.splits option.splits resolution.splits prod.splits)
  have none: "member_of (up_campaign rq) (rf_candidate rf) (it_saved w) = None"
    using c(1) by (auto simp: w1 create_campaign_candidate_def Let_def split: option.splits if_splits)
  then have key: "find (\<lambda>m. mb_key m = (up_campaign rq, rf_candidate rf, r)) (ik_members (it_saved w)) = None"
    using assms(3) by (fastforce simp: member_of_def find_None_iff keys_fine_def)
  have "it_saved w2 = it_saved w \<and> it_broker w2 = it_broker w \<and> mb_campaign m = up_campaign rq \<and> mb_candidate m = rf_candidate rf"
    using c(1) key by (auto simp: w1 create_campaign_candidate_def Let_def split: option.splits if_splits)
  then show ?thesis using none run(2) c(2) by simp
qed

section \<open>Accepted uploads reach a worker\<close>

definition upload_row :: "intake_env \<Rightarrow> string \<Rightarrow> nat \<Rightarrow> bool \<Rightarrow> task_row" where
  "upload_row ev t r failed =
     \<lparr>tr_task = t, tr_type = document_type, tr_key = Some (document_type, r), tr_resume = Some r, tr_status = TK_QUEUED,
      tr_failed = failed, tr_queued = ie_clock ev, tr_started = None, tr_completed = False\<rparr>"

definition is_document_message :: "string \<Rightarrow> nat \<Rightarrow> message \<Rightarrow> bool" where
  "is_document_message t r m \<longleftrightarrow> ms_task m = ''resume.process_document'' \<and> ms_id m = t
     \<and> map_of (ms_args m) ''resume_id'' = Some (JNum (of_nat r))"

lemma enqueue_effect:
  assumes "enqueue_processing ev r m ca w = (a, w')" "it_saved w = it_db w"
    and "\<forall>x\<in>set (ik_tasks (it_db w)). tr_key x \<noteq> Some (document_type, r)" "\<forall>x\<in>set (ik_tasks (it_db w)). tr_task x \<noteq> ev_fresh ev (it_drawn w)"
  shows "a = \<lparr>ua_resume = r, ua_member = m, ua_task = Some (ev_fresh ev (it_drawn w)), ua_processing = True\<rparr>"
    "\<exists>failed. ik_tasks (it_saved w') = ik_tasks (it_db w) @ [upload_row ev (ev_fresh ev (it_drawn w)) r failed]
       \<and> (failed \<or> (\<exists>x\<in>set (it_broker w'). is_document_message (ev_fresh ev (it_drawn w)) r x))"
    "ik_members (it_saved w') = ik_members (it_db w)" "ik_campaigns (it_saved w') = ik_campaigns (it_db w)"
proof -
  let ?t = "ev_fresh ev (it_drawn w)"
  have no_key: "find (\<lambda>x. tr_key x = Some (document_type, r)) (ik_tasks (it_db w)) = None" using assms(3) by (auto simp: find_None_iff)
  have others: "map (\<lambda>x. if tr_task x = ?t then x\<lparr>tr_failed := True\<rparr> else x) (ik_tasks (it_db w)) = ik_tasks (it_db w)"
    using assms(4) by (auto intro: map_idI)
  show "a = \<lparr>ua_resume = r, ua_member = m, ua_task = Some ?t, ua_processing = True\<rparr>"
    using assms(1) no_key by (auto simp: enqueue_processing_def draw_id_def record_task_id_def create_if_new_key_def set_task_id_def Let_def split: prod.splits)
  show "\<exists>failed. ik_tasks (it_saved w') = ik_tasks (it_db w) @ [upload_row ev ?t r failed]
       \<and> (failed \<or> (\<exists>x\<in>set (it_broker w'). is_document_message ?t r x))"
  proof (cases "ev_send ev ''resume.process_document'' (document_args (Some r) ca)")
    case True
    then show ?thesis using assms(1) no_key
      by (intro exI[of _ False])
         (auto simp: enqueue_processing_def draw_id_def record_task_id_def create_if_new_key_def set_task_id_def upload_row_def
           send_document_def is_document_message_def document_args_def json_opt_def Let_def split: prod.splits if_splits)
  next
    case False
    then show ?thesis using assms(1) no_key others
      by (intro exI[of _ True])
         (auto simp: enqueue_processing_def draw_id_def record_task_id_def create_if_new_key_def set_task_id_def upload_row_def
           send_document_def mark_dispatch_failed_def edit_task_def Let_def split: prod.splits if_splits)
  qed
  show "ik_members (it_saved w') = ik_members (it_db w)" "ik_campaigns (it_saved w') = ik_campaigns (it_db w)"
    using assms(1) no_key
    by (auto simp: enqueue_processing_def draw_id_def record_task_id_def create_if_new_key_def set_task_id_def
        send_document_def mark_dispatch_failed_def edit_task_def Let_def split: prod.splits if_splits)
qed

text \<open>The scan redispatches a failed row of a resume whose entry has a campaign.\<close>

lemma recover_broker_grows:
  "set (it_broker w) \<subseteq> set (it_broker (snd (recover_queued ev x (n, w))))"
  "set (it_broker w) \<subseteq> set (it_broker (snd (recover_in_flight ev x (n, w))))"
  by (auto simp: recover_queued_def recover_in_flight_def claim_for_redispatch_def claim_in_flight_def send_document_def
      mark_dispatch_failed_def Let_def split: prod.splits if_splits option.splits)

lemma fold_broker_grows:
  assumes "\<And>x n w. set (it_broker w) \<subseteq> set (it_broker (snd (f x (n, w))))"
  shows "set (it_broker w) \<subseteq> set (it_broker (snd (fold f xs (n, w))))"
  by (induction xs arbitrary: n w) (simp, metis assms fold_simps(2) order_trans surj_pair snd_conv)

lemma recover_queued_other:
  assumes "tr_task x \<noteq> t"
  shows "(\<exists>y\<in>set (ik_tasks (it_db (snd (recover_queued ev x (n, w))))). tr_task y = t \<and> tr_failed y)
      \<longleftrightarrow> (\<exists>y\<in>set (ik_tasks (it_db w)). tr_task y = t \<and> tr_failed y)"
    "ik_members (it_db (snd (recover_queued ev x (n, w)))) = ik_members (it_db w)"
    "ik_campaigns (it_db (snd (recover_queued ev x (n, w)))) = ik_campaigns (it_db w)"
  using assms
  by (auto simp: recover_queued_def claim_for_redispatch_def send_document_def mark_dispatch_failed_def edit_task_def
      Let_def split: prod.splits if_splits option.splits)

lemma first_campaign_cong:
  "ik_members d = ik_members e \<Longrightarrow> ik_campaigns d = ik_campaigns e \<Longrightarrow> first_campaign r d = first_campaign r e"
  by (simp add: first_campaign_def members_of_resume_def campaign_of_def[abs_def] split: list.split)

lemma recover_sends:
  assumes "x \<in> set xs" "distinct (map tr_task xs)" "\<exists>y\<in>set (ik_tasks (it_db w)). tr_task y = tr_task x \<and> tr_failed y"
    and "tr_resume x = Some r" "first_campaign (Some r) (it_db w) = Some ca" "\<forall>args. ev_send ev ''resume.process_document'' args"
  shows "\<exists>m\<in>set (it_broker (snd (fold (recover_queued ev) xs (n, w)))). is_document_message (tr_task x) r m"
  using assms(1-3,5)
proof (induction xs arbitrary: n w)
  case (Cons y xs)
  show ?case
  proof (cases "x = y")
    case True
    have claim: "claim_for_redispatch (tr_task x) w = (True, commit (edit (edit_task (tr_task x) (\<lambda>x. x\<lparr>tr_failed := False\<rparr>)) w))"
      using Cons.prems(3) by (auto simp: claim_for_redispatch_def list_ex_iff)
    have "\<exists>m\<in>set (it_broker (snd (recover_queued ev x (n, w)))). is_document_message (tr_task x) r m"
      using Cons.prems(4) assms(4,6) claim
      by (simp add: recover_queued_def first_campaign_def members_of_resume_def edit_task_def campaign_of_def send_document_def
          is_document_message_def document_args_def json_opt_def Let_def split: list.splits option.splits)
    then show ?thesis using True fold_broker_grows[of "recover_queued ev" "snd (recover_queued ev x (n, w))" xs "fst (recover_queued ev x (n, w))"]
      recover_broker_grows(1) by (metis fold_simps(2) prod.collapse subsetD)
  next
    case False
    then have ne: "tr_task y \<noteq> tr_task x" using Cons.prems(1,2) by auto
    obtain n1 w1 where y: "recover_queued ev y (n, w) = (n1, w1)" by fastforce
    have "first_campaign (Some r) (it_db w1) = Some ca"
      using Cons.prems(4) recover_queued_other(2,3)[OF ne, of ev n w] y first_campaign_cong[of "it_db w1" "it_db w"] by simp
    then show ?thesis using Cons.IH[of w1 n1] Cons.prems recover_queued_other(1)[OF ne, of ev n w] False y by simp
  qed
qed simp

lemma upload_processed:
  assumes "in_session (upload_resume ev rq) w = (Inr a, w')" "ua_processing a" "versions_fine (it_saved w)" "keys_fine (it_saved w)"
    and "\<forall>n\<ge>it_drawn w. ev_fresh ev n \<notin> tr_task ` set (ik_tasks (it_saved w))"
  obtains t r failed ca where "ua_task a = Some t" "ua_resume a = r" "t \<notin> tr_task ` set (ik_tasks (it_saved w))"
    "ik_tasks (it_saved w') = ik_tasks (it_saved w) @ [upload_row ev t r failed]"
    "failed \<or> (\<exists>x\<in>set (it_broker w'). is_document_message t r x)" "first_campaign (Some r) (it_saved w') = Some ca"
proof -
  obtain w4 where run: "upload_resume ev rq (rollback w) = (Inr a, w4)" "w' = rollback w4"
    using assms(1) by (auto simp: in_session_def split: prod.splits)
  obtain ca r w1 and rf :: resume_file and m w2 where pre: "precheck_campaign_eligibility (up_campaign rq) (it_saved w) = Inr ca"
      and u: "upload_file ev rq (rollback w) = (Inr (r, True), w1)"
      and c: "create_campaign_candidate (up_campaign rq) (rf_candidate rf) r (up_by rq) (up_role rq) w1 = (Inr m, w2)"
      and e: "enqueue_processing ev r m ca (commit (edit (log_intake (up_by rq) None ''RESUME_UPLOADED'' r
                [(''candidate_id'', JNum (of_nat (rf_candidate rf)))]) w2)) = (a, w4)"
    using run(1) assms(2) by (auto simp: upload_resume_def Let_def split: sum.splits option.splits prod.splits if_splits)
  have v: "it_saved (rollback w) = it_db (rollback w)" "versions_fine (it_db (rollback w))" using assms(3) by simp_all
  note uf = upload_file_processed[OF u v, unfolded session_simps]
  have less: "\<forall>x\<in>set (ik_members (it_db w1)). mb_resume x < r" "\<forall>x\<in>set (ik_members (it_db w1)). \<exists>q. mb_key x = (mb_campaign x, mb_candidate x, q)"
    using assms(4) uf(5,7) by (auto simp: keys_fine_def)
  note cn = create_new[OF c less]
  define w3 where "w3 = commit (edit (log_intake (up_by rq) None ''RESUME_UPLOADED'' r [(''candidate_id'', JNum (of_nat (rf_candidate rf)))]) w2)"
  have w3: "it_saved w3 = it_db w3" "ik_tasks (it_db w3) = ik_tasks (it_saved w)" "ik_members (it_db w3) = ik_members (it_saved w) @ [m]"
    "ik_campaigns (it_db w3) = ik_campaigns (it_saved w)" "it_drawn w < it_drawn w3"
    using uf cn by (simp_all add: w3_def)
  have key: "\<forall>x\<in>set (ik_tasks (it_db w3)). tr_key x \<noteq> Some (document_type, r)"
    using assms(4) w3(2) uf(7) by (auto simp: keys_fine_def not_le)
  have fresh: "\<forall>x\<in>set (ik_tasks (it_db w3)). tr_task x \<noteq> ev_fresh ev (it_drawn w3)"
    using assms(5) w3(2,5) by (metis imageI less_imp_le_nat)
  note en = enqueue_effect[OF e[folded w3_def] w3(1) key fresh]
  obtain failed where f: "ik_tasks (it_saved w4) = ik_tasks (it_db w3) @ [upload_row ev (ev_fresh ev (it_drawn w3)) r failed]"
      "failed \<or> (\<exists>x\<in>set (it_broker w4). is_document_message (ev_fresh ev (it_drawn w3)) r x)" using en(2) by blast
  have ca: "campaign_of (up_campaign rq) (it_saved w) = Some ca"
    using pre by (auto simp: precheck_campaign_eligibility_def split: option.splits if_splits)
  have "filter (\<lambda>x. mb_resume x = r) (ik_members (it_saved w)) = []"
    using less(1) uf(5) by (auto simp: filter_empty_conv)
  then have "first_campaign (Some r) (it_saved w4) = Some ca"
    using en(3,4) w3(3,4) cn(2,4) ca by (simp add: first_campaign_def members_of_resume_def campaign_of_def)
  moreover have "ev_fresh ev (it_drawn w3) \<notin> tr_task ` set (ik_tasks (it_saved w))" using fresh w3(2) by auto
  ultimately show thesis using that[of "ev_fresh ev (it_drawn w3)" r failed ca] en(1) f w3(2) run(2) by simp
qed

text \<open>Between the upload and the first scan that finds the broker up, the row stays where a scan looks.\<close>

definition queued_row :: "string \<Rightarrow> nat \<Rightarrow> intake \<Rightarrow> bool" where
  "queued_row t r w \<longleftrightarrow> (\<exists>x\<in>set (ik_tasks (it_db w)). tr_task x = t \<and> tr_type x = document_type \<and> tr_status x = TK_QUEUED
     \<and> tr_failed x \<and> tr_resume x = Some r)"

definition awaits_worker :: "string \<Rightarrow> nat \<Rightarrow> campaign_row \<Rightarrow> intake \<Rightarrow> bool" where
  "awaits_worker t r ca w \<longleftrightarrow> it_saved w = it_db w \<and> distinct (map tr_task (ik_tasks (it_db w)))
     \<and> first_campaign (Some r) (it_db w) = Some ca
     \<and> ((\<exists>m\<in>set (it_broker w). is_document_message t r m) \<or> queued_row t r w)"

lemma awaits_kept:
  assumes "awaits_worker t r ca w" "it_saved w' = it_db w'" "map tr_task (ik_tasks (it_db w')) = map tr_task (ik_tasks (it_db w))"
    and "ik_members (it_db w') = ik_members (it_db w)" "ik_campaigns (it_db w') = ik_campaigns (it_db w)"
    and "set (it_broker w) \<subseteq> set (it_broker w')"
    and "queued_row t r w \<Longrightarrow> (\<exists>m\<in>set (it_broker w'). is_document_message t r m) \<or> queued_row t r w'"
  shows "awaits_worker t r ca w'"
  using assms first_campaign_cong[OF assms(4,5)] unfolding awaits_worker_def by auto

lemma edit_task_keys: "(\<And>x. tr_task (f x) = tr_task x) \<Longrightarrow> map tr_task (ik_tasks (edit_task t f d)) = map tr_task (ik_tasks d)"
  by (simp add: edit_task_def)

lemma recover_frame:
  assumes "it_saved w = it_db w"
  shows "it_saved (snd (recover_queued ev x (n, w))) = it_db (snd (recover_queued ev x (n, w)))"
    "map tr_task (ik_tasks (it_db (snd (recover_queued ev x (n, w))))) = map tr_task (ik_tasks (it_db w))"
    "ik_members (it_db (snd (recover_queued ev x (n, w)))) = ik_members (it_db w)"
    "ik_campaigns (it_db (snd (recover_queued ev x (n, w)))) = ik_campaigns (it_db w)"
    "it_saved (snd (recover_in_flight ev x (n, w))) = it_db (snd (recover_in_flight ev x (n, w)))"
    "map tr_task (ik_tasks (it_db (snd (recover_in_flight ev x (n, w))))) = map tr_task (ik_tasks (it_db w))"
    "ik_members (it_db (snd (recover_in_flight ev x (n, w)))) = ik_members (it_db w)"
    "ik_campaigns (it_db (snd (recover_in_flight ev x (n, w)))) = ik_campaigns (it_db w)"
  using assms
  by (auto simp: recover_queued_def recover_in_flight_def claim_for_redispatch_def claim_in_flight_def send_document_def
      mark_dispatch_failed_def edit_task_def Let_def split: prod.splits if_splits option.splits)

lemma awaits_recover_queued:
  assumes "awaits_worker t r ca w" "tr_task x = t \<Longrightarrow> tr_resume x = Some r"
  shows "awaits_worker t r ca (snd (recover_queued ev x (n, w)))"
proof (rule awaits_kept[OF assms(1)])
  have saved: "it_saved w = it_db w" and ca: "first_campaign (Some r) (it_db w) = Some ca" using assms(1) by (simp_all add: awaits_worker_def)
  note f = recover_frame(1-4)[OF saved, of ev x n]
  show "it_saved (snd (recover_queued ev x (n, w))) = it_db (snd (recover_queued ev x (n, w)))"
    "map tr_task (ik_tasks (it_db (snd (recover_queued ev x (n, w))))) = map tr_task (ik_tasks (it_db w))"
    "ik_members (it_db (snd (recover_queued ev x (n, w)))) = ik_members (it_db w)"
    "ik_campaigns (it_db (snd (recover_queued ev x (n, w)))) = ik_campaigns (it_db w)" by (fact f)+
  show "set (it_broker w) \<subseteq> set (it_broker (snd (recover_queued ev x (n, w))))" by (rule recover_broker_grows(1))
  assume row: "queued_row t r w"
  show "(\<exists>m\<in>set (it_broker (snd (recover_queued ev x (n, w)))). is_document_message t r m) \<or> queued_row t r (snd (recover_queued ev x (n, w)))"
  proof (cases "tr_task x = t")
    case False
    then show ?thesis using row
      by (fastforce simp: queued_row_def recover_queued_def claim_for_redispatch_def send_document_def mark_dispatch_failed_def
          edit_task_def Let_def split: prod.splits if_splits option.splits)
  next
    case True
    let ?w1 = "commit (edit (edit_task t (\<lambda>x. x\<lparr>tr_failed := False\<rparr>)) w)"
    have "claim_for_redispatch t w = (True, ?w1)"
      using row by (auto simp: claim_for_redispatch_def queued_row_def list_ex_iff)
    moreover have "first_campaign (Some r) (it_db ?w1) = Some ca"
      using ca first_campaign_cong[of "it_db ?w1" "it_db w"] by (simp add: edit_task_def)
    ultimately have run: "recover_queued ev x (n, w) =
        (let (sent, w2) = send_document ev (Some r) ca t ?w1 in if sent then (Suc n, w2) else (n, mark_dispatch_failed t w2))"
      using True assms(2) by (simp add: recover_queued_def Let_def split: prod.split)
    show ?thesis
    proof (cases "ev_send ev ''resume.process_document'' (document_args (Some r) ca)")
      case True
      then show ?thesis unfolding run by (simp add: send_document_def is_document_message_def document_args_def json_opt_def Let_def)
    next
      case False
      have "queued_row t r (mark_dispatch_failed t ?w1)"
      proof -
        obtain y where y: "y \<in> set (ik_tasks (it_db w))" "tr_task y = t" "tr_type y = document_type" "tr_status y = TK_QUEUED"
          "tr_failed y" "tr_resume y = Some r" using row by (auto simp: queued_row_def)
        have tasks: "ik_tasks (it_db (mark_dispatch_failed t ?w1))
            = map (\<lambda>y. if tr_task y = t then y\<lparr>tr_failed := True\<rparr> else y) (ik_tasks (it_db w))"
          by (simp add: mark_dispatch_failed_def edit_task_def)
        have "y\<lparr>tr_failed := True\<rparr> = y" using y(5) by (cases y) simp
        then have "y \<in> set (ik_tasks (it_db (mark_dispatch_failed t ?w1)))"
          unfolding tasks set_map using y(1,2) by (intro image_eqI[of _ _ y]) simp_all
        then show ?thesis using y unfolding queued_row_def by blast
      qed
      then show ?thesis using False unfolding run by (simp add: send_document_def)
    qed
  qed
qed

lemma awaits_recover_in_flight:
  assumes "awaits_worker t r ca w"
  shows "awaits_worker t r ca (snd (recover_in_flight ev x (n, w)))"
proof (rule awaits_kept[OF assms])
  have saved: "it_saved w = it_db w" and d: "distinct (map tr_task (ik_tasks (it_db w)))" using assms by (simp_all add: awaits_worker_def)
  note f = recover_frame(5-8)[OF saved, of ev x n]
  show "it_saved (snd (recover_in_flight ev x (n, w))) = it_db (snd (recover_in_flight ev x (n, w)))"
    "map tr_task (ik_tasks (it_db (snd (recover_in_flight ev x (n, w))))) = map tr_task (ik_tasks (it_db w))"
    "ik_members (it_db (snd (recover_in_flight ev x (n, w)))) = ik_members (it_db w)"
    "ik_campaigns (it_db (snd (recover_in_flight ev x (n, w)))) = ik_campaigns (it_db w)" by (fact f)+
  show "set (it_broker w) \<subseteq> set (it_broker (snd (recover_in_flight ev x (n, w))))" by (rule recover_broker_grows(2))
  assume row: "queued_row t r w"
  then obtain y where y: "y \<in> set (ik_tasks (it_db w))" "tr_task y = t" "tr_type y = document_type" "tr_status y = TK_QUEUED"
      "tr_failed y" "tr_resume y = Some r" by (auto simp: queued_row_def)
  have "queued_row t r (snd (recover_in_flight ev x (n, w)))"
  proof (cases "tr_task x = t")
    case True
    have "z = y" if "z \<in> set (ik_tasks (it_db w))" "tr_task z = t" for z
      using that y(1,2) d by (simp add: distinct_map inj_on_def)
    then have "fst (claim_in_flight (tr_task x) w) = False" "snd (claim_in_flight (tr_task x) w) = w"
      using True y(4) by (auto simp: claim_in_flight_def list_ex_iff)
    then have "snd (recover_in_flight ev x (n, w)) = w"
      by (cases "claim_in_flight (tr_task x) w") (auto simp: recover_in_flight_def split: option.split)
    then show ?thesis using row by simp
  next
    case False
    then show ?thesis using y
      by (auto simp: queued_row_def recover_in_flight_def claim_in_flight_def send_document_def edit_task_def Let_def image_iff Bex_def
          split: prod.splits if_splits option.splits)
  qed
  then show "(\<exists>m\<in>set (it_broker (snd (recover_in_flight ev x (n, w)))). is_document_message t r m)
      \<or> queued_row t r (snd (recover_in_flight ev x (n, w)))" by simp
qed

lemma fold_awaits:
  assumes "\<And>x n w. x \<in> set xs \<Longrightarrow> awaits_worker t r ca w \<Longrightarrow> awaits_worker t r ca (snd (f x (n, w)))" "awaits_worker t r ca w"
  shows "awaits_worker t r ca (snd (fold f xs (n, w)))"
  using assms by (induction xs arbitrary: n w) (simp, metis (no_types, lifting) fold_simps(2) list.set_intros surj_pair snd_conv)

text \<open>Every row of the task belongs to the resume: the id is unique.\<close>

definition row_of_resume :: "string \<Rightarrow> nat \<Rightarrow> intake \<Rightarrow> bool" where
  "row_of_resume t r w \<longleftrightarrow> (\<forall>x\<in>set (ik_tasks (it_db w)). tr_task x = t \<longrightarrow> tr_resume x = Some r)"

lemma rows_kept:
  "row_of_resume t r w \<Longrightarrow> row_of_resume t r (snd (recover_queued ev x (n, w)))"
  "row_of_resume t r w \<Longrightarrow> row_of_resume t r (snd (recover_in_flight ev x (n, w)))"
  by (auto simp: row_of_resume_def recover_queued_def recover_in_flight_def claim_for_redispatch_def claim_in_flight_def send_document_def
      mark_dispatch_failed_def edit_task_def Let_def split: prod.splits if_splits option.splits)

lemma fold_rows:
  assumes "\<And>x n w. row_of_resume t r w \<Longrightarrow> row_of_resume t r (snd (f x (n, w)))" "row_of_resume t r w"
  shows "row_of_resume t r (snd (fold f xs (n, w)))"
  using assms by (induction xs arbitrary: n w) (simp, metis (no_types, lifting) fold_simps(2) surj_pair snd_conv)

lemma awaits_scan:
  assumes "awaits_worker t r ca w" "row_of_resume t r w"
  shows "awaits_worker t r ca (serve ev (IR_Recover live) w) \<and> row_of_resume t r (serve ev (IR_Recover live) w)"
proof -
  let ?w = "rollback w" and ?xs = "get_queued_dispatch_failed (it_db w)"
  have eq: "?w = w" using assms(1) by (simp add: awaits_worker_def rollback_def)
  obtain n1 w1 where one: "fold (recover_queued ev) ?xs (0, w) = (n1, w1)" by fastforce
  have "awaits_worker t r ca (snd (fold (recover_queued ev) ?xs (0, w)))"
    using assms(2) by (intro fold_awaits[OF _ assms(1)] awaits_recover_queued) (auto simp: get_queued_dispatch_failed_def row_of_resume_def)
  moreover have "row_of_resume t r (snd (fold (recover_queued ev) ?xs (0, w)))" by (rule fold_rows[OF _ assms(2)]) (rule rows_kept(1))
  ultimately have w1: "awaits_worker t r ca w1" "row_of_resume t r w1" using one by simp_all
  have "awaits_worker t r ca (snd (recover_stalled_uploads ev live w)) \<and> row_of_resume t r (snd (recover_stalled_uploads ev live w))"
  proof (cases live)
    case None
    then show ?thesis using one w1 by (simp add: recover_stalled_uploads_def)
  next
    case (Some ids)
    let ?ys = "filter (\<lambda>x. tr_task x \<notin> set ids) (get_stalled_in_flight (ie_clock ev - 60 * stalled_in_flight_minutes) (it_db w1))"
    have "awaits_worker t r ca (snd (fold (recover_in_flight ev) ?ys (n1, w1)))"
      by (rule fold_awaits[OF _ w1(1)]) (rule awaits_recover_in_flight)
    moreover have "row_of_resume t r (snd (fold (recover_in_flight ev) ?ys (n1, w1)))"
      by (rule fold_rows[OF _ w1(2)]) (rule rows_kept(2))
    ultimately show ?thesis using one Some by (simp add: recover_stalled_uploads_def)
  qed
  moreover from this have "rollback (snd (recover_stalled_uploads ev live w)) = snd (recover_stalled_uploads ev live w)"
    by (simp add: awaits_worker_def rollback_def)
  ultimately show ?thesis by (simp add: in_session_def eq split: prod.split) (metis snd_conv)
qed

lemma awaits_scans:
  assumes "awaits_worker t r ca w" "row_of_resume t r w"
  shows "awaits_worker t r ca (fold (\<lambda>(ev, live). serve ev (IR_Recover live)) scans w)
    \<and> row_of_resume t r (fold (\<lambda>(ev, live). serve ev (IR_Recover live)) scans w)"
  using assms
proof (induction scans arbitrary: w)
  case (Cons s scans)
  obtain ev live where s: "s = (ev, live)" by fastforce
  show ?case using Cons.IH[of "serve ev (IR_Recover live) w"] awaits_scan[OF Cons.prems, of ev live] by (simp add: s del: serve.simps)
qed simp

lemma scan_sends:
  assumes "awaits_worker t r ca w" "\<forall>args. ev_send ev ''resume.process_document'' args"
  shows "\<exists>m\<in>set (it_broker (serve ev (IR_Recover live) w)). is_document_message t r m"
proof -
  have eq: "rollback w = w" using assms(1) by (simp add: awaits_worker_def rollback_def)
  let ?xs = "get_queued_dispatch_failed (it_db w)"
  obtain n1 w1 where scan: "fold (recover_queued ev) ?xs (0, w) = (n1, w1)" by fastforce
  have "(\<exists>m\<in>set (it_broker w). is_document_message t r m) \<or> queued_row t r w" using assms(1) by (simp add: awaits_worker_def)
  then have "\<exists>m\<in>set (it_broker w1). is_document_message t r m"
  proof
    assume "queued_row t r w"
    then obtain x where x: "x \<in> set ?xs" "tr_task x = t" "tr_resume x = Some r" "x \<in> set (ik_tasks (it_db w))" "tr_failed x"
      by (auto simp: queued_row_def get_queued_dispatch_failed_def)
    have d: "distinct (map tr_task ?xs)"
      using assms(1) by (simp add: awaits_worker_def get_queued_dispatch_failed_def distinct_map_filter)
    have ca: "first_campaign (Some r) (it_db w) = Some ca" using assms(1) by (simp add: awaits_worker_def)
    have "\<exists>y\<in>set (ik_tasks (it_db w)). tr_task y = tr_task x \<and> tr_failed y" using x(4,5) by blast
    from recover_sends[OF x(1) d this x(3) ca assms(2), of 0] scan x(2) show ?thesis by simp
  next
    assume "\<exists>m\<in>set (it_broker w). is_document_message t r m"
    then show ?thesis using fold_broker_grows[of "recover_queued ev" w ?xs 0] recover_broker_grows(1) scan by fastforce
  qed
  moreover have "set (it_broker w1) \<subseteq> set (it_broker (serve ev (IR_Recover live) w))"
    using scan fold_broker_grows[of "recover_in_flight ev" w1] recover_broker_grows(2)
    by (simp add: in_session_def eq recover_stalled_uploads_def split: option.split prod.split) (metis snd_conv)
  ultimately show ?thesis by blast
qed

text \<open>
  Property C33.  An accepted upload reaches a worker: after it and any number of recovery scans,
  each finding the broker up or down, the next scan that finds it up has sent the message of its
  task, if it was not sent before.
\<close>

theorem accepted_upload_is_sent:
  assumes "in_session (upload_resume ev rq) w = (Inr a, w')" "ua_processing a" "versions_fine (it_saved w)" "keys_fine (it_saved w)"
    and "\<forall>n\<ge>it_drawn w. ev_fresh ev n \<notin> tr_task ` set (ik_tasks (it_saved w))" "distinct (map tr_task (ik_tasks (it_saved w)))"
    and "\<forall>args. ev_send ev' ''resume.process_document'' args"
  shows "\<exists>t. ua_task a = Some t
    \<and> (\<exists>m\<in>set (it_broker (serve ev' (IR_Recover live) (fold (\<lambda>(e, l). serve e (IR_Recover l)) scans w'))).
         is_document_message t (ua_resume a) m)"
proof -
  obtain t r failed ca where up: "ua_task a = Some t" "ua_resume a = r" "t \<notin> tr_task ` set (ik_tasks (it_saved w))"
    "ik_tasks (it_saved w') = ik_tasks (it_saved w) @ [upload_row ev t r failed]"
    "failed \<or> (\<exists>x\<in>set (it_broker w'). is_document_message t r x)" "first_campaign (Some r) (it_saved w') = Some ca"
    by (rule upload_processed[OF assms(1-5)]) blast
  have saved: "it_db w' = it_saved w'" using assms(1) by (auto simp: in_session_def split: prod.splits)
  have "awaits_worker t r ca w'"
    using up(3-6) assms(6) saved by (auto simp: awaits_worker_def queued_row_def upload_row_def)
  moreover have "row_of_resume t r w'" using up(3,4) saved by (auto simp: row_of_resume_def upload_row_def)
  ultimately have "awaits_worker t r ca (fold (\<lambda>(e, l). serve e (IR_Recover l)) scans w')" by (rule awaits_scans[THEN conjunct1])
  from scan_sends[OF this assms(7)] up(1,2) show ?thesis by blast
qed

section \<open>A refused upload\<close>

text \<open>
  Property C35.  Uploading a known file anyway, with a form whose e-mail passes the check for entries in the
  campaign and a storage that accepts the file: the entry of the candidate of the known file is looked
  for only after the new version is saved.  The request is refused, the new version stays as the
  active one, unparsed and without a task, and the version parsed before is no longer active.
\<close>

theorem refused_upload_replaces_version:
  assumes "precheck_campaign_eligibility (up_campaign rq) (it_saved w) = Inr ca"
    and "check_no_existing_campaign_membership ev (up_campaign rq) (up_email rq) (it_saved w) = Inr ()"
    and "validate_file ev (up_bytes rq) (up_name rq) = Inr f" "get_by_file_hash_global (ie_md5 ev (up_bytes rq)) (it_saved w) = Some m"
    and "up_resolution rq = Some UPLOAD_ANYWAY" "\<forall>path. ie_store ev path"
    and "member_of (up_campaign rq) (rf_candidate m) (it_saved w) = Some e" "versions_fine (it_saved w)"
  shows "\<exists>w'. in_session (upload_resume ev rq) w = (Inl (IK_Member (mb_id e)), w')
    \<and> (\<exists>r\<in>set (ik_resumes (it_saved w')). rf_candidate r = rf_candidate m \<and> rf_active r \<and> rf_status r = PS_PENDING \<and> rf_task r = None)
    \<and> (\<forall>x\<in>set (ik_resumes (it_saved w')). rf_candidate x = rf_candidate m \<and> rf_active x
         \<longrightarrow> rf_id x \<notin> rf_id ` set (ik_resumes (it_saved w)))
    \<and> ik_tasks (it_saved w') = ik_tasks (it_saved w) \<and> it_broker w' = it_broker w"
proof -
  obtain path w1 where s: "store_object ev f (rollback w) = (Inr path, w1)"
    using assms(6) by (simp add: store_object_def draw_id_def Let_def)
  note sf = store_frame[OF s, unfolded session_simps]
  obtain i w2 where v: "create_next_version (rf_candidate m) path f (ie_md5 ev (up_bytes rq)) w1 = (i, w2)" by fastforce
  have fine: "versions_fine (it_db w1)" using sf(1) assms(8) by simp
  note vf = version_frame[OF v fine]
  have up: "upload_file ev rq (rollback w) = (Inr (i, True), w2)" using assms(3-5) s v by (simp add: upload_file_def)
  obtain r where r: "r \<in> set (ik_resumes (it_db w2))" "rf_id r = i" "rf_candidate r = rf_candidate m" "rf_active r"
      "rf_status r = PS_PENDING" "rf_task r = None" using vf(9) by blast
  have after: "versions_fine (it_db w2)"
    using next_version_fine(1)[OF fine] v by (auto simp: create_next_version_def split: prod.splits)
  have one: "x = r" if "x \<in> set (ik_resumes (it_db w2))" "rf_candidate x = rf_candidate m" "rf_active x" for x
  proof -
    obtain n where n: "versions_of (rf_candidate m) (version_keys (it_db w2)) = numbered n" using after by (auto simp: versions_fine_def)
    have last: "rf_version y = n" if "y \<in> set (ik_resumes (it_db w2))" "rf_candidate y = rf_candidate m" "rf_active y" for y
    proof -
      have "(rf_version y, True) \<in> set (versions_of (rf_candidate m) (version_keys (it_db w2)))"
        using that by (force simp: versions_of_filter)
      then show ?thesis by (auto simp: n numbered_def)
    qed
    have "distinct (map rf_version (filter (\<lambda>r. rf_candidate r = rf_candidate m) (ik_resumes (it_db w2))))"
    proof -
      have "map fst (versions_of (rf_candidate m) (version_keys (it_db w2))) = [1..<Suc n]" unfolding n numbered_def by (simp add: comp_def)
      then show ?thesis by (simp add: versions_of_filter comp_def)
    qed
    then show ?thesis using last[of x] last[of r] that r(1,3,4) by (simp add: distinct_map inj_on_def)
  qed
  have "inj_on rf_id (set (ik_resumes (it_db w2)))" using after by (simp add: versions_fine_def distinct_map)
  then have only: "x = r" if "x \<in> set (ik_resumes (it_db w2))" "rf_id x = i" for x
    by (rule inj_onD) (simp_all add: that r(1,2))
  have found: "resume_by_id i (it_db w2) = Some r"
    unfolding resume_by_id_def using r(1,2) only by (rule find_unique)
  have "create_campaign_candidate (up_campaign rq) (rf_candidate r) i (up_by rq) (up_role rq) w2 = (Inl (IK_Member (mb_id e)), rollback w2)"
  proof -
    have "member_of (up_campaign rq) (rf_candidate m) (it_db w2) = Some e" using assms(7) vf(5) sf(1) by (simp add: member_of_def)
    moreover have "campaign_of (up_campaign rq) (it_db w2) = Some ca"
      using assms(1) vf(6) sf(1) by (auto simp: precheck_campaign_eligibility_def campaign_of_def split: option.splits if_splits)
    ultimately show ?thesis using r(3) by (simp add: create_campaign_candidate_def)
  qed
  then have run: "in_session (upload_resume ev rq) w = (Inl (IK_Member (mb_id e)), rollback (rollback w2))"
    using assms(1,2) up found by (simp add: in_session_def upload_resume_def)
  have saved: "it_saved w2 = it_db w2" by (rule vf(1))
  have "rf_id r \<notin> rf_id ` set (ik_resumes (it_saved w))"
    using r(2) vf(7) sf(1) assms(8) by (auto simp: versions_fine_def)
  then have new: "rf_id x \<notin> rf_id ` set (ik_resumes (it_saved w))"
    if "x \<in> set (ik_resumes (it_db w2))" "rf_candidate x = rf_candidate m" "rf_active x" for x
    using one[OF that] by simp
  show ?thesis
  proof (intro exI[of _ "rollback (rollback w2)"] conjI run)
    show "\<exists>r\<in>set (ik_resumes (it_saved (rollback (rollback w2)))).
        rf_candidate r = rf_candidate m \<and> rf_active r \<and> rf_status r = PS_PENDING \<and> rf_task r = None"
      using r saved by (intro bexI[of _ r]) simp_all
    show "\<forall>x\<in>set (ik_resumes (it_saved (rollback (rollback w2)))). rf_candidate x = rf_candidate m \<and> rf_active x
         \<longrightarrow> rf_id x \<notin> rf_id ` set (ik_resumes (it_saved w))"
      using new saved by simp
  qed (use vf(2,4) sf(1,3) saved in simp_all)
qed

section \<open>A retry that finds the broker down\<close>

definition document_messages :: "nat \<Rightarrow> intake \<Rightarrow> message list" where
  "document_messages r w = filter (\<lambda>m. map_of (ms_args m) ''resume_id'' = Some (JNum (of_nat r))) (it_broker w)"

definition unfinished :: "task_row \<Rightarrow> bool" where
  "unfinished x \<longleftrightarrow> tr_status x \<in> {TK_QUEUED, TK_RUNNING, TK_RETRY}"

definition stuck :: "nat \<Rightarrow> string set \<Rightarrow> nat set \<Rightarrow> intake_db \<Rightarrow> bool" where
  "stuck r T L d \<longleftrightarrow> (\<exists>rf. resume_by_id r d = Some rf \<and> rf_status rf = PS_PENDING)
     \<and> (\<forall>x\<in>set (ik_tasks d). (tr_resume x = Some r \<longrightarrow> tr_task x \<in> T) \<and> (tr_task x \<in> T \<longrightarrow> \<not> unfinished x))
     \<and> (\<forall>x\<in>set (ik_dlq d). dq_resume x = Some r \<longrightarrow> dq_replayed_by x \<noteq> None \<or> dq_id x \<in> L)"

definition stranded :: "nat \<Rightarrow> string set \<Rightarrow> nat set \<Rightarrow> message list \<Rightarrow> intake \<Rightarrow> bool" where
  "stranded r T L ms w \<longleftrightarrow> stuck r T L (it_saved w) \<and> stuck r T L (it_db w) \<and> document_messages r w = ms"

lemma send_other:
  assumes "send_document ev q ca t w = (b, w')" "q \<noteq> Some r" "stranded r T L ms w"
  shows "stranded r T L ms w'"
  using assms by (cases q) (auto simp: send_document_def stranded_def document_messages_def document_args_def json_opt_def Let_def split: if_splits)

lemma stuck_edit_task:
  assumes "stuck r T L d" "t \<notin> T" "\<And>x. tr_task (f x) = tr_task x \<and> tr_resume (f x) = tr_resume x"
  shows "stuck r T L (edit_task t f d)"
  using assms by (auto simp: stuck_def edit_task_def resume_by_id_def)

lemma stranded_edit_task:
  assumes "stranded r T L ms w" "t \<notin> T" "\<And>x. tr_task (f x) = tr_task x \<and> tr_resume (f x) = tr_resume x"
  shows "stranded r T L ms (commit (edit (edit_task t f) w))"
  using assms stuck_edit_task[of r T L "it_db w" t f] by (simp add: stranded_def document_messages_def)

lemma recover_queued_stranded:
  assumes "stranded r T L ms w" "tr_task x \<notin> T" "tr_resume x \<noteq> Some r"
  shows "stranded r T L ms (snd (recover_queued ev x (n, w)))"
proof -
  obtain mine w1 where c: "claim_for_redispatch (tr_task x) w = (mine, w1)" by fastforce
  have w1: "stranded r T L ms w1"
    using c assms(1,2) by (auto simp: claim_for_redispatch_def intro!: stranded_edit_task split: if_splits)
  then have failed: "stranded r T L ms (mark_dispatch_failed (tr_task x) w1)"
    unfolding mark_dispatch_failed_def by (intro stranded_edit_task) (use assms in auto)
  show ?thesis
  proof (cases "first_campaign (tr_resume x) (it_db w1)")
    case None
    then show ?thesis using c w1 failed by (auto simp: recover_queued_def Let_def)
  next
    case (Some ca)
    obtain sent w2 where s: "send_document ev (tr_resume x) ca (tr_task x) w1 = (sent, w2)" by fastforce
    have w2: "stranded r T L ms w2" by (rule send_other[OF s assms(3) w1])
    then have "stranded r T L ms (mark_dispatch_failed (tr_task x) w2)"
      unfolding mark_dispatch_failed_def by (intro stranded_edit_task) (use assms in auto)
    then show ?thesis using c s Some w1 w2 by (auto simp: recover_queued_def Let_def)
  qed
qed

lemma recover_in_flight_stranded:
  assumes "stranded r T L ms w" "tr_task x \<notin> T" "tr_resume x \<noteq> Some r"
  shows "stranded r T L ms (snd (recover_in_flight ev x (n, w)))"
proof (cases "first_campaign (tr_resume x) (it_db w)")
  case None
  then show ?thesis using assms by (simp add: recover_in_flight_def)
next
  case (Some ca)
  obtain mine w1 where c: "claim_in_flight (tr_task x) w = (mine, w1)" by fastforce
  have w1: "stranded r T L ms w1"
    using c assms(1,2) by (auto simp: claim_in_flight_def intro!: stranded_edit_task split: if_splits)
  obtain sent w2 where s: "send_document ev (tr_resume x) ca (tr_task x) w1 = (sent, w2)" by fastforce
  have "stranded r T L ms w2" by (rule send_other[OF s assms(3) w1])
  then show ?thesis using c s Some w1 by (auto simp: recover_in_flight_def Let_def)
qed

lemma fold_stranded:
  assumes "\<And>x n w. x \<in> set xs \<Longrightarrow> stranded r T L ms w \<Longrightarrow> stranded r T L ms (snd (f x (n, w)))" "stranded r T L ms w"
  shows "stranded r T L ms (snd (fold f xs (n, w)))"
  using assms by (induction xs arbitrary: n w) (simp, metis (no_types, lifting) fold_simps(2) list.set_intros surj_pair snd_conv)

lemma scanned_other:
  assumes "stranded r T L ms w" "x \<in> set (ik_tasks (it_db w))" "unfinished x"
  shows "tr_task x \<notin> T" "tr_resume x \<noteq> Some r"
  using assms by (auto simp: stranded_def stuck_def)

lemma recover_stranded:
  assumes "stranded r T L ms w"
  shows "stranded r T L ms (snd (recover_stalled_uploads ev live w))"
proof -
  obtain n1 w1 where one: "fold (recover_queued ev) (get_queued_dispatch_failed (it_db w)) (0, w) = (n1, w1)" by fastforce
  have "stranded r T L ms (snd (fold (recover_queued ev) (get_queued_dispatch_failed (it_db w)) (0, w)))"
    using scanned_other[OF assms]
    by (intro fold_stranded[OF _ assms] recover_queued_stranded) (auto simp: get_queued_dispatch_failed_def unfinished_def)
  then have w1: "stranded r T L ms w1" using one by simp
  show ?thesis
  proof (cases live)
    case None
    then show ?thesis using one w1 by (simp add: recover_stalled_uploads_def)
  next
    case (Some ids)
    have "stranded r T L ms (snd (fold (recover_in_flight ev)
        (filter (\<lambda>x. tr_task x \<notin> set ids) (get_stalled_in_flight (ie_clock ev - 60 * stalled_in_flight_minutes) (it_db w1))) (n1, w1)))"
      using scanned_other[OF w1]
      by (intro fold_stranded[OF _ w1] recover_in_flight_stranded)
         (auto simp: get_stalled_in_flight_def stalled_in_flight_def unfinished_def)
    then show ?thesis using one Some by (simp add: recover_stalled_uploads_def)
  qed
qed

lemma resume_reparse:
  "resume_by_id r (reparse q t d) = map_option (\<lambda>x. if rf_id x = q then x\<lparr>rf_status := PS_PENDING, rf_task := Some t\<rparr> else x) (resume_by_id r d)"
proof -
  have "ik_resumes (reparse q t d) = map (\<lambda>x. if rf_id x = q then x\<lparr>rf_status := PS_PENDING, rf_task := Some t\<rparr> else x) (ik_resumes d)"
    by (auto simp: reparse_def set_task_id_def set_parse_status_def)
  then show ?thesis unfolding resume_by_id_def by (simp add: find_map_update)
qed

lemma reparse_frame [simp]:
  "ik_tasks (reparse q t d) = ik_tasks d" "ik_dlq (reparse q t d) = ik_dlq d"
  by (simp_all add: reparse_def set_task_id_def set_parse_status_def)

lemma resume_log [simp]: "resume_by_id r (log_intake a b c i e d) = resume_by_id r d"
  "resume_by_id r (d\<lparr>ik_dlq := q\<rparr>) = resume_by_id r d"
  by (simp_all add: resume_by_id_def)

lemma stuck_reparse:
  assumes "stuck r T L d"
  shows "stuck r T L (reparse q t d)"
proof -
  obtain rf where "resume_by_id r d = Some rf" "rf_status rf = PS_PENDING" using assms by (auto simp: stuck_def)
  then have "\<exists>x. resume_by_id r (reparse q t d) = Some x \<and> rf_status x = PS_PENDING" by (simp add: resume_reparse)
  then show ?thesis using assms by (simp add: stuck_def)
qed

lemma resend_stranded:
  assumes "resend ev q ca t w = (x, w')" "q \<noteq> r" "stranded r T L ms w"
  shows "stranded r T L ms w'"
  using assms by (auto simp: resend_def Let_def split: prod.splits intro: send_other)

lemma draw_stranded: "draw_id ev w = (t, w') \<Longrightarrow> stranded r T L ms w \<Longrightarrow> stranded r T L ms w'"
  by (auto simp: draw_id_def stranded_def document_messages_def)

lemma commit_stranded:
  assumes "stranded r T L ms w" "stuck r T L (f (it_db w))"
  shows "stranded r T L ms (commit (edit f w))"
  using assms by (simp add: stranded_def document_messages_def)

lemma retry_stranded:
  assumes "retry_parse ev q actor role w = (x, w')" "stranded r T L ms w"
  shows "stranded r T L ms w'" "q = r \<Longrightarrow> x = Inl (IK_Not_Failed PS_PENDING)"
proof -
  obtain rf where rf: "resume_by_id r (it_db w) = Some rf" "rf_status rf = PS_PENDING" using assms(2) by (auto simp: stranded_def stuck_def)
  show "stranded r T L ms w'"
  proof (cases "q = r")
    case True
    then show ?thesis using assms rf by (simp add: retry_parse_def)
  next
    case False
    have "stuck r T L (log_intake actor role a q e (reparse q t d))" if st: "stuck r T L d" for a e t d
      using stuck_reparse[OF st] by (simp add: stuck_def)
    then show ?thesis using assms False
      by (auto simp: retry_parse_def split: option.splits if_splits prod.splits intro!: commit_stranded
          dest!: resend_stranded draw_stranded) (auto simp: stranded_def)
  qed
  show "x = Inl (IK_Not_Failed PS_PENDING)" if "q = r" using assms(1) that rf by (simp add: retry_parse_def)
qed

lemma replay_stranded:
  assumes "replay_from_dlq ev i actor role w = (x, w')" "stranded r T L ms w" "i \<notin> L"
  shows "stranded r T L ms w'"
proof (cases "find (\<lambda>x. dq_id x = i) (ik_dlq (it_db w))")
  case None
  then show ?thesis using assms by (simp add: replay_from_dlq_def)
next
  case (Some y)
  have y: "y \<in> set (ik_dlq (it_db w))" "dq_id y = i" using find_Some_set[OF Some] by simp_all
  show ?thesis
  proof (cases "dq_replayed_by y = None")
    case False
    then show ?thesis using assms Some by (auto simp: replay_from_dlq_def)
  next
    case True
    then have ne: "dq_resume y \<noteq> Some r" using assms(2,3) y by (auto simp: stranded_def stuck_def)
    have marked: "stuck r T L (log_intake actor role a q e ((reparse q t d)\<lparr>ik_dlq := map (\<lambda>y. if dq_id y = i then y\<lparr>dq_replayed_by := Some actor\<rparr> else y) (ik_dlq d)\<rparr>))"
      if st: "stuck r T L d" for a e q t d
    proof -
      obtain rf :: resume_file where "resume_by_id r (reparse q t d) = Some rf" "rf_status rf = PS_PENDING"
        using stuck_reparse[OF st, of q t] by (auto simp: stuck_def)
      then show ?thesis using st by (auto simp: stuck_def)
    qed
    show ?thesis using assms(1,2) Some True ne
      by (auto simp: replay_from_dlq_def split: option.splits if_splits prod.splits intro!: commit_stranded marked
          dest!: resend_stranded draw_stranded) (auto simp: stranded_def)
  qed
qed

text \<open>The repairs: retries, recovery scans, and the replays of dead letters that are not in \<open>L\<close>.\<close>

fun is_repair :: "nat set \<Rightarrow> intake_request \<Rightarrow> bool" where
  "is_repair L (IR_Retry _ _ _) = True"
| "is_repair L (IR_Replay i _ _) = (i \<notin> L)"
| "is_repair L (IR_Recover _) = True"
| "is_repair L _ = False"

definition open_letters :: "nat \<Rightarrow> intake_db \<Rightarrow> nat set" where
  "open_letters r d = dq_id ` {x \<in> set (ik_dlq d). dq_resume x = Some r \<and> dq_replayed_by x = None}"

lemma rollback_stranded: "stranded r T L ms w \<Longrightarrow> stranded r T L ms (rollback w)"
  by (simp add: stranded_def document_messages_def)

lemma repair_stranded:
  assumes "is_repair L q" "stranded r T L ms w"
  shows "stranded r T L ms (serve ev q w)"
proof -
  note start = rollback_stranded[OF assms(2)]
  show ?thesis
  proof (cases q)
    case (IR_Retry i actor role)
    then show ?thesis using retry_stranded(1)[OF _ start]
      by (auto simp: in_session_def split: prod.split intro: rollback_stranded)
  next
    case (IR_Replay i actor role)
    then show ?thesis using replay_stranded[OF _ start] assms(1)
      by (auto simp: in_session_def split: prod.split intro: rollback_stranded)
  next
    case (IR_Recover live)
    then show ?thesis using recover_stranded[OF start, of ev live]
      by (auto simp: in_session_def split: prod.split intro!: rollback_stranded)
  qed (use assms in simp_all)
qed

text \<open>
  Property C36.  A retry of a failed resume whose tasks have ended that finds the broker down has set
  the resume to pending and sent nothing, and only a replay of a dead letter of that resume that was
  never replayed can bring it back: no later retry is accepted, and no recovery scan and no replay of
  any other dead letter sends a message for it, whatever the state of the broker.
\<close>

theorem retry_without_broker_strands:
  assumes "in_session (retry_parse ev r actor role) w = (Inl IK_Broker, w')" "distinct (map tr_task (ik_tasks (it_saved w)))"
    and "\<forall>x\<in>set (ik_tasks (it_saved w)). tr_resume x = Some r \<longrightarrow> \<not> unfinished x"
    and "\<forall>q\<in>set rs. is_repair (open_letters r (it_saved w)) (snd q)"
  shows "document_messages r (fold (\<lambda>(ev, q). serve ev q) rs w') = document_messages r w
    \<and> fst (in_session (retry_parse ev' r actor' role') (fold (\<lambda>(ev, q). serve ev q) rs w')) = Inl (IK_Not_Failed PS_PENDING)"
proof -
  define L where "L = open_letters r (it_saved w)"
  define T where "T = tr_task ` {x \<in> set (ik_tasks (it_saved w)). tr_resume x = Some r}"
  obtain w2 where run: "retry_parse ev r actor role (rollback w) = (Inl IK_Broker, w2)" "w' = rollback w2"
    using assms(1) by (auto simp: in_session_def split: prod.splits)
  obtain rf ca t where rf: "resume_by_id r (it_saved w) = Some rf" "ca = the (resolve_owning_campaign r (it_saved w))"
      "t = ev_fresh ev (it_drawn w)" and w2: "w2 = commit (edit (\<lambda>d. log_intake actor role ''RESUME_UPLOAD_RETRIED'' r
         [(''new_task_id'', JStr t)] (reparse r t d)) ((rollback w)\<lparr>it_drawn := Suc (it_drawn w)\<rparr>))"
    using run(1) by (auto simp: retry_parse_def resend_def send_document_def draw_id_def Let_def split: option.splits if_splits)
  have rows: "\<forall>x\<in>set (ik_tasks (it_saved w)). (tr_resume x = Some r \<longrightarrow> tr_task x \<in> T) \<and> (tr_task x \<in> T \<longrightarrow> \<not> unfinished x)"
  proof (intro ballI conjI impI)
    fix x assume x: "x \<in> set (ik_tasks (it_saved w))"
    show "tr_task x \<in> T" if "tr_resume x = Some r" using x that by (simp add: T_def)
    show "\<not> unfinished x" if tT: "tr_task x \<in> T"
    proof -
      obtain y where "y \<in> set (ik_tasks (it_saved w))" "tr_resume y = Some r" "tr_task y = tr_task x" using tT by (auto simp: T_def)
      then show ?thesis using assms(2,3) x by (auto simp: distinct_map inj_on_def)
    qed
  qed
  have "rf_id rf = r" using find_Some_set[OF rf(1)[unfolded resume_by_id_def]] by simp
  then have "stuck r T L (it_saved w')"
    using rf(1) rows by (auto simp: L_def open_letters_def run(2) w2 stuck_def resume_reparse edit_def commit_def rollback_def)
  then have start: "stranded r T L (document_messages r w) w'"
    by (simp add: stranded_def run(2) w2 document_messages_def edit_def commit_def rollback_def)
  have "stranded r T L (document_messages r w) (fold (\<lambda>(ev, q). serve ev q) rs w')"
    using start assms(4)[folded L_def]
  proof (induction rs arbitrary: w')
    case (Cons q rs)
    obtain e q' where q: "q = (e, q')" by fastforce
    show ?case using Cons.IH[of "serve e q' w'"] Cons.prems repair_stranded[of L q' r T _ w' e] q by simp
  qed simp
  then have last: "stranded r T L (document_messages r w) (rollback (fold (\<lambda>(ev, q). serve ev q) rs w'))" by (rule rollback_stranded)
  obtain x w3 where again: "retry_parse ev' r actor' role' (rollback (fold (\<lambda>(ev, q). serve ev q) rs w')) = (x, w3)" by fastforce
  show ?thesis using retry_stranded(2)[OF again last refl] last again
    by (simp add: in_session_def stranded_def document_messages_def)
qed

end
