(* ===== verification/Resume_Intake_Examples.thy ===== *)
theory Resume_Intake_Examples
  imports Resume_Intake_Outcomes Campaign_Lifecycle_Props
begin

text \<open>Concrete requests at which the properties of the resume intake apply.\<close>

definition intake_sample :: "bool \<Rightarrow> intake_env" where
  "intake_sample up =
     \<lparr>ev_send = (\<lambda>_ _. up), ev_fresh = (\<lambda>n. replicate n CHR ''x''), ie_guess = (\<lambda>b. Some ''PDF''), ie_intact = (\<lambda>_ _. True),
      ie_md5 = (\<lambda>b. b), ie_digest = (\<lambda>e. e), ie_encrypt = True, ie_store = (\<lambda>_. True), ie_config = [], ie_clock = 0\<rparr>"

definition intake_rows :: "candidate_row list \<Rightarrow> resume_file list \<Rightarrow> member list \<Rightarrow> task_row list \<Rightarrow> intake_db" where
  "intake_rows ps rs ms ts =
     \<lparr>ik_campaigns = [open_campaign None], ik_people = ps, ik_consents = [], ik_resumes = rs, ik_members = ms, ik_history = [],
      ik_audit = [], ik_tasks = ts, ik_dlq = [], ik_breakers = [], ik_next = 9\<rparr>"

definition intake_start :: "intake_db \<Rightarrow> intake" where
  "intake_start d = \<lparr>it_saved = d, it_db = d, it_broker = [], it_storage = [], it_drawn = 0\<rparr>"

definition upload_sample :: "resolution option \<Rightarrow> upload_request" where
  "upload_sample res =
     \<lparr>up_campaign = ca_id (open_campaign None), up_bytes = ''cv'', up_name = ''cv.pdf'', up_email = ''new'', up_juris = ''EU'', up_by = ''hr'',
      up_role = Some HR_ADMIN, up_resolution = res\<rparr>"

definition first_version :: "parse_status \<Rightarrow> resume_file" where
  "first_version s = \<lparr>rf_id = 3, rf_candidate = 2, rf_path = ''p'', rf_format = FF_PDF, rf_hash = ''cv'', rf_version = 1,
     rf_active = True, rf_status = s, rf_task = Some ''t'', rf_job = None\<rparr>"

definition first_member :: member where
  "first_member = \<lparr>mb_id = 4, mb_campaign = ca_id (open_campaign None), mb_candidate = 2, mb_resume = 3, mb_stage = UPLOADED,
     mb_key = (ca_id (open_campaign None), 2, 3)\<rparr>"

definition owner_row :: candidate_row where
  "owner_row = \<lparr>pn_id = 2, pn_email = ''old'', pn_consent = None, pn_erasure = False, pn_deleted = False\<rparr>"

definition intake_done :: "parse_status \<Rightarrow> member list \<Rightarrow> intake_db" where
  "intake_done s ms = intake_rows [owner_row] [first_version s] ms []"

lemma first_version_fine: "versions_fine (intake_rows ps [first_version s] ms ts)"
proof -
  have "versions_of c [version_key (first_version s)] = numbered (if c = 2 then 1 else 0)" for c
    by (simp add: versions_of_def numbered_def version_key_def first_version_def)
  then show ?thesis by (auto simp: versions_fine_def intake_rows_def first_version_def)
qed

lemma versions_stay_numbered_witness:
  "versions_fine (it_saved (fold (\<lambda>(ev, r). serve ev r)
     [(intake_sample False, IR_Upload (upload_sample (Some UPLOAD_ANYWAY))), (intake_sample True, IR_Recover None)]
     (intake_start (intake_done PS_PARSED []))))"
proof (rule versions_stay_numbered)
  show "versions_fine (it_saved (intake_start (intake_done PS_PARSED [])))"
    by (simp add: intake_start_def intake_done_def first_version_fine)
qed

lemma linked_resume_not_saved_witness:
  "\<exists>a w'. in_session (upload_resume (intake_sample True) (upload_sample (Some USE_EXISTING))) (intake_start (intake_done PS_PARSED [])) = (Inr a, w')
     \<and> ua_resume a = 3 \<and> it_saved w' = intake_done PS_PARSED []"
proof -
  let ?run = "in_session (upload_resume (intake_sample True) (upload_sample (Some USE_EXISTING))) (intake_start (intake_done PS_PARSED []))"
  have "(case fst ?run of Inl e \<Rightarrow> None | Inr a \<Rightarrow> Some (ua_resume a, ua_processing a)) = Some (3, False)" by code_simp
  then obtain a w' where run: "?run = (Inr a, w')" "ua_resume a = 3" "\<not> ua_processing a" by (cases ?run) (auto split: sum.splits)
  have start: "it_saved (intake_start (intake_done PS_PARSED [])) = intake_done PS_PARSED []" by (simp add: intake_start_def)
  have "keys_fine (intake_done PS_PARSED [])" by (simp add: keys_fine_def intake_done_def intake_rows_def)
  then show ?thesis using linked_resume_not_saved[OF run(1,3)] run unfolding start by blast
qed

lemma accepted_upload_is_sent_witness:
  "\<exists>a w' t. in_session (upload_resume (intake_sample False) (upload_sample None)) (intake_start (intake_rows [] [] [] [])) = (Inr a, w')
     \<and> it_broker w' = [] \<and> ua_task a = Some t
     \<and> (\<exists>m. m \<in> set (it_broker (serve (intake_sample True) (IR_Recover None) (serve (intake_sample False) (IR_Recover None) w')))
          \<and> is_document_message t (ua_resume a) m)"
proof -
  let ?w = "intake_start (intake_rows [] [] [] [])"
  let ?run = "in_session (upload_resume (intake_sample False) (upload_sample None)) ?w"
  have "(case fst ?run of Inl e \<Rightarrow> None | Inr a \<Rightarrow> Some (ua_processing a)) = Some True" by code_simp
  then obtain a w' where run: "?run = (Inr a, w')" "ua_processing a" by (cases ?run) (auto split: sum.splits)
  have "map ms_id (it_broker (snd ?run)) = []" by code_simp
  then have none: "it_broker w' = []" using run(1) by simp
  have v: "versions_fine (it_saved ?w)" "keys_fine (it_saved ?w)"
    "\<forall>n\<ge>it_drawn ?w. ev_fresh (intake_sample False) n \<notin> tr_task ` set (ik_tasks (it_saved ?w))" "distinct (map tr_task (ik_tasks (it_saved ?w)))"
    by (auto simp: versions_fine_def keys_fine_def intake_start_def intake_rows_def versions_of_def numbered_def intro: exI[of _ 0])
  have up: "\<forall>args. ev_send (intake_sample True) ''resume.process_document'' args" by (simp add: intake_sample_def)
  obtain t where "ua_task a = Some t"
    "\<exists>m\<in>set (it_broker (serve (intake_sample True) (IR_Recover None) (fold (\<lambda>(e, l). serve e (IR_Recover l)) [(intake_sample False, None)] w'))).
       is_document_message t (ua_resume a) m"
    using accepted_upload_is_sent[OF run v up] by blast
  then show ?thesis using run(1) none by (auto simp del: serve.simps)
qed

lemma refused_upload_replaces_version_witness:
  "\<exists>w'. in_session (upload_resume (intake_sample True) (upload_sample (Some UPLOAD_ANYWAY))) (intake_start (intake_done PS_PARSED [first_member]))
       = (Inl (IK_Member 4), w') \<and> it_broker w' = [] \<and> ik_tasks (it_saved w') = []"
proof -
  let ?w = "intake_start (intake_done PS_PARSED [first_member])" and ?rq = "upload_sample (Some UPLOAD_ANYWAY)" and ?ev = "intake_sample True"
  have pre: "precheck_campaign_eligibility (up_campaign ?rq) (it_saved ?w) = Inr (open_campaign None)" by code_simp
  have free: "check_no_existing_campaign_membership ?ev (up_campaign ?rq) (up_email ?rq) (it_saved ?w) = Inr ()" by code_simp
  have fits: "validate_file ?ev (up_bytes ?rq) (up_name ?rq) = Inr FF_PDF" by code_simp
  have known: "get_by_file_hash_global (ie_md5 ?ev (up_bytes ?rq)) (it_saved ?w) = Some (first_version PS_PARSED)" by code_simp
  have res: "up_resolution ?rq = Some UPLOAD_ANYWAY" "\<forall>path. ie_store ?ev path" by (simp_all add: upload_sample_def intake_sample_def)
  have entry: "member_of (up_campaign ?rq) (rf_candidate (first_version PS_PARSED)) (it_saved ?w) = Some first_member" by code_simp
  have fine: "versions_fine (it_saved ?w)" by (simp add: intake_start_def intake_done_def first_version_fine)
  have start: "ik_tasks (it_saved ?w) = []" "it_broker ?w = []" "mb_id first_member = 4"
    by (simp_all add: intake_start_def intake_done_def intake_rows_def first_member_def)
  show ?thesis using refused_upload_replaces_version[OF pre free fits known res entry fine] unfolding start by blast
qed

lemma retry_without_broker_strands_witness:
  "\<exists>w'. in_session (retry_parse (intake_sample False) 3 ''hr'' None) (intake_start (intake_done PS_FAILED [first_member])) = (Inl IK_Broker, w')
     \<and> fst (in_session (retry_parse (intake_sample True) 3 ''hr'' None)
          (fold (\<lambda>(ev, q). serve ev q) [(intake_sample True, IR_Recover (Some []))] w')) = Inl (IK_Not_Failed PS_PENDING)"
proof -
  let ?w = "intake_start (intake_done PS_FAILED [first_member])"
  let ?run = "in_session (retry_parse (intake_sample False) 3 ''hr'' None) ?w"
  have "(case fst ?run of Inl IK_Broker \<Rightarrow> True | _ \<Rightarrow> False)" by code_simp
  then obtain w' where run: "?run = (Inl IK_Broker, w')"
    by (cases ?run) (auto split: sum.splits intake_error.splits)
  have none: "ik_tasks (it_saved ?w) = []" "ik_dlq (it_saved ?w) = []" by (simp_all add: intake_start_def intake_done_def intake_rows_def)
  show ?thesis
    using retry_without_broker_strands[OF run, of "[(intake_sample True, IR_Recover (Some []))]" "intake_sample True" "''hr''" None] run
    by (simp add: none)
qed

end
