(* ===== verification/Bulk_Upload.thy ===== *)
theory Bulk_Upload
  imports Resume_Intake Score_Rounding
begin

text \<open>
  Bulk uploads: the request that stores a ZIP archive (\<open>services/bulk_upload/bulk_upload_service.py\<close>,
  \<open>zip_validation_service.py\<close>), the task that unpacks it and the task that parses one file
  (\<open>tasks/bulk_upload_tasks.py\<close>), the counters of a job
  (\<open>repositories/bulk_upload_job_repository.py\<close>, \<open>bulk_upload_job_file_repository.py\<close>).

  The tasks are cut at their commits, so that requests and other tasks can come in between: an
  extraction begins, stages, opens the job and publishes; a parse claims its file, saves the
  resume, counts its outcome, and closes: it finalizes the job and ends its log row.  What the parser makes of a file is a parameter of each run, as are the archive
  format, the storage and the broker.  Ids are drawn from a counter; the names of campaign and job
  in object paths are left out.
\<close>

section \<open>Jobs, files and runs\<close>

datatype file_status = BF_QUEUED | BF_RUNNING | BF_PROCESSED | BF_FAILED | BF_CANCELLED

record upload_job = bulk_job +
  uj_by :: string
  uj_zip :: string
  uj_consent :: bool
  uj_juris :: string
  uj_total :: int
  uj_queued :: int
  uj_processed :: int
  uj_failed :: int
  uj_duplicate :: int
  uj_error :: "string option"
  uj_ended :: bool

record job_file =
  jf_id :: nat
  jf_job :: nat
  jf_name :: string
  jf_path :: string
  jf_status :: file_status
  jf_task :: string

datatype extract_phase = XP_Begun | XP_Staged "nat list" | XP_Opened "nat list"
datatype run_phase = RP_Claimed | RP_Saved nat

text \<open>How a run that has counted its outcome ends its log row.\<close>

datatype file_end = FE_Failed | FE_Success "nat option"

text \<open>
  Messages and runs of the parse task: task, file, attempt.  A run that is in \<open>bw_runs\<close> or
  \<open>bw_extracting\<close> has the worker's next step before it; one in \<open>bw_closing\<close> (task, job) has
  committed the counters and has yet to finalize the job and to end its log row.
\<close>

record bulk_world =
  bw_in :: intake
  bw_jobs :: "upload_job list"
  bw_files :: "job_file list"
  bw_objects :: "(string \<times> string) list"
  bw_failures :: "stage_failure list"
  bw_next :: nat
  bw_extracts :: "(string \<times> nat) list"
  bw_extracting :: "(string \<times> nat \<times> extract_phase) list"
  bw_queue :: "(string \<times> nat \<times> nat) list"
  bw_runs :: "(string \<times> nat \<times> nat \<times> run_phase) list"
  bw_closing :: "(string \<times> nat \<times> file_end) list"

record bulk_env = intake_env +
  be_mime :: "string \<Rightarrow> string option"
  be_unzip :: "string \<Rightarrow> (string \<times> string) list option"
  be_reach :: "string \<Rightarrow> bool"

datatype bulk_error =
    BE_Intake intake_error | BE_Extension | BE_Archive | BE_Zip_Size | BE_Storage | BE_Broker
  | BE_No_Job | BE_Ended bulk_status | BE_Not_Replayable bulk_status | BE_No_File | BE_Not_Failed file_status
  | BE_No_Letter

definition find_job :: "nat \<Rightarrow> bulk_world \<Rightarrow> upload_job option" where
  "find_job i w = find (\<lambda>j. bj_id j = i) (bw_jobs w)"

definition find_file :: "nat \<Rightarrow> bulk_world \<Rightarrow> job_file option" where
  "find_file i w = find (\<lambda>f. jf_id f = i) (bw_files w)"

definition set_job :: "nat \<Rightarrow> (upload_job \<Rightarrow> upload_job) \<Rightarrow> bulk_world \<Rightarrow> bulk_world" where
  "set_job i g w = w\<lparr>bw_jobs := map (\<lambda>j. if bj_id j = i then g j else j) (bw_jobs w)\<rparr>"

definition set_file :: "nat \<Rightarrow> (job_file \<Rightarrow> job_file) \<Rightarrow> bulk_world \<Rightarrow> bulk_world" where
  "set_file i g w = w\<lparr>bw_files := map (\<lambda>f. if jf_id f = i then g f else f) (bw_files w)\<rparr>"

text \<open>\<open>update_status\<close>: an error or an end that is not given stays as it was.\<close>

definition update_job_status :: "nat \<Rightarrow> bulk_status \<Rightarrow> string option \<Rightarrow> bool \<Rightarrow> bulk_world \<Rightarrow> bulk_world" where
  "update_job_status i s err ended =
     set_job i (\<lambda>j. j\<lparr>bj_status := s, uj_error := (case err of None \<Rightarrow> uj_error j | Some e \<Rightarrow> Some e), uj_ended := (ended \<or> uj_ended j)\<rparr>)"

definition update_file_status :: "nat \<Rightarrow> file_status \<Rightarrow> bulk_world \<Rightarrow> bulk_world" where
  "update_file_status i s = set_file i (\<lambda>f. f\<lparr>jf_status := s\<rparr>)"

definition on_tasks :: "(intake_db \<Rightarrow> intake_db) \<Rightarrow> bulk_world \<Rightarrow> bulk_world" where
  "on_tasks g w = w\<lparr>bw_in := commit (edit g (rollback (bw_in w)))\<rparr>"

definition draw_task :: "bulk_env \<Rightarrow> bulk_world \<Rightarrow> string \<times> bulk_world" where
  "draw_task ev w = (let (t, i) = draw_id (intake_env.truncate ev) (bw_in w) in (t, w\<lparr>bw_in := i\<rparr>))"

section \<open>The task log\<close>

definition log_row :: "intake_env \<Rightarrow> string \<Rightarrow> string \<Rightarrow> task_row" where
  "log_row ev t type = \<lparr>tr_task = t, tr_type = type, tr_key = None, tr_resume = None, tr_status = TK_QUEUED, tr_failed = False,
     tr_queued = ie_clock ev, tr_started = None, tr_completed = False\<rparr>"

definition has_log :: "string \<Rightarrow> bulk_world \<Rightarrow> bool" where
  "has_log t w \<longleftrightarrow> list_ex (\<lambda>x. tr_task x = t) (ik_tasks (it_saved (bw_in w)))"

definition log_created :: "bulk_env \<Rightarrow> string \<Rightarrow> string \<Rightarrow> bulk_world \<Rightarrow> bulk_world" where
  "log_created ev t type = on_tasks (\<lambda>d. d\<lparr>ik_tasks := ik_tasks d @ [log_row (intake_env.truncate ev) t type]\<rparr>)"

definition log_running :: "bulk_env \<Rightarrow> string \<Rightarrow> bulk_world \<Rightarrow> bulk_world" where
  "log_running ev t = on_tasks (edit_task t (\<lambda>x. x\<lparr>tr_status := TK_RUNNING,
     tr_started := Some (case tr_started x of None \<Rightarrow> ie_clock ev | Some s \<Rightarrow> s)\<rparr>))"

definition log_ended :: "string \<Rightarrow> task_status \<Rightarrow> bulk_world \<Rightarrow> bulk_world" where
  "log_ended t s = on_tasks (edit_task t (\<lambda>x. x\<lparr>tr_status := s, tr_completed := True\<rparr>))"

definition log_success :: "string \<Rightarrow> string \<Rightarrow> nat option \<Rightarrow> bulk_world \<Rightarrow> bulk_world" where
  "log_success t type r = on_tasks (\<lambda>d. edit_task t (\<lambda>x. x\<lparr>tr_resume := (if r = None then tr_resume x else r), tr_status := TK_SUCCESS, tr_completed := True\<rparr>)
     (d\<lparr>ik_dlq := resolve_open type None r (ik_dlq d)\<rparr>))"

section \<open>The request\<close>

definition zip_max_mb :: "bulk_env \<Rightarrow> rat" where
  "zip_max_mb ev = (case map_of (ie_config ev) ''ZIP_MAX_SIZE_MB'' of None \<Rightarrow> 500 | Some m \<Rightarrow> m)"

definition max_files_per_zip :: "bulk_env \<Rightarrow> int" where
  "max_files_per_zip ev =
     (case map_of (ie_config ev) ''MAX_FILES_PER_ZIP'' of None \<Rightarrow> 200 | Some m \<Rightarrow> if of_int \<lfloor>m\<rfloor> = m then \<lfloor>m\<rfloor> else 200)"

definition validate_zip :: "bulk_env \<Rightarrow> string \<Rightarrow> string \<Rightarrow> (bulk_error, unit) result" where
  "validate_zip ev bytes name =
     (if claimed_extension name \<noteq> ''zip'' then Inl BE_Extension
      else if be_mime ev bytes \<noteq> Some ''application/zip'' \<and> be_mime ev bytes \<noteq> Some ''application/x-zip-compressed'' then Inl BE_Archive
      else if of_nat (length bytes) > zip_max_mb ev * 1024 * 1024 then Inl BE_Zip_Size else Inr ())"

definition upload_zip ::
    "bulk_env \<Rightarrow> nat \<Rightarrow> string \<Rightarrow> string \<Rightarrow> string \<Rightarrow> bool \<Rightarrow> string \<Rightarrow> bulk_world \<Rightarrow> (bulk_error, nat \<times> string) result \<times> bulk_world" where
  "upload_zip ev camp bytes name by consent juris w =
     (case precheck_campaign_eligibility camp (it_saved (bw_in w)) of
        Inl e \<Rightarrow> (Inl (BE_Intake e), w)
      | Inr ca \<Rightarrow>
          (case validate_zip ev bytes name of
             Inl e \<Rightarrow> (Inl e, w)
           | Inr _ \<Rightarrow>
               let (u, w1) = draw_task ev w; path = ''bulk-zip/'' @ u @ ''.zip'' in
               if \<not> ie_store ev path then (Inl BE_Storage, w1)
               else
                 let i = bw_next w1;
                     job = \<lparr>bj_id = i, bj_campaign = camp, bj_status = BU_PENDING, uj_by = by, uj_zip = path, uj_consent = consent,
                       uj_juris = juris, uj_total = 0, uj_queued = 0, uj_processed = 0, uj_failed = 0, uj_duplicate = 0,
                       uj_error = None, uj_ended = False\<rparr>;
                     w2 = w1\<lparr>bw_objects := (path, bytes) # bw_objects w1, bw_jobs := bw_jobs w1 @ [job], bw_next := Suc i\<rparr>;
                     (t, w3) = draw_task ev w2
                 in if ev_send ev ''bulk_upload.extract_zip'' [(''task_id'', JStr t), (''bulk_upload_job_id'', JNum (of_nat i))]
                    then (Inr (i, t), w3\<lparr>bw_extracts := bw_extracts w3 @ [(t, i)]\<rparr>) else (Inl BE_Broker, w3)))"

section \<open>Extraction\<close>

text \<open>The log row of a task is unique: a second delivery of the same task fails here.\<close>

definition begin_extract :: "bulk_env \<Rightarrow> string \<Rightarrow> nat \<Rightarrow> bulk_world \<Rightarrow> bulk_world" where
  "begin_extract ev t i w =
     (if has_log t w then w
      else let w1 = log_created ev t ''BULK_EXTRACT'' w in
        (case find_job i w1 of
           None \<Rightarrow> log_ended t TK_FAILURE w1
         | Some j \<Rightarrow>
             if \<not> uj_consent j
             then log_ended t TK_FAILURE (update_job_status i BU_FAILED (Some ''Bulk upload rejected'') False w1)
             else (update_job_status i BU_EXTRACTING None False w1)\<lparr>bw_extracting := bw_extracting w1 @ [(t, i, XP_Begun)]\<rparr>))"

definition base_name :: "string \<Rightarrow> string" where
  "base_name f = rev (takeWhile (\<lambda>c. c \<noteq> CHR ''/'') (rev f))"

definition real_entry :: "string \<Rightarrow> bool" where
  "real_entry f \<longleftrightarrow> \<not> (f \<noteq> [] \<and> last f = CHR ''/'') \<and> \<not> starts_with ''__MACOSX/'' f
     \<and> base_name f \<noteq> [] \<and> hd (base_name f) \<noteq> CHR ''.''"

definition stored_path :: "string \<Rightarrow> string \<Rightarrow> string" where
  "stored_path u name = ''bulk-zip/'' @ u @ ''_'' @ base_name name"

text \<open>The entries are stored one by one; \<open>None\<close>: the storage refused one, with the paths stored before.\<close>

fun store_entries ::
    "bulk_env \<Rightarrow> nat \<Rightarrow> (string \<times> string) list \<Rightarrow> bulk_world \<Rightarrow> (job_file list option \<times> string list) \<times> bulk_world" where
  "store_entries ev i [] w = ((Some [], []), w)"
| "store_entries ev i ((name, bytes) # es) w =
     (let (u, w1) = draw_task ev w; path = stored_path u name in
      if \<not> ie_store ev path then ((None, []), w1)
      else (let (t, w2) = draw_task ev (w1\<lparr>bw_objects := (path, bytes) # bw_objects w1\<rparr>);
                f = \<lparr>jf_id = bw_next w2, jf_job = i, jf_name = base_name name, jf_path = path, jf_status = BF_QUEUED, jf_task = t\<rparr>;
                ((fs, ps), w3) = store_entries ev i es (w2\<lparr>bw_next := Suc (bw_next w2)\<rparr>)
            in ((map_option (Cons f) fs, path # ps), w3)))"

definition delete_objects :: "string list \<Rightarrow> bulk_world \<Rightarrow> bulk_world" where
  "delete_objects ps w = w\<lparr>bw_objects := filter (\<lambda>(p, b). p \<notin> set ps) (bw_objects w)\<rparr>"

definition download :: "bulk_env \<Rightarrow> string \<Rightarrow> bulk_world \<Rightarrow> string option" where
  "download ev path w = (if be_reach ev path then map_of (bw_objects w) path else None)"

text \<open>The handler of any exception: the objects are deleted, whether or not their rows are committed.\<close>

definition extract_failed :: "string \<Rightarrow> nat \<Rightarrow> string list \<Rightarrow> bulk_world \<Rightarrow> bulk_world" where
  "extract_failed t i ps w =
     update_job_status i BU_FAILED (Some ''extraction failed'') False (delete_objects ps (log_ended t TK_FAILURE w))"

definition reject_job :: "string \<Rightarrow> nat \<Rightarrow> string \<Rightarrow> bulk_world \<Rightarrow> bulk_world" where
  "reject_job t i why w = log_ended t TK_FAILURE (update_job_status i BU_FAILED (Some why) False w)"

definition end_extract :: "string \<Rightarrow> nat \<Rightarrow> bulk_world \<Rightarrow> bulk_world" where
  "end_extract t i w = w\<lparr>bw_extracting := filter (\<lambda>(u, k, ph). (u, k) \<noteq> (t, i)) (bw_extracting w)\<rparr>"

definition stage_files :: "bulk_env \<Rightarrow> string \<Rightarrow> nat \<Rightarrow> bulk_world \<Rightarrow> bulk_world" where
  "stage_files ev t i w0 =
     (let w = end_extract t i w0 in
      case find_job i w of
        None \<Rightarrow> w
      | Some j \<Rightarrow>
          (case download ev (uj_zip j) w of
             None \<Rightarrow> extract_failed t i [] w
           | Some archive \<Rightarrow>
               (case be_unzip ev archive of
                  None \<Rightarrow> reject_job t i ''Corrupt ZIP archive'' w
                | Some all \<Rightarrow>
                    let es = filter (\<lambda>(n, b). real_entry n) all in
                    if int (length es) > max_files_per_zip ev then reject_job t i ''Too many files'' w
                    else (let ((fs, ps), w1) = store_entries ev i es w in
                      (case fs of
                         None \<Rightarrow> extract_failed t i ps w1
                       | Some fs \<Rightarrow> w1\<lparr>bw_files := bw_files w1 @ fs,
                           bw_extracting := bw_extracting w1 @ [(t, i, XP_Staged (map jf_id fs))]\<rparr>)))))"

definition open_job :: "string \<Rightarrow> nat \<Rightarrow> nat list \<Rightarrow> bulk_world \<Rightarrow> bulk_world" where
  "open_job t i fs w0 =
     (let w = end_extract t i w0; n = int (length fs);
          w1 = set_job i (\<lambda>j. j\<lparr>uj_total := n\<rparr>) w;
          w2 = (if fs = [] then update_job_status i BU_FAILED (Some ''ZIP archive contained no valid files.'') False w1
                else set_job i (\<lambda>j. j\<lparr>uj_queued := uj_queued j + n\<rparr>) (update_job_status i BU_PROCESSING None False w1))
      in w2\<lparr>bw_extracting := bw_extracting w2 @ [(t, i, XP_Opened fs)]\<rparr>)"

fun send_files :: "bulk_env \<Rightarrow> nat list \<Rightarrow> bulk_world \<Rightarrow> bool \<times> bulk_world" where
  "send_files ev [] w = (True, w)"
| "send_files ev (f # fs) w =
     (case find_file f w of
        None \<Rightarrow> (False, w)
      | Some x \<Rightarrow>
          if ev_send ev ''bulk_upload.parse_file'' [(''task_id'', JStr (jf_task x)), (''bulk_upload_job_file_id'', JNum (of_nat f))]
          then send_files ev fs (w\<lparr>bw_queue := bw_queue w @ [(jf_task x, f, 1)]\<rparr>) else (False, w))"

definition paths_of :: "nat list \<Rightarrow> bulk_world \<Rightarrow> string list" where
  "paths_of fs w = map jf_path (filter (\<lambda>f. jf_id f \<in> set fs) (bw_files w))"

definition publish_files :: "bulk_env \<Rightarrow> string \<Rightarrow> nat \<Rightarrow> nat list \<Rightarrow> bulk_world \<Rightarrow> bulk_world" where
  "publish_files ev t i fs w0 =
     (let w = end_extract t i w0 in
      case find_job i w of
        None \<Rightarrow> w
      | Some j \<Rightarrow>
          (case map_option ca_status (campaign_of (bj_campaign j) (it_saved (bw_in w))) of
             Some s \<Rightarrow>
               if s = CS_PAUSED \<or> s = CS_CLOSED
               then log_success t ''BULK_EXTRACT'' None (update_job_status i BU_FAILED
                      (Some (if s = CS_PAUSED then ''Campaign was paused before file processing could begin.'' else ''Campaign closed during upload.'')) False
                      (fold (\<lambda>f. update_file_status f BF_CANCELLED) fs w))
               else (let (ok, w1) = send_files ev fs w in
                     if ok then log_success t ''BULK_EXTRACT'' None w1 else extract_failed t i (paths_of fs w1) w1)
           | None \<Rightarrow> (let (ok, w1) = send_files ev fs w in
                     if ok then log_success t ''BULK_EXTRACT'' None w1 else extract_failed t i (paths_of fs w1) w1)))"

section \<open>The end of a file\<close>

definition maybe_finalize_job :: "nat \<Rightarrow> bulk_world \<Rightarrow> bulk_world" where
  "maybe_finalize_job i w =
     (case find_job i w of
        None \<Rightarrow> w
      | Some j \<Rightarrow>
          if bj_status j \<noteq> BU_PROCESSING \<or> uj_total j = 0 \<or> uj_processed j + uj_failed j + uj_duplicate j < uj_total j then w
          else update_job_status i
            (if uj_failed j = 0 then BU_COMPLETED
             else if uj_processed j > 0 \<or> uj_duplicate j > 0 then BU_PARTIAL_FAILURE else BU_FAILED) None True w)"

datatype outcome_count = OC_Processed | OC_Failed | OC_Duplicate

definition count_outcome :: "outcome_count \<Rightarrow> upload_job \<Rightarrow> upload_job" where
  "count_outcome c j =
     (case c of OC_Processed \<Rightarrow> j\<lparr>uj_processed := uj_processed j + 1\<rparr>
      | OC_Failed \<Rightarrow> j\<lparr>uj_failed := uj_failed j + 1\<rparr>
      | OC_Duplicate \<Rightarrow> j\<lparr>uj_duplicate := uj_duplicate j + 1\<rparr>)"

text \<open>The commit of the outcome of a file, and what the worker does after it.\<close>

definition resolve_file :: "string \<Rightarrow> nat \<Rightarrow> nat \<Rightarrow> file_status \<Rightarrow> outcome_count \<Rightarrow> file_end \<Rightarrow> bulk_world \<Rightarrow> bulk_world" where
  "resolve_file t f i s c e w =
     (let w1 = set_job i (count_outcome c) (update_file_status f s w) in w1\<lparr>bw_closing := bw_closing w1 @ [(t, i, e)]\<rparr>)"

definition parse_type :: string where
  "parse_type = ''BULK_RESUME_PARSE''"

definition close_file :: "string \<Rightarrow> nat \<Rightarrow> file_end \<Rightarrow> bulk_world \<Rightarrow> bulk_world" where
  "close_file t i e w =
     (let w1 = maybe_finalize_job i (w\<lparr>bw_closing := remove1 (t, i, e) (bw_closing w)\<rparr>) in
      case e of FE_Failed \<Rightarrow> log_ended t TK_FAILURE w1 | FE_Success r \<Rightarrow> log_success t parse_type r w1)"

definition mark_parse_failed :: "nat option \<Rightarrow> bulk_world \<Rightarrow> bulk_world" where
  "mark_parse_failed r w = (case r of None \<Rightarrow> w | Some q \<Rightarrow> on_tasks (set_parse_status q PS_FAILED) w)"

text \<open>The three handlers of \<open>parse_bulk_upload_file\<close>.\<close>

definition file_failed :: "string \<Rightarrow> nat \<Rightarrow> nat \<Rightarrow> nat option \<Rightarrow> bulk_world \<Rightarrow> bulk_world" where
  "file_failed t f i r w = resolve_file t f i BF_FAILED OC_Failed FE_Failed (mark_parse_failed r w)"

definition campaign_refused :: "string \<Rightarrow> nat \<Rightarrow> nat \<Rightarrow> intake_error \<Rightarrow> bulk_world \<Rightarrow> bulk_world" where
  "campaign_refused t f i e w =
     resolve_file t f i BF_FAILED (case e of IK_Member m \<Rightarrow> OC_Duplicate | _ \<Rightarrow> OC_Failed) FE_Failed w"

definition stage_failed ::
    "string \<Rightarrow> nat \<Rightarrow> nat \<Rightarrow> nat \<Rightarrow> nat option \<Rightarrow> processing_stage \<times> failure \<Rightarrow> bulk_world \<Rightarrow> bulk_world" where
  "stage_failed t f i n r err w =
     (case handle_failure parse_type t err n None \<lparr>jt_tasks = [], jt_failures = bw_failures w, jt_dlq = ik_dlq (it_saved (bw_in w))\<rparr> of
        (delay, j) \<Rightarrow>
          let w1 = on_tasks (\<lambda>d. d\<lparr>ik_dlq := jt_dlq j\<rparr>) (w\<lparr>bw_failures := jt_failures j\<rparr>) in
          (case delay of
             None \<Rightarrow> file_failed t f i r w1
           | Some s \<Rightarrow> (on_tasks (edit_task t (\<lambda>x. x\<lparr>tr_status := TK_RETRY\<rparr>)) w1)\<lparr>bw_queue := bw_queue w1 @ [(t, f, Suc n)]\<rparr>))"

section \<open>The parse of a file\<close>

definition claim_file :: "bulk_env \<Rightarrow> string \<Rightarrow> nat \<Rightarrow> nat \<Rightarrow> bulk_world \<Rightarrow> bulk_world" where
  "claim_file ev t f n w =
     (let w1 = (if has_log t w then log_running ev t w else log_created ev t parse_type w) in
      case find_file f w1 of
        None \<Rightarrow> log_ended t TK_FAILURE w1
      | Some x \<Rightarrow>
          if jf_status x = BF_QUEUED \<or> jf_status x = BF_RUNNING
          then (update_file_status f BF_RUNNING w1)\<lparr>bw_runs := bw_runs w1 @ [(t, f, n, RP_Claimed)]\<rparr>
          else log_ended t TK_PAUSED w1)"

text \<open>
  What a run makes of the file: a stage fails, something else raises, or a name and an address are
  read.
\<close>

datatype reading = RD_Stage "processing_stage \<times> failure" | RD_Raise | RD_Read "string option" "string option"

definition link_duplicate :: "string \<Rightarrow> nat \<Rightarrow> upload_job \<Rightarrow> resume_file \<Rightarrow> bulk_world \<Rightarrow> bulk_world" where
  "link_duplicate t f j m w =
     (let i = bj_id j; linked = resolve_file t f i BF_PROCESSED OC_Duplicate (FE_Success (Some (rf_id m))) in
      if member_of (bj_campaign j) (rf_candidate m) (it_saved (bw_in w)) \<noteq> None then linked w
      else (case create_campaign_candidate (bj_campaign j) (rf_candidate m) (rf_id m) (uj_by j) None (rollback (bw_in w)) of
              (Inl e, u) \<Rightarrow> campaign_refused t f i e (w\<lparr>bw_in := u\<rparr>)
            | (Inr _, u) \<Rightarrow> linked (w\<lparr>bw_in := commit u\<rparr>)))"

definition save_resume ::
    "bulk_env \<Rightarrow> string \<Rightarrow> nat \<Rightarrow> nat \<Rightarrow> upload_job \<Rightarrow> job_file \<Rightarrow> file_format \<Rightarrow> string \<Rightarrow> string \<Rightarrow> bulk_world \<Rightarrow> bulk_world" where
  "save_resume ev t f n j x fmt bytes email w =
     (case get_or_create_person (intake_env.truncate ev) email (uj_juris j) ''BULK_UPLOAD_FORM'' (uj_by j) None (rollback (bw_in w)) of
        (Inl e, u) \<Rightarrow> file_failed t f (bj_id j) None (w\<lparr>bw_in := rollback u\<rparr>)
      | (Inr c, u) \<Rightarrow>
          let (r, d) = next_version c (jf_path x) fmt (ie_md5 ev bytes) (Some t) (Some (bj_id j)) (it_db u)
          in w\<lparr>bw_in := commit (u\<lparr>it_db := d\<rparr>), bw_runs := bw_runs w @ [(t, f, n, RP_Saved r)]\<rparr>)"

definition end_run :: "string \<Rightarrow> nat \<Rightarrow> bulk_world \<Rightarrow> bulk_world" where
  "end_run t f w = w\<lparr>bw_runs := filter (\<lambda>(u, g, n, ph). (u, g) \<noteq> (t, f)) (bw_runs w)\<rparr>"

definition read_file :: "bulk_env \<Rightarrow> reading \<Rightarrow> string \<Rightarrow> nat \<Rightarrow> nat \<Rightarrow> bulk_world \<Rightarrow> bulk_world" where
  "read_file ev rd t f n w0 =
     (let w = end_run t f w0 in
      case find_file f w of
        None \<Rightarrow> log_ended t TK_FAILURE w
      | Some x \<Rightarrow>
          (case find_job (jf_job x) w of
             None \<Rightarrow> log_ended t TK_FAILURE w
           | Some j \<Rightarrow>
               (case download ev (jf_path x) w of
                  None \<Rightarrow> file_failed t f (bj_id j) None w
                | Some bytes \<Rightarrow>
                    (case validate_file (intake_env.truncate ev) bytes (jf_name x) of
                       Inl e \<Rightarrow> file_failed t f (bj_id j) None w
                     | Inr fmt \<Rightarrow>
                         if fmt = FF_PNG \<or> fmt = FF_JPEG then file_failed t f (bj_id j) None w
                         else (case get_by_file_hash_global (ie_md5 ev bytes) (it_saved (bw_in w)) of
                                 Some m \<Rightarrow> link_duplicate t f j m w
                               | None \<Rightarrow>
                                   (case rd of
                                      RD_Stage err \<Rightarrow> stage_failed t f (bj_id j) n None err w
                                    | RD_Raise \<Rightarrow> file_failed t f (bj_id j) None w
                                    | RD_Read (Some name) (Some email) \<Rightarrow>
                                        if name = [] \<or> email = [] then file_failed t f (bj_id j) None w
                                        else save_resume ev t f n j x fmt bytes email w
                                    | RD_Read _ _ \<Rightarrow> file_failed t f (bj_id j) None w))))))"

datatype saving = SV_Stage "processing_stage \<times> failure" | SV_Raise | SV_Done

text \<open>\<open>pipeline.run\<close> commits the parsed resume before the entry is created.\<close>

definition persist_file :: "saving \<Rightarrow> string \<Rightarrow> nat \<Rightarrow> nat \<Rightarrow> nat \<Rightarrow> bulk_world \<Rightarrow> bulk_world" where
  "persist_file sv t f n r w0 =
     (let w = end_run t f w0 in
      case find_file f w of
        None \<Rightarrow> w
      | Some x \<Rightarrow>
          (case find_job (jf_job x) w of
             None \<Rightarrow> w
           | Some j \<Rightarrow>
               (case sv of
                  SV_Stage err \<Rightarrow> stage_failed t f (bj_id j) n (Some r) err w
                | SV_Raise \<Rightarrow> file_failed t f (bj_id j) (Some r) w
                | SV_Done \<Rightarrow>
                    let w1 = on_tasks (set_parse_status r PS_PARSED) w; d = it_saved (bw_in w1) in
                    (case resume_by_id r d of
                       None \<Rightarrow> file_failed t f (bj_id j) (Some r) w1
                     | Some rf \<Rightarrow>
                         (case create_campaign_candidate (bj_campaign j) (rf_candidate rf) r (uj_by j) None (rollback (bw_in w1)) of
                            (Inl e, u) \<Rightarrow> campaign_refused t f (bj_id j) e (w1\<lparr>bw_in := u\<rparr>)
                          | (Inr m, u) \<Rightarrow>
                              resolve_file t f (bj_id j) BF_PROCESSED OC_Processed (FE_Success None)
                                (w1\<lparr>bw_in := commit (edit (log_intake (uj_by j) None ''RESUME_UPLOADED'' r
                                  [(''candidate_id'', JNum (of_nat (rf_candidate rf))), (''bulk_upload_job_id'', JNum (of_nat (bj_id j)))]) u)\<rparr>))))))"

section \<open>Cancelling and replaying\<close>

definition terminal_status :: "bulk_status \<Rightarrow> bool" where
  "terminal_status s \<longleftrightarrow> s = BU_COMPLETED \<or> s = BU_PARTIAL_FAILURE \<or> s = BU_FAILED \<or> s = BU_CANCELLED"

definition cancel_queued_files :: "nat \<Rightarrow> bulk_world \<Rightarrow> nat \<times> bulk_world" where
  "cancel_queued_files i w =
     (length (filter (\<lambda>f. jf_job f = i \<and> jf_status f = BF_QUEUED) (bw_files w)),
      w\<lparr>bw_files := map (\<lambda>f. if jf_job f = i \<and> jf_status f = BF_QUEUED then f\<lparr>jf_status := BF_CANCELLED\<rparr> else f) (bw_files w)\<rparr>)"

definition cancel_job :: "nat \<Rightarrow> string \<Rightarrow> role_name option \<Rightarrow> bulk_world \<Rightarrow> (bulk_error, nat) result \<times> bulk_world" where
  "cancel_job i actor role w =
     (case find_job i w of
        None \<Rightarrow> (Inl BE_No_Job, w)
      | Some j \<Rightarrow>
          if terminal_status (bj_status j) then (Inl (BE_Ended (bj_status j)), w)
          else (let (n, w1) = cancel_queued_files i w in
            (Inr n, on_tasks (log_intake actor role ''BULK_UPLOAD_CANCELLED'' i [(''files_cancelled'', JNum (of_nat n))])
               (update_job_status i BU_CANCELLED None True w1))))"

definition requeue_for_replay :: "nat \<Rightarrow> string \<Rightarrow> bulk_world \<Rightarrow> bulk_world" where
  "requeue_for_replay f t = set_file f (\<lambda>x. if jf_status x = BF_FAILED then x\<lparr>jf_status := BF_QUEUED, jf_task := t\<rparr> else x)"

text \<open>The failure is taken back; a job that had ended is open again.\<close>

definition reopened :: "upload_job \<Rightarrow> upload_job" where
  "reopened j = (if bj_status j \<noteq> BU_PROCESSING then j\<lparr>uj_failed := uj_failed j - 1, bj_status := BU_PROCESSING, uj_ended := False\<rparr>
     else j\<lparr>uj_failed := uj_failed j - 1\<rparr>)"

definition replay_failed_file ::
    "bulk_env \<Rightarrow> nat \<Rightarrow> nat \<Rightarrow> string \<Rightarrow> role_name option \<Rightarrow> bulk_world \<Rightarrow> (bulk_error, string) result \<times> bulk_world" where
  "replay_failed_file ev i f actor role w =
     (case find_job i w of
        None \<Rightarrow> (Inl BE_No_Job, w)
      | Some j \<Rightarrow>
          if bj_status j = BU_PENDING \<or> bj_status j = BU_EXTRACTING \<or> bj_status j = BU_CANCELLED
          then (Inl (BE_Not_Replayable (bj_status j)), w)
          else (case find (\<lambda>x. jf_id x = f \<and> jf_job x = i) (bw_files w) of
                  None \<Rightarrow> (Inl BE_No_File, w)
                | Some x \<Rightarrow>
                    if jf_status x \<noteq> BF_FAILED then (Inl (BE_Not_Failed (jf_status x)), w)
                    else (case precheck_campaign_eligibility (bj_campaign j) (it_saved (bw_in w)) of
                            Inl e \<Rightarrow> (Inl (BE_Intake e), w)
                          | Inr ca \<Rightarrow>
                              (case find (\<lambda>d. dq_task d = jf_task x) (ik_dlq (it_saved (bw_in w))) of
                                 None \<Rightarrow> (Inl BE_No_Letter, w)
                               | Some dl \<Rightarrow>
                                   let (t, w1) = draw_task ev w;
                                       w2 = set_job i reopened (requeue_for_replay f t w1);
                                       w3 = on_tasks (\<lambda>d. log_intake actor role ''BULK_UPLOAD_FILE_REPLAYED'' f
                                              [(''original_task_id'', JStr (jf_task x)), (''new_task_id'', JStr t),
                                               (''dead_letter_queue_id'', JNum (of_nat (dq_id dl)))]
                                              (d\<lparr>ik_dlq := map (\<lambda>y. if dq_id y = dq_id dl then y\<lparr>dq_replayed_by := Some actor\<rparr> else y) (ik_dlq d)\<rparr>)) w2
                                   in if ev_send ev ''bulk_upload.parse_file'' [(''task_id'', JStr t), (''bulk_upload_job_file_id'', JNum (of_nat f))]
                                      then (Inr t, w3\<lparr>bw_queue := bw_queue w3 @ [(t, f, 1)]\<rparr>) else (Inl BE_Broker, w3)))))"

definition get_job_progress :: "nat \<Rightarrow> bulk_world \<Rightarrow> (bulk_error, rat \<times> int) result" where
  "get_job_progress i w =
     (case find_job i w of
        None \<Rightarrow> Inl BE_No_Job
      | Some j \<Rightarrow>
          let n = uj_processed j + uj_failed j + uj_duplicate j in
          Inr (if uj_total j > 0 then min (py_round 1 (of_int n / of_int (uj_total j) * 100)) 100 else 0, max (uj_total j - n) 0))"

end
