(* ===== verification/Bulk_Upload_Props.thy ===== *)
theory Bulk_Upload_Props
  imports Bulk_Upload
begin

text \<open>
  The counters and the states of bulk uploads in every interleaving of requests, extractions and
  parses, with workers lost at any commit up to that of the counters.
\<close>

section \<open>Frames\<close>

definition logs :: "bulk_world \<Rightarrow> string set" where
  "logs w = tr_task ` set (ik_tasks (it_saved (bw_in w)))"

lemma has_log_logs: "has_log t w \<longleftrightarrow> t \<in> logs w"
  by (auto simp: has_log_def logs_def list_ex_iff)

text \<open>What the invariant looks at: everything but the intake, the objects and the failures.\<close>

definition same_bulk :: "bulk_world \<Rightarrow> bulk_world \<Rightarrow> bool" where
  "same_bulk v w \<longleftrightarrow> bw_jobs v = bw_jobs w \<and> bw_files v = bw_files w \<and> bw_next v = bw_next w \<and> bw_extracts v = bw_extracts w
     \<and> bw_extracting v = bw_extracting w \<and> bw_queue v = bw_queue w \<and> bw_runs v = bw_runs w \<and> bw_closing v = bw_closing w
     \<and> logs w \<subseteq> logs v"

lemma same_bulk_refl [simp]: "same_bulk w w"
  by (simp add: same_bulk_def)

lemma same_bulk_trans: "same_bulk u v \<Longrightarrow> same_bulk v w \<Longrightarrow> same_bulk u w"
  by (auto simp: same_bulk_def)

lemma same_on_tasks:
  assumes "\<And>d. tr_task ` set (ik_tasks d) \<subseteq> tr_task ` set (ik_tasks (g d))"
  shows "same_bulk (on_tasks g w) w"
  using assms by (simp add: same_bulk_def on_tasks_def logs_def commit_def edit_def rollback_def)

lemma task_ids_edit [simp]:
  "(\<And>x. tr_task (g x) = tr_task x) \<Longrightarrow> tr_task ` set (ik_tasks (edit_task t g d)) = tr_task ` set (ik_tasks d)"
proof -
  assume "\<And>x. tr_task (g x) = tr_task x"
  then have "map tr_task (ik_tasks (edit_task t g d)) = map tr_task (ik_tasks d)" by (simp add: edit_task_def)
  then show ?thesis by (metis set_map)
qed

lemma same_log:
  "same_bulk (log_created ev t ty w) w" "same_bulk (log_running ev t w) w" "same_bulk (log_ended t s w) w"
  "same_bulk (log_success t ty r w) w" "same_bulk (mark_parse_failed q w) w"
  unfolding log_created_def log_running_def log_ended_def log_success_def mark_parse_failed_def
  by (auto intro!: same_on_tasks simp: set_parse_status_def split: option.split)

section \<open>The invariant\<close>

definition resolved :: "job_file \<Rightarrow> bool" where
  "resolved f \<longleftrightarrow> jf_status f = BF_PROCESSED \<or> jf_status f = BF_FAILED"

definition files_of :: "nat \<Rightarrow> bulk_world \<Rightarrow> job_file list" where
  "files_of i w = filter (\<lambda>f. jf_job f = i) (bw_files w)"

definition resolved_count :: "upload_job \<Rightarrow> int" where
  "resolved_count j = uj_processed j + uj_failed j + uj_duplicate j"

text \<open>The files that a message or a worker holds.\<close>

definition held :: "bulk_world \<Rightarrow> nat list" where
  "held w = map (\<lambda>(t, f, n). f) (bw_queue w) @ map (\<lambda>(t, f, n, ph). f) (bw_runs w)"

definition unpacking :: "bulk_world \<Rightarrow> nat list" where
  "unpacking w = map snd (bw_extracts w) @ map (\<lambda>(t, i, ph). i) (bw_extracting w)"

definition settled :: "upload_job \<Rightarrow> bulk_world \<Rightarrow> bool" where
  "settled j w \<longleftrightarrow> uj_total j = int (length (files_of (bj_id j) w))"

text \<open>The jobs of runs that have counted their file and not yet finalized the job.\<close>

definition closing :: "bulk_world \<Rightarrow> nat set" where
  "closing w = (\<lambda>(t, i, e). i) ` set (bw_closing w)"

definition counts_fine :: "bulk_world \<Rightarrow> upload_job \<Rightarrow> bool" where
  "counts_fine w j \<longleftrightarrow> resolved_count j = int (length (filter resolved (files_of (bj_id j) w)))
     \<and> (bj_status j = BU_PROCESSING \<longrightarrow> settled j w \<and> 0 < uj_total j \<and> (resolved_count j < uj_total j \<or> bj_id j \<in> closing w))
     \<and> (bj_status j = BU_COMPLETED \<or> bj_status j = BU_PARTIAL_FAILURE \<longrightarrow> settled j w \<and> 0 < uj_total j \<and> resolved_count j = uj_total j)
     \<and> (bj_status j = BU_COMPLETED \<longrightarrow> uj_failed j = 0)"

definition ids_fine :: "bulk_world \<Rightarrow> bool" where
  "ids_fine w \<longleftrightarrow> distinct (map bj_id (bw_jobs w)) \<and> distinct (map jf_id (bw_files w))
     \<and> (\<forall>j\<in>set (bw_jobs w). bj_id j < bw_next w) \<and> (\<forall>f\<in>set (bw_files w). jf_id f < bw_next w \<and> jf_job f \<in> bj_id ` set (bw_jobs w))"

definition runs_fine :: "bulk_world \<Rightarrow> bool" where
  "runs_fine w \<longleftrightarrow> distinct (held w) \<and> (\<forall>g\<in>set (held w). \<exists>f\<in>set (bw_files w). jf_id f = g \<and> \<not> resolved f)
     \<and> (\<forall>(t, g, n, ph)\<in>set (bw_runs w). \<exists>f\<in>set (bw_files w). jf_id f = g \<and> jf_status f = BF_RUNNING)
     \<and> (\<forall>f\<in>set (bw_files w). resolved f \<or> jf_id f \<in> set (held w) \<longrightarrow> (\<forall>j\<in>set (bw_jobs w). bj_id j = jf_job f \<longrightarrow> settled j w))"

definition waiting :: "nat \<Rightarrow> nat list \<Rightarrow> bulk_world \<Rightarrow> bool" where
  "waiting i fs w \<longleftrightarrow> map jf_id (files_of i w) = fs \<and> (\<forall>f\<in>set (files_of i w). \<not> resolved f \<and> jf_id f \<notin> set (held w))"

fun phase_fine :: "nat \<Rightarrow> bulk_world \<Rightarrow> extract_phase \<Rightarrow> bool" where
  "phase_fine i w XP_Begun = (files_of i w = [])"
| "phase_fine i w (XP_Staged fs) = waiting i fs w"
| "phase_fine i w (XP_Opened fs) = (waiting i fs w \<and> (\<forall>j\<in>set (bw_jobs w). bj_id j = i \<longrightarrow> settled j w))"

definition extracts_fine :: "bulk_world \<Rightarrow> bool" where
  "extracts_fine w \<longleftrightarrow> distinct (unpacking w) \<and> (\<forall>i\<in>set (unpacking w). i < bw_next w)
     \<and> (\<forall>(t, i)\<in>set (bw_extracts w). t \<in> logs w \<or> files_of i w = [])
     \<and> (\<forall>(t, i, ph)\<in>set (bw_extracting w). t \<in> logs w \<and> phase_fine i w ph)"

definition bulk_fine :: "bulk_world \<Rightarrow> bool" where
  "bulk_fine w \<longleftrightarrow> ids_fine w \<and> runs_fine w \<and> extracts_fine w \<and> (\<forall>j\<in>set (bw_jobs w). counts_fine w j)"

lemma same_bulk_views:
  assumes "same_bulk v w"
  shows "files_of i v = files_of i w" "held v = held w" "unpacking v = unpacking w" "settled j v = settled j w"
    "counts_fine v j = counts_fine w j" "waiting i fs v = waiting i fs w" "phase_fine i v ph = phase_fine i w ph"
  using assms by (auto simp: same_bulk_def files_of_def held_def unpacking_def settled_def counts_fine_def waiting_def closing_def)
    (cases ph; simp add: files_of_def held_def unpacking_def settled_def counts_fine_def waiting_def)+

lemma same_bulk_fine:
  assumes "same_bulk v w" "bulk_fine w"
  shows "bulk_fine v"
proof -
  note v = same_bulk_views[OF assms(1)]
  have eq: "bw_jobs v = bw_jobs w" "bw_files v = bw_files w" "bw_next v = bw_next w" "bw_extracts v = bw_extracts w"
    "bw_extracting v = bw_extracting w" "bw_runs v = bw_runs w" and sub: "logs w \<subseteq> logs v"
    using assms(1) by (simp_all add: same_bulk_def)
  have "ids_fine v" "runs_fine v" using assms(2) by (simp_all add: bulk_fine_def ids_fine_def runs_fine_def eq v)
  moreover have "extracts_fine v" using assms(2) sub by (auto simp: bulk_fine_def extracts_fine_def eq v)
  moreover have "\<forall>j\<in>set (bw_jobs v). counts_fine v j" using assms(2) by (simp add: bulk_fine_def eq v)
  ultimately show ?thesis by (simp add: bulk_fine_def)
qed

section \<open>Messages and workers\<close>

definition loose :: "nat \<Rightarrow> bulk_world \<Rightarrow> bool" where
  "loose f w \<longleftrightarrow> bulk_fine w \<and> f \<notin> set (held w) \<and> (\<exists>x\<in>set (bw_files w). jf_id x = f \<and> \<not> resolved x
     \<and> jf_job x \<notin> (\<lambda>(t, i, ph). i) ` set (bw_extracting w) \<and> (\<forall>j\<in>set (bw_jobs w). bj_id j = jf_job x \<longrightarrow> settled j w))"

definition same_rows :: "bulk_world \<Rightarrow> bulk_world \<Rightarrow> bool" where
  "same_rows v w \<longleftrightarrow> bw_jobs v = bw_jobs w \<and> bw_files v = bw_files w \<and> bw_next v = bw_next w \<and> bw_extracts v = bw_extracts w
     \<and> bw_extracting v = bw_extracting w \<and> bw_closing v = bw_closing w \<and> logs v = logs w"

lemma same_rows_views:
  assumes "same_rows v w"
  shows "files_of i v = files_of i w" "unpacking v = unpacking w" "settled j v = settled j w" "counts_fine v j = counts_fine w j"
    "ids_fine v = ids_fine w"
  using assms by (auto simp: same_rows_def files_of_def unpacking_def settled_def counts_fine_def ids_fine_def closing_def)

text \<open>Rows in phases of an extraction are held by nobody.\<close>

lemma extracting_not_held:
  assumes "extracts_fine w" "x \<in> set (bw_files w)" "jf_id x \<in> set (held w)"
  shows "jf_job x \<notin> (\<lambda>(t, i, ph). i) ` set (bw_extracting w)"
proof
  assume "jf_job x \<in> (\<lambda>(t, i, ph). i) ` set (bw_extracting w)"
  then obtain t ph where "(t, jf_job x, ph) \<in> set (bw_extracting w)" by auto
  then have ph: "phase_fine (jf_job x) w ph" using assms(1) by (auto simp: extracts_fine_def)
  have x: "x \<in> set (files_of (jf_job x) w)" using assms(2) by (simp add: files_of_def)
  show False using ph x assms(3) by (cases ph) (auto simp: waiting_def)
qed

lemma hold_fine:
  assumes "bulk_fine w" "same_rows v w" "distinct (held v)"
    and "\<And>g. g \<in> set (held v) \<Longrightarrow> g \<in> set (held w) \<or> g = f" "loose f w \<or> f \<in> set (held w)"
    and "\<And>r. r \<in> set (bw_runs v) \<Longrightarrow> r \<in> set (bw_runs w) \<or> (\<exists>t n ph x. r = (t, f, n, ph) \<and> x \<in> set (bw_files w) \<and> jf_id x = f \<and> jf_status x = BF_RUNNING)"
  shows "bulk_fine v"
proof -
  note s = same_rows_views[OF assms(2)]
  have eq: "bw_jobs v = bw_jobs w" "bw_files v = bw_files w" "bw_next v = bw_next w" "bw_extracts v = bw_extracts w"
    "bw_extracting v = bw_extracting w" "logs v = logs w" using assms(2) by (simp_all add: same_rows_def)
  have w: "ids_fine w" "runs_fine w" "extracts_fine w" using assms(1) by (simp_all add: bulk_fine_def)
  have f: "f \<notin> set (held w) \<Longrightarrow> loose f w" using assms(5) by blast
  have "runs_fine v"
    unfolding runs_fine_def eq s
  proof (intro conjI)
    show "distinct (held v)" by (rule assms(3))
    show "\<forall>g\<in>set (held v). \<exists>f\<in>set (bw_files w). jf_id f = g \<and> \<not> resolved f"
      using assms(4) f w(2) by (force simp: runs_fine_def loose_def)
    show "\<forall>(t, g, n, ph)\<in>set (bw_runs v). \<exists>f\<in>set (bw_files w). jf_id f = g \<and> jf_status f = BF_RUNNING"
      using assms(6) w(2) by (fastforce simp: runs_fine_def)
    show "\<forall>x\<in>set (bw_files w). resolved x \<or> jf_id x \<in> set (held v) \<longrightarrow> (\<forall>j\<in>set (bw_jobs w). bj_id j = jf_job x \<longrightarrow> settled j w)"
    proof (intro ballI impI)
      fix x j assume x: "x \<in> set (bw_files w)" "resolved x \<or> jf_id x \<in> set (held v)" and j: "j \<in> set (bw_jobs w)" "bj_id j = jf_job x"
      show "settled j w"
      proof (cases "resolved x \<or> jf_id x \<in> set (held w)")
        case True
        then show ?thesis using w(2) x(1) j by (auto simp: runs_fine_def)
      next
        case False
        then have id: "jf_id x = f" using x(2) assms(4) by blast
        then obtain y where y: "y \<in> set (bw_files w)" "jf_id y = f" "\<forall>j\<in>set (bw_jobs w). bj_id j = jf_job y \<longrightarrow> settled j w"
          using f False by (auto simp: loose_def)
        have "x = y" using w(1) x(1) y(1,2) id by (auto simp: ids_fine_def distinct_map inj_on_def)
        then show ?thesis using y(3) j by blast
      qed
    qed
  qed
  moreover have "extracts_fine v"
  proof -
    have "phase_fine i v ph" if p: "(t, i, ph) \<in> set (bw_extracting w)" for t i ph
    proof -
      have old: "phase_fine i w ph" using w(3) p by (auto simp: extracts_fine_def)
      have "jf_id x \<notin> set (held v)" if x: "x \<in> set (files_of i w)" "jf_id x \<notin> set (held w)" for x
      proof
        assume "jf_id x \<in> set (held v)"
        then have id: "jf_id x = f" using assms(4) x(2) by blast
        then obtain y where y: "y \<in> set (bw_files w)" "jf_id y = f" "jf_job y \<notin> (\<lambda>(t, i, ph). i) ` set (bw_extracting w)"
          using f x(2) by (auto simp: loose_def)
        have "x = y" using w(1) x(1) y(1,2) id by (auto simp: files_of_def ids_fine_def distinct_map inj_on_def)
        then show False using y(3) x(1) p by (force simp: files_of_def)
      qed
      then have "waiting i fs w \<Longrightarrow> waiting i fs v" for fs by (simp add: waiting_def s)
      then show ?thesis using old by (cases ph) (simp_all add: s eq)
    qed
    then show ?thesis using w(3) unfolding extracts_fine_def eq s by fastforce
  qed
  moreover have "\<forall>j\<in>set (bw_jobs v). counts_fine v j" "ids_fine v" using assms(1) by (simp_all add: bulk_fine_def eq s)
  ultimately show ?thesis by (simp add: bulk_fine_def)
qed

lemma end_run_views:
  "bw_jobs (end_run t f w) = bw_jobs w" "bw_files (end_run t f w) = bw_files w" "bw_next (end_run t f w) = bw_next w"
  "bw_queue (end_run t f w) = bw_queue w" "bw_in (end_run t f w) = bw_in w" "bw_extracts (end_run t f w) = bw_extracts w"
  "bw_extracting (end_run t f w) = bw_extracting w" "bw_objects (end_run t f w) = bw_objects w"
  "bw_closing (end_run t f w) = bw_closing w"
  by (simp_all add: end_run_def)

lemma end_run_rows: "same_rows (end_run t f w) w"
  by (simp add: same_rows_def end_run_views logs_def)

lemma end_run_held:
  assumes "distinct (held w)" "(t, f, n, ph) \<in> set (bw_runs w)"
  shows "distinct (held (end_run t f w))" "set (held (end_run t f w)) = set (held w) - {f}"
proof -
  define g where "g = (\<lambda>(t :: string, f :: nat, n :: nat, ph :: run_phase). f)"
  have runs: "distinct (map g (bw_runs w))" "f \<notin> (\<lambda>(t, f, n). f) ` set (bw_queue w)"
  proof -
    have "f \<in> g ` set (bw_runs w)" using assms(2) by (force simp: g_def)
    then show "distinct (map g (bw_runs w))" "f \<notin> (\<lambda>(t, f, n). f) ` set (bw_queue w)" using assms(1) unfolding held_def g_def[symmetric]
      by (auto simp: disjoint_iff image_iff)
  qed
  have mine: "r = (t, f, n, ph)" if "r \<in> set (bw_runs w)" "g r = f" for r
    using runs(1) assms(2) that by (auto simp: distinct_map inj_on_def g_def)
  have "filter (\<lambda>(u, x, n, ph). (u, x) \<noteq> (t, f)) (bw_runs w) = filter (\<lambda>r. g r \<noteq> f) (bw_runs w)"
    using mine by (intro filter_cong) (auto simp: g_def)
  then have eq: "held (end_run t f w) = map (\<lambda>(t, f, n). f) (bw_queue w) @ map g (filter (\<lambda>r. g r \<noteq> f) (bw_runs w))"
    by (simp add: held_def end_run_def g_def)
  have old: "held w = map (\<lambda>(t, f, n). f) (bw_queue w) @ map g (bw_runs w)" by (simp add: held_def g_def)
  show "distinct (held (end_run t f w))" "set (held (end_run t f w)) = set (held w) - {f}"
    using assms(1) runs(2) unfolding eq old by (auto simp: distinct_map_filter)
qed

lemma end_run_loose:
  assumes "bulk_fine w" "(t, f, n, ph) \<in> set (bw_runs w)"
  shows "loose f (end_run t f w)" "\<exists>x\<in>set (bw_files w). jf_id x = f \<and> jf_status x = BF_RUNNING"
proof -
  have w: "runs_fine w" "extracts_fine w" using assms(1) by (simp_all add: bulk_fine_def)
  have h: "distinct (held (end_run t f w))" "set (held (end_run t f w)) = set (held w) - {f}"
    using end_run_held[OF _ assms(2)] w(1) by (simp_all add: runs_fine_def)
  have f: "f \<in> set (held w)" using assms(2) by (force simp: held_def)
  have "bulk_fine (end_run t f w)"
    by (rule hold_fine[OF assms(1) end_run_rows h(1)]) (use h(2) f in \<open>auto simp: end_run_def\<close>)
  moreover obtain x where x: "x \<in> set (bw_files w)" "jf_id x = f" "\<not> resolved x" using w(1) f by (auto simp: runs_fine_def)
  moreover have "jf_job x \<notin> (\<lambda>(t, i, ph). i) ` set (bw_extracting w)" using extracting_not_held[OF w(2) x(1)] x(2) f by simp
  moreover have "\<forall>j\<in>set (bw_jobs w). bj_id j = jf_job x \<longrightarrow> settled j w" using w(1) x(1,2) f by (auto simp: runs_fine_def)
  ultimately show "loose f (end_run t f w)"
    using h(2) by (auto simp: loose_def end_run_views same_rows_views[OF end_run_rows])
  show "\<exists>x\<in>set (bw_files w). jf_id x = f \<and> jf_status x = BF_RUNNING" using w(1) assms(2) by (fastforce simp: runs_fine_def)
qed

lemma loose_queue:
  assumes "loose f w"
  shows "bulk_fine (w\<lparr>bw_queue := bw_queue w @ [(t, f, n)]\<rparr>)" (is "bulk_fine ?v")
proof -
  have "distinct (held ?v)" "set (held ?v) = insert f (set (held w))" using assms by (auto simp: held_def loose_def bulk_fine_def runs_fine_def)
  then show ?thesis using assms
    by (intro hold_fine[of w ?v f]) (auto simp: loose_def same_rows_def logs_def)
qed

lemma loose_run:
  assumes "loose f w" "x \<in> set (bw_files w)" "jf_id x = f" "jf_status x = BF_RUNNING"
  shows "bulk_fine (w\<lparr>bw_runs := bw_runs w @ [(t, f, n, ph)]\<rparr>)" (is "bulk_fine ?v")
proof -
  have "distinct (held ?v)" "set (held ?v) = insert f (set (held w))" using assms(1) by (auto simp: held_def loose_def bulk_fine_def runs_fine_def)
  then show ?thesis using assms
    by (intro hold_fine[of w ?v f]) (auto simp: loose_def same_rows_def logs_def)
qed

lemma same_bulk_loose: "same_bulk v w \<Longrightarrow> loose f w \<Longrightarrow> loose f v"
  using same_bulk_fine[of v w] by (simp add: loose_def same_bulk_views) (simp add: same_bulk_def)

section \<open>The end of a file\<close>

definition close_if_done :: "upload_job \<Rightarrow> upload_job" where
  "close_if_done j =
     (if bj_status j \<noteq> BU_PROCESSING \<or> uj_total j = 0 \<or> resolved_count j < uj_total j then j
      else j\<lparr>bj_status := (if uj_failed j = 0 then BU_COMPLETED
         else if uj_processed j > 0 \<or> uj_duplicate j > 0 then BU_PARTIAL_FAILURE else BU_FAILED), uj_ended := True\<rparr>)"

lemma find_id:
  assumes "distinct (map key xs)" "x \<in> set xs" "key x = i"
  shows "find (\<lambda>y. key y = i) xs = Some x"
  by (rule find_unique) (use assms in \<open>auto simp: distinct_map inj_on_def\<close>)

lemma finalize_as_map:
  assumes "distinct (map bj_id (bw_jobs w))"
  shows "maybe_finalize_job i w = set_job i close_if_done w"
proof (cases "find_job i w")
  case None
  then have "\<forall>j\<in>set (bw_jobs w). bj_id j \<noteq> i" by (simp add: find_job_def find_None_iff)
  then have "map (\<lambda>j. if bj_id j = i then close_if_done j else j) (bw_jobs w) = bw_jobs w" by (simp add: map_idI)
  then show ?thesis using None by (simp add: maybe_finalize_job_def set_job_def)
next
  case (Some j)
  then have j: "j \<in> set (bw_jobs w)" "bj_id j = i" using find_Some_set[of _ "bw_jobs w"] by (auto simp: find_job_def)
  then have only: "k = j" if "k \<in> set (bw_jobs w)" "bj_id k = i" for k using assms that by (auto simp: distinct_map inj_on_def)
  show ?thesis
  proof (cases "bj_status j \<noteq> BU_PROCESSING \<or> uj_total j = 0 \<or> resolved_count j < uj_total j")
    case True
    then have "map (\<lambda>j. if bj_id j = i then close_if_done j else j) (bw_jobs w) = bw_jobs w"
      using only by (intro map_idI) (auto simp: close_if_done_def)
    then show ?thesis using True Some by (auto simp: maybe_finalize_job_def set_job_def resolved_count_def)
  next
    case False
    then have "map (\<lambda>j. if bj_id j = i then close_if_done j else j) (bw_jobs w)
        = map (\<lambda>k. if bj_id k = i then k\<lparr>bj_status := (if uj_failed j = 0 then BU_COMPLETED
            else if uj_processed j > 0 \<or> uj_duplicate j > 0 then BU_PARTIAL_FAILURE else BU_FAILED),
            uj_error := uj_error k, uj_ended := True\<rparr> else k) (bw_jobs w)"
      using only by (intro map_cong) (auto simp: close_if_done_def)
    then show ?thesis using False Some
      by (auto simp: maybe_finalize_job_def set_job_def update_job_status_def resolved_count_def)
  qed
qed

section \<open>Rewriting rows\<close>

definition rewritten :: "(upload_job \<Rightarrow> upload_job) \<Rightarrow> (job_file \<Rightarrow> job_file) \<Rightarrow> bulk_world \<Rightarrow> bulk_world \<Rightarrow> bool" where
  "rewritten g h v w \<longleftrightarrow> bw_jobs v = map g (bw_jobs w) \<and> bw_files v = map h (bw_files w) \<and> bw_next v = bw_next w
     \<and> bw_extracts v = bw_extracts w \<and> bw_extracting v = bw_extracting w \<and> bw_queue v = bw_queue w \<and> bw_runs v = bw_runs w
     \<and> bw_closing v = bw_closing w \<and> logs w \<subseteq> logs v \<and> (\<forall>j. bj_id (g j) = bj_id j) \<and> (\<forall>x. jf_id (h x) = jf_id x \<and> jf_job (h x) = jf_job x)"

lemma rewritten_views:
  assumes "rewritten g h v w"
  shows "files_of i v = map h (files_of i w)" "held v = held w" "unpacking v = unpacking w" "ids_fine v = ids_fine w"
    "settled (g j) v \<longleftrightarrow> uj_total (g j) = int (length (files_of (bj_id j) w))" "closing v = closing w"
proof -
  have jobs: "bw_jobs v = map g (bw_jobs w)" and files: "bw_files v = map h (bw_files w)" and nx: "bw_next v = bw_next w"
    and ids: "bj_id (g j) = bj_id j" "jf_id (h x) = jf_id x" "jf_job (h x) = jf_job x" for j x
    using assms by (auto simp: rewritten_def)
  show f: "files_of i v = map h (files_of i w)" for i by (simp add: files_of_def files filter_map comp_def ids)
  show "held v = held w" "unpacking v = unpacking w" "closing v = closing w"
    using assms by (simp_all add: rewritten_def held_def unpacking_def closing_def)
  have "map bj_id (bw_jobs v) = map bj_id (bw_jobs w)" "map jf_id (bw_files v) = map jf_id (bw_files w)" by (simp_all add: jobs files ids)
  moreover have "bj_id ` set (bw_jobs v) = bj_id ` set (bw_jobs w)" by (simp add: jobs image_image ids)
  ultimately show "ids_fine v = ids_fine w" by (simp add: ids_fine_def nx jobs files ids image_image comp_def)
  show "settled (g j) v \<longleftrightarrow> uj_total (g j) = int (length (files_of (bj_id j) w))" by (simp add: settled_def f ids)
qed

lemma rewrite_fine:
  assumes "rewritten g h v w" "bulk_fine w"
    and opened: "\<And>x. x \<in> set (bw_files w) \<Longrightarrow> resolved (h x) \<Longrightarrow> \<not> resolved x \<Longrightarrow> jf_id x \<notin> set (held w)
           \<and> jf_job x \<notin> (\<lambda>(t, i, ph). i) ` set (bw_extracting w) \<and> (\<forall>j\<in>set (bw_jobs w). bj_id j = jf_job x \<longrightarrow> settled j w)"
    and running: "\<And>x. x \<in> set (bw_files w) \<Longrightarrow> jf_status x = BF_RUNNING \<Longrightarrow> jf_id x \<in> set (held w) \<Longrightarrow> jf_status (h x) = BF_RUNNING"
    and total: "\<And>j. j \<in> set (bw_jobs w) \<Longrightarrow> settled j w \<Longrightarrow> settled (g j) v"
    and counts: "\<And>j. j \<in> set (bw_jobs w) \<Longrightarrow> counts_fine v (g j)"
  shows "bulk_fine v"
proof -
  note r = rewritten_views[OF assms(1)]
  have jobs: "bw_jobs v = map g (bw_jobs w)" and files: "bw_files v = map h (bw_files w)" and nx: "bw_next v = bw_next w"
    and ex: "bw_extracts v = bw_extracts w" "bw_extracting v = bw_extracting w" "bw_runs v = bw_runs w" "logs w \<subseteq> logs v"
    and ids: "bj_id (g j) = bj_id j" "jf_id (h x) = jf_id x" "jf_job (h x) = jf_job x" for j x
    using assms(1) by (auto simp: rewritten_def)
  have w: "ids_fine w" "runs_fine w" "extracts_fine w" using assms(2) by (simp_all add: bulk_fine_def)
  have "runs_fine v"
    unfolding runs_fine_def r jobs files ex
  proof (intro conjI)
    show "distinct (held w)" using w(2) by (simp add: runs_fine_def)
    show "\<forall>n\<in>set (held w). \<exists>f\<in>set (map h (bw_files w)). jf_id f = n \<and> \<not> resolved f"
      using w(2) opened by (fastforce simp: runs_fine_def ids)
    show "\<forall>(t, k, n, ph)\<in>set (bw_runs w). \<exists>f\<in>set (map h (bw_files w)). jf_id f = k \<and> jf_status f = BF_RUNNING"
    proof (safe)
      fix t k n ph assume run: "(t, k, n, ph) \<in> set (bw_runs w)"
      then obtain x where x: "x \<in> set (bw_files w)" "jf_id x = k" "jf_status x = BF_RUNNING" using w(2) by (fastforce simp: runs_fine_def)
      have "k \<in> set (held w)" using run by (force simp: held_def)
      then show "\<exists>f\<in>set (map h (bw_files w)). jf_id f = k \<and> jf_status f = BF_RUNNING" using running[OF x(1,3)] x by (auto simp: ids)
    qed
    show "\<forall>f\<in>set (map h (bw_files w)). resolved f \<or> jf_id f \<in> set (held w) \<longrightarrow>
        (\<forall>j\<in>set (map g (bw_jobs w)). bj_id j = jf_job f \<longrightarrow> settled j v)"
    proof -
      have "settled (g j) v" if x: "x \<in> set (bw_files w)" "resolved (h x) \<or> jf_id x \<in> set (held w)"
          and j: "j \<in> set (bw_jobs w)" "bj_id j = jf_job x" for x j
      proof -
        have "settled j w"
        proof (cases "resolved x \<or> jf_id x \<in> set (held w)")
          case True
          then show ?thesis using w(2) x(1) j by (auto simp: runs_fine_def)
        next
          case False
          then show ?thesis using opened[OF x(1)] x(2) j by blast
        qed
        then show ?thesis by (rule total[OF j(1)])
      qed
      then show ?thesis by (auto simp: ids)
    qed
  qed
  moreover have "extracts_fine v"
  proof -
    have wait: "waiting i fs v" if "waiting i fs w" "(t, i, ph) \<in> set (bw_extracting w)" for i fs t ph
    proof -
      have "\<not> resolved (h x)" if x: "x \<in> set (files_of i w)" for x
        using opened[of x] x \<open>waiting i fs w\<close> \<open>(t, i, ph) \<in> set (bw_extracting w)\<close> by (force simp: waiting_def files_of_def)
      then show ?thesis using that(1) by (auto simp: waiting_def r ids comp_def)
    qed
    have "phase_fine i v ph" if p: "(t, i, ph) \<in> set (bw_extracting w)" for t i ph
    proof -
      have "phase_fine i w ph" using w(3) p by (auto simp: extracts_fine_def)
      then show ?thesis using wait[OF _ p] total by (cases ph) (auto simp: r jobs ids)
    qed
    then show ?thesis using w(3) ex(4) unfolding extracts_fine_def ex(1,2) nx r by fastforce
  qed
  moreover have "\<forall>j\<in>set (bw_jobs v). counts_fine v j" using counts by (simp add: jobs)
  ultimately show ?thesis using w(1) by (simp add: bulk_fine_def r)
qed

lemma count_one:
  assumes "distinct (map jf_id xs)" "x \<in> set xs" "\<not> resolved x" "s = BF_PROCESSED \<or> s = BF_FAILED"
  shows "length (filter resolved (map (\<lambda>y. if jf_id y = jf_id x then y\<lparr>jf_status := s\<rparr> else y) xs)) = Suc (length (filter resolved xs))"
  using assms
proof (induction xs)
  case (Cons a xs)
  show ?case
  proof (cases "a = x")
    case True
    then have "map (\<lambda>y. if jf_id y = jf_id x then y\<lparr>jf_status := s\<rparr> else y) xs = xs"
      using Cons.prems(1) by (intro map_idI) (auto simp: image_iff)
    then show ?thesis using True Cons.prems(3,4) by (auto simp: resolved_def)
  next
    case False
    then have "jf_id a \<noteq> jf_id x" using Cons.prems(1,2) by (auto simp: image_iff)
    then show ?thesis using Cons False by simp
  qed
qed simp

lemma some_unresolved:
  assumes "x \<in> set (bw_files w)" "\<not> resolved x"
  shows "length (filter resolved (files_of (jf_job x) w)) < length (files_of (jf_job x) w)"
  using assms by (intro length_filter_less[of x]) (simp_all add: files_of_def)

lemma count_outcome_views [simp]:
  "bj_id (count_outcome c j) = bj_id j" "bj_status (count_outcome c j) = bj_status j" "uj_total (count_outcome c j) = uj_total j"
  "resolved_count (count_outcome c j) = resolved_count j + 1"
  by (simp_all add: count_outcome_def resolved_count_def split: outcome_count.split)

lemma close_if_done_views [simp]:
  "bj_id (close_if_done j) = bj_id j" "uj_total (close_if_done j) = uj_total j" "resolved_count (close_if_done j) = resolved_count j"
  "uj_failed (close_if_done j) = uj_failed j"
  by (simp_all add: close_if_done_def resolved_count_def)

lemma counts_cong:
  assumes "length (files_of (bj_id j) v) = length (files_of (bj_id j) w)"
    and "length (filter resolved (files_of (bj_id j) v)) = length (filter resolved (files_of (bj_id j) w))" "closing v = closing w"
  shows "counts_fine v j = counts_fine w j"
  by (simp only: counts_fine_def settled_def assms)

text \<open>A run that has counted its file; a run that has finalized its job.\<close>

definition with_closing :: "(string \<times> nat \<times> file_end) list \<Rightarrow> bulk_world \<Rightarrow> bulk_world" where
  "with_closing cs w = w\<lparr>bw_closing := cs\<rparr>"

lemma with_closing_views [simp]:
  "files_of i (with_closing cs w) = files_of i w" "held (with_closing cs w) = held w" "unpacking (with_closing cs w) = unpacking w"
  "settled j (with_closing cs w) = settled j w" "waiting i fs (with_closing cs w) = waiting i fs w"
  "phase_fine i (with_closing cs w) ph = phase_fine i w ph" "bw_jobs (with_closing cs w) = bw_jobs w"
  "bw_files (with_closing cs w) = bw_files w" "bw_extracting (with_closing cs w) = bw_extracting w" "logs (with_closing cs w) = logs w"
  "ids_fine (with_closing cs w) = ids_fine w" "runs_fine (with_closing cs w) = runs_fine w" "extracts_fine (with_closing cs w) = extracts_fine w"
  "closing (with_closing cs w) = (\<lambda>(t, i, e). i) ` set cs" "bw_closing (with_closing cs w) = cs"
proof -
  show f: "files_of i (with_closing cs w) = files_of i w" for i by (simp add: files_of_def with_closing_def)
  show h: "held (with_closing cs w) = held w" by (simp add: held_def with_closing_def)
  show u: "unpacking (with_closing cs w) = unpacking w" by (simp add: unpacking_def with_closing_def)
  show s: "settled j (with_closing cs w) = settled j w" for j by (simp add: settled_def f)
  show wt: "waiting i fs (with_closing cs w) = waiting i fs w" for i fs by (simp add: waiting_def f h)
  show j: "bw_jobs (with_closing cs w) = bw_jobs w" "bw_files (with_closing cs w) = bw_files w"
    "bw_extracting (with_closing cs w) = bw_extracting w" "bw_closing (with_closing cs w) = cs" by (simp_all add: with_closing_def)
  show l: "logs (with_closing cs w) = logs w" by (simp add: logs_def with_closing_def)
  show ph: "phase_fine i (with_closing cs w) ph = phase_fine i w ph" for i ph by (cases ph) (simp_all add: f s wt j)
  show "ids_fine (with_closing cs w) = ids_fine w" by (simp add: ids_fine_def with_closing_def)
  show "runs_fine (with_closing cs w) = runs_fine w" by (simp add: runs_fine_def h j s) (simp add: with_closing_def)
  show "extracts_fine (with_closing cs w) = extracts_fine w" by (simp add: extracts_fine_def u f l ph) (simp add: with_closing_def)
  show "closing (with_closing cs w) = (\<lambda>(t, i, e). i) ` set cs" by (simp add: closing_def with_closing_def)
qed

lemma closing_fine:
  assumes "bulk_fine w"
    and "\<And>j. j \<in> set (bw_jobs w) \<Longrightarrow> bj_status j = BU_PROCESSING \<Longrightarrow> bj_id j \<in> closing w \<Longrightarrow>
           resolved_count j < uj_total j \<or> bj_id j \<in> (\<lambda>(t, i, e). i) ` set cs"
  shows "bulk_fine (with_closing cs w)"
proof -
  have "counts_fine (with_closing cs w) j" if j: "j \<in> set (bw_jobs w)" for j
  proof -
    have "counts_fine w j" using assms(1) j by (simp add: bulk_fine_def)
    then show ?thesis using assms(2)[OF j] unfolding counts_fine_def with_closing_views by blast
  qed
  then show ?thesis using assms(1) by (simp add: bulk_fine_def)
qed

lemma more_closing_loose:
  assumes "loose f w"
  shows "loose f (with_closing (bw_closing w @ [c]) w)"
proof -
  have "bulk_fine (with_closing (bw_closing w @ [c]) w)" using assms by (intro closing_fine) (auto simp: loose_def closing_def)
  then show ?thesis using assms by (simp add: loose_def)
qed

lemma count_set:
  assumes "loose f w" "x \<in> set (bw_files w)" "jf_id x = f" "s = BF_PROCESSED \<or> s = BF_FAILED" "jf_job x \<in> closing w"
  shows "bulk_fine (set_job (jf_job x) (count_outcome c) (update_file_status f s w))"
proof -
  define i where "i = jf_job x"
  define g :: "upload_job \<Rightarrow> upload_job" where "g = (\<lambda>j. if bj_id j = i then count_outcome c j else j)"
  define h :: "job_file \<Rightarrow> job_file" where "h = (\<lambda>y. if jf_id y = f then y\<lparr>jf_status := s\<rparr> else y)"
  define v where "v = set_job i (count_outcome c) (update_file_status f s w)"
  have fine: "bulk_fine w" and free: "f \<notin> set (held w)" using assms(1) by (simp_all add: loose_def)
  have w: "ids_fine w" "runs_fine w" using fine by (simp_all add: bulk_fine_def)
  have only: "y = x" if "y \<in> set (bw_files w)" "jf_id y = f" for y
    using w(1) assms(2,3) that by (auto simp: ids_fine_def distinct_map inj_on_def)
  moreover obtain y where "y \<in> set (bw_files w)" "jf_id y = f" "\<not> resolved y"
      "jf_job y \<notin> (\<lambda>(t, i, ph). i) ` set (bw_extracting w)" "\<forall>j\<in>set (bw_jobs w). bj_id j = jf_job y \<longrightarrow> settled j w"
    using assms(1) unfolding loose_def by blast
  ultimately have x: "\<not> resolved x" "i \<notin> (\<lambda>(t, i, ph). i) ` set (bw_extracting w)" "\<forall>j\<in>set (bw_jobs w). bj_id j = i \<longrightarrow> settled j w"
    unfolding i_def by blast+
  have v: "v = w\<lparr>bw_jobs := map g (bw_jobs w), bw_files := map h (bw_files w)\<rparr>"
    by (simp add: v_def set_job_def update_file_status_def set_file_def g_def h_def)
  have r: "rewritten g h v w" by (simp add: rewritten_def v logs_def g_def h_def)
  note views = rewritten_views[OF r]
  have settled: "settled (g j) v" if "settled j w" for j using that by (simp add: views settled_def g_def)
  have "bulk_fine v"
  proof (rule rewrite_fine[OF r fine])
    fix y assume y: "y \<in> set (bw_files w)" "resolved (h y)" "\<not> resolved y"
    then have "y = x" using only by (auto simp: h_def split: if_splits)
    then show "jf_id y \<notin> set (held w) \<and> jf_job y \<notin> (\<lambda>(t, i, ph). i) ` set (bw_extracting w)
        \<and> (\<forall>j\<in>set (bw_jobs w). bj_id j = jf_job y \<longrightarrow> settled j w)"
      using free x(2,3) assms(3) by (simp add: i_def)
  next
    fix y :: job_file assume "jf_status y = BF_RUNNING" "jf_id y \<in> set (held w)"
    then show "jf_status (h y) = BF_RUNNING" using free by (auto simp: h_def)
  next
    fix j assume j: "j \<in> set (bw_jobs w)"
    have c: "counts_fine w j" using fine j by (simp add: bulk_fine_def)
    show "counts_fine v (g j)"
    proof (cases "bj_id j = i")
      case False
      have "map h (files_of (bj_id j) w) = files_of (bj_id j) w"
        using False only by (intro map_idI) (auto simp: files_of_def h_def i_def)
      then have same: "files_of (bj_id j) v = files_of (bj_id j) w" by (simp add: views(1))
      then have "counts_fine v j = counts_fine w j" by (intro counts_cong) (simp_all add: views)
      then show ?thesis using c False by (simp add: g_def)
    next
      case True
      have sett: "settled j w" using x(3) j True by blast
      have "length (filter resolved (map h (files_of i w))) = Suc (length (filter resolved (files_of i w)))"
        unfolding h_def assms(3)[symmetric] using w(1) assms(2,4) x(1)
        by (intro count_one) (auto simp: files_of_def ids_fine_def distinct_map_filter i_def)
      then have count: "resolved_count (g j) = int (length (filter resolved (files_of (bj_id (g j)) v)))"
        using c True by (simp add: counts_fine_def g_def views)
      have less: "resolved_count j < uj_total j"
        using c sett some_unresolved[OF assms(2) x(1)] True by (simp add: counts_fine_def settled_def i_def)
      moreover have "0 \<le> resolved_count j" using c by (simp add: counts_fine_def)
      moreover have "bj_status j \<noteq> BU_COMPLETED" "bj_status j \<noteq> BU_PARTIAL_FAILURE" using c less by (auto simp: counts_fine_def)
      ultimately show ?thesis using count settled[OF sett] True assms(5)
        unfolding counts_fine_def by (simp add: g_def views i_def)
    qed
  qed (use settled in simp)
  then show ?thesis by (simp add: v_def i_def)
qed

lemma loose_resolve:
  assumes "loose f w" "x \<in> set (bw_files w)" "jf_id x = f" "s = BF_PROCESSED \<or> s = BF_FAILED"
  shows "bulk_fine (resolve_file t f (jf_job x) s c e w)"
proof -
  let ?w = "with_closing (bw_closing w @ [(t, jf_job x, e)]) w"
  have "bulk_fine (set_job (jf_job x) (count_outcome c) (update_file_status f s ?w))"
    by (rule count_set[OF more_closing_loose[OF assms(1)] _ assms(3,4)]) (simp_all add: assms(2))
  moreover have "resolve_file t f (jf_job x) s c e w = set_job (jf_job x) (count_outcome c) (update_file_status f s ?w)"
    by (cases w) (simp add: resolve_file_def with_closing_def set_job_def update_file_status_def set_file_def Let_def)
  ultimately show ?thesis by simp
qed

lemma finalize_fine:
  assumes "bulk_fine w"
  shows "bulk_fine (set_job i close_if_done w)"
    "\<And>j. j \<in> set (bw_jobs (set_job i close_if_done w)) \<Longrightarrow> bj_id j = i \<Longrightarrow> bj_status j = BU_PROCESSING \<Longrightarrow> resolved_count j < uj_total j"
proof -
  let ?v = "set_job i close_if_done w"
  define g :: "upload_job \<Rightarrow> upload_job" where "g = (\<lambda>j. if bj_id j = i then close_if_done j else j)"
  have r: "rewritten g (\<lambda>x. x) ?v w" by (simp add: rewritten_def set_job_def logs_def g_def)
  note views = rewritten_views[OF r]
  have pos: "0 < uj_total j" if "j \<in> set (bw_jobs w)" "bj_status j = BU_PROCESSING" for j
    using assms that by (auto simp: bulk_fine_def counts_fine_def)
  show "resolved_count j < uj_total j" if j: "j \<in> set (bw_jobs ?v)" "bj_id j = i" "bj_status j = BU_PROCESSING" for j
  proof -
    have "j \<in> g ` set (bw_jobs w)" using j(1) by (simp add: set_job_def g_def)
    then obtain k where k: "j = g k" "k \<in> set (bw_jobs w)" by (rule imageE)
    then have "j = close_if_done k" using j(2) by (auto simp: g_def split: if_splits)
    then show ?thesis using j(3) pos[OF k(2)] by (auto simp: close_if_done_def split: if_splits)
  qed
  show "bulk_fine ?v"
  proof (rule rewrite_fine[OF r assms])
    fix j assume j: "j \<in> set (bw_jobs w)"
    have c: "counts_fine w j" using assms j by (simp add: bulk_fine_def)
    have le: "settled j w \<Longrightarrow> resolved_count j \<le> uj_total j"
      using c length_filter_le[of resolved "files_of (bj_id j) w"] by (simp add: counts_fine_def settled_def)
    have "counts_fine ?v (close_if_done j)"
    proof (cases "bj_status j \<noteq> BU_PROCESSING \<or> uj_total j = 0 \<or> resolved_count j < uj_total j")
      case True
      then have "close_if_done j = j" by (simp add: close_if_done_def)
      moreover have "counts_fine ?v j = counts_fine w j" by (intro counts_cong) (simp_all add: views)
      ultimately show ?thesis using c by simp
    next
      case False
      then have "settled j w" "0 < uj_total j" "resolved_count j = uj_total j" using c le by (auto simp: counts_fine_def)
      moreover have "bj_status (close_if_done j) \<noteq> BU_PROCESSING" "bj_status (close_if_done j) = BU_COMPLETED \<Longrightarrow> uj_failed j = 0"
        using False by (auto simp: close_if_done_def split: if_splits)
      moreover have "settled (close_if_done j) ?v" using \<open>settled j w\<close> by (simp add: views settled_def)
      ultimately show ?thesis using c by (simp add: counts_fine_def views)
    qed
    moreover have "counts_fine ?v j = counts_fine w j" by (intro counts_cong) (simp_all add: views)
    ultimately show "counts_fine ?v (g j)" using c by (simp add: g_def)
  qed (auto simp: views settled_def g_def)
qed

section \<open>The operations\<close>

lemma job_status_fine:
  assumes "bulk_fine w" "s \<noteq> BU_PROCESSING" "s \<noteq> BU_COMPLETED" "s \<noteq> BU_PARTIAL_FAILURE"
  shows "bulk_fine (update_job_status i s err e w)"
proof -
  define g :: "upload_job \<Rightarrow> upload_job" where
    "g = (\<lambda>j. if bj_id j = i then j\<lparr>bj_status := s, uj_error := (case err of None \<Rightarrow> uj_error j | Some e \<Rightarrow> Some e), uj_ended := (e \<or> uj_ended j)\<rparr> else j)"
  have r: "rewritten g (\<lambda>x. x) (update_job_status i s err e w) w"
    by (simp add: rewritten_def update_job_status_def set_job_def logs_def g_def)
  note views = rewritten_views[OF r]
  show ?thesis
  proof (rule rewrite_fine[OF r assms(1)])
    fix j assume "j \<in> set (bw_jobs w)"
    then have c: "counts_fine w j" using assms(1) by (simp add: bulk_fine_def)
    have "resolved_count (g j) = resolved_count j" "bj_id (g j) = bj_id j" "uj_total (g j) = uj_total j" "uj_failed (g j) = uj_failed j"
      "bj_status (g j) = bj_status j \<or> bj_status (g j) = s"
      by (simp_all add: g_def resolved_count_def)
    then show "counts_fine (update_job_status i s err e w) (g j)"
      using c assms(2-4) unfolding counts_fine_def views settled_def by auto
  qed (auto simp: views settled_def g_def)
qed

lemma set_running:
  assumes "loose f w" "x \<in> set (bw_files w)" "jf_id x = f"
  shows "loose f (update_file_status f BF_RUNNING w)"
    "x\<lparr>jf_status := BF_RUNNING\<rparr> \<in> set (bw_files (update_file_status f BF_RUNNING w))"
proof -
  let ?v = "update_file_status f BF_RUNNING w"
  define h :: "job_file \<Rightarrow> job_file" where "h = (\<lambda>y. if jf_id y = f then y\<lparr>jf_status := BF_RUNNING\<rparr> else y)"
  have r: "rewritten (\<lambda>j. j) h ?v w" by (simp add: rewritten_def update_file_status_def set_file_def logs_def h_def)
  note views = rewritten_views[OF r]
  have fine: "bulk_fine w" "f \<notin> set (held w)" using assms(1) by (simp_all add: loose_def)
  have w: "ids_fine w" using fine(1) by (simp add: bulk_fine_def)
  obtain y where y: "y \<in> set (bw_files w)" "jf_id y = f" "\<not> resolved y"
      "jf_job y \<notin> (\<lambda>(t, i, ph). i) ` set (bw_extracting w)" "\<forall>j\<in>set (bw_jobs w). bj_id j = jf_job y \<longrightarrow> settled j w"
    using assms(1) unfolding loose_def by blast
  have only: "z = y" if "z \<in> set (bw_files w)" "jf_id z = f" for z
    using w y(1,2) that by (auto simp: ids_fine_def distinct_map inj_on_def)
  have h: "resolved (h z) \<longleftrightarrow> resolved z" if "z \<in> set (bw_files w)" for z
    using only[OF that] y(3) by (auto simp: h_def resolved_def)
  have "bulk_fine ?v"
  proof (rule rewrite_fine[OF r fine(1)])
    fix j assume "j \<in> set (bw_jobs w)"
    then have c: "counts_fine w j" using fine(1) by (simp add: bulk_fine_def)
    have "filter resolved (map h (files_of (bj_id j) w)) = map h (filter resolved (files_of (bj_id j) w))"
      using h by (simp add: filter_map comp_def files_of_def cong: filter_cong)
    then have "counts_fine ?v j = counts_fine w j" by (intro counts_cong) (simp_all add: views)
    then show "counts_fine ?v j" using c by simp
  qed (use fine(2) h in \<open>auto simp: views settled_def h_def\<close>)
  moreover have "h y \<in> set (bw_files ?v)" using y(1) r by (simp add: rewritten_def)
  moreover have "\<not> resolved (h y)" "jf_id (h y) = f" "jf_job (h y) = jf_job y" using h[OF y(1)] y by (simp_all add: h_def)
  moreover have "bw_extracting ?v = bw_extracting w" "bw_jobs ?v = bw_jobs w" by (simp_all add: update_file_status_def set_file_def)
  moreover have "settled j ?v = settled j w" for j by (simp add: settled_def views)
  ultimately show "loose f ?v" unfolding loose_def using y(4,5) fine(2) views(2) by (intro conjI bexI[of _ "h y"]) auto
  show "x\<lparr>jf_status := BF_RUNNING\<rparr> \<in> set (bw_files ?v)"
    using assms(2,3) by (force simp: update_file_status_def set_file_def)
qed

lemma cancel_fine:
  assumes "bulk_fine w"
  shows "bulk_fine (snd (cancel_queued_files i w))"
proof -
  define h :: "job_file \<Rightarrow> job_file" where "h = (\<lambda>f. if jf_job f = i \<and> jf_status f = BF_QUEUED then f\<lparr>jf_status := BF_CANCELLED\<rparr> else f)"
  let ?v = "snd (cancel_queued_files i w)"
  have r: "rewritten (\<lambda>j. j) h ?v w" by (simp add: rewritten_def cancel_queued_files_def logs_def h_def)
  note views = rewritten_views[OF r]
  have h: "resolved (h z) \<longleftrightarrow> resolved z" for z by (simp add: h_def resolved_def)
  show ?thesis
  proof (rule rewrite_fine[OF r assms])
    fix j assume "j \<in> set (bw_jobs w)"
    then have c: "counts_fine w j" using assms by (simp add: bulk_fine_def)
    have "filter resolved (map h (files_of (bj_id j) w)) = map h (filter resolved (files_of (bj_id j) w))"
      by (simp add: filter_map comp_def h)
    then have "counts_fine ?v j = counts_fine w j" by (intro counts_cong) (simp_all add: views)
    then show "counts_fine ?v j" using c by simp
  qed (auto simp: views settled_def h_def resolved_def split: if_splits)
qed

lemma log_bulk:
  "bulk_fine w \<Longrightarrow> bulk_fine (log_ended t s w)" "bulk_fine w \<Longrightarrow> bulk_fine (log_success t ty r w)"
  "bulk_fine w \<Longrightarrow> bulk_fine (log_created ev t ty w)" "bulk_fine w \<Longrightarrow> bulk_fine (log_running ev t w)"
  using same_bulk_fine[OF same_log(3)] same_bulk_fine[OF same_log(4)] same_bulk_fine[OF same_log(1)] same_bulk_fine[OF same_log(2)] by blast+

lemma same_parse_failed: "loose f w \<Longrightarrow> loose f (mark_parse_failed r w)" "bw_files (mark_parse_failed r w) = bw_files w"
  using same_bulk_loose[OF same_log(5)] same_log(5)[of r w] by (auto simp: same_bulk_def)

lemma file_failed_fine:
  assumes "loose f w" "x \<in> set (bw_files w)" "jf_id x = f"
  shows "bulk_fine (file_failed t f (jf_job x) r w)"
  unfolding file_failed_def using assms same_parse_failed by (intro loose_resolve) auto

lemma campaign_refused_fine:
  assumes "loose f w" "x \<in> set (bw_files w)" "jf_id x = f"
  shows "bulk_fine (campaign_refused t f (jf_job x) e w)"
  unfolding campaign_refused_def using assms by (intro loose_resolve) auto

lemma close_file_fine:
  assumes "bulk_fine w"
  shows "bulk_fine (close_file t i e w)"
proof -
  let ?cs = "remove1 (t, i, e) (bw_closing w)"
  have "distinct (map bj_id (bw_jobs (w\<lparr>bw_closing := ?cs\<rparr>)))" using assms by (simp add: bulk_fine_def ids_fine_def)
  then have "maybe_finalize_job i (w\<lparr>bw_closing := ?cs\<rparr>) = with_closing ?cs (set_job i close_if_done w)"
    by (simp add: finalize_as_map set_job_def with_closing_def)
  moreover have "bulk_fine (with_closing ?cs (set_job i close_if_done w))"
  proof (rule closing_fine[OF finalize_fine(1)[OF assms]])
    fix j assume j: "j \<in> set (bw_jobs (set_job i close_if_done w))" "bj_status j = BU_PROCESSING" "bj_id j \<in> closing (set_job i close_if_done w)"
    show "resolved_count j < uj_total j \<or> bj_id j \<in> (\<lambda>(t, i, e). i) ` set ?cs"
    proof (cases "bj_id j = i")
      case True
      then show ?thesis using finalize_fine(2)[OF assms j(1)] j(2) by blast
    next
      case False
      obtain u a where c: "(u, bj_id j, a) \<in> set (bw_closing w)" using j(3) by (auto simp: closing_def set_job_def)
      then have "(u, bj_id j, a) \<in> set ?cs" using False in_set_remove1[of "(u, bj_id j, a)" "(t, i, e)"] by simp
      then have "(\<lambda>(t, i, e). i) (u, bj_id j, a) \<in> (\<lambda>(t, i, e). i) ` set ?cs" by (rule imageI)
      then show ?thesis by simp
    qed
  qed
  ultimately show ?thesis by (cases e) (simp_all add: close_file_def Let_def log_bulk(1,2))
qed

lemma stage_failed_fine:
  assumes "loose f w" "x \<in> set (bw_files w)" "jf_id x = f"
  shows "bulk_fine (stage_failed t f (jf_job x) n r err w)"
proof -
  obtain delay j where d: "handle_failure parse_type t err n None \<lparr>jt_tasks = [], jt_failures = bw_failures w, jt_dlq = ik_dlq (it_saved (bw_in w))\<rparr> = (delay, j)"
    by fastforce
  define w1 where "w1 = on_tasks (\<lambda>d. d\<lparr>ik_dlq := jt_dlq j\<rparr>) (w\<lparr>bw_failures := jt_failures j\<rparr>)"
  have "same_bulk w1 w" by (simp add: w1_def same_bulk_def on_tasks_def logs_def commit_def edit_def rollback_def)
  then have w1: "loose f w1" "x \<in> set (bw_files w1)" using assms(1,2) same_bulk_loose by (auto simp: same_bulk_def)
  have again: "same_bulk (on_tasks (edit_task t (\<lambda>x. x\<lparr>tr_status := TK_RETRY\<rparr>)) w1) w1" by (rule same_on_tasks) simp
  then have "bulk_fine ((on_tasks (edit_task t (\<lambda>x. x\<lparr>tr_status := TK_RETRY\<rparr>)) w1)\<lparr>bw_queue := bw_queue w1 @ [(t, f, Suc n)]\<rparr>)"
    using loose_queue[OF same_bulk_loose[OF again w1(1)], of t "Suc n"] by (simp add: same_bulk_def)
  then show ?thesis using file_failed_fine[OF w1 assms(3)] d
    by (simp add: stage_failed_def w1_def[symmetric] split: option.split)
qed

section \<open>The runs of the parse task\<close>

definition task_ids :: "intake_db \<Rightarrow> string set" where
  "task_ids d = tr_task ` set (ik_tasks d)"

lemma create_ids:
  assumes "create_campaign_candidate camp c r actor role (rollback u) = (x, u')"
  shows "ik_tasks (it_db u') = ik_tasks (it_saved u)" "ik_tasks (it_saved u') = ik_tasks (it_saved u)"
  using assms by (auto simp: create_campaign_candidate_def Let_def commit_def rollback_def edit_def log_intake_def split: option.splits if_splits)

lemma person_ids:
  assumes "get_or_create_person ev e j s a role (rollback u) = (x, u')"
  shows "ik_tasks (it_db u') = ik_tasks (it_saved u)" "ik_tasks (it_saved u') = ik_tasks (it_saved u)"
  using assms by (auto simp: get_or_create_person_def Let_def commit_def rollback_def edit_def log_intake_def split: option.splits if_splits)

lemma version_ids:
  assumes "next_version c path f h task job d = (i, d')"
  shows "ik_tasks d' = ik_tasks d"
  using assms by (auto simp: next_version_def deactivate_active_version_def Let_def split: option.splits)

lemma same_intake: "ik_tasks (it_saved u) = ik_tasks (it_saved (bw_in w)) \<Longrightarrow> same_bulk (w\<lparr>bw_in := u\<rparr>) w"
  by (simp add: same_bulk_def logs_def)

lemma loose_intake:
  assumes "loose f w" "ik_tasks (it_saved u) = ik_tasks (it_saved (bw_in w))"
  shows "loose f (w\<lparr>bw_in := u\<rparr>)"
  by (rule same_bulk_loose[OF same_intake[OF assms(2)] assms(1)])

lemma link_duplicate_fine:
  assumes "loose f w" "x \<in> set (bw_files w)" "jf_id x = f" "jf_job x = bj_id j"
  shows "bulk_fine (link_duplicate t f j m w)"
proof -
  obtain y u where c: "create_campaign_candidate (bj_campaign j) (rf_candidate m) (rf_id m) (uj_by j) None (rollback (bw_in w)) = (y, u)"
    by fastforce
  have u: "ik_tasks (it_saved u) = ik_tasks (it_saved (bw_in w))" "ik_tasks (it_saved (commit u)) = ik_tasks (it_saved (bw_in w))"
    using create_ids[OF c] by (simp_all add: commit_def)
  have linked: "bulk_fine (resolve_file t f (bj_id j) BF_PROCESSED OC_Duplicate e v)"
    if "loose f v" "x \<in> set (bw_files v)" for v e
    using loose_resolve[OF that assms(3), of BF_PROCESSED t OC_Duplicate e] assms(4) by simp
  have "bulk_fine (campaign_refused t f (bj_id j) e (w\<lparr>bw_in := u\<rparr>))" for e
    using campaign_refused_fine[OF loose_intake[OF assms(1) u(1)] _ assms(3), of t e] assms(2,4) by simp
  moreover have "bulk_fine (resolve_file t f (bj_id j) BF_PROCESSED OC_Duplicate e (w\<lparr>bw_in := commit u\<rparr>))" for e
    using linked[OF loose_intake[OF assms(1) u(2)]] assms(2) by simp
  ultimately show ?thesis using linked[OF assms(1,2)] c by (auto simp: link_duplicate_def Let_def split: sum.split)
qed

lemma save_resume_fine:
  assumes "loose f w" "x \<in> set (bw_files w)" "jf_id x = f" "jf_job x = bj_id j" "jf_status x = BF_RUNNING"
  shows "bulk_fine (save_resume ev t f n j x fmt bytes email w)"
proof -
  obtain y u where c: "get_or_create_person (intake_env.truncate ev) email (uj_juris j) ''BULK_UPLOAD_FORM'' (uj_by j) None (rollback (bw_in w)) = (y, u)"
    by fastforce
  note u = person_ids[OF c]
  have "bulk_fine (file_failed t f (bj_id j) None (w\<lparr>bw_in := rollback u\<rparr>))"
    using file_failed_fine[OF loose_intake[OF assms(1)] _ assms(3), of "rollback u" t None] assms(2,4) u(2) by (simp add: rollback_def)
  moreover have "bulk_fine (w\<lparr>bw_in := commit (u\<lparr>it_db := d\<rparr>), bw_runs := bw_runs w @ [(t, f, n, RP_Saved r)]\<rparr>)"
    if "next_version p (jf_path x) fmt (ie_md5 ev bytes) (Some t) (Some (bj_id j)) (it_db u) = (r, d)" for p r d
  proof -
    have "ik_tasks (it_saved (commit (u\<lparr>it_db := d\<rparr>))) = ik_tasks (it_saved (bw_in w))"
      using version_ids[OF that] u(1) by (simp add: commit_def)
    from loose_run[OF loose_intake[OF assms(1) this] _ assms(3,5), of t n "RP_Saved r"] show ?thesis using assms(2) by simp
  qed
  ultimately show ?thesis using c by (auto simp: save_resume_def split: sum.split prod.split)
qed

lemma find_file_in: "find_file f w = Some x \<Longrightarrow> x \<in> set (bw_files w) \<and> jf_id x = f"
  using find_Some_set[of _ "bw_files w"] by (auto simp: find_file_def)

lemma find_job_in: "find_job i w = Some j \<Longrightarrow> j \<in> set (bw_jobs w) \<and> bj_id j = i"
  using find_Some_set[of _ "bw_jobs w"] by (auto simp: find_job_def)

lemma read_file_fine:
  assumes "bulk_fine w" "(t, f, n, RP_Claimed) \<in> set (bw_runs w)"
  shows "bulk_fine (read_file ev rd t f n w)"
proof -
  define v where "v = end_run t f w"
  have loose: "loose f v" and "\<exists>x\<in>set (bw_files w). jf_id x = f \<and> jf_status x = BF_RUNNING"
    using end_run_loose[OF assms] by (simp_all add: v_def)
  then obtain x where x: "x \<in> set (bw_files v)" "jf_id x = f" "jf_status x = BF_RUNNING" by (auto simp: v_def end_run_views)
  have ids: "ids_fine v" and fine: "bulk_fine v" using loose by (simp_all add: loose_def bulk_fine_def)
  have found: "find_file f v = Some x" unfolding find_file_def using ids x(1,2) by (intro find_id) (simp_all add: ids_fine_def)
  show ?thesis
  proof (cases "find_job (jf_job x) v")
    case None
    then show ?thesis using found log_bulk(1)[OF fine] by (simp add: read_file_def v_def[symmetric])
  next
    case (Some j)
    then have j: "jf_job x = bj_id j" using find_job_in by auto
    note bad = file_failed_fine[OF loose x(1,2), unfolded j] stage_failed_fine[OF loose x(1,2), unfolded j]
      link_duplicate_fine[OF loose x(1,2) j] save_resume_fine[OF loose x(1,2) j x(3)]
    show ?thesis using found Some bad
      by (auto simp: read_file_def v_def[symmetric] Let_def j split: option.split sum.split reading.split)
  qed
qed

lemma persist_file_fine:
  assumes "bulk_fine w" "(t, f, n, RP_Saved r) \<in> set (bw_runs w)"
  shows "bulk_fine (persist_file sv t f n r w)"
proof -
  define v where "v = end_run t f w"
  have loose: "loose f v" and "\<exists>x\<in>set (bw_files w). jf_id x = f \<and> jf_status x = BF_RUNNING"
    using end_run_loose[OF assms] by (simp_all add: v_def)
  then obtain x where x: "x \<in> set (bw_files v)" "jf_id x = f" by (auto simp: v_def end_run_views)
  have ids: "ids_fine v" and fine: "bulk_fine v" using loose by (simp_all add: loose_def bulk_fine_def)
  have found: "find_file f v = Some x" unfolding find_file_def using ids x(1,2) by (intro find_id) (simp_all add: ids_fine_def)
  show ?thesis
  proof (cases "find_job (jf_job x) v")
    case None
    then show ?thesis using found fine by (simp add: persist_file_def v_def[symmetric])
  next
    case (Some j)
    then have j: "jf_job x = bj_id j" using find_job_in by auto
    define w1 where "w1 = on_tasks (set_parse_status r PS_PARSED) v"
    have "same_bulk w1 v" unfolding w1_def by (rule same_on_tasks) (simp add: set_parse_status_def)
    then have w1: "loose f w1" "x \<in> set (bw_files w1)" using same_bulk_loose[OF _ loose] x(1) by (auto simp: same_bulk_def)
    note bad = file_failed_fine[OF loose x(1,2), unfolded j] stage_failed_fine[OF loose x(1,2), unfolded j]
      file_failed_fine[OF w1 x(2), unfolded j]
    have "bulk_fine (campaign_refused t f (bj_id j) e (w1\<lparr>bw_in := u\<rparr>))"
      "bulk_fine (resolve_file t f (bj_id j) BF_PROCESSED OC_Processed (FE_Success None)
         (w1\<lparr>bw_in := commit (edit (log_intake a b s q l) u)\<rparr>))"
      if c: "create_campaign_candidate camp p q' who role (rollback (bw_in w1)) = (y, u)" for camp p q' who role y u e a b s q l
    proof -
      have u: "ik_tasks (it_saved u) = ik_tasks (it_saved (bw_in w1))"
        "ik_tasks (it_saved (commit (edit (log_intake a b s q l) u))) = ik_tasks (it_saved (bw_in w1))"
        using create_ids[OF c] by (simp_all add: commit_def edit_def log_intake_def)
      show "bulk_fine (campaign_refused t f (bj_id j) e (w1\<lparr>bw_in := u\<rparr>))"
        using campaign_refused_fine[OF loose_intake[OF w1(1) u(1)] _ x(2), of t e] w1(2) j by simp
      show "bulk_fine (resolve_file t f (bj_id j) BF_PROCESSED OC_Processed (FE_Success None)
         (w1\<lparr>bw_in := commit (edit (log_intake a b s q l) u)\<rparr>))"
        using loose_resolve[OF loose_intake[OF w1(1) u(2)] _ x(2), of BF_PROCESSED t OC_Processed "FE_Success None"] w1(2) j by simp
    qed
    then show ?thesis using found Some bad
      by (auto simp: persist_file_def v_def[symmetric] w1_def[symmetric] Let_def split: option.split sum.split saving.split prod.split)
  qed
qed

lemma take_message:
  assumes "bulk_fine w" "(t, f, n) \<in> set (bw_queue w)"
  shows "loose f (w\<lparr>bw_queue := remove1 (t, f, n) (bw_queue w)\<rparr>)" (is "loose f ?v")
proof -
  define g where "g = (\<lambda>(t :: string, f :: nat, n :: nat). f)"
  have w: "runs_fine w" "extracts_fine w" using assms(1) by (simp_all add: bulk_fine_def)
  have d: "distinct (map g (bw_queue w))" "set (map g (bw_queue w)) \<inter> set (map (\<lambda>(t, f, n, ph). f) (bw_runs w)) = {}"
    using w(1) unfolding runs_fine_def held_def g_def[symmetric] by simp_all
  obtain a b where q: "bw_queue w = a @ (t, f, n) # b" using split_list[OF assms(2)] by blast
  then have rem: "remove1 (t, f, n) (bw_queue w) = a @ b" using d(1) by (auto simp: remove1_append q distinct_map)
  have old: "held w = map g a @ f # map g b @ map (\<lambda>(t, f, n, ph). f) (bw_runs w)" by (simp add: held_def q g_def)
  have new: "held ?v = map g a @ map g b @ map (\<lambda>(t, f, n, ph). f) (bw_runs w)" by (simp add: held_def rem g_def)
  have h: "distinct (held ?v)" "set (held ?v) = set (held w) - {f}" "f \<in> set (held w)"
    using w(1) unfolding new runs_fine_def old by auto
  have rows: "same_rows ?v w" by (simp add: same_rows_def logs_def)
  have "bulk_fine ?v" by (rule hold_fine[OF assms(1) rows h(1)]) (use h in auto)
  moreover obtain x where x: "x \<in> set (bw_files w)" "jf_id x = f" "\<not> resolved x" using w(1) h(3) by (auto simp: runs_fine_def)
  moreover have "jf_job x \<notin> (\<lambda>(t, i, ph). i) ` set (bw_extracting w)" using extracting_not_held[OF w(2) x(1)] x(2) h(3) by simp
  moreover have "\<forall>j\<in>set (bw_jobs w). bj_id j = jf_job x \<longrightarrow> settled j w" using w(1) x(1,2) h(3) by (auto simp: runs_fine_def)
  ultimately show ?thesis using h(2) same_rows_views(3)[OF rows] unfolding loose_def by auto
qed

lemma claim_file_fine:
  assumes "bulk_fine w" "(t, f, n) \<in> set (bw_queue w)"
  shows "bulk_fine (claim_file ev t f n (w\<lparr>bw_queue := remove1 (t, f, n) (bw_queue w)\<rparr>))" (is "bulk_fine (claim_file ev t f n ?v)")
proof -
  define w1 where "w1 = (if has_log t ?v then log_running ev t ?v else log_created ev t parse_type ?v)"
  have "same_bulk w1 ?v" using same_log(1,2) by (simp add: w1_def)
  then have loose: "loose f w1" by (rule same_bulk_loose[OF _ take_message[OF assms]])
  then have fine: "bulk_fine w1" by (simp add: loose_def)
  have run: "bulk_fine ((update_file_status f BF_RUNNING w1)\<lparr>bw_runs := bw_runs w1 @ [(t, f, n, RP_Claimed)]\<rparr>)"
    if x: "x \<in> set (bw_files w1)" "jf_id x = f" for x
  proof -
    note s = set_running[OF loose x]
    show ?thesis using loose_run[OF s(1,2), of t n RP_Claimed] x(2) by (simp add: update_file_status_def set_file_def)
  qed
  show ?thesis using log_bulk(1)[OF fine] run find_file_in[of f w1]
    by (auto simp: claim_file_def w1_def[symmetric] Let_def split: option.split)
qed

section \<open>Requests\<close>

lemma cancel_job_fine:
  assumes "bulk_fine w"
  shows "bulk_fine (snd (cancel_job i actor role w))"
proof -
  have "bulk_fine (on_tasks (log_intake actor role a i l) (update_job_status i BU_CANCELLED None True (snd (cancel_queued_files i w))))" for a l
    by (rule same_bulk_fine[OF same_on_tasks job_status_fine[OF cancel_fine[OF assms]]]) (simp_all add: log_intake_def)
  then show ?thesis using assms by (auto simp: cancel_job_def split: option.split prod.split)
qed

lemma count_other:
  assumes "distinct (map jf_id xs)" "x \<in> set xs" "resolved x" "\<not> resolved (h x)" "\<And>y. jf_id y \<noteq> jf_id x \<Longrightarrow> h y = y"
  shows "length (filter resolved xs) = Suc (length (filter resolved (map h xs)))"
  using assms
proof (induction xs)
  case (Cons a xs)
  show ?case
  proof (cases "a = x")
    case True
    then have "map h xs = xs" using Cons.prems(1,5) by (intro map_idI) (auto simp: image_iff)
    then show ?thesis using True Cons.prems(3,4) by simp
  next
    case False
    then have "jf_id a \<noteq> jf_id x" using Cons.prems(1,2) by (auto simp: image_iff)
    then show ?thesis using Cons False by simp
  qed
qed simp

lemma resolved_free:
  assumes "bulk_fine w" "x \<in> set (bw_files w)" "resolved x"
  shows "jf_id x \<notin> set (held w)" "jf_job x \<notin> (\<lambda>(t, i, ph). i) ` set (bw_extracting w)"
    "\<forall>j\<in>set (bw_jobs w). bj_id j = jf_job x \<longrightarrow> settled j w"
proof -
  have w: "ids_fine w" "runs_fine w" "extracts_fine w" using assms(1) by (simp_all add: bulk_fine_def)
  show "jf_id x \<notin> set (held w)"
  proof
    assume "jf_id x \<in> set (held w)"
    then obtain y where y: "y \<in> set (bw_files w)" "jf_id y = jf_id x" "\<not> resolved y" using w(2) by (auto simp: runs_fine_def)
    then have "y = x" using w(1) assms(2) by (auto simp: ids_fine_def distinct_map inj_on_def)
    then show False using y(3) assms(3) by simp
  qed
  show "jf_job x \<notin> (\<lambda>(t, i, ph). i) ` set (bw_extracting w)"
  proof
    assume "jf_job x \<in> (\<lambda>(t, i, ph). i) ` set (bw_extracting w)"
    then obtain t ph where "(t, jf_job x, ph) \<in> set (bw_extracting w)" by auto
    then have "phase_fine (jf_job x) w ph" using w(3) by (auto simp: extracts_fine_def)
    moreover have "x \<in> set (files_of (jf_job x) w)" using assms(2) by (simp add: files_of_def)
    ultimately show False using assms(3) by (cases ph) (auto simp: waiting_def)
  qed
  show "\<forall>j\<in>set (bw_jobs w). bj_id j = jf_job x \<longrightarrow> settled j w" using w(2) assms(2,3) by (auto simp: runs_fine_def)
qed

lemma reopened_views [simp]:
  "bj_id (reopened j) = bj_id j" "bj_status (reopened j) = BU_PROCESSING" "uj_total (reopened j) = uj_total j"
  "resolved_count (reopened j) = resolved_count j - 1"
  by (simp_all add: reopened_def resolved_count_def)

lemma requeue_loose:
  assumes "bulk_fine w" "x \<in> set (bw_files w)" "jf_status x = BF_FAILED"
  shows "loose (jf_id x) (set_job (jf_job x) reopened (requeue_for_replay (jf_id x) t w))" (is "loose ?f ?v")
proof -
  define i where "i = jf_job x"
  define g :: "upload_job \<Rightarrow> upload_job" where "g = (\<lambda>j. if bj_id j = i then reopened j else j)"
  define h :: "job_file \<Rightarrow> job_file" where
    "h = (\<lambda>y. if jf_id y = jf_id x then (if jf_status y = BF_FAILED then y\<lparr>jf_status := BF_QUEUED, jf_task := t\<rparr> else y) else y)"
  have res: "resolved x" using assms(3) by (simp add: resolved_def)
  note free = resolved_free[OF assms(1,2) res]
  have w: "ids_fine w" using assms(1) by (simp add: bulk_fine_def)
  have only: "y = x" if "y \<in> set (bw_files w)" "jf_id y = jf_id x" for y
    using w assms(2) that by (auto simp: ids_fine_def distinct_map inj_on_def)
  have r: "rewritten g h ?v w"
    by (simp add: rewritten_def set_job_def requeue_for_replay_def set_file_def logs_def g_def h_def i_def)
  note views = rewritten_views[OF r]
  have closed: "resolved (h y) \<Longrightarrow> resolved y" for y by (auto simp: h_def resolved_def split: if_splits)
  have hx: "\<not> resolved (h x)" "jf_id (h x) = jf_id x" "jf_job (h x) = i" using assms(3) by (auto simp: h_def resolved_def i_def)
  have settled: "settled (g j) ?v" if "settled j w" for j using that by (simp add: views settled_def g_def)
  have "bulk_fine ?v"
  proof (rule rewrite_fine[OF r assms(1)])
    fix j assume j: "j \<in> set (bw_jobs w)"
    have c: "counts_fine w j" using assms(1) j by (simp add: bulk_fine_def)
    show "counts_fine ?v (g j)"
    proof (cases "bj_id j = i")
      case False
      have "map h (files_of (bj_id j) w) = files_of (bj_id j) w"
        using False only by (intro map_idI) (auto simp: files_of_def h_def i_def dest: only)
      then have "counts_fine ?v j = counts_fine w j" by (intro counts_cong) (simp_all add: views)
      then show ?thesis using c False by (simp add: g_def)
    next
      case True
      have sett: "settled j w" using free(3) j True by (simp add: i_def)
      have "length (filter resolved (files_of i w)) = Suc (length (filter resolved (map h (files_of i w))))"
        using w assms(2) res hx(1) by (intro count_other[of _ x]) (auto simp: files_of_def ids_fine_def distinct_map_filter i_def h_def)
      moreover have "length (filter resolved (files_of i w)) \<le> length (files_of i w)" by simp
      moreover have "files_of i w \<noteq> []" using assms(2) by (auto simp: files_of_def i_def filter_empty_conv)
      ultimately show ?thesis using c settled[OF sett] sett True
        by (simp add: counts_fine_def g_def views) (simp add: settled_def)
    qed
  next
    fix y :: job_file assume "jf_status y = BF_RUNNING"
    then show "jf_status (h y) = BF_RUNNING" by (simp add: h_def)
  qed (use closed settled in auto)
  moreover have "bw_jobs ?v = map g (bw_jobs w)" "bw_extracting ?v = bw_extracting w" "h x \<in> set (bw_files ?v)"
    using r assms(2) by (simp_all add: rewritten_def)
  moreover have "\<forall>j\<in>set (bw_jobs ?v). bj_id j = i \<longrightarrow> settled j ?v"
  proof (intro ballI impI)
    fix j assume j: "j \<in> set (bw_jobs ?v)" "bj_id j = i"
    have "j \<in> g ` set (bw_jobs w)" using j(1) unfolding \<open>bw_jobs ?v = map g (bw_jobs w)\<close> by simp
    then obtain k where k: "j = g k" "k \<in> set (bw_jobs w)" by (rule imageE)
    then have "bj_id k = i" using j(2) by (simp add: g_def split: if_splits)
    then have "settled k w" using free(3) k(2) by (simp add: i_def)
    then show "settled j ?v" unfolding k(1) by (rule settled)
  qed
  ultimately show ?thesis using free(1,2) hx unfolding loose_def views(2) i_def by (intro conjI bexI[of _ "h x"]) simp_all
qed

lemma draw_same: "draw_task ev w = (t, w') \<Longrightarrow> same_bulk w' w"
  by (auto simp: draw_task_def draw_id_def same_bulk_def logs_def)

lemma reopen_fine:
  assumes "bulk_fine w" "draw_task ev w = (t, w1)" "x \<in> set (bw_files w)" "jf_id x = f" "jf_job x = i" "jf_status x = BF_FAILED"
    and "\<And>d. task_ids (g d) = task_ids d"
  shows "loose f (on_tasks g (set_job i reopened (requeue_for_replay f t w1)))"
proof -
  have same: "same_bulk w1 w" by (rule draw_same[OF assms(2)])
  have x: "x \<in> set (bw_files w1)" using assms(3) same by (simp add: same_bulk_def)
  have loose: "loose f (set_job i reopened (requeue_for_replay f t w1))"
    using requeue_loose[OF same_bulk_fine[OF same assms(1)] x assms(6), of t] assms(4,5) by simp
  show ?thesis by (rule same_bulk_loose[OF same_on_tasks loose]) (use assms(7) in \<open>simp add: task_ids_def\<close>)
qed

lemma replay_fine:
  assumes "bulk_fine w"
  shows "bulk_fine (snd (replay_failed_file ev i f actor role w))"
proof (cases "find_job i w")
  case None
  then show ?thesis using assms by (simp add: replay_failed_file_def)
next
  case j: (Some j)
  show ?thesis
  proof (cases "find (\<lambda>x. jf_id x = f \<and> jf_job x = i) (bw_files w)")
    case None
    then show ?thesis using assms j by (simp add: replay_failed_file_def)
  next
    case (Some x)
    then have x: "x \<in> set (bw_files w)" "jf_id x = f" "jf_job x = i" using find_Some_set[OF Some] by simp_all
    show ?thesis
    proof (cases "jf_status x = BF_FAILED")
      case False
      then show ?thesis using assms j Some by (simp add: replay_failed_file_def)
    next
      case failed: True
      obtain t w1 where t: "draw_task ev w = (t, w1)" by fastforce
      note loose = reopen_fine[OF assms t x failed]
      show ?thesis
      proof (cases "precheck_campaign_eligibility (bj_campaign j) (it_saved (bw_in w))")
        case (Inl e)
        then show ?thesis using assms j Some failed by (simp add: replay_failed_file_def)
      next
        case (Inr ca)
        show ?thesis
        proof (cases "find (\<lambda>d. dq_task d = jf_task x) (ik_dlq (it_saved (bw_in w)))")
          case None
          then show ?thesis using assms j Some failed Inr by (simp add: replay_failed_file_def)
        next
          case dl: (Some dl)
          let ?g = "\<lambda>d. log_intake actor role ''BULK_UPLOAD_FILE_REPLAYED'' f
              [(''original_task_id'', JStr (jf_task x)), (''new_task_id'', JStr t), (''dead_letter_queue_id'', JNum (of_nat (dq_id dl)))]
              (d\<lparr>ik_dlq := map (\<lambda>y. if dq_id y = dq_id dl then y\<lparr>dq_replayed_by := Some actor\<rparr> else y) (ik_dlq d)\<rparr>)"
          have "task_ids (?g d) = task_ids d" for d by (simp add: task_ids_def log_intake_def)
          note l = loose[of ?g, OF this]
          define v where "v = on_tasks ?g (set_job i reopened (requeue_for_replay f t w1))"
          have "snd (replay_failed_file ev i f actor role w) \<in> {w, v, v\<lparr>bw_queue := bw_queue v @ [(t, f, 1)]\<rparr>}"
            by (simp add: replay_failed_file_def j Some Inr dl t failed Let_def v_def)
          then show ?thesis using l loose_queue[OF l, of t 1] assms unfolding v_def[symmetric] loose_def by auto
        qed
      qed
    qed
  qed
qed

end
