(* ===== verification/Bulk_Upload_Flow.thy ===== *)
theory Bulk_Upload_Flow
  imports Bulk_Upload_Props
begin

text \<open>
  Extractions keep the invariant; the step relation of requests, extractions, parses and lost
  workers; the counters and the end of a job in every state it reaches.
\<close>

section \<open>Extractions\<close>

definition apart :: "bulk_world \<Rightarrow> bulk_world \<Rightarrow> bool" where
  "apart v w \<longleftrightarrow> bw_jobs v = bw_jobs w \<and> bw_files v = bw_files w \<and> bw_queue v = bw_queue w \<and> bw_runs v = bw_runs w
     \<and> bw_closing v = bw_closing w"

lemma apart_views:
  assumes "apart v w"
  shows "files_of i v = files_of i w" "held v = held w" "settled j v = settled j w" "counts_fine v j = counts_fine w j"
    "waiting i fs v = waiting i fs w" "phase_fine i v ph = phase_fine i w ph" "runs_fine v = runs_fine w"
proof -
  have eq: "bw_jobs v = bw_jobs w" "bw_files v = bw_files w" "bw_queue v = bw_queue w" "bw_runs v = bw_runs w"
    "bw_closing v = bw_closing w" using assms by (simp_all add: apart_def)
  show f: "files_of i v = files_of i w" for i by (simp add: files_of_def eq)
  show h: "held v = held w" by (simp add: held_def eq)
  show s: "settled j v = settled j w" for j by (simp add: settled_def f)
  show "counts_fine v j = counts_fine w j" by (simp add: counts_fine_def f s closing_def eq)
  show wt: "waiting i fs v = waiting i fs w" for i fs by (simp add: waiting_def f h)
  show "phase_fine i v ph = phase_fine i w ph" by (cases ph) (simp_all add: f wt s eq)
  show "runs_fine v = runs_fine w" by (simp add: runs_fine_def h eq s)
qed

lemma apart_fine:
  assumes "bulk_fine w" "apart v w" "bw_next w \<le> bw_next v" "extracts_fine v"
  shows "bulk_fine v"
proof -
  have "ids_fine v" using assms(1-3) by (fastforce simp: bulk_fine_def ids_fine_def apart_def)
  moreover have "bw_jobs v = bw_jobs w" using assms(2) by (simp add: apart_def)
  ultimately show ?thesis using assms(1,4) by (simp add: bulk_fine_def apart_views[OF assms(2)])
qed

lemma unpacking_extracting:
  assumes "distinct (unpacking w)" "(t, i, ph) \<in> set (bw_extracting w)"
  shows "distinct (unpacking (end_extract t i w))" "set (unpacking (end_extract t i w)) = set (unpacking w) - {i}"
proof -
  define g where "g = (\<lambda>(t :: string, i :: nat, ph :: extract_phase). i)"
  have d: "distinct (map g (bw_extracting w))" "i \<notin> set (map snd (bw_extracts w))"
  proof -
    have "i \<in> g ` set (bw_extracting w)" using assms(2) by (force simp: g_def)
    then show "distinct (map g (bw_extracting w))" "i \<notin> set (map snd (bw_extracts w))"
      using assms(1) unfolding unpacking_def g_def[symmetric] by (auto simp: disjoint_iff image_iff)
  qed
  have mine: "r = (t, i, ph)" if "r \<in> set (bw_extracting w)" "g r = i" for r
    using d(1) assms(2) that by (auto simp: distinct_map inj_on_def g_def)
  have "filter (\<lambda>(u, k, ph). (u, k) \<noteq> (t, i)) (bw_extracting w) = filter (\<lambda>r. g r \<noteq> i) (bw_extracting w)"
    using mine by (intro filter_cong) (auto simp: g_def)
  then have eq: "unpacking (end_extract t i w) = map snd (bw_extracts w) @ map g (filter (\<lambda>r. g r \<noteq> i) (bw_extracting w))"
    by (simp add: unpacking_def end_extract_def g_def)
  have old: "unpacking w = map snd (bw_extracts w) @ map g (bw_extracting w)" by (simp add: unpacking_def g_def)
  show "distinct (unpacking (end_extract t i w))" "set (unpacking (end_extract t i w)) = set (unpacking w) - {i}"
    using assms(1) d(2) unfolding eq old by (auto simp: distinct_map_filter)
qed

lemma apart_end_extract: "apart (end_extract t i w) w"
  by (simp add: apart_def end_extract_def)

lemma end_extract_views [simp]:
  "bw_jobs (end_extract t i w) = bw_jobs w" "bw_files (end_extract t i w) = bw_files w" "bw_next (end_extract t i w) = bw_next w"
  "bw_in (end_extract t i w) = bw_in w" "bw_extracts (end_extract t i w) = bw_extracts w" "logs (end_extract t i w) = logs w"
  by (simp_all add: end_extract_def logs_def)

text \<open>An extraction of job \<open>i\<close> is between two of its steps.\<close>

definition between :: "string \<Rightarrow> nat \<Rightarrow> extract_phase \<Rightarrow> bulk_world \<Rightarrow> bool" where
  "between t i ph w \<longleftrightarrow> bulk_fine w \<and> i \<notin> set (unpacking w) \<and> i < bw_next w \<and> t \<in> logs w \<and> phase_fine i w ph"

lemma end_extract_between:
  assumes "bulk_fine w" "(t, i, ph) \<in> set (bw_extracting w)"
  shows "between t i ph (end_extract t i w)"
proof -
  have e: "extracts_fine w" using assms(1) by (simp add: bulk_fine_def)
  have u: "distinct (unpacking (end_extract t i w))" "set (unpacking (end_extract t i w)) = set (unpacking w) - {i}"
    using unpacking_extracting[OF _ assms(2)] e by (simp_all add: extracts_fine_def)
  note a = apart_views[OF apart_end_extract]
  have i: "i \<in> set (unpacking w)" using assms(2) by (force simp: unpacking_def)
  have "extracts_fine (end_extract t i w)"
    unfolding extracts_fine_def a end_extract_views
    using e u by (auto simp: extracts_fine_def end_extract_def)
  then have "bulk_fine (end_extract t i w)" by (intro apart_fine[OF assms(1) apart_end_extract]) simp_all
  then show ?thesis using e assms(2) i u(2) by (auto simp: between_def a extracts_fine_def)
qed

lemma between_again:
  assumes "between t i ph w"
  shows "bulk_fine (w\<lparr>bw_extracting := bw_extracting w @ [(t, i, ph)]\<rparr>)" (is "bulk_fine ?v")
    and "bulk_fine (w\<lparr>bw_extracts := bw_extracts w @ [(t, i)]\<rparr>)" (is "bulk_fine ?u")
proof -
  have e: "extracts_fine w" "bulk_fine w" using assms by (simp_all add: between_def bulk_fine_def)
  have v: "apart ?v w" "apart ?u w" by (simp_all add: apart_def)
  have logs: "logs ?v = logs w" "logs ?u = logs w" by (simp_all add: logs_def)
  have n: "distinct (unpacking ?v)" "set (unpacking ?v) = insert i (set (unpacking w))"
    "distinct (unpacking ?u)" "set (unpacking ?u) = insert i (set (unpacking w))"
    using assms e(1) by (auto simp: unpacking_def between_def extracts_fine_def)
  have "extracts_fine ?v" unfolding extracts_fine_def apart_views[OF v(1)] logs
    using e(1) assms n by (auto simp: extracts_fine_def between_def)
  then show "bulk_fine ?v" by (intro apart_fine[OF e(2) v(1)]) simp_all
  have "extracts_fine ?u" unfolding extracts_fine_def apart_views[OF v(2)] logs
    using e(1) assms n by (auto simp: extracts_fine_def between_def)
  then show "bulk_fine ?u" by (intro apart_fine[OF e(2) v(2)]) simp_all
qed

lemma add_extract:
  assumes "bulk_fine w" "i \<notin> set (unpacking w)" "i < bw_next w" "files_of i w = []"
  shows "bulk_fine (w\<lparr>bw_extracts := bw_extracts w @ [(t, i)]\<rparr>)" (is "bulk_fine ?u")
proof -
  have e: "extracts_fine w" using assms by (simp add: bulk_fine_def)
  have v: "apart ?u w" by (simp add: apart_def)
  have logs: "logs ?u = logs w" by (simp add: logs_def)
  have n: "distinct (unpacking ?u)" "set (unpacking ?u) = insert i (set (unpacking w))"
    using assms(2) e by (auto simp: unpacking_def extracts_fine_def)
  have "extracts_fine ?u" unfolding extracts_fine_def apart_views[OF v] logs
    using e assms(3,4) n by (auto simp: extracts_fine_def)
  then show ?thesis by (intro apart_fine[OF assms(1) v]) simp_all
qed

lemma same_between: "same_bulk v w \<Longrightarrow> between t i ph w \<Longrightarrow> between t i ph v"
  using same_bulk_fine[of v w] by (auto simp: between_def same_bulk_views) (auto simp: same_bulk_def)

lemma between_fine: "between t i ph w \<Longrightarrow> bulk_fine w"
  by (simp add: between_def)

lemma delete_same: "same_bulk (delete_objects ps w) w"
  by (simp add: same_bulk_def delete_objects_def logs_def)

lemma extract_failed_fine: "bulk_fine w \<Longrightarrow> bulk_fine (extract_failed t i ps w)"
  unfolding extract_failed_def by (intro job_status_fine same_bulk_fine[OF delete_same] log_bulk(1)) simp_all

lemma reject_job_fine: "bulk_fine w \<Longrightarrow> bulk_fine (reject_job t i why w)"
  unfolding reject_job_def by (intro log_bulk(1) job_status_fine) simp_all

lemma take_extract:
  assumes "bulk_fine w" "(t, i) \<in> set (bw_extracts w)"
  shows "bulk_fine (w\<lparr>bw_extracts := remove1 (t, i) (bw_extracts w)\<rparr>)" (is "bulk_fine ?v")
    and "i \<notin> set (unpacking (w\<lparr>bw_extracts := remove1 (t, i) (bw_extracts w)\<rparr>))"
proof -
  have e: "extracts_fine w" using assms(1) by (simp add: bulk_fine_def)
  obtain a b where q: "bw_extracts w = a @ (t, i) # b" using split_list[OF assms(2)] by blast
  have d: "distinct (map snd a @ i # map snd b @ map (\<lambda>(t, i, ph). i) (bw_extracting w))"
    using e by (simp add: extracts_fine_def unpacking_def q)
  then have "(t, i) \<notin> set a" by (auto simp: image_iff)
  then have rem: "remove1 (t, i) (bw_extracts w) = a @ b" by (simp add: q remove1_append)
  have v: "apart ?v w" by (simp add: apart_def)
  have logs: "logs ?v = logs w" by (simp add: logs_def)
  have new: "unpacking ?v = map snd a @ map snd b @ map (\<lambda>(t, i, ph). i) (bw_extracting w)"
    and old: "unpacking w = map snd a @ i # map snd b @ map (\<lambda>(t, i, ph). i) (bw_extracting w)"
    by (simp_all add: unpacking_def rem) (simp add: q)
  have n: "distinct (unpacking ?v)" "set (unpacking ?v) \<subseteq> set (unpacking w)"
    unfolding new old using d by (simp, simp only: set_append list.set, blast)
  have sub: "set (remove1 (t, i) (bw_extracts w)) \<subseteq> set (bw_extracts w)" by (rule set_remove1_subset)
  show "i \<notin> set (unpacking ?v)" using d by (simp add: unpacking_def rem)
  have "extracts_fine ?v" unfolding extracts_fine_def apart_views[OF v] logs
    using e n sub by (auto simp: extracts_fine_def)
  then show "bulk_fine ?v" by (intro apart_fine[OF assms(1) v]) simp_all
qed

lemma begin_extract_fine:
  assumes "bulk_fine w" "(t, i) \<in> set (bw_extracts w)"
  shows "bulk_fine (begin_extract ev t i (w\<lparr>bw_extracts := remove1 (t, i) (bw_extracts w)\<rparr>))" (is "bulk_fine (begin_extract ev t i ?v)")
proof -
  note v = take_extract[OF assms]
  define w1 where "w1 = log_created ev t ''BULK_EXTRACT'' ?v"
  have same: "same_bulk w1 ?v" unfolding w1_def by (rule same_log(1))
  have fine: "bulk_fine w1" by (rule same_bulk_fine[OF same v(1)])
  have "bulk_fine ((update_job_status i BU_EXTRACTING None False w1)\<lparr>bw_extracting := bw_extracting w1 @ [(t, i, XP_Begun)]\<rparr>)"
    if "\<not> has_log t ?v"
  proof -
    have log: "t \<notin> logs w" using that by (simp add: has_log_logs logs_def)
    have e: "extracts_fine w" using assms(1) by (simp add: bulk_fine_def)
    have "files_of i w = []" using e assms(2) log by (auto simp: extracts_fine_def)
    moreover have "i \<in> set (unpacking w)" using assms(2) by (force simp: unpacking_def)
    then have "i < bw_next w" using e by (simp add: extracts_fine_def)
    moreover have "t \<in> logs w1" by (simp add: w1_def log_created_def on_tasks_def logs_def commit_def edit_def rollback_def log_row_def)
    ultimately have "between t i XP_Begun (update_job_status i BU_EXTRACTING None False w1)"
      using job_status_fine[OF fine, of BU_EXTRACTING i None False] v(2) same
      by (simp add: between_def update_job_status_def set_job_def same_bulk_def unpacking_def files_of_def logs_def)
    from between_again(1)[OF this] show ?thesis by (simp add: update_job_status_def set_job_def)
  qed
  then show ?thesis using v(1) log_bulk(1)[OF fine] log_bulk(1)[OF job_status_fine[OF fine]]
    by (auto simp: begin_extract_def w1_def[symmetric] Let_def split: option.split)
qed

text \<open>New rows of a job that has none.\<close>

lemma add_files_between:
  assumes "between t i XP_Begun w" "i \<in> bj_id ` set (bw_jobs w)"
    and v: "bw_jobs v = bw_jobs w" "bw_files v = bw_files w @ fs" "bw_queue v = bw_queue w" "bw_runs v = bw_runs w"
      "bw_extracts v = bw_extracts w" "bw_extracting v = bw_extracting w" "logs v = logs w" "bw_next w \<le> bw_next v" "bw_closing v = bw_closing w"
    and fs: "distinct (map jf_id fs)" "\<forall>f\<in>set fs. jf_job f = i \<and> jf_status f = BF_QUEUED \<and> bw_next w \<le> jf_id f \<and> jf_id f < bw_next v"
  shows "between t i (XP_Staged (map jf_id fs)) v"
proof -
  have w: "bulk_fine w" "i \<notin> set (unpacking w)" "i < bw_next w" "t \<in> logs w" "files_of i w = []"
    using assms(1) by (simp_all add: between_def)
  have parts: "ids_fine w" "runs_fine w" "extracts_fine w" using w(1) by (simp_all add: bulk_fine_def)
  have views: "held v = held w" "unpacking v = unpacking w" "closing v = closing w"
    by (simp_all add: held_def unpacking_def closing_def v)
  have of_i: "files_of i v = fs" using w(5) fs(2) by (simp add: files_of_def v filter_empty_conv)
  have other: "files_of k v = files_of k w" if "k \<noteq> i" for k
    using fs(2) that by (auto simp: files_of_def v filter_empty_conv)
  have new: "\<not> resolved f" "jf_id f \<notin> set (held w)" if "f \<in> set fs" for f
  proof -
    show "\<not> resolved f" using fs(2) that by (simp add: resolved_def)
    show "jf_id f \<notin> set (held w)"
    proof
      assume "jf_id f \<in> set (held w)"
      then obtain g where "g \<in> set (bw_files w)" "jf_id g = jf_id f" using parts(2) by (auto simp: runs_fine_def)
      then show False using parts(1) fs(2) that by (fastforce simp: ids_fine_def)
    qed
  qed
  have "ids_fine v"
  proof -
    have old: "jf_id f < bw_next w" if "f \<in> set (bw_files w)" for f using parts(1) that by (simp add: ids_fine_def)
    have "jf_id ` set (bw_files w) \<inter> jf_id ` set fs = {}"
    proof (intro equals0I)
      fix x assume "x \<in> jf_id ` set (bw_files w) \<inter> jf_id ` set fs"
      then obtain f g where fg: "f \<in> set (bw_files w)" "x = jf_id f" "g \<in> set fs" "x = jf_id g" by (elim IntE imageE)
      then have "bw_next w \<le> jf_id g" using fs(2) by blast
      then show False using old[OF fg(1)] fg(2,4) by simp
    qed
    then have "distinct (map jf_id (bw_files v))" using parts(1) fs(1) by (simp add: v ids_fine_def)
    moreover have "bj_id j < bw_next v" if "j \<in> set (bw_jobs w)" for j
      using parts(1) that v(8) by (meson ids_fine_def less_le_trans)
    moreover have "jf_id f < bw_next v \<and> jf_job f \<in> bj_id ` set (bw_jobs w)" if "f \<in> set (bw_files w @ fs)" for f
      using parts(1) that v(8) fs(2) assms(2) by (auto simp: ids_fine_def intro: less_le_trans)
    ultimately show ?thesis using parts(1) by (simp add: ids_fine_def v)
  qed
  moreover have settled: "settled j v = settled j w" if "bj_id j \<noteq> i" for j
    using other[OF that] by (simp add: settled_def)
  moreover have "runs_fine v"
  proof -
    have "settled j v" if f: "f \<in> set (bw_files w)" "resolved f \<or> jf_id f \<in> set (held w)" and j: "j \<in> set (bw_jobs w)" "bj_id j = jf_job f" for f j
    proof -
      have "jf_job f \<noteq> i" using w(5) f(1) by (auto simp: files_of_def filter_empty_conv)
      then show ?thesis using settled[of j] parts(2) f j by (auto simp: runs_fine_def)
    qed
    then show ?thesis using parts(2) new by (fastforce simp: runs_fine_def views v)
  qed
  moreover have "extracts_fine v"
  proof -
    have "phase_fine k v ph" if k: "(u, k, ph) \<in> set (bw_extracting w)" for u k ph
    proof -
      have "k \<noteq> i" using w(2) k by (force simp: unpacking_def)
      moreover have "phase_fine k w ph" using parts(3) k by (auto simp: extracts_fine_def)
      ultimately show ?thesis using other settled by (cases ph) (auto simp: waiting_def views v)
    qed
    moreover have "files_of k v = []" if "(u, k) \<in> set (bw_extracts w)" "files_of k w = []" for u k
      using other[of k] that w(2) by (force simp: unpacking_def)
    ultimately show ?thesis using parts(3) v(8) unfolding extracts_fine_def views v by fastforce
  qed
  moreover have "counts_fine v j" if j: "j \<in> set (bw_jobs w)" for j
  proof -
    have c: "counts_fine w j" using w(1) j by (simp add: bulk_fine_def)
    show ?thesis
    proof (cases "bj_id j = i")
      case False
      then show ?thesis using c counts_cong[of j v w] other views(3) by simp
    next
      case True
      have "filter resolved fs = []" using new(1) by (simp add: filter_empty_conv)
      then show ?thesis using c True w(5) of_i by (auto simp: counts_fine_def settled_def)
    qed
  qed
  ultimately have "bulk_fine v" by (simp add: bulk_fine_def v)
  then show ?thesis using w less_le_trans[OF w(3) v(8)] new by (simp add: between_def views v waiting_def of_i)
qed

definition beside :: "bulk_world \<Rightarrow> bulk_world \<Rightarrow> bool" where
  "beside v w \<longleftrightarrow> apart v w \<and> bw_extracts v = bw_extracts w \<and> bw_extracting v = bw_extracting w \<and> logs v = logs w"

lemma beside_trans: "beside u v \<Longrightarrow> beside v w \<Longrightarrow> beside u w"
  by (simp add: beside_def apart_def)

lemma draw_beside: "draw_task ev w = (t, w') \<Longrightarrow> beside w' w \<and> bw_next w' = bw_next w"
  by (auto simp: draw_task_def draw_id_def logs_def beside_def apart_def)

lemma beside_fields: "beside (w\<lparr>bw_objects := os, bw_next := n\<rparr>) w" "beside (w\<lparr>bw_objects := os\<rparr>) w" "beside (w\<lparr>bw_next := n\<rparr>) w"
  by (simp_all add: beside_def apart_def logs_def)

definition fresh_rows :: "nat \<Rightarrow> nat \<Rightarrow> nat \<Rightarrow> job_file list \<Rightarrow> bool" where
  "fresh_rows i m n fs \<longleftrightarrow> distinct (map jf_id fs) \<and> (\<forall>f\<in>set fs. jf_job f = i \<and> jf_status f = BF_QUEUED \<and> m \<le> jf_id f \<and> jf_id f < n)"

lemma store_entries_views:
  "store_entries ev i es w = ((r, ps), w') \<Longrightarrow>
     beside w' w \<and> bw_next w \<le> bw_next w' \<and> (\<forall>fs. r = Some fs \<longrightarrow> fresh_rows i (bw_next w) (bw_next w') fs)"
proof (induction es arbitrary: w r ps w')
  case Nil
  then show ?case by (auto simp: beside_def apart_def fresh_rows_def)
next
  case (Cons e es)
  obtain name bytes where e: "e = (name, bytes)" by fastforce
  obtain u w1 where u: "draw_task ev w = (u, w1)" by fastforce
  define path where "path = stored_path u name"
  note v1 = draw_beside[OF u]
  show ?case
  proof (cases "ie_store ev path")
    case False
    then have "r = None" "w' = w1" using Cons.prems u by (simp_all add: e path_def Let_def)
    then show ?thesis using v1 by simp
  next
    case True
    obtain t w2 where t: "draw_task ev (w1\<lparr>bw_objects := (path, bytes) # bw_objects w1\<rparr>) = (t, w2)" by fastforce
    note v2 = draw_beside[OF t]
    obtain q ps' w3 where q: "store_entries ev i es (w2\<lparr>bw_next := Suc (bw_next w2)\<rparr>) = ((q, ps'), w3)" by (metis surj_pair)
    define f where "f = \<lparr>jf_id = bw_next w2, jf_job = i, jf_name = base_name name, jf_path = path, jf_status = BF_QUEUED, jf_task = t\<rparr>"
    have out: "r = map_option (Cons f) q" "w' = w3"
      using Cons.prems u t q True by (simp_all add: e path_def[symmetric] f_def Let_def)
    have n: "bw_next w2 = bw_next w" using v1 v2 by simp
    have ih: "beside w3 (w2\<lparr>bw_next := Suc (bw_next w2)\<rparr>)" "Suc (bw_next w) \<le> bw_next w3"
      "\<forall>fs. q = Some fs \<longrightarrow> fresh_rows i (Suc (bw_next w)) (bw_next w3) fs"
      using Cons.IH[OF q] by (simp_all add: n)
    have "beside w3 w"
      using ih(1) beside_fields(3) v2 beside_fields(2) v1 by (blast intro: beside_trans)
    moreover have "fresh_rows i (bw_next w) (bw_next w3) (f # gs)" if "q = Some gs" for gs
      using ih(2) ih(3)[rule_format, OF that] by (auto simp: fresh_rows_def f_def n)
    ultimately show ?thesis using ih(2) out by auto
  qed
qed

lemma beside_fine:
  assumes "bulk_fine w" "beside v w" "bw_next w \<le> bw_next v"
  shows "bulk_fine v"
proof -
  have a: "apart v w" "bw_extracts v = bw_extracts w" "bw_extracting v = bw_extracting w" "logs v = logs w"
    using assms(2) by (simp_all add: beside_def)
  have e: "extracts_fine w" using assms(1) by (simp add: bulk_fine_def)
  have "unpacking v = unpacking w" by (simp add: unpacking_def a)
  then have "extracts_fine v" using e assms(3) unfolding extracts_fine_def a(2-4) apart_views[OF a(1)] by fastforce
  then show ?thesis by (rule apart_fine[OF assms(1) a(1) assms(3)])
qed

lemma stage_files_fine:
  assumes "bulk_fine w" "(t, i, XP_Begun) \<in> set (bw_extracting w)"
  shows "bulk_fine (stage_files ev t i w)"
proof -
  define v where "v = end_extract t i w"
  have b: "between t i XP_Begun v" unfolding v_def by (rule end_extract_between[OF assms])
  note fine = between_fine[OF b]
  have staged: "bulk_fine (case r of None \<Rightarrow> extract_failed t i ps w1
      | Some fs \<Rightarrow> w1\<lparr>bw_files := bw_files w1 @ fs, bw_extracting := bw_extracting w1 @ [(t, i, XP_Staged (map jf_id fs))]\<rparr>)"
    if run: "store_entries ev i es v = ((r, ps), w1)" and j: "find_job i v = Some j" for es r ps w1 j
  proof -
    note s = store_entries_views[OF run]
    have fine1: "bulk_fine w1" by (rule beside_fine[OF fine]) (use s in auto)
    show ?thesis
    proof (cases r)
      case None
      then show ?thesis using extract_failed_fine[OF fine1] by simp
    next
      case (Some fs)
      let ?v = "w1\<lparr>bw_files := bw_files w1 @ fs\<rparr>"
      have "between t i (XP_Staged (map jf_id fs)) ?v"
        using s Some find_job_in[OF j]
        by (intro add_files_between[OF b]) (auto simp: beside_def apart_def fresh_rows_def logs_def)
      from between_again(1)[OF this] show ?thesis using Some by simp
    qed
  qed
  show ?thesis using fine staged extract_failed_fine[OF fine] reject_job_fine[OF fine]
    by (auto simp: stage_files_def v_def[symmetric] Let_def split: option.splits prod.split)
qed

lemma set_job_set_job:
  assumes "\<And>j. bj_id (g j) = bj_id j"
  shows "set_job i f (set_job i g w) = set_job i (\<lambda>j. f (g j)) w"
proof -
  have "(\<lambda>j. if bj_id j = i then f j else j) \<circ> (\<lambda>j. if bj_id j = i then g j else j) = (\<lambda>j. if bj_id j = i then f (g j) else j)"
    using assms by (intro ext) simp
  then show ?thesis by (simp add: set_job_def)
qed

lemma open_job_fine:
  assumes "bulk_fine w" "(t, i, XP_Staged fs) \<in> set (bw_extracting w)"
  shows "bulk_fine (open_job t i fs w)"
proof -
  define v where "v = end_extract t i w"
  have b: "between t i (XP_Staged fs) v" unfolding v_def by (rule end_extract_between[OF assms])
  note fine = between_fine[OF b]
  have wait: "waiting i fs v" using b by (simp add: between_def)
  have len: "length (files_of i v) = length fs" using wait by (auto simp: waiting_def)
  have none: "filter resolved (files_of i v) = []" using wait by (simp add: waiting_def filter_empty_conv)
  define g :: "upload_job \<Rightarrow> upload_job" where
    "g = (\<lambda>j. if bj_id j \<noteq> i then j
       else if fs = [] then j\<lparr>uj_total := 0, bj_status := BU_FAILED, uj_error := Some ''ZIP archive contained no valid files.'', uj_ended := uj_ended j\<rparr>
       else j\<lparr>uj_total := int (length fs), bj_status := BU_PROCESSING, uj_ended := uj_ended j, uj_queued := uj_queued j + int (length fs)\<rparr>)"
  define w2 where "w2 = v\<lparr>bw_jobs := map g (bw_jobs v)\<rparr>"
  have r: "rewritten g (\<lambda>x. x) w2 v" by (simp add: rewritten_def w2_def logs_def g_def)
  note views = rewritten_views[OF r]
  have settled: "settled (g j) w2" if "settled j v \<or> bj_id j = i" for j
    using that len by (auto simp: views settled_def g_def)
  have fine2: "bulk_fine w2"
  proof (rule rewrite_fine[OF r fine])
    fix j assume j: "j \<in> set (bw_jobs v)"
    have c: "counts_fine v j" using fine j by (simp add: bulk_fine_def)
    show "counts_fine w2 (g j)"
    proof (cases "bj_id j = i")
      case False
      have "counts_fine w2 j = counts_fine v j" by (intro counts_cong) (simp_all add: views)
      then show ?thesis using c False by (simp add: g_def)
    next
      case True
      then have g: "bj_id (g j) = i" "uj_total (g j) = int (length fs)" "resolved_count (g j) = resolved_count j"
        "bj_status (g j) = (if fs = [] then BU_FAILED else BU_PROCESSING)"
        by (simp_all add: g_def resolved_count_def)
      have "resolved_count j = 0" using c True none by (simp add: counts_fine_def)
      then show ?thesis using settled[of j] True none by (auto simp: counts_fine_def g views)
    qed
  qed (use settled in auto)
  have "w2 = set_job i (\<lambda>j. if fs = [] then j\<lparr>uj_total := 0, bj_status := BU_FAILED, uj_error := Some ''ZIP archive contained no valid files.'', uj_ended := uj_ended j\<rparr>
       else j\<lparr>uj_total := int (length fs), bj_status := BU_PROCESSING, uj_ended := uj_ended j, uj_queued := uj_queued j + int (length fs)\<rparr>) v"
    unfolding w2_def set_job_def g_def by (intro arg_cong[of _ _ "\<lambda>js. v\<lparr>bw_jobs := js\<rparr>"] map_cong) simp_all
  then have eq: "open_job t i fs w = w2\<lparr>bw_extracting := bw_extracting w2 @ [(t, i, XP_Opened fs)]\<rparr>"
    by (cases "fs = []") (simp_all add: open_job_def v_def[symmetric] Let_def update_job_status_def set_job_set_job)
  have "between t i (XP_Opened fs) w2"
  proof -
    have "waiting i fs w2" using wait by (simp add: waiting_def views)
    moreover have "settled j w2" if j: "j \<in> set (bw_jobs w2)" "bj_id j = i" for j
    proof -
      have "j \<in> g ` set (bw_jobs v)" using j(1) by (simp add: w2_def)
      then obtain k where k: "j = g k" "k \<in> set (bw_jobs v)" by (rule imageE)
      have "bj_id (g k) = bj_id k" by (simp add: g_def)
      then have "bj_id k = i" using j(2) k(1) by simp
      then have "settled (g k) w2" using settled[of k] by blast
      then show ?thesis unfolding k(1) .
    qed
    ultimately show ?thesis using b fine2 by (simp add: between_def views) (simp add: w2_def logs_def)
  qed
  from between_again(1)[OF this] show ?thesis by (simp add: eq)
qed

lemma send_files_fine:
  assumes "bulk_fine w" "i \<notin> (\<lambda>(t, i, ph). i) ` set (bw_extracting w)" "distinct fs"
    and "\<forall>f\<in>set fs. f \<notin> set (held w) \<and> (\<exists>x\<in>set (bw_files w). jf_id x = f \<and> jf_job x = i \<and> \<not> resolved x)"
    and "\<forall>j\<in>set (bw_jobs w). bj_id j = i \<longrightarrow> settled j w"
  shows "bulk_fine (snd (send_files ev fs w))"
  using assms
proof (induction fs arbitrary: w)
  case (Cons f fs)
  obtain x where x: "x \<in> set (bw_files w)" "jf_id x = f" "jf_job x = i" "\<not> resolved x" using Cons.prems(4) by auto
  have loose: "loose f w" using Cons.prems x by (auto simp: loose_def)
  have "bulk_fine (snd (send_files ev fs (w\<lparr>bw_queue := bw_queue w @ [(u, f, 1)]\<rparr>)))" for u
  proof (rule Cons.IH)
    show "\<forall>g\<in>set fs. g \<notin> set (held (w\<lparr>bw_queue := bw_queue w @ [(u, f, 1)]\<rparr>))
        \<and> (\<exists>x\<in>set (bw_files (w\<lparr>bw_queue := bw_queue w @ [(u, f, 1)]\<rparr>)). jf_id x = g \<and> jf_job x = i \<and> \<not> resolved x)"
      using Cons.prems(3,4) by (auto simp: held_def)
  qed (use loose_queue[OF loose] Cons.prems(2,3,5) in \<open>simp_all add: settled_def files_of_def\<close>)
  then show ?case using Cons.prems(1) by (simp split: option.split)
qed simp

lemma cancel_each_fine:
  assumes "bulk_fine w" "\<forall>f\<in>set fs. f \<notin> set (held w)" "\<forall>x\<in>set (bw_files w). jf_id x \<in> set fs \<longrightarrow> \<not> resolved x"
  shows "bulk_fine (fold (\<lambda>f. update_file_status f BF_CANCELLED) fs w)"
  using assms
proof (induction fs arbitrary: w)
  case (Cons f fs)
  define h :: "job_file \<Rightarrow> job_file" where "h = (\<lambda>y. if jf_id y = f then y\<lparr>jf_status := BF_CANCELLED\<rparr> else y)"
  let ?v = "update_file_status f BF_CANCELLED w"
  have r: "rewritten (\<lambda>j. j) h ?v w" by (simp add: rewritten_def update_file_status_def set_file_def logs_def h_def)
  note views = rewritten_views[OF r]
  have h: "resolved (h z) \<longleftrightarrow> resolved z" if "z \<in> set (bw_files w)" for z
    using Cons.prems(3) that by (auto simp: h_def resolved_def)
  have "bulk_fine ?v"
  proof (rule rewrite_fine[OF r Cons.prems(1)])
    fix j assume "j \<in> set (bw_jobs w)"
    then have c: "counts_fine w j" using Cons.prems(1) by (simp add: bulk_fine_def)
    have "filter resolved (map h (files_of (bj_id j) w)) = map h (filter resolved (files_of (bj_id j) w))"
      using h by (simp add: filter_map comp_def files_of_def cong: filter_cong)
    then have "counts_fine ?v j = counts_fine w j" by (intro counts_cong) (simp_all add: views)
    then show "counts_fine ?v j" using c by simp
  qed (use h Cons.prems(2) in \<open>auto simp: views settled_def h_def\<close>)
  moreover have "\<forall>x\<in>set (bw_files ?v). jf_id x \<in> set fs \<longrightarrow> \<not> resolved x"
    using Cons.prems(3) by (auto simp: update_file_status_def set_file_def resolved_def)
  ultimately have "bulk_fine (fold (\<lambda>f. update_file_status f BF_CANCELLED) fs ?v)"
    using Cons.prems(2) views(2) by (intro Cons.IH) auto
  then show ?case by simp
qed simp

lemma publish_files_fine:
  assumes "bulk_fine w" "(t, i, XP_Opened fs) \<in> set (bw_extracting w)"
  shows "bulk_fine (publish_files ev t i fs w)"
proof -
  define v where "v = end_extract t i w"
  have b: "between t i (XP_Opened fs) v" unfolding v_def by (rule end_extract_between[OF assms])
  note fine = between_fine[OF b]
  have wait: "waiting i fs v" and sett: "\<forall>j\<in>set (bw_jobs v). bj_id j = i \<longrightarrow> settled j v" and out: "i \<notin> set (unpacking v)"
    using b by (simp_all add: between_def)
  have ids: "distinct (map jf_id (bw_files v))" using fine by (simp add: bulk_fine_def ids_fine_def)
  have fs: "fs = map jf_id (filter (\<lambda>x. jf_job x = i) (bw_files v))" using wait by (simp add: waiting_def files_of_def)
  have mine: "\<exists>x\<in>set (bw_files v). jf_id x = f \<and> jf_job x = i \<and> \<not> resolved x" if "f \<in> set fs" for f
    using that wait unfolding fs by (auto simp: waiting_def files_of_def)
  have free: "f \<notin> set (held v)" if "f \<in> set fs" for f using that wait by (auto simp: waiting_def)
  have "bulk_fine (snd (send_files ev fs v))"
    using mine free out sett ids by (intro send_files_fine[OF fine]) (auto simp: fs distinct_map_filter unpacking_def)
  then have sent: "bulk_fine w1" if "send_files ev fs v = (ok, w1)" for ok w1 using that by simp
  have "\<forall>x\<in>set (bw_files v). jf_id x \<in> set fs \<longrightarrow> \<not> resolved x"
  proof (intro ballI impI)
    fix x assume x: "x \<in> set (bw_files v)" "jf_id x \<in> set fs"
    obtain y where "y \<in> set (bw_files v)" "jf_id y = jf_id x" "\<not> resolved y" using mine[OF x(2)] by blast
    then show "\<not> resolved x" using ids x(1) by (auto simp: distinct_map inj_on_def)
  qed
  then have "bulk_fine (fold (\<lambda>f. update_file_status f BF_CANCELLED) fs v)" using free by (intro cancel_each_fine[OF fine]) auto
  then have cancelled: "bulk_fine (log_success t ''BULK_EXTRACT'' None (update_job_status i BU_FAILED e False
      (fold (\<lambda>f. update_file_status f BF_CANCELLED) fs v)))" for e
    by (intro log_bulk(2) job_status_fine) simp_all
  show ?thesis
    using fine cancelled log_bulk(2)[OF sent] extract_failed_fine[OF sent]
    by (auto simp: publish_files_def v_def[symmetric] Let_def split: option.split prod.split)
qed

lemma lose_extract_fine:
  assumes "bulk_fine w" "(t, i, ph) \<in> set (bw_extracting w)"
  shows "bulk_fine ((end_extract t i w)\<lparr>bw_extracts := bw_extracts w @ [(t, i)]\<rparr>)"
  using between_again(2)[OF end_extract_between[OF assms]] by simp

lemma lose_run_fine:
  assumes "bulk_fine w" "(t, f, n, ph) \<in> set (bw_runs w)"
  shows "bulk_fine ((end_run t f w)\<lparr>bw_queue := bw_queue w @ [(t, f, n)]\<rparr>)"
  using loose_queue[OF end_run_loose(1)[OF assms], of t n] by (simp add: end_run_views)

lemma job_below: "ids_fine w \<Longrightarrow> f \<in> set (bw_files w) \<Longrightarrow> jf_job f < bw_next w"
proof -
  assume w: "ids_fine w" "f \<in> set (bw_files w)"
  then have "jf_job f \<in> bj_id ` set (bw_jobs w)" by (simp add: ids_fine_def)
  then obtain j where "jf_job f = bj_id j" "j \<in> set (bw_jobs w)" by (rule imageE)
  then show ?thesis using w(1) by (simp add: ids_fine_def)
qed

lemma upload_zip_fine:
  assumes "bulk_fine w"
  shows "bulk_fine (snd (upload_zip ev camp bytes name who consent juris w))"
proof -
  have new: "bulk_fine w3 \<and> bulk_fine (w3\<lparr>bw_extracts := bw_extracts w3 @ [(t, bw_next w1)]\<rparr>)"
    if u: "draw_task ev w = (u, w1)" and t: "draw_task ev (w1\<lparr>bw_objects := os, bw_jobs := bw_jobs w1 @ [job], bw_next := Suc (bw_next w1)\<rparr>) = (t, w3)"
      and job: "bj_id job = bw_next w1" "bj_status job = BU_PENDING" "resolved_count job = 0" for u w1 os job t w3
  proof -
    let ?v = "w1\<lparr>bw_objects := os, bw_jobs := bw_jobs w1 @ [job], bw_next := Suc (bw_next w1)\<rparr>"
    have fine: "bulk_fine w1" by (rule beside_fine[OF assms]) (use draw_beside[OF u] in auto)
    have w: "ids_fine w1" "runs_fine w1" "extracts_fine w1" using fine by (simp_all add: bulk_fine_def)
    have views: "files_of i ?v = files_of i w1" "held ?v = held w1" "unpacking ?v = unpacking w1" "settled j ?v = settled j w1"
      "waiting i fs ?v = waiting i fs w1" "logs ?v = logs w1" "closing ?v = closing w1" for i j fs
      by (simp_all add: files_of_def held_def unpacking_def settled_def waiting_def logs_def closing_def)
    have none: "files_of (bw_next w1) w1 = []"
      using job_below[OF w(1)] by (fastforce simp: files_of_def filter_empty_conv)
    have "ids_fine ?v" using w(1) job(1) by (fastforce simp: ids_fine_def)
    moreover have "runs_fine ?v"
    proof -
      have "bw_next w1 \<notin> jf_job ` set (bw_files w1)" using job_below[OF w(1)] by fastforce
      then show ?thesis using w(2) job(1) unfolding runs_fine_def views by auto
    qed
    moreover have "extracts_fine ?v"
    proof -
      have "phase_fine i ?v ph" if p: "(q, i, ph) \<in> set (bw_extracting w1)" for q i ph
      proof -
        have "phase_fine i w1 ph" using w(3) p by (auto simp: extracts_fine_def)
        moreover have "i \<in> set (unpacking w1)" using p by (force simp: unpacking_def)
        then have "i \<noteq> bw_next w1" using w(3) by (auto simp: extracts_fine_def)
        ultimately show ?thesis using job(1) by (cases ph) (auto simp: views)
      qed
      then show ?thesis using w(3) unfolding extracts_fine_def views by fastforce
    qed
    moreover have "counts_fine ?v j" if "j \<in> set (bw_jobs ?v)" for j
    proof (cases "j = job")
      case True
      then show ?thesis using job none by (simp add: counts_fine_def views)
    next
      case False
      then have "counts_fine w1 j" using fine that by (simp add: bulk_fine_def)
      moreover have "counts_fine ?v j = counts_fine w1 j" by (intro counts_cong) (simp_all add: views)
      ultimately show ?thesis by simp
    qed
    ultimately have v: "bulk_fine ?v" unfolding bulk_fine_def by blast
    have w3: "beside w3 ?v" "bw_next w3 = Suc (bw_next w1)" using draw_beside[OF t] by simp_all
    then have fine3: "bulk_fine w3" by (intro beside_fine[OF v]) simp_all
    have "bw_next w1 \<notin> set (unpacking w1)" using w(3) by (auto simp: extracts_fine_def)
    then have "bw_next w1 \<notin> set (unpacking w3)" using w3(1) by (simp add: beside_def unpacking_def)
    moreover have "files_of (bw_next w1) w3 = []" using none w3(1) by (simp add: beside_def apart_def files_of_def)
    ultimately show ?thesis using fine3 add_extract[OF fine3] w3(2) by simp
  qed
  have drawn: "bulk_fine w1" if "draw_task ev w = (u, w1)" for u w1
    by (rule beside_fine[OF assms]) (use draw_beside[OF that] in auto)
  show ?thesis using assms drawn new
    by (auto simp: upload_zip_def Let_def resolved_count_def split: sum.split prod.split)
qed

section \<open>All interleavings\<close>

text \<open>
  Every other request may change the intake as it likes, as long as it does not delete rows of the
  task log; the closure of a campaign fails jobs that are not open yet.  Two assumptions on the
  delivery of messages: a worker is lost before the commit of the counters, not between it and the
  end of the run, and a message is not delivered a second time while its run is alive.
\<close>

inductive bulk_step :: "bulk_world \<Rightarrow> bulk_world \<Rightarrow> bool" where
  upload: "bulk_step w (snd (upload_zip ev camp bytes name who consent juris w))"
| cancel: "bulk_step w (snd (cancel_job i actor role w))"
| replay: "bulk_step w (snd (replay_failed_file ev i f actor role w))"
| begin_extraction: "(t, i) \<in> set (bw_extracts w) \<Longrightarrow>
    bulk_step w (begin_extract ev t i (w\<lparr>bw_extracts := remove1 (t, i) (bw_extracts w)\<rparr>))"
| stage: "(t, i, XP_Begun) \<in> set (bw_extracting w) \<Longrightarrow> bulk_step w (stage_files ev t i w)"
| open_files: "(t, i, XP_Staged fs) \<in> set (bw_extracting w) \<Longrightarrow> bulk_step w (open_job t i fs w)"
| publish: "(t, i, XP_Opened fs) \<in> set (bw_extracting w) \<Longrightarrow> bulk_step w (publish_files ev t i fs w)"
| lose_extraction: "(t, i, ph) \<in> set (bw_extracting w) \<Longrightarrow>
    bulk_step w ((end_extract t i w)\<lparr>bw_extracts := bw_extracts w @ [(t, i)]\<rparr>)"
| claim: "(t, f, n) \<in> set (bw_queue w) \<Longrightarrow>
    bulk_step w (claim_file ev t f n (w\<lparr>bw_queue := remove1 (t, f, n) (bw_queue w)\<rparr>))"
| read: "(t, f, n, RP_Claimed) \<in> set (bw_runs w) \<Longrightarrow> bulk_step w (read_file ev rd t f n w)"
| persist: "(t, f, n, RP_Saved r) \<in> set (bw_runs w) \<Longrightarrow> bulk_step w (persist_file sv t f n r w)"
| lose_run: "(t, f, n, ph) \<in> set (bw_runs w) \<Longrightarrow> bulk_step w ((end_run t f w)\<lparr>bw_queue := bw_queue w @ [(t, f, n)]\<rparr>)"
| close: "(t, i, e) \<in> set (bw_closing w) \<Longrightarrow> bulk_step w (close_file t i e w)"
| elsewhere: "logs w \<subseteq> logs (w\<lparr>bw_in := u\<rparr>) \<Longrightarrow> bulk_step w (w\<lparr>bw_in := u\<rparr>)"
| closure: "find_job i w = Some j \<Longrightarrow> bj_status j = BU_PENDING \<or> bj_status j = BU_EXTRACTING \<Longrightarrow>
    bulk_step w (update_job_status i BU_FAILED (Some ''Campaign closed during upload.'') False w)"

lemma step_fine: "bulk_step w w' \<Longrightarrow> bulk_fine w \<Longrightarrow> bulk_fine w'"
proof (induction rule: bulk_step.induct)
  case (elsewhere w u)
  show ?case by (rule same_bulk_fine[OF _ elsewhere(2)]) (use elsewhere(1) in \<open>simp add: same_bulk_def\<close>)
qed (simp_all add: upload_zip_fine cancel_job_fine replay_fine begin_extract_fine stage_files_fine open_job_fine publish_files_fine
    lose_extract_fine claim_file_fine read_file_fine persist_file_fine lose_run_fine job_status_fine close_file_fine)

definition bulk_start :: "intake \<Rightarrow> bulk_world" where
  "bulk_start u = \<lparr>bw_in = u, bw_jobs = [], bw_files = [], bw_objects = [], bw_failures = [], bw_next = 0, bw_extracts = [],
     bw_extracting = [], bw_queue = [], bw_runs = [], bw_closing = []\<rparr>"

lemma reachable_fine: "rtranclp bulk_step (bulk_start u) w \<Longrightarrow> bulk_fine w"
proof (induction rule: rtranclp_induct)
  case base
  show ?case by (simp add: bulk_start_def bulk_fine_def ids_fine_def runs_fine_def extracts_fine_def held_def unpacking_def)
qed (rule step_fine)


end
