(* ===== verification/Bulk_Upload_Outcomes.thy ===== *)
theory Bulk_Upload_Outcomes
  imports Bulk_Upload_Flow
begin

text \<open>
  What goes wrong in a bulk upload: jobs that no step brings to an end, and a file that is never
  parsed although its job counts it.
\<close>

section \<open>Rows that no step touches\<close>

definition files_kept :: "bulk_world \<Rightarrow> bulk_world \<Rightarrow> bool" where
  "files_kept v w \<longleftrightarrow> (\<exists>h. bw_files v = map h (bw_files w) \<and> (\<forall>x. jf_job (h x) = jf_job x)
     \<and> (\<forall>x\<in>set (bw_files w). jf_status x = BF_CANCELLED \<longrightarrow> jf_status (h x) = BF_CANCELLED))"

lemma kept_same: "bw_files v = bw_files w \<Longrightarrow> files_kept v w"
  unfolding files_kept_def by (intro exI[of _ "\<lambda>x. x"]) simp

lemma kept_same_bulk: "same_bulk v w \<Longrightarrow> files_kept v w"
  by (rule kept_same) (simp add: same_bulk_def)

lemma kept_trans: "files_kept u v \<Longrightarrow> files_kept v w \<Longrightarrow> files_kept u w"
proof -
  assume kept: "files_kept u v" "files_kept v w"
  obtain g where "bw_files u = map g (bw_files v)" "\<forall>x. jf_job (g x) = jf_job x"
      "\<forall>x\<in>set (bw_files v). jf_status x = BF_CANCELLED \<longrightarrow> jf_status (g x) = BF_CANCELLED"
    using kept(1) unfolding files_kept_def by blast
  moreover obtain h where "bw_files v = map h (bw_files w)" "\<forall>x. jf_job (h x) = jf_job x"
      "\<forall>x\<in>set (bw_files w). jf_status x = BF_CANCELLED \<longrightarrow> jf_status (h x) = BF_CANCELLED"
    using kept(2) unfolding files_kept_def by blast
  ultimately show ?thesis unfolding files_kept_def by (intro exI[of _ "g \<circ> h"]) simp
qed

lemma kept_status:
  assumes "s = BF_CANCELLED \<or> (\<forall>x\<in>set (bw_files w). jf_id x = f \<longrightarrow> jf_status x \<noteq> BF_CANCELLED)"
  shows "files_kept (update_file_status f s w) w"
  using assms unfolding files_kept_def update_file_status_def set_file_def
  by (intro exI[of _ "\<lambda>x. if jf_id x = f then x\<lparr>jf_status := s\<rparr> else x"]) auto

lemma kept_files_of: "files_kept v w \<Longrightarrow> files_of i v = [] \<longleftrightarrow> files_of i w = []"
  by (auto simp: files_kept_def files_of_def filter_map comp_def)

text \<open>The file of a run is running.\<close>

lemma running_file:
  assumes "bulk_fine w" "(t, f, n, ph) \<in> set (bw_runs w)"
  obtains x where "find_file f w = Some x" "jf_status x = BF_RUNNING" "x \<in> set (bw_files w)" "jf_id x = f"
proof -
  obtain x where x: "x \<in> set (bw_files w)" "jf_id x = f" "jf_status x = BF_RUNNING" using end_run_loose(2)[OF assms] by blast
  moreover have "find_file f w = Some x"
    unfolding find_file_def using assms(1) x(1,2) by (intro find_id) (simp_all add: bulk_fine_def ids_fine_def)
  ultimately show thesis by (intro that)
qed

lemma resolve_files: "bw_files (resolve_file t f i s c e w) = bw_files (update_file_status f s w)"
  by (simp add: resolve_file_def set_job_def Let_def)

lemma close_files: "bw_files (close_file t i e w) = bw_files w"
  by (cases e) (simp_all add: close_file_def maybe_finalize_job_def log_ended_def log_success_def on_tasks_def set_job_def update_job_status_def
      Let_def split: option.split)

lemma log_files [simp]:
  "bw_files (log_ended t s w) = bw_files w" "bw_files (log_success t ty r w) = bw_files w" "bw_files (log_created ev t ty w) = bw_files w"
  "bw_files (log_running ev t w) = bw_files w" "bw_files (mark_parse_failed q w) = bw_files w" "bw_files (on_tasks g w) = bw_files w"
  "bw_files (update_job_status i st e d w) = bw_files w" "bw_files (set_job i k w) = bw_files w"
  by (simp_all add: log_ended_def log_success_def log_created_def log_running_def mark_parse_failed_def on_tasks_def update_job_status_def
      set_job_def split: option.split)

lemma update_status_cong: "bw_files v = bw_files w \<Longrightarrow> bw_files (update_file_status f s v) = bw_files (update_file_status f s w)"
  by (simp add: update_file_status_def set_file_def)

text \<open>A run changes the status of its own file only.\<close>

definition own_file :: "nat \<Rightarrow> bulk_world \<Rightarrow> bulk_world \<Rightarrow> bool" where
  "own_file f v w \<longleftrightarrow> bw_files v = bw_files w \<or> (\<exists>s. bw_files v = bw_files (update_file_status f s w))"

lemma own_same [simp]: "bw_files v = bw_files w \<Longrightarrow> own_file f v w"
  by (simp add: own_file_def)

lemma own_resolve: "bw_files v = bw_files w \<Longrightarrow> own_file f (resolve_file t f i s c e v) w"
  unfolding own_file_def resolve_files using update_status_cong by blast

lemma own_cong: "bw_files u = bw_files v \<Longrightarrow> own_file f v w \<Longrightarrow> own_file f u w"
  by (simp add: own_file_def)

lemma own_ends:
  "bw_files v = bw_files w \<Longrightarrow> own_file f (file_failed t f i r v) w"
  "bw_files v = bw_files w \<Longrightarrow> own_file f (campaign_refused t f i e v) w"
  "bw_files v = bw_files w \<Longrightarrow> own_file f (resolve_file t f i s c d v) w"
  unfolding file_failed_def campaign_refused_def by (rule own_resolve, simp)+

lemma own_stage: "bw_files v = bw_files w \<Longrightarrow> own_file f (stage_failed t f i n r err v) w"
proof -
  assume v: "bw_files v = bw_files w"
  obtain delay j where d: "handle_failure parse_type t err n None \<lparr>jt_tasks = [], jt_failures = bw_failures v, jt_dlq = ik_dlq (it_saved (bw_in v))\<rparr> = (delay, j)"
    by fastforce
  define w1 where "w1 = on_tasks (\<lambda>d. d\<lparr>ik_dlq := jt_dlq j\<rparr>) (v\<lparr>bw_failures := jt_failures j\<rparr>)"
  have w1: "bw_files w1 = bw_files w" by (simp add: w1_def v)
  show ?thesis using own_ends(1)[OF w1] d w1 by (simp add: stage_failed_def w1_def[symmetric] split: option.split)
qed

lemma own_run:
  "own_file f (read_file ev rd t f n w) w" "own_file f (persist_file sv t f n r w) w" "own_file f (claim_file ev t f n w) w"
proof -
  have e: "bw_files (end_run t f w) = bw_files w" by (simp add: end_run_views)
  have link: "own_file f (link_duplicate t f j m (end_run t f w)) w" for j m
    by (auto simp: link_duplicate_def Let_def e split: sum.split prod.split intro!: own_ends)
  have save: "own_file f (save_resume ev t f n j x fmt bytes email (end_run t f w)) w" for j x fmt bytes email
    by (auto simp: save_resume_def Let_def e split: sum.split prod.split intro!: own_ends)
  show "own_file f (read_file ev rd t f n w) w"
    using link save own_ends(1)[OF e] own_stage[OF e]
    by (auto simp: read_file_def Let_def e split: option.split sum.split reading.split)
  show "own_file f (persist_file sv t f n r w) w"
    using own_ends(1)[OF e] own_stage[OF e]
    by (auto simp: persist_file_def Let_def e split: option.split sum.split saving.split prod.split intro!: own_ends)
  show "own_file f (claim_file ev t f n w) w"
    by (auto simp: claim_file_def Let_def own_file_def update_file_status_def set_file_def split: option.split)
qed

text \<open>All files of the job are there and cancelled.\<close>

definition all_cancelled :: "nat \<Rightarrow> bulk_world \<Rightarrow> bool" where
  "all_cancelled i w \<longleftrightarrow> files_of i w \<noteq> [] \<and> (\<forall>f\<in>set (files_of i w). jf_status f = BF_CANCELLED)"

lemma kept_cancelled: "files_kept v w \<Longrightarrow> all_cancelled i w \<Longrightarrow> all_cancelled i v"
  by (auto simp: all_cancelled_def files_kept_def files_of_def filter_map comp_def)

lemma own_kept:
  assumes "own_file f v w" "\<forall>x\<in>set (bw_files w). jf_id x = f \<longrightarrow> jf_status x \<noteq> BF_CANCELLED"
  shows "files_kept v w"
proof (cases "bw_files v = bw_files w")
  case False
  then obtain s where "bw_files v = bw_files (update_file_status f s w)" using assms(1) by (auto simp: own_file_def)
  then have "files_kept v (update_file_status f s w)" by (rule kept_same)
  then show ?thesis by (rule kept_trans) (use assms(2) in \<open>auto intro: kept_status\<close>)
qed (rule kept_same)

lemma run_kept:
  assumes "bulk_fine w" "(t, f, n, ph) \<in> set (bw_runs w)" "own_file f v w"
  shows "files_kept v w"
proof (rule own_kept[OF assms(3)])
  obtain x where x: "jf_status x = BF_RUNNING" "x \<in> set (bw_files w)" "jf_id x = f" using running_file[OF assms(1,2)] by metis
  have ids: "inj_on jf_id (set (bw_files w))" using assms(1) by (simp add: bulk_fine_def ids_fine_def distinct_map)
  have "y = x" if "y \<in> set (bw_files w)" "jf_id y = f" for y by (rule inj_onD[OF ids]) (simp_all add: that x)
  then show "\<forall>y\<in>set (bw_files w). jf_id y = f \<longrightarrow> jf_status y \<noteq> BF_CANCELLED" using x(1) by auto
qed

lemma claim_kept:
  assumes "bulk_fine w"
  shows "files_kept (claim_file ev t f n w) w"
proof -
  define w1 where "w1 = (if has_log t w then log_running ev t w else log_created ev t parse_type w)"
  have files: "bw_files w1 = bw_files w" by (simp add: w1_def)
  show ?thesis
  proof (cases "\<exists>x. find_file f w1 = Some x \<and> (jf_status x = BF_QUEUED \<or> jf_status x = BF_RUNNING)")
    case False
    then have "bw_files (claim_file ev t f n w) = bw_files w"
      by (auto simp: claim_file_def w1_def[symmetric] files Let_def split: option.split)
    then show ?thesis by (rule kept_same)
  next
    case True
    then obtain x where x: "find_file f w1 = Some x" "jf_status x = BF_QUEUED \<or> jf_status x = BF_RUNNING" by blast
    have in_w: "x \<in> set (bw_files w)" "jf_id x = f" using find_file_in[OF x(1)] files by simp_all
    have ids: "inj_on jf_id (set (bw_files w))" using assms by (simp add: bulk_fine_def ids_fine_def distinct_map)
    have "y = x" if "y \<in> set (bw_files w)" "jf_id y = f" for y by (rule inj_onD[OF ids]) (simp_all add: that in_w)
    then show ?thesis using x(2) by (intro own_kept[OF own_run(3)]) auto
  qed
qed

lemma fold_kept: "files_kept (fold (\<lambda>f. update_file_status f BF_CANCELLED) fs w) w"
proof (induction fs arbitrary: w)
  case (Cons f fs)
  show ?case using kept_trans[OF Cons.IH kept_status] by simp
qed (simp add: kept_same)

lemma send_same: "bw_files (snd (send_files ev fs w)) = bw_files w"
  by (induction fs arbitrary: w) (simp_all split: option.split)

lemma extract_ends [simp]:
  "bw_files (extract_failed t i ps w) = bw_files w" "bw_files (reject_job t i why w) = bw_files w" "bw_files (delete_objects ps w) = bw_files w"
  by (simp_all add: extract_failed_def reject_job_def delete_objects_def)

lemma publish_kept: "files_kept (publish_files ev t i fs w) w"
proof -
  have "files_kept (end_extract t i w) w" by (rule kept_same) simp
  moreover have "files_kept (publish_files ev t i fs w) (end_extract t i w)"
  proof -
    define v where "v = end_extract t i w"
    have sent: "bw_files w1 = bw_files v" if "send_files ev fs v = (ok, w1)" for ok w1 using send_same[of ev fs v] that by simp
    have ends: "files_kept (log_success t a b w1) v" "files_kept (extract_failed t i ps w1) v" "files_kept v v"
      if "send_files ev fs v = (ok, w1)" for ok w1 a b ps
      using sent[OF that] by (simp_all add: kept_same)
    have same: "files_kept (log_success t a b (update_job_status k s e d (fold (\<lambda>f. update_file_status f BF_CANCELLED) fs v))) v" for a b k s e d
      by (rule kept_trans[OF kept_same fold_kept]) simp
    obtain ok w1 where run: "send_files ev fs v = (ok, w1)" by fastforce
    show ?thesis unfolding v_def[symmetric]
      using ends[OF run] same run by (simp add: publish_files_def v_def[symmetric] Let_def split: option.split)
  qed
  ultimately show ?thesis using kept_trans by blast
qed

lemma replay_kept:
  assumes "bulk_fine w"
  shows "files_kept (snd (replay_failed_file ev i f actor role w)) w"
proof -
  have "files_kept v w" if "bw_files v = bw_files (requeue_for_replay f t u)" "bw_files u = bw_files w" for u v t
    unfolding files_kept_def that requeue_for_replay_def set_file_def
    by (intro exI[of _ "\<lambda>x. if jf_id x = f then (if jf_status x = BF_FAILED then x\<lparr>jf_status := BF_QUEUED, jf_task := t\<rparr> else x) else x"])
      (simp add: that(2))
  moreover have "bw_files u = bw_files w" if "draw_task ev w = (t, u)" for t u using draw_same[OF that] by (simp add: same_bulk_def)
  ultimately show ?thesis
    by (auto simp: replay_failed_file_def Let_def intro: kept_same split: option.split sum.split prod.split)
qed

lemma cancel_kept: "files_kept (snd (cancel_job i actor role w)) w"
proof -
  have "files_kept (snd (cancel_queued_files i w)) w"
    unfolding files_kept_def cancel_queued_files_def
    by (intro exI[of _ "\<lambda>f. if jf_job f = i \<and> jf_status f = BF_QUEUED then f\<lparr>jf_status := BF_CANCELLED\<rparr> else f"]) simp
  then have "files_kept v w" if "bw_files v = bw_files (snd (cancel_queued_files i w))" for v
    using kept_trans kept_same[OF that] by blast
  then show ?thesis by (auto simp: cancel_job_def intro: kept_same split: option.split prod.split)
qed

lemma upload_kept: "files_kept (snd (upload_zip ev camp bytes name who consent juris w)) w"
proof -
  have "bw_files u = bw_files v" if "draw_task ev v = (t, u)" for t u v using draw_same[OF that] by (simp add: same_bulk_def)
  then show ?thesis by (intro kept_same) (auto simp: upload_zip_def Let_def split: sum.split prod.split)
qed

lemma step_kept:
  assumes "bulk_step w w'" "bulk_fine w"
  shows "files_kept w' w \<or> (\<exists>t k ev. (t, k, XP_Begun) \<in> set (bw_extracting w) \<and> w' = stage_files ev t k w)"
  using assms
proof cases
  case (begin_extraction t i ev)
  have "bw_files w' = bw_files w"
    by (simp add: begin_extraction begin_extract_def Let_def split: option.split)
  then show ?thesis using kept_same by blast
next
  case (stage t i ev)
  then show ?thesis by blast
next
  case (open_files t i fs)
  have "bw_files w' = bw_files w" by (simp add: open_files open_job_def Let_def)
  then show ?thesis using kept_same by blast
next
  case (claim t f n ev)
  let ?v = "w\<lparr>bw_queue := remove1 (t, f, n) (bw_queue w)\<rparr>"
  have "bulk_fine ?v" using take_message[OF assms(2) claim(2)] by (simp add: loose_def)
  then have "files_kept w' ?v" unfolding claim(1) by (rule claim_kept)
  then show ?thesis using kept_trans[OF _ kept_same, of w' ?v w] by simp
next
  case (read t f n ev rd)
  then show ?thesis using run_kept[OF assms(2) read(2) own_run(1)] by blast
next
  case (persist t f n r sv)
  then show ?thesis using run_kept[OF assms(2) persist(2) own_run(2)] by blast
next
  case (close t i e)
  have "bw_files w' = bw_files w" unfolding close(1) by (rule close_files)
  then show ?thesis using kept_same by blast
qed (use assms(2) upload_kept cancel_kept replay_kept publish_kept in \<open>auto simp: end_run_views intro: kept_same\<close>)


section \<open>Extractions that a run does not touch\<close>

definition extr :: "bulk_world \<Rightarrow> (string \<times> nat) list \<times> (string \<times> nat \<times> extract_phase) list \<times> nat" where
  "extr w = (bw_extracts w, bw_extracting w, bw_next w)"

lemma extr_simps [simp]:
  "extr (log_ended t s w) = extr w" "extr (log_success t ty r w) = extr w" "extr (log_created ev t ty w) = extr w"
  "extr (log_running ev t w) = extr w" "extr (mark_parse_failed q w) = extr w" "extr (on_tasks g w) = extr w"
  "extr (update_job_status i st e d w) = extr w" "extr (set_job i k w) = extr w" "extr (update_file_status f fs w) = extr w"
  "extr (set_file f h w) = extr w" "extr (end_run t f w) = extr w" "extr (w\<lparr>bw_in := u\<rparr>) = extr w" "extr (w\<lparr>bw_queue := qs\<rparr>) = extr w"
  "extr (w\<lparr>bw_runs := rs\<rparr>) = extr w" "extr (w\<lparr>bw_failures := ss\<rparr>) = extr w" "extr (requeue_for_replay f t w) = extr w"
  by (simp_all add: extr_def log_ended_def log_success_def log_created_def log_running_def mark_parse_failed_def on_tasks_def
      update_job_status_def set_job_def update_file_status_def set_file_def end_run_def requeue_for_replay_def split: option.split)

lemma extr_ends [simp]:
  "extr (resolve_file t f i s c e w) = extr w" "extr (file_failed t f i r w) = extr w" "extr (campaign_refused t f i d w) = extr w"
  "extr (close_file t i e w) = extr w"
proof -
  have closing: "extr (v\<lparr>bw_closing := cs\<rparr>) = extr v" for v cs by (simp add: extr_def)
  show "extr (resolve_file t f i s c e w) = extr w" for t f i s c e w by (simp add: resolve_file_def Let_def closing)
  then show "extr (file_failed t f i r w) = extr w" "extr (campaign_refused t f i d w) = extr w"
    by (simp_all add: file_failed_def campaign_refused_def)
  show "extr (close_file t i e w) = extr w"
    by (cases e) (simp_all add: close_file_def maybe_finalize_job_def Let_def closing split: option.split)
qed

lemma extr_stage [simp]: "extr (stage_failed t f i n r err w) = extr w"
  by (simp add: stage_failed_def Let_def split: prod.split option.split)

lemma extr_runs:
  "extr (read_file ev rd t f n w) = extr w" "extr (persist_file sv t f n r w) = extr w" "extr (claim_file ev t f n w) = extr w"
proof -
  have link: "extr (link_duplicate t f j m v) = extr v" for j m v
    by (simp add: link_duplicate_def Let_def split: sum.split prod.split)
  have save: "extr (save_resume ev t f n j x fmt bytes email v) = extr v" for j x fmt bytes email v
  proof -
    have "extr (v\<lparr>bw_in := a, bw_runs := b\<rparr>) = extr v" for a b by (simp add: extr_def)
    then show ?thesis by (simp add: save_resume_def split: sum.split prod.split)
  qed
  show "extr (read_file ev rd t f n w) = extr w"
    by (simp add: read_file_def Let_def link save split: option.split sum.split reading.split)
  show "extr (persist_file sv t f n r w) = extr w"
    by (simp add: persist_file_def Let_def split: option.split sum.split saving.split prod.split)
  show "extr (claim_file ev t f n w) = extr w"
    by (simp add: claim_file_def Let_def split: option.split)
qed

lemma draw_extr: "draw_task ev w = (t, u) \<Longrightarrow> extr u = extr w"
  using draw_beside[of ev w t u] by (simp add: extr_def beside_def)

lemma extr_requests:
  "extr (snd (cancel_job i actor role w)) = extr w" "extr (snd (replay_failed_file ev i f actor role w)) = extr w"
proof -
  have "extr (snd (cancel_queued_files i w)) = extr w" by (simp add: extr_def cancel_queued_files_def)
  then show "extr (snd (cancel_job i actor role w)) = extr w" by (auto simp: cancel_job_def split: option.split prod.split)
  show "extr (snd (replay_failed_file ev i f actor role w)) = extr w"
    by (auto simp: replay_failed_file_def Let_def dest: draw_extr split: option.split sum.split prod.split)
qed

definition idle :: "nat \<Rightarrow> bulk_world \<Rightarrow> bool" where
  "idle i w \<longleftrightarrow> i \<notin> set (unpacking w) \<and> i < bw_next w"

lemma idle_extr: "extr v = extr w \<Longrightarrow> idle i v = idle i w"
  by (simp add: extr_def idle_def unpacking_def)

lemma idle_same: "extr v = extr w \<Longrightarrow> idle i w \<Longrightarrow> idle i v"
  using idle_extr by blast

lemma send_extr: "extr (snd (send_files ev fs w)) = extr w"
  by (induction fs arbitrary: w) (simp_all split: option.split)

lemma fold_extr: "extr (fold (\<lambda>f. update_file_status f BF_CANCELLED) fs w) = extr w"
  by (induction fs arbitrary: w) simp_all

lemma extract_extr [simp]: "extr (extract_failed t i ps w) = extr w" "extr (reject_job t i why w) = extr w"
proof -
  have "extr (delete_objects ps w) = extr w" for w by (simp add: extr_def delete_objects_def)
  then show "extr (extract_failed t i ps w) = extr w" "extr (reject_job t i why w) = extr w"
    by (simp_all add: extract_failed_def reject_job_def)
qed

lemma idle_end [intro]: "idle i w \<Longrightarrow> idle i (end_extract t k w)"
  by (force simp: idle_def unpacking_def end_extract_def)

lemma idle_more:
  assumes "idle i v" "i \<noteq> k"
  shows "idle i (v\<lparr>bw_extracting := bw_extracting v @ [(t, k, ph)]\<rparr>)" "idle i (v\<lparr>bw_extracts := bw_extracts v @ [(t, k)]\<rparr>)"
  using assms by (auto simp: idle_def unpacking_def)

lemma idle_other: "idle i w \<Longrightarrow> k \<in> set (unpacking w) \<Longrightarrow> i \<noteq> k"
  by (auto simp: idle_def)

lemma extracting_unpacking: "(t, k, ph) \<in> set (bw_extracting w) \<Longrightarrow> k \<in> set (unpacking w)" "(t, k) \<in> set (bw_extracts w) \<Longrightarrow> k \<in> set (unpacking w)"
  by (force simp: unpacking_def)+

lemma stage_files_of:
  assumes "i \<noteq> k"
  shows "files_of i (stage_files ev t k w) = files_of i w" "idle i w \<Longrightarrow> idle i (stage_files ev t k w)"
proof -
  define v where "v = end_extract t k w"
  have v: "bw_files v = bw_files w" by (simp add: v_def)
  have same: "files_of i u = files_of i w" if "bw_files u = bw_files w" for u by (simp add: files_of_def that)
  have store: "bw_files w1 = bw_files w" "bw_extracts w1 = bw_extracts v" "bw_extracting w1 = bw_extracting v" "bw_next v \<le> bw_next w1"
    "r = Some fs \<Longrightarrow> filter (\<lambda>f. jf_job f = i) fs = []"
    if "store_entries ev k es v = ((r, ps), w1)" for es r ps w1 fs
    using store_entries_views[OF that] assms by (auto simp: beside_def apart_def v fresh_rows_def filter_empty_conv)
  have staged: "files_of i (w1\<lparr>bw_files := bw_files w1 @ fs, bw_extracting := e\<rparr>) = files_of i w"
    if "store_entries ev k es v = ((Some fs, ps), w1)" for es fs ps w1 e
    using store(1)[OF that] store(5)[OF that] by (simp add: files_of_def)
  have outcome: "(bw_files (stage_files ev t k w) = bw_files w \<and> extr (stage_files ev t k w) = extr v)
    \<or> (\<exists>es r ps w1. store_entries ev k es v = ((r, ps), w1) \<and> (bw_files (stage_files ev t k w) = bw_files w1 \<and> extr (stage_files ev t k w) = extr w1
        \<or> (\<exists>fs. r = Some fs \<and> stage_files ev t k w = w1\<lparr>bw_files := bw_files w1 @ fs, bw_extracting := bw_extracting w1 @ [(t, k, XP_Staged (map jf_id fs))]\<rparr>)))"
  proof (cases "find_job k v")
    case None
    then show ?thesis by (simp add: stage_files_def v_def[symmetric] v)
  next
    case j: (Some j)
    show ?thesis
    proof (cases "download ev (uj_zip j) v")
      case None
      then show ?thesis using j by (simp add: stage_files_def v_def[symmetric] v)
    next
      case d: (Some a)
      show ?thesis
      proof (cases "be_unzip ev a")
        case None
        then show ?thesis using j d by (simp add: stage_files_def v_def[symmetric] v)
      next
        case u: (Some all)
        define es where "es = filter (\<lambda>(n, b). real_entry n) all"
        obtain r ps w1 where run: "store_entries ev k es v = ((r, ps), w1)" by (metis surj_pair)
        show ?thesis
        proof (cases "int (length es) > max_files_per_zip ev")
          case True
          then show ?thesis using j d u by (simp add: stage_files_def v_def[symmetric] v es_def)
        next
          case False
          have eq: "stage_files ev t k w = (case r of None \<Rightarrow> extract_failed t k ps w1
            | Some fs \<Rightarrow> w1\<lparr>bw_files := bw_files w1 @ fs, bw_extracting := bw_extracting w1 @ [(t, k, XP_Staged (map jf_id fs))]\<rparr>)"
            using j d u run False by (simp add: stage_files_def v_def[symmetric] es_def[symmetric] Let_def)
          show ?thesis by (rule disjI2, intro exI conjI, rule run) (cases r; simp add: eq)
        qed
      qed
    qed
  qed
  show "files_of i (stage_files ev t k w) = files_of i w" using outcome
  proof (elim disjE exE conjE)
    fix es r ps w1 fs assume run: "store_entries ev k es v = ((r, ps), w1)" "r = Some fs"
      and eq: "stage_files ev t k w = w1\<lparr>bw_files := bw_files w1 @ fs, bw_extracting := bw_extracting w1 @ [(t, k, XP_Staged (map jf_id fs))]\<rparr>"
    show ?thesis unfolding eq by (rule staged) (use run in simp)
  next
    fix es r ps w1 assume run: "store_entries ev k es v = ((r, ps), w1)" and eq: "bw_files (stage_files ev t k w) = bw_files w1"
    show ?thesis by (rule same) (simp add: eq store(1)[OF run])
  qed (rule same)
  show "idle i (stage_files ev t k w)" if "idle i w"
  proof -
    have idle: "idle i v" using that by (auto simp: v_def)
    have stored: "idle i w1" if "store_entries ev k es v = ((r, ps), w1)" for es r ps w1
      using store(2-4)[OF that] idle by (simp add: idle_def unpacking_def)
    have added: "idle i (w1\<lparr>bw_files := fs, bw_extracting := bw_extracting w1 @ [(t, k, ph)]\<rparr>)" if "idle i w1" for w1 fs ph
      using that assms by (auto simp: idle_def unpacking_def)
    show ?thesis using outcome idle stored added idle_extr by (elim disjE exE conjE) metis+
  qed
qed

lemma step_idle:
  assumes "bulk_step w w'" "idle i w"
  shows "idle i w'"
  using assms
proof cases
  case (upload ev camp bytes name who consent juris)
  have drawn: "idle i u" if "draw_task ev v = (t, u)" "idle i v" for t u v using draw_extr[OF that(1)] that(2) idle_extr by blast
  have new: "idle i (v\<lparr>bw_objects := os, bw_jobs := js, bw_next := Suc (bw_next v)\<rparr>)" if "idle i v" for v os js
    using that by (simp add: idle_def unpacking_def)
  have sent: "idle i (v\<lparr>bw_extracts := bw_extracts v @ [(t, bw_next u)]\<rparr>)"
    if "idle i v" "idle i u" for u v t using idle_more(2)[OF that(1), of "bw_next u"] that(2) by (simp add: idle_def)
  show ?thesis unfolding upload
    using assms(2) drawn new sent by (auto simp: upload_zip_def Let_def split: sum.split prod.split)
next
  case (begin_extraction t k ev)
  have ne: "i \<noteq> k" using idle_other[OF assms(2)] extracting_unpacking(2)[OF begin_extraction(2)] by blast
  have v: "idle i (w\<lparr>bw_extracts := remove1 (t, k) (bw_extracts w)\<rparr>)" (is "idle i ?v")
    using assms(2) set_remove1_subset[of "(t, k)" "bw_extracts w"] by (auto simp: idle_def unpacking_def)
  have more: "idle i ((update_job_status k BU_EXTRACTING None False u)\<lparr>bw_extracting := bw_extracting u @ [(t, k, XP_Begun)]\<rparr>)"
    if u: "extr u = extr ?v" for u
  proof -
    let ?u = "update_job_status k BU_EXTRACTING None False u"
    have "extr ?u = extr u" by simp
    then have "idle i ?u" "bw_extracting ?u = bw_extracting u" using idle_same[OF _ v, of ?u] u by (simp_all add: extr_def)
    then show ?thesis using idle_more(1)[of i ?u k t XP_Begun] ne by simp
  qed
  have logged: "extr (log_created ev t ''BULK_EXTRACT'' ?v) = extr ?v" by simp
  have "idle i (begin_extract ev t k ?v)"
  proof (cases "has_log t ?v")
    case False
    define u where "u = log_created ev t ''BULK_EXTRACT'' ?v"
    have u: "extr u = extr ?v" unfolding u_def by (rule logged)
    have "idle i (log_ended t TK_FAILURE u)" "idle i (log_ended t TK_FAILURE (update_job_status k BU_FAILED e False u))" for e
      by (rule idle_same[OF _ v], simp add: u)+
    then show ?thesis using False more[OF u] by (simp add: begin_extract_def Let_def u_def[symmetric] split: option.split)
  qed (use v in \<open>simp add: begin_extract_def\<close>)
  then show ?thesis unfolding begin_extraction(1) .
next
  case (stage t k ev)
  then show ?thesis using stage_files_of(2) idle_other[OF assms(2)] extracting_unpacking(1) assms(2) by metis
next
  case (open_files t k fs)
  have ne: "i \<noteq> k" using idle_other[OF assms(2)] extracting_unpacking(1)[OF open_files(2)] by blast
  have "idle i (u\<lparr>bw_extracting := bw_extracting u @ [(t, k, XP_Opened fs)]\<rparr>)" if "extr u = extr (end_extract t k w)" for u
    using idle_more(1)[OF _ ne] idle_end[OF assms(2)] idle_extr[OF that] by blast
  then show ?thesis by (simp add: open_files(1) open_job_def Let_def)
next
  case (publish t k fs ev)
  have "extr (publish_files ev t k fs w) = extr (end_extract t k w)"
    using send_extr[of ev fs "end_extract t k w"] by (auto simp: publish_files_def Let_def fold_extr split: option.split prod.split)
  then show ?thesis using idle_end[OF assms(2)] idle_extr publish(1) by blast
next
  case (lose_extraction t k ph)
  have ne: "i \<noteq> k" using idle_other[OF assms(2)] extracting_unpacking(1)[OF lose_extraction(2)] by blast
  then show ?thesis unfolding lose_extraction(1) using idle_more(2)[OF idle_end[OF assms(2)] ne, of t k t] by simp
next
  case (claim t f n ev)
  then show ?thesis using idle_extr[OF extr_runs(3)] idle_extr[of "w\<lparr>bw_queue := _\<rparr>" w] assms(2) by simp
qed (rule idle_same[OF _ assms(2)], simp add: extr_runs extr_requests)+


section \<open>Jobs without an end\<close>

lemma reachable_on: "rtranclp bulk_step w w' \<Longrightarrow> bulk_fine w \<Longrightarrow> bulk_fine w'"
  by (induction rule: rtranclp_induct) (auto intro: step_fine)

lemma cancelled_for_ever:
  assumes "rtranclp bulk_step w w'" "bulk_fine w" "all_cancelled i w"
  shows "all_cancelled i w'"
  using assms
proof (induction rule: rtranclp_induct)
  case (step v v')
  have fine: "bulk_fine v" and c: "all_cancelled i v" using reachable_on[OF step.hyps(1) step.prems(1)] step.IH step.prems by simp_all
  consider "files_kept v' v" | t k ev where "(t, k, XP_Begun) \<in> set (bw_extracting v)" "v' = stage_files ev t k v"
    using step_kept[OF step.hyps(2) fine] by blast
  then show ?case
  proof cases
    case 1
    then show ?thesis using kept_cancelled c by blast
  next
    case 2
    have "phase_fine k v XP_Begun" using fine 2(1) by (fastforce simp: bulk_fine_def extracts_fine_def)
    then have "i \<noteq> k" using c by (auto simp: all_cancelled_def)
    then show ?thesis using c stage_files_of(1)[of i k ev t v] 2(2) by (simp add: all_cancelled_def)
  qed
qed simp

lemma cancel_list: fixes xs :: "job_file list"
  shows
  "(\<forall>f\<in>set (filter (\<lambda>f. jf_job f = i) xs). jf_status f = BF_QUEUED) \<Longrightarrow>
   filter (\<lambda>f. jf_job f = i) (map (\<lambda>f. if jf_job f = i \<and> jf_status f = BF_QUEUED then f\<lparr>jf_status := BF_CANCELLED\<rparr> else f) xs)
   = map (\<lambda>f. f\<lparr>jf_status := BF_CANCELLED\<rparr>) (filter (\<lambda>f. jf_job f = i) xs)"
  by (induction xs) auto

text \<open>
  Property C38.  A job that is cancelled after its files are staged and before it is opened: the
  cancellation is answered as done, the extraction then opens the job, which is in processing with
  every file cancelled, and whatever happens afterwards, all files stay cancelled and the job is
  never completed, not even in part.  A second cancellation can still end it.
\<close>

theorem cancel_during_staging_strands:
  assumes "rtranclp bulk_step (bulk_start u) w" "(t, i, XP_Staged fs) \<in> set (bw_extracting w)" "fs \<noteq> []"
    and "\<forall>f\<in>set (files_of i w). jf_status f = BF_QUEUED" "cancel_job i actor role w = (Inr n, w1)"
    and "rtranclp bulk_step (open_job t i fs w1) w'"
  shows "map_option bj_status (find_job i (open_job t i fs w1)) = Some BU_PROCESSING \<and> n = length fs
    \<and> (\<forall>f\<in>set (files_of i w'). jf_status f = BF_CANCELLED)
    \<and> (\<exists>j. find_job i w' = Some j \<and> bj_status j \<noteq> BU_COMPLETED \<and> bj_status j \<noteq> BU_PARTIAL_FAILURE)"
proof -
  have fine: "bulk_fine w" by (rule reachable_fine[OF assms(1)])
  have "waiting i fs w" using fine assms(2) by (fastforce simp: bulk_fine_def extracts_fine_def)
  then have ids: "map jf_id (files_of i w) = fs" by (simp add: waiting_def)
  obtain j where j: "find_job i w = Some j" "\<not> terminal_status (bj_status j)" using assms(5) by (auto simp: cancel_job_def split: option.splits if_splits)
  then have w1: "bw_files w1 = bw_files (snd (cancel_queued_files i w))" and n: "n = length (filter (\<lambda>f. jf_status f = BF_QUEUED) (files_of i w))"
    using assms(5) by (auto simp: cancel_job_def cancel_queued_files_def files_of_def conj_commute)
  have "filter (\<lambda>f. jf_status f = BF_QUEUED) (files_of i w) = files_of i w" using assms(4) by (simp add: filter_id_conv)
  then have count: "n = length fs" using n ids by auto
  have fine1: "bulk_fine w1" and extr1: "extr w1 = extr w" using cancel_job_fine[OF fine, of i actor role] extr_requests(1)[of i actor role w] assms(5) by simp_all
  have staged: "(t, i, XP_Staged fs) \<in> set (bw_extracting w1)" using assms(2) extr1 by (simp add: extr_def)
  have "files_of i w1 = map (\<lambda>f. f\<lparr>jf_status := BF_CANCELLED\<rparr>) (files_of i w)"
    using assms(4) cancel_list[of i "bw_files w"] by (simp add: files_of_def w1 cancel_queued_files_def)
  then have c1: "all_cancelled i w1" using ids assms(3) by (auto simp: all_cancelled_def)
  have opened: "bulk_fine (open_job t i fs w1)" by (rule open_job_fine[OF fine1 staged])
  have "bw_files (open_job t i fs w1) = bw_files w1" by (simp add: open_job_def Let_def)
  then have "all_cancelled i (open_job t i fs w1)" using c1 by (simp add: all_cancelled_def files_of_def)
  note last = cancelled_for_ever[OF assms(6) opened this]
  have fine': "bulk_fine w'" by (rule reachable_on[OF assms(6) opened])
  have "\<exists>f\<in>set (files_of i w'). jf_status f = BF_CANCELLED" using last by (cases "files_of i w'") (auto simp: all_cancelled_def)
  then obtain f where f: "f \<in> set (bw_files w')" "jf_job f = i" "\<not> resolved f" by (auto simp: files_of_def resolved_def)
  then have "i \<in> bj_id ` set (bw_jobs w')" using fine' by (auto simp: bulk_fine_def ids_fine_def)
  then obtain k where k: "k \<in> set (bw_jobs w')" "bj_id k = i" by auto
  have found: "find_job i w' = Some k" unfolding find_job_def using fine' k by (intro find_id) (simp_all add: bulk_fine_def ids_fine_def)
  have "length (filter resolved (files_of i w')) < length (files_of i w')" using some_unresolved[OF f(1,3)] f(2) by simp
  then have "bj_status k \<noteq> BU_COMPLETED" "bj_status k \<noteq> BU_PARTIAL_FAILURE"
    using fine' k by (auto simp: bulk_fine_def counts_fine_def settled_def)
  moreover have "map_option bj_status (find_job i (open_job t i fs w1)) = Some BU_PROCESSING"
  proof -
    obtain k1 where k1: "find_job i w1 = Some k1" using j assms(5)
      by (auto simp: cancel_job_def find_job_def update_job_status_def set_job_def on_tasks_def cancel_queued_files_def find_map_update)
    have "find (\<lambda>j. bj_id j = i) (map (\<lambda>j. if bj_id j = i then h j else j) js) = map_option h (find (\<lambda>j. bj_id j = i) js)"
      if "\<And>j. bj_id (h j) = bj_id j" for h :: "upload_job \<Rightarrow> upload_job" and js
      by (induction js) (simp_all add: that)
    then have set: "find_job i (set_job i h v) = map_option h (find_job i v)" if "\<And>j. bj_id (h j) = bj_id j" for h v
      using that by (simp add: find_job_def set_job_def)
    have "find_job i (end_extract t i w1) = Some k1" using k1 by (simp add: find_job_def)
    moreover have "find_job i (v\<lparr>bw_extracting := es\<rparr>) = find_job i v" for v es by (simp add: find_job_def)
    ultimately show ?thesis using assms(3) by (simp add: open_job_def Let_def update_job_status_def set)
  qed
  ultimately show ?thesis using last found count by (auto simp: all_cancelled_def)
qed

text \<open>
  Property C39.  A worker lost after it began an extraction and before the files are staged: the
  message is delivered again, but the log row of the task exists, so the second delivery does
  nothing, and whatever happens afterwards the job has no files and is never processed.
\<close>

theorem lost_extraction_strands:
  assumes "rtranclp bulk_step (bulk_start u) w" "(t, i, XP_Begun) \<in> set (bw_extracting w)"
    and "w1 = (end_extract t i w)\<lparr>bw_extracts := bw_extracts w @ [(t, i)]\<rparr>"
    and "rtranclp bulk_step (begin_extract ev t i (w1\<lparr>bw_extracts := remove1 (t, i) (bw_extracts w1)\<rparr>)) w'"
  shows "begin_extract ev t i (w1\<lparr>bw_extracts := remove1 (t, i) (bw_extracts w1)\<rparr>) = end_extract t i w
    \<and> files_of i w' = [] \<and> i \<notin> set (unpacking w')
    \<and> (\<forall>j. find_job i w' = Some j \<longrightarrow> bj_status j \<noteq> BU_PROCESSING \<and> bj_status j \<noteq> BU_COMPLETED \<and> bj_status j \<noteq> BU_PARTIAL_FAILURE)"
proof -
  have fine: "bulk_fine w" by (rule reachable_fine[OF assms(1)])
  have b: "between t i XP_Begun (end_extract t i w)" by (rule end_extract_between[OF fine assms(2)])
  have "(t, i) \<notin> set (bw_extracts w)" using b by (force simp: between_def unpacking_def)
  then have "w1\<lparr>bw_extracts := remove1 (t, i) (bw_extracts w1)\<rparr> = end_extract t i w"
    unfolding assms(3) by (simp add: remove1_append end_extract_def)
  moreover have "has_log t (end_extract t i w)" using b by (simp add: between_def has_log_logs)
  ultimately have again: "begin_extract ev t i (w1\<lparr>bw_extracts := remove1 (t, i) (bw_extracts w1)\<rparr>) = end_extract t i w"
    by (simp add: begin_extract_def)
  have "bulk_fine w' \<and> idle i w' \<and> files_of i w' = []"
    using assms(4)[unfolded again]
  proof (induction rule: rtranclp_induct)
    case base
    then show ?case using b by (simp add: between_def idle_def)
  next
    case (step v v')
    then have v: "bulk_fine v" "idle i v" "files_of i v = []" by simp_all
    consider "files_kept v' v" | s k e where "(s, k, XP_Begun) \<in> set (bw_extracting v)" "v' = stage_files e s k v"
      using step_kept[OF step.hyps(2) v(1)] by blast
    then have "files_of i v' = []"
    proof cases
      case 1
      then show ?thesis using kept_files_of v(3) by blast
    next
      case 2
      have "i \<noteq> k" using idle_other[OF v(2) extracting_unpacking(1)[OF 2(1)]] .
      then show ?thesis using stage_files_of(1)[of i k e s v] v(3) 2(2) by simp
    qed
    then show ?case using step_fine[OF step.hyps(2) v(1)] step_idle[OF step.hyps(2) v(2)] by simp
  qed
  then have w': "bulk_fine w'" "idle i w'" "files_of i w' = []" by simp_all
  have "bj_status j \<noteq> BU_PROCESSING \<and> bj_status j \<noteq> BU_COMPLETED \<and> bj_status j \<noteq> BU_PARTIAL_FAILURE" if "find_job i w' = Some j" for j
  proof -
    have "counts_fine w' j" "bj_id j = i" using w'(1) find_job_in[OF that] by (auto simp: bulk_fine_def)
    then show ?thesis using w'(3) by (auto simp: counts_fine_def settled_def)
  qed
  then show ?thesis using again w'(2,3) by (auto simp: idle_def)
qed


section \<open>A file that is not parsed\<close>

text \<open>What a parse looks at.\<close>

definition parse_view :: "bulk_world \<Rightarrow> job_file list \<times> upload_job list \<times> (string \<times> string) list \<times> campaign_row list \<times> resume_file list \<times> member list" where
  "parse_view w = (let d = it_saved (bw_in w) in (bw_files w, bw_jobs w, bw_objects w, ik_campaigns d, ik_resumes d, ik_members d))"

lemma view_tasks:
  assumes "\<And>d. ik_campaigns (g d) = ik_campaigns d" "\<And>d. ik_resumes (g d) = ik_resumes d" "\<And>d. ik_members (g d) = ik_members d"
  shows "parse_view (on_tasks g w) = parse_view w"
  by (simp add: parse_view_def on_tasks_def commit_def edit_def rollback_def assms Let_def)

lemma view_simps [simp]:
  "parse_view (log_ended t s w) = parse_view w" "parse_view (log_success t ty r w) = parse_view w"
  "parse_view (log_created ev t ty w) = parse_view w" "parse_view (log_running ev t w) = parse_view w"
  "parse_view (w\<lparr>bw_queue := q\<rparr>) = parse_view w" "parse_view (w\<lparr>bw_runs := rs\<rparr>) = parse_view w"
  "parse_view (w\<lparr>bw_failures := fs\<rparr>) = parse_view w" "parse_view (end_run t f w) = parse_view w"
  by (simp_all add: log_ended_def log_success_def log_created_def log_running_def edit_task_def view_tasks)
    (simp_all add: parse_view_def end_run_def)

lemma view_finds:
  assumes "parse_view v = parse_view w"
  shows "find_file f v = find_file f w" "find_job i v = find_job i w" "download ev p v = download ev p w"
    "get_by_file_hash_global h (it_saved (bw_in v)) = get_by_file_hash_global h (it_saved (bw_in w))"
    "campaign_of c (it_saved (bw_in v)) = campaign_of c (it_saved (bw_in w))"
    "member_of c q (it_saved (bw_in v)) = member_of c q (it_saved (bw_in w))"
  using assms
  by (simp_all add: parse_view_def Let_def find_file_def find_job_def download_def get_by_file_hash_global_def campaign_of_def member_of_def)

lemma find_update:
  "(\<And>x. jf_id (h x) = jf_id x) \<Longrightarrow> find_file f (set_file f h w) = map_option h (find_file f w)"
  "(\<And>j. bj_id (g j) = bj_id j) \<Longrightarrow> find_job i (set_job i g w) = map_option g (find_job i w)"
proof -
  assume "\<And>x. jf_id (h x) = jf_id x"
  then have "find (\<lambda>x. jf_id x = f) (map (\<lambda>x. if jf_id x = f then h x else x) xs) = map_option h (find (\<lambda>x. jf_id x = f) xs)" for xs
    by (induction xs) simp_all
  then show "find_file f (set_file f h w) = map_option h (find_file f w)" by (simp add: find_file_def set_file_def)
next
  assume "\<And>j. bj_id (g j) = bj_id j"
  then have "find (\<lambda>j. bj_id j = i) (map (\<lambda>j. if bj_id j = i then g j else j) js) = map_option g (find (\<lambda>j. bj_id j = i) js)" for js
    by (induction js) simp_all
  then show "find_job i (set_job i g w) = map_option g (find_job i w)" by (simp add: find_job_def set_job_def)
qed

lemma resolve_finds:
  assumes "find_file f w = Some x" "find_job i w = Some j"
  shows "map_option jf_status (find_file f (resolve_file t f i s c e w)) = Some s"
    "find_job i (resolve_file t f i s c e w) = Some (count_outcome c j)"
    "bw_in (resolve_file t f i s c e w) = bw_in w" "(t, i, e) \<in> set (bw_closing (resolve_file t f i s c e w))"
proof -
  define v where "v = set_job i (count_outcome c) (update_file_status f s w)"
  have count: "bj_id (count_outcome c j) = bj_id j" for j by (simp add: count_outcome_def split: outcome_count.split)
  have "find_job i (update_file_status f s w) = Some j" using assms(2) by (simp add: find_job_def update_file_status_def set_file_def)
  then have j: "find_job i v = Some (count_outcome c j)" unfolding v_def by (simp add: find_update(2)[OF count])
  have x: "map_option jf_status (find_file f v) = Some s"
    using assms(1) find_update(1)[of "\<lambda>x. x\<lparr>jf_status := s\<rparr>" f w]
    by (simp add: v_def find_file_def set_job_def update_file_status_def)
  have v: "bw_in v = bw_in w" by (simp add: v_def set_job_def update_file_status_def set_file_def)
  have out: "resolve_file t f i s c e w = v\<lparr>bw_closing := bw_closing v @ [(t, i, e)]\<rparr>" by (simp add: resolve_file_def v_def Let_def)
  show "map_option jf_status (find_file f (resolve_file t f i s c e w)) = Some s" "bw_in (resolve_file t f i s c e w) = bw_in w"
    "find_job i (resolve_file t f i s c e w) = Some (count_outcome c j)" "(t, i, e) \<in> set (bw_closing (resolve_file t f i s c e w))"
    unfolding out using x v j by (simp_all add: find_file_def find_job_def)
qed

lemma created:
  assumes "campaign_of c (it_db u) = Some ca" "ca_status ca = CS_ACTIVE" "member_of c p (it_db u) = None"
  shows "\<exists>e v. create_campaign_candidate c p r actor None u = (Inr e, v) \<and> ik_resumes (it_db v) = ik_resumes (it_db u)
    \<and> e \<in> set (ik_members (it_db v)) \<and> mb_key e = (c, p, r)"
proof (cases "find (\<lambda>m. mb_key m = (c, p, r)) (ik_members (it_db u))")
  case None
  then show ?thesis using assms by (simp add: create_campaign_candidate_def Let_def edit_def log_intake_def)
next
  case (Some e)
  then show ?thesis using assms find_Some_set[OF Some] by (simp add: create_campaign_candidate_def Let_def commit_def)
qed

text \<open>A duplicate of a resume that is not in the campaign yet.\<close>

lemma link_unparsed:
  assumes "find_file f w = Some x" "find_job (bj_id j) w = Some j" "m \<in> set (ik_resumes (it_saved (bw_in w)))"
    and "campaign_of (bj_campaign j) (it_saved (bw_in w)) = Some ca" "ca_status ca = CS_ACTIVE"
    and "member_of (bj_campaign j) (rf_candidate m) (it_saved (bw_in w)) = None"
  shows "map_option jf_status (find_file f (link_duplicate t f j m w)) = Some BF_PROCESSED"
    "\<exists>k. find_job (bj_id j) (link_duplicate t f j m w) = Some k \<and> uj_duplicate k = uj_duplicate j + 1 \<and> uj_processed k = uj_processed j"
    "m \<in> set (ik_resumes (it_saved (bw_in (link_duplicate t f j m w))))"
    "\<exists>e\<in>set (ik_members (it_saved (bw_in (link_duplicate t f j m w)))). mb_key e = (bj_campaign j, rf_candidate m, rf_id m)"
    "(t, bj_id j, FE_Success (Some (rf_id m))) \<in> set (bw_closing (link_duplicate t f j m w))"
proof -
  obtain e u where run: "create_campaign_candidate (bj_campaign j) (rf_candidate m) (rf_id m) (uj_by j) None (rollback (bw_in w)) = (Inr e, u)"
      "ik_resumes (it_db u) = ik_resumes (it_saved (bw_in w))" "e \<in> set (ik_members (it_db u))"
      "mb_key e = (bj_campaign j, rf_candidate m, rf_id m)"
    using created[of "bj_campaign j" "rollback (bw_in w)" ca "rf_candidate m" "rf_id m" "uj_by j"] assms(4-6) by (auto simp: rollback_def)
  define v where "v = w\<lparr>bw_in := commit u\<rparr>"
  have found: "find_file f v = Some x" "find_job (bj_id j) v = Some j" using assms(1,2) by (simp_all add: v_def find_file_def find_job_def)
  have out: "link_duplicate t f j m w = resolve_file t f (bj_id j) BF_PROCESSED OC_Duplicate (FE_Success (Some (rf_id m))) v"
    using assms(6) run(1) by (simp add: link_duplicate_def Let_def v_def)
  note ends = resolve_finds[OF found, where t = t and s = BF_PROCESSED and c = OC_Duplicate and e = "FE_Success (Some (rf_id m))", folded out]
  show "m \<in> set (ik_resumes (it_saved (bw_in (link_duplicate t f j m w))))"
    "\<exists>e\<in>set (ik_members (it_saved (bw_in (link_duplicate t f j m w)))). mb_key e = (bj_campaign j, rf_candidate m, rf_id m)"
    unfolding ends(3) using run assms(3) by (auto simp: v_def commit_def)
  show "map_option jf_status (find_file f (link_duplicate t f j m w)) = Some BF_PROCESSED" by (rule ends(1))
  show "\<exists>k. find_job (bj_id j) (link_duplicate t f j m w) = Some k \<and> uj_duplicate k = uj_duplicate j + 1 \<and> uj_processed k = uj_processed j"
    using ends(2) by (simp add: count_outcome_def)
  show "(t, bj_id j, FE_Success (Some (rf_id m))) \<in> set (bw_closing (link_duplicate t f j m w))" by (rule ends(4))
qed

text \<open>
  Property C40.  A run saved the resume of a PDF or DOCX file, pending, and fails at a later stage, for a
  reason that may pass and with attempts left; the campaign is active and the candidate not yet in
  it.  The message is sent again, but the second run finds the resume the first one saved and takes
  the file for a duplicate of it: it is done without parsing the resume, which it leaves pending, it
  counts the file as processed, puts the candidate into the campaign and will mark its task as a
  success.
\<close>

theorem late_retry_skips_parse:
  assumes "find_file f w = Some x" "jf_status x = BF_RUNNING" "find_job (jf_job x) w = Some j"
    and "classify e \<noteq> FC_PERMANENT" "n < rp_max (stage_policy s)"
    and "download ev (jf_path x) w = Some bytes" "validate_file (intake_env.truncate ev) bytes (jf_name x) = Inr fmt"
    and "fmt = FF_PDF \<or> fmt = FF_DOCX"
    and "get_by_file_hash_global (ie_md5 ev bytes) (it_saved (bw_in w)) = Some m" "rf_status m = PS_PENDING"
    and "campaign_of (bj_campaign j) (it_saved (bw_in w)) = Some ca" "ca_status ca = CS_ACTIVE"
    and "member_of (bj_campaign j) (rf_candidate m) (it_saved (bw_in w)) = None"
    and "w1 = persist_file (SV_Stage (s, e)) t f n (rf_id m) w"
    and "w2 = read_file ev rd t f (Suc n) (claim_file ev t f (Suc n) (w1\<lparr>bw_queue := remove1 (t, f, Suc n) (bw_queue w1)\<rparr>))"
  shows "(t, f, Suc n) \<in> set (bw_queue w1) \<and> map_option jf_status (find_file f w2) = Some BF_PROCESSED
    \<and> (\<exists>k. find_job (jf_job x) w2 = Some k \<and> uj_duplicate k = uj_duplicate j + 1 \<and> uj_processed k = uj_processed j)
    \<and> (\<exists>r\<in>set (ik_resumes (it_saved (bw_in w2))). rf_id r = rf_id m \<and> rf_status r = PS_PENDING)
    \<and> (\<exists>i\<in>set (ik_members (it_saved (bw_in w2))). mb_key i = (bj_campaign j, rf_candidate m, rf_id m))
    \<and> (t, jf_job x, FE_Success (Some (rf_id m))) \<in> set (bw_closing w2)"
proof -
  define w0 where "w0 = end_run t f w"
  have view0: "parse_view w0 = parse_view w" by (simp add: w0_def)
  have w0: "find_file f w0 = Some x" "find_job (jf_job x) w0 = Some j" using view_finds(1,2)[OF view0] assms(1,3) by simp_all
  have w1: "w1 = stage_failed t f (bj_id j) n (Some (rf_id m)) (s, e) w0"
    unfolding assms(14) by (simp add: persist_file_def w0_def[symmetric] w0)
  obtain delay jt where h: "handle_failure parse_type t (s, e) n None \<lparr>jt_tasks = [], jt_failures = bw_failures w0, jt_dlq = ik_dlq (it_saved (bw_in w0))\<rparr>
      = (Some delay, jt)"
    using assms(4,5) by (simp add: handle_failure_def Let_def)
  have sent: "(t, f, Suc n) \<in> set (bw_queue w1)" and view1: "parse_view w1 = parse_view w"
    using view0 by (simp_all add: w1 stage_failed_def h Let_def view_tasks edit_task_def)
  define w1' where "w1' = w1\<lparr>bw_queue := remove1 (t, f, Suc n) (bw_queue w1)\<rparr>"
  define w1l where "w1l = (if has_log t w1' then log_running ev t w1' else log_created ev t parse_type w1')"
  have viewl: "parse_view w1l = parse_view w" using view1 by (simp add: w1l_def w1'_def)
  have found: "find_file f w1l = Some x" using view_finds(1)[OF viewl] assms(1) by simp
  define w1c where "w1c = (update_file_status f BF_RUNNING w1l)\<lparr>bw_runs := bw_runs w1l @ [(t, f, Suc n, RP_Claimed)]\<rparr>"
  have claim: "claim_file ev t f (Suc n) w1' = w1c"
    using found assms(2) by (simp add: claim_file_def w1l_def[symmetric] w1c_def)
  define v where "v = end_run t f w1c"
  have x: "x\<lparr>jf_status := BF_RUNNING\<rparr> = x" using assms(2) by simp
  have v1: "find_file f v = Some x"
    using found find_update(1)[of "\<lambda>x. x\<lparr>jf_status := BF_RUNNING\<rparr>" f w1l] x
    by (simp add: v_def w1c_def end_run_views find_file_def update_file_status_def)
  have objects: "bw_objects w1l = bw_objects w" using viewl by (simp add: parse_view_def Let_def)
  have "bw_jobs v = bw_jobs w1l" "bw_objects v = bw_objects w1l" "bw_in v = bw_in w1l"
    by (simp_all add: v_def w1c_def end_run_views update_file_status_def set_file_def)
  then have v: "find_job i v = find_job i w" "download ev p v = download ev p w"
    "get_by_file_hash_global k (it_saved (bw_in v)) = get_by_file_hash_global k (it_saved (bw_in w))"
    "campaign_of c (it_saved (bw_in v)) = campaign_of c (it_saved (bw_in w))"
    "member_of c q (it_saved (bw_in v)) = member_of c q (it_saved (bw_in w))" for i p k c q
    using view_finds[OF viewl] objects by (simp_all add: find_job_def download_def)
  have "find_job (jf_job x) v = Some j" using v(1) assms(3) by simp
  then have out: "w2 = link_duplicate t f j m v"
    unfolding assms(15) w1'_def[symmetric] claim using v v1 assms(6-9) by (auto simp add: read_file_def v_def[symmetric])
  have j: "bj_id j = jf_job x" using find_job_in[OF assms(3)] by simp
  have m: "m \<in> set (ik_resumes (it_saved (bw_in v)))"
    using find_Some_set[OF trans[OF v(3) assms(9), unfolded get_by_file_hash_global_def]] by simp
  have "find_job (bj_id j) v = Some j" "campaign_of (bj_campaign j) (it_saved (bw_in v)) = Some ca"
    "member_of (bj_campaign j) (rf_candidate m) (it_saved (bw_in v)) = None"
    using v assms(3,11,13) j by simp_all
  note linked = link_unparsed[OF v1 this(1) m this(2) assms(12) this(3), of t]
  show ?thesis using sent linked assms(10) unfolding out j by blast
qed

section \<open>A worker lost before it finalizes the job\<close>

text \<open>
  The last worker of a job is lost between the commit of the counters and the finalization: the
  message is delivered again, but its file is resolved, so the second delivery only pauses the task,
  and the job stays as it is, in processing with nothing left to do.
\<close>

lemma lost_finalization:
  assumes "find_file f w = Some x" "resolved x"
  shows "bw_jobs (claim_file ev t f n w) = bw_jobs w \<and> bw_files (claim_file ev t f n w) = bw_files w
    \<and> bw_runs (claim_file ev t f n w) = bw_runs w \<and> bw_closing (claim_file ev t f n w) = bw_closing w"
proof -
  define w1 where "w1 = (if has_log t w then log_running ev t w else log_created ev t parse_type w)"
  have same: "same_bulk w1 w" unfolding w1_def using same_log(1,2) by simp
  have "find_file f w1 = Some x" using same assms(1) by (simp add: same_bulk_def find_file_def)
  moreover have "jf_status x \<noteq> BF_QUEUED" "jf_status x \<noteq> BF_RUNNING" using assms(2) by (auto simp: resolved_def)
  ultimately have "claim_file ev t f n w = log_ended t TK_PAUSED w1" by (simp add: claim_file_def w1_def[symmetric] Let_def)
  then show ?thesis using same same_log(3)[of t TK_PAUSED w1] by (simp add: same_bulk_def)
qed

end
