(* ===== verification/Bulk_Upload_Examples.thy ===== *)
theory Bulk_Upload_Examples
  imports Bulk_Upload_Outcomes Resume_Intake_Examples
begin

text \<open>One archive with one resume, uploaded and worked on step by step.\<close>

definition bulk_sample :: bulk_env where
  "bulk_sample =
     \<lparr>ev_send = (\<lambda>_ _. True), ev_fresh = (\<lambda>n. replicate n CHR ''x''), ie_guess = (\<lambda>b. Some ''PDF''), ie_intact = (\<lambda>_ _. True),
      ie_md5 = (\<lambda>b. b), ie_digest = (\<lambda>e. e), ie_encrypt = True, ie_store = (\<lambda>_. True), ie_config = [], ie_clock = 0,
      be_mime = (\<lambda>_. Some ''application/zip''), be_unzip = (\<lambda>_. Some [(''all/'', ''''), (''all/cv.pdf'', ''cv'')]), be_reach = (\<lambda>_. True)\<rparr>"

definition bulk_camp :: nat where
  "bulk_camp = ca_id (open_campaign None)"

definition bulk_empty :: bulk_world where
  "bulk_empty = bulk_start (intake_start (intake_rows [] [] [] []))"

definition bulk_uploaded :: bulk_world where
  "bulk_uploaded = snd (upload_zip bulk_sample bulk_camp ''pk'' ''cvs.zip'' ''hr'' True ''EU'' bulk_empty)"

definition take_extract :: "string \<Rightarrow> nat \<Rightarrow> bulk_world \<Rightarrow> bulk_world" where
  "take_extract t i w = w\<lparr>bw_extracts := remove1 (t, i) (bw_extracts w)\<rparr>"

definition take_file :: "string \<Rightarrow> nat \<Rightarrow> nat \<Rightarrow> bulk_world \<Rightarrow> bulk_world" where
  "take_file t f n w = w\<lparr>bw_queue := remove1 (t, f, n) (bw_queue w)\<rparr>"

definition bulk_begun :: bulk_world where
  "bulk_begun = begin_extract bulk_sample ''x'' 0 (take_extract ''x'' 0 bulk_uploaded)"

definition bulk_staged :: bulk_world where
  "bulk_staged = stage_files bulk_sample ''x'' 0 bulk_begun"

definition bulk_published :: bulk_world where
  "bulk_published = publish_files bulk_sample ''x'' 0 [1] (open_job ''x'' 0 [1] bulk_staged)"

definition bulk_saved :: bulk_world where
  "bulk_saved = read_file bulk_sample (RD_Read (Some ''Ann'') (Some ''ann'')) ''xxx'' 1 1
     (claim_file bulk_sample ''xxx'' 1 1 (take_file ''xxx'' 1 1 bulk_published))"

definition bulk_parsed :: bulk_world where
  "bulk_parsed = persist_file SV_Done ''xxx'' 1 1 10 bulk_saved"

definition bulk_closed :: bulk_world where
  "bulk_closed = close_file ''xxx'' 0 (FE_Success None) bulk_parsed"

lemma sample_reached:
  "rtranclp bulk_step bulk_empty bulk_begun" "(''x'', 0, XP_Begun) \<in> set (bw_extracting bulk_begun)"
  "rtranclp bulk_step bulk_empty bulk_staged" "(''x'', 0, XP_Staged [1]) \<in> set (bw_extracting bulk_staged)"
proof -
  have "(''x'', 0) \<in> set (bw_extracts bulk_uploaded)" by code_simp
  then have "bulk_step bulk_uploaded bulk_begun" unfolding bulk_begun_def take_extract_def by (rule begin_extraction)
  moreover have "bulk_step bulk_empty bulk_uploaded" unfolding bulk_uploaded_def by (rule upload)
  ultimately show begun: "rtranclp bulk_step bulk_empty bulk_begun" by (meson rtranclp.rtrancl_into_rtrancl rtranclp.rtrancl_refl)
  show ph: "(''x'', 0, XP_Begun) \<in> set (bw_extracting bulk_begun)" by code_simp
  show "rtranclp bulk_step bulk_empty bulk_staged" unfolding bulk_staged_def by (rule rtranclp.rtrancl_into_rtrancl[OF begun stage[OF ph]])
  show "(''x'', 0, XP_Staged [1]) \<in> set (bw_extracting bulk_staged)" by code_simp
qed

lemma sample_closed: "rtranclp bulk_step bulk_empty bulk_closed"
proof -
  have "(''x'', 0, XP_Opened [1]) \<in> set (bw_extracting (open_job ''x'' 0 [1] bulk_staged))" by code_simp
  then have "rtranclp bulk_step bulk_empty bulk_published" unfolding bulk_published_def
    using rtranclp.rtrancl_into_rtrancl[OF sample_reached(3) open_files[OF sample_reached(4)]] publish
    by (blast intro: rtranclp.rtrancl_into_rtrancl)
  moreover have "bulk_step bulk_published (claim_file bulk_sample ''xxx'' 1 1 (take_file ''xxx'' 1 1 bulk_published))"
    unfolding take_file_def by (rule claim) code_simp
  ultimately have claimed: "rtranclp bulk_step bulk_empty (claim_file bulk_sample ''xxx'' 1 1 (take_file ''xxx'' 1 1 bulk_published))"
    by (rule rtranclp.rtrancl_into_rtrancl)
  have "(''xxx'', 1, 1, RP_Claimed) \<in> set (bw_runs (claim_file bulk_sample ''xxx'' 1 1 (take_file ''xxx'' 1 1 bulk_published)))" by code_simp
  then have "rtranclp bulk_step bulk_empty bulk_saved" unfolding bulk_saved_def by (rule rtranclp.rtrancl_into_rtrancl[OF claimed read])
  moreover have "bulk_step bulk_saved bulk_parsed" unfolding bulk_parsed_def by (rule persist) code_simp
  ultimately have "rtranclp bulk_step bulk_empty bulk_parsed" by (rule rtranclp.rtrancl_into_rtrancl)
  moreover have "bulk_step bulk_parsed bulk_closed" unfolding bulk_closed_def by (rule close) code_simp
  ultimately show ?thesis by (rule rtranclp.rtrancl_into_rtrancl)
qed


lemma cancel_during_staging_strands_witness:
  "map_option bj_status (find_job 0 (open_job ''x'' 0 [1] (snd (cancel_job 0 ''hr'' None bulk_staged)))) = Some BU_PROCESSING
   \<and> map jf_status (files_of 0 (open_job ''x'' 0 [1] (snd (cancel_job 0 ''hr'' None bulk_staged)))) = [BF_CANCELLED]"
proof -
  let ?w1 = "snd (cancel_job 0 ''hr'' None bulk_staged)"
  have queued: "\<forall>f\<in>set (files_of 0 bulk_staged). jf_status f = BF_QUEUED" by code_simp
  have "fst (cancel_job 0 ''hr'' None bulk_staged) = Inr 1" by code_simp
  then have run: "cancel_job 0 ''hr'' None bulk_staged = (Inr 1, ?w1)" by (metis prod.collapse)
  have "map jf_id (files_of 0 (open_job ''x'' 0 [1] ?w1)) = [1]" by code_simp
  then obtain f where "files_of 0 (open_job ''x'' 0 [1] ?w1) = [f]" by auto
  then show ?thesis
    using cancel_during_staging_strands[OF sample_reached(3)[unfolded bulk_empty_def] sample_reached(4) _ queued run rtranclp.rtrancl_refl] by simp
qed

lemma lost_extraction_strands_witness:
  "begin_extract bulk_sample ''x'' 0 (take_extract ''x'' 0 ((end_extract ''x'' 0 bulk_begun)\<lparr>bw_extracts := bw_extracts bulk_begun @ [(''x'', 0)]\<rparr>))
     = end_extract ''x'' 0 bulk_begun \<and> files_of 0 (end_extract ''x'' 0 bulk_begun) = []"
proof -
  let ?w1 = "(end_extract ''x'' 0 bulk_begun)\<lparr>bw_extracts := bw_extracts bulk_begun @ [(''x'', 0)]\<rparr>"
  note lost = lost_extraction_strands[OF sample_reached(1)[unfolded bulk_empty_def] sample_reached(2) refl rtranclp.rtrancl_refl, of bulk_sample]
  have again: "begin_extract bulk_sample ''x'' 0 (take_extract ''x'' 0 ?w1) = end_extract ''x'' 0 bulk_begun"
    unfolding take_extract_def using lost by (rule conjunct1)
  moreover have "files_of 0 (begin_extract bulk_sample ''x'' 0 (take_extract ''x'' 0 ?w1)) = []"
    unfolding take_extract_def using lost by (elim conjE)
  ultimately show ?thesis by simp
qed

definition lost_skill_cache :: failure where
  "lost_skill_cache = \<lparr>fl_kind = FK_Timeout, fl_text = ''timed out'', fl_status = None, fl_retry_after = None\<rparr>"

lemma late_retry_skips_parse_witness:
  "let w1 = persist_file (SV_Stage (PS_SKILL_NORMALIZATION, lost_skill_cache)) ''xxx'' 1 1 10 bulk_saved;
       w2 = read_file bulk_sample (RD_Read (Some ''Ann'') (Some ''ann'')) ''xxx'' 1 2
              (claim_file bulk_sample ''xxx'' 1 2 (take_file ''xxx'' 1 2 w1))
   in map_option jf_status (find_file 1 w2) = Some BF_PROCESSED \<and> map_option uj_duplicate (find_job 0 w2) = Some 1
     \<and> list_ex (\<lambda>r. rf_id r = 10 \<and> rf_status r = PS_PENDING) (ik_resumes (it_saved (bw_in w2)))"
proof -
  have "map_option (\<lambda>x. (jf_status x, jf_job x, jf_path x)) (find_file 1 bulk_saved) = Some (BF_RUNNING, 0, ''bulk-zip/xx_cv.pdf'')" by code_simp
  then obtain x where x: "find_file 1 bulk_saved = Some x" "jf_status x = BF_RUNNING" "jf_job x = 0" "jf_path x = ''bulk-zip/xx_cv.pdf''" by auto
  have "map_option jf_name (find_file 1 bulk_saved) = Some ''cv.pdf''" by code_simp
  then have name: "jf_name x = ''cv.pdf''" using x(1) by simp
  have "map_option (\<lambda>j. (bj_campaign j, uj_duplicate j)) (find_job 0 bulk_saved) = Some (bulk_camp, 0)" by code_simp
  then obtain j where j: "find_job 0 bulk_saved = Some j" "bj_campaign j = bulk_camp" "uj_duplicate j = 0" by auto
  have "map_option (\<lambda>m. (rf_id m, rf_status m, rf_candidate m)) (get_by_file_hash_global (ie_md5 bulk_sample ''cv'') (it_saved (bw_in bulk_saved)))
      = Some (10, PS_PENDING, 9)" by code_simp
  then obtain m where m: "get_by_file_hash_global (ie_md5 bulk_sample ''cv'') (it_saved (bw_in bulk_saved)) = Some m" "rf_id m = 10"
    "rf_status m = PS_PENDING" "rf_candidate m = 9" by auto
  have "map_option ca_status (campaign_of bulk_camp (it_saved (bw_in bulk_saved))) = Some CS_ACTIVE" by code_simp
  then obtain ca where ca: "campaign_of (bj_campaign j) (it_saved (bw_in bulk_saved)) = Some ca" "ca_status ca = CS_ACTIVE" using j(2) by auto
  have new: "member_of (bj_campaign j) (rf_candidate m) (it_saved (bw_in bulk_saved)) = None" unfolding j(2) m(4) by code_simp
  have pass: "classify lost_skill_cache \<noteq> FC_PERMANENT" "1 < rp_max (stage_policy PS_SKILL_NORMALIZATION)" by code_simp+
  have get: "download bulk_sample (jf_path x) bulk_saved = Some ''cv''"
    "validate_file (intake_env.truncate bulk_sample) ''cv'' (jf_name x) = Inr FF_PDF" "FF_PDF = FF_PDF \<or> FF_PDF = FF_DOCX" unfolding x(4) name by (code_simp, code_simp, simp)
  have job: "find_job (jf_job x) bulk_saved = Some j" using j(1) x(3) by simp
  show ?thesis
    using late_retry_skips_parse[OF x(1,2) job pass get m(1,3) ca new refl refl, of "''xxx''" "RD_Read (Some ''Ann'') (Some ''ann'')"]
    unfolding Let_def take_file_def m(2) x(3) j(3) by (auto simp: list_ex_iff numeral_2_eq_2)
qed

end
