(* ===== verification/Dead_Letters.thy ===== *)
theory Dead_Letters
  imports Screening_Frames
begin

text \<open>
  The dead letters of a campaign: the listing by chains
  (\<open>repositories/CampaignRepository.py\<close>), the failures shown per scoring layer
  (\<open>services/campaign/layer_failure.py\<close>) and the replay engine
  (\<open>CampaignService.replay_dead_letter_tasks\<close>).  \<open>dead_letter_queue\<close> is a list in the order
  of \<open>moved_to_dlq_at\<close>; replaying commits the marks first and sends the messages
  afterwards, so a failure to send leaves marks without messages.
\<close>

section \<open>The rows of a campaign and their chains\<close>

definition in_campaign_queue :: "nat \<Rightarrow> screening_world \<Rightarrow> dead_letter \<Rightarrow> bool" where
  "in_campaign_queue camp w d =
     list_ex (\<lambda>c. cc_campaign c = camp \<and> (dq_candidate d = Some (cc_id c) \<or> dq_resume d = Some (cc_resume c))) (hd_candidates (sw_db w))"

definition get_dead_letter_queue_entries :: "nat \<Rightarrow> screening_world \<Rightarrow> dead_letter list" where
  "get_dead_letter_queue_entries camp w = rev (filter (in_campaign_queue camp w) (sw_dlq w))"

definition get_dlq_entries_by_ids :: "nat \<Rightarrow> nat list \<Rightarrow> screening_world \<Rightarrow> dead_letter list" where
  "get_dlq_entries_by_ids camp ids w = filter (\<lambda>d. dq_id d \<in> set ids) (get_dead_letter_queue_entries camp w)"

definition chain_key :: "dead_letter \<Rightarrow> string \<times> nat option \<times> nat option" where
  "chain_key d = (dq_type d, dq_candidate d, if dq_candidate d = None then dq_resume d else None)"

text \<open>\<open>row_number() = 1\<close> of every partition: the first row of each key.\<close>

function first_of_each :: "('a \<Rightarrow> 'b) \<Rightarrow> 'a list \<Rightarrow> 'a list" where
  "first_of_each f [] = []"
| "first_of_each f (x # xs) = x # first_of_each f (filter (\<lambda>y. f y \<noteq> f x) xs)"
  by pat_completeness auto
termination by (relation "measure (\<lambda>(f, xs). length xs)") (auto simp: le_imp_less_Suc)

definition dlq_chain_heads :: "nat \<Rightarrow> string list option \<Rightarrow> bool \<Rightarrow> screening_world \<Rightarrow> dead_letter list" where
  "dlq_chain_heads camp types include_resolved w =
     filter (\<lambda>d. include_resolved \<or> \<not> dq_resolved d)
       (first_of_each chain_key
         (filter (\<lambda>d. case types of None \<Rightarrow> True | Some ts \<Rightarrow> dq_type d \<in> set ts) (get_dead_letter_queue_entries camp w)))"

definition get_dlq_chain_heads_page ::
    "nat \<Rightarrow> string list \<Rightarrow> nat \<Rightarrow> nat \<Rightarrow> bool \<Rightarrow> screening_world \<Rightarrow> dead_letter list \<times> nat" where
  "get_dlq_chain_heads_page camp types limit offset include_resolved w =
     (let hs = dlq_chain_heads camp (Some types) include_resolved w in (take limit (drop offset hs), length hs))"

definition count_open_dlq_chains :: "nat \<Rightarrow> screening_world \<Rightarrow> nat" where
  "count_open_dlq_chains camp w = length (dlq_chain_heads camp None False w)"

definition get_dlq_chain_rows :: "dead_letter \<Rightarrow> screening_world \<Rightarrow> dead_letter list" where
  "get_dlq_chain_rows d w =
     (if dq_candidate d = None \<and> dq_resume d = None then [d] else filter (\<lambda>x. chain_key x = chain_key d) (rev (sw_dlq w)))"

definition count_dlq_chain_replays :: "dead_letter \<Rightarrow> dead_letter list \<Rightarrow> nat" where
  "count_dlq_chain_replays d q =
     (if dq_candidate d = None \<and> dq_resume d = None then 0
      else length (filter (\<lambda>x. dq_type x = dq_type d \<and> dq_replayed_by x \<noteq> None \<and>
             (if dq_candidate d \<noteq> None then dq_candidate x = dq_candidate d else dq_resume x = dq_resume d)) q))"

datatype chain_status = CH_RESOLVED | CH_REPLAYING | CH_LIMIT_REACHED | CH_OPEN

definition chain_status_of :: "int \<Rightarrow> dead_letter \<Rightarrow> screening_world \<Rightarrow> chain_status" where
  "chain_status_of limit d w =
     (let used = length (filter (\<lambda>x. dq_replayed_by x \<noteq> None) (get_dlq_chain_rows d w))
      in if dq_resolved d then CH_RESOLVED else if dq_replayed_by d \<noteq> None then CH_REPLAYING
         else if int used \<ge> limit then CH_LIMIT_REACHED else CH_OPEN)"

section \<open>The replay engine\<close>

definition replayable_task_types :: "string list" where
  "replayable_task_types = [''DETERMINISTIC_SCORE'', ''RESUME_DOCUMENT_PROCESSING'', ''EMBED_RESUME'', ''AI_EVALUATE'']"

text \<open>Task, arguments, and whether the row names what the task works on.\<close>

definition replay_builder :: "dead_letter \<Rightarrow> (string \<times> json_dict \<times> bool) option" where
  "replay_builder d =
     (let cand = [(''campaign_candidate_id'', json_opt (\<lambda>i. JNum (of_nat i)) (dq_candidate d))];
          resume = [(''resume_id'', json_opt (\<lambda>i. JNum (of_nat i)) (dq_resume d))]
      in if dq_type d = ''DETERMINISTIC_SCORE'' then Some (''scoring.calculate_deterministic_score'', cand, dq_candidate d \<noteq> None)
         else if dq_type d = ''RESUME_DOCUMENT_PROCESSING'' then Some (''resume.process_document'', resume, dq_resume d \<noteq> None)
         else if dq_type d = ''EMBED_RESUME'' then Some (''embedding.generate_resume_embedding'', resume, dq_resume d \<noteq> None)
         else if dq_type d = ''AI_EVALUATE'' then Some (''scoring.calculate_ai_evaluation'', cand, dq_candidate d \<noteq> None)
         else None)"

datatype skip_reason =
    SK_Not_Found | SK_Resolved | SK_Replayed | SK_Unsupported string | SK_No_Entity
  | SK_No_Resume | SK_No_Content | SK_Embedded | SK_Limit int

datatype replay_outcome = Replayed string | Skipped skip_reason

datatype replay_error = RP_No_Campaign | RP_No_Candidate | RP_Nothing | RP_Config | RP_Send

definition embed_resume_replay_skip_reason :: "screening_env \<Rightarrow> nat \<Rightarrow> screening_world \<Rightarrow> skip_reason option" where
  "embed_resume_replay_skip_reason sv r w =
     (if \<not> list_ex (\<lambda>x. re_id x = r) (hd_resumes (sw_db w)) then Some SK_No_Resume
      else if sv_resume sv r = None then Some SK_No_Content
      else if embedding_of r (sw_embeddings w) \<noteq> None then Some SK_Embedded else None)"

definition replay_check :: "screening_env \<Rightarrow> int \<Rightarrow> screening_world \<Rightarrow> dead_letter \<Rightarrow> (skip_reason, string \<times> json_dict) result" where
  "replay_check sv limit w d =
     (if dq_resolved d then Inl SK_Resolved
      else if dq_replayed_by d \<noteq> None then Inl SK_Replayed
      else (case replay_builder d of
              None \<Rightarrow> Inl (SK_Unsupported (dq_type d))
            | Some (task, args, linkable) \<Rightarrow>
                if \<not> linkable then Inl SK_No_Entity
                else (case (case dq_resume d of None \<Rightarrow> None
                              | Some r \<Rightarrow> if dq_type d = ''EMBED_RESUME'' then embed_resume_replay_skip_reason sv r w else None) of
                        Some reason \<Rightarrow> Inl reason
                      | None \<Rightarrow> if int (count_dlq_chain_replays d (sw_dlq w)) \<ge> limit then Inl (SK_Limit limit)
                                else Inr (task, args))))"

definition mark_replayed :: "nat \<Rightarrow> string \<Rightarrow> dead_letter list \<Rightarrow> dead_letter list" where
  "mark_replayed i by_user q = map (\<lambda>d. if dq_id d = i then d\<lparr>dq_replayed_by := Some by_user\<rparr> else d) q"

definition replay_one :: "screening_env \<Rightarrow> string \<Rightarrow> role_name option \<Rightarrow> dead_letter \<Rightarrow> screening_world \<Rightarrow> string \<times> screening_world" where
  "replay_one sv actor role d w =
     (let h = sw_db w; n = hd_next_id h; tid = ev_fresh (sv_broker sv) n
      in (tid, with_db (audit (Some actor) role ''DLQ_TASK_REPLAYED'' (dq_id d)
                 [(''task_type'', JStr (dq_type d)), (''original_task_id'', JStr (dq_task d)), (''new_task_id'', JStr tid),
                  (''final_error_message'', JStr (take 500 (dq_error d)))] (h\<lparr>hd_next_id := Suc n\<rparr>))
               (w\<lparr>sw_dlq := mark_replayed (dq_id d) actor (sw_dlq w)\<rparr>)))"

text \<open>What is reported, what is to be sent, and the tables at the commit.\<close>

fun replay_each ::
    "screening_env \<Rightarrow> int \<Rightarrow> string \<Rightarrow> role_name option \<Rightarrow> dead_letter list \<Rightarrow> screening_world
     \<Rightarrow> (nat \<times> replay_outcome) list \<times> (string \<times> json_dict \<times> string) list \<times> screening_world" where
  "replay_each sv limit actor role [] w = ([], [], w)"
| "replay_each sv limit actor role (d # ds) w =
     (case replay_check sv limit w d of
        Inl reason \<Rightarrow>
          (let (rs, qs, w1) = replay_each sv limit actor role ds w in ((dq_id d, Skipped reason) # rs, qs, w1))
      | Inr (task, args) \<Rightarrow>
          (let (tid, w1) = replay_one sv actor role d w; (rs, qs, w2) = replay_each sv limit actor role ds w1
           in ((dq_id d, Replayed tid) # rs, (task, args, tid) # qs, w2)))"

text \<open>After the commit; the first message that cannot be sent ends the request.\<close>

fun send_each :: "screening_env \<Rightarrow> (string \<times> json_dict \<times> string) list \<Rightarrow> screening_world \<Rightarrow> bool \<times> screening_world" where
  "send_each sv [] w = (True, w)"
| "send_each sv ((task, args, tid) # qs) w =
     (case apply_async (sv_broker sv) task args tid (sw_main w) of
        (Inl _, _) \<Rightarrow> (False, w)
      | (Inr _, m) \<Rightarrow> send_each sv qs (w\<lparr>sw_main := m\<rparr>))"

text \<open>\<open>int(value or 3)\<close>; \<open>None\<close> if the text is not an integer.\<close>

definition max_dlq_replays :: "campaign_world \<Rightarrow> int option" where
  "max_dlq_replays m =
     (case map_of (cw_config m) ''MAX_DLQ_REPLAYS_PER_TASK'' of
        None \<Rightarrow> Some 3
      | Some v \<Rightarrow> if v = of_int \<lfloor>v\<rfloor> then Some \<lfloor>v\<rfloor> else None)"

definition replay_dead_letter_tasks ::
    "screening_env \<Rightarrow> nat \<Rightarrow> nat list \<Rightarrow> string \<Rightarrow> role_name option \<Rightarrow> screening_world
     \<Rightarrow> (replay_error, (nat \<times> replay_outcome) list) result \<times> screening_world" where
  "replay_dead_letter_tasks sv camp ids actor role w =
     (if find_campaign camp (sw_db w) = None then (Inl RP_No_Campaign, w)
      else (case max_dlq_replays (sw_main w) of
              None \<Rightarrow> (Inl RP_Config, w)
            | Some limit \<Rightarrow>
                let es = get_dlq_entries_by_ids camp ids w;
                    missing = filter (\<lambda>i. i \<notin> dq_id ` set es) (remdups ids);
                    (rs, qs, w1) = replay_each sv limit actor role es w;
                    (ok, w2) = send_each sv qs w1
                in if ok then (Inr (map (\<lambda>i. (i, Skipped SK_Not_Found)) missing @ rs), w2) else (Inl RP_Send, w2)))"

section \<open>Failures shown per layer\<close>

datatype layer = L_Deterministic | L_Semantic | L_AI

definition candidate_task_layer :: "(string \<times> layer) list" where
  "candidate_task_layer = [(''DETERMINISTIC_SCORE'', L_Deterministic), (''SEMANTIC_SCORE'', L_Semantic), (''AI_EVALUATE'', L_AI)]"

definition resume_task_layer :: "(string \<times> layer) list" where
  "resume_task_layer = [(''EMBED_RESUME'', L_Semantic)]"

definition get_open_for_campaign_candidate :: "nat \<Rightarrow> string list \<Rightarrow> nat option \<Rightarrow> string list \<Rightarrow> screening_world \<Rightarrow> dead_letter list" where
  "get_open_for_campaign_candidate i types resume resume_types w =
     rev (filter (\<lambda>d.
       (dq_candidate d = Some i \<and> dq_type d \<in> set types
        \<or> resume \<noteq> None \<and> dq_resume d = resume \<and> dq_candidate d = None \<and> dq_type d \<in> set resume_types)
       \<and> dq_replayed_by d = None \<and> \<not> dq_resolved d) (sw_dlq w))"

definition layer_has_result :: "campaign_candidate \<Rightarrow> layer \<Rightarrow> hiring_db \<Rightarrow> bool" where
  "layer_has_result cc l h =
     (case l of
        L_Deterministic \<Rightarrow> cc_det_score cc \<noteq> None
      | L_Semantic \<Rightarrow> (case cc_sem_breakdown cc of None \<Rightarrow> False | Some b \<Rightarrow> json_truthy b)
      | L_AI \<Rightarrow> (case find (\<lambda>a. ae_candidate a = cc_id cc) (hd_ai h) of
                   None \<Rightarrow> False | Some a \<Rightarrow> ae_status a \<in> set [AI_COMPLETED, AI_MANUAL_REVIEW]))"

record layer_failure =
  lf_layer :: layer
  lf_entry :: nat
  lf_type :: string
  lf_retries :: nat
  lf_can_retry :: bool

definition task_layer :: "string \<Rightarrow> layer option" where
  "task_layer t = (case map_of candidate_task_layer t of Some l \<Rightarrow> Some l | None \<Rightarrow> map_of resume_task_layer t)"

fun collect_failures :: "campaign_candidate \<Rightarrow> hiring_db \<Rightarrow> dead_letter list \<Rightarrow> layer_failure list \<Rightarrow> layer_failure list" where
  "collect_failures cc h [] fs = fs"
| "collect_failures cc h (d # ds) fs =
     collect_failures cc h ds
       (case task_layer (dq_type d) of
          None \<Rightarrow> fs
        | Some l \<Rightarrow> if l \<in> set (map lf_layer fs) \<or> layer_has_result cc l h then fs
                    else fs @ [\<lparr>lf_layer = l, lf_entry = dq_id d, lf_type = dq_type d, lf_retries = dq_retries d,
                               lf_can_retry = (dq_type d \<in> set replayable_task_types)\<rparr>])"

definition get_layer_failures :: "campaign_candidate \<Rightarrow> screening_world \<Rightarrow> layer_failure list" where
  "get_layer_failures cc w =
     collect_failures cc (sw_db w)
       (get_open_for_campaign_candidate (cc_id cc) (map fst candidate_task_layer) (Some (cc_resume cc)) (map fst resume_task_layer) w) []"

end
