(* ===== verification/Dead_Letters_Props.thy ===== *)
theory Dead_Letters_Props
  imports Dead_Letters
begin

text \<open>
  What a replay of dead letters does: which rows it marks, which messages it sends, how often
  a chain can be replayed, and what is lost when a message cannot be sent.
\<close>

section \<open>Marks\<close>

definition row_key :: "dead_letter \<Rightarrow> nat \<times> string \<times> nat option \<times> nat option" where
  "row_key d = (dq_id d, dq_type d, dq_candidate d, dq_resume d)"

definition was_replayed :: "(nat \<times> replay_outcome) list \<Rightarrow> nat \<Rightarrow> bool" where
  "was_replayed rs i \<longleftrightarrow> (\<exists>t. (i, Replayed t) \<in> set rs)"

lemma was_replayed_simps [simp]:
  "\<not> was_replayed [] i" "was_replayed ((j, Skipped r) # rs) i \<longleftrightarrow> was_replayed rs i"
  "was_replayed ((j, Replayed t) # rs) i \<longleftrightarrow> i = j \<or> was_replayed rs i"
  "was_replayed (map (\<lambda>i. (i, Skipped r)) is @ rs) i \<longleftrightarrow> was_replayed rs i"
  by (auto simp: was_replayed_def)

definition mark_all :: "(nat \<times> replay_outcome) list \<Rightarrow> string \<Rightarrow> dead_letter list \<Rightarrow> dead_letter list" where
  "mark_all rs actor q = map (\<lambda>d. if was_replayed rs (dq_id d) then d\<lparr>dq_replayed_by := Some actor\<rparr> else d) q"

lemma mark_all_skip [simp]: "mark_all [] actor q = q" "mark_all ((j, Skipped r) # rs) actor q = mark_all rs actor q"
  "mark_all (map (\<lambda>i. (i, Skipped r)) is @ rs) actor q = mark_all rs actor q"
  by (simp_all add: mark_all_def)

lemma mark_all_mark: "mark_all rs actor (mark_replayed i actor q) = mark_all ((i, Replayed t) # rs) actor q"
  by (simp add: mark_all_def mark_replayed_def)

lemma marks_keep_keys [simp]: "map row_key (mark_replayed i actor q) = map row_key q" "map row_key (mark_all rs actor q) = map row_key q"
  "map dq_id (mark_replayed i actor q) = map dq_id q"
  by (simp_all add: mark_replayed_def mark_all_def row_key_def)

lemma replay_one_frame:
  assumes "replay_one sv actor role d w = (tid, w')"
  shows "sw_dlq w' = mark_replayed (dq_id d) actor (sw_dlq w)" "broker w' = broker w" "sw_embeddings w' = sw_embeddings w"
    "hd_candidates (sw_db w') = hd_candidates (sw_db w)" "hd_tasks (sw_db w') = hd_tasks (sw_db w)"
    "hd_campaigns (sw_db w') = hd_campaigns (sw_db w)" "cw_config (sw_main w') = cw_config (sw_main w)"
  using assms by (auto simp: replay_one_def Let_def audit_def broker_def sw_db_def with_db_def)

lemma replay_check_ok:
  assumes "replay_check sv limit w d = Inr (task, args)"
  shows "\<not> dq_resolved d" "dq_replayed_by d = None" "replay_builder d = Some (task, args, True)"
    "int (count_dlq_chain_replays d (sw_dlq w)) < limit"
  using assms by (auto simp: replay_check_def split: if_splits option.splits prod.splits)

lemma builder_type: "replay_builder d = Some x \<Longrightarrow> dq_type d \<in> set replayable_task_types"
  by (auto simp: replay_builder_def replayable_task_types_def Let_def split: if_splits)

section \<open>The loop over the selected rows\<close>

lemma replay_each_effect:
  "replay_each sv limit actor role ds w = (rs, qs, w') \<Longrightarrow>
     map fst rs = map dq_id ds \<and> sw_dlq w' = mark_all rs actor (sw_dlq w) \<and> broker w' = broker w
     \<and> hd_candidates (sw_db w') = hd_candidates (sw_db w) \<and> hd_tasks (sw_db w') = hd_tasks (sw_db w)
     \<and> hd_campaigns (sw_db w') = hd_campaigns (sw_db w) \<and> cw_config (sw_main w') = cw_config (sw_main w)
     \<and> (\<forall>i t. (i, Replayed t) \<in> set rs \<longrightarrow> (\<exists>d\<in>set ds. dq_id d = i \<and> \<not> dq_resolved d \<and> dq_replayed_by d = None \<and> replay_builder d \<noteq> None))
     \<and> (\<forall>task args t. (task, args, t) \<in> set qs \<longrightarrow>
          (\<exists>d\<in>set ds. dq_replayed_by d = None \<and> replay_builder d = Some (task, args, True) \<and> (dq_id d, Replayed t) \<in> set rs))
     \<and> map (snd \<circ> snd) qs = concat (map (\<lambda>r. case snd r of Replayed t \<Rightarrow> [t] | Skipped _ \<Rightarrow> []) rs)"
proof (induction ds arbitrary: w rs qs w')
  case (Cons d ds)
  show ?case
  proof (cases "replay_check sv limit w d")
    case (Inl reason)
    obtain rs1 qs1 w1 where r: "replay_each sv limit actor role ds w = (rs1, qs1, w1)" by (metis prod_cases3)
    have eq: "rs = (dq_id d, Skipped reason) # rs1" "qs = qs1" "w' = w1" using Cons.prems Inl r by auto
    show ?thesis using Cons.IH[OF r] unfolding eq by (auto 4 3)
  next
    case (Inr x)
    obtain task args where x: "x = (task, args)" by (cases x)
    obtain tid w1 where one: "replay_one sv actor role d w = (tid, w1)" by (metis surj_pair)
    obtain rs1 qs1 w2 where r: "replay_each sv limit actor role ds w1 = (rs1, qs1, w2)" by (metis prod_cases3)
    have eq: "rs = (dq_id d, Replayed tid) # rs1" "qs = (task, args, tid) # qs1" "w' = w2"
      using Cons.prems Inr x one r by auto
    note ok = replay_check_ok[OF Inr[unfolded x]]
    note fr = replay_one_frame[OF one]
    have ih: "\<And>t a n. (t, a, n) \<in> set qs1 \<Longrightarrow>
        \<exists>e\<in>set ds. dq_replayed_by e = None \<and> replay_builder e = Some (t, a, True) \<and> (dq_id e, Replayed n) \<in> set rs1"
      using Cons.IH[OF r] by blast
    have sent: "\<exists>e\<in>set (d # ds). dq_replayed_by e = None \<and> replay_builder e = Some (t, a, True) \<and> (dq_id e, Replayed n) \<in> set rs"
      if "(t, a, n) \<in> set qs" for t a n
      using that ih[of t a n] ok(2,3) unfolding eq by auto
    have marked: "\<exists>e\<in>set (d # ds). dq_id e = i \<and> \<not> dq_resolved e \<and> dq_replayed_by e = None \<and> replay_builder e \<noteq> None"
      if "(i, Replayed t) \<in> set rs" for i t
      using that Cons.IH[OF r] ok unfolding eq by (cases "(i, Replayed t) = (dq_id d, Replayed tid)") auto
    show ?thesis using Cons.IH[OF r] fr mark_all_mark[of rs1 actor "dq_id d" "sw_dlq w" tid] sent marked unfolding eq
      by (intro conjI allI impI; simp)
  qed
qed simp

lemma send_each_effect:
  "send_each sv qs w = (ok, w') \<Longrightarrow> sw_dlq w' = sw_dlq w \<and> sw_db w' = sw_db w \<and> sw_embeddings w' = sw_embeddings w
     \<and> cw_config (sw_main w') = cw_config (sw_main w)
     \<and> (\<exists>xs ys. qs = xs @ ys \<and> broker w' = broker w @ map (\<lambda>(task, args, tid). \<lparr>ms_task = task, ms_args = args, ms_id = tid\<rparr>) xs
          \<and> (if ok then ys = [] else \<exists>task args t zs. ys = (task, args, t) # zs \<and> \<not> ev_send (sv_broker sv) task args))"
proof (induction sv qs w arbitrary: ok w' rule: send_each.induct)
  case (2 sv task args tid qs w)
  show ?case
  proof (cases "ev_send (sv_broker sv) task args")
    case False
    then have "\<not> ok" "w' = w" using "2.prems" by (auto simp: apply_async_def)
    then show ?thesis using False by (auto intro!: exI[of _ "[]"])
  next
    case True
    let ?m = "\<lparr>ms_task = task, ms_args = args, ms_id = tid\<rparr>"
    obtain m where m: "apply_async (sv_broker sv) task args tid (sw_main w) = (Inr (), m)" "cw_db m = cw_db (sw_main w)"
      "cw_broker m = cw_broker (sw_main w) @ [?m]" "cw_config m = cw_config (sw_main w)"
      using True by (auto simp: apply_async_def)
    let ?w = "w\<lparr>sw_main := m\<rparr>"
    have "send_each sv qs ?w = (ok, w')" using "2.prems" m(1) by simp
    note ih = "2.IH"[OF m(1)[symmetric] refl this]
    have fr: "sw_dlq ?w = sw_dlq w" "sw_db ?w = sw_db w" "sw_embeddings ?w = sw_embeddings w" "broker ?w = broker w @ [?m]"
      "cw_config (sw_main ?w) = cw_config (sw_main w)"
      using m by (simp_all add: sw_db_def broker_def)
    from ih obtain xs ys where xy: "qs = xs @ ys"
      "broker w' = broker ?w @ map (\<lambda>(task, args, tid). \<lparr>ms_task = task, ms_args = args, ms_id = tid\<rparr>) xs"
      "if ok then ys = [] else \<exists>task args t zs. ys = (task, args, t) # zs \<and> \<not> ev_send (sv_broker sv) task args" by blast
    show ?thesis using ih fr xy by (intro conjI exI[of _ "(task, args, tid) # xs"] exI[of _ ys]) auto
  qed
qed simp

section \<open>The replay limit\<close>

definition in_chain :: "dead_letter \<Rightarrow> dead_letter \<Rightarrow> bool" where
  "in_chain d x \<longleftrightarrow> (dq_candidate d \<noteq> None \<or> dq_resume d \<noteq> None) \<and> dq_type x = dq_type d \<and>
     (if dq_candidate d \<noteq> None then dq_candidate x = dq_candidate d else dq_resume x = dq_resume d)"

lemma count_replays_eq: "count_dlq_chain_replays d q = length (filter (\<lambda>x. in_chain d x \<and> dq_replayed_by x \<noteq> None) q)"
  by (simp add: count_dlq_chain_replays_def in_chain_def conj_ac)

lemma in_chain_key: "row_key x = row_key y \<Longrightarrow> in_chain d x = in_chain d y"
  by (simp add: in_chain_def row_key_def)

lemma in_chain_mark [simp]: "in_chain d (x\<lparr>dq_replayed_by := y\<rparr>) = in_chain d x"
  by (simp add: in_chain_def)

lemma count_mark_other:
  assumes "\<And>x. x \<in> set q \<Longrightarrow> dq_id x = i \<Longrightarrow> \<not> in_chain e x"
  shows "count_dlq_chain_replays e (mark_replayed i actor q) = count_dlq_chain_replays e q"
  using assms unfolding count_replays_eq mark_replayed_def by (induction q) auto

lemma count_mark_le:
  assumes "distinct (map dq_id q)"
  shows "count_dlq_chain_replays e (mark_replayed i actor q) \<le> Suc (count_dlq_chain_replays e q)"
  using assms
proof (induction q)
  case (Cons x q)
  show ?case
  proof (cases "dq_id x = i")
    case True
    then have "mark_replayed i actor q = q"
      using Cons.prems unfolding mark_replayed_def by (intro map_idI) (metis distinct.simps(2) image_eqI list.simps(9) set_map)
    then show ?thesis using True by (auto simp: count_replays_eq mark_replayed_def)
  next
    case False
    then show ?thesis using Cons by (auto simp: count_replays_eq mark_replayed_def)
  qed
qed (simp add: count_replays_eq mark_replayed_def)

definition one_link :: "dead_letter \<Rightarrow> bool" where
  "one_link d \<longleftrightarrow> dq_candidate d = None \<or> dq_resume d = None"

lemma in_chain_same:
  assumes "in_chain e d" "one_link d" "one_link x"
  shows "in_chain d x = in_chain e x"
  using assms by (auto simp: in_chain_def one_link_def split: if_splits)

lemma one_link_key: "row_key x = row_key y \<Longrightarrow> one_link x = one_link y"
  by (simp add: one_link_def row_key_def)

lemma keys_unique:
  assumes "distinct (map dq_id q)" "row_key d \<in> set (map row_key q)" "x \<in> set q" "dq_id x = dq_id d"
  shows "row_key x = row_key d"
proof -
  obtain y where y: "y \<in> set q" "row_key y = row_key d" using assms(2) by auto
  then have "dq_id y = dq_id x" using assms(4) by (simp add: row_key_def)
  then have "x = y" using assms(1,3) y(1) by (simp add: distinct_map inj_on_def)
  then show ?thesis using y by simp
qed

lemma replay_each_limit:
  assumes "replay_each sv limit actor role ds w = (rs, qs, w')" "distinct (map dq_id (sw_dlq w))"
    and "\<forall>x\<in>set (sw_dlq w). one_link x" "row_key ` set ds \<subseteq> row_key ` set (sw_dlq w)"
  shows "int (count_dlq_chain_replays e (sw_dlq w')) \<le> max limit (int (count_dlq_chain_replays e (sw_dlq w)))"
  using assms
proof (induction ds arbitrary: w rs qs w')
  case (Cons d ds)
  show ?case
  proof (cases "replay_check sv limit w d")
    case (Inl reason)
    obtain rs1 qs1 w1 where r: "replay_each sv limit actor role ds w = (rs1, qs1, w1)" by (metis prod_cases3)
    then have "w' = w1" using Cons.prems(1) Inl by auto
    then show ?thesis using Cons.IH[OF r Cons.prems(2,3)] Cons.prems(4) by auto
  next
    case (Inr x)
    obtain task args where x: "x = (task, args)" by (cases x)
    obtain tid w1 where one: "replay_one sv actor role d w = (tid, w1)" by (metis surj_pair)
    obtain rs1 qs1 w2 where r: "replay_each sv limit actor role ds w1 = (rs1, qs1, w2)" by (metis prod_cases3)
    have eq: "w' = w2" using Cons.prems(1) Inr x one r by auto
    have q1: "sw_dlq w1 = mark_replayed (dq_id d) actor (sw_dlq w)" by (rule replay_one_frame(1)[OF one])
    have keys: "map row_key (sw_dlq w1) = map row_key (sw_dlq w)" "map dq_id (sw_dlq w1) = map dq_id (sw_dlq w)"
      unfolding q1 by simp_all
    have links: "\<forall>x\<in>set (sw_dlq w1). one_link x"
      using Cons.prems(3) unfolding q1 by (auto simp: mark_replayed_def one_link_def)
    have keys': "row_key ` set (sw_dlq w1) = row_key ` set (sw_dlq w)" using keys(1) by (metis set_map)
    have rest: "int (count_dlq_chain_replays e (sw_dlq w')) \<le> max limit (int (count_dlq_chain_replays e (sw_dlq w1)))"
      unfolding eq using Cons.prems(4) by (intro Cons.IH[OF r _ links]) (auto simp: keys keys' Cons.prems(2))
    have d: "row_key d \<in> set (map row_key (sw_dlq w))" using Cons.prems(4) by auto
    have same: "row_key x = row_key d" if "x \<in> set (sw_dlq w)" "dq_id x = dq_id d" for x
      by (rule keys_unique[OF Cons.prems(2) d that])
    have "int (count_dlq_chain_replays e (sw_dlq w1)) \<le> max limit (int (count_dlq_chain_replays e (sw_dlq w)))"
    proof (cases "in_chain e d")
      case False
      then have "count_dlq_chain_replays e (sw_dlq w1) = count_dlq_chain_replays e (sw_dlq w)"
        unfolding q1 using same in_chain_key by (intro count_mark_other) blast
      then show ?thesis by simp
    next
      case True
      have "one_link d" using d Cons.prems(3) by (metis (no_types, lifting) image_iff one_link_key set_map)
      then have "count_dlq_chain_replays d (sw_dlq w) = count_dlq_chain_replays e (sw_dlq w)"
        using in_chain_same[OF True] Cons.prems(3) unfolding count_replays_eq
        by (intro arg_cong[where f = length] filter_cong) auto
      then show ?thesis using replay_check_ok(4)[OF Inr[unfolded x]] count_mark_le[OF Cons.prems(2), of e "dq_id d" actor]
        unfolding q1 by simp
    qed
    then show ?thesis using rest by simp
  qed
qed simp

section \<open>A replay request\<close>

lemma selected_keys: "row_key ` set (get_dlq_entries_by_ids camp ids w) \<subseteq> row_key ` set (sw_dlq w)"
  by (auto simp: get_dlq_entries_by_ids_def get_dead_letter_queue_entries_def)

lemma replay_cases:
  assumes "replay_dead_letter_tasks sv camp ids actor role w = (res, w')"
  obtains (refused) e where "res = Inl e" "e \<noteq> RP_Send" "w' = w"
  | (ran) limit rs qs w1 ok missing where "max_dlq_replays (sw_main w) = Some limit"
      "replay_each sv limit actor role (get_dlq_entries_by_ids camp ids w) w = (rs, qs, w1)" "send_each sv qs w1 = (ok, w')"
      "if ok then res = Inr (map (\<lambda>i. (i, Skipped SK_Not_Found)) missing @ rs) else res = Inl RP_Send"
proof (cases "find_campaign camp (sw_db w)")
  case None
  with assms refused show thesis by (auto simp: replay_dead_letter_tasks_def)
next
  case (Some ca)
  show thesis
  proof (cases "max_dlq_replays (sw_main w)")
    case None
    with assms Some refused show thesis by (auto simp: replay_dead_letter_tasks_def)
  next
    case limit: (Some limit)
    obtain rs qs w1 where r: "replay_each sv limit actor role (get_dlq_entries_by_ids camp ids w) w = (rs, qs, w1)" by (metis prod_cases3)
    obtain ok w2 where s: "send_each sv qs w1 = (ok, w2)" by (metis surj_pair)
    have "(if ok then (Inr (map (\<lambda>i. (i, Skipped SK_Not_Found))
              (filter (\<lambda>i. i \<notin> dq_id ` set (get_dlq_entries_by_ids camp ids w)) (remdups ids)) @ rs), w2) else (Inl RP_Send, w2)) = (res, w')"
      using assms Some limit r s by (simp add: replay_dead_letter_tasks_def Let_def)
    then have "w' = w2" "if ok then res = Inr (map (\<lambda>i. (i, Skipped SK_Not_Found))
              (filter (\<lambda>i. i \<notin> dq_id ` set (get_dlq_entries_by_ids camp ids w)) (remdups ids)) @ rs) else res = Inl RP_Send"
      by (auto split: if_splits)
    then show thesis using ran limit r s by blast
  qed
qed

lemma selected_entry:
  assumes "d \<in> set (get_dlq_entries_by_ids camp ids w)"
  shows "d \<in> set (sw_dlq w)" "dq_id d \<in> set ids" "in_campaign_queue camp w d"
  using assms by (simp_all add: get_dlq_entries_by_ids_def get_dead_letter_queue_entries_def)

lemma replayed_eligible:
  assumes "replay_dead_letter_tasks sv camp ids actor role w = (Inr rs, w')" "(i, Replayed t) \<in> set rs"
  shows "i \<in> set ids \<and> (\<exists>d\<in>set (sw_dlq w). dq_id d = i \<and> in_campaign_queue camp w d
    \<and> \<not> dq_resolved d \<and> dq_replayed_by d = None \<and> dq_type d \<in> set replayable_task_types)"
  using assms(1)
proof (cases rule: replay_cases)
  case (ran limit rs1 qs w1 ok missing)
  have "(i, Replayed t) \<in> set rs1" using assms(2) ran(4) by (auto split: if_splits)
  then obtain d where d: "d \<in> set (get_dlq_entries_by_ids camp ids w)" "dq_id d = i" "\<not> dq_resolved d" "dq_replayed_by d = None"
    "replay_builder d \<noteq> None" using replay_each_effect[OF ran(2)] by blast
  then show ?thesis using selected_entry[OF d(1)] builder_type by auto
qed auto

text \<open>
  Property C25.  A replay request that is answered marks exactly the rows it reports as
  replayed, each of them a row of the campaign that was asked for, open, not replayed before
  and of a task type that can be replayed, and sends one message for each, under the
  reported task id.  Candidates, task logs and the other rows stay as they were.
\<close>

theorem replay_exact:
  assumes "replay_dead_letter_tasks sv camp ids actor role w = (Inr rs, w')"
  shows "sw_dlq w' = mark_all rs actor (sw_dlq w)
     \<and> (\<forall>i t. (i, Replayed t) \<in> set rs \<longrightarrow> i \<in> set ids \<and> (\<exists>d\<in>set (sw_dlq w). dq_id d = i \<and> in_campaign_queue camp w d
            \<and> \<not> dq_resolved d \<and> dq_replayed_by d = None \<and> dq_type d \<in> set replayable_task_types))
     \<and> map ms_id (broker w') = map ms_id (broker w) @ concat (map (\<lambda>r. case snd r of Replayed t \<Rightarrow> [t] | Skipped _ \<Rightarrow> []) rs)
     \<and> hd_candidates (sw_db w') = hd_candidates (sw_db w) \<and> hd_tasks (sw_db w') = hd_tasks (sw_db w)"
  using assms
proof (cases rule: replay_cases)
  case (ran limit rs1 qs w1 ok missing)
  have ok: "ok" "rs = map (\<lambda>i. (i, Skipped SK_Not_Found)) missing @ rs1" using ran(4) by (auto split: if_splits)
  have "map ms_id (broker w') = map ms_id (broker w1) @ map (snd \<circ> snd) qs"
    using send_each_effect[OF ran(3)] ok(1) by (auto simp: case_prod_beta)
  moreover have "concat (map (\<lambda>r. case snd r of Replayed t \<Rightarrow> [t] | Skipped _ \<Rightarrow> []) (map (\<lambda>i. (i, Skipped SK_Not_Found)) is)) = []" for "is"
    by (induction "is") auto
  ultimately show ?thesis using replay_each_effect[OF ran(2)] send_each_effect[OF ran(3)] replayed_eligible[OF assms] unfolding ok(2) by simp
qed auto

text \<open>
  Property C26.  The replay limit: whatever is requested, no chain is replayed more often than
  \<open>MAX_DLQ_REPLAYS_PER_TASK\<close> allows, unless it already was.
\<close>

theorem replay_bounded:
  assumes "replay_dead_letter_tasks sv camp ids actor role w = (res, w')"
    and "distinct (map dq_id (sw_dlq w))" "\<forall>x\<in>set (sw_dlq w). one_link x" "max_dlq_replays (sw_main w) = Some limit"
  shows "int (count_dlq_chain_replays e (sw_dlq w')) \<le> max limit (int (count_dlq_chain_replays e (sw_dlq w)))"
  using assms(1)
proof (cases rule: replay_cases)
  case (ran limit' rs qs w1 ok missing)
  then show ?thesis
    using replay_each_limit[OF ran(2) assms(2,3) selected_keys] send_each_effect[OF ran(3)] assms(4) by simp
qed simp

text \<open>A sequence of replay requests.\<close>

fun replay_run :: "screening_env \<Rightarrow> (nat \<times> nat list \<times> string \<times> role_name option) list \<Rightarrow> screening_world \<Rightarrow> screening_world" where
  "replay_run sv [] w = w"
| "replay_run sv ((camp, ids, actor, role) # reqs) w = replay_run sv reqs (snd (replay_dead_letter_tasks sv camp ids actor role w))"

lemma replay_dlq:
  assumes "replay_dead_letter_tasks sv camp ids actor role w = (res, w')"
  shows "\<exists>rs. sw_dlq w' = mark_all rs actor (sw_dlq w)"
  using assms
proof (cases rule: replay_cases)
  case (ran limit rs qs w1 ok missing)
  then show ?thesis using replay_each_effect[OF ran(2)] send_each_effect[OF ran(3)] by auto
qed (auto intro: exI[of _ "[]"])

definition spent :: "nat \<Rightarrow> dead_letter list \<Rightarrow> bool" where
  "spent i q \<longleftrightarrow> (\<forall>d\<in>set q. dq_id d = i \<longrightarrow> dq_replayed_by d \<noteq> None)"

lemma spent_mark: "spent i q \<Longrightarrow> spent i (mark_all rs actor q)"
  by (auto simp: spent_def mark_all_def)

lemma spent_run: "spent i (sw_dlq w) \<Longrightarrow> spent i (sw_dlq (replay_run sv reqs w))"
proof (induction sv reqs w rule: replay_run.induct)
  case (2 sv camp ids actor role reqs w)
  obtain res w' where r: "replay_dead_letter_tasks sv camp ids actor role w = (res, w')" by (metis surj_pair)
  obtain rs where "sw_dlq w' = mark_all rs actor (sw_dlq w)" using replay_dlq[OF r] by blast
  then show ?case using 2 r spent_mark by simp
qed simp

lemma spent_skipped:
  assumes "spent i (sw_dlq w)" "replay_dead_letter_tasks sv camp ids actor role w = (Inr rs, w')"
  shows "(i, Replayed t) \<notin> set rs"
  using assms(2)
proof (cases rule: replay_cases)
  case (ran limit rs1 qs w1 ok missing)
  have "d \<in> set (sw_dlq w)" if "d \<in> set (get_dlq_entries_by_ids camp ids w)" for d by (rule selected_entry(1)[OF that])
  then show ?thesis using replay_each_effect[OF ran(2)] assms(1) ran(4) unfolding spent_def by (fastforce split: if_splits)
qed auto

text \<open>
  Property C27.  If a message cannot be sent, the request fails after its commit: some row of
  the request that was open is marked as replayed although the broker refused its message,
  there are more new marks than messages, and no later request replays that row.
\<close>

theorem failed_replay_is_lost:
  assumes "replay_dead_letter_tasks sv camp ids actor role w = (Inl RP_Send, w')" "distinct (map dq_id (sw_dlq w))"
  shows "\<exists>d\<in>set (sw_dlq w). dq_id d \<in> set ids \<and> dq_replayed_by d = None \<and> d\<lparr>dq_replayed_by := Some actor\<rparr> \<in> set (sw_dlq w')
     \<and> (\<exists>task args. replay_builder d = Some (task, args, True) \<and> \<not> ev_send (sv_broker sv) task args)
     \<and> (\<forall>reqs camp' ids' actor' role' rs. fst (replay_dead_letter_tasks sv camp' ids' actor' role' (replay_run sv reqs w')) = Inr rs
          \<longrightarrow> (\<forall>t. (dq_id d, Replayed t) \<notin> set rs))"
  using assms(1)
proof (cases rule: replay_cases)
  case (ran limit rs qs w1 ok missing)
  have "\<not> ok" using ran(4) by (auto split: if_splits)
  then obtain xs task args t zs where q: "qs = xs @ (task, args, t) # zs" "\<not> ev_send (sv_broker sv) task args"
    using send_each_effect[OF ran(3)] by auto
  then have "(task, args, t) \<in> set qs" by simp
  then obtain d where d: "d \<in> set (get_dlq_entries_by_ids camp ids w)" "dq_replayed_by d = None"
      "replay_builder d = Some (task, args, True)" "(dq_id d, Replayed t) \<in> set rs"
    using replay_each_effect[OF ran(2)] by blast
  note sel = selected_entry[OF d(1)]
  have q': "sw_dlq w' = mark_all rs actor (sw_dlq w)"
    using replay_each_effect[OF ran(2)] send_each_effect[OF ran(3)] by simp
  have hit: "was_replayed rs (dq_id d)" using d(4) by (auto simp: was_replayed_def)
  have marked: "d\<lparr>dq_replayed_by := Some actor\<rparr> \<in> set (sw_dlq w')"
    unfolding q' mark_all_def using sel(1) hit by (auto intro!: image_eqI[of _ _ d])
  have "spent (dq_id d) (sw_dlq w')" using hit by (auto simp: spent_def q' mark_all_def)
  then have "(dq_id d, Replayed t') \<notin> set rs'"
    if "fst (replay_dead_letter_tasks sv camp' ids' actor' role' (replay_run sv reqs w')) = Inr rs'" for reqs camp' ids' actor' role' rs' t'
    using that spent_skipped[OF spent_run, of _ w'] by (metis prod.collapse)
  then show ?thesis using sel d q(2) marked by blast
qed auto

end
