(* ===== verification/Stalled_Candidates.thy ===== *)
theory Stalled_Candidates
  imports Dead_Letters_Props Pipeline_Outcomes
begin

text \<open>
  Stalled candidates (\<open>CampaignService\<close>, \<open>CampaignRepository.get_stalled_candidates\<close>): who has
  been in a stage for longer than its SLA, re-processing his dead tasks, escalation.  Times
  are counted in seconds.  The name of the candidate and of the last actor are left out.
\<close>

section \<open>The list\<close>

record stall_slas =
  sl_screening_hours :: rat
  sl_hm_review_days :: rat
  sl_interview_days :: rat

definition get_stall_slas :: "campaign_world \<Rightarrow> stall_slas" where
  "get_stall_slas m =
     \<lparr>sl_screening_hours = setting ''SCREENING_SLA_HOURS'' 48 m, sl_hm_review_days = setting ''HM_REVIEW_SLA_DAYS'' 5 m,
      sl_interview_days = setting ''INTERVIEW_SLA_DAYS'' 7 m\<rparr>"

definition stall_cutoff :: "int \<Rightarrow> stall_slas \<Rightarrow> pipeline_stage \<Rightarrow> rat option" where
  "stall_cutoff now sl s =
     (if s = SCREENING then Some (of_int now - sl_screening_hours sl * 3600)
      else if s = HM_REVIEW then Some (of_int now - sl_hm_review_days sl * 86400)
      else if s = INTERVIEW then Some (of_int now - sl_interview_days sl * 86400) else None)"

definition is_stalled :: "int \<Rightarrow> stall_slas \<Rightarrow> campaign_candidate \<Rightarrow> bool" where
  "is_stalled now sl c =
     (case (stall_cutoff now sl (cc_stage c), cc_updated_at c) of
        (Some k, Some u) \<Rightarrow> of_int u < k
      | _ \<Rightarrow> False)"

datatype stall_reason = SCREENING_OVERDUE | HM_REVIEW_OVERDUE | INTERVIEW_NOT_SCHEDULED | AI_EVALUATION_FAILED

definition has_failed_task :: "nat \<Rightarrow> screening_world \<Rightarrow> bool" where
  "has_failed_task i w \<longleftrightarrow>
     list_ex (\<lambda>t. tk_candidate t = Some i \<and> tk_status t = TK_DEAD) (hd_tasks (sw_db w))
     \<or> list_ex (\<lambda>d. dq_candidate d = Some i) (sw_dlq w)"

definition stall_reason_of :: "campaign_candidate \<Rightarrow> screening_world \<Rightarrow> stall_reason" where
  "stall_reason_of c w =
     (if cc_stage c = SCREENING then (if has_failed_task (cc_id c) w then AI_EVALUATION_FAILED else SCREENING_OVERDUE)
      else if cc_stage c = HM_REVIEW then HM_REVIEW_OVERDUE else INTERVIEW_NOT_SCHEDULED)"

record stalled_row =
  st_candidate :: nat
  st_stage :: pipeline_stage
  st_days :: rat
  st_updated :: int
  st_reason :: stall_reason
  st_dead_tasks :: bool

definition updated_or_zero :: "campaign_candidate \<Rightarrow> int" where
  "updated_or_zero c = (case cc_updated_at c of None \<Rightarrow> 0 | Some u \<Rightarrow> u)"

definition stalled_rows :: "int \<Rightarrow> stall_slas \<Rightarrow> nat \<Rightarrow> screening_world \<Rightarrow> stalled_row list" where
  "stalled_rows now sl camp w =
     map (\<lambda>c. \<lparr>st_candidate = cc_id c, st_stage = cc_stage c,
                st_days = py_round 1 (of_int (now - updated_or_zero c) / 86400), st_updated = updated_or_zero c,
                st_reason = stall_reason_of c w, st_dead_tasks = has_failed_task (cc_id c) w\<rparr>)
       (sort_key updated_or_zero
         (filter (\<lambda>c. cc_campaign c = camp \<and> is_stalled now sl c) (hd_candidates (sw_db w))))"

definition get_stalled_candidates :: "int \<Rightarrow> nat \<Rightarrow> screening_world \<Rightarrow> stalled_row list option" where
  "get_stalled_candidates now camp w =
     (if find_campaign camp (sw_db w) = None then None else Some (stalled_rows now (get_stall_slas (sw_main w)) camp w))"

section \<open>Re-processing and escalation\<close>

definition get_unreplayed_dlq_ids_for_candidate :: "nat \<Rightarrow> screening_world \<Rightarrow> nat list" where
  "get_unreplayed_dlq_ids_for_candidate i w =
     map dq_id (filter (\<lambda>d. dq_candidate d = Some i \<and> dq_replayed_by d = None) (sw_dlq w))"

definition reprocess_stalled_candidate ::
    "screening_env \<Rightarrow> nat \<Rightarrow> nat \<Rightarrow> string \<Rightarrow> role_name option \<Rightarrow> screening_world
     \<Rightarrow> (replay_error, (nat \<times> replay_outcome) list) result \<times> screening_world" where
  "reprocess_stalled_candidate sv camp i actor role w =
     (case stalled_candidate camp i (sw_db w) of
        Inl e \<Rightarrow> (Inl (if e = OE_No_Campaign then RP_No_Campaign else RP_No_Candidate), w)
      | Inr cc \<Rightarrow>
          let ids = get_unreplayed_dlq_ids_for_candidate (cc_id cc) w
          in if ids = [] then (Inl RP_Nothing, w) else replay_dead_letter_tasks sv camp ids actor role w)"

datatype escalation_error = EE_Missing override_error | EE_Wrong_Stage pipeline_stage

definition escalate_stalled_candidate ::
    "nat \<Rightarrow> nat \<Rightarrow> string option \<Rightarrow> string \<Rightarrow> role_name option \<Rightarrow> hiring_db \<Rightarrow> (escalation_error, hiring_db) result" where
  "escalate_stalled_candidate camp i note_text actor role h =
     (case stalled_candidate camp i h of
        Inl e \<Rightarrow> Inl (EE_Missing e)
      | Inr cc \<Rightarrow>
          if cc_stage cc \<noteq> HM_REVIEW then Inl (EE_Wrong_Stage (cc_stage cc))
          else Inr (audit (Some actor) role ''CANDIDATE_STALL_ESCALATED'' (cc_id cc)
                 [(''hiring_manager_id'', case find_campaign camp h of None \<Rightarrow> JNull | Some ca \<Rightarrow> JStr (ca_manager ca)),
                  (''note'', json_opt JStr note_text)] h))"

section \<open>The clock of a stage\<close>

lemma write_transition_candidate:
  assumes run: "write_transition now i f p t row act reason key h = Inr (True, h')"
    and cur: "find_candidate i h = Some current" and t: "t \<noteq> SCREENING"
  shows "find_candidate i h' = Some (move_stage f t current)"
proof -
  let ?src = "if SYSTEM \<in> set (ac_roles act) then TS_SYSTEM else TS_MANUAL"
  obtain hist created h1 where c: "create_stage_history_idempotent i (Some f) t (actor_name act) reason ?src key h = ((hist, created), h1)"
    by (metis surj_pair)
  have created: created using run c by (cases created) (simp_all add: write_transition_def Let_def actor_name_def)
  note hist = history_idempotent_cases[OF c, unfolded if_P[OF created]]
  obtain h3 where hooks: "interview_hooks f t i (actor_name act) (Some (role_value (resolved_role row act))) now
      (update_candidate i (move_stage f t) h1) = Inr h3"
    using run c created
    by (cases "interview_hooks f t i (actor_name act) (Some (role_value (resolved_role row act))) now
        (update_candidate i (move_stage f t) h1)") (simp_all add: write_transition_def Let_def actor_name_def resolved_role_def)
  have "hd_candidates h' = hd_candidates h3"
    using run c created hooks t
    by (simp add: write_transition_def Let_def actor_name_def resolved_role_def) (auto simp: audit_def create_transition_log_def)
  then have "find_candidate i h' = find_candidate i (update_candidate i (move_stage f t) h1)"
    using same_but_interviewsD(2)[OF hooks_frame[OF hooks]] by (simp add: find_candidate_def)
  also have "\<dots> = map_option (move_stage f t) (find_candidate i h1)"
    by (subst find_candidate_update) (simp_all add: move_stage_def)
  also have "find_candidate i h1 = Some current" using cur hist by (simp add: find_candidate_def)
  finally show ?thesis by simp
qed

lemma stalled_row_iff:
  assumes "find_candidate i (sw_db w) = Some c" "distinct (map cc_id (hd_candidates (sw_db w)))"
  shows "i \<in> st_candidate ` set (stalled_rows now sl (cc_campaign c) w) \<longleftrightarrow> is_stalled now sl c"
proof -
  have c: "c \<in> set (hd_candidates (sw_db w))" "cc_id c = i"
    using assms(1) by (auto simp: find_candidate_def find_Some_iff)
  then have uniq: "x = c" if "x \<in> set (hd_candidates (sw_db w))" "cc_id x = i" for x
    using that assms(2) by (simp add: distinct_map inj_on_def)
  have "st_candidate ` set (stalled_rows now sl (cc_campaign c) w)
      = cc_id ` {x \<in> set (hd_candidates (sw_db w)). cc_campaign x = cc_campaign c \<and> is_stalled now sl x}"
    by (simp add: stalled_rows_def image_image)
  then have "i \<in> st_candidate ` set (stalled_rows now sl (cc_campaign c) w) \<longleftrightarrow>
      (\<exists>x\<in>set (hd_candidates (sw_db w)). cc_id x = i \<and> cc_campaign x = cc_campaign c \<and> is_stalled now sl x)" by auto
  also have "\<dots> \<longleftrightarrow> is_stalled now sl c"
  proof
    assume "\<exists>x\<in>set (hd_candidates (sw_db w)). cc_id x = i \<and> cc_campaign x = cc_campaign c \<and> is_stalled now sl x"
    then obtain x where x: "x \<in> set (hd_candidates (sw_db w))" "cc_id x = i" "is_stalled now sl x" by blast
    with uniq[OF x(1,2)] show "is_stalled now sl c" by metis
  qed (use c in blast)
  finally show ?thesis .
qed

definition waits_too_long :: "int \<Rightarrow> stall_slas \<Rightarrow> pipeline_stage \<Rightarrow> campaign_candidate \<Rightarrow> bool" where
  "waits_too_long now sl s c \<longleftrightarrow> (\<exists>u k. cc_updated_at c = Some u \<and> stall_cutoff now sl s = Some k \<and> of_int u < k)"

lemma is_stalled_iff: "is_stalled now sl c = waits_too_long now sl (cc_stage c) c"
  by (auto simp: is_stalled_def waits_too_long_def split: option.splits)

lemma waits_same: "cc_updated_at d = cc_updated_at c \<Longrightarrow> waits_too_long now sl s d = waits_too_long now sl s c"
  by (simp add: waits_too_long_def)

lemma override_candidate:
  assumes run: "override_candidate_stage now camp i requested reason actor role h = Inr ((f, t), h')"
    and cur: "find_candidate i h = Some c" and t: "t \<noteq> SCREENING"
  shows "find_candidate i h' = Some (c\<lparr>cc_stage := t\<rparr>) \<and> map cc_id (hd_candidates h') = map cc_id (hd_candidates h)"
proof -
  obtain d where d: "stalled_candidate camp i h = Inr d"
    using run by (auto simp: override_candidate_stage_def res_bind_Inr_iff)
  then have dc: "d = c" using cur by (auto simp: stalled_candidate_def split: option.splits if_splits)
  have id: "cc_id c = i" using cur find_candidate_Some by blast
  obtain u where u: "override_target c requested = Inr u"
    using run d dc by (auto simp: override_candidate_stage_def res_bind_Inr_iff)
  let ?h1 = "transition_candidate_stage c u actor reason TS_OVERRIDE False h"
  obtain h2 where hooks: "interview_hooks (cc_stage c) u i (Some actor) (map_option role_value role) now ?h1 = Inr h2"
    using run d dc u by (cases "interview_hooks (cc_stage c) u i (Some actor) (map_option role_value role) now ?h1")
      (simp_all add: override_candidate_stage_def)
  have "u = t" and h': "hd_candidates h' = hd_candidates h2"
    using run d dc u hooks t by (auto simp: override_candidate_stage_def Let_def close_if_filled_frame audit_def split: if_splits)
  then have h'': "hd_candidates h' = hd_candidates (update_candidate i (\<lambda>x. x\<lparr>cc_stage := t\<rparr>) h)"
    using same_but_interviewsD(2)[OF hooks_frame[OF hooks]]
    by (simp add: transition_candidate_stage_def id create_stage_history_def add_stage_history_def Let_def)
  then have "find_candidate i h' = find_candidate i (update_candidate i (\<lambda>x. x\<lparr>cc_stage := t\<rparr>) h)"
    by (simp add: find_candidate_def)
  also have "\<dots> = Some (c\<lparr>cc_stage := t\<rparr>)" using cur by (subst find_candidate_update) simp_all
  finally show ?thesis using h'' by (simp add: update_candidate_ids)
qed

text \<open>
  The clock of a stage is not started by entering it: after a move by the
  transition service or by an override into a stage with an SLA, the candidate is listed as
  stalled at any later time exactly if his last update, made before the move, is older than
  the SLA of the new stage; so he can be listed at the moment of the move.
\<close>

theorem moves_keep_stall_clock:
  assumes "distinct (map cc_id (hd_candidates (sw_db w)))" "find_candidate i (sw_db w) = Some c" "t \<in> set [HM_REVIEW, INTERVIEW]"
    and "transition refreshed_read id now i t act reason key (sw_db w) = Inr (True, h')
         \<or> override_candidate_stage now (cc_campaign c) i requested text actor role (sw_db w) = Inr ((f, t), h')"
  shows "i \<in> st_candidate ` set (stalled_rows later sl (cc_campaign c) (with_db h' w)) \<longleftrightarrow> waits_too_long later sl t c"
proof -
  have t: "t \<noteq> SCREENING" using assms(3) by auto
  have "\<exists>d. find_candidate i h' = Some d \<and> cc_stage d = t \<and> cc_campaign d = cc_campaign c \<and> cc_updated_at d = cc_updated_at c
      \<and> map cc_id (hd_candidates h') = map cc_id (hd_candidates (sw_db w))"
    using assms(4)
  proof
    assume run: "transition refreshed_read id now i t act reason key (sw_db w) = Inr (True, h')"
    then obtain cand :: campaign_candidate and row where wr: "write_transition now i (cc_stage cand) (cc_previous cand) t row act reason key (sw_db w) = Inr (True, h')"
      using transition_written[OF run, unfolded id_apply] by blast
    have "find_candidate i h' = Some (move_stage (cc_stage cand) t c)" by (rule write_transition_candidate[OF wr assms(2) t])
    moreover have "map cc_id (hd_candidates h') = map cc_id (hd_candidates (sw_db w))"
      using write_transition_effect[OF wr assms(2)] by blast
    ultimately show ?thesis by (simp add: move_stage_def)
  next
    assume "override_candidate_stage now (cc_campaign c) i requested text actor role (sw_db w) = Inr ((f, t), h')"
    from override_candidate[OF this assms(2) t] show ?thesis by simp
  qed
  then obtain d where d: "find_candidate i h' = Some d" "cc_stage d = t" "cc_campaign d = cc_campaign c" "cc_updated_at d = cc_updated_at c"
    "distinct (map cc_id (hd_candidates h'))" using assms(1) by auto
  have "i \<in> st_candidate ` set (stalled_rows later sl (cc_campaign d) (with_db h' w)) \<longleftrightarrow> is_stalled later sl d"
    by (rule stalled_row_iff) (use d in simp_all)
  then show ?thesis using d waits_same[of d c] by (simp add: is_stalled_iff)
qed

section \<open>A dead semantic task\<close>

lemma builder_task: "replay_builder d = Some (task, args, ok) \<Longrightarrow> task \<noteq> ''scoring.calculate_semantic_score''"
  by (auto simp: replay_builder_def Let_def split: if_splits)

lemma replay_semantic_messages:
  assumes "replay_dead_letter_tasks sv camp ids actor role w = (res, w')"
  shows "semantic_messages i w' = semantic_messages i w"
  using assms
proof (cases rule: replay_cases)
  case (ran limit rs qs w1 ok missing)
  obtain xs ys where q: "qs = xs @ ys"
      "broker w' = broker w1 @ map (\<lambda>(task, args, tid). \<lparr>ms_task = task, ms_args = args, ms_id = tid\<rparr>) xs"
    using send_each_effect[OF ran(3)] by blast
  have "fst x \<noteq> ''scoring.calculate_semantic_score''" if x: "x \<in> set xs" for x
  proof -
    obtain task args t where e: "x = (task, args, t)" by (cases x)
    then have "(task, args, t) \<in> set qs" using x q(1) by simp
    then obtain d where "replay_builder d = Some (task, args, True)" using replay_each_effect[OF ran(2)] by blast
    then show ?thesis using builder_task e by simp
  qed
  then have "filter (to_candidate ''scoring.calculate_semantic_score'' i)
      (map (\<lambda>(task, args, tid). \<lparr>ms_task = task, ms_args = args, ms_id = tid\<rparr>) xs) = []"
    by (auto simp: filter_empty_conv to_candidate_def)
  then show ?thesis using q(2) replay_each_effect[OF ran(2)] by (simp add: semantic_messages_def)
qed simp

lemma replay_run_semantic: "semantic_messages i (replay_run sv reqs w) = semantic_messages i w"
proof (induction sv reqs w rule: replay_run.induct)
  case (2 sv camp ids actor role reqs w)
  then show ?case using replay_semantic_messages[of sv camp ids actor role w] by (metis prod.collapse replay_run.simps(2))
qed simp

definition only_type :: "string \<Rightarrow> nat \<Rightarrow> dead_letter list \<Rightarrow> bool" where
  "only_type type n q \<longleftrightarrow> (\<forall>d\<in>set q. dq_id d = n \<longrightarrow> dq_type d = type)"

lemma only_type_run: "only_type type n (sw_dlq w) \<Longrightarrow> only_type type n (sw_dlq (replay_run sv reqs w))"
proof (induction sv reqs w rule: replay_run.induct)
  case (2 sv camp ids actor role reqs w)
  obtain res w' where r: "replay_dead_letter_tasks sv camp ids actor role w = (res, w')" by (metis surj_pair)
  obtain rs where "sw_dlq w' = mark_all rs actor (sw_dlq w)" using replay_dlq[OF r] by blast
  then have "only_type type n (sw_dlq w')" using "2.prems" by (auto simp: only_type_def mark_all_def)
  then show ?case using 2 r by simp
qed simp

lemma unsupported_skipped:
  assumes "only_type type n (sw_dlq w)" "type \<notin> set replayable_task_types"
    and "replay_dead_letter_tasks sv camp ids actor role w = (Inr rs, w')"
  shows "(n, Replayed t) \<notin> set rs"
  using replayed_eligible[OF assms(3)] assms(1,2) by (metis only_type_def)

lemma collect_failures_prefix: "\<exists>gs. collect_failures cc h ds fs = fs @ gs"
proof (induction ds arbitrary: fs)
  case (Cons d ds)
  have "\<exists>gs. collect_failures cc h (d # ds) fs = collect_failures cc h ds (fs @ gs)"
  proof -
    have keep: "\<exists>gs. collect_failures cc h ds fs = collect_failures cc h ds (fs @ gs)" by (rule exI[of _ "[]"]) simp
    show ?thesis using keep by (auto split: option.split)
  qed
  then obtain gs where gs: "collect_failures cc h (d # ds) fs = collect_failures cc h ds (fs @ gs)" by blast
  show ?case using Cons[of "fs @ gs"] unfolding gs by auto
qed simp

lemma first_failure:
  assumes "task_layer (dq_type d) = Some l" "\<not> layer_has_result cc l h"
  shows "\<exists>gs. collect_failures cc h (d # ds) [] = \<lparr>lf_layer = l, lf_entry = dq_id d, lf_type = dq_type d, lf_retries = dq_retries d,
           lf_can_retry = (dq_type d \<in> set replayable_task_types)\<rparr> # gs"
  using assms collect_failures_prefix[of cc h ds "[\<lparr>lf_layer = l, lf_entry = dq_id d, lf_type = dq_type d,
    lf_retries = dq_retries d, lf_can_retry = (dq_type d \<in> set replayable_task_types)\<rparr>]"] by simp


end
