(* ===== verification/Dead_Letter_Examples.thy ===== *)
theory Dead_Letter_Examples
  imports Stalled_Candidates Screening_Examples
begin

text \<open>Concrete requests at which the properties of the dead letters and of the stalled candidates apply.\<close>

section \<open>Replays\<close>

definition ai_letter :: "nat \<Rightarrow> string option \<Rightarrow> dead_letter" where
  "ai_letter n who = (dead_letter_of n ''a'' ''AI_EVALUATE'' None (Some 1) ''reset'' 3)\<lparr>dq_replayed_by := who\<rparr>"

definition document_letter :: "nat \<Rightarrow> dead_letter" where
  "document_letter n = dead_letter_of n ''d'' ''RESUME_DOCUMENT_PROCESSING'' (Some 1) None ''reset'' 5"

definition letters_world :: "dead_letter list \<Rightarrow> screening_world" where
  "letters_world q = (screening_start CS_ACTIVE [passed_candidate 1] [] empty_interviews [])\<lparr>sw_dlq := q\<rparr>"

definition replaying :: "campaign_env \<Rightarrow> nat list \<Rightarrow> dead_letter list \<Rightarrow> (replay_error, (nat \<times> replay_outcome) list) result \<times> screening_world" where
  "replaying ev ids q =
     replay_dead_letter_tasks ((screening_sample None 1 ''HOLD'')\<lparr>sv_broker := ev\<rparr>) 9 ids ''hr'' (Some HR_ADMIN) (letters_world q)"

lemma replay_exact_witness:
  "\<exists>w' t. replaying typed_broker [0, 4] [ai_letter 0 None] = (Inr [(4, Skipped SK_Not_Found), (0, Replayed t)], w')
     \<and> map ms_id (broker w') = [t] \<and> sw_dlq w' = [ai_letter 0 (Some ''hr'')]"
proof -
  let ?run = "replaying typed_broker [0, 4] [ai_letter 0 None]"
  have "(case fst ?run of Inl e \<Rightarrow> None | Inr rs \<Rightarrow> Some rs) = Some [(4, Skipped SK_Not_Found), (0, Replayed [])]" by code_simp
  then obtain w' where run: "?run = (Inr [(4, Skipped SK_Not_Found), (0, Replayed [])], w')"
    by (cases ?run) (auto split: sum.splits)
  have start: "map ms_id (broker (letters_world [ai_letter 0 None])) = []" by code_simp
  have mark: "mark_all [(4, Skipped SK_Not_Found), (0, Replayed [])] ''hr'' (sw_dlq (letters_world [ai_letter 0 None])) = [ai_letter 0 (Some ''hr'')]"
    by (simp add: letters_world_def mark_all_def ai_letter_def dead_letter_of_def)
  show ?thesis using replay_exact[OF run[unfolded replaying_def]] run unfolding start mark by auto
qed

definition worn_chain :: "dead_letter list" where
  "worn_chain = [ai_letter 0 (Some ''hr''), ai_letter 1 (Some ''hr''), ai_letter 2 (Some ''hr''), ai_letter 3 None]"

lemma replay_bounded_witness:
  "int (count_dlq_chain_replays (ai_letter 3 None) (sw_dlq (snd (replaying typed_broker [3] worn_chain)))) \<le> 3
   \<and> (case fst (replaying typed_broker [3] worn_chain) of Inl e \<Rightarrow> False | Inr rs \<Rightarrow> rs = [(3, Skipped (SK_Limit 3))])"
proof
  obtain res w' where run: "replaying typed_broker [3] worn_chain = (res, w')" by (metis surj_pair)
  have start: "sw_dlq (letters_world worn_chain) = worn_chain" by (simp add: letters_world_def)
  have ids: "distinct (map dq_id (sw_dlq (letters_world worn_chain)))" "\<forall>x\<in>set (sw_dlq (letters_world worn_chain)). one_link x"
    unfolding start by (simp_all add: worn_chain_def ai_letter_def dead_letter_of_def one_link_def)
  have limit: "max_dlq_replays (sw_main (letters_world worn_chain)) = Some 3" by code_simp
  have used: "count_dlq_chain_replays (ai_letter 3 None) worn_chain = 3" by code_simp
  show "int (count_dlq_chain_replays (ai_letter 3 None) (sw_dlq (snd (replaying typed_broker [3] worn_chain)))) \<le> 3"
    using replay_bounded[OF run[unfolded replaying_def] ids limit, of "ai_letter 3 None"] unfolding start used run by simp
  show "case fst (replaying typed_broker [3] worn_chain) of Inl e \<Rightarrow> False | Inr rs \<Rightarrow> rs = [(3, Skipped (SK_Limit 3))]" by code_simp
qed

text \<open>The newest row is a document task, whose arguments Celery refuses; the evaluation behind it is lost with it.\<close>

lemma failed_replay_is_lost_witness:
  "\<exists>w'. replaying typed_broker [0, 1] [ai_letter 0 None, document_letter 1] = (Inl RP_Send, w')
     \<and> map dq_replayed_by (sw_dlq w') = [Some ''hr'', Some ''hr''] \<and> broker w' = []
     \<and> (\<exists>d\<in>set [ai_letter 0 None, document_letter 1]. d\<lparr>dq_replayed_by := Some ''hr''\<rparr> \<in> set (sw_dlq w'))"
proof -
  let ?q = "[ai_letter 0 None, document_letter 1]"
  let ?run = "replaying typed_broker [0, 1] ?q"
  have "(case fst ?run of Inl e \<Rightarrow> e = RP_Send | Inr rs \<Rightarrow> False)" by code_simp
  then obtain w' where run: "?run = (Inl RP_Send, w')" by (cases ?run) (auto split: sum.splits)
  have w': "w' = snd ?run" using arg_cong[OF run, of snd] by (simp only: snd_conv)
  have start: "sw_dlq (letters_world ?q) = ?q" by (simp add: letters_world_def)
  have ids: "distinct (map dq_id (sw_dlq (letters_world ?q)))"
    unfolding start by (simp add: ai_letter_def document_letter_def dead_letter_of_def)
  have marks: "map dq_replayed_by (sw_dlq (snd ?run)) = [Some ''hr'', Some ''hr'']" by code_simp
  have none: "map ms_id (broker (snd ?run)) = []" by code_simp
  show ?thesis using failed_replay_is_lost[OF run[unfolded replaying_def] ids] run marks none unfolding start w' by auto
qed

section \<open>Stalled candidates\<close>

definition idle_candidate :: campaign_candidate where
  "idle_candidate = (blank_candidate 1 9 SHORTLISTED (Some SCREENING))\<lparr>cc_updated_at := Some 0\<rparr>"

definition idle_world :: screening_world where
  "idle_world = screening_start CS_ACTIVE [idle_candidate] [] empty_interviews []"

text \<open>Moved to review ten days after his last score, and stalled at the same second.\<close>

lemma moves_keep_stall_clock_witness:
  "\<exists>h'. override_candidate_stage 864000 9 1 None ''go on'' ''hr'' (Some HR_ADMIN) (sw_db idle_world) = Inr ((SHORTLISTED, HM_REVIEW), h')
     \<and> 1 \<in> st_candidate ` set (stalled_rows 864000 (get_stall_slas (sw_main idle_world)) 9 (with_db h' idle_world))"
proof -
  let ?run = "override_candidate_stage 864000 9 1 None ''go on'' ''hr'' (Some HR_ADMIN) (sw_db idle_world)"
  have "(case ?run of Inl e \<Rightarrow> None | Inr (p, h) \<Rightarrow> Some p) = Some (SHORTLISTED, HM_REVIEW)" by code_simp
  then obtain h' where run: "?run = Inr ((SHORTLISTED, HM_REVIEW), h')" by (auto split: sum.splits prod.splits)
  have c: "find_candidate 1 (sw_db idle_world) = Some idle_candidate" "distinct (map cc_id (hd_candidates (sw_db idle_world)))"
    "cc_campaign idle_candidate = 9"
    by (simp_all add: idle_world_def screening_start_def Let_def sw_db_def find_candidate_def idle_candidate_def blank_candidate_def)
  have sl: "sl_hm_review_days (get_stall_slas (sw_main idle_world)) = 5" by code_simp
  then have "waits_too_long 864000 (get_stall_slas (sw_main idle_world)) HM_REVIEW idle_candidate"
    by (simp add: waits_too_long_def stall_cutoff_def idle_candidate_def)
  then show ?thesis
    using moves_keep_stall_clock[OF c(2,1), of HM_REVIEW 864000 _ _ _ h' None "''go on''" "''hr''" "Some HR_ADMIN" SHORTLISTED 864000] run
    unfolding c(3) by auto
qed


end
