(* ===== verification/Skill_Ontology.thy ===== *)
theory Skill_Ontology
  imports Stage_State
begin

text \<open>
  The skill ontology (\<open>services/skills/SkillOntologyService.py\<close> over
  \<open>repositories/skill_ontology_repository.py\<close>): a forest of skills with unique names, edited by
  requests and by the import of a spreadsheet.  Caches, the suggestions of similar skills, the
  paging and ordering of lists and the reading of the spreadsheet are left out; a row of an
  import is what \<open>SkillExcelReader\<close> returns.
\<close>

section \<open>Tables\<close>

record skill =
  sk_id :: nat
  sk_name :: string
  sk_aliases :: "string list"
  sk_category :: "string option"
  sk_parent :: "nat option"
  sk_confidence :: string
  sk_source :: "string option"
  sk_active :: bool

text \<open>\<open>on_matches\<close>: tier and text of \<open>candidate_skills\<close>; \<open>on_queue\<close>: embedding tasks queued.\<close>

record ontology =
  on_skills :: "skill list"
  on_matches :: "(string \<times> string) list"
  on_candidate_use :: "nat list"
  on_jd_use :: "nat list"
  on_audit :: "audit_row list"
  on_queue :: "nat list"
  on_next :: nat

datatype ontology_error =
    OG_Not_Found | OG_Empty_Name | OG_Name_Taken | OG_Self_Parent | OG_No_Parent | OG_Inactive_Parent | OG_Circular
  | OG_Alias_Taken string nat | OG_Alias_Used "(string \<times> nat) list" | OG_Already bool | OG_Children "string list"
  | OG_Null | OG_Confidence | OG_Blank_Alias | OG_Foreign_Key

definition get_skill_by_id :: "nat \<Rightarrow> skill list \<Rightarrow> skill option" where
  "get_skill_by_id i ss = find (\<lambda>s. sk_id s = i) ss"

definition get_by_canonical_name_exact :: "string \<Rightarrow> skill list \<Rightarrow> skill option" where
  "get_by_canonical_name_exact n ss = find (\<lambda>s. sk_name s = n) ss"

definition find_skill_by_alias :: "string \<Rightarrow> nat \<Rightarrow> skill list \<Rightarrow> skill option" where
  "find_skill_by_alias a i ss = find (\<lambda>s. a \<in> set (sk_aliases s) \<and> sk_id s \<noteq> i) ss"

definition count_candidate_matches_by_alias :: "string \<Rightarrow> ontology \<Rightarrow> nat" where
  "count_candidate_matches_by_alias a g = length (filter (\<lambda>(tier, raw). lower tier = ''alias'' \<and> raw = a) (on_matches g))"

definition get_children :: "nat \<Rightarrow> skill list \<Rightarrow> skill list" where
  "get_children i ss = filter (\<lambda>s. sk_parent s = Some i) ss"

definition replace_skill :: "skill \<Rightarrow> skill list \<Rightarrow> skill list" where
  "replace_skill t ss = map (\<lambda>s. if sk_id s = sk_id t then t else s) ss"

definition log_skill :: "string \<Rightarrow> role_name option \<Rightarrow> string \<Rightarrow> nat \<Rightarrow> json_dict \<Rightarrow> ontology \<Rightarrow> ontology" where
  "log_skill actor role action i details g =
     g\<lparr>on_audit := on_audit g @ [\<lparr>au_actor = Some actor, au_role = role, au_action = action, au_entity = i, au_details = details\<rparr>]\<rparr>"

section \<open>The hierarchy\<close>

text \<open>\<open>_creates_circular_hierarchy\<close>: up the chain of parents, stopping at a skill already seen.\<close>

lemma unvisited_less:
  assumes "get_skill_by_id c ss = Some s" "c \<notin> set visited"
  shows "length (filter (\<lambda>s. sk_id s \<notin> set (c # visited)) ss) < length (filter (\<lambda>s. sk_id s \<notin> set visited) ss)"
proof -
  have s: "s \<in> set ss" "sk_id s = c" using assms(1) find_Some_set by (fastforce simp: get_skill_by_id_def)+
  have eq: "filter (\<lambda>s. sk_id s \<notin> set (c # visited)) ss = filter (\<lambda>s. sk_id s \<noteq> c) (filter (\<lambda>s. sk_id s \<notin> set visited) ss)"
    by (simp add: conj_commute)
  show ?thesis unfolding eq using s assms(2) by (intro length_filter_less[of s]) auto
qed

function circular_from :: "skill list \<Rightarrow> nat \<Rightarrow> nat list \<Rightarrow> nat option \<Rightarrow> bool" where
  "circular_from ss i visited None = False"
| "circular_from ss i visited (Some c) =
     (if c = i then True
      else if c \<in> set visited then False
      else (case get_skill_by_id c ss of
              None \<Rightarrow> False
            | Some s \<Rightarrow> circular_from ss i (c # visited) (sk_parent s)))"
  by pat_completeness auto

termination
  by (relation "measure (\<lambda>(ss, i, visited, c). length (filter (\<lambda>s. sk_id s \<notin> set visited) ss))") (use unvisited_less in auto)

definition creates_circular_hierarchy :: "nat \<Rightarrow> nat \<Rightarrow> skill list \<Rightarrow> bool" where
  "creates_circular_hierarchy i p ss = circular_from ss i [] (Some p)"

text \<open>\<open>get_descendant_ids\<close>: breadth first, level by level.\<close>

definition next_level :: "skill list \<Rightarrow> nat list \<Rightarrow> nat list \<Rightarrow> nat list" where
  "next_level ss frontier found =
     map sk_id (filter (\<lambda>s. (case sk_parent s of None \<Rightarrow> False | Some p \<Rightarrow> p \<in> set frontier) \<and> sk_id s \<notin> set found) ss)"

lemma next_level_less:
  assumes "next_level ss frontier found \<noteq> []"
  shows "length (filter (\<lambda>s. sk_id s \<notin> set (found @ next_level ss frontier found)) ss) < length (filter (\<lambda>s. sk_id s \<notin> set found) ss)"
proof -
  obtain i where i: "i \<in> set (next_level ss frontier found)" using assms by (cases "next_level ss frontier found") auto
  then obtain s where s: "s \<in> set ss" "sk_id s = i" "i \<notin> set found" by (auto simp: next_level_def)
  have eq: "filter (\<lambda>s. sk_id s \<notin> set (found @ next_level ss frontier found)) ss
      = filter (\<lambda>s. sk_id s \<notin> set (next_level ss frontier found)) (filter (\<lambda>s. sk_id s \<notin> set found) ss)"
    by (simp add: conj_commute)
  show ?thesis unfolding eq using s i by (intro length_filter_less[of s]) auto
qed

function descend :: "skill list \<Rightarrow> nat list \<Rightarrow> nat list \<Rightarrow> nat list" where
  "descend ss frontier found =
     (let level = next_level ss frontier found in if level = [] then found else descend ss level (found @ level))"
  by pat_completeness auto

termination
  by (relation "measure (\<lambda>(ss, frontier, found). length (filter (\<lambda>s. sk_id s \<notin> set found) ss))") (auto simp: next_level_less simp del: set_append)

declare descend.simps [simp del]

definition get_descendant_ids :: "nat \<Rightarrow> skill list \<Rightarrow> nat list" where
  "get_descendant_ids i ss = descend ss [i] []"

text \<open>
  The skills offered as a parent: the first twenty by name; \<open>hit\<close> is the search filter and
  \<open>collate\<close> the order of names in the database.
\<close>

definition get_parents :: "(string \<Rightarrow> nat) \<Rightarrow> (skill \<Rightarrow> bool) \<Rightarrow> nat option \<Rightarrow> skill list \<Rightarrow> skill list" where
  "get_parents collate hit editing ss =
     take 20 (sort_key (\<lambda>s. collate (sk_name s)) (filter (\<lambda>s. sk_active s \<and> hit s \<and>
       (case editing of None \<Rightarrow> True | Some i \<Rightarrow> sk_id s \<notin> set (i # get_descendant_ids i ss))) ss))"

definition has_children :: "nat \<Rightarrow> skill list \<Rightarrow> bool" where
  "has_children i ss \<longleftrightarrow> list_ex (\<lambda>s. sk_parent s = Some i) ss"

definition get_hierarchy_roots :: "skill list \<Rightarrow> (nat \<times> bool) list" where
  "get_hierarchy_roots ss = map (\<lambda>s. (sk_id s, has_children (sk_id s) ss)) (filter (\<lambda>s. sk_parent s = None) ss)"

definition get_hierarchy_children :: "nat \<Rightarrow> skill list \<Rightarrow> (ontology_error, (nat \<times> bool) list) result" where
  "get_hierarchy_children i ss =
     (if get_skill_by_id i ss = None then Inl OG_Not_Found
      else Inr (map (\<lambda>s. (sk_id s, has_children (sk_id s) ss)) (get_children i ss)))"

definition resolve_parent_skill_id :: "nat \<Rightarrow> nat option \<Rightarrow> skill list \<Rightarrow> (ontology_error, nat option) result" where
  "resolve_parent_skill_id i proposed ss =
     (case proposed of
        None \<Rightarrow> Inr None
      | Some p \<Rightarrow>
          if p = i then Inl OG_Self_Parent
          else (case get_skill_by_id p ss of
                  None \<Rightarrow> Inl OG_No_Parent
                | Some s \<Rightarrow> if \<not> sk_active s then Inl OG_Inactive_Parent
                            else if creates_circular_hierarchy i p ss then Inl OG_Circular else Inr (Some p)))"

section \<open>Aliases\<close>

fun clean_from :: "string list \<Rightarrow> string list \<Rightarrow> string list" where
  "clean_from seen [] = []"
| "clean_from seen (a # as) =
     (let t = strip a in if t = [] \<or> t \<in> set seen then clean_from seen as else t # clean_from (t # seen) as)"

definition clean_aliases :: "string list option \<Rightarrow> string list" where
  "clean_aliases as = (case as of None \<Rightarrow> [] | Some xs \<Rightarrow> clean_from [] xs)"

fun merge_into :: "nat \<Rightarrow> skill list \<Rightarrow> string list \<Rightarrow> string list \<Rightarrow> (ontology_error, string list) result" where
  "merge_into i ss merged [] = Inr merged"
| "merge_into i ss merged (a # as) =
     (if a \<in> set merged then merge_into i ss merged as
      else (case find_skill_by_alias a i ss of
              Some s \<Rightarrow> Inl (OG_Alias_Taken a (sk_id s))
            | None \<Rightarrow> merge_into i ss (merged @ [a]) as))"

definition merge_aliases :: "nat \<Rightarrow> string list \<Rightarrow> string list option \<Rightarrow> ontology \<Rightarrow> (ontology_error, string list) result" where
  "merge_aliases i current incoming g = merge_into i (on_skills g) current (clean_aliases incoming)"

definition remove_aliases :: "string list \<Rightarrow> string list option \<Rightarrow> bool \<Rightarrow> ontology \<Rightarrow> (ontology_error, string list) result" where
  "remove_aliases current to_remove confirmed g =
     (let targets = filter (\<lambda>a. a \<in> set current) (clean_aliases to_remove);
          warnings = filter (\<lambda>(a, n). n > 0) (map (\<lambda>a. (a, count_candidate_matches_by_alias a g)) targets)
      in if targets = [] then Inr current
         else if warnings \<noteq> [] \<and> \<not> confirmed then Inl (OG_Alias_Used warnings)
         else Inr (filter (\<lambda>a. a \<notin> set targets) current))"

section \<open>Requests\<close>

text \<open>A field of a PATCH: absent, null, or a value.\<close>

record skill_update =
  su_name :: "string option option"
  su_aliases :: "string list option option"
  su_remove :: "string list option option"
  su_confirm :: bool
  su_category :: "string option option"
  su_parent :: "nat option option"
  su_confidence :: "string option option"
  su_source :: "string option option"
  su_active :: "bool option option"

definition apply_canonical_name :: "skill \<Rightarrow> string \<Rightarrow> skill list \<Rightarrow> (ontology_error, skill) result" where
  "apply_canonical_name s n ss =
     (let t = strip n in
      if t = [] then Inl OG_Empty_Name
      else if t \<noteq> sk_name s \<and> (case get_by_canonical_name_exact t ss of None \<Rightarrow> False | Some d \<Rightarrow> sk_id d \<noteq> sk_id s)
      then Inl OG_Name_Taken else Inr (s\<lparr>sk_name := t\<rparr>))"

definition edit_name :: "skill_update \<Rightarrow> skill \<Rightarrow> ontology \<Rightarrow> (ontology_error, skill) result" where
  "edit_name r s g =
     (case su_name r of None \<Rightarrow> Inr s | Some None \<Rightarrow> Inl OG_Null | Some (Some n) \<Rightarrow> apply_canonical_name s n (on_skills g))"

definition edit_aliases :: "skill_update \<Rightarrow> skill \<Rightarrow> ontology \<Rightarrow> (ontology_error, skill) result" where
  "edit_aliases r s g =
     res_bind (case su_aliases r of None \<Rightarrow> Inr (sk_aliases s) | Some as \<Rightarrow> merge_aliases (sk_id s) (sk_aliases s) as g) (\<lambda>merged.
     res_bind (case su_remove r of None \<Rightarrow> Inr merged | Some as \<Rightarrow> remove_aliases merged as (su_confirm r) g) (\<lambda>rest.
     Inr (s\<lparr>sk_aliases := rest\<rparr>)))"

definition edit_category :: "skill_update \<Rightarrow> skill \<Rightarrow> skill" where
  "edit_category r s =
     (case su_category r of None \<Rightarrow> s
      | Some c \<Rightarrow> s\<lparr>sk_category := (case c of None \<Rightarrow> None | Some n \<Rightarrow> if n = [] then None else Some (strip n))\<rparr>)"

definition edit_parent :: "skill_update \<Rightarrow> skill \<Rightarrow> ontology \<Rightarrow> (ontology_error, skill) result" where
  "edit_parent r s g =
     (case su_parent r of None \<Rightarrow> Inr s
      | Some p \<Rightarrow> res_bind (resolve_parent_skill_id (sk_id s) p (on_skills g)) (\<lambda>q. Inr (s\<lparr>sk_parent := q\<rparr>)))"

text \<open>A null confidence or activity is refused by the table when the row is flushed.\<close>

definition edit_flags :: "skill_update \<Rightarrow> skill \<Rightarrow> (ontology_error, skill) result" where
  "edit_flags r s =
     (if su_confidence r = Some None \<or> su_active r = Some None then Inl OG_Null
      else Inr (s\<lparr>sk_confidence := (case su_confidence r of Some (Some c) \<Rightarrow> c | _ \<Rightarrow> sk_confidence s),
                  sk_source := (case su_source r of None \<Rightarrow> sk_source s | Some x \<Rightarrow> x),
                  sk_active := (case su_active r of Some (Some b) \<Rightarrow> b | _ \<Rightarrow> sk_active s)\<rparr>))"

definition edited :: "skill_update \<Rightarrow> skill \<Rightarrow> ontology \<Rightarrow> (ontology_error, skill) result" where
  "edited r s g =
     res_bind (edit_name r s g) (\<lambda>s1.
     res_bind (edit_aliases r s1 g) (\<lambda>s2.
     res_bind (edit_parent r (edit_category r s2) g) (\<lambda>s3. edit_flags r s3)))"

definition skill_json :: "skill \<Rightarrow> (string \<times> json) list" where
  "skill_json s =
     [(''canonical_name'', JStr (sk_name s)), (''aliases'', JArr (map JStr (sk_aliases s))),
      (''category'', json_opt JStr (sk_category s)), (''confidence'', JStr (sk_confidence s))]"

definition only_changed :: "json_dict \<Rightarrow> json_dict \<Rightarrow> json_dict" where
  "only_changed old new = filter (\<lambda>(k, v). map_of new k \<noteq> Some v) old"

definition describe_parent :: "nat option \<Rightarrow> skill list \<Rightarrow> json" where
  "describe_parent p ss =
     JObj [(''id'', json_opt (\<lambda>i. JNum (of_nat i)) p),
       (''canonical_name'', case p of None \<Rightarrow> JNull | Some i \<Rightarrow> json_opt (\<lambda>s. JStr (sk_name s)) (get_skill_by_id i ss))]"

definition update_skill ::
    "nat \<Rightarrow> skill_update \<Rightarrow> string \<Rightarrow> role_name option \<Rightarrow> ontology \<Rightarrow> (ontology_error, ontology) result" where
  "update_skill i r actor role g =
     (case get_skill_by_id i (on_skills g) of
        None \<Rightarrow> Inl OG_Not_Found
      | Some s \<Rightarrow>
          res_bind (edited r s g) (\<lambda>t.
            let before = only_changed (skill_json s) (skill_json t); after = only_changed (skill_json t) (skill_json s);
                g1 = (if before = [] then g
                      else log_skill actor role ''SKILL_UPDATED'' i [(''before'', JObj before), (''after'', JObj after)] g);
                g2 = (if sk_parent s = sk_parent t then g1
                      else log_skill actor role ''SKILL_PARENT_UPDATED'' i
                        [(''before'', describe_parent (sk_parent s) (on_skills g)), (''after'', describe_parent (sk_parent t) (on_skills g))] g1)
            in Inr (g2\<lparr>on_skills := replace_skill t (on_skills g),
                       on_queue := (if sk_name s = sk_name t then on_queue g2 else on_queue g2 @ [i])\<rparr>)))"

record skill_create =
  sc_name :: string
  sc_aliases :: "string list"
  sc_category :: "string option"
  sc_parent :: "nat option"
  sc_confidence :: string
  sc_source :: string
  sc_active :: bool

definition create_skill :: "skill_create \<Rightarrow> ontology \<Rightarrow> (ontology_error, ontology) result" where
  "create_skill r g =
     (let n = strip (sc_name r) in
      if n = [] then Inl OG_Empty_Name
      else if get_by_canonical_name_exact n (on_skills g) \<noteq> None then Inl OG_Name_Taken
      else if (case sc_parent r of None \<Rightarrow> False | Some p \<Rightarrow> get_skill_by_id p (on_skills g) = None) then Inl OG_No_Parent
      else Inr (g\<lparr>on_skills := on_skills g @ [\<lparr>sk_id = on_next g, sk_name = n, sk_aliases = clean_aliases (Some (sc_aliases r)),
             sk_category = (case sc_category r of None \<Rightarrow> None | Some c \<Rightarrow> if c = [] then None else Some (strip c)),
             sk_parent = sc_parent r, sk_confidence = sc_confidence r, sk_source = Some (sc_source r), sk_active = sc_active r\<rparr>],
           on_queue := on_queue g @ [on_next g], on_next := Suc (on_next g)\<rparr>))"

datatype child_handling = PROMOTE | ROOT | CANCEL

definition reparent_children :: "nat \<Rightarrow> nat option \<Rightarrow> skill list \<Rightarrow> skill list" where
  "reparent_children i p ss = map (\<lambda>s. if sk_parent s = Some i then s\<lparr>sk_parent := p\<rparr> else s) ss"

definition set_active :: "nat \<Rightarrow> bool \<Rightarrow> skill list \<Rightarrow> skill list" where
  "set_active i b ss = map (\<lambda>s. if sk_id s = i then s\<lparr>sk_active := b\<rparr> else s) ss"

definition status_text :: "bool \<Rightarrow> json" where
  "status_text b = JStr (if b then ''active'' else ''inactive'')"

definition handling_value :: "child_handling \<Rightarrow> string" where
  "handling_value c = (case c of PROMOTE \<Rightarrow> ''PROMOTE'' | ROOT \<Rightarrow> ''ROOT'' | CANCEL \<Rightarrow> ''CANCEL'')"

definition update_status ::
    "nat \<Rightarrow> bool \<Rightarrow> child_handling option \<Rightarrow> string \<Rightarrow> role_name option \<Rightarrow> ontology \<Rightarrow> (ontology_error, ontology) result" where
  "update_status i active handling actor role g =
     (case get_skill_by_id i (on_skills g) of
        None \<Rightarrow> Inl OG_Not_Found
      | Some s \<Rightarrow>
          if handling = Some CANCEL then Inr g
          else if sk_active s = active then Inl (OG_Already active)
          else
            let children = (if active then [] else get_children i (on_skills g)) in
            if children \<noteq> [] \<and> handling = None then Inl (OG_Children (map sk_name children))
            else
              let ss = (if children = [] then on_skills g
                        else reparent_children i (if handling = Some PROMOTE then sk_parent s else None) (on_skills g))
              in Inr (log_skill actor role (if active then ''SKILL_REACTIVATED'' else ''SKILL_DEACTIVATED'') i
                   [(''old_status'', status_text (sk_active s)), (''new_status'', status_text active),
                    (''child_handling'', json_opt (\<lambda>c. JStr (handling_value c)) handling),
                    (''affected_child_count'', JNum (of_nat (length children)))] (g\<lparr>on_skills := set_active i active ss\<rparr>)))"

record deactivation_impact =
  di_can :: bool
  di_candidates :: nat
  di_jobs :: nat
  di_children :: "string list"
  di_warning :: bool

definition get_deactivation_impact :: "nat \<Rightarrow> ontology \<Rightarrow> (ontology_error, deactivation_impact) result" where
  "get_deactivation_impact i g =
     (case get_skill_by_id i (on_skills g) of
        None \<Rightarrow> Inl OG_Not_Found
      | Some s \<Rightarrow>
          let cand = length (filter (\<lambda>j. j = i) (on_candidate_use g)); jobs = length (filter (\<lambda>j. j = i) (on_jd_use g));
              names = map sk_name (get_children i (on_skills g))
          in Inr \<lparr>di_can = sk_active s, di_candidates = cand, di_jobs = jobs, di_children = names,
                  di_warning = (\<not> sk_active s \<or> cand > 0 \<or> jobs > 0 \<or> names \<noteq> [])\<rparr>)"

section \<open>The import of a spreadsheet\<close>

record import_row =
  ir_number :: nat
  ir_name :: string
  ir_aliases :: "string list"
  ir_category :: "string option"
  ir_parent :: "string option"
  ir_confidence :: string
  ir_source :: "string option"
  ir_active :: bool

datatype row_problem = RP_Name_Required | RP_Bad_Confidence | RP_Duplicate | RP_Exists | RP_Parent_Unknown | RP_Blank_Alias

definition good_confidence :: "string \<Rightarrow> bool" where
  "good_confidence c \<longleftrightarrow> c \<in> set [''verified'', ''unverified'']"

definition names_in_file :: "import_row list \<Rightarrow> string list" where
  "names_in_file rows = filter (\<lambda>n. n \<noteq> []) (map ir_name rows)"

definition row_problems :: "string list \<Rightarrow> string list \<Rightarrow> string list \<Rightarrow> import_row \<Rightarrow> row_problem list" where
  "row_problems existing in_file seen r =
     (if ir_name r = [] then [RP_Name_Required]
      else (if good_confidence (ir_confidence r) then [] else [RP_Bad_Confidence])
         @ (if ir_name r \<in> set seen then [RP_Duplicate] else if ir_name r \<in> set existing then [RP_Exists] else [])
         @ (case ir_parent r of None \<Rightarrow> [] | Some p \<Rightarrow> if p \<in> set existing \<or> p \<in> set in_file then [] else [RP_Parent_Unknown])
         @ (if [] \<in> set (ir_aliases r) then [RP_Blank_Alias] else []))"

fun validate_from :: "string list \<Rightarrow> string list \<Rightarrow> string list \<Rightarrow> import_row list \<Rightarrow> (nat \<times> row_problem) list" where
  "validate_from existing in_file seen [] = []"
| "validate_from existing in_file seen (r # rs) =
     map (\<lambda>p. (ir_number r, p)) (row_problems existing in_file seen r)
     @ validate_from existing in_file (if ir_name r = [] then seen else ir_name r # seen) rs"

definition validate_rows :: "import_row list \<Rightarrow> ontology \<Rightarrow> (nat \<times> row_problem) list" where
  "validate_rows rows g = validate_from (map sk_name (on_skills g)) (names_in_file rows) [] rows"

text \<open>The ids of the new skills are drawn before the first row is written.\<close>

fun planned_ids :: "string list \<Rightarrow> import_row list \<Rightarrow> nat \<Rightarrow> (string \<times> nat) list \<times> nat" where
  "planned_ids existing [] n = ([], n)"
| "planned_ids existing (r # rs) n =
     (if ir_name r = [] \<or> ir_name r \<in> set existing then planned_ids existing rs n
      else (let (m, k) = planned_ids existing rs (Suc n)
            in (if ir_name r \<in> set (map fst m) then m else (ir_name r, n) # m, k)))"

datatype row_result = RR_Inserted nat | RR_Updated nat | RR_Skipped | RR_Failed ontology_error

definition row_parent :: "import_row \<Rightarrow> (string \<times> nat) list \<Rightarrow> skill list \<Rightarrow> (ontology_error, nat option) result" where
  "row_parent r planned ss =
     (case ir_parent r of
        None \<Rightarrow> Inr None
      | Some p \<Rightarrow>
          (case get_by_canonical_name_exact p ss of
             Some s \<Rightarrow> Inr (Some (sk_id s))
           | None \<Rightarrow> (case map_of planned p of Some i \<Rightarrow> Inr (Some i) | None \<Rightarrow> Inl OG_No_Parent)))"

definition bulk_row_json :: "skill \<Rightarrow> json_dict" where
  "bulk_row_json s =
     [(''category'', json_opt JStr (sk_category s)), (''confidence'', JStr (sk_confidence s)), (''source'', json_opt JStr (sk_source s)),
      (''is_active'', JBool (sk_active s)), (''aliases'', JArr (map JStr (sk_aliases s))),
      (''parent_skill_id'', json_opt (\<lambda>i. JNum (of_nat i)) (sk_parent s))]"

definition apply_bulk_update :: "skill \<Rightarrow> import_row \<Rightarrow> string list \<Rightarrow> nat option \<Rightarrow> string \<Rightarrow> role_name option \<Rightarrow> ontology \<Rightarrow> ontology" where
  "apply_bulk_update s r aliases parent actor role g =
     (let t = s\<lparr>sk_category := ir_category r, sk_confidence := ir_confidence r, sk_source := ir_source r, sk_active := ir_active r,
                sk_aliases := aliases, sk_parent := parent\<rparr>;
          before = only_changed (bulk_row_json s) (bulk_row_json t); after = only_changed (bulk_row_json t) (bulk_row_json s);
          g1 = g\<lparr>on_skills := replace_skill t (on_skills g)\<rparr>
      in if before = [] then g1
         else log_skill actor role ''SKILL_UPDATED'' (sk_id s)
           [(''before'', JObj before), (''after'', JObj after), (''source'', JStr ''bulk_import'')] g1)"

text \<open>
  A row in its savepoint.  The foreign key of \<open>parent_skill_id\<close> is checked when the row is
  flushed: the parent must be a row already, or the new row itself.
\<close>

definition import_one ::
    "(string \<times> nat) list \<Rightarrow> string list \<Rightarrow> string \<Rightarrow> role_name option \<Rightarrow> import_row \<Rightarrow> ontology \<Rightarrow> row_result \<times> ontology" where
  "import_one planned seen actor role r g =
     (if ir_name r = [] then (RR_Failed OG_Empty_Name, g)
      else if \<not> good_confidence (ir_confidence r) then (RR_Failed OG_Confidence, g)
      else if [] \<in> set (ir_aliases r) then (RR_Failed OG_Blank_Alias, g)
      else if ir_name r \<in> set seen then (RR_Skipped, g)
      else (case row_parent r planned (on_skills g) of
              Inl e \<Rightarrow> (RR_Failed e, g)
            | Inr parent \<Rightarrow>
                let aliases = clean_aliases (Some (ir_aliases r)) in
                (case get_by_canonical_name_exact (ir_name r) (on_skills g) of
                   Some s \<Rightarrow>
                     if (case parent of None \<Rightarrow> False | Some p \<Rightarrow> get_skill_by_id p (on_skills g) = None)
                     then (RR_Failed OG_Foreign_Key, g)
                     else (RR_Updated (sk_id s), apply_bulk_update s r aliases parent actor role g)
                 | None \<Rightarrow>
                     (case map_of planned (ir_name r) of
                        None \<Rightarrow> (RR_Failed OG_Not_Found, g)
                      | Some i \<Rightarrow>
                          if (case parent of None \<Rightarrow> False | Some p \<Rightarrow> p \<noteq> i \<and> get_skill_by_id p (on_skills g) = None)
                          then (RR_Failed OG_Foreign_Key, g)
                          else (RR_Inserted i, g\<lparr>on_skills := on_skills g @ [\<lparr>sk_id = i, sk_name = ir_name r, sk_aliases = aliases,
                                 sk_category = ir_category r, sk_parent = parent, sk_confidence = ir_confidence r,
                                 sk_source = ir_source r, sk_active = ir_active r\<rparr>]\<rparr>)))))"

text \<open>A name is noted as seen once the row passed its checks, also if it then fails.\<close>

definition checked :: "import_row \<Rightarrow> bool" where
  "checked r \<longleftrightarrow> ir_name r \<noteq> [] \<and> good_confidence (ir_confidence r) \<and> [] \<notin> set (ir_aliases r)"

fun import_from ::
    "(string \<times> nat) list \<Rightarrow> string list \<Rightarrow> string \<Rightarrow> role_name option \<Rightarrow> import_row list \<Rightarrow> ontology
     \<Rightarrow> (nat \<times> row_result) list \<times> ontology" where
  "import_from planned seen actor role [] g = ([], g)"
| "import_from planned seen actor role (r # rs) g =
     (let (x, g1) = import_one planned seen actor role r g;
          (xs, g2) = import_from planned (if checked r then ir_name r # seen else seen) actor role rs g1
      in ((ir_number r, x) # xs, g2))"

definition newly_active :: "(nat \<times> row_result) list \<Rightarrow> skill list \<Rightarrow> nat list" where
  "newly_active results ss =
     concat (map (\<lambda>(n, x). case x of RR_Inserted i \<Rightarrow> if list_ex (\<lambda>s. sk_id s = i \<and> sk_active s) ss then [i] else [] | _ \<Rightarrow> []) results)"

definition execute_bulk_import ::
    "import_row list \<Rightarrow> string \<Rightarrow> role_name option \<Rightarrow> ontology \<Rightarrow> (nat \<times> row_result) list \<times> ontology" where
  "execute_bulk_import rows actor role g =
     (let (planned, n) = planned_ids (map sk_name (on_skills g)) rows (on_next g);
          (results, g1) = import_from planned [] actor role rows (g\<lparr>on_next := n\<rparr>)
      in (results, g1\<lparr>on_queue := on_queue g1 @ newly_active results (on_skills g1)\<rparr>))"

end
