(* ===== verification/Skill_Ontology_Props.thy ===== *)
theory Skill_Ontology_Props
  imports Skill_Ontology
begin

text \<open>
  The skill ontology as a forest: what the check for circles and the search for descendants
  compute, which requests keep the forest, and what the import of a spreadsheet does to it.
\<close>

section \<open>The parent relation\<close>

definition parent_rel :: "skill list \<Rightarrow> (nat \<times> nat) set" where
  "parent_rel ss = {(sk_id s, p) |s p. s \<in> set ss \<and> sk_parent s = Some p}"

lemma parent_rel_iff: "(x, y) \<in> parent_rel ss \<longleftrightarrow> (\<exists>s\<in>set ss. sk_id s = x \<and> sk_parent s = Some y)"
  by (auto simp: parent_rel_def)

lemma parent_rel_alt: "parent_rel ss = {(x, y). (x, Some y) \<in> set (map (\<lambda>s. (sk_id s, sk_parent s)) ss)}"
  by (force simp: parent_rel_def)

lemma get_skill_Some: "get_skill_by_id i ss = Some s \<Longrightarrow> s \<in> set ss \<and> sk_id s = i"
  using find_Some_set by (fastforce simp: get_skill_by_id_def)

lemma get_skill_None: "get_skill_by_id i ss = None \<longleftrightarrow> i \<notin> sk_id ` set ss"
  by (auto simp: get_skill_by_id_def find_None_iff)

lemma get_skill_in:
  assumes "distinct (map sk_id ss)" "s \<in> set ss"
  shows "get_skill_by_id (sk_id s) ss = Some s"
  unfolding get_skill_by_id_def using assms find_unique[of s ss "\<lambda>t. sk_id t = sk_id s"]
  by (auto simp: distinct_map inj_on_def)

lemma parent_rel_at:
  assumes "distinct (map sk_id ss)" "get_skill_by_id c ss = Some s"
  shows "(c, w) \<in> parent_rel ss \<longleftrightarrow> sk_parent s = Some w"
  using get_skill_Some[OF assms(2)] assms(1) by (auto simp: parent_rel_iff distinct_map inj_on_def)

lemma no_parent_at: "get_skill_by_id c ss = None \<Longrightarrow> (c, w) \<notin> parent_rel ss"
  by (auto simp: parent_rel_iff get_skill_None)

lemma closed_unreachable:
  assumes "\<And>v w. v \<in> V \<Longrightarrow> (v, w) \<in> r \<Longrightarrow> w \<in> V" "c \<in> V" "(c, i) \<in> r\<^sup>*"
  shows "i \<in> V"
  using assms(3,2) by (induction rule: rtrancl_induct) (use assms(1) in auto)

lemma circular_from_exact:
  assumes "distinct (map sk_id ss)" "i \<notin> set visited" "\<And>v w. v \<in> set visited \<Longrightarrow> (v, w) \<in> parent_rel ss \<Longrightarrow> w \<in> set visited \<or> c = Some w"
  shows "circular_from ss i visited c \<longleftrightarrow> (\<exists>d. c = Some d \<and> (d, i) \<in> (parent_rel ss)\<^sup>*)"
  using assms
proof (induction ss i visited c rule: circular_from.induct)
  case (2 ss i visited c)
  show ?case
  proof (cases "c = i \<or> c \<in> set visited")
    case True
    have "(c, i) \<notin> (parent_rel ss)\<^sup>*" if "c \<noteq> i" "c \<in> set visited"
      using closed_unreachable[of "set visited" "parent_rel ss" c i] "2.prems"(2,3) that by auto
    with True show ?thesis by auto
  next
    case False
    then have ne: "c \<noteq> i" "c \<notin> set visited" by auto
    show ?thesis
    proof (cases "get_skill_by_id c ss")
      case None
      then have "(c, i) \<notin> (parent_rel ss)\<^sup>*" using ne(1) no_parent_at by (meson converse_rtranclE)
      with ne None show ?thesis by simp
    next
      case (Some s)
      note at = parent_rel_at[OF "2.prems"(1) Some]
      have "circular_from ss i (c # visited) (sk_parent s) \<longleftrightarrow> (\<exists>d. sk_parent s = Some d \<and> (d, i) \<in> (parent_rel ss)\<^sup>*)"
        by (rule "2.IH"[OF ne Some "2.prems"(1)]) (use ne "2.prems"(2,3) at in auto)
      moreover have "(c, i) \<in> (parent_rel ss)\<^sup>* \<longleftrightarrow> (\<exists>d. sk_parent s = Some d \<and> (d, i) \<in> (parent_rel ss)\<^sup>*)"
        using ne(1) at by (metis converse_rtranclE converse_rtrancl_into_rtrancl)
      ultimately show ?thesis using ne Some by simp
    qed
  qed
qed simp

lemma circular_exact:
  assumes "distinct (map sk_id ss)"
  shows "creates_circular_hierarchy i p ss \<longleftrightarrow> (p, i) \<in> (parent_rel ss)\<^sup>*"
  using circular_from_exact[of ss i "[]" "Some p"] assms by (simp add: creates_circular_hierarchy_def)

section \<open>Descendants\<close>

lemma next_level_set:
  "set (next_level ss frontier found) = {x. x \<notin> set found \<and> (\<exists>p\<in>set frontier. (x, p) \<in> parent_rel ss)}"
  by (force simp: next_level_def parent_rel_iff split: option.splits)

lemma descend_exact:
  assumes "\<forall>x\<in>set frontier. x = i \<or> x \<in> set found" "\<forall>x\<in>set found. (x, i) \<in> (parent_rel ss)\<^sup>+"
    and "\<And>x y. y = i \<or> y \<in> set found \<Longrightarrow> y \<notin> set frontier \<Longrightarrow> (x, y) \<in> parent_rel ss \<Longrightarrow> x \<in> set found"
  shows "set (descend ss frontier found) = {j. (j, i) \<in> (parent_rel ss)\<^sup>+}"
  using assms
proof (induction ss frontier found rule: descend.induct)
  case (1 ss frontier found)
  let ?level = "next_level ss frontier found"
  show ?case
  proof (cases "?level = []")
    case True
    then have closed: "x \<in> set found" if "(x, y) \<in> parent_rel ss" "y = i \<or> y \<in> set found" for x y
      using next_level_set[of ss frontier found] "1.prems"(3) that by (cases "y \<in> set frontier") auto
    have "j \<in> set found" if "(j, i) \<in> (parent_rel ss)\<^sup>+" for j
      using that
    proof (induction rule: converse_trancl_induct)
      case (base y)
      then show ?case by (rule closed) simp
    next
      case (step y z)
      show ?case by (rule closed[OF step(1)]) (simp add: step(3))
    qed
    then show ?thesis using True "1.prems"(2) by (subst descend.simps) auto
  next
    case False
    have "(x, i) \<in> (parent_rel ss)\<^sup>+" if level: "x \<in> set ?level" for x
    proof -
      obtain y where y: "y \<in> set frontier" "(x, y) \<in> parent_rel ss" using level unfolding next_level_set by blast
      from y(1) "1.prems"(1) consider "y = i" | "y \<in> set found" by blast
      then show ?thesis using y(2) "1.prems"(2) by cases (auto intro: trancl_into_trancl2)
    qed
    moreover have "x \<in> set (found @ ?level)" if "y = i \<or> y \<in> set (found @ ?level)" "y \<notin> set ?level" "(x, y) \<in> parent_rel ss" for x y
    proof (cases "y \<in> set frontier")
      case True
      then show ?thesis using that(3) by (auto simp: next_level_set)
    next
      case no: False
      have "x \<in> set found" by (rule "1.prems"(3)[OF _ no that(3)]) (use that(1,2) in auto)
      then show ?thesis by simp
    qed
    ultimately have "set (descend ss ?level (found @ ?level)) = {j. (j, i) \<in> (parent_rel ss)\<^sup>+}"
      using False "1.prems"(2) by (intro "1.IH"[OF refl]) auto
    then show ?thesis using False by (subst descend.simps) (simp add: Let_def)
  qed
qed

lemma descendants_exact: "set (get_descendant_ids i ss) = {j. (j, i) \<in> (parent_rel ss)\<^sup>+}"
  unfolding get_descendant_ids_def by (rule descend_exact) auto

lemma acceptable_parent:
  assumes "distinct (map sk_id ss)" "get_skill_by_id j ss = Some s"
  shows "resolve_parent_skill_id i (Some j) ss = Inr (Some j) \<longleftrightarrow> sk_active s \<and> sk_id s \<notin> set (i # get_descendant_ids i ss)"
  using assms(2) circular_exact[OF assms(1), of i j] get_skill_Some[OF assms(2)]
  by (auto simp: resolve_parent_skill_id_def rtrancl_eq_or_trancl descendants_exact)

lemma page_complete:
  fixes key :: "'a \<Rightarrow> nat"
  assumes "x \<in> set xs" "x \<notin> set (take n (sort_key key xs))"
  shows "length (take n (sort_key key xs)) = n \<and> (\<forall>y\<in>set (take n (sort_key key xs)). key y \<le> key x)"
proof -
  let ?ys = "sort_key key xs"
  have drop: "x \<in> set (drop n ?ys)" using assms append_take_drop_id[of n ?ys] by (metis Un_iff set_append set_sort)
  have "sorted (map key (take n ?ys @ drop n ?ys))" by simp
  then have "key y \<le> key x" if "y \<in> set (take n ?ys)" for y
    using that drop unfolding map_append sorted_append by auto
  moreover have "n < length ?ys" using drop by (metis drop_eq_Nil list.set_cases list.distinct(1) not_less)
  ultimately show ?thesis by simp
qed

text \<open>
  Property C29.  The search for parents agrees with the update: every skill it offers matches the
  search and is one the update would accept as the new parent (active, not the skill itself and not
  a descendant of it), and every skill that matches and would be accepted is offered, unless twenty
  others are, none of which comes after it in the order of names.  This holds for every table with
  distinct ids, also one that has circles.
\<close>

theorem parent_picker_agrees:
  assumes "distinct (map sk_id ss)" "get_skill_by_id j ss = Some s"
  shows "(s \<in> set (get_parents collate hit (Some i) ss) \<longrightarrow> hit s \<and> resolve_parent_skill_id i (Some j) ss = Inr (Some j))
    \<and> (hit s \<and> resolve_parent_skill_id i (Some j) ss = Inr (Some j) \<and> s \<notin> set (get_parents collate hit (Some i) ss) \<longrightarrow>
        length (get_parents collate hit (Some i) ss) = 20
        \<and> (\<forall>t\<in>set (get_parents collate hit (Some i) ss). collate (sk_name t) \<le> collate (sk_name s)))"
proof -
  let ?P = "\<lambda>s. sk_active s \<and> hit s \<and> sk_id s \<notin> set (i # get_descendant_ids i ss)"
  let ?page = "take 20 (sort_key (\<lambda>s. collate (sk_name s)) (filter ?P ss))"
  have offered: "get_parents collate hit (Some i) ss = ?page" by (simp add: get_parents_def)
  have row: "s \<in> set ss" using get_skill_Some[OF assms(2)] by simp
  have accepted: "resolve_parent_skill_id i (Some j) ss = Inr (Some j) \<longleftrightarrow> sk_active s \<and> sk_id s \<notin> set (i # get_descendant_ids i ss)"
    by (rule acceptable_parent[OF assms])
  have "?P s" if "s \<in> set ?page"
  proof -
    have "s \<in> set (filter ?P ss)" using in_set_takeD[OF that] by (simp only: set_sort)
    then show ?thesis unfolding set_filter mem_Collect_eq by (rule conjunct2)
  qed
  moreover have "length ?page = 20 \<and> (\<forall>t\<in>set ?page. collate (sk_name t) \<le> collate (sk_name s))"
    if "?P s" "s \<notin> set ?page"
  proof (rule page_complete[OF _ that(2)])
    show "s \<in> set (filter ?P ss)" unfolding set_filter mem_Collect_eq using row that(1) by (rule conjI)
  qed
  ultimately show ?thesis unfolding offered accepted by blast
qed

section \<open>Requests keep the forest\<close>

definition well_formed :: "skill list \<Rightarrow> bool" where
  "well_formed ss \<longleftrightarrow> distinct (map sk_id ss) \<and> distinct (map sk_name ss)
     \<and> (\<forall>s\<in>set ss. \<forall>p. sk_parent s = Some p \<longrightarrow> p \<in> sk_id ` set ss) \<and> acyclic (parent_rel ss)"

definition ontology_ok :: "ontology \<Rightarrow> bool" where
  "ontology_ok g \<longleftrightarrow> well_formed (on_skills g) \<and> (\<forall>s\<in>set (on_skills g). sk_id s < on_next g)"

datatype ontology_request =
  RQ_Create skill_create | RQ_Update nat skill_update | RQ_Status nat bool "child_handling option"

fun ontology_request_result :: "string \<Rightarrow> role_name option \<Rightarrow> ontology_request \<Rightarrow> ontology \<Rightarrow> (ontology_error, ontology) result" where
  "ontology_request_result actor role (RQ_Create r) g = create_skill r g"
| "ontology_request_result actor role (RQ_Update i r) g = update_skill i r actor role g"
| "ontology_request_result actor role (RQ_Status i b h) g = update_status i b h actor role g"

definition ontology_step :: "string \<Rightarrow> role_name option \<Rightarrow> ontology_request \<Rightarrow> ontology \<Rightarrow> ontology" where
  "ontology_step actor role r g = (case ontology_request_result actor role r g of Inl e \<Rightarrow> g | Inr g' \<Rightarrow> g')"

lemma replace_ids [simp]: "map sk_id (replace_skill t ss) = map sk_id ss"
  by (simp add: replace_skill_def)

lemma replace_parent_rel:
  assumes "distinct (map sk_id ss)" "s \<in> set ss" "sk_id t = sk_id s"
  shows "parent_rel (replace_skill t ss) = {e \<in> parent_rel ss. fst e \<noteq> sk_id s} \<union> (case sk_parent t of None \<Rightarrow> {} | Some p \<Rightarrow> {(sk_id s, p)})"
  using assms by (force simp: parent_rel_iff replace_skill_def split: option.splits if_splits)

lemma without_own_edges:
  assumes "(p, i) \<in> r\<^sup>*"
  shows "(p, i) \<in> {e \<in> r. fst e \<noteq> i}\<^sup>*"
  using assms
proof (induction rule: converse_rtrancl_induct)
  case (step y z)
  then show ?case by (cases "y = i") (auto intro: converse_rtrancl_into_rtrancl)
qed simp

lemma replace_acyclic:
  assumes "well_formed ss" "s \<in> set ss" "sk_id t = sk_id s"
    and "sk_parent t = sk_parent s \<or> resolve_parent_skill_id (sk_id s) (sk_parent t) ss = Inr (sk_parent t)"
  shows "acyclic (parent_rel (replace_skill t ss))"
proof -
  have d: "distinct (map sk_id ss)" "acyclic (parent_rel ss)" using assms(1) by (simp_all add: well_formed_def)
  have less: "acyclic {e \<in> parent_rel ss. fst e \<noteq> sk_id s}" using d(2) by (rule acyclic_subset) auto
  show ?thesis
  proof (cases "sk_parent t")
    case None
    then show ?thesis using replace_parent_rel[OF d(1) assms(2,3)] less by simp
  next
    case (Some p)
    have "(p, sk_id s) \<notin> (parent_rel ss)\<^sup>*"
      using assms(4)
    proof
      assume "sk_parent t = sk_parent s"
      then have "(sk_id s, p) \<in> parent_rel ss" using Some assms(2) by (auto simp: parent_rel_iff)
      then show ?thesis using d(2) by (meson acyclic_def rtrancl_into_trancl2)
    next
      assume "resolve_parent_skill_id (sk_id s) (sk_parent t) ss = Inr (sk_parent t)"
      then show ?thesis using Some circular_exact[OF d(1)]
        by (auto simp: resolve_parent_skill_id_def split: if_splits option.splits)
    qed
    then have "(p, sk_id s) \<notin> {e \<in> parent_rel ss. fst e \<noteq> sk_id s}\<^sup>*"
      using rtrancl_mono[of "{e \<in> parent_rel ss. fst e \<noteq> sk_id s}" "parent_rel ss"] by auto
    then show ?thesis using replace_parent_rel[OF d(1) assms(2,3)] Some less by (simp add: acyclic_insert)
  qed
qed

lemma edited_fields:
  assumes "edited r s g = Inr t"
  shows "sk_id t = sk_id s" "sk_parent t = sk_parent s \<or> resolve_parent_skill_id (sk_id s) (sk_parent t) (on_skills g) = Inr (sk_parent t)"
    "sk_name t = sk_name s \<or> get_by_canonical_name_exact (sk_name t) (on_skills g) = None
      \<or> (\<exists>d. get_by_canonical_name_exact (sk_name t) (on_skills g) = Some d \<and> sk_id d = sk_id s)"
proof -
  obtain s1 s2 s3 where e: "edit_name r s g = Inr s1" "edit_aliases r s1 g = Inr s2"
      "edit_parent r (edit_category r s2) g = Inr s3" "edit_flags r s3 = Inr t"
    using assms by (auto simp: edited_def res_bind_Inr_iff)
  have 1: "sk_id s1 = sk_id s" "sk_parent s1 = sk_parent s" "sk_name s1 = sk_name s \<or> get_by_canonical_name_exact (sk_name s1) (on_skills g) = None
      \<or> (\<exists>d. get_by_canonical_name_exact (sk_name s1) (on_skills g) = Some d \<and> sk_id d = sk_id s)"
    using e(1) by (auto simp: edit_name_def apply_canonical_name_def Let_def split: option.splits if_splits)
  have 2: "sk_id s2 = sk_id s1" "sk_parent s2 = sk_parent s1" "sk_name s2 = sk_name s1"
    using e(2) by (auto simp: edit_aliases_def res_bind_Inr_iff)
  have 3: "sk_id s3 = sk_id s2" "sk_name s3 = sk_name s2"
      "sk_parent s3 = sk_parent s2 \<or> resolve_parent_skill_id (sk_id s2) (sk_parent s3) (on_skills g) = Inr (sk_parent s3)"
    using e(3) by (auto simp: edit_parent_def edit_category_def res_bind_Inr_iff resolve_parent_skill_id_def split: option.splits if_splits)
  have 4: "sk_id t = sk_id s3" "sk_name t = sk_name s3" "sk_parent t = sk_parent s3"
    using e(4) by (auto simp: edit_flags_def split: if_splits)
  show "sk_id t = sk_id s" using 1 2 3 4 by simp
  show "sk_parent t = sk_parent s \<or> resolve_parent_skill_id (sk_id s) (sk_parent t) (on_skills g) = Inr (sk_parent t)"
    using 1 2 3 4 by auto
  show "sk_name t = sk_name s \<or> get_by_canonical_name_exact (sk_name t) (on_skills g) = None
      \<or> (\<exists>d. get_by_canonical_name_exact (sk_name t) (on_skills g) = Some d \<and> sk_id d = sk_id s)"
    using 1 2 3 4 by auto
qed

lemma get_by_name_Some:
  assumes "distinct (map sk_name ss)" "get_by_canonical_name_exact n ss = Some d" "x \<in> set ss" "sk_name x = n"
  shows "x = d"
proof -
  have "d \<in> set ss \<and> sk_name d = n" using assms(2) find_Some_set by (fastforce simp: get_by_canonical_name_exact_def)
  then show ?thesis using assms(1,3,4) by (simp add: distinct_map inj_on_def)
qed

lemma get_by_name_None: "get_by_canonical_name_exact n ss = None \<longleftrightarrow> n \<notin> sk_name ` set ss"
  by (auto simp: get_by_canonical_name_exact_def find_None_iff)

lemma replace_names:
  assumes "distinct (map sk_id ss)" "distinct (map sk_name ss)" "\<forall>d\<in>set ss. sk_name d = sk_name t \<longrightarrow> sk_id d = sk_id t"
  shows "distinct (map sk_name (replace_skill t ss))"
  using assms
proof (induction ss)
  case (Cons x ss)
  have rest: "distinct (map sk_name (replace_skill t ss))" using Cons by simp
  show ?case
  proof (cases "sk_id x = sk_id t")
    case True
    have other: "sk_id y \<noteq> sk_id t" if "y \<in> set ss" for y
      using that Cons.prems(1) True by (metis distinct.simps(2) imageI list.simps(9) set_map)
    then have "replace_skill t ss = ss" by (auto simp: replace_skill_def intro!: map_idI)
    moreover have "sk_name t \<notin> sk_name ` set ss"
    proof
      assume "sk_name t \<in> sk_name ` set ss"
      then obtain y where "y \<in> set ss" "sk_name y = sk_name t" by auto
      then show False using other[of y] Cons.prems(3) by simp
    qed
    ultimately show ?thesis using True Cons.prems(2) by (simp add: replace_skill_def)
  next
    case False
    have "sk_name x \<notin> sk_name ` set (replace_skill t ss)"
      using False Cons.prems(2,3) by (auto simp: replace_skill_def)
    moreover have "replace_skill t (x # ss) = x # replace_skill t ss" using False by (simp add: replace_skill_def)
    ultimately show ?thesis using rest by simp
  qed
qed (simp add: replace_skill_def)

lemma replace_well_formed:
  assumes "well_formed ss" "s \<in> set ss" "sk_id t = sk_id s"
    and "sk_parent t = sk_parent s \<or> resolve_parent_skill_id (sk_id s) (sk_parent t) ss = Inr (sk_parent t)"
    and "\<forall>d\<in>set ss. sk_name d = sk_name t \<longrightarrow> sk_id d = sk_id t"
  shows "well_formed (replace_skill t ss)"
proof -
  have ids: "sk_id ` set (replace_skill t ss) = sk_id ` set ss" by (metis replace_ids set_map)
  have p: "q \<in> sk_id ` set ss" if "sk_parent t = Some q" for q
    using assms(4)
  proof
    assume "sk_parent t = sk_parent s"
    then show ?thesis using that assms(1,2) by (simp add: well_formed_def)
  next
    assume "resolve_parent_skill_id (sk_id s) (sk_parent t) ss = Inr (sk_parent t)"
    then show ?thesis using that by (auto simp: resolve_parent_skill_id_def dest: get_skill_Some split: if_splits option.splits)
  qed
  have "\<forall>x\<in>set (replace_skill t ss). \<forall>q. sk_parent x = Some q \<longrightarrow> q \<in> sk_id ` set ss"
    using p assms(1) by (auto simp: replace_skill_def well_formed_def)
  then show ?thesis using assms(1) replace_acyclic[OF assms(1-4)] replace_names[of ss t] assms(5) ids
    by (simp add: well_formed_def)
qed

lemma update_keeps:
  assumes "update_skill i r actor role g = Inr g'" "ontology_ok g"
  shows "ontology_ok g'"
proof -
  obtain s t where st: "get_skill_by_id i (on_skills g) = Some s" "edited r s g = Inr t"
      "on_skills g' = replace_skill t (on_skills g)" "on_next g' = on_next g"
    using assms(1) by (auto simp: update_skill_def res_bind_Inr_iff Let_def log_skill_def split: option.splits)
  note f = edited_fields[OF st(2)]
  have s: "s \<in> set (on_skills g)" "sk_id s = i" using get_skill_Some[OF st(1)] by auto
  have wf: "well_formed (on_skills g)" using assms(2) by (simp add: ontology_ok_def)
  then have names: "distinct (map sk_name (on_skills g))" by (simp add: well_formed_def)
  have "sk_id d = sk_id t" if "d \<in> set (on_skills g)" "sk_name d = sk_name t" for d
    using f(3)
  proof (elim disjE exE conjE)
    assume "sk_name t = sk_name s"
    then have "d = s" using that s(1) names by (simp add: distinct_map inj_on_def)
    then show ?thesis using f(1) by simp
  next
    assume "get_by_canonical_name_exact (sk_name t) (on_skills g) = None"
    then show ?thesis using that by (metis get_by_name_None imageI)
  next
    fix e
    assume "get_by_canonical_name_exact (sk_name t) (on_skills g) = Some e" "sk_id e = sk_id s"
    then show ?thesis using get_by_name_Some[OF names _ that] f(1) by simp
  qed
  then have "well_formed (replace_skill t (on_skills g))" using replace_well_formed[OF wf s(1) f(1,2)] by blast
  moreover have "sk_id x < on_next g" if "x \<in> set (replace_skill t (on_skills g))" for x
  proof -
    have "sk_id x \<in> set (map sk_id (replace_skill t (on_skills g)))" unfolding set_map using that by (rule imageI)
    then show ?thesis using assms(2) unfolding replace_ids by (auto simp: ontology_ok_def)
  qed
  ultimately show ?thesis using st(3,4) by (simp add: ontology_ok_def)
qed

lemma create_keeps:
  assumes "create_skill r g = Inr g'" "ontology_ok g"
  shows "ontology_ok g'"
proof -
  obtain t where t: "on_skills g' = on_skills g @ [t]" "on_next g' = Suc (on_next g)" "sk_id t = on_next g"
      "sk_name t \<notin> sk_name ` set (on_skills g)" "\<forall>p. sk_parent t = Some p \<longrightarrow> p \<in> sk_id ` set (on_skills g)"
    using assms(1) by (auto simp: create_skill_def Let_def get_by_name_None get_skill_None split: if_splits option.splits)
  let ?ss = "on_skills g"
  have ok: "well_formed ?ss" "\<forall>s\<in>set ?ss. sk_id s < on_next g" using assms(2) by (simp_all add: ontology_ok_def)
  have fresh: "on_next g \<notin> sk_id ` set ?ss" using ok(2) by auto
  have rel: "parent_rel (?ss @ [t]) = parent_rel ?ss \<union> (case sk_parent t of None \<Rightarrow> {} | Some p \<Rightarrow> {(on_next g, p)})"
    using t(3) by (auto simp: parent_rel_iff split: option.splits)
  have into: "(x, on_next g) \<notin> parent_rel ?ss" for x
    using ok(1) fresh by (auto simp: parent_rel_iff well_formed_def)
  have "acyclic (parent_rel (?ss @ [t]))"
  proof (cases "sk_parent t")
    case None
    then show ?thesis using ok(1) rel by (simp add: well_formed_def)
  next
    case (Some p)
    have "p \<noteq> on_next g" using t(5) Some fresh by metis
    then have "(p, on_next g) \<notin> (parent_rel ?ss)\<^sup>*" using into by (meson rtranclE)
    then show ?thesis using ok(1) rel Some by (simp add: well_formed_def acyclic_insert)
  qed
  then show ?thesis using ok t fresh by (auto simp: ontology_ok_def well_formed_def less_Suc_eq)
qed

lemma status_keeps:
  assumes "update_status i b h actor role g = Inr g'" "ontology_ok g"
  shows "ontology_ok g'"
proof (cases "h = Some CANCEL")
  case True
  then show ?thesis using assms by (auto simp: update_status_def split: option.splits)
next
  case False
  obtain s where s: "get_skill_by_id i (on_skills g) = Some s" using assms(1) by (auto simp: update_status_def split: option.splits)
  let ?ss = "on_skills g"
  have ok: "well_formed ?ss" "\<forall>s\<in>set ?ss. sk_id s < on_next g" using assms(2) by (simp_all add: ontology_ok_def)
  define q where "q = (if h = Some PROMOTE then sk_parent s else None)"
  have "(on_skills g' = set_active i b ?ss \<or> on_skills g' = set_active i b (reparent_children i q ?ss)) \<and> on_next g' = on_next g"
    using assms(1) s False by (auto simp: update_status_def Let_def log_skill_def q_def split: if_splits)
  moreover have "q = None \<or> q = sk_parent s" by (simp add: q_def)
  ultimately obtain us where us: "us = ?ss \<or> us = reparent_children i q ?ss \<and> (q = None \<or> q = sk_parent s)"
      "on_skills g' = set_active i b us" "on_next g' = on_next g"
    by blast
  have act: "map sk_id (set_active i b xs) = map sk_id xs" "map sk_name (set_active i b xs) = map sk_name xs"
    "map sk_parent (set_active i b xs) = map sk_parent xs" for xs
    by (simp_all add: set_active_def)
  have rel_act: "parent_rel (set_active i b xs) = parent_rel xs" for xs
  proof -
    have "map (\<lambda>s. (sk_id s, sk_parent s)) (set_active i b xs) = map (\<lambda>s. (sk_id s, sk_parent s)) xs" by (simp add: set_active_def)
    then show ?thesis unfolding parent_rel_alt by simp
  qed
  have re: "map sk_id (reparent_children i q xs) = map sk_id xs" "map sk_name (reparent_children i q xs) = map sk_name xs" for xs
    by (simp_all add: reparent_children_def)
  have wf: "well_formed us"
    using us(1)
  proof
    assume "us = reparent_children i q ?ss \<and> (q = None \<or> q = sk_parent s)"
    then have u: "us = reparent_children i q ?ss" "q = None \<or> q = sk_parent s" by auto
    have own: "(i, p) \<in> parent_rel ?ss" if "q = Some p" for p
      using u(2) that get_skill_Some[OF s] by (auto simp: parent_rel_iff)
    have "parent_rel us \<subseteq> (parent_rel ?ss)\<^sup>+"
    proof
      fix e assume "e \<in> parent_rel us"
      then obtain z p where z: "e = (sk_id z, p)" "z \<in> set us" "sk_parent z = Some p"
        by (cases e) (auto simp: parent_rel_iff)
      then obtain x where x': "x \<in> set ?ss" "z = (if sk_parent x = Some i then x\<lparr>sk_parent := q\<rparr> else x)"
        by (auto simp: u(1) reparent_children_def)
      have x: "e = (sk_id x, p)" "x \<in> set ?ss" "sk_parent x = Some i \<Longrightarrow> q = Some p" "sk_parent x \<noteq> Some i \<Longrightarrow> sk_parent x = Some p"
        using z x' by (auto split: if_splits)
      show "e \<in> (parent_rel ?ss)\<^sup>+"
      proof (cases "sk_parent x = Some i")
        case True
        then have "(sk_id x, i) \<in> parent_rel ?ss" "(i, p) \<in> parent_rel ?ss" using x own by (auto simp: parent_rel_iff)
        then show ?thesis unfolding x(1) by (meson r_into_trancl trancl_into_trancl)
      next
        case False
        then show ?thesis using x by (auto simp: parent_rel_iff intro!: r_into_trancl)
      qed
    qed
    then have "acyclic (parent_rel us)" using ok(1) acyclic_subset[of "(parent_rel ?ss)\<^sup>+" "parent_rel us"]
      by (simp add: well_formed_def acyclic_def)
    moreover have "\<forall>x\<in>set us. \<forall>p. sk_parent x = Some p \<longrightarrow> p \<in> sk_id ` set ?ss"
    proof (intro ballI allI impI)
      fix x p assume x: "x \<in> set us" "sk_parent x = Some p"
      then obtain y where y: "y \<in> set ?ss" "x = (if sk_parent y = Some i then y\<lparr>sk_parent := q\<rparr> else y)"
        by (auto simp: u(1) reparent_children_def)
      show "p \<in> sk_id ` set ?ss"
      proof (cases "sk_parent y = Some i")
        case True
        then have "sk_parent s = Some p" using x(2) y(2) u(2) by auto
        then show ?thesis using ok(1) get_skill_Some[OF s] by (auto simp: well_formed_def)
      next
        case False
        then show ?thesis using x(2) y ok(1) by (auto simp: well_formed_def)
      qed
    qed
    moreover have "sk_id ` set us = sk_id ` set ?ss" unfolding u(1) by (metis re(1) set_map)
    ultimately show ?thesis using ok(1) by (simp add: well_formed_def u(1) re)
  qed (use ok in simp)
  have "sk_id ` set (set_active i b us) = sk_id ` set us" for us by (metis act(1) set_map)
  moreover have "\<forall>x\<in>set (set_active i b us). \<forall>p. sk_parent x = Some p \<longrightarrow> p \<in> sk_id ` set us"
    using wf by (auto simp: set_active_def well_formed_def)
  ultimately have fine: "well_formed (set_active i b us)" using wf by (simp add: well_formed_def act rel_act)
  have "sk_id ` set us = sk_id ` set ?ss" using us(1) by (metis re(1) set_map)
  then have ids: "sk_id ` set (set_active i b us) = sk_id ` set ?ss" by (metis act(1) set_map)
  have "\<forall>n\<in>sk_id ` set ?ss. n < on_next g" using ok(2) by simp
  then have "\<forall>x\<in>set (set_active i b us). sk_id x < on_next g" unfolding ids [symmetric] by simp
  then show ?thesis using us(2,3) fine by (simp add: ontology_ok_def)
qed

text \<open>
  Property C30.  Whatever sequence of creations, updates and activations is requested, the
  ontology stays a forest: ids and names are unique, every parent exists, and no skill is its
  own ancestor.  Promoting the children of a deactivated skill does not break this.
\<close>

theorem requests_keep_forest:
  assumes "ontology_ok g"
  shows "ontology_ok (fold (ontology_step actor role) reqs g)"
  using assms
proof (induction reqs arbitrary: g)
  case (Cons r reqs)
  have "ontology_ok (ontology_step actor role r g)"
    using Cons.prems update_keeps create_keeps status_keeps
    by (cases r) (auto simp: ontology_step_def split: sum.split)
  then show ?case using Cons.IH by simp
qed simp

section \<open>The import\<close>

lemma bulk_update_skills:
  "on_skills (apply_bulk_update s r as q actor role g) = replace_skill (s\<lparr>sk_category := ir_category r, sk_confidence := ir_confidence r,
     sk_source := ir_source r, sk_active := ir_active r, sk_aliases := as, sk_parent := q\<rparr>) (on_skills g)"
  by (simp add: apply_bulk_update_def Let_def log_skill_def)

text \<open>
  Property C31.  The import does not look for circles: a row that gives an existing skill one of
  its own descendants, or itself, as parent is applied, and the skill becomes its own ancestor.
  The same parent is refused when it is sent as an update.
\<close>

theorem import_makes_cycle:
  assumes "distinct (map sk_id (on_skills g))" "checked r" "get_by_canonical_name_exact (ir_name r) (on_skills g) = Some s"
    and "ir_parent r = Some p" "get_by_canonical_name_exact p (on_skills g) = Some q" "(sk_id q, sk_id s) \<in> (parent_rel (on_skills g))\<^sup>*"
  shows "\<exists>g'. execute_bulk_import [r] actor role g = ([(ir_number r, RR_Updated (sk_id s))], g')
           \<and> (sk_id s, sk_id s) \<in> (parent_rel (on_skills g'))\<^sup>+ \<and> (\<exists>e. resolve_parent_skill_id (sk_id s) (Some (sk_id q)) (on_skills g) = Inl e)"
proof -
  let ?ss = "on_skills g"
  have s: "s \<in> set ?ss" "sk_name s = ir_name r" and q: "q \<in> set ?ss"
    using assms(3,5) find_Some_set by (fastforce simp: get_by_canonical_name_exact_def)+
  have known: "ir_name r \<in> sk_name ` set ?ss" using s by (metis imageI)
  have get: "get_skill_by_id (sk_id q) ?ss = Some q" using get_skill_in[OF assms(1) q] .
  define t where "t = s\<lparr>sk_category := ir_category r, sk_confidence := ir_confidence r, sk_source := ir_source r,
    sk_active := ir_active r, sk_aliases := clean_aliases (Some (ir_aliases r)), sk_parent := Some (sk_id q)\<rparr>"
  define g' where "g' = apply_bulk_update s r (clean_aliases (Some (ir_aliases r))) (Some (sk_id q)) actor role (g\<lparr>on_next := on_next g\<rparr>)"
  have one: "import_one [] [] actor role r (g\<lparr>on_next := on_next g\<rparr>) = (RR_Updated (sk_id s), g')"
    using assms(2-5) get by (simp add: import_one_def row_parent_def checked_def g'_def)
  have run: "execute_bulk_import [r] actor role g = ([(ir_number r, RR_Updated (sk_id s))], g'\<lparr>on_queue := on_queue g'\<rparr>)"
    using known one by (simp add: execute_bulk_import_def newly_active_def Let_def)
  have skills: "on_skills g' = replace_skill t ?ss" by (simp add: g'_def bulk_update_skills t_def)
  have rel: "parent_rel (on_skills g') = {e \<in> parent_rel ?ss. fst e \<noteq> sk_id s} \<union> {(sk_id s, sk_id q)}"
    unfolding skills using replace_parent_rel[OF assms(1) s(1), of t] by (simp add: t_def)
  have "(sk_id q, sk_id s) \<in> (parent_rel (on_skills g'))\<^sup>*"
    using without_own_edges[OF assms(6)] unfolding rel by (meson Un_upper1 rtrancl_mono subsetD)
  then have "(sk_id s, sk_id s) \<in> (parent_rel (on_skills g'))\<^sup>+"
    unfolding rel by (simp add: rtrancl_into_trancl2)
  moreover have "\<exists>e. resolve_parent_skill_id (sk_id s) (Some (sk_id q)) ?ss = Inl e"
    using circular_exact[OF assms(1), of "sk_id s" "sk_id q"] assms(6) get by (simp add: resolve_parent_skill_id_def)
  ultimately show ?thesis using run by simp
qed

lemma planned_distinct:
  "distinct (map snd (fst (planned_ids existing rows k))) \<and> (\<forall>x\<in>set (fst (planned_ids existing rows k)). k \<le> snd x)"
proof (induction rows arbitrary: k)
  case (Cons x rows)
  obtain m l where m: "planned_ids existing rows (Suc k) = (m, l)" by fastforce
  have "distinct (map snd m)" "\<forall>y\<in>set m. Suc k \<le> snd y" using Cons[of "Suc k"] m by simp_all
  then show ?case using Cons[of k] m by (auto simp: Suc_le_eq less_imp_le)
qed simp

lemma planned_keys:
  "fst ` set (fst (planned_ids existing rows k)) = {n \<in> set (map ir_name rows). n \<noteq> [] \<and> n \<notin> set existing}"
proof (induction rows arbitrary: k)
  case (Cons x rows)
  obtain m l where m: "planned_ids existing rows (Suc k) = (m, l)" by fastforce
  have "fst ` set m = {n \<in> set (map ir_name rows). n \<noteq> [] \<and> n \<notin> set existing}" using Cons[of "Suc k"] m by simp
  then show ?case using Cons[of k] m by (cases "ir_name x = [] \<or> ir_name x \<in> set existing") auto
qed simp

lemma planned_new:
  assumes "n \<in> set (map ir_name rows)" "n \<noteq> []" "n \<notin> set existing"
  shows "\<exists>i\<ge>k. map_of (fst (planned_ids existing rows k)) n = Some i"
proof -
  have "n \<in> fst ` set (fst (planned_ids existing rows k))" using assms planned_keys[of existing rows k] by simp
  then obtain i where "map_of (fst (planned_ids existing rows k)) n = Some i" by (metis map_of_eq_None_iff option.exhaust)
  then show ?thesis using planned_distinct[of existing rows k] map_of_SomeD by fastforce
qed

text \<open>
  A parent defined further down the file: the check of the file accepts the row,
  and the import fails it, because the reserved id is not a row yet when the child is written.
\<close>

theorem forward_reference_fails:
  assumes "checked r" "ir_parent r = Some p" "p \<in> set (map ir_name rest)" "p \<noteq> []" "p \<noteq> ir_name r"
    and "get_by_canonical_name_exact p (on_skills g) = None" "get_by_canonical_name_exact (ir_name r) (on_skills g) = None"
    and "\<forall>s\<in>set (on_skills g). sk_id s < on_next g"
  shows "hd (fst (execute_bulk_import (r # rest) actor role g)) = (ir_number r, RR_Failed OG_Foreign_Key)
    \<and> row_problems (map sk_name (on_skills g)) (names_in_file (r # rest)) [] r = []"
proof
  let ?old = "map sk_name (on_skills g)"
  obtain planned n where pl: "planned_ids ?old (r # rest) (on_next g) = (planned, n)" by fastforce
  have name: "ir_name r \<noteq> []" "good_confidence (ir_confidence r)" "[] \<notin> set (ir_aliases r)" using assms(1) by (auto simp: checked_def)
  have new: "ir_name r \<notin> set ?old" "p \<notin> set ?old" using assms(6,7) by (simp_all add: get_by_name_None)
  obtain i where i: "map_of planned p = Some i" "i \<ge> on_next g"
    using planned_new[of p "r # rest" ?old "on_next g"] assms(3,4) new(2) pl by auto
  obtain j where j: "map_of planned (ir_name r) = Some j"
    using planned_new[of "ir_name r" "r # rest" ?old "on_next g"] name(1) new(1) pl by auto
  have "inj_on snd (set planned)" using planned_distinct[of ?old "r # rest" "on_next g"] unfolding pl by (simp add: distinct_map)
  then have "i \<noteq> j"
    using map_of_SomeD[OF i(1)] map_of_SomeD[OF j] assms(5) inj_onD[of snd "set planned" "(p, i)" "(ir_name r, j)"] by auto
  moreover have "get_skill_by_id i (on_skills g) = None" using i(2) assms(8) by (auto simp: get_skill_None)
  ultimately have "import_one planned [] actor role r (g\<lparr>on_next := n\<rparr>) = (RR_Failed OG_Foreign_Key, g\<lparr>on_next := n\<rparr>)"
    using name assms(2,6,7) i(1) j by (simp add: import_one_def row_parent_def)
  then show "hd (fst (execute_bulk_import (r # rest) actor role g)) = (ir_number r, RR_Failed OG_Foreign_Key)"
    using pl by (simp add: execute_bulk_import_def split: prod.split)
  show "row_problems ?old (names_in_file (r # rest)) [] r = []"
    using name new(1) assms(2,3,4) by (auto simp: row_problems_def names_in_file_def)
qed

end
