(* ===== verification/Skill_Ontology_Examples.thy ===== *)
theory Skill_Ontology_Examples
  imports Skill_Ontology_Props
begin

text \<open>A small ontology at which the properties of the skill ontology apply.\<close>

definition plain_skill :: "nat \<Rightarrow> string \<Rightarrow> nat option \<Rightarrow> skill" where
  "plain_skill i n p =
     \<lparr>sk_id = i, sk_name = n, sk_aliases = [], sk_category = None, sk_parent = p, sk_confidence = ''verified'',
      sk_source = None, sk_active = True\<rparr>"

definition small_ontology :: ontology where
  "small_ontology =
     \<lparr>on_skills = [plain_skill 0 ''web'' None, plain_skill 1 ''python'' None, plain_skill 2 ''django'' (Some 1)],
      on_matches = [], on_candidate_use = [], on_jd_use = [], on_audit = [], on_queue = [], on_next = 3\<rparr>"

definition plain_row :: "nat \<Rightarrow> string \<Rightarrow> string option \<Rightarrow> import_row" where
  "plain_row k n p =
     \<lparr>ir_number = k, ir_name = n, ir_aliases = [], ir_category = None, ir_parent = p, ir_confidence = ''verified'',
      ir_source = None, ir_active = True\<rparr>"

lemmas small_defs = small_ontology_def plain_skill_def

lemma parent_picker_agrees_witness:
  "map sk_id (get_parents length (\<lambda>s. True) (Some 1) (on_skills small_ontology)) = [0]
   \<and> resolve_parent_skill_id 1 (Some 0) (on_skills small_ontology) = Inr (Some 0)"
proof
  let ?ss = "on_skills small_ontology"
  have d: "distinct (map sk_id ?ss)" by code_simp
  show offered: "map sk_id (get_parents length (\<lambda>s. True) (Some 1) ?ss) = [0]" by code_simp
  have row: "get_skill_by_id 0 ?ss = Some (plain_skill 0 ''web'' None)" by (simp add: get_skill_by_id_def small_defs)
  have "plain_skill 0 ''web'' None \<in> set (get_parents length (\<lambda>s. True) (Some 1) ?ss)" by code_simp
  then show "resolve_parent_skill_id 1 (Some 0) ?ss = Inr (Some 0)"
    using parent_picker_agrees[OF d row, of length "\<lambda>s. True" 1] by blast
qed

lemma small_forest: "ontology_ok small_ontology"
proof -
  have "parent_rel (on_skills small_ontology) = insert (2, 1) {}" by (auto simp: small_defs parent_rel_iff)
  then have "acyclic (parent_rel (on_skills small_ontology))" using acyclic_insert[of "2::nat" 1 "{}"] by (simp add: acyclic_def)
  then show ?thesis by (auto simp: ontology_ok_def well_formed_def small_defs)
qed

definition some_requests :: "ontology_request list" where
  "some_requests =
     [RQ_Create \<lparr>sc_name = '' flask '', sc_aliases = [], sc_category = None, sc_parent = Some 1, sc_confidence = ''verified'',
        sc_source = ''manual'', sc_active = True\<rparr>,
      RQ_Update 1 \<lparr>su_name = None, su_aliases = None, su_remove = None, su_confirm = False, su_category = None, su_parent = Some (Some 0),
        su_confidence = None, su_source = None, su_active = None\<rparr>,
      RQ_Update 0 \<lparr>su_name = None, su_aliases = None, su_remove = None, su_confirm = False, su_category = None, su_parent = Some (Some 3),
        su_confidence = None, su_source = None, su_active = None\<rparr>,
      RQ_Status 1 False (Some PROMOTE)]"

text \<open>The third request would close a circle and is refused; the last moves both children to the root's level.\<close>

lemma requests_keep_forest_witness:
  "ontology_ok (fold (ontology_step ''hr'' None) some_requests small_ontology)
   \<and> map (\<lambda>s. (sk_id s, sk_parent s)) (on_skills (fold (ontology_step ''hr'' None) some_requests small_ontology))
       = [(0, None), (1, Some 0), (2, Some 0), (3, Some 0)]"
proof
  show "ontology_ok (fold (ontology_step ''hr'' None) some_requests small_ontology)" by (rule requests_keep_forest[OF small_forest])
  show "map (\<lambda>s. (sk_id s, sk_parent s)) (on_skills (fold (ontology_step ''hr'' None) some_requests small_ontology))
       = [(0, None), (1, Some 0), (2, Some 0), (3, Some 0)]" by code_simp
qed

lemma import_makes_cycle_witness:
  "\<exists>g'. execute_bulk_import [plain_row 2 ''python'' (Some ''django'')] ''hr'' None small_ontology = ([(2, RR_Updated 1)], g')
     \<and> (1, 1) \<in> (parent_rel (on_skills g'))\<^sup>+"
proof -
  have "(2, 1) \<in> (parent_rel (on_skills small_ontology))\<^sup>*" by (rule r_into_rtrancl) (simp add: small_defs parent_rel_iff)
  then show ?thesis
    using import_makes_cycle[of small_ontology "plain_row 2 ''python'' (Some ''django'')" "plain_skill 1 ''python'' None" "''django''"
        "plain_skill 2 ''django'' (Some 1)" "''hr''" None]
    by (auto simp: small_defs plain_row_def checked_def good_confidence_def get_by_canonical_name_exact_def)
qed

lemma forward_reference_fails_witness:
  "fst (execute_bulk_import [plain_row 2 ''flask'' (Some ''micro''), plain_row 3 ''micro'' None] ''hr'' None small_ontology)
     = [(2, RR_Failed OG_Foreign_Key), (3, RR_Inserted 4)]
   \<and> validate_rows [plain_row 2 ''flask'' (Some ''micro''), plain_row 3 ''micro'' None] small_ontology = []
   \<and> hd (fst (execute_bulk_import [plain_row 2 ''flask'' (Some ''micro''), plain_row 3 ''micro'' None] ''hr'' None small_ontology))
     = (ir_number (plain_row 2 ''flask'' (Some ''micro'')), RR_Failed OG_Foreign_Key)"
proof (intro conjI)
  show "fst (execute_bulk_import [plain_row 2 ''flask'' (Some ''micro''), plain_row 3 ''micro'' None] ''hr'' None small_ontology)
     = [(2, RR_Failed OG_Foreign_Key), (3, RR_Inserted 4)]" by code_simp
  show "validate_rows [plain_row 2 ''flask'' (Some ''micro''), plain_row 3 ''micro'' None] small_ontology = []" by code_simp
  show "hd (fst (execute_bulk_import [plain_row 2 ''flask'' (Some ''micro''), plain_row 3 ''micro'' None] ''hr'' None small_ontology))
     = (ir_number (plain_row 2 ''flask'' (Some ''micro'')), RR_Failed OG_Foreign_Key)"
    using forward_reference_fails[of "plain_row 2 ''flask'' (Some ''micro'')" "''micro''" "[plain_row 3 ''micro'' None]" small_ontology "''hr''" None]
    by (simp add: small_defs plain_row_def checked_def good_confidence_def get_by_canonical_name_exact_def)
qed

end
