(* ===== verification/Score_Blend_Props.thy ===== *)
theory Score_Blend_Props
  imports Score_Blend Stage_Transition_Props
begin

text \<open>
  Properties of the deterministic score: its range, what passing means, what each
  part of a job can and cannot change, and the share of the preferred skills.
\<close>

section \<open>Ranges\<close>

lemma preferred_entry_ok:
  assumes ok: "skill_data_ok db" and row: "row \<in> set (skill_coverage db jd resume False)"
    and cand: "cand = [] \<or> cand = skills_in_play db resume"
  shows "entry_ok (preferred_entry db names cand row)"
proof -
  obtain j where j: "j \<in> set (sd_jd db)" "cv_weight row = js_weight j"
    "\<And>w. cv_cand_weight row = Some w \<Longrightarrow> \<exists>c\<in>set (sd_candidates db). cs_weight c = w"
    using row by (elim coverage_row_from) blast
  have w: "0 \<le> or_zero (cv_weight row)" using ok j by (simp add: skill_data_ok_def)
  have d: "0 \<le> v \<and> v \<le> 1" if "cv_cand_weight row = Some v" for v
    using j(3)[OF that] ok by (auto simp: skill_data_ok_def)
  have range: "0 \<le> cs_weight c \<and> cs_weight c \<le> 1" if "map_of cand i = Some c" for i c
    using in_play_range[of db "\<lambda>c. 0 \<le> cs_weight c \<and> cs_weight c \<le> 1"] ok cand that by (auto simp: skill_data_ok_def)
  have al: "0 \<le> cs_weight c \<and> cs_weight c \<le> 1" if "best_alias_match al cand = Some (a, c)" for al a c
    using best_alias_Some(1)[OF that] range by (auto simp: held_def)
  show ?thesis unfolding preferred_entry_def Let_def using w
    by (auto split: option.splits intro!: breakdown_entry_ok dest: d al)
qed

lemma preferred_entries_ok:
  "skill_data_ok db \<Longrightarrow> \<forall>e\<in>set (fst (preferred_breakdown db jd resume)). entry_ok e"
  by (auto simp: preferred_breakdown_def Let_def intro!: preferred_entry_ok)

lemma weighted_ratio_range:
  "\<forall>e\<in>set es. entry_ok e \<Longrightarrow> weighted_ratio es = Some r \<Longrightarrow> 0 \<le> r \<and> r \<le> 100"
  using sums_ok[of es] ratio_percent[of "actual_sum es" "max_sum es"]
  by (auto simp: weighted_ratio_def not_le split: if_splits)

lemma scored_entries_subset: "set (scored_entries es) \<subseteq> set es"
  by (auto simp: scored_entries_def Let_def)

lemma convex_range:
  fixes r p s :: rat
  assumes "0 \<le> s" "s \<le> 1" "0 \<le> r" "r \<le> 100" "0 \<le> p" "p \<le> 100"
  shows "0 \<le> (1 - s) * r + s * p" "(1 - s) * r + s * p \<le> 100"
proof -
  show "0 \<le> (1 - s) * r + s * p" using assms by simp
  have "(1 - s) * r \<le> (1 - s) * 100" "s * p \<le> s * 100" using assms by (simp_all only: mult_left_mono diff_ge_0_iff_ge)
  then show "(1 - s) * r + s * p \<le> 100" by (simp add: algebra_simps)
qed

lemma technical_range:
  assumes "\<forall>e\<in>set es. entry_ok e" "\<forall>e\<in>set ps. entry_ok e" "0 \<le> preferred_share db" "preferred_share db \<le> 1"
    "technical_score db es ps = Some t"
  shows "0 \<le> t \<and> t \<le> 100"
proof -
  have r: "0 \<le> r \<and> r \<le> 100" if "weighted_ratio (scored_entries es) = Some r" for r
    using weighted_ratio_range[OF _ that] assms(1) scored_entries_subset by blast
  have p: "0 \<le> p \<and> p \<le> 100" if "weighted_ratio ps = Some p" for p using weighted_ratio_range[OF assms(2) that] .
  show ?thesis using assms(3,4,5)
    by (auto simp: technical_score_def split: option.splits dest!: r p intro!: py_round_percent convex_range)
qed

definition component_fine :: "bool \<Rightarrow> rat option \<Rightarrow> bool" where
  "component_fine applicable score \<longleftrightarrow> applicable \<longrightarrow> (\<exists>s. score = Some s \<and> 0 \<le> s \<and> s \<le> 100)"

definition inputs_fine ::
    "experience_result option \<Rightarrow> education_result option \<Rightarrow> domain_result option \<Rightarrow> (string \<times> rat) list \<Rightarrow> bool" where
  "inputs_fine ex ed dres ws \<longleftrightarrow>
     (case ex of None \<Rightarrow> True | Some x \<Rightarrow> component_fine (xr_applicable x) (xr_score x))
     \<and> (case ed of None \<Rightarrow> True | Some e \<Rightarrow> component_fine (dr_applicable e) (dr_score e))
     \<and> (case dres of None \<Rightarrow> True | Some d \<Rightarrow> component_fine (dm_applicable d) (dm_score d))
     \<and> (\<forall>(k, w)\<in>set ws. 0 \<le> w)"

lemma weight_of_nonneg: "\<forall>(k, w)\<in>set ws. 0 \<le> w \<Longrightarrow> 0 \<le> weight_of ws k"
  by (auto simp: weight_of_def default_weight_def split: option.splits dest!: map_of_SomeD)

definition in_range :: "(rat \<times> rat) list \<Rightarrow> bool" where
  "in_range cs \<longleftrightarrow> (\<forall>(s, w)\<in>set cs. 0 \<le> s \<and> s \<le> 100 \<and> 0 \<le> w)"

lemma known_scores_ok:
  "\<forall>(s, w)\<in>set cs. 0 \<le> w \<and> (\<exists>v. s = Some v \<and> 0 \<le> v \<and> v \<le> 100) \<Longrightarrow> \<exists>ds. known_scores cs = Inr ds \<and> in_range ds"
  by (induction cs rule: known_scores.induct) (auto simp: in_range_def)

lemma components_fine:
  assumes "inputs_fine ex ed dres ws" "\<And>s. skill = Some s \<Longrightarrow> 0 \<le> s \<and> s \<le> 100"
  shows "\<forall>(s, w)\<in>set (components skill dres ex ed ws). 0 \<le> w \<and> (\<exists>v. s = Some v \<and> 0 \<le> v \<and> v \<le> 100)"
  using assms weight_of_nonneg[of ws]
  by (auto simp: components_def inputs_fine_def component_fine_def split: option.splits if_splits)

lemma sums_in_range:
  "in_range cs \<Longrightarrow> 0 \<le> score_sum cs \<and> score_sum cs \<le> 100 * weight_sum cs"
proof (induction cs)
  case (Cons c cs)
  obtain s w where c: "c = (s, w)" by (cases c)
  have "0 \<le> s * w" "s * w \<le> 100 * w" using Cons.prems c by (auto simp: in_range_def intro: mult_right_mono)
  then show ?case using Cons by (auto simp: c in_range_def score_sum_def weight_sum_def algebra_simps)
qed (simp add: score_sum_def weight_sum_def)

lemma average_range:
  assumes "in_range cs" "0 < weight_sum cs"
  shows "0 \<le> score_sum cs / weight_sum cs" "score_sum cs / weight_sum cs \<le> 100"
  using sums_in_range[OF assms(1)] assms(2) by (simp_all add: field_simps)

definition passed_opt :: "('a \<Rightarrow> bool) \<Rightarrow> 'a option \<Rightarrow> bool" where
  "passed_opt P x = (case x of None \<Rightarrow> True | Some v \<Rightarrow> P v)"

lemma combine_ok:
  assumes "inputs_fine ex ed dres ws" "\<And>s. skill = Some s \<Longrightarrow> 0 \<le> s \<and> s \<le> 100"
  shows "\<exists>score. combine_scores skill st ex ed ws t dres =
      Inr (score, st \<and> passed_opt xr_passed ex \<and> passed_opt dr_passed ed \<and> score \<ge> t) \<and> 0 \<le> score \<and> score \<le> 100"
proof -
  obtain cs where cs: "known_scores (components skill dres ex ed ws) = Inr cs" "in_range cs"
    using known_scores_ok[OF components_fine[OF assms]] by blast
  let ?s = "if weight_sum cs > 0 then py_round 2 (score_sum cs / weight_sum cs) else (case skill of Some s \<Rightarrow> s | None \<Rightarrow> 100)"
  have "0 \<le> ?s \<and> ?s \<le> 100"
    using average_range[OF cs(2)] assms(2) by (auto intro!: py_round_percent split: option.splits)
  then show ?thesis by (simp add: combine_scores_def cs passed_opt_def Let_def)
qed

section \<open>The stored score\<close>

text \<open>
  Property C12.  Scoring a candidate that exists always succeeds: the stored score
  lies between 0 and 100, and it passes exactly if the core coverage reaches its
  threshold, no more than the allowed core skills are missing, the experience and
  education checks pass and the score reaches the campaign's threshold; nothing but
  the three score columns of that candidate is written.
\<close>

theorem stored_score_sound:
  assumes data: "skill_data_ok db" and share: "0 \<le> preferred_share db" "preferred_share db \<le> 1"
    and inputs: "inputs_fine ex ed dres ws" and t: "t \<le> 100" and cc: "find_candidate i h = Some cc"
  shows "\<exists>oc. store_score_breakdown db enc i jd resume t ex ed ws cov miss dres h =
      Inr (oc, update_candidate i (\<lambda>c. c\<lparr>cc_det_breakdown := Some (enc oc), cc_det_score := Some (oc_score oc),
                                        cc_det_passed := Some (oc_passed oc)\<rparr>) h)
    \<and> 0 \<le> oc_score oc \<and> oc_score oc \<le> 100
    \<and> oc_passed oc = (bd_core_coverage (oc_breakdown oc) \<ge> cov
        \<and> int (missing_core (bd_entries (oc_breakdown oc))) \<le> miss
        \<and> passed_opt xr_passed ex \<and> passed_opt dr_passed ed \<and> oc_score oc \<ge> t)
    \<and> oc_breakdown oc = breakdown_of db jd resume None"
proof -
  let ?b = "breakdown_of db jd resume None" and ?p = "preferred_breakdown db jd resume"
  let ?skill = "technical_score db (bd_entries ?b) (fst ?p)"
  let ?q = "evaluate_qualification ?b ?skill t cov miss"
  have skill: "0 \<le> s \<and> s \<le> 100" if "?skill = Some s" for s
    using technical_range[OF _ preferred_entries_ok[OF data] share that] skill_scores_bounded[OF data] by blast
  let ?st = "bd_core_coverage ?b \<ge> cov \<and> int (missing_core (bd_entries ?b)) \<le> miss"
  obtain s where s: "combine_scores ?skill ?st ex ed ws t dres =
      Inr (s, ?st \<and> passed_opt xr_passed ex \<and> passed_opt dr_passed ed \<and> s \<ge> t)" "0 \<le> s" "s \<le> 100"
    using combine_ok[OF inputs skill] by blast
  have none: "0 \<le> (case ?skill of Some s \<Rightarrow> s | None \<Rightarrow> 100) \<and> (case ?skill of Some s \<Rightarrow> s | None \<Rightarrow> 100) \<le> 100
      \<and> ql_passed ?q = (?st \<and> (case ?skill of Some s \<Rightarrow> s | None \<Rightarrow> 100) \<ge> t)"
    using skill t by (auto simp: evaluate_qualification_def Let_def split: option.splits)
  have q: "(ql_coverage ?q \<and> ql_core_gap ?q) = ?st" by (simp add: evaluate_qualification_def Let_def)
  show ?thesis
  proof (cases "ex = None \<and> ed = None \<and> dres = None")
    case True
    then show ?thesis using none cc
      by (simp add: store_score_breakdown_def score_resume_def case_prod_beta Let_def passed_opt_def conj_assoc)
  next
    case False
    then show ?thesis using s cc q
      by (auto simp: store_score_breakdown_def score_resume_def case_prod_beta Let_def)
  qed
qed

lemma validated_inputs_fine:
  assumes "\<forall>y. years = Some y \<longrightarrow> 0 \<le> y" "\<forall>(k, w)\<in>set ws. 0 \<le> w"
  shows "inputs_fine (Some (validate_experience tol m years xm)) (Some (validate_education q text es years xe))
    (Some (evaluate_domain ratio req pref resume)) ws"
  using experience_score_ok(1)[OF assms(1)] education_score_ok(1) domain_score_ok(1) assms(2)
  by (auto simp: inputs_fine_def component_fine_def)

text \<open>A job with one more, preferred, skill; its candidate with the given skills.\<close>

definition preferred_example :: "(nat \<times> skill_match_tier) list \<Rightarrow> skill_db" where
  "preferred_example have = (skill_example have)\<lparr>sd_jd := sd_jd (skill_example have) @
     [\<lparr>js_jd = 7, js_skill = 3, js_mandatory = False, js_weight = Some 5, js_importance = None, js_aliases = None\<rparr>]\<rparr>"

definition no_encoding :: "score_outcome \<Rightarrow> json" where
  "no_encoding oc = JNull"

lemma stored_score_sound_witness:
  "\<exists>oc h'. store_score_breakdown (skill_example [(2, SM_FUZZY)]) no_encoding 1 7 9 50 None None [] 100 3 None screening_db = Inr (oc, h')
     \<and> oc_score oc = 56 \<and> oc_passed oc \<and> map cc_det_score (hd_candidates h') = [Some 56]"
proof -
  let ?db = "skill_example [(2, SM_FUZZY)]"
  have data: "skill_data_ok ?db" by code_simp
  have share: "0 \<le> preferred_share ?db" "preferred_share ?db \<le> 1" by code_simp+
  have inputs: "inputs_fine None None None []" by (simp add: inputs_fine_def)
  have cc: "find_candidate 1 screening_db = Some (blank_candidate 1 9 SCREENING (Some UPLOADED))"
    by (simp add: find_candidate_def screening_db_def example_db_def blank_candidate_def)
  have t: "(50 :: rat) \<le> 100" by simp
  obtain oc where oc: "store_score_breakdown ?db no_encoding 1 7 9 50 None None [] 100 3 None screening_db =
      Inr (oc, update_candidate 1 (\<lambda>c. c\<lparr>cc_det_breakdown := Some (no_encoding oc), cc_det_score := Some (oc_score oc),
                                        cc_det_passed := Some (oc_passed oc)\<rparr>) screening_db)"
    "oc_passed oc = (bd_core_coverage (oc_breakdown oc) \<ge> 100 \<and> int (missing_core (bd_entries (oc_breakdown oc))) \<le> 3
        \<and> oc_score oc \<ge> 50)"
    "oc_breakdown oc = breakdown_of ?db 7 9 None"
    using stored_score_sound[OF data share inputs t cc, of no_encoding 7 9 100 3, unfolded passed_opt_def option.case simp_thms]
    by blast
  have "map_sum id (\<lambda>(oc, h). oc_score oc) (store_score_breakdown ?db no_encoding 1 7 9 50 None None [] 100 3 None screening_db) = Inr 56"
    by code_simp
  then have sc: "oc_score oc = 56" by (simp only: oc(1) map_sum.simps case_prod_conv sum.inject)
  have "bd_core_coverage (breakdown_of ?db 7 9 None) = 100" "missing_core (bd_entries (breakdown_of ?db 7 9 None)) = 0" by code_simp+
  then have "oc_passed oc" by (simp add: oc(2,3) sc)
  then show ?thesis using oc(1) sc
    by (simp add: update_candidate_def screening_db_def example_db_def blank_candidate_def)
qed

section \<open>What a part of the job can change\<close>

text \<open>
  Core skills gate and are not scored: as long as another required
  skill exists, two breakdowns that agree on the others have the same technical
  score.  Preferred skills are capped: whatever the candidate has of them moves the
  technical score by no more than their share of 100 (and the rounding).
\<close>

theorem technical_score_shares:
  assumes ok: "\<forall>e\<in>set es. entry_ok e" "\<forall>e\<in>set ps. entry_ok e"
    and share: "0 \<le> preferred_share db" "preferred_share db \<le> 1"
    and r: "weighted_ratio (scored_entries es) = Some r" and t: "technical_score db es ps = Some t"
  shows "\<bar>t - py_round 2 r\<bar> \<le> preferred_share db * 100 + 1 / 100
    \<and> (\<forall>es'. filter (\<lambda>e. en_importance e \<noteq> Some CORE) es' = filter (\<lambda>e. en_importance e \<noteq> Some CORE) es
         \<and> filter (\<lambda>e. en_importance e \<noteq> Some CORE) es \<noteq> [] \<longrightarrow> technical_score db es' ps = Some t)"
proof (rule conjI)
  have rr: "0 \<le> r" "r \<le> 100" using weighted_ratio_range[OF _ r] ok(1) scored_entries_subset by blast+
  show "\<bar>t - py_round 2 r\<bar> \<le> preferred_share db * 100 + 1 / 100"
  proof (cases "weighted_ratio ps")
    case None
    then show ?thesis using r t share by (simp add: technical_score_def)
  next
    case (Some p)
    let ?s = "preferred_share db"
    have pp: "0 \<le> p" "p \<le> 100" using weighted_ratio_range[OF ok(2) Some] by auto
    have t': "t = py_round 2 ((1 - ?s) * r + ?s * p)" using r t Some by (simp add: technical_score_def)
    have "(1 - ?s) * r + ?s * p = r + ?s * (p - r)" by (simp add: algebra_simps)
    moreover have "?s * (p - r) \<le> ?s * 100" "?s * (- 100) \<le> ?s * (p - r)"
      using share pp rr by (intro mult_left_mono; simp)+
    ultimately have "r - ?s * 100 \<le> (1 - ?s) * r + ?s * p" "(1 - ?s) * r + ?s * p - ?s * 100 \<le> r" by linarith+
    from py.places_drop[OF this(1), of 2] py.places_drop[OF this(2), of 2] show ?thesis
      by (simp add: t' py_round_def abs_le_iff)
  qed
  show "\<forall>es'. filter (\<lambda>e. en_importance e \<noteq> Some CORE) es' = filter (\<lambda>e. en_importance e \<noteq> Some CORE) es
      \<and> filter (\<lambda>e. en_importance e \<noteq> Some CORE) es \<noteq> [] \<longrightarrow> technical_score db es' ps = Some t"
    using t by (auto simp: technical_score_def scored_entries_def Let_def)
qed

lemma technical_score_shares_witness:
  "let db = preferred_example [(1, SM_EXACT)];
       es = bd_entries (breakdown_of db 7 9 None); ps = fst (preferred_breakdown db 7 9)
   in technical_score db es ps = Some 90 \<and> \<bar>90 - py_round 2 100\<bar> \<le> preferred_share db * 100 + 1 / 100"
proof -
  let ?db = "preferred_example [(1, SM_EXACT)]"
  let ?es = "bd_entries (breakdown_of ?db 7 9 None)" and ?ps = "fst (preferred_breakdown ?db 7 9)"
  have ok: "\<forall>e\<in>set ?es. entry_ok e" "\<forall>e\<in>set ?ps. entry_ok e" by code_simp+
  have share: "0 \<le> preferred_share ?db" "preferred_share ?db \<le> 1" by code_simp+
  have r: "weighted_ratio (scored_entries ?es) = Some 100" and t: "technical_score ?db ?es ?ps = Some 90" by code_simp+
  from technical_score_shares[OF ok share r t] t show ?thesis by (simp add: Let_def)
qed

text \<open>
  The stored deterministic score depends on preferred skills: two
  candidates with the same, complete, mandatory breakdown are stored with 90 and
  with 100, and a threshold of 95 rejects the one without the preferred skill.
\<close>

theorem preferred_skill_decides:
  "bd_score (breakdown_of (preferred_example [(1, SM_EXACT)]) 7 9 None) = 100
   \<and> map_sum id (\<lambda>oc. (oc_score oc, oc_passed oc))
       (score_resume (preferred_example [(1, SM_EXACT)]) 7 9 95 None None [] 0 3 None) = Inr (90, False)
   \<and> map_sum id (\<lambda>oc. (oc_score oc, oc_passed oc))
       (score_resume (preferred_example [(1, SM_EXACT), (3, SM_EXACT)]) 7 9 95 None None [] 0 3 None) = Inr (100, True)"
proof (intro conjI)
  show "bd_score (breakdown_of (preferred_example [(1, SM_EXACT)]) 7 9 None) = 100" by code_simp
  show "map_sum id (\<lambda>oc. (oc_score oc, oc_passed oc))
       (score_resume (preferred_example [(1, SM_EXACT)]) 7 9 95 None None [] 0 3 None) = Inr (90, False)" by code_simp
  show "map_sum id (\<lambda>oc. (oc_score oc, oc_passed oc))
       (score_resume (preferred_example [(1, SM_EXACT), (3, SM_EXACT)]) 7 9 95 None None [] 0 3 None) = Inr (100, True)" by code_simp
qed

end
