(* ===== verification/Resume_Selection.thy ===== *)
theory Resume_Selection
  imports Score_Blend_Props
begin

text \<open>
  The inputs of the deterministic task
  (\<open>app/tasks/deterministic_scoring_tasks.py\<close>), the semantic score
  (\<open>app/services/campaign/semantic_scoring_service.py\<close>) and the choice of the
  resume version for a new campaign
  (\<open>app/services/campaign/resume_selection_service.py\<close>), which promises to rank by
  the very scores that the pipeline would store.  Parameters: the readers of dates
  and the word similarity of the third-party libraries, and the cosine similarity
  of two stored embeddings, computed by the database (\<open>None\<close> if the two embeddings
  are of different model versions).
\<close>

section \<open>Jobs, resumes and settings\<close>

record job_row =
  jb_id :: nat
  jb_min_years :: "rat option"
  jb_degree_text :: "string option"
  jb_education :: "education_entry option"
  jb_extracted_min :: "rat option"
  jb_required_capabilities :: "string list"
  jb_preferred_capabilities :: "string list"
  jb_has_embedding :: bool

record resume_version =
  rv_id :: nat
  rv_candidate :: nat
  rv_number :: int
  rv_parsed :: bool
  rv_created :: int
  rv_eligible :: "bool option"
  rv_work :: "work_entry list"
  rv_years :: "rat option"
  rv_education :: "education_entry list"
  rv_text :: resume_text

record scoring_libs =
  lb_parse :: "string \<Rightarrow> int option"
  lb_months :: "int \<Rightarrow> int \<Rightarrow> int"
  lb_ratio :: "string \<Rightarrow> string \<Rightarrow> rat"
  lb_similarity :: "nat \<Rightarrow> nat \<Rightarrow> rat option"

text \<open>A campaign's own settings, as the services read them.\<close>

definition optional_setting :: "skill_db \<Rightarrow> string \<Rightarrow> rat option" where
  "optional_setting db k = map_of (sd_config db) k"

section \<open>The deterministic task\<close>

record score_inputs =
  si_experience :: experience_result
  si_education :: education_result
  si_weights :: "(string \<times> rat) list"
  si_domain :: domain_result

definition task_inputs :: "scoring_libs \<Rightarrow> skill_db \<Rightarrow> int \<Rightarrow> job_row \<Rightarrow> resume_version \<Rightarrow> score_inputs" where
  "task_inputs lb db now jb rv =
     (let years = total_experience (lb_parse lb) (lb_months lb) now (rv_work rv) (rv_years rv);
          tolerance = config_value db ''EXPERIENCE_TOLERANCE_YEARS'' 0;
          equivalent = optional_setting db ''EQUIVALENT_EXPERIENCE_YEARS''
      in \<lparr>si_experience = validate_experience tolerance (jb_min_years jb) years (jb_extracted_min jb),
          si_education = validate_education equivalent (jb_degree_text jb) (rv_education rv) years (jb_education jb),
          si_weights = [(''skills'', config_value db ''DETERMINISTIC_WEIGHT_SKILLS'' (70 / 100)),
                        (''experience'', config_value db ''DETERMINISTIC_WEIGHT_EXPERIENCE'' (15 / 100)),
                        (''education'', config_value db ''DETERMINISTIC_WEIGHT_EDUCATION'' (15 / 100)),
                        (''functional'', config_value db ''DETERMINISTIC_WEIGHT_FUNCTIONAL'' (15 / 100))],
          si_domain = evaluate_domain (lb_ratio lb) (jb_required_capabilities jb) (jb_preferred_capabilities jb) (rv_text rv)\<rparr>)"

definition task_score ::
    "scoring_libs \<Rightarrow> skill_db \<Rightarrow> int \<Rightarrow> campaign_row \<Rightarrow> job_row \<Rightarrow> resume_version \<Rightarrow> (score_error, score_outcome) result" where
  "task_score lb db now ca jb rv =
     (let s = task_inputs lb db now jb rv
      in score_resume db (ca_jd ca) (rv_id rv) (ca_det_threshold ca) (Some (si_experience s)) (Some (si_education s))
           (si_weights s) (ca_coverage ca) (ca_max_missing_core ca) (Some (si_domain s)))"

section \<open>The semantic score\<close>

datatype semantic_error = SM_No_Candidate | SM_No_Resume_Embedding | SM_No_JD_Embedding | SM_Not_Comparable

definition clamp_similarity :: "rat \<Rightarrow> rat" where
  "clamp_similarity s = (if s < 0 then 0 else s)"

definition store_semantic_score ::
    "scoring_libs \<Rightarrow> (rat \<Rightarrow> bool \<Rightarrow> bool \<Rightarrow> json) \<Rightarrow> int \<Rightarrow> nat \<Rightarrow> resume_version \<Rightarrow> job_row \<Rightarrow> rat \<Rightarrow> hiring_db
     \<Rightarrow> (semantic_error, (rat \<times> bool) \<times> hiring_db) result" where
  "store_semantic_score lb enc now i rv jb threshold h =
     (if find_candidate i h = None then Inl SM_No_Candidate
      else if rv_eligible rv = None then Inl SM_No_Resume_Embedding
      else if \<not> jb_has_embedding jb then Inl SM_No_JD_Embedding
      else (case lb_similarity lb (rv_id rv) (jb_id jb) of
              None \<Rightarrow> Inl SM_Not_Comparable
            | Some raw \<Rightarrow>
                let s = clamp_similarity raw; passed = (s \<ge> threshold)
                in Inr ((s, passed), update_candidate i
                     (\<lambda>c. c\<lparr>cc_sem_score := Some s, cc_sem_passed := Some passed,
                           cc_sem_breakdown := Some (enc s passed (raw < 0)), cc_sem_at := Some now,
                           cc_updated_at := Some now\<rparr>) h)))"

section \<open>Selecting a resume\<close>

datatype selection_method = SEL_DIRECT | SEL_COMPARED

datatype selection_error = SL_No_Eligible | SL_No_JD | SL_Score score_error

record evaluated_resume =
  er_resume :: resume_version
  er_det :: "rat option"
  er_det_passed :: "bool option"
  er_sem :: "rat option"
  er_sem_passed :: "bool option"
  er_selection :: "rat option"
  er_selected :: bool

record selection_result =
  sr_resume :: resume_version
  sr_method :: selection_method
  sr_evaluated :: "evaluated_resume list"

definition is_fresh :: "skill_db \<Rightarrow> int \<Rightarrow> resume_version \<Rightarrow> bool" where
  "is_fresh db now rv \<longleftrightarrow>
     now - rv_created rv \<le> \<lfloor>config_value db ''RESUME_FRESHNESS_MAX_AGE_DAYS'' 180\<rfloor> * 86400"

definition is_eligible :: "skill_db \<Rightarrow> int \<Rightarrow> resume_version \<Rightarrow> bool" where
  "is_eligible db now rv \<longleftrightarrow> rv_parsed rv \<and> rv_eligible rv = Some True \<and> is_fresh db now rv"

definition versions_of :: "nat \<Rightarrow> resume_version list \<Rightarrow> resume_version list" where
  "versions_of cand rvs = rev (sort_key rv_number (filter (\<lambda>rv. rv_candidate rv = cand) rvs))"

definition selection_weights :: "campaign_row \<Rightarrow> bool \<Rightarrow> rat \<times> rat" where
  "selection_weights ca has_embedding =
     (let d = ca_w_det ca; s = (if has_embedding then ca_w_sem ca else 0); total = d + s
      in if total \<le> 0 then (100, 0) else (d / total * 100, s / total * 100))"

definition selection_context :: "skill_db \<Rightarrow> (rat \<times> rat option) \<times> (string \<times> rat) list" where
  "selection_context db =
     ((config_value db ''EXPERIENCE_TOLERANCE_YEARS'' 0, optional_setting db ''EQUIVALENT_EXPERIENCE_YEARS''),
      [(''skills'', config_value db ''DETERMINISTIC_WEIGHT_SKILLS'' (70 / 100)),
       (''experience'', config_value db ''DETERMINISTIC_WEIGHT_EXPERIENCE'' (15 / 100)),
       (''education'', config_value db ''DETERMINISTIC_WEIGHT_EDUCATION'' (15 / 100)),
       (''functional'', config_value db ''DETERMINISTIC_WEIGHT_FUNCTIONAL'' (15 / 100))])"

definition score_deterministic ::
    "scoring_libs \<Rightarrow> skill_db \<Rightarrow> int \<Rightarrow> campaign_row \<Rightarrow> job_row \<Rightarrow> skill_hierarchy \<Rightarrow> resume_version
     \<Rightarrow> (score_error, rat \<times> bool) result" where
  "score_deterministic lb db now ca jb hi rv =
     (let ((tolerance, equivalent), weights) = selection_context db;
          years = total_experience (lb_parse lb) (lb_months lb) now (rv_work rv) (rv_years rv);
          ex = validate_experience tolerance (jb_min_years jb) years (jb_extracted_min jb);
          ed = validate_education equivalent (jb_degree_text jb) (rv_education rv) years (jb_education jb);
          b = breakdown_of db (jb_id jb) (rv_id rv) (Some hi);
          preferred = fst (preferred_breakdown db (jb_id jb) (rv_id rv));
          skill = technical_score db (bd_entries b) preferred;
          q = evaluate_qualification b skill (ca_det_threshold ca) (ca_coverage ca) (ca_max_missing_core ca);
          d = evaluate_domain (lb_ratio lb) (jb_required_capabilities jb) (jb_preferred_capabilities jb) (rv_text rv)
      in combine_scores skill (ql_coverage q \<and> ql_core_gap q) (Some ex) (Some ed) weights (ca_det_threshold ca) (Some d))"

definition score_semantic ::
    "scoring_libs \<Rightarrow> campaign_row \<Rightarrow> resume_version \<Rightarrow> rat option \<times> bool option" where
  "score_semantic lb ca rv =
     (case lb_similarity lb (rv_id rv) (ca_jd ca) of
        None \<Rightarrow> (None, None)
      | Some raw \<Rightarrow> let s = clamp_similarity raw in (Some s, Some (s \<ge> ca_sem_threshold ca)))"

definition evaluate_one ::
    "scoring_libs \<Rightarrow> skill_db \<Rightarrow> int \<Rightarrow> campaign_row \<Rightarrow> job_row \<Rightarrow> skill_hierarchy \<Rightarrow> resume_version
     \<Rightarrow> (selection_error, evaluated_resume) result" where
  "evaluate_one lb db now ca jb hi rv =
     (case score_deterministic lb db now ca jb hi rv of
        Inl e \<Rightarrow> Inl (SL_Score e)
      | Inr (det, det_passed) \<Rightarrow>
          let (sem, sem_passed) = (if jb_has_embedding jb then score_semantic lb ca rv else (None, None));
              (wd, ws) = selection_weights ca (jb_has_embedding jb);
              component = (case sem of None \<Rightarrow> 0 | Some s \<Rightarrow> s * 100)
          in Inr \<lparr>er_resume = rv, er_det = Some det, er_det_passed = Some det_passed, er_sem = sem,
                  er_sem_passed = sem_passed,
                  er_selection = Some (py_round 2 (wd / 100 * det + ws / 100 * component)), er_selected = False\<rparr>)"

fun evaluate_all ::
    "scoring_libs \<Rightarrow> skill_db \<Rightarrow> int \<Rightarrow> campaign_row \<Rightarrow> job_row \<Rightarrow> skill_hierarchy \<Rightarrow> resume_version list
     \<Rightarrow> (selection_error, evaluated_resume list) result" where
  "evaluate_all lb db now ca jb hi [] = Inr []"
| "evaluate_all lb db now ca jb hi (rv # rvs) =
     res_bind (evaluate_one lb db now ca jb hi rv) (\<lambda>e.
     res_bind (evaluate_all lb db now ca jb hi rvs) (\<lambda>es. Inr (e # es)))"

text \<open>The winner is an object, here its index: the first one of the greatest score.\<close>

definition winner_index :: "evaluated_resume list \<Rightarrow> nat option" where
  "winner_index es = map_option fst (first_max (\<lambda>(i, e). or_zero (er_selection e)) (enumerate 0 es))"

definition compare_and_select ::
    "scoring_libs \<Rightarrow> skill_db \<Rightarrow> int \<Rightarrow> campaign_row \<Rightarrow> job_row option \<Rightarrow> resume_version list
     \<Rightarrow> (selection_error, selection_result) result" where
  "compare_and_select lb db now ca job rvs =
     (case job of
        None \<Rightarrow> Inl SL_No_JD
      | Some jb \<Rightarrow>
          res_bind (evaluate_all lb db now ca jb (load_hierarchy_for_jd db (jb_id jb)) rvs) (\<lambda>es.
            (case winner_index es of
               None \<Rightarrow> Inl SL_No_Eligible
             | Some w \<Rightarrow>
                 Inr \<lparr>sr_resume = er_resume (es ! w), sr_method = SEL_COMPARED,
                      sr_evaluated = map (\<lambda>(i, e). e\<lparr>er_selected := (i = w)\<rparr>) (enumerate 0 es)\<rparr>)))"

definition select_resume ::
    "scoring_libs \<Rightarrow> skill_db \<Rightarrow> int \<Rightarrow> campaign_row \<Rightarrow> job_row option \<Rightarrow> nat \<Rightarrow> resume_version list
     \<Rightarrow> (selection_error, selection_result) result" where
  "select_resume lb db now ca job cand rvs =
     (case filter (is_eligible db now) (versions_of cand rvs) of
        [] \<Rightarrow> Inl SL_No_Eligible
      | [rv] \<Rightarrow> Inr \<lparr>sr_resume = rv, sr_method = SEL_DIRECT,
                    sr_evaluated = [\<lparr>er_resume = rv, er_det = None, er_det_passed = None, er_sem = None,
                      er_sem_passed = None, er_selection = None, er_selected = True\<rparr>]\<rparr>
      | eligible \<Rightarrow> compare_and_select lb db now ca job eligible)"

section \<open>The ranking scores are the pipeline's\<close>

lemma selection_score_is_stored:
  assumes "one_skill_each db" "jb_id jb = ca_jd ca"
  shows "score_deterministic lb db now ca jb (load_hierarchy_for_jd db (jb_id jb)) rv =
     res_bind (task_score lb db now ca jb rv) (\<lambda>oc. Inr (oc_score oc, oc_passed oc))"
proof -
  have assoc: "res_bind (res_bind r f) g = res_bind r (\<lambda>x. res_bind (f x) g)"
    for r :: "(score_error, rat \<times> bool) result" and f and g :: "score_outcome \<Rightarrow> (score_error, rat \<times> bool) result"
    by (cases r) simp_all
  have return: "res_bind r Inr = r" for r :: "(score_error, rat \<times> bool) result" by (cases r) simp_all
  show ?thesis
    unfolding score_deterministic_def task_score_def task_inputs_def score_resume_def selection_context_def Let_def
      hierarchy_shared[OF assms(1)] case_prod_beta fst_conv snd_conv
    by (simp add: assms(2) assoc return case_prod_beta hierarchy_shared[OF assms(1)])
qed

lemma selection_semantic_is_stored:
  assumes "store_semantic_score lb enc now i rv jb (ca_sem_threshold ca) h = Inr ((s, p), h')" "jb_id jb = ca_jd ca"
  shows "score_semantic lb ca rv = (Some s, Some p)"
  using assms by (auto simp: store_semantic_score_def score_semantic_def Let_def split: if_splits option.splits)

lemma evaluate_all_spec:
  assumes "evaluate_all lb db now ca jb hi rvs = Inr es"
  shows "map er_resume es = rvs"
    "\<And>e. e \<in> set es \<Longrightarrow> evaluate_one lb db now ca jb hi (er_resume e) = Inr e"
proof -
  have one: "er_resume e = rv" if "evaluate_one lb db now ca jb hi rv = Inr e" for rv e
    using that by (auto simp: evaluate_one_def case_prod_beta Let_def split: sum.splits)
  show "map er_resume es = rvs" using assms
    by (induction rvs arbitrary: es) (auto simp: result_simps dest: one)
  show "evaluate_one lb db now ca jb hi (er_resume e) = Inr e" if "e \<in> set es" for e
    using assms that
  proof (induction rvs arbitrary: es)
    case (Cons rv rvs)
    then show ?case using one by (simp add: result_simps) (metis set_ConsD)
  qed simp
qed

lemma winner_index_spec:
  assumes "winner_index es = Some w"
  shows "w < length es" "\<And>e. e \<in> set es \<Longrightarrow> or_zero (er_selection e) \<le> or_zero (er_selection (es ! w))"
proof -
  obtain e where m: "first_max (\<lambda>(i, e). or_zero (er_selection e)) (enumerate 0 es) = Some (w, e)"
    using assms by (auto simp: winner_index_def)
  from first_max_in[OF m] have we: "w < length es" "e = es ! w" by (auto simp: in_set_enumerate_eq)
  show "w < length es" by (rule we(1))
  fix e' assume "e' \<in> set es"
  then obtain k where "k < length es" "e' = es ! k" by (auto simp: in_set_conv_nth)
  then have "(k, e') \<in> set (enumerate 0 es)" by (auto simp: in_set_enumerate_eq)
  from first_max_ge[OF m this] show "or_zero (er_selection e') \<le> or_zero (er_selection (es ! w))" by (simp add: we(2))
qed

text \<open>
  What the ranking means: the mean of the deterministic score and of the similarity in percent,
  under the campaign's weights for the two; the deterministic score alone where there is nothing to
  compare or no weight.
\<close>

definition ranking_score :: "campaign_row \<Rightarrow> bool \<Rightarrow> rat \<Rightarrow> rat option \<Rightarrow> rat" where
  "ranking_score ca has_embedding det sem =
     py_round 2 (if has_embedding \<and> 0 < ca_w_det ca + ca_w_sem ca
       then (ca_w_det ca * det + ca_w_sem ca * (100 * or_zero sem)) / (ca_w_det ca + ca_w_sem ca) else det)"

lemma selection_weights_mean:
  assumes "selection_weights ca emb = (wd, ws)" "\<not> emb \<Longrightarrow> sem = None"
  shows "py_round 2 (wd / 100 * det + ws / 100 * (case sem of None \<Rightarrow> 0 | Some s \<Rightarrow> s * 100)) = ranking_score ca emb det sem"
proof -
  have sem: "(case sem of None \<Rightarrow> 0 | Some s \<Rightarrow> s * 100) = 100 * or_zero sem" by (cases sem) (simp_all add: or_zero_def)
  show ?thesis
  proof (cases "emb \<and> 0 < ca_w_det ca + ca_w_sem ca")
    case True
    define tw where "tw = ca_w_det ca + ca_w_sem ca"
    have parts: "wd / 100 = ca_w_det ca / tw" "ws / 100 = ca_w_sem ca / tw"
      using assms(1) True by (auto simp: selection_weights_def Let_def tw_def)
    have "wd / 100 * det + ws / 100 * (100 * or_zero sem) = (ca_w_det ca * det + ca_w_sem ca * (100 * or_zero sem)) / tw"
      unfolding parts by (simp only: times_divide_eq_left add_divide_distrib)
    then show ?thesis unfolding sem ranking_score_def tw_def if_P[OF True] by (rule arg_cong)
  next
    case False
    then have "wd = 100" "ws * or_zero sem = 0"
      using assms by (auto simp: selection_weights_def Let_def or_zero_def split: if_splits)
    then have "wd / 100 * det + ws / 100 * (100 * or_zero sem) = det" by auto
    then show ?thesis unfolding sem ranking_score_def if_not_P[OF False] by (rule arg_cong)
  qed
qed

lemma evaluate_one_stored:
  assumes "one_skill_each db" "jb_id jb = ca_jd ca"
    "evaluate_one lb db now ca jb (load_hierarchy_for_jd db (jb_id jb)) rv = Inr e"
  shows "\<exists>oc. task_score lb db now ca jb rv = Inr oc \<and> er_det e = Some (oc_score oc) \<and> er_det_passed e = Some (oc_passed oc)
      \<and> er_selection e = Some (ranking_score ca (jb_has_embedding jb) (oc_score oc) (er_sem e))"
    "er_sem e = (if jb_has_embedding jb then map_option clamp_similarity (lb_similarity lb (rv_id rv) (ca_jd ca)) else None)"
proof -
  obtain wd ws where w: "selection_weights ca (jb_has_embedding jb) = (wd, ws)" by fastforce
  show sem: "er_sem e = (if jb_has_embedding jb then map_option clamp_similarity (lb_similarity lb (rv_id rv) (ca_jd ca)) else None)"
    using assms(3)
    by (auto simp: evaluate_one_def score_semantic_def case_prod_beta Let_def split: sum.splits option.splits)
  obtain oc where oc: "task_score lb db now ca jb rv = Inr oc" "er_det e = Some (oc_score oc)" "er_det_passed e = Some (oc_passed oc)"
    and rank: "er_selection e = Some (py_round 2 (wd / 100 * oc_score oc + ws / 100 * (case er_sem e of None \<Rightarrow> 0 | Some s \<Rightarrow> s * 100)))"
    using assms(3) selection_score_is_stored[OF assms(1,2), of lb now rv]
    by (auto simp: evaluate_one_def case_prod_beta Let_def result_simps w split: sum.splits)
  have "\<not> jb_has_embedding jb \<Longrightarrow> er_sem e = None" by (simp add: sem)
  from selection_weights_mean[OF w this, of "oc_score oc"] show "\<exists>oc. task_score lb db now ca jb rv = Inr oc
      \<and> er_det e = Some (oc_score oc) \<and> er_det_passed e = Some (oc_passed oc)
      \<and> er_selection e = Some (ranking_score ca (jb_has_embedding jb) (oc_score oc) (er_sem e))"
    using oc rank by (intro exI[of _ oc]) simp
qed

text \<open>
  Property C14.  The resume chosen for a campaign is a parsed, fresh version of that
  candidate that is eligible for the talent pool; all such versions are evaluated
  and one of them is marked.  When versions are compared, each is ranked by the mean,
  under the campaign's weights, of the very deterministic score that the pipeline's task
  would store for it and of its similarity to the job, rounded once; the marked one has the
  greatest ranking score.
\<close>

theorem resume_selected_best:
  assumes one: "one_skill_each db" and jd: "jb_id jb = ca_jd ca"
    and run: "select_resume lb db now ca (Some jb) cand rvs = Inr res"
  shows "sr_resume res \<in> set rvs \<and> rv_candidate (sr_resume res) = cand \<and> is_eligible db now (sr_resume res)
    \<and> map er_resume (sr_evaluated res) = filter (is_eligible db now) (versions_of cand rvs)
    \<and> (\<exists>w<length (sr_evaluated res). er_resume (sr_evaluated res ! w) = sr_resume res
         \<and> (\<forall>k<length (sr_evaluated res). er_selected (sr_evaluated res ! k) = (k = w))
         \<and> (\<forall>e\<in>set (sr_evaluated res). or_zero (er_selection e) \<le> or_zero (er_selection (sr_evaluated res ! w))))
    \<and> (sr_method res = SEL_COMPARED \<longrightarrow> (\<forall>e\<in>set (sr_evaluated res). \<exists>oc.
         task_score lb db now ca jb (er_resume e) = Inr oc \<and> er_det e = Some (oc_score oc) \<and> er_det_passed e = Some (oc_passed oc)
         \<and> er_sem e = (if jb_has_embedding jb then map_option clamp_similarity (lb_similarity lb (rv_id (er_resume e)) (ca_jd ca)) else None)
         \<and> er_selection e = Some (ranking_score ca (jb_has_embedding jb) (oc_score oc) (er_sem e))))"
proof -
  let ?el = "filter (is_eligible db now) (versions_of cand rvs)"
  have mem: "rv \<in> set rvs \<and> rv_candidate rv = cand \<and> is_eligible db now rv" if "rv \<in> set ?el" for rv
    using that by (auto simp: versions_of_def)
  consider (direct) rv where "?el = [rv]" | (compare) "?el \<noteq> []" "\<And>rv. ?el \<noteq> [rv]"
    using run by (cases ?el) (auto simp: select_resume_def split: list.splits)
  then show ?thesis
  proof cases
    case direct
    then show ?thesis using run mem[of rv] by (auto simp: select_resume_def or_zero_def)
  next
    case compare
    then have run': "compare_and_select lb db now ca (Some jb) ?el = Inr res"
      using run by (cases ?el; cases "tl ?el") (auto simp: select_resume_def)
    then obtain es w where es: "evaluate_all lb db now ca jb (load_hierarchy_for_jd db (jb_id jb)) ?el = Inr es"
      and w: "winner_index es = Some w"
      and res: "res = \<lparr>sr_resume = er_resume (es ! w), sr_method = SEL_COMPARED,
                      sr_evaluated = map (\<lambda>(i, e). e\<lparr>er_selected := (i = w)\<rparr>) (enumerate 0 es)\<rparr>"
      by (auto simp: compare_and_select_def result_simps split: option.splits)
    note spec = evaluate_all_spec[OF es] and win = winner_index_spec[OF w]
    have len: "length (sr_evaluated res) = length es" by (simp add: res)
    have nth: "sr_evaluated res ! k = (es ! k)\<lparr>er_selected := (k = w)\<rparr>" if "k < length es" for k
      using that by (simp add: res nth_enumerate_eq)
    have all: "\<exists>e0\<in>set es. e = e0\<lparr>er_selected := er_selected e\<rparr>" if "e \<in> set (sr_evaluated res)" for e
      using that nth len by (fastforce simp: in_set_conv_nth)
    have maps: "map er_resume (sr_evaluated res) = ?el"
      by (rule nth_equalityI) (use spec(1) nth len in \<open>auto simp flip: spec(1)\<close>)
    have chosen: "sr_resume res \<in> set ?el" using win(1) by (simp add: res flip: spec(1))
    have best: "or_zero (er_selection e) \<le> or_zero (er_selection (sr_evaluated res ! w))" if "e \<in> set (sr_evaluated res)" for e
      using all[OF that] win(2) nth[OF win(1)] by (metis evaluated_resume.select_convs(6) evaluated_resume.surjective evaluated_resume.update_convs(7))
    have stored: "\<exists>oc. task_score lb db now ca jb (er_resume e) = Inr oc \<and> er_det e = Some (oc_score oc)
        \<and> er_det_passed e = Some (oc_passed oc)
        \<and> er_sem e = (if jb_has_embedding jb then map_option clamp_similarity (lb_similarity lb (rv_id (er_resume e)) (ca_jd ca)) else None)
        \<and> er_selection e = Some (ranking_score ca (jb_has_embedding jb) (oc_score oc) (er_sem e))" if in_res: "e \<in> set (sr_evaluated res)" for e
    proof -
      obtain e0 where e0: "e0 \<in> set es" "e = e0\<lparr>er_selected := er_selected e\<rparr>" using all[OF in_res] by blast
      have same: "er_resume e = er_resume e0" "er_det e = er_det e0" "er_det_passed e = er_det_passed e0" "er_sem e = er_sem e0"
        "er_selection e = er_selection e0" by (subst e0(2), simp)+
      show ?thesis unfolding same using evaluate_one_stored[OF one jd spec(2)[OF e0(1)]] by blast
    qed
    have "er_resume (sr_evaluated res ! w) = sr_resume res" using nth[OF win(1)] by (simp add: res)
    then have "\<exists>w<length (sr_evaluated res). er_resume (sr_evaluated res ! w) = sr_resume res
         \<and> (\<forall>k<length (sr_evaluated res). er_selected (sr_evaluated res ! k) = (k = w))
         \<and> (\<forall>e\<in>set (sr_evaluated res). or_zero (er_selection e) \<le> or_zero (er_selection (sr_evaluated res ! w)))"
      using win(1) nth len best by (intro exI[of _ w]) simp
    then show ?thesis using mem[OF chosen] maps stored by blast
  qed
qed

definition example_libs :: scoring_libs where
  "example_libs = \<lparr>lb_parse = (\<lambda>s. None), lb_months = (\<lambda>e s. 0), lb_ratio = (\<lambda>a b. 0), lb_similarity = (\<lambda>r j. Some (1 / 2))\<rparr>"

definition example_job :: job_row where
  "example_job = \<lparr>jb_id = 7, jb_min_years = Some 4, jb_degree_text = Some ''Bachelor of Science'', jb_education = None,
     jb_extracted_min = None, jb_required_capabilities = [''Demand Management''], jb_preferred_capabilities = [],
     jb_has_embedding = True\<rparr>"

definition example_resume :: "nat \<Rightarrow> int \<Rightarrow> rat \<Rightarrow> resume_version" where
  "example_resume i created years = \<lparr>rv_id = i, rv_candidate = 3, rv_number = int i, rv_parsed = True, rv_created = created,
     rv_eligible = Some True, rv_work = [], rv_years = Some years, rv_education = [],
     rv_text = \<lparr>rt_summary = Some ''Led demand intake'', rt_work = [], rt_projects = []\<rparr>\<rparr>"

definition selection_db :: skill_db where
  "selection_db = (skill_example [(2, SM_FUZZY)])\<lparr>sd_candidates :=
     [\<lparr>cs_resume = 9, cs_skill = Some 2, cs_weight = 8 / 10, cs_tier = SM_FUZZY, cs_confidence = None\<rparr>,
      \<lparr>cs_resume = 8, cs_skill = Some 1, cs_weight = 1, cs_tier = SM_EXACT, cs_confidence = None\<rparr>]\<rparr>"

definition selection_campaign :: campaign_row where
  "selection_campaign = \<lparr>ca_id = 5, ca_org = None, ca_jd = 7, ca_name = ''c'', ca_status = CS_ACTIVE, ca_w_det = 30, ca_w_sem = 40,
     ca_w_ai = 30, ca_sem_threshold = 65 / 100, ca_ai_threshold = 50, ca_det_threshold = 70, ca_coverage = 0,
     ca_max_missing_core = 3, ca_max = None, ca_deadline = None, ca_prompt = 1, ca_ai_prompt = None, ca_manager = ''hm'',
     ca_recruiter = ''rec'', ca_created_by = ''hr'', ca_updated_at = None\<rparr>"

text \<open>The fresh versions 8 and 9 are compared, the stale version 10 is not; 8 has the skill itself.\<close>

lemma resume_selected_best_witness:
  "\<exists>res. select_resume example_libs selection_db 20000000 selection_campaign (Some example_job) 3
       [example_resume 8 19000000 5, example_resume 9 19000000 5, example_resume 10 0 9] = Inr res
     \<and> rv_id (sr_resume res) = 8 \<and> map (\<lambda>e. rv_id (er_resume e)) (sr_evaluated res) = [9, 8]
     \<and> sr_method res = SEL_COMPARED \<and> is_eligible selection_db 20000000 (sr_resume res)"
proof -
  let ?rvs = "[example_resume 8 19000000 5, example_resume 9 19000000 5, example_resume 10 0 9]"
  let ?run = "select_resume example_libs selection_db 20000000 selection_campaign (Some example_job) 3 ?rvs"
  have r: "map_sum id (\<lambda>res. (rv_id (sr_resume res), map (\<lambda>e. rv_id (er_resume e)) (sr_evaluated res), sr_method res)) ?run
      = Inr (8, [9, 8], SEL_COMPARED)" by code_simp
  then obtain res where run: "?run = Inr res" by (cases ?run) auto
  have one: "one_skill_each selection_db" by code_simp
  have jd: "jb_id example_job = ca_jd selection_campaign" by (simp add: example_job_def selection_campaign_def)
  have "is_eligible selection_db 20000000 (sr_resume res)" using resume_selected_best[OF one jd run] by blast
  then show ?thesis using run r by auto
qed

end
