(* ===== verification/Spec2Isabelle.thy ===== *)
theory Spec2Isabelle
  imports Transition_Table Interview_Rounds Interview_Store Interviewer_List Stage_State Stage_Transition
    Stage_Transition_Props Pipeline_Moves Pipeline_Moves_Props Pipeline_Outcomes Interview_Notices
    Interview_Service Interview_Service_Props Interview_Life Interview_Feedback Task_Failures
    Screening_Tasks Screening_Frames Screening_Props Screening_Outcomes Screening_Examples
    Resume_Intake Resume_Intake_Props Resume_Intake_Outcomes Resume_Intake_Examples Bulk_Upload_Examples
    Dead_Letters Dead_Letters_Props Stalled_Candidates Dead_Letter_Examples Skill_Ontology Skill_Ontology_Props Skill_Ontology_Examples
    Score_Rounding Skill_Scoring Skill_Scoring_Props Education_Matching Experience_Education Domain_Matching
    Score_Blend Score_Blend_Props Composite_Score Resume_Selection Campaign_Lifecycle_Props
begin

text \<open>
  AI hiring module: plan of the development.
\<close>

end
